(* ===== verification/Rust_Prelude.thy ===== *)
theory Rust_Prelude
  imports Main "HOL-Library.Signed_Division"
begin

text \<open>
  Shared vocabulary of the development: Rust's machine integers, its \<^verbatim>\<open>Result\<close> and
  \<^verbatim>\<open>Option\<close> plumbing, and the generic list lemmas the component theories rest on.

  Machine integers are HOL integers, and every operation of the source that can leave the
  width of its type is written with its checked, saturating or wrapping variant below, so
  the width appears exactly where the source's behaviour depends on it. The predicates
  \<open>in_i64\<close>, \<open>in_u32\<close>, \dots{} say that a value is representable; they are hypotheses of
  theorems about inputs and never hidden in the definitions.

  A fallible function returns \<open>'e + 'a\<close> with \<open>Inl\<close> for the error; \<open>rbind\<close> is the
  \<^verbatim>\<open>?\<close> operator.
\<close>

named_theorems rust_int \<open>checked, saturating and wrapping machine arithmetic\<close>
named_theorems result_simps \<open>the Result plumbing\<close>

section \<open>Machine integers\<close>

definition i32_min :: int where "i32_min = - (2 ^ 31)"
definition i32_max :: int where "i32_max = 2 ^ 31 - 1"
definition i64_min :: int where "i64_min = - (2 ^ 63)"
definition i64_max :: int where "i64_max = 2 ^ 63 - 1"
definition i128_min :: int where "i128_min = - (2 ^ 127)"
definition i128_max :: int where "i128_max = 2 ^ 127 - 1"
definition u8_max :: int where "u8_max = 2 ^ 8 - 1"
definition u32_max :: int where "u32_max = 2 ^ 32 - 1"
definition u64_max :: int where "u64_max = 2 ^ 64 - 1"
definition u128_max :: int where "u128_max = 2 ^ 128 - 1"

definition in_i32 :: "int \<Rightarrow> bool" where "in_i32 x \<longleftrightarrow> i32_min \<le> x \<and> x \<le> i32_max"
definition in_i64 :: "int \<Rightarrow> bool" where "in_i64 x \<longleftrightarrow> i64_min \<le> x \<and> x \<le> i64_max"
definition in_i128 :: "int \<Rightarrow> bool" where "in_i128 x \<longleftrightarrow> i128_min \<le> x \<and> x \<le> i128_max"
definition in_u8 :: "int \<Rightarrow> bool" where "in_u8 x \<longleftrightarrow> 0 \<le> x \<and> x \<le> u8_max"
definition in_u32 :: "int \<Rightarrow> bool" where "in_u32 x \<longleftrightarrow> 0 \<le> x \<and> x \<le> u32_max"
definition in_u64 :: "int \<Rightarrow> bool" where "in_u64 x \<longleftrightarrow> 0 \<le> x \<and> x \<le> u64_max"

lemmas int_width_defs =
  i32_min_def i32_max_def i64_min_def i64_max_def i128_min_def i128_max_def
  u8_max_def u32_max_def u64_max_def u128_max_def
  in_i32_def in_i64_def in_i128_def in_u8_def in_u32_def in_u64_def

definition checked_add_i64 :: "int \<Rightarrow> int \<Rightarrow> int option" where
  "checked_add_i64 a b = (if in_i64 (a + b) then Some (a + b) else None)"

definition checked_sub_i64 :: "int \<Rightarrow> int \<Rightarrow> int option" where
  "checked_sub_i64 a b = (if in_i64 (a - b) then Some (a - b) else None)"

definition checked_mul_i64 :: "int \<Rightarrow> int \<Rightarrow> int option" where
  "checked_mul_i64 a b = (if in_i64 (a * b) then Some (a * b) else None)"

definition checked_mul_i128 :: "int \<Rightarrow> int \<Rightarrow> int option" where
  "checked_mul_i128 a b = (if in_i128 (a * b) then Some (a * b) else None)"

definition checked_add_i128 :: "int \<Rightarrow> int \<Rightarrow> int option" where
  "checked_add_i128 a b = (if in_i128 (a + b) then Some (a + b) else None)"

definition checked_mul_u32 :: "int \<Rightarrow> int \<Rightarrow> int option" where
  "checked_mul_u32 a b = (if in_u32 (a * b) then Some (a * b) else None)"

definition checked_add_u64 :: "int \<Rightarrow> int \<Rightarrow> int option" where
  "checked_add_u64 a b = (if in_u64 (a + b) then Some (a + b) else None)"

definition clamp_i64 :: "int \<Rightarrow> int" where
  "clamp_i64 x = max i64_min (min i64_max x)"

definition saturating_add_i64 :: "int \<Rightarrow> int \<Rightarrow> int" where
  "saturating_add_i64 a b = clamp_i64 (a + b)"

definition saturating_sub_i64 :: "int \<Rightarrow> int \<Rightarrow> int" where
  "saturating_sub_i64 a b = clamp_i64 (a - b)"

definition saturating_mul_i64 :: "int \<Rightarrow> int \<Rightarrow> int" where
  "saturating_mul_i64 a b = clamp_i64 (a * b)"

definition saturating_mul_i128 :: "int \<Rightarrow> int \<Rightarrow> int" where
  "saturating_mul_i128 a b = max i128_min (min i128_max (a * b))"

definition saturating_mul_u128 :: "int \<Rightarrow> int \<Rightarrow> int" where
  "saturating_mul_u128 a b = min u128_max (a * b)"

definition saturating_sub_u128 :: "int \<Rightarrow> int \<Rightarrow> int" where
  "saturating_sub_u128 a b = max 0 (a - b)"

definition saturating_add_u64 :: "int \<Rightarrow> int \<Rightarrow> int" where
  "saturating_add_u64 a b = min u64_max (a + b)"

text \<open>Two's complement wrap-around of a plain \<^verbatim>\<open>i64\<close> operator in a release build.\<close>

definition wrap_i64 :: "int \<Rightarrow> int" where
  "wrap_i64 x = (x + 2 ^ 63) mod 2 ^ 64 - 2 ^ 63"

definition try_i64 :: "int \<Rightarrow> int option" where
  "try_i64 x = (if in_i64 x then Some x else None)"

definition try_u64 :: "int \<Rightarrow> int option" where
  "try_u64 x = (if in_u64 x then Some x else None)"

text \<open>\<^verbatim>\<open>u128::div_ceil\<close> on a positive divisor.\<close>

definition div_ceil :: "int \<Rightarrow> int \<Rightarrow> int" where
  "div_ceil a b = (a + b - 1) div b"

lemma sdiv_nonneg [rust_int]: "0 \<le> a \<Longrightarrow> 0 < b \<Longrightarrow> a sdiv b = a div (b::int)"
  by (cases "a = 0") (simp_all add: signed_divide_int_def)

lemma smod_nonneg [rust_int]: "0 \<le> a \<Longrightarrow> 0 < b \<Longrightarrow> a smod b = a mod (b::int)"
  by (cases "a = 0") (simp_all add: signed_modulo_int_def)

text \<open>Division by a positive divisor as a Galois connection: every rounding fact of the
  development is an instance.\<close>

lemma le_int_div_iff:
  fixes a b q :: int
  assumes b: "0 < b"
  shows "q \<le> a div b \<longleftrightarrow> q * b \<le> a"
proof
  assume "q \<le> a div b"
  then have "q * b \<le> a div b * b" using b by (simp add: mult_right_mono)
  also have "\<dots> \<le> a" using b by (metis add_le_same_cancel1 div_mult_mod_eq le_add_same_cancel1 pos_mod_sign)
  finally show "q * b \<le> a" .
next
  assume "q * b \<le> a"
  then have "q * b div b \<le> a div b" using b by (rule zdiv_mono1)
  then show "q \<le> a div b" using b by simp
qed

lemma int_div_less_iff_mult: "0 < b \<Longrightarrow> a div b < q \<longleftrightarrow> a < q * b" for a b q :: int
  using le_int_div_iff [of b q a] by linarith

lemma int_div_eqI: "0 < b \<Longrightarrow> q * b \<le> a \<Longrightarrow> a < (q + 1) * b \<Longrightarrow> a div b = q" for a b q :: int
  using le_int_div_iff [of b q a] int_div_less_iff_mult [of b a "q + 1"] by linarith

lemma in_i64_0 [simp]: "in_i64 0"
  by (simp add: int_width_defs)

lemma wrap_i64_id [rust_int]: "in_i64 x \<Longrightarrow> wrap_i64 x = x"
  by (simp add: wrap_i64_def int_width_defs)

lemma clamp_i64_id [rust_int]: "in_i64 x \<Longrightarrow> clamp_i64 x = x"
  by (simp add: clamp_i64_def in_i64_def)

lemma in_i64_clamp [simp]: "in_i64 (clamp_i64 x)"
  by (auto simp: clamp_i64_def int_width_defs)

lemma clamp_i64_mono: "x \<le> y \<Longrightarrow> clamp_i64 x \<le> clamp_i64 y"
  by (auto simp: clamp_i64_def)

lemma in_i64_between: "in_i64 a \<Longrightarrow> in_i64 c \<Longrightarrow> a \<le> b \<Longrightarrow> b \<le> c \<Longrightarrow> in_i64 b"
  by (simp add: in_i64_def)

lemma in_i64_diff_nonneg: "in_i64 a \<Longrightarrow> in_i64 b \<Longrightarrow> 0 \<le> a \<Longrightarrow> 0 \<le> b \<Longrightarrow> in_i64 (a - b)"
  by (simp add: int_width_defs)

lemma checked_add_i64_Some [simp]:
  "checked_add_i64 a b = Some c \<longleftrightarrow> in_i64 (a + b) \<and> c = a + b"
  by (auto simp: checked_add_i64_def)

lemma checked_sub_i64_Some [simp]:
  "checked_sub_i64 a b = Some c \<longleftrightarrow> in_i64 (a - b) \<and> c = a - b"
  by (auto simp: checked_sub_i64_def)

lemma div_ceil_le_iff: "0 < b \<Longrightarrow> div_ceil a b \<le> c \<longleftrightarrow> a \<le> c * b"
proof -
  assume b: "0 < b"
  have "div_ceil a b \<le> c \<longleftrightarrow> (a + b - 1) div b < c + 1"
    by (simp add: div_ceil_def)
  also have "\<dots> \<longleftrightarrow> a + b - 1 < (c + 1) * b"
    using b by (rule int_div_less_iff_mult)
  also have "\<dots> \<longleftrightarrow> a \<le> c * b"
    by (simp add: algebra_simps) linarith
  finally show ?thesis .
qed

lemma div_ceil_nonneg: "0 \<le> a \<Longrightarrow> 0 < b \<Longrightarrow> 0 \<le> div_ceil a b"
  by (simp add: div_ceil_def pos_imp_zdiv_nonneg_iff)

section \<open>Result and Option\<close>

definition rbind :: "'e + 'a \<Rightarrow> ('a \<Rightarrow> 'e + 'b) \<Rightarrow> 'e + 'b" where
  "rbind m f = (case m of Inl e \<Rightarrow> Inl e | Inr x \<Rightarrow> f x)"

text \<open>Unfolded to a \<open>case\<close>, a continuation is only evaluated once its argument is a value.\<close>

declare rbind_def [code_unfold]

lemma rbind_Inl [simp, result_simps]: "rbind (Inl e) f = Inl e"
  by (simp add: rbind_def)

lemma rbind_Inr [simp, result_simps]: "rbind (Inr x) f = f x"
  by (simp add: rbind_def)

lemma rbind_eq_Inr [result_simps]: "rbind m f = Inr y \<longleftrightarrow> (\<exists>x. m = Inr x \<and> f x = Inr y)"
  by (cases m) simp_all

lemma rbind_eq_Inl: "rbind m f = Inl e \<longleftrightarrow> m = Inl e \<or> (\<exists>x. m = Inr x \<and> f x = Inl e)"
  by (cases m) simp_all

lemma rbind_cong [fundef_cong]:
  "m = n \<Longrightarrow> (\<And>x. n = Inr x \<Longrightarrow> f x = g x) \<Longrightarrow> rbind m f = rbind n g"
  by (cases n) simp_all

lemma rbind_assoc: "rbind (rbind m f) g = rbind m (\<lambda>x. rbind (f x) g)"
  by (cases m) simp_all

definition ok_or :: "'e \<Rightarrow> 'a option \<Rightarrow> 'e + 'a" where
  "ok_or e m = (case m of None \<Rightarrow> Inl e | Some x \<Rightarrow> Inr x)"

lemma ok_or_simps [simp, result_simps]: "ok_or e None = Inl e" "ok_or e (Some x) = Inr x"
  by (simp_all add: ok_or_def)

lemma ok_or_eq_Inr [simp, result_simps]: "ok_or e m = Inr x \<longleftrightarrow> m = Some x"
  by (cases m) simp_all

lemma ok_or_eq_Inl [simp]: "ok_or e m = Inl e' \<longleftrightarrow> m = None \<and> e' = e"
  by (cases m) auto

definition map_err :: "('e \<Rightarrow> 'f) \<Rightarrow> 'e + 'a \<Rightarrow> 'f + 'a" where
  "map_err f m = (case m of Inl e \<Rightarrow> Inl (f e) | Inr x \<Rightarrow> Inr x)"

lemma map_err_simps [simp, result_simps]: "map_err f (Inl e) = Inl (f e)" "map_err f (Inr x) = Inr x"
  by (simp_all add: map_err_def)

lemma map_err_eq_Inr [simp, result_simps]: "map_err f m = Inr x \<longleftrightarrow> m = Inr x"
  by (cases m) simp_all

definition is_ok_and :: "('a \<Rightarrow> bool) \<Rightarrow> 'e + 'a \<Rightarrow> bool" where
  "is_ok_and P m = (case m of Inl _ \<Rightarrow> False | Inr x \<Rightarrow> P x)"

lemma is_ok_and_simps [simp]: "is_ok_and P (Inl e) = False" "is_ok_and P (Inr x) = P x"
  by (simp_all add: is_ok_and_def)

text \<open>\<^verbatim>\<open>return Err(e)\<close> when a guard fails, and a loop of checks in list order.\<close>

definition ensure :: "bool \<Rightarrow> 'e \<Rightarrow> 'e + unit" where
  "ensure b e = (if b then Inr () else Inl e)"

lemma ensure_eq_Inr [simp, result_simps]: "ensure b e = Inr u \<longleftrightarrow> b"
  by (simp add: ensure_def)

lemma ensure_True [simp]: "ensure True e = Inr ()"
  by (simp add: ensure_def)

lemma ensure_False [simp]: "ensure False e = Inl e"
  by (simp add: ensure_def)

fun for_each :: "('a \<Rightarrow> 'e + unit) \<Rightarrow> 'a list \<Rightarrow> 'e + unit" where
  "for_each f [] = Inr ()"
| "for_each f (x # xs) = rbind (f x) (\<lambda>_. for_each f xs)"

lemma for_each_cong [fundef_cong]:
  "xs = ys \<Longrightarrow> (\<And>x. x \<in> set ys \<Longrightarrow> f x = g x) \<Longrightarrow> for_each f xs = for_each g ys"
  by (induction ys arbitrary: xs) auto

lemma for_each_ok [simp, result_simps]: "for_each f xs = Inr u \<longleftrightarrow> (\<forall>x \<in> set xs. f x = Inr ())"
  by (induction xs) (auto simp: rbind_eq_Inr)

text \<open>A loop threading a state.\<close>

fun fold_res :: "('a \<Rightarrow> 's \<Rightarrow> 'e + 's) \<Rightarrow> 'a list \<Rightarrow> 's \<Rightarrow> 'e + 's" where
  "fold_res f [] s = Inr s"
| "fold_res f (x # xs) s = rbind (f x s) (fold_res f xs)"

fun map_res :: "('a \<Rightarrow> 'e + 'b) \<Rightarrow> 'a list \<Rightarrow> 'e + 'b list" where
  "map_res f [] = Inr []"
| "map_res f (x # xs) = rbind (f x) (\<lambda>y. rbind (map_res f xs) (\<lambda>ys. Inr (y # ys)))"

lemma map_res_eq_Inr:
  "map_res f xs = Inr ys \<longleftrightarrow> list_all2 (\<lambda>x y. f x = Inr y) xs ys"
  by (induction xs arbitrary: ys) (auto simp: rbind_eq_Inr list_all2_Cons1)

text \<open>A loop over items with a \<^verbatim>\<open>HashSet\<close> of the keys seen so far.\<close>

fun each_new :: "('a \<Rightarrow> 'k) \<Rightarrow> ('a \<Rightarrow> 'e) \<Rightarrow> ('a \<Rightarrow> 'e + unit) \<Rightarrow> 'k list \<Rightarrow> 'a list \<Rightarrow> 'e + unit" where
  "each_new key dup body seen [] = Inr ()"
| "each_new key dup body seen (x # xs) =
     (if key x \<in> set seen then Inl (dup x)
      else rbind (body x) (\<lambda>_. each_new key dup body (key x # seen) xs))"

lemma each_new_ok:
  "each_new key dup body seen xs = Inr u \<longleftrightarrow>
     distinct (map key xs) \<and> set seen \<inter> key ` set xs = {} \<and> (\<forall>x \<in> set xs. body x = Inr ())"
  by (induction xs arbitrary: seen) (auto simp: rbind_eq_Inr)

lemma each_new_ok_Nil [simp, result_simps]:
  "each_new key dup body [] xs = Inr u \<longleftrightarrow> distinct (map key xs) \<and> (\<forall>x \<in> set xs. body x = Inr ())"
  by (simp add: each_new_ok)

text \<open>Decimal rendering of an identifier, and blank texts (\<^verbatim>\<open>trim().is_empty()\<close>).\<close>

fun decimal_nat :: "nat \<Rightarrow> string" where
  "decimal_nat n = (if n < 10 then [char_of (48 + n)] else decimal_nat (n div 10) @ [char_of (48 + n mod 10)])"

declare decimal_nat.simps [simp del]

text \<open>
  A \<^typ>\<open>string\<close> of a document holds the bytes of a Rust \<^verbatim>\<open>String\<close>, which are valid UTF-8; a \<open>utext\<close> is a list of Unicode
  scalar values. A byte that does not continue a character starts one.
\<close>

type_synonym utext = "int list"

definition utf8_step :: "utext \<Rightarrow> char \<Rightarrow> utext" where
  "utf8_step acc c =
     (let b = of_char c
      in if 0x80 \<le> b \<and> b < 0xC0 then (case acc of [] \<Rightarrow> [] | p # ps \<Rightarrow> (p * 64 + (b - 0x80)) # ps)
         else (if b < 0x80 then b else if b < 0xE0 then b - 0xC0 else if b < 0xF0 then b - 0xE0 else b - 0xF0) # acc)"

definition utf8_chars :: "string \<Rightarrow> utext" where
  "utf8_chars s = rev (foldl utf8_step [] s)"

text \<open>\<^verbatim>\<open>char::is_whitespace\<close> is the Unicode property \<^verbatim>\<open>White_Space\<close>; a name is blank when \<^verbatim>\<open>trim().is_empty()\<close>.\<close>

definition is_whitespace :: "int \<Rightarrow> bool" where
  "is_whitespace c \<longleftrightarrow> (9 \<le> c \<and> c \<le> 13) \<or> c = 32 \<or> c = 0x85 \<or> c = 0xA0 \<or> c = 0x1680 \<or> (0x2000 \<le> c \<and> c \<le> 0x200A)
     \<or> c = 0x2028 \<or> c = 0x2029 \<or> c = 0x202F \<or> c = 0x205F \<or> c = 0x3000"

definition is_blank :: "string \<Rightarrow> bool" where
  "is_blank s \<longleftrightarrow> list_all is_whitespace (utf8_chars s)"

section \<open>Lists\<close>

text \<open>\<^verbatim>\<open>iter().position(p)\<close>\<close>

fun position :: "('a \<Rightarrow> bool) \<Rightarrow> 'a list \<Rightarrow> nat option" where
  "position P [] = None"
| "position P (x # xs) = (if P x then Some 0 else map_option Suc (position P xs))"

lemma position_Some:
  "position P xs = Some i \<Longrightarrow> i < length xs \<and> P (xs ! i) \<and> (\<forall>j < i. \<not> P (xs ! j))"
  by (induction xs arbitrary: i) (auto split: if_splits simp: less_Suc_eq_0_disj)

lemma position_None [simp]: "position P xs = None \<longleftrightarrow> (\<forall>x \<in> set xs. \<not> P x)"
  by (induction xs) auto

lemma position_eq_SomeI:
  "i < length xs \<Longrightarrow> P (xs ! i) \<Longrightarrow> (\<And>j. j < i \<Longrightarrow> \<not> P (xs ! j)) \<Longrightarrow> position P xs = Some i"
proof (induction xs arbitrary: i)
  case Nil
  then show ?case by simp
next
  case (Cons x xs)
  show ?case
  proof (cases i)
    case 0
    with Cons.prems show ?thesis by simp
  next
    case (Suc k)
    have "\<not> P x" using Cons.prems(3) [of 0] Suc by simp
    moreover have "position P xs = Some k"
    proof (rule Cons.IH)
      show "k < length xs" and "P (xs ! k)" using Cons.prems Suc by simp_all
      show "\<And>j. j < k \<Longrightarrow> \<not> P (xs ! j)" using Cons.prems(3) [of "Suc _"] Suc by simp
    qed
    ultimately show ?thesis using Suc by simp
  qed
qed

lemma find_Some_mem: "find P xs = Some x \<Longrightarrow> x \<in> set xs \<and> P x"
  by (induction xs) (auto split: if_splits)

text \<open>\<^verbatim>\<open>Vec::remove(i)\<close> and \<^verbatim>\<open>Vec::insert(i, x)\<close>\<close>

definition remove_at :: "nat \<Rightarrow> 'a list \<Rightarrow> 'a list" where
  "remove_at i xs = take i xs @ drop (Suc i) xs"

definition insert_at :: "nat \<Rightarrow> 'a \<Rightarrow> 'a list \<Rightarrow> 'a list" where
  "insert_at i x xs = take i xs @ x # drop i xs"

lemma set_remove_at_subset: "set (remove_at i xs) \<subseteq> set xs"
  by (auto simp: remove_at_def dest: in_set_takeD in_set_dropD)

lemma length_remove_at: "i < length xs \<Longrightarrow> length (remove_at i xs) = length xs - 1"
  by (auto simp: remove_at_def)

lemma set_insert_at [simp]: "set (insert_at i x xs) = insert x (set xs)"
  by (simp add: insert_at_def) (metis append_take_drop_id set_append)

lemma length_filter_strict:
  "\<lbrakk>b \<in> set xs; P b; \<not> Q b; \<And>x. Q x \<Longrightarrow> P x\<rbrakk> \<Longrightarrow> length (filter Q xs) < length (filter P xs)"
proof (induction xs)
  case (Cons x xs)
  have "length (filter Q xs) \<le> length (filter P xs)"
    by (induction xs) (auto dest: Cons.prems(4))
  with Cons show ?case by (cases "x = b") (auto simp: less_Suc_eq_le)
qed simp

lemma if_Inl_eq_Inr [simp]: "(if b then Inl e else m) = Inr x \<longleftrightarrow> \<not> b \<and> m = Inr x"
  by simp

lemma fold_max_ge: "fold (\<lambda>c. max (f c)) cs (d :: int) \<ge> d"
proof (induction cs arbitrary: d)
  case (Cons c cs)
  then show ?case using order_trans [OF max.cobounded2 Cons.IH] by simp
qed simp

lemma fold_max_upper: "c \<in> set cs \<Longrightarrow> f c \<le> fold (\<lambda>c. max (f c)) cs (d :: int)"
  by (induction cs arbitrary: d) (auto intro: order_trans [OF _ fold_max_ge])

lemma fold_max_attained: "fold (\<lambda>c. max (f c)) cs (d :: int) \<in> insert d (f ` set cs)"
  by (induction cs arbitrary: d) (auto simp: max_def)

lemma find_unique_key:
  "distinct (map f xs) \<Longrightarrow> x \<in> set xs \<Longrightarrow> find (\<lambda>y. f y = f x) xs = Some x"
  by (induction xs) (auto simp: rev_image_eqI)

end
