(* ===== verification/Time_Map.thy ===== *)
theory Time_Map
  imports Rust_Prelude
begin

text \<open>
  The exact frame-rate arithmetic of \<^verbatim>\<open>crates/kinewright-core/src/time.rs\<close>: rational frame
  rates, integer mapping of frame boundaries between time bases, the inverse mapping with
  its three-candidate window and bisection, and the room-tone covering search with its
  phase sweep. A \<open>timecode\<close> is the \<^verbatim>\<open>i64\<close> frame count of \<^verbatim>\<open>TimeCode\<close>.

  The first half of the theory holds the definitions, the second half the lemmas; the
  properties listed in the manifest stand last.
\<close>

section \<open>Definitions\<close>

type_synonym timecode = int

record trange =
  r_start :: timecode
  r_end :: timecode

abbreviation rng :: "timecode \<Rightarrow> timecode \<Rightarrow> trange" where
  "rng a b \<equiv> \<lparr>r_start = a, r_end = b\<rparr>"

definition timecode_checked_add :: "timecode \<Rightarrow> timecode \<Rightarrow> timecode option" where
  "timecode_checked_add a b = checked_add_i64 a b"

definition timecode_checked_sub :: "timecode \<Rightarrow> timecode \<Rightarrow> timecode option" where
  "timecode_checked_sub a b = checked_sub_i64 a b"

record rational =
  numerator :: int
  denominator :: int

datatype frame_rounding = Floor | Nearest | Ceil

datatype time_mapping_error =
    InvalidRate int int
  | NegativeFrames timecode
  | Overflow
  | InvalidRange int int
  | InexactDuration int int
  | NoCoveringSourceRange int int
  | SourceTooShortToCover int int int

function gcd_u32 :: "int \<Rightarrow> int \<Rightarrow> int" where
  "gcd_u32 lhs rhs = (if rhs \<noteq> 0 then gcd_u32 rhs (lhs mod rhs) else lhs)"
  by pat_completeness auto
termination
  by (relation "measure (\<lambda>(lhs, rhs). nat \<bar>rhs\<bar>)") (auto simp: abs_mod_less)

function gcd_i128 :: "int \<Rightarrow> int \<Rightarrow> int" where
  "gcd_i128 lhs rhs = (if rhs \<noteq> 0 then gcd_i128 rhs (lhs smod rhs) else lhs)"
  by pat_completeness auto
termination
  by (relation "measure (\<lambda>(lhs, rhs). nat \<bar>rhs\<bar>)")
     (auto simp: signed_modulo_int_def abs_mult sgn_if abs_mod_less)

declare gcd_u32.simps [simp del] gcd_i128.simps [simp del]

definition rational_new :: "int \<Rightarrow> int \<Rightarrow> time_mapping_error + rational" where
  "rational_new n d =
     (if n = 0 \<or> d = 0 then Inl (InvalidRate n d)
      else let divisor = gcd_u32 n d
           in Inr \<lparr>numerator = n div divisor, denominator = d div divisor\<rparr>)"

definition rational_is_valid :: "rational \<Rightarrow> bool" where
  "rational_is_valid r \<longleftrightarrow> numerator r \<noteq> 0 \<and> denominator r \<noteq> 0"

definition rational_default :: rational where
  "rational_default = \<lparr>numerator = 30, denominator = 1\<rparr>"

definition speed_scaled_fps :: "rational \<Rightarrow> int \<Rightarrow> time_mapping_error + rational" where
  "speed_scaled_fps fps speed_percent =
     (if speed_percent = 100 then Inr fps
      else rbind (ok_or Overflow (checked_mul_u32 (numerator fps) speed_percent)) (\<lambda>n.
           rbind (ok_or Overflow (checked_mul_u32 (denominator fps) 100)) (\<lambda>d.
           rational_new n d)))"

definition validate_rate :: "rational \<Rightarrow> time_mapping_error + unit" where
  "validate_rate rate =
     (if rational_is_valid rate then Inr ()
      else Inl (InvalidRate (numerator rate) (denominator rate)))"

definition map_frames_with_rounding ::
    "timecode \<Rightarrow> rational \<Rightarrow> rational \<Rightarrow> frame_rounding \<Rightarrow> time_mapping_error + timecode" where
  "map_frames_with_rounding frames source_fps project_fps rounding =
     rbind (validate_rate source_fps) (\<lambda>_.
     rbind (validate_rate project_fps) (\<lambda>_.
     if frames < 0 then Inl (NegativeFrames frames)
     else
     rbind (ok_or Overflow
        (Option.bind (checked_mul_i128 frames (numerator project_fps))
           (\<lambda>v. checked_mul_i128 v (denominator source_fps)))) (\<lambda>num.
     rbind (ok_or Overflow
        (checked_mul_i128 (numerator source_fps) (denominator project_fps))) (\<lambda>den.
     rbind (case rounding of
              Floor \<Rightarrow> Inr (num sdiv den)
            | Nearest \<Rightarrow> rbind (ok_or Overflow (checked_add_i128 num (den sdiv 2))) (\<lambda>v. Inr (v sdiv den))
            | Ceil \<Rightarrow> rbind (ok_or Overflow (checked_add_i128 num (den - 1))) (\<lambda>v. Inr (v sdiv den)))
       (\<lambda>mapped. ok_or Overflow (try_i64 mapped))))))"

definition map_frames :: "timecode \<Rightarrow> rational \<Rightarrow> rational \<Rightarrow> time_mapping_error + timecode" where
  "map_frames frames source_fps project_fps =
     map_frames_with_rounding frames source_fps project_fps Nearest"

definition map_source_range_to_project ::
    "trange \<Rightarrow> rational \<Rightarrow> rational \<Rightarrow> time_mapping_error + timecode" where
  "map_source_range_to_project source source_fps project_fps =
     (if r_start source < 0 \<or> r_end source \<le> r_start source
      then Inl (InvalidRange (r_start source) (r_end source))
      else rbind (map_frames (r_start source) source_fps project_fps) (\<lambda>start.
           rbind (map_frames (r_end source) source_fps project_fps) (\<lambda>end.
           ok_or Overflow (timecode_checked_sub end start))))"

text \<open>The candidate window \<^verbatim>\<open>for offset in -1..=1\<close> of the inverse mapping.\<close>

definition exact_end :: "timecode \<Rightarrow> timecode \<Rightarrow> rational \<Rightarrow> rational \<Rightarrow> timecode \<Rightarrow> bool" where
  "exact_end source_start project_duration source_fps project_fps end =
     is_ok_and (\<lambda>mapped. mapped = project_duration)
       (map_source_range_to_project (rng source_start end) source_fps project_fps)"

fun find_window ::
    "timecode \<Rightarrow> timecode \<Rightarrow> rational \<Rightarrow> rational \<Rightarrow> timecode \<Rightarrow> int list \<Rightarrow> timecode option" where
  "find_window source_start project_duration source_fps project_fps estimate [] = None"
| "find_window source_start project_duration source_fps project_fps estimate (offset # offsets) =
     (case Option.bind (checked_add_i64 estimate offset) (\<lambda>frames. checked_add_i64 frames source_start) of
        None \<Rightarrow> find_window source_start project_duration source_fps project_fps estimate offsets
      | Some end \<Rightarrow>
          if source_start < end \<and> exact_end source_start project_duration source_fps project_fps end
          then Some end
          else find_window source_start project_duration source_fps project_fps estimate offsets)"

function bisect_exact ::
    "timecode \<Rightarrow> timecode \<Rightarrow> rational \<Rightarrow> rational \<Rightarrow> int \<Rightarrow> int \<Rightarrow> int" where
  "bisect_exact source_start project_duration source_fps project_fps low high =
     (if low < high then
        let middle = low + (high - low) sdiv 2
        in if is_ok_and (\<lambda>mapped. project_duration \<le> mapped)
                (map_source_range_to_project (rng source_start middle) source_fps project_fps)
           then bisect_exact source_start project_duration source_fps project_fps low middle
           else bisect_exact source_start project_duration source_fps project_fps (middle + 1) high
      else low)"
  by pat_completeness auto
termination
proof (relation "measure (\<lambda>(ss, pd, sf, pf, low, high). nat (high - low))", goal_cases)
  case 1
  then show ?case by simp
next
  case (2 ss pd sf pf low high middle)
  then have "middle = low + (high - low) div 2" by (simp add: sdiv_nonneg)
  with 2 show ?case by auto
next
  case (3 ss pd sf pf low high middle)
  then have "middle = low + (high - low) div 2" by (simp add: sdiv_nonneg)
  with 3 show ?case by auto
qed

declare bisect_exact.simps [simp del]

definition map_project_duration_to_source ::
    "timecode \<Rightarrow> timecode \<Rightarrow> rational \<Rightarrow> rational \<Rightarrow> time_mapping_error + timecode" where
  "map_project_duration_to_source source_start project_duration source_fps project_fps =
     rbind (validate_rate source_fps) (\<lambda>_.
     rbind (validate_rate project_fps) (\<lambda>_.
     if source_start < 0 then Inl (NegativeFrames source_start)
     else if project_duration < 0 then Inl (NegativeFrames project_duration)
     else if project_duration = 0 then Inl (InvalidRange source_start source_start)
     else
     rbind (map_frames project_duration project_fps source_fps) (\<lambda>estimate.
     case find_window source_start project_duration source_fps project_fps estimate [-1, 0, 1] of
       None \<Rightarrow> Inl (InexactDuration source_start project_duration)
     | Some end \<Rightarrow>
         Inr (bisect_exact source_start project_duration source_fps project_fps
                (saturating_add_i64 source_start 1) end))))"

subsection \<open>Covering a gap with sample frames\<close>

definition MAX_PHASE_CANDIDATES :: int where "MAX_PHASE_CANDIDATES = 4096"

definition MAX_TILE_SEARCH_STEPS :: nat where "MAX_TILE_SEARCH_STEPS = 2048"

definition frame_sample_position :: "timecode \<Rightarrow> int \<Rightarrow> rational \<Rightarrow> int" where
  "frame_sample_position frame sample_rate fps =
     (if frame \<le> 0 then 0
      else saturating_mul_u128 (saturating_mul_u128 frame sample_rate) (denominator fps)
           div numerator fps)"

definition required_sample_frames :: "timecode \<Rightarrow> int \<Rightarrow> rational \<Rightarrow> int" where
  "required_sample_frames project_duration sample_rate fps =
     (if project_duration \<le> 0 then 0
      else div_ceil
             (saturating_mul_u128 (saturating_mul_u128 project_duration sample_rate) (denominator fps))
             (numerator fps))"

definition minimum_source_frames :: "int \<Rightarrow> int \<Rightarrow> rational \<Rightarrow> int" where
  "minimum_source_frames required sample_rate source_fps =
     (case try_i64 (div_ceil (saturating_mul_u128 required (numerator source_fps))
                     (saturating_mul_u128 sample_rate (denominator source_fps))) of
        None \<Rightarrow> i64_max | Some v \<Rightarrow> v)"

text \<open>The period of the joint frame and sample pattern, and the phases swept.\<close>

definition phase_period :: "rational \<Rightarrow> rational \<Rightarrow> int \<Rightarrow> int" where
  "phase_period source_fps project_fps sample_rate =
     (let ratio_numerator = numerator source_fps * denominator project_fps;
          ratio_denominator = denominator source_fps * numerator project_fps;
          map_period = ratio_numerator sdiv gcd_i128 ratio_numerator ratio_denominator;
          sample_period = numerator source_fps
            sdiv gcd_i128 (sample_rate * denominator source_fps) (numerator source_fps)
      in saturating_mul_i128 (map_period sdiv gcd_i128 map_period sample_period) sample_period)"

definition phase_candidates :: "rational \<Rightarrow> rational \<Rightarrow> int \<Rightarrow> int" where
  "phase_candidates source_fps project_fps sample_rate =
     max 1 (min MAX_PHASE_CANDIDATES
       (case try_i64 (phase_period source_fps project_fps sample_rate) of
          None \<Rightarrow> i64_max | Some v \<Rightarrow> v))"

text \<open>The inner \<^verbatim>\<open>while end <= source_duration\<close> loop: the exact run of one phase, walked upward.\<close>

function walk_exact_run ::
    "timecode \<Rightarrow> rational \<Rightarrow> rational \<Rightarrow> timecode \<Rightarrow> int \<Rightarrow> int \<Rightarrow> timecode \<Rightarrow> timecode \<Rightarrow> trange option" where
  "walk_exact_run project_duration source_fps project_fps source_duration sample_rate required start end =
     (if end \<le> source_duration then
        if required \<le> saturating_sub_u128 (frame_sample_position end sample_rate source_fps)
                        (frame_sample_position start sample_rate source_fps)
        then Some (rng start end)
        else let next = saturating_add_i64 end 1
             in if next \<le> end \<or>
                   map_source_range_to_project (rng start next) source_fps project_fps
                     \<noteq> Inr project_duration
                then None
                else walk_exact_run project_duration source_fps project_fps source_duration
                       sample_rate required start next
      else None)"
  by pat_completeness auto
termination
  by (relation "measure (\<lambda>(pd, sf, pf, sd, sr, req, start, end). nat (sd - end + 1))") auto

declare walk_exact_run.simps [simp del]

text \<open>The outer \<^verbatim>\<open>for start in 0..phase_candidates\<close> loop.\<close>

function phase_sweep ::
    "timecode \<Rightarrow> rational \<Rightarrow> rational \<Rightarrow> timecode \<Rightarrow> int \<Rightarrow> int \<Rightarrow> int \<Rightarrow> timecode \<Rightarrow> bool
      \<Rightarrow> time_mapping_error + trange" where
  "phase_sweep project_duration source_fps project_fps source_duration sample_rate required
      candidates start any_exact =
     (if start < candidates then
        case map_project_duration_to_source start project_duration source_fps project_fps of
          Inl _ \<Rightarrow> phase_sweep project_duration source_fps project_fps source_duration sample_rate
                     required candidates (start + 1) any_exact
        | Inr smallest \<Rightarrow>
            (case walk_exact_run project_duration source_fps project_fps source_duration sample_rate
                    required start smallest of
               Some r \<Rightarrow> Inr r
             | None \<Rightarrow> phase_sweep project_duration source_fps project_fps source_duration sample_rate
                     required candidates (start + 1) True)
      else if any_exact then Inl (NoCoveringSourceRange project_duration source_duration)
      else Inl (InexactDuration 0 project_duration))"
  by pat_completeness auto
termination
  by (relation "measure (\<lambda>(pd, sf, pf, sd, sr, req, n, start, any). nat (n - start))") auto

declare phase_sweep.simps [simp del]

definition covering_source_range_for_project_duration ::
    "timecode \<Rightarrow> rational \<Rightarrow> rational \<Rightarrow> timecode \<Rightarrow> int \<Rightarrow> time_mapping_error + trange" where
  "covering_source_range_for_project_duration project_duration source_fps project_fps
      source_duration sample_rate =
     rbind (validate_rate source_fps) (\<lambda>_.
     rbind (validate_rate project_fps) (\<lambda>_.
     rbind (rational_new sample_rate 1) (\<lambda>_.
     if project_duration \<le> 0 then Inl (InvalidRange 0 project_duration)
     else if source_duration \<le> 0 then Inl (InvalidRange 0 source_duration)
     else
       let required = required_sample_frames project_duration sample_rate project_fps;
           minimum = minimum_source_frames required sample_rate source_fps
       in if source_duration < minimum
          then Inl (SourceTooShortToCover project_duration source_duration minimum)
          else phase_sweep project_duration source_fps project_fps source_duration sample_rate
                 required (phase_candidates source_fps project_fps sample_rate) 0 False)))"

text \<open>The bounded downward scan of \<^verbatim>\<open>longest_coverable_project_tile\<close>.\<close>

fun tile_scan ::
    "timecode \<Rightarrow> rational \<Rightarrow> rational \<Rightarrow> int \<Rightarrow> nat \<Rightarrow> timecode \<Rightarrow> time_mapping_error option
      \<Rightarrow> time_mapping_error option + (timecode \<times> trange)" where
  "tile_scan source_duration source_fps project_fps sample_rate 0 want refusal = Inl refusal"
| "tile_scan source_duration source_fps project_fps sample_rate (Suc steps) want refusal =
     (if want < 1 then Inl refusal
      else case covering_source_range_for_project_duration want source_fps project_fps
                  source_duration sample_rate of
             Inr r \<Rightarrow> Inr (want, r)
           | Inl e \<Rightarrow> tile_scan source_duration source_fps project_fps sample_rate steps (want - 1) (Some e))"

definition longest_coverable_project_tile ::
    "timecode \<Rightarrow> rational \<Rightarrow> rational \<Rightarrow> int \<Rightarrow> timecode \<Rightarrow> time_mapping_error + (timecode \<times> trange)" where
  "longest_coverable_project_tile source_duration source_fps project_fps sample_rate max_project_frames =
     rbind (validate_rate source_fps) (\<lambda>_.
     rbind (validate_rate project_fps) (\<lambda>_.
     rbind (rational_new sample_rate 1) (\<lambda>_.
     if source_duration \<le> 0 then Inl (InvalidRange 0 source_duration)
     else if max_project_frames \<le> 0 then Inl (InvalidRange 0 max_project_frames)
     else
     rbind (map_source_range_to_project (rng 0 source_duration) source_fps project_fps) (\<lambda>whole.
     map_err (\<lambda>refusal. case refusal of
                 Some e \<Rightarrow> e
               | None \<Rightarrow>
                   (case covering_source_range_for_project_duration 1 source_fps project_fps
                           source_duration sample_rate of
                      Inl e \<Rightarrow> e
                    | Inr _ \<Rightarrow> NoCoveringSourceRange 1 source_duration))
       (tile_scan source_duration source_fps project_fps sample_rate MAX_TILE_SEARCH_STEPS
          (min whole max_project_frames) None)))))"


section \<open>The closed form of the mapping\<close>

text \<open>
  A rate of a validated document: both components positive and inside \<^verbatim>\<open>u32\<close>.
\<close>

definition rate_ok :: "rational \<Rightarrow> bool" where
  "rate_ok r \<longleftrightarrow> 0 < numerator r \<and> numerator r \<le> u32_max
     \<and> 0 < denominator r \<and> denominator r \<le> u32_max"

text \<open>
  Round-to-nearest as one integer formula: \<open>source_scale\<close> source frames are worth
  \<open>project_scale\<close> project frames.
\<close>

definition project_scale :: "rational \<Rightarrow> rational \<Rightarrow> int" where
  "project_scale sf pf = numerator pf * denominator sf"

definition source_scale :: "rational \<Rightarrow> rational \<Rightarrow> int" where
  "source_scale sf pf = numerator sf * denominator pf"

definition nearest :: "rational \<Rightarrow> rational \<Rightarrow> timecode \<Rightarrow> timecode" where
  "nearest sf pf f = (f * project_scale sf pf + source_scale sf pf div 2) div source_scale sf pf"

lemma scales_swap: "project_scale sf pf = source_scale pf sf"
  by (simp add: project_scale_def source_scale_def mult.commute)

lemma scale_bounds:
  assumes "rate_ok sf" "rate_ok pf"
  shows "0 < source_scale sf pf" "source_scale sf pf \<le> u32_max * u32_max"
    "0 < project_scale sf pf" "project_scale sf pf \<le> u32_max * u32_max"
proof -
  have "numerator sf * denominator pf \<le> u32_max * u32_max"
    using assms by (intro mult_mono) (auto simp: rate_ok_def)
  moreover have "numerator pf * denominator sf \<le> u32_max * u32_max"
    using assms by (intro mult_mono) (auto simp: rate_ok_def)
  ultimately show "0 < source_scale sf pf" "source_scale sf pf \<le> u32_max * u32_max"
    "0 < project_scale sf pf" "project_scale sf pf \<le> u32_max * u32_max"
    using assms by (auto simp: rate_ok_def source_scale_def project_scale_def)
qed

lemma rate_ok_valid: "rate_ok r \<Longrightarrow> rational_is_valid r"
  by (simp add: rate_ok_def rational_is_valid_def)

lemma validate_rate_ok [simp]: "rate_ok r \<Longrightarrow> validate_rate r = Inr ()"
  by (simp add: validate_rate_def rate_ok_valid)

text \<open>No intermediate \<^verbatim>\<open>i128\<close> product of the mapping can overflow.\<close>

lemma scaled_frames_bounds:
  assumes "rate_ok sf" "rate_ok pf" "0 \<le> f" "f \<le> i64_max"
  shows "0 \<le> f * project_scale sf pf"
    and "f * project_scale sf pf \<le> i64_max * (u32_max * u32_max)"
proof -
  note b = scale_bounds [OF assms(1,2)]
  show "0 \<le> f * project_scale sf pf" using assms(3) b(3) by simp
  show "f * project_scale sf pf \<le> i64_max * (u32_max * u32_max)"
    using assms(3,4) b(3,4) by (intro mult_mono) (auto simp: int_width_defs)
qed

lemma frame_products_i128:
  assumes "rate_ok sf" "rate_ok pf" "0 \<le> f" "f \<le> i64_max"
  shows "checked_mul_i128 f (numerator pf) = Some (f * numerator pf)"
    and "checked_mul_i128 (f * numerator pf) (denominator sf) = Some (f * project_scale sf pf)"
    and "checked_mul_i128 (numerator sf) (denominator pf) = Some (source_scale sf pf)"
    and "0 \<le> x \<Longrightarrow> x < source_scale sf pf \<Longrightarrow>
           checked_add_i128 (f * project_scale sf pf) x = Some (f * project_scale sf pf + x)"
proof -
  note s = scale_bounds [OF assms(1,2)] and p = scaled_frames_bounds [OF assms]
  have n: "f * numerator pf \<le> i64_max * u32_max"
    using assms by (intro mult_mono) (auto simp: rate_ok_def int_width_defs)
  have n0: "0 \<le> f * numerator pf" using assms by (simp add: rate_ok_def)
  show "checked_mul_i128 f (numerator pf) = Some (f * numerator pf)"
    using n n0 by (simp add: checked_mul_i128_def int_width_defs)
  show "checked_mul_i128 (f * numerator pf) (denominator sf) = Some (f * project_scale sf pf)"
    using p by (simp add: checked_mul_i128_def int_width_defs project_scale_def mult.assoc)
  show "checked_mul_i128 (numerator sf) (denominator pf) = Some (source_scale sf pf)"
    using s(1,2) by (simp add: checked_mul_i128_def int_width_defs source_scale_def)
  show "checked_add_i128 (f * project_scale sf pf) x = Some (f * project_scale sf pf + x)"
    if "0 \<le> x" "x < source_scale sf pf"
    using p s(2) that by (simp add: checked_add_i128_def int_width_defs)
qed

definition rounded :: "frame_rounding \<Rightarrow> rational \<Rightarrow> rational \<Rightarrow> timecode \<Rightarrow> timecode" where
  "rounded r sf pf f =
     (f * project_scale sf pf
        + (case r of Floor \<Rightarrow> 0 | Nearest \<Rightarrow> source_scale sf pf div 2 | Ceil \<Rightarrow> source_scale sf pf - 1))
     div source_scale sf pf"

lemma nearest_rounded: "nearest sf pf = rounded Nearest sf pf"
  by (rule ext) (simp add: nearest_def rounded_def)

lemma rounded_nonneg:
  assumes "rate_ok sf" "rate_ok pf" "0 \<le> f"
  shows "0 \<le> rounded r sf pf f"
proof -
  note s = scale_bounds [OF assms(1,2)]
  have "0 \<le> f * project_scale sf pf" using s(3) assms(3) by simp
  then show ?thesis
    using s(1) by (cases r) (auto simp: rounded_def intro!: divide_nonneg_nonneg pos_imp_zdiv_nonneg_iff [THEN iffD2])
qed

lemma map_frames_with_rounding_eq:
  assumes "rate_ok sf" "rate_ok pf" "0 \<le> f" "f \<le> i64_max"
  shows "map_frames_with_rounding f sf pf r = ok_or Overflow (try_i64 (rounded r sf pf f))"
proof -
  note s = scale_bounds [OF assms(1,2)] and p = scaled_frames_bounds [OF assms]
    and c = frame_products_i128 [OF assms]
  have h: "source_scale sf pf sdiv 2 = source_scale sf pf div 2"
    using s(1) by (simp add: sdiv_nonneg)
  have half: "source_scale sf pf div 2 < source_scale sf pf" using s(1) by simp
  have "0 \<le> source_scale sf pf div 2" using s(1) by simp
  note add = c(4) [OF this half] c(4) [of "source_scale sf pf - 1"]
  show ?thesis
    using assms(3) s(1) p(1)
    by (cases r) (simp_all add: map_frames_with_rounding_def assms(1,2) c(1-3) h add
        rounded_def sdiv_nonneg)
qed

lemma map_frames_eq:
  assumes "rate_ok sf" "rate_ok pf" "0 \<le> f" "f \<le> i64_max"
  shows "map_frames f sf pf = ok_or Overflow (try_i64 (nearest sf pf f))"
  by (simp add: map_frames_def map_frames_with_rounding_eq [OF assms] nearest_rounded)

lemma nearest_mono:
  assumes "rate_ok sf" "rate_ok pf" "a \<le> b"
  shows "nearest sf pf a \<le> nearest sf pf b"
  using scale_bounds [OF assms(1,2)] assms(3)
  by (auto simp: nearest_def intro!: zdiv_mono1 mult_right_mono)

lemma nearest_nonneg: "rate_ok sf \<Longrightarrow> rate_ok pf \<Longrightarrow> 0 \<le> f \<Longrightarrow> 0 \<le> nearest sf pf f"
  by (simp add: nearest_rounded rounded_nonneg)

lemma nearest_eq_iff:
  assumes "rate_ok sf" "rate_ok pf"
  shows "nearest sf pf f = q \<longleftrightarrow>
    q * source_scale sf pf \<le> f * project_scale sf pf + source_scale sf pf div 2 \<and>
    f * project_scale sf pf + source_scale sf pf div 2 < (q + 1) * source_scale sf pf"
  using le_int_div_iff [of "source_scale sf pf" q] scale_bounds(1) [OF assms]
    int_div_less_iff_mult [of "source_scale sf pf" _ "q + 1"]
  unfolding nearest_def by (metis eq_iff int_div_eqI le_less zless_add1_eq)

text \<open>A source range is worth the difference of its mapped boundaries, and the only way
  it can fail is a mapped end outside \<^verbatim>\<open>i64\<close>.\<close>

lemma map_source_range_eq:
  assumes "rate_ok sf" "rate_ok pf" "0 \<le> a" "a < b" "b \<le> i64_max"
  shows "map_source_range_to_project (rng a b) sf pf =
    (if nearest sf pf b \<le> i64_max then Inr (nearest sf pf b - nearest sf pf a) else Inl Overflow)"
proof -
  have ab: "nearest sf pf a \<le> nearest sf pf b" using assms by (simp add: nearest_mono)
  have a0: "0 \<le> nearest sf pf a" using assms by (simp add: nearest_nonneg)
  have ma: "map_frames a sf pf = ok_or Overflow (try_i64 (nearest sf pf a))"
    and mb: "map_frames b sf pf = ok_or Overflow (try_i64 (nearest sf pf b))"
    using assms by (simp_all add: map_frames_eq)
  have min: "i64_min \<le> 0" by (simp add: int_width_defs)
  show ?thesis
  proof (cases "nearest sf pf b \<le> i64_max")
    case True
    then have "in_i64 (nearest sf pf b - nearest sf pf a)"
      using ab a0 min by (simp add: in_i64_def)
    with True show ?thesis
      using ab a0 min assms(3,4)
      by (simp add: map_source_range_to_project_def ma mb try_i64_def in_i64_def
          timecode_checked_sub_def checked_sub_i64_def)
  next
    case False
    then show ?thesis
      using assms(3,4)
      by (simp add: map_source_range_to_project_def ma mb try_i64_def in_i64_def rbind_def
          split: sum.split)
  qed
qed

lemma map_source_range_InrD:
  assumes "map_source_range_to_project r sf pf = Inr d"
  shows "0 \<le> r_start r" "r_start r < r_end r"
  using assms by (auto simp: map_source_range_to_project_def split: if_splits)

section \<open>The inverse mapping\<close>

lemma exact_end_iff:
  assumes "rate_ok sf" "rate_ok pf" "0 \<le> s" "s < e" "e \<le> i64_max"
  shows "exact_end s d sf pf e \<longleftrightarrow>
    nearest sf pf e \<le> i64_max \<and> nearest sf pf e = nearest sf pf s + d"
  using map_source_range_eq [OF assms] by (auto simp: exact_end_def)

lemma exact_end_range: "exact_end s d sf pf e \<longleftrightarrow> map_source_range_to_project (rng s e) sf pf = Inr d"
  by (cases "map_source_range_to_project (rng s e) sf pf") (auto simp: exact_end_def)

lemma find_window_Some:
  "find_window s d sf pf est offs = Some e \<Longrightarrow>
     s < e \<and> e \<le> i64_max \<and> exact_end s d sf pf e"
  by (induction offs)
     (auto split: option.splits if_splits simp: in_i64_def bind_eq_Some_conv)

lemma find_window_None:
  assumes "find_window s d sf pf est offs = None" and "off \<in> set offs"
    and "in_i64 (est + off)" and "in_i64 (est + off + s)" and "s < est + off + s"
  shows "\<not> exact_end s d sf pf (est + off + s)"
  using assms
  by (induction offs)
     (auto split: option.splits if_splits simp: bind_eq_None_conv checked_add_i64_def)

text \<open>
  The bisection invariant: on a monotone mapping whose last element reaches the wanted
  duration, the loop returns the first element that does.
\<close>

lemma bisect_exact_least:
  assumes "rate_ok sf" "rate_ok pf" "0 \<le> s" "s < low" "low \<le> high" "high \<le> i64_max"
    and "nearest sf pf high \<le> i64_max" "nearest sf pf s + d \<le> nearest sf pf high"
  shows "low \<le> bisect_exact s d sf pf low high \<and> bisect_exact s d sf pf low high \<le> high
    \<and> nearest sf pf s + d \<le> nearest sf pf (bisect_exact s d sf pf low high)
    \<and> (\<forall>m. low \<le> m \<and> m < bisect_exact s d sf pf low high \<longrightarrow> nearest sf pf m < nearest sf pf s + d)"
  using assms
proof (induction s d sf pf low high rule: bisect_exact.induct)
  case (1 s d sf pf low high)
  show ?case
  proof (cases "low < high")
    case False
    then have "bisect_exact s d sf pf low high = low" by (simp add: bisect_exact.simps)
    then show ?thesis using "1.prems" False by auto
  next
    case True
    define mid where "mid = low + (high - low) sdiv 2"
    have mid: "low \<le> mid" "mid < high"
      using True by (auto simp: mid_def sdiv_nonneg)
    have nm: "nearest sf pf mid \<le> i64_max"
      using "1.prems"(7) nearest_mono [OF "1.prems"(1,2), of mid high] mid by linarith
    have map: "map_source_range_to_project (rng s mid) sf pf
        = Inr (nearest sf pf mid - nearest sf pf s)"
      using map_source_range_eq [of sf pf s mid] "1.prems" mid nm by simp
    show ?thesis
    proof (cases "d \<le> nearest sf pf mid - nearest sf pf s")
      case hi: True
      have eq: "bisect_exact s d sf pf low high = bisect_exact s d sf pf low mid"
        using True hi map by (simp add: bisect_exact.simps [of s d sf pf low high] Let_def mid_def)
      show ?thesis
        using "1.IH"(1) [OF True mid_def] map hi "1.prems" mid nm unfolding eq by auto
    next
      case lo: False
      have eq: "bisect_exact s d sf pf low high = bisect_exact s d sf pf (mid + 1) high"
        using True lo map by (simp add: bisect_exact.simps [of s d sf pf low high] Let_def mid_def)
      have below: "nearest sf pf m < nearest sf pf s + d" if "m \<le> mid" for m
        using nearest_mono [OF "1.prems"(1,2) that] lo by linarith
      show ?thesis
        using "1.IH"(2) [OF True mid_def] map lo "1.prems" mid below unfolding eq
        by (auto simp: not_le) (metis linorder_not_le zless_imp_add1_zle)
    qed
  qed
qed

text \<open>
  The heart of the inverse: whenever an exact end exists, one of the two integers around
  the real point \<open>source_start + r * duration\<close> is exact.
\<close>

lemma exact_end_near_estimate:
  assumes ok: "rate_ok sf" "rate_ok pf"
    and e: "nearest sf pf e = nearest sf pf s + d"
  defines "f \<equiv> s + d * source_scale sf pf div project_scale sf pf"
  shows "nearest sf pf f = nearest sf pf s + d \<and> e \<le> f \<or>
         nearest sf pf (f + 1) = nearest sf pf s + d \<and> f < e"
proof -
  define k where "k = project_scale sf pf"
  define n where "n = source_scale sf pf"
  define h where "h = n div 2"
  define a where "a = nearest sf pf s"
  have k: "0 < k" and n: "0 < n" using scale_bounds [OF ok] by (simp_all add: k_def n_def)
  have near: "nearest sf pf x = q \<longleftrightarrow> q * n \<le> x * k + h \<and> x * k + h < (q + 1) * n" for x q
    using nearest_eq_iff [OF ok] by (simp add: k_def n_def h_def)
  have A: "a * n \<le> s * k + h" "s * k + h < (a + 1) * n"
    using near [of s a] by (simp_all add: a_def)
  have E: "(a + d) * n \<le> e * k + h" "e * k + h < (a + d + 1) * n"
    using near [of e "a + d"] e by (simp_all add: a_def)
  define q where "q = d * n div k"
  have Q: "q * k \<le> d * n" "d * n < (q + 1) * k"
    using le_int_div_iff [OF k, of q "d * n"] int_div_less_iff_mult [OF k, of "d * n" "q + 1"]
    by (simp_all add: q_def)
  have f: "f = s + q" by (simp add: f_def q_def n_def k_def)
  show ?thesis
  proof (cases "e \<le> f")
    case True
    then have "e * k \<le> f * k" using k by simp
    then have "(a + d) * n \<le> f * k + h" using E(1) by linarith
    moreover have "f * k + h < (a + d + 1) * n"
      using A(2) Q(1) by (simp add: f algebra_simps)
    ultimately have "nearest sf pf f = a + d" using near by simp
    with True show ?thesis by (simp add: a_def)
  next
    case False
    then have "(f + 1) * k \<le> e * k" using k by (intro mult_right_mono) auto
    then have "(f + 1) * k + h < (a + d + 1) * n" using E(2) by linarith
    moreover have "(a + d) * n \<le> (f + 1) * k + h"
      using A(1) Q(2) by (simp add: f algebra_simps)
    ultimately have "nearest sf pf (f + 1) = a + d" using near by simp
    with False show ?thesis by (simp add: a_def)
  qed
qed

lemma estimate_floor:
  fixes d :: timecode
  assumes ok: "rate_ok sf" "rate_ok pf"
  defines "q \<equiv> d * source_scale sf pf div project_scale sf pf"
  shows "nearest pf sf d = q \<or> nearest pf sf d = q + 1"
proof -
  define k where "k = project_scale sf pf"
  have k: "0 < k" using scale_bounds [OF ok] by (simp add: k_def)
  have eq: "nearest pf sf d = (d * source_scale sf pf + k div 2) div k"
    by (simp add: nearest_def scales_swap [of pf sf] k_def scales_swap [of sf pf])
  have q: "q * k \<le> d * source_scale sf pf" "d * source_scale sf pf < (q + 1) * k"
    using le_int_div_iff [OF k, of q "d * source_scale sf pf"]
      int_div_less_iff_mult [OF k, of "d * source_scale sf pf" "q + 1"]
    by (simp_all add: q_def k_def)
  have kk: "k div 2 \<le> k" "0 \<le> k div 2" using k by simp_all
  have "q \<le> nearest pf sf d"
    unfolding eq using le_int_div_iff [OF k] q(1) kk by auto
  moreover have "nearest pf sf d < q + 2"
    unfolding eq using int_div_less_iff_mult [OF k, of _ "q + 2"] q(2) kk
    by (simp add: algebra_simps)
  ultimately show ?thesis by linarith
qed

lemma map_project_duration_unfold:
  assumes "rate_ok sf" "rate_ok pf" "0 \<le> s" "0 < d"
    and "map_frames d pf sf = Inr est"
  shows "map_project_duration_to_source s d sf pf =
    (case find_window s d sf pf est [-1, 0, 1] of
       None \<Rightarrow> Inl (InexactDuration s d)
     | Some e \<Rightarrow> Inr (bisect_exact s d sf pf (saturating_add_i64 s 1) e))"
  using assms by (simp add: map_project_duration_to_source_def del: find_window.simps)

lemma map_project_duration_InrD:
  assumes ok: "rate_ok sf" "rate_ok pf"
    and r: "map_project_duration_to_source s d sf pf = Inr e"
  shows "0 \<le> s" "0 < d" "\<exists>est e'. map_frames d pf sf = Inr est \<and>
    find_window s d sf pf est [-1, 0, 1] = Some e' \<and>
    e = bisect_exact s d sf pf (saturating_add_i64 s 1) e'"
  using r ok
  by (auto simp: map_project_duration_to_source_def rbind_eq_Inr simp del: find_window.simps
      split: if_splits option.splits)

lemma map_project_duration_sound:
  assumes ok: "rate_ok sf" "rate_ok pf"
    and r: "map_project_duration_to_source s d sf pf = Inr e"
  shows "s < e \<and> e \<le> i64_max \<and> map_source_range_to_project (rng s e) sf pf = Inr d
    \<and> (\<forall>e'. s < e' \<and> e' < e \<longrightarrow> map_source_range_to_project (rng s e') sf pf \<noteq> Inr d)"
proof -
  obtain est w where w: "find_window s d sf pf est [-1, 0, 1] = Some w"
    and e: "e = bisect_exact s d sf pf (saturating_add_i64 s 1) w"
    using map_project_duration_InrD [OF ok r] by blast
  have s: "0 \<le> s" and d: "0 < d" using map_project_duration_InrD [OF ok r] by simp_all
  have W: "s < w" "w \<le> i64_max" "exact_end s d sf pf w"
    using find_window_Some [OF w] by simp_all
  have nw: "nearest sf pf w \<le> i64_max" "nearest sf pf w = nearest sf pf s + d"
    using exact_end_iff [OF ok s W(1,2)] W(3) by simp_all
  have sat: "saturating_add_i64 s 1 = s + 1"
    using s W(1,2) by (simp add: saturating_add_i64_def clamp_i64_id in_i64_def i64_min_def)
  have B: "s + 1 \<le> e" "e \<le> w" "nearest sf pf s + d \<le> nearest sf pf e"
    "\<And>m. s + 1 \<le> m \<Longrightarrow> m < e \<Longrightarrow> nearest sf pf m < nearest sf pf s + d"
    using bisect_exact_least [OF ok s, of "s + 1" w d] W nw unfolding e sat by auto
  have ne: "nearest sf pf e = nearest sf pf s + d"
    using nearest_mono [OF ok B(2)] nw B(3) by simp
  have "map_source_range_to_project (rng s e) sf pf = Inr d"
    using map_source_range_eq [OF ok s, of e] B W nw ne by simp
  moreover have "map_source_range_to_project (rng s e') sf pf \<noteq> Inr d" if "s < e'" "e' < e" for e'
    using map_source_range_eq [OF ok s that(1)] B(2) B(4) [of e'] that W by (auto split: if_splits)
  ultimately show ?thesis using B W by auto
qed

lemma map_project_duration_complete:
  assumes ok: "rate_ok sf" "rate_ok pf" and s: "0 \<le> s" and d: "0 < d"
    and est: "map_frames d pf sf = Inr est" and room: "s + est + 1 \<le> i64_max"
    and e: "e \<le> i64_max" "map_source_range_to_project (rng s e) sf pf = Inr d"
    and di: "d \<le> i64_max"
  shows "\<exists>e'. map_project_duration_to_source s d sf pf = Inr e'"
proof (rule ccontr)
  assume "\<not> ?thesis"
  then have none: "find_window s d sf pf est [-1, 0, 1] = None"
    using map_project_duration_unfold [OF ok s d est]
    by (auto simp del: find_window.simps split: option.splits)
  have se: "s < e" using map_source_range_InrD [OF e(2)] by simp
  have ne: "nearest sf pf e = nearest sf pf s + d" "nearest sf pf e \<le> i64_max"
    using map_source_range_eq [OF ok s se e(1)] e(2) by (auto split: if_splits)
  define q where "q = d * source_scale sf pf div project_scale sf pf"
  have q0: "0 \<le> q"
    using scale_bounds [OF ok] d by (simp add: q_def pos_imp_zdiv_nonneg_iff)
  have estq: "est = q \<or> est = q + 1"
    using estimate_floor [OF ok, of d] est map_frames_eq [OF ok(2,1), of d] d di
    by (auto simp: q_def try_i64_def split: if_splits)
  define x where "x = (if e \<le> s + q then s + q else s + q + 1)"
  have x: "nearest sf pf x = nearest sf pf s + d" "s < x"
    using exact_end_near_estimate [OF ok ne(1)] se q0 by (auto simp: x_def q_def split: if_splits)
  have off: "x - s - est \<in> set [-1, 0, 1]" using estq by (auto simp: x_def)
  have xi: "x \<le> i64_max" using off room by auto
  have "\<not> exact_end s d sf pf (est + (x - s - est) + s)"
    using find_window_None [OF none off] x(2) xi s off estq q0
    by (simp add: in_i64_def i64_min_def)
  then have "\<not> exact_end s d sf pf x" by simp
  moreover have "exact_end s d sf pf x"
    using exact_end_iff [OF ok s x(2) xi] x(1) ne by simp
  ultimately show False by simp
qed

section \<open>The covering search\<close>

subsection \<open>Sample positions\<close>

lemma sample_product_bounds:
  assumes "0 \<le> f" "f \<le> i64_max" "in_u32 sr" "rate_ok r"
  shows "saturating_mul_u128 (saturating_mul_u128 f sr) (denominator r) = f * (sr * denominator r)"
    and "0 \<le> f * (sr * denominator r)"
proof -
  have "sr * denominator r \<le> u32_max * u32_max"
    using assms(3,4) by (intro mult_mono) (auto simp: in_u32_def rate_ok_def)
  moreover have sd: "0 \<le> sr * denominator r"
    using assms(3,4) by (simp add: in_u32_def rate_ok_def)
  ultimately have "f * (sr * denominator r) \<le> i64_max * (u32_max * u32_max)"
    using assms(1,2) mult_mono [of f i64_max "sr * denominator r" "u32_max * u32_max"]
    by (simp add: i64_max_def)
  moreover have "f * sr \<le> i64_max * u32_max"
    using assms(1,2,3) by (intro mult_mono) (auto simp: int_width_defs)
  ultimately show "saturating_mul_u128 (saturating_mul_u128 f sr) (denominator r)
      = f * (sr * denominator r)"
    by (simp add: saturating_mul_u128_def int_width_defs mult.assoc)
  show "0 \<le> f * (sr * denominator r)" using assms(1) sd by simp
qed

lemma frame_sample_position_eq:
  assumes "0 \<le> f" "f \<le> i64_max" "in_u32 sr" "rate_ok r"
  shows "frame_sample_position f sr r = f * (sr * denominator r) div numerator r"
  using sample_product_bounds [OF assms] assms(1) by (simp add: frame_sample_position_def)

lemma frame_sample_position_mono:
  assumes "0 \<le> a" "a \<le> b" "b \<le> i64_max" "in_u32 sr" "rate_ok r"
  shows "frame_sample_position a sr r \<le> frame_sample_position b sr r"
proof -
  have "0 \<le> sr * denominator r" using assms by (simp add: in_u32_def rate_ok_def)
  then have "a * (sr * denominator r) \<le> b * (sr * denominator r)"
    using assms(2) by (rule mult_right_mono [rotated])
  then have "a * (sr * denominator r) div numerator r \<le> b * (sr * denominator r) div numerator r"
    using assms(5) by (intro zdiv_mono1) (auto simp: rate_ok_def)
  then show ?thesis using assms by (simp add: frame_sample_position_eq)
qed

lemma frame_sample_position_nonneg:
  assumes "0 \<le> f" "f \<le> i64_max" "in_u32 sr" "rate_ok r"
  shows "0 \<le> frame_sample_position f sr r"
  using sample_product_bounds [OF assms] assms
  by (simp add: frame_sample_position_eq rate_ok_def pos_imp_zdiv_nonneg_iff)

text \<open>What a covering range promises.\<close>

definition covers ::
    "timecode \<Rightarrow> rational \<Rightarrow> rational \<Rightarrow> timecode \<Rightarrow> int \<Rightarrow> timecode \<Rightarrow> timecode \<Rightarrow> bool" where
  "covers pd sf pf sd sr a b \<longleftrightarrow>
     0 \<le> a \<and> a < b \<and> b \<le> sd \<and> map_source_range_to_project (rng a b) sf pf = Inr pd \<and>
     required_sample_frames pd sr pf \<le> frame_sample_position b sr sf - frame_sample_position a sr sf"

lemma saturating_supply:
  assumes "0 \<le> a" "a \<le> b" "b \<le> i64_max" "in_u32 sr" "rate_ok r"
  shows "saturating_sub_u128 (frame_sample_position b sr r) (frame_sample_position a sr r)
    = frame_sample_position b sr r - frame_sample_position a sr r"
  using frame_sample_position_mono [OF assms] by (simp add: saturating_sub_u128_def)

subsection \<open>The walk along one exact run\<close>

lemma walk_exact_run_sound:
  assumes "walk_exact_run pd sf pf sd sr (required_sample_frames pd sr pf) a e = Some r"
    and "map_source_range_to_project (rng a e) sf pf = Inr pd"
    and "in_u32 sr" "rate_ok sf" "sd \<le> i64_max"
  shows "r_start r = a \<and> covers pd sf pf sd sr a (r_end r)"
  using assms
proof (induction pd sf pf sd sr "required_sample_frames pd sr pf" a e rule: walk_exact_run.induct)
  case (1 pd sf pf sd sr a e)
  note w = "1.prems"(1) [unfolded walk_exact_run.simps [of _ _ _ _ _ _ a e]]
  have e: "e \<le> sd" using w by (auto split: if_splits)
  have ae: "0 \<le> a" "a < e" using map_source_range_InrD [OF "1.prems"(2)] by simp_all
  have sup: "saturating_sub_u128 (frame_sample_position e sr sf) (frame_sample_position a sr sf)
      = frame_sample_position e sr sf - frame_sample_position a sr sf"
    using saturating_supply [of a e sr sf] ae e "1.prems" by simp
  show ?case
  proof (cases "required_sample_frames pd sr pf
      \<le> frame_sample_position e sr sf - frame_sample_position a sr sf")
    case True
    with w e sup have "r = rng a e" by simp
    with True ae e "1.prems"(2) show ?thesis by (simp add: covers_def)
  next
    case False
    define n where "n = saturating_add_i64 e 1"
    have step: "\<not> (n \<le> e \<or> map_source_range_to_project (rng a n) sf pf \<noteq> Inr pd)"
      "walk_exact_run pd sf pf sd sr (required_sample_frames pd sr pf) a n = Some r"
      using w e sup False by (auto simp: n_def Let_def split: if_splits)
    show ?thesis
      using "1.hyps" [OF e _ n_def step(1) step(2)] step False sup "1.prems"(3-5) by simp
  qed
qed

lemma walk_exact_run_complete:
  assumes "walk_exact_run pd sf pf sd sr (required_sample_frames pd sr pf) a e = None"
    and "map_source_range_to_project (rng a e) sf pf = Inr pd" and "e \<le> b"
    and "in_u32 sr" "rate_ok sf" "rate_ok pf" "sd \<le> i64_max"
  shows "\<not> covers pd sf pf sd sr a b"
  using assms
proof (induction pd sf pf sd sr "required_sample_frames pd sr pf" a e rule: walk_exact_run.induct)
  case (1 pd sf pf sd sr a e)
  note w = "1.prems"(1) [unfolded walk_exact_run.simps [of _ _ _ _ _ _ a e]]
  have ae: "0 \<le> a" "a < e" using map_source_range_InrD [OF "1.prems"(2)] by simp_all
  show ?case
  proof
    assume c: "covers pd sf pf sd sr a b"
    then have b: "b \<le> sd" "map_source_range_to_project (rng a b) sf pf = Inr pd"
      by (simp_all add: covers_def)
    have e: "e \<le> sd" "e \<le> i64_max" using b "1.prems" by auto
    have sup: "saturating_sub_u128 (frame_sample_position e sr sf) (frame_sample_position a sr sf)
        = frame_sample_position e sr sf - frame_sample_position a sr sf"
      using saturating_supply [of a e sr sf] ae e "1.prems" by simp
    have short: "\<not> required_sample_frames pd sr pf
        \<le> frame_sample_position e sr sf - frame_sample_position a sr sf"
      using w e sup by auto
    then have "e \<noteq> b" using c by (auto simp: covers_def)
    then have eb: "e < b" using "1.prems"(3) by simp
    define n where "n = saturating_add_i64 e 1"
    have n: "n = e + 1"
      using eb b "1.prems"(7) ae
      by (simp add: n_def saturating_add_i64_def clamp_i64_id in_i64_def i64_min_def)
    have exact: "map_source_range_to_project (rng a n) sf pf = Inr pd"
    proof -
      have m: "nearest sf pf e \<le> nearest sf pf n" "nearest sf pf n \<le> nearest sf pf b"
        using nearest_mono [of sf pf] "1.prems"(5,6) eb n by simp_all
      have "nearest sf pf b \<le> i64_max" "nearest sf pf b - nearest sf pf a = pd"
        using map_source_range_eq [of sf pf a b] "1.prems"(5-7) ae eb b by (auto split: if_splits)
      moreover have "nearest sf pf e - nearest sf pf a = pd"
        using map_source_range_eq [of sf pf a e] "1.prems"(2,5,6) ae e by (auto split: if_splits)
      ultimately show ?thesis
        using map_source_range_eq [of sf pf a n] "1.prems"(5-7) ae n eb b m by auto
    qed
    have "walk_exact_run pd sf pf sd sr (required_sample_frames pd sr pf) a n = None"
      using w e sup short n exact by (auto simp: Let_def n_def split: if_splits)
    then show False
      using "1.hyps" [OF e(1) _ n_def] sup short n exact eb c "1.prems"(4-7) by auto
  qed
qed

subsection \<open>The phase sweep\<close>

lemma phase_sweep_sound:
  assumes "phase_sweep pd sf pf sd sr (required_sample_frames pd sr pf) n s any = Inr r"
    and "in_u32 sr" "rate_ok sf" "rate_ok pf" "sd \<le> i64_max"
  shows "covers pd sf pf sd sr (r_start r) (r_end r)"
  using assms
proof (induction pd sf pf sd sr "required_sample_frames pd sr pf" n s any rule: phase_sweep.induct)
  case (1 pd sf pf sd sr n s any)
  note sw = "1.prems"(1) [unfolded phase_sweep.simps [of _ _ _ _ _ _ n s]]
  have sn: "s < n" using sw by (auto split: if_splits)
  show ?case
  proof (cases "map_project_duration_to_source s pd sf pf")
    case (Inl err)
    then show ?thesis using sw sn "1.hyps"(1) [OF sn Inl] "1.prems"(2-5) by simp
  next
    case (Inr e)
    have ex: "map_source_range_to_project (rng s e) sf pf = Inr pd"
      using map_project_duration_sound [OF "1.prems"(3,4) Inr] by simp
    show ?thesis
    proof (cases "walk_exact_run pd sf pf sd sr (required_sample_frames pd sr pf) s e")
      case None
      then show ?thesis using sw sn Inr "1.hyps"(2) [OF sn Inr None] "1.prems"(2-5) by simp
    next
      case (Some r')
      then have "r' = r" using sw sn Inr by simp
      then show ?thesis
        using walk_exact_run_sound [OF Some ex] "1.prems"(2,3,5) by simp
    qed
  qed
qed

lemma phase_sweep_complete:
  assumes "phase_sweep pd sf pf sd sr (required_sample_frames pd sr pf) n s any = Inl err"
    and "in_u32 sr" "rate_ok sf" "rate_ok pf" "sd \<le> i64_max" "s \<le> a" "a < n"
    and "map_project_duration_to_source a pd sf pf = Inr e"
  shows "\<not> covers pd sf pf sd sr a b"
  using assms
proof (induction pd sf pf sd sr "required_sample_frames pd sr pf" n s any rule: phase_sweep.induct)
  case (1 pd sf pf sd sr n s any)
  note sw = "1.prems"(1) [unfolded phase_sweep.simps [of _ _ _ _ _ _ n s]]
  have sn: "s < n" using "1.prems"(6,7) by simp
  show ?case
  proof (cases "s = a")
    case False
    then have sa: "s + 1 \<le> a" using "1.prems"(6) by simp
    show ?thesis
    proof (cases "map_project_duration_to_source s pd sf pf")
      case (Inl err')
      then show ?thesis
        using sw sn "1.hyps"(1) [OF sn Inl] "1.prems"(2-5,7,8) sa by simp
    next
      case (Inr e')
      then have none: "walk_exact_run pd sf pf sd sr (required_sample_frames pd sr pf) s e' = None"
        using sw sn by (auto split: option.splits)
      then show ?thesis
        using sw sn Inr "1.hyps"(2) [OF sn Inr none] "1.prems"(2-5,7,8) sa by simp
    qed
  next
    case True
    then have none: "walk_exact_run pd sf pf sd sr (required_sample_frames pd sr pf) a e = None"
      using sw sn "1.prems"(8) by (auto split: option.splits)
    note snd = map_project_duration_sound [OF "1.prems"(3,4) "1.prems"(8)]
    show ?thesis
    proof (cases "e \<le> b")
      case True
      then show ?thesis
        using walk_exact_run_complete [OF none] snd "1.prems"(2-5) by simp
    next
      case False
      then show ?thesis using snd by (auto simp: covers_def)
    qed
  qed
qed

subsection \<open>Greatest common divisors and reduced rates\<close>

lemma gcd_u32_eq: "0 \<le> a \<Longrightarrow> 0 \<le> b \<Longrightarrow> gcd_u32 a b = gcd a b"
proof (induction a b rule: gcd_u32.induct)
  case (1 a b)
  show ?case
  proof (cases "b = 0")
    case True
    then show ?thesis using "1.prems" by (simp add: gcd_u32.simps)
  next
    case False
    then show ?thesis
      using "1.IH" [OF False] "1.prems"
      by (simp add: gcd_u32.simps [of a b] gcd_red_int [of a b])
  qed
qed

lemma gcd_i128_eq: "0 \<le> a \<Longrightarrow> 0 \<le> b \<Longrightarrow> gcd_i128 a b = gcd a b"
proof (induction a b rule: gcd_i128.induct)
  case (1 a b)
  show ?case
  proof (cases "b = 0")
    case True
    then show ?thesis using "1.prems" by (simp add: gcd_i128.simps)
  next
    case False
    then have "a smod b = a mod b" using "1.prems" by (simp add: smod_nonneg)
    then show ?thesis
      using "1.IH" [OF False] "1.prems" False
      by (simp add: gcd_i128.simps [of a b] gcd_red_int [of a b])
  qed
qed

subsection \<open>Periodicity of the joint pattern\<close>

lemma div_shift_dvd: "n dvd p * k \<Longrightarrow> ((x + p) * k + h) div n = (x * k + h) div n + p * k div (n::int)"
proof -
  assume "n dvd p * k"
  then have "(x * k + h + p * k) div n = (x * k + h) div n + p * k div n"
    by (rule div_plus_div_distrib_dvd_right)
  then show ?thesis by (simp add: algebra_simps)
qed

lemma dvd_quotient_gcd: "n dvd n div gcd n k * (k::int)"
proof -
  have "n div gcd n k * k = n * (k div gcd n k)"
    by (metis dvd_div_mult dvd_div_mult_self gcd_dvd1 gcd_dvd2 mult.commute mult.assoc)
  then show ?thesis by simp
qed

lemma div_gcd_bounds:
  fixes a b :: int
  assumes a: "0 < a"
  shows "0 < a div gcd a b" "a div gcd a b \<le> a"
proof -
  have g: "0 < gcd a b" using a by simp
  have "gcd a b \<le> a" using a by (simp add: zdvd_imp_le)
  then show "0 < a div gcd a b" using g by (simp add: pos_imp_zdiv_pos_iff)
  have "a div gcd a b \<le> a div 1" using a g by (intro zdiv_mono2) linarith+
  then show "a div gcd a b \<le> a" by simp
qed

lemma sdiv_gcd: "0 < a \<Longrightarrow> a sdiv gcd a b = a div gcd a b" for a b :: int
  by (intro sdiv_nonneg) simp_all

lemma phase_period_eq:
  assumes sf: "rate_ok sf" and pf: "rate_ok pf" and sr: "in_u32 sr" "0 < sr"
  defines "mp \<equiv> source_scale sf pf div gcd (source_scale sf pf) (project_scale sf pf)"
    and "sp \<equiv> numerator sf div gcd (numerator sf) (sr * denominator sf)"
  shows "phase_period sf pf sr = mp div gcd mp sp * sp" and "0 < mp" and "0 < sp"
proof -
  note n = scale_bounds [OF sf pf]
  have snum: "0 < numerator sf" "numerator sf \<le> u32_max" using sf by (simp_all add: rate_ok_def)
  have c: "0 < sr * denominator sf" using sf sr by (simp add: rate_ok_def)
  show mp: "0 < mp" and sp: "0 < sp" using div_gcd_bounds n(1) snum by (simp_all add: mp_def sp_def)
  have "mp \<le> u32_max * u32_max"
    using div_gcd_bounds(2) [OF n(1)] n(2) unfolding mp_def by (rule order_trans)
  moreover have "sp \<le> u32_max"
    using div_gcd_bounds(2) [OF snum(1)] snum(2) unfolding sp_def by (rule order_trans)
  moreover have l: "0 < mp div gcd mp sp" "mp div gcd mp sp \<le> mp"
    using div_gcd_bounds [OF mp] by simp_all
  ultimately have le: "mp div gcd mp sp * sp \<le> (u32_max * u32_max) * u32_max"
    using sp by (intro mult_mono) auto
  have "0 < mp div gcd mp sp * sp" using l sp by simp
  with le have sat: "saturating_mul_i128 (mp div gcd mp sp) sp = mp div gcd mp sp * sp"
    by (simp add: saturating_mul_i128_def int_width_defs)
  have m: "numerator sf * denominator pf sdiv
      gcd_i128 (numerator sf * denominator pf) (denominator sf * numerator pf) = mp"
    using n(1,3) by (simp add: gcd_i128_eq sdiv_gcd mp_def source_scale_def project_scale_def mult.commute)
  have s: "numerator sf sdiv gcd_i128 (sr * denominator sf) (numerator sf) = sp"
    using snum c by (simp add: gcd_i128_eq sdiv_gcd sp_def gcd.commute [of "sr * denominator sf"])
  show "phase_period sf pf sr = mp div gcd mp sp * sp"
    using mp sp by (simp add: phase_period_def Let_def m s sat gcd_i128_eq sdiv_gcd)
qed

lemma phase_period_props:
  assumes sf: "rate_ok sf" and pf: "rate_ok pf" and sr: "in_u32 sr" "0 < sr"
  shows "0 < phase_period sf pf sr"
    and "source_scale sf pf dvd phase_period sf pf sr * project_scale sf pf"
    and "numerator sf dvd phase_period sf pf sr * (sr * denominator sf)"
proof -
  define n where "n = source_scale sf pf"
  define k where "k = project_scale sf pf"
  define mp where "mp = n div gcd n k"
  define sp where "sp = numerator sf div gcd (numerator sf) (sr * denominator sf)"
  note p = phase_period_eq [OF assms, folded n_def k_def, folded mp_def sp_def]
  show "0 < phase_period sf pf sr"
    using p div_gcd_bounds [of mp sp] by simp
  have "mp dvd mp div gcd mp sp * sp" by (rule dvd_quotient_gcd)
  then have "mp * k dvd phase_period sf pf sr * k" using p(1) by simp
  moreover have "n dvd mp * k" unfolding mp_def by (rule dvd_quotient_gcd)
  ultimately show "source_scale sf pf dvd phase_period sf pf sr * project_scale sf pf"
    unfolding n_def k_def by (rule dvd_trans [rotated])
  have "sp dvd phase_period sf pf sr" using p(1) by simp
  then have "sp * (sr * denominator sf) dvd phase_period sf pf sr * (sr * denominator sf)" by simp
  moreover have "numerator sf dvd sp * (sr * denominator sf)"
    unfolding sp_def by (rule dvd_quotient_gcd)
  ultimately show "numerator sf dvd phase_period sf pf sr * (sr * denominator sf)"
    by (rule dvd_trans [rotated])
qed

text \<open>Shifting a range down by whole periods changes neither its exact project span nor
  its sample supply.\<close>

lemma covers_shift_period:
  assumes ok: "rate_ok sf" "rate_ok pf" "in_u32 sr" "0 < sr" and sd: "sd \<le> i64_max"
    and c: "covers pd sf pf sd sr a b"
  defines "p \<equiv> phase_period sf pf sr"
  shows "covers pd sf pf sd sr (a mod p) (b - a div p * p)"
proof -
  note P = phase_period_props [OF ok]
  define t where "t = a div p * p"
  have p: "0 < p" using P by (simp add: p_def)
  have ab: "0 \<le> a" "a < b" "b \<le> sd" "b \<le> i64_max" using c sd by (simp_all add: covers_def)
  have t: "0 \<le> t" "t \<le> a" "a mod p = a - t"
    using p ab le_int_div_iff [OF p, of "a div p" a]
    by (simp_all add: t_def pos_imp_zdiv_nonneg_iff minus_div_mult_eq_mod)
  have dn: "source_scale sf pf dvd t * project_scale sf pf"
    using P(2) unfolding t_def p_def mult.assoc by (rule dvd_mult)
  have ds: "numerator sf dvd t * (sr * denominator sf)"
    using P(3) unfolding t_def p_def mult.assoc [of _ "phase_period sf pf sr"] by (rule dvd_mult)
  define u where "u = t * project_scale sf pf div source_scale sf pf"
  define v where "v = t * (sr * denominator sf) div numerator sf"
  have near: "nearest sf pf (x - t) = nearest sf pf x - u" for x
    using div_shift_dvd [OF dn, of "x - t" "source_scale sf pf div 2"] by (simp add: nearest_def u_def)
  have samp: "frame_sample_position (x - t) sr sf = frame_sample_position x sr sf - v"
    if "t \<le> x" "x \<le> i64_max" for x
  proof -
    have "0 \<le> x - t" "x - t \<le> i64_max" "0 \<le> x" using that t by simp_all
    then show ?thesis
      using div_shift_dvd [OF ds, of "x - t" 0] ok that by (simp add: frame_sample_position_eq v_def)
  qed
  have u: "0 \<le> u"
    using scale_bounds [OF ok(1,2)] t by (simp add: u_def pos_imp_zdiv_nonneg_iff)
  have "nearest sf pf b \<le> i64_max" "nearest sf pf b - nearest sf pf a = pd"
    using c map_source_range_eq [OF ok(1,2) ab(1,2,4)] by (auto simp: covers_def split: if_splits)
  then have "map_source_range_to_project (rng (a - t) (b - t)) sf pf = Inr pd"
    using map_source_range_eq [OF ok(1,2), of "a - t" "b - t"] ab t near u by simp
  moreover have "required_sample_frames pd sr pf \<le>
      frame_sample_position (b - t) sr sf - frame_sample_position (a - t) sr sf"
    using c samp [of a] samp [of b] ab t by (simp add: covers_def)
  ultimately show ?thesis
    using ab t unfolding t(3) covers_def t_def [symmetric] by simp
qed

lemma covers_not_too_short:
  assumes ok: "rate_ok sf" "rate_ok pf" "in_u32 sr" "0 < sr" and sd: "sd \<le> i64_max"
    and pd: "0 < pd" "pd \<le> i64_max" and c: "covers pd sf pf sd sr a b"
  shows "minimum_source_frames (required_sample_frames pd sr pf) sr sf \<le> sd"
proof -
  define R where "R = required_sample_frames pd sr pf"
  define k where "k = sr * denominator sf"
  have k: "0 < k" using ok by (simp add: k_def rate_ok_def)
  have kmax: "k \<le> u32_max * u32_max"
    unfolding k_def using ok by (intro mult_mono) (auto simp: in_u32_def rate_ok_def)
  have ab: "0 \<le> a" "a < b" "b \<le> sd" "b \<le> i64_max" using c sd by (simp_all add: covers_def)
  have "R \<le> frame_sample_position b sr sf"
    using c frame_sample_position_nonneg [of a sr sf] ab ok by (simp add: covers_def R_def)
  also have "\<dots> = b * k div numerator sf"
    using frame_sample_position_eq [of b sr sf] ab ok by (simp add: k_def)
  finally have "R * numerator sf \<le> b * k"
    using le_int_div_iff [of "numerator sf" R "b * k"] ok by (simp add: rate_ok_def)
  moreover have "b * k \<le> sd * k" using ab k by simp
  ultimately have Rk: "R * numerator sf \<le> sd * k" by linarith
  have sdk: "sd * k \<le> i64_max * (u32_max * u32_max)"
    using sd ab k kmax by (intro mult_mono) auto
  have s1: "saturating_mul_u128 R (numerator sf) = R * numerator sf"
    using Rk sdk by (simp add: saturating_mul_u128_def int_width_defs)
  have s2: "saturating_mul_u128 sr (denominator sf) = k"
    using kmax by (simp add: saturating_mul_u128_def int_width_defs k_def)
  have "0 \<le> R"
    using sample_product_bounds [of pd sr pf] pd ok
    by (simp add: R_def required_sample_frames_def div_ceil_nonneg rate_ok_def)
  then have "0 \<le> div_ceil (R * numerator sf) k"
    using ok k by (simp add: div_ceil_nonneg rate_ok_def)
  moreover have D: "div_ceil (R * numerator sf) k \<le> sd" using div_ceil_le_iff [OF k] Rk by simp
  ultimately have "in_i64 (div_ceil (R * numerator sf) k)"
    using sd by (simp add: int_width_defs)
  with D show ?thesis
    unfolding minimum_source_frames_def R_def [symmetric] s1 s2 by (simp add: try_i64_def)
qed

lemma phase_candidates_eq:
  assumes "rate_ok sf" "rate_ok pf" "in_u32 sr" "0 < sr"
    and "phase_period sf pf sr \<le> MAX_PHASE_CANDIDATES"
  shows "phase_candidates sf pf sr = phase_period sf pf sr"
  using phase_period_props(1) [OF assms(1-4)] assms(5)
  by (simp add: phase_candidates_def MAX_PHASE_CANDIDATES_def try_i64_def int_width_defs)

lemma covering_unfold:
  assumes "rate_ok sf" "rate_ok pf" "0 < sr" "0 < pd" "0 < sd"
  shows "covering_source_range_for_project_duration pd sf pf sd sr =
    (let required = required_sample_frames pd sr pf;
         minimum = minimum_source_frames required sr sf
     in if sd < minimum then Inl (SourceTooShortToCover pd sd minimum)
        else phase_sweep pd sf pf sd sr required (phase_candidates sf pf sr) 0 False)"
  using assms by (simp add: covering_source_range_for_project_duration_def rational_new_def Let_def)

lemma covering_InrD:
  assumes "rate_ok sf" "rate_ok pf" "in_u32 sr"
    and "covering_source_range_for_project_duration pd sf pf sd sr = Inr r"
  shows "0 < pd" "0 < sd" "0 < sr"
    "phase_sweep pd sf pf sd sr (required_sample_frames pd sr pf) (phase_candidates sf pf sr) 0 False
      = Inr r"
proof -
  show pd: "0 < pd" and sd: "0 < sd"
    using assms(1,2,4)
    by (auto simp: covering_source_range_for_project_duration_def rbind_eq_Inr split: if_splits)
  have "sr \<noteq> 0"
    using assms(1,2,4)
    by (auto simp: covering_source_range_for_project_duration_def rational_new_def)
  then show sr: "0 < sr" using assms(3) by (simp add: in_u32_def)
  show "phase_sweep pd sf pf sd sr (required_sample_frames pd sr pf) (phase_candidates sf pf sr) 0
      False = Inr r"
    using assms(4) covering_unfold [OF assms(1,2) sr pd sd] by (auto simp: Let_def split: if_splits)
qed

lemma tile_scan_Inr:
  "tile_scan sd sf pf sr steps want refusal = Inr (w, r) \<Longrightarrow>
     1 \<le> w \<and> w \<le> want \<and> covering_source_range_for_project_duration w sf pf sd sr = Inr r \<and>
     (\<forall>w'. w < w' \<and> w' \<le> want \<longrightarrow> (\<forall>r'. covering_source_range_for_project_duration w' sf pf sd sr \<noteq> Inr r'))"
proof (induction steps arbitrary: want refusal)
  case 0
  then show ?case by simp
next
  case (Suc steps)
  show ?case
  proof (cases "covering_source_range_for_project_duration want sf pf sd sr")
    case (Inl e)
    then have "tile_scan sd sf pf sr steps (want - 1) (Some e) = Inr (w, r)" and "1 \<le> want"
      using Suc.prems by (auto split: if_splits)
    from Suc.IH [OF this(1)] Inl show ?thesis
      by (auto simp: order.order_iff_strict dest: zle_diff1_eq [THEN iffD2])
  next
    case (Inr r')
    then show ?thesis using Suc.prems by (auto split: if_splits)
  qed
qed

lemma tile_scan_Inl:
  assumes "tile_scan sd sf pf sr steps want refusal = Inl e"
    and "want - int steps < w" "w \<le> want" "1 \<le> w"
  shows "\<exists>err. covering_source_range_for_project_duration w sf pf sd sr = Inl err"
  using assms
proof (induction steps arbitrary: want refusal)
  case 0
  then show ?case by simp
next
  case (Suc steps)
  then have "1 \<le> want" by simp
  with Suc.prems(1) obtain err where
    err: "covering_source_range_for_project_duration want sf pf sd sr = Inl err"
    and rest: "tile_scan sd sf pf sr steps (want - 1) (Some err) = Inl e"
    by (auto split: sum.splits)
  show ?case
  proof (cases "w = want")
    case True
    with err show ?thesis by simp
  next
    case False
    then show ?thesis using Suc.IH [OF rest] Suc.prems by simp
  qed
qed

section \<open>Properties\<close>

text \<open>
  Mapping a frame boundary between two valid rates is exact to half a frame: the
  answer \<open>q\<close> satisfies \<open>|q - f * r| \<le> 1/2\<close> for the rational rate ratio, and the only
  failure on a non-negative \<^verbatim>\<open>i64\<close> frame is an \<^verbatim>\<open>Overflow\<close> whose true value really exceeds
  \<^verbatim>\<open>i64\<close>; no intermediate \<^verbatim>\<open>i128\<close> product overflows.
\<close>

theorem map_frames_half_frame_exact:
  assumes "rate_ok sf" "rate_ok pf" "0 \<le> f" "f \<le> i64_max"
  shows "case map_frames f sf pf of
      Inr q \<Rightarrow> 0 \<le> q \<and> q \<le> i64_max \<and>
        2 * \<bar>q * (numerator sf * denominator pf) - f * (numerator pf * denominator sf)\<bar>
          \<le> numerator sf * denominator pf
    | Inl e \<Rightarrow> e = Overflow \<and>
        i64_max * (numerator sf * denominator pf) < f * (numerator pf * denominator sf)"
proof -
  note s = scale_bounds(1) [OF assms(1,2)] and n0 = nearest_nonneg [OF assms(1,2,3)]
  have q: "nearest sf pf f * source_scale sf pf \<le> f * project_scale sf pf + source_scale sf pf div 2"
    "f * project_scale sf pf + source_scale sf pf div 2 < (nearest sf pf f + 1) * source_scale sf pf"
    using nearest_eq_iff [OF assms(1,2), of f "nearest sf pf f"] by simp_all
  have h: "2 * (source_scale sf pf div 2) \<le> source_scale sf pf"
    "source_scale sf pf \<le> 2 * (source_scale sf pf div 2) + 1" by simp_all
  have scales: "numerator sf * denominator pf = source_scale sf pf"
    "numerator pf * denominator sf = project_scale sf pf"
    by (simp_all add: source_scale_def project_scale_def)
  show ?thesis
  proof (cases "nearest sf pf f \<le> i64_max")
    case True
    then have "map_frames f sf pf = Inr (nearest sf pf f)"
      using map_frames_eq [OF assms] n0 by (simp add: try_i64_def int_width_defs)
    moreover have "2 * \<bar>nearest sf pf f * source_scale sf pf - f * project_scale sf pf\<bar>
        \<le> source_scale sf pf"
      using q h by (simp add: algebra_simps abs_if)
    ultimately show ?thesis using True n0 by (simp add: scales)
  next
    case False
    then have "map_frames f sf pf = Inl Overflow"
      using map_frames_eq [OF assms] by (simp add: try_i64_def in_i64_def)
    moreover have "(i64_max + 1) * source_scale sf pf \<le> nearest sf pf f * source_scale sf pf"
      using False s by (intro mult_right_mono) auto
    then have "i64_max * source_scale sf pf < f * project_scale sf pf"
      using q(1) h s by (simp add: algebra_simps)
    ultimately show ?thesis by (simp add: scales)
  qed
qed

theorem map_frames_half_frame_exact_witness:
  "map_frames 24000 \<lparr>numerator = 24000, denominator = 1001\<rparr> \<lparr>numerator = 30, denominator = 1\<rparr> = Inr 30030
   \<and> 2 * \<bar>30030 * (24000 * 1) - 24000 * (30 * 1001 :: int)\<bar> \<le> 24000 * 1"
  using map_frames_half_frame_exact [of "\<lparr>numerator = 24000, denominator = 1001\<rparr>"
      "\<lparr>numerator = 30, denominator = 1\<rparr>" 24000]
  by (simp add: rate_ok_def int_width_defs) code_simp

text \<open>
  Adjacent ranges share the same rounded boundary: wherever a source range maps,
  cutting it at any interior frame gives two ranges that map too, and their project lengths
  add up to the whole, so repeated splits accumulate no drift.
\<close>

theorem adjacent_ranges_no_drift:
  assumes "rate_ok sf" "rate_ok pf" "a < b" "b < c" "c \<le> i64_max"
    and "map_source_range_to_project (rng a c) sf pf = Inr whole"
  shows "\<exists>left right. map_source_range_to_project (rng a b) sf pf = Inr left
    \<and> map_source_range_to_project (rng b c) sf pf = Inr right
    \<and> 0 \<le> left \<and> 0 \<le> right \<and> left + right = whole"
proof -
  have a: "0 \<le> a" using map_source_range_InrD [OF assms(6)] by simp
  have m: "nearest sf pf a \<le> nearest sf pf b" "nearest sf pf b \<le> nearest sf pf c"
    using assms by (simp_all add: nearest_mono)
  have "nearest sf pf c \<le> i64_max" "whole = nearest sf pf c - nearest sf pf a"
    using map_source_range_eq [of sf pf a c] assms a by (auto split: if_splits)
  then show ?thesis
    using map_source_range_eq [of sf pf a b] map_source_range_eq [of sf pf b c] assms a m by simp
qed

theorem adjacent_ranges_no_drift_witness:
  "\<exists>left right.
     map_source_range_to_project (rng 1 24) \<lparr>numerator = 24000, denominator = 1001\<rparr> \<lparr>numerator = 30, denominator = 1\<rparr> = Inr left
   \<and> map_source_range_to_project (rng 24 48) \<lparr>numerator = 24000, denominator = 1001\<rparr> \<lparr>numerator = 30, denominator = 1\<rparr> = Inr right
   \<and> 0 \<le> left \<and> 0 \<le> right \<and> left + right = 59"
  by (rule adjacent_ranges_no_drift [of "\<lparr>numerator = 24000, denominator = 1001\<rparr>"
        "\<lparr>numerator = 30, denominator = 1\<rparr>" 1 24 48 59])
     (simp add: rate_ok_def int_width_defs | code_simp)+

text \<open>
  The inverse mapping is sound and minimal: an answer maps forward to exactly the
  requested duration, and no smaller end does, so the \<^verbatim>\<open>debug_assert\<close> after the bisection
  never fires.
\<close>

theorem map_project_duration_exact_and_least:
  assumes "rate_ok sf" "rate_ok pf" "map_project_duration_to_source s d sf pf = Inr e"
  shows "s < e \<and> map_source_range_to_project (rng s e) sf pf = Inr d
    \<and> (\<forall>e'. s < e' \<and> e' < e \<longrightarrow> map_source_range_to_project (rng s e') sf pf \<noteq> Inr d)"
  using map_project_duration_sound [OF assms] by simp

theorem map_project_duration_exact_and_least_witness:
  "map_project_duration_to_source 1 3 \<lparr>numerator = 60, denominator = 1\<rparr> \<lparr>numerator = 24, denominator = 1\<rparr> = Inr 7
   \<and> map_source_range_to_project (rng 1 7) \<lparr>numerator = 60, denominator = 1\<rparr> \<lparr>numerator = 24, denominator = 1\<rparr> = Inr 3
   \<and> map_source_range_to_project (rng 1 6) \<lparr>numerator = 60, denominator = 1\<rparr> \<lparr>numerator = 24, denominator = 1\<rparr> \<noteq> Inr 3"
proof -
  have run: "map_project_duration_to_source 1 3 \<lparr>numerator = 60, denominator = 1\<rparr> \<lparr>numerator = 24, denominator = 1\<rparr> = Inr 7"
    by code_simp
  show ?thesis
    using run map_project_duration_exact_and_least [OF _ _ run] by (simp add: rate_ok_def int_width_defs)
qed

text \<open>
  Claim C27. The three-candidate window of the inverse mapping never misses: whenever some
  representable end maps to exactly the requested duration, an answer is returned, so
  \<^verbatim>\<open>InexactDuration\<close> is raised only for durations that no source range can express. The
  hypotheses say that the estimate is representable with one frame of room.
\<close>

theorem map_project_duration_never_misses:
  assumes "rate_ok sf" "rate_ok pf" "0 \<le> s" "0 < d" "d \<le> i64_max"
    and "map_frames d pf sf = Inr est" and "s + est + 1 \<le> i64_max"
    and "e \<le> i64_max" "map_source_range_to_project (rng s e) sf pf = Inr d"
  shows "\<exists>e'. map_project_duration_to_source s d sf pf = Inr e' \<and> e' \<le> e"
proof -
  obtain e' where e': "map_project_duration_to_source s d sf pf = Inr e'"
    using map_project_duration_complete [OF assms(1-4,6-9,5)] by blast
  have "s < e" using map_source_range_InrD [OF assms(9)] by simp
  then have "e' \<le> e"
    using map_project_duration_sound [OF assms(1,2) e'] assms(9) by (metis linorder_not_le)
  with e' show ?thesis by blast
qed

theorem map_project_duration_never_misses_witness:
  "\<exists>e'. map_project_duration_to_source 3 7 \<lparr>numerator = 30, denominator = 1\<rparr> \<lparr>numerator = 25, denominator = 1\<rparr> = Inr e' \<and> e' \<le> 12"
  by (rule map_project_duration_never_misses [where est = 8])
     (simp add: rate_ok_def int_width_defs | code_simp)+

text \<open>
  Claim C31. A covering range is what it claims: it lies inside the asset, maps to exactly the
  requested project duration, and supplies at least the sample frames the gap demands.
\<close>

theorem covering_range_sound:
  assumes "rate_ok sf" "rate_ok pf" "in_u32 sr" "sd \<le> i64_max"
    and "covering_source_range_for_project_duration pd sf pf sd sr = Inr r"
  shows "0 \<le> r_start r \<and> r_start r < r_end r \<and> r_end r \<le> sd
    \<and> map_source_range_to_project r sf pf = Inr pd
    \<and> required_sample_frames pd sr pf
        \<le> frame_sample_position (r_end r) sr sf - frame_sample_position (r_start r) sr sf"
  using phase_sweep_sound [OF covering_InrD(4) [OF assms(1-3,5)] assms(3,1,2,4)]
  by (cases r) (simp add: covers_def)

theorem covering_range_sound_witness:
  "(0::int) \<le> 1 \<and> (1::int) < 2 \<and> (2::int) \<le> 10
    \<and> map_source_range_to_project (rng 1 2) \<lparr>numerator = 24, denominator = 1\<rparr> \<lparr>numerator = 24, denominator = 1\<rparr> = Inr 1
    \<and> required_sample_frames 1 44100 \<lparr>numerator = 24, denominator = 1\<rparr>
        \<le> frame_sample_position 2 44100 \<lparr>numerator = 24, denominator = 1\<rparr>
           - frame_sample_position 1 44100 \<lparr>numerator = 24, denominator = 1\<rparr>"
  using covering_range_sound [of "\<lparr>numerator = 24, denominator = 1\<rparr>"
      "\<lparr>numerator = 24, denominator = 1\<rparr>" 44100 10 1 "rng 1 2"]
  by (simp add: rate_ok_def int_width_defs) code_simp

text \<open>
  Claim C28. The phase sweep is exhaustive where its bound reaches: when the joint frame and sample pattern
  repeats within \<^verbatim>\<open>MAX_PHASE_CANDIDATES\<close> (4096) phases and the estimate is representable, a refusal means that no
  range of the asset, at any phase, both maps to the requested duration and carries its sample frames. With a longer
  period the sweep tries a part of the phases only, and its refusal says nothing of the others.
\<close>

theorem covering_refusal_exhaustive:
  assumes ok: "rate_ok sf" "rate_ok pf" "in_u32 sr" "0 < sr" and sd: "sd \<le> i64_max"
    and pd: "0 < pd" "pd \<le> i64_max"
    and period: "phase_period sf pf sr \<le> MAX_PHASE_CANDIDATES"
    and est: "map_frames pd pf sf = Inr est" "est + MAX_PHASE_CANDIDATES < i64_max"
    and refused: "covering_source_range_for_project_duration pd sf pf sd sr = Inl err"
  shows "\<not> (0 \<le> a \<and> a < b \<and> b \<le> sd \<and> map_source_range_to_project (rng a b) sf pf = Inr pd
    \<and> required_sample_frames pd sr pf \<le> frame_sample_position b sr sf - frame_sample_position a sr sf)"
proof
  assume "0 \<le> a \<and> a < b \<and> b \<le> sd \<and> map_source_range_to_project (rng a b) sf pf = Inr pd
    \<and> required_sample_frames pd sr pf \<le> frame_sample_position b sr sf - frame_sample_position a sr sf"
  then have c: "covers pd sf pf sd sr a b" by (simp add: covers_def)
  define p where "p = phase_period sf pf sr"
  have p: "0 < p" "p \<le> MAX_PHASE_CANDIDATES" using phase_period_props(1) [OF ok] period by (simp_all add: p_def)
  define b' where "b' = b - a div p * p"
  have c': "covers pd sf pf sd sr (a mod p) b'"
    using covers_shift_period [OF ok sd c] by (simp add: p_def b'_def)
  have am: "0 \<le> a mod p" "a mod p < p" using p by simp_all
  have "b' \<le> i64_max" and m: "map_source_range_to_project (rng (a mod p) b') sf pf = Inr pd" and "0 < sd"
    using c' sd by (auto simp: covers_def)
  then obtain e where e: "map_project_duration_to_source (a mod p) pd sf pf = Inr e"
    using map_project_duration_complete [OF ok(1,2) am(1) pd(1) est(1) _ _ m pd(2)] am p est(2) by auto
  have "phase_sweep pd sf pf sd sr (required_sample_frames pd sr pf) p 0 False = Inl err"
    using refused covers_not_too_short [OF ok sd pd c] phase_candidates_eq [OF ok period]
    unfolding covering_unfold [OF ok(1,2,4) pd(1) \<open>0 < sd\<close>] by (simp add: Let_def p_def)
  from phase_sweep_complete [OF this ok(3,1,2) sd am e] c' show False by blast
qed

theorem covering_refusal_exhaustive_witness:
  "\<not> (0 \<le> (0::int) \<and> (0::int) < 1 \<and> (1::int) \<le> 100
    \<and> map_source_range_to_project (rng 0 1) \<lparr>numerator = 30, denominator = 1\<rparr> \<lparr>numerator = 60, denominator = 1\<rparr> = Inr 1
    \<and> required_sample_frames 1 48000 \<lparr>numerator = 60, denominator = 1\<rparr>
        \<le> frame_sample_position 1 48000 \<lparr>numerator = 30, denominator = 1\<rparr>
           - frame_sample_position 0 48000 \<lparr>numerator = 30, denominator = 1\<rparr>)"
  by (rule covering_refusal_exhaustive [where est = 1 and err = "InexactDuration 0 1"])
     (simp add: rate_ok_def int_width_defs MAX_PHASE_CANDIDATES_def | code_simp)+

text \<open>
  The tile search is sound and maximal: the tile it returns is covered by the range
  it returns, is no longer than the asset's own project length or the caller's ceiling, and
  every longer tile up to that ceiling was refused.
\<close>

theorem longest_tile_maximal:
  assumes "rate_ok sf" "rate_ok pf"
    and "longest_coverable_project_tile sd sf pf sr cap = Inr (w, r)"
  shows "\<exists>whole. map_source_range_to_project (rng 0 sd) sf pf = Inr whole
    \<and> 1 \<le> w \<and> w \<le> min whole cap
    \<and> covering_source_range_for_project_duration w sf pf sd sr = Inr r
    \<and> (\<forall>w'. w < w' \<and> w' \<le> min whole cap \<longrightarrow>
          (\<exists>err. covering_source_range_for_project_duration w' sf pf sd sr = Inl err))"
proof -
  obtain whole where whole: "map_source_range_to_project (rng 0 sd) sf pf = Inr whole"
    and scan: "tile_scan sd sf pf sr MAX_TILE_SEARCH_STEPS (min whole cap) None = Inr (w, r)"
    using assms by (auto simp: longest_coverable_project_tile_def rbind_eq_Inr split: if_splits)
  from tile_scan_Inr [OF scan] have
    "\<forall>w'. w < w' \<and> w' \<le> min whole cap \<longrightarrow>
        (\<exists>err. covering_source_range_for_project_duration w' sf pf sd sr = Inl err)"
    by (metis sum.exhaust)
  with tile_scan_Inr [OF scan] whole show ?thesis by auto
qed

theorem longest_tile_maximal_witness:
  "longest_coverable_project_tile 4 \<lparr>numerator = 24, denominator = 1\<rparr> \<lparr>numerator = 24, denominator = 1\<rparr> 48000 9
     = Inr (4, rng 0 4)
   \<and> covering_source_range_for_project_duration 4 \<lparr>numerator = 24, denominator = 1\<rparr> \<lparr>numerator = 24, denominator = 1\<rparr> 4 48000
     = Inr (rng 0 4)"
proof -
  have run: "longest_coverable_project_tile 4 \<lparr>numerator = 24, denominator = 1\<rparr> \<lparr>numerator = 24, denominator = 1\<rparr> 48000 9
     = Inr (4, rng 0 4)" by code_simp
  show ?thesis
    using run longest_tile_maximal [OF _ _ run] by (auto simp: rate_ok_def int_width_defs)
qed

text \<open>
  A refused tile search really exhausted its window: when the asset maps and the
  ceiling fits the search's step budget, a refusal means that no positive tile length up to the
  ceiling can be covered.
\<close>

theorem longest_tile_refusal:
  assumes "rate_ok sf" "rate_ok pf" "in_u32 sr" "0 < sr" "0 < cap"
    and "map_source_range_to_project (rng 0 sd) sf pf = Inr whole"
    and "min whole cap \<le> int MAX_TILE_SEARCH_STEPS"
    and "longest_coverable_project_tile sd sf pf sr cap = Inl e"
    and "1 \<le> w" "w \<le> min whole cap"
  shows "\<exists>err. covering_source_range_for_project_duration w sf pf sd sr = Inl err"
proof -
  have "0 < sd" using map_source_range_InrD [OF assms(6)] by simp
  then obtain x where "tile_scan sd sf pf sr MAX_TILE_SEARCH_STEPS (min whole cap) None = Inl x"
    using assms(1,2,4-6,8)
    by (cases "tile_scan sd sf pf sr MAX_TILE_SEARCH_STEPS (min whole cap) None")
       (auto simp: longest_coverable_project_tile_def rational_new_def Let_def)
  from tile_scan_Inl [OF this _ assms(10,9)] assms(7,9) show ?thesis by simp
qed

theorem longest_tile_refusal_witness:
  "\<exists>err. covering_source_range_for_project_duration 1 \<lparr>numerator = 1, denominator = 1\<rparr>
     \<lparr>numerator = 60, denominator = 1\<rparr> 1 48000 = Inl err"
  by (rule longest_tile_refusal [where w = 1 and cap = 3 and whole = 60 and e = "InexactDuration 0 1"])
     (simp add: rate_ok_def int_width_defs MAX_TILE_SEARCH_STEPS_def | code_simp)+

text \<open>
  Claim C32. The comment on \<^verbatim>\<open>SourceTooShortToCover\<close> overstates the bound: at 44.1 kHz and
  24 fps a gap of one frame needs 1838 sample frames and the computed minimum is two source
  frames, yet the single frame from 1 to 2 supplies all 1838. The guard compares the minimum
  with the whole asset, which stays sound: an asset that covers the gap at all is never
  refused as too short.
\<close>

theorem minimum_source_frames_bounds_the_asset_not_the_range:
  "(let r = \<lparr>numerator = 24, denominator = 1\<rparr>; required = required_sample_frames 1 44100 r
    in required = 1838 \<and> minimum_source_frames required 44100 r = 2 \<and>
       frame_sample_position 2 44100 r - frame_sample_position 1 44100 r = 1838 \<and>
       map_source_range_to_project (rng 1 2) r r = Inr 1)
   \<and> (\<forall>sf pf sr pd sd a b. rate_ok sf \<and> rate_ok pf \<and> in_u32 sr \<and> 0 < sr \<and> sd \<le> i64_max
        \<and> 0 < pd \<and> pd \<le> i64_max \<and> covers pd sf pf sd sr a b \<longrightarrow>
        minimum_source_frames (required_sample_frames pd sr pf) sr sf \<le> sd)"
proof
  show "let r = \<lparr>numerator = 24, denominator = 1\<rparr>; required = required_sample_frames 1 44100 r
    in required = 1838 \<and> minimum_source_frames required 44100 r = 2 \<and>
       frame_sample_position 2 44100 r - frame_sample_position 1 44100 r = 1838 \<and>
       map_source_range_to_project (rng 1 2) r r = Inr 1"
    by code_simp
  show "\<forall>sf pf sr pd sd a b. rate_ok sf \<and> rate_ok pf \<and> in_u32 sr \<and> 0 < sr \<and> sd \<le> i64_max
        \<and> 0 < pd \<and> pd \<le> i64_max \<and> covers pd sf pf sd sr a b \<longrightarrow>
        minimum_source_frames (required_sample_frames pd sr pf) sr sf \<le> sd"
    using covers_not_too_short by blast
qed

theorem minimum_source_frames_witness:
  "minimum_source_frames (required_sample_frames 1 44100 \<lparr>numerator = 24, denominator = 1\<rparr>) 44100
     \<lparr>numerator = 24, denominator = 1\<rparr> \<le> 10"
  using conjunct2 [OF minimum_source_frames_bounds_the_asset_not_the_range, rule_format,
      of "\<lparr>numerator = 24, denominator = 1\<rparr>" "\<lparr>numerator = 24, denominator = 1\<rparr>" 44100 10 1 1 2]
  by (rule meta_mp) (simp add: rate_ok_def int_width_defs, code_simp)

text \<open>
  Building a rational reduces it without changing its value, and scaling a frame
  rate by a speed percentage multiplies it by exactly \<open>percent / 100\<close>.
\<close>

theorem speed_scaled_fps_exact:
  assumes "rate_ok fps" "0 < p" "speed_scaled_fps fps p = Inr r"
  shows "rational_is_valid r \<and> 0 < numerator r \<and> 0 < denominator r
    \<and> numerator r * (100 * denominator fps) = denominator r * (p * numerator fps)
    \<and> (p \<noteq> 100 \<longrightarrow> coprime (numerator r) (denominator r))"
proof (cases "p = 100")
  case True
  then show ?thesis using assms by (simp add: speed_scaled_fps_def rational_is_valid_def rate_ok_def)
next
  case False
  define n d where "n = numerator fps * p" and "d = denominator fps * 100"
  have pos: "0 < n" "0 < d" using assms by (simp_all add: n_def d_def rate_ok_def)
  have r: "r = \<lparr>numerator = n div gcd n d, denominator = d div gcd n d\<rparr>"
    using assms(3) False pos gcd_u32_eq [of n d]
    by (auto simp: speed_scaled_fps_def rational_new_def checked_mul_u32_def n_def d_def Let_def
        rbind_eq_Inr split: if_splits)
  have q: "0 < n div gcd n d" "0 < d div gcd n d"
    using pos by (simp_all add: pos_imp_zdiv_pos_iff zdvd_imp_le)
  have "n div gcd n d * d = d div gcd n d * n"
    by (metis div_mult_swap dvd_div_mult gcd_dvd1 gcd_dvd2 mult.commute)
  moreover have "coprime (n div gcd n d) (d div gcd n d)"
    using pos by (intro div_gcd_coprime) simp
  ultimately show ?thesis using q by (simp add: r rational_is_valid_def n_def d_def mult.commute)
qed

theorem speed_scaled_fps_exact_witness:
  "speed_scaled_fps \<lparr>numerator = 30000, denominator = 1001\<rparr> 250 = Inr \<lparr>numerator = 75000, denominator = 1001\<rparr>
   \<and> coprime (75000::int) 1001"
  using speed_scaled_fps_exact [of "\<lparr>numerator = 30000, denominator = 1001\<rparr>" 250
      "\<lparr>numerator = 75000, denominator = 1001\<rparr>"]
  by (simp add: rate_ok_def int_width_defs) code_simp
end
