(* ===== verification/Rust_BTree.thy ===== *)
theory Rust_BTree
  imports Rust_Prelude
begin

text \<open>
  The standard library's \<^verbatim>\<open>BTreeMap\<close>: an association list with strictly ascending keys, so
  iteration is in key order and two maps with the same bindings are equal. The interface is
  the locale \<open>ordered_map\<close>; the model's operations interpret it as \<open>bt\<close>.
\<close>

section \<open>Definitions\<close>

type_synonym ('k, 'v) btree = "('k \<times> 'v) list"

fun bt_insert :: "'k::linorder \<Rightarrow> 'v \<Rightarrow> ('k, 'v) btree \<Rightarrow> ('k, 'v) btree" where
  "bt_insert k v [] = [(k, v)]"
| "bt_insert k v ((k', v') # m) =
     (if k < k' then (k, v) # (k', v') # m
      else if k = k' then (k, v) # m
      else (k', v') # bt_insert k v m)"

definition bt_remove :: "'k::linorder \<Rightarrow> ('k, 'v) btree \<Rightarrow> ('k, 'v) btree" where
  "bt_remove k m = filter (\<lambda>e. fst e \<noteq> k) m"

definition bt_get :: "'k::linorder \<Rightarrow> ('k, 'v) btree \<Rightarrow> 'v option" where
  "bt_get k m = map_of m k"

definition bt_contains :: "'k::linorder \<Rightarrow> ('k, 'v) btree \<Rightarrow> bool" where
  "bt_contains k m \<longleftrightarrow> bt_get k m \<noteq> None"

definition bt_values :: "('k, 'v) btree \<Rightarrow> 'v list" where
  "bt_values m = map snd m"

definition bt_keys :: "('k, 'v) btree \<Rightarrow> 'k list" where
  "bt_keys m = map fst m"

definition bt_inv :: "('k::linorder, 'v) btree \<Rightarrow> bool" where
  "bt_inv m \<longleftrightarrow> sorted_wrt (<) (map fst m)"

section \<open>The interface\<close>

locale ordered_map =
  fixes empty :: "'m"
    and insert :: "'k::linorder \<Rightarrow> 'v \<Rightarrow> 'm \<Rightarrow> 'm"
    and remove :: "'k \<Rightarrow> 'm \<Rightarrow> 'm"
    and lookup :: "'k \<Rightarrow> 'm \<Rightarrow> 'v option"
    and entries :: "'m \<Rightarrow> ('k \<times> 'v) list"
    and inv :: "'m \<Rightarrow> bool"
  assumes inv_empty: "inv empty"
    and inv_insert: "inv m \<Longrightarrow> inv (insert k v m)"
    and inv_remove: "inv m \<Longrightarrow> inv (remove k m)"
    and lookup_empty: "lookup k empty = None"
    and lookup_insert: "inv m \<Longrightarrow> lookup k (insert k' v m) = (if k = k' then Some v else lookup k m)"
    and lookup_remove: "inv m \<Longrightarrow> lookup k (remove k' m) = (if k = k' then None else lookup k m)"
    and entries_sorted: "inv m \<Longrightarrow> sorted_wrt (<) (map fst (entries m))"
    and entries_lookup: "inv m \<Longrightarrow> map_of (entries m) k = lookup k m"
begin

lemma distinct_entries: "inv m \<Longrightarrow> distinct (map fst (entries m))"
  using entries_sorted [of m] strict_sorted_iff by blast

lemma entries_mem: "inv m \<Longrightarrow> (k, v) \<in> set (entries m) \<longleftrightarrow> lookup k m = Some v"
  using entries_lookup [of m k] distinct_entries [of m] by (metis map_of_eq_Some_iff)

text \<open>Iteration order is a function of the bindings: the map is canonical.\<close>

lemma entries_extensional:
  assumes "inv m" "inv n" "\<And>k. lookup k m = lookup k n"
  shows "entries m = entries n"
proof (rule map_sorted_distinct_set_unique [of fst])
  show "inj_on fst (set (entries m) \<union> set (entries n))"
    using assms entries_mem by (fastforce simp: inj_on_def)
  show "sorted (map fst (entries m))" "sorted (map fst (entries n))"
    using assms entries_sorted strict_sorted_iff by blast+
  show "distinct (map fst (entries m))" "distinct (map fst (entries n))"
    using assms distinct_entries by simp_all
  show "set (entries m) = set (entries n)" using assms entries_mem by auto
qed

lemma insert_idem:
  "inv m \<Longrightarrow> entries (insert k v (insert k w m)) = entries (insert k v m)"
  by (rule entries_extensional) (simp_all add: inv_insert lookup_insert)

lemma insert_commute:
  "inv m \<Longrightarrow> k \<noteq> k' \<Longrightarrow> entries (insert k v (insert k' w m)) = entries (insert k' w (insert k v m))"
  by (rule entries_extensional) (simp_all add: inv_insert lookup_insert)

lemma remove_insert_fresh:
  "inv m \<Longrightarrow> lookup k m = None \<Longrightarrow> entries (remove k (insert k v m)) = entries m"
  by (rule entries_extensional) (simp_all add: inv_insert inv_remove lookup_insert lookup_remove)

lemma inv_fold: "inv m \<Longrightarrow> inv (fold (\<lambda>(k, v). insert k v) kvs m)"
  by (induction kvs arbitrary: m) (auto simp: inv_insert)

text \<open>Collecting pairs with distinct keys.\<close>

lemma lookup_fold:
  "inv m \<Longrightarrow> distinct (map fst kvs) \<Longrightarrow>
    lookup k (fold (\<lambda>(k, v). insert k v) kvs m)
      = (case map_of kvs k of Some v \<Rightarrow> Some v | None \<Rightarrow> lookup k m)"
proof (induction kvs arbitrary: m)
  case (Cons kv kvs)
  obtain k' v' where kv: "kv = (k', v')" by fastforce
  have "map_of kvs k' = None" using Cons.prems kv by (simp add: map_of_eq_None_iff)
  with Cons.IH [of "insert k' v' m"] Cons.prems kv show ?case
    by (auto simp: inv_insert lookup_insert split: option.split)
qed simp

end

section \<open>The implementation\<close>

lemma set_bt_insert_keys: "fst ` set (bt_insert k v m) = insert k (fst ` set m)"
  by (induction k v m rule: bt_insert.induct) auto

lemma bt_inv_insert: "bt_inv m \<Longrightarrow> bt_inv (bt_insert k v m)"
proof (induction k v m rule: bt_insert.induct)
  case (2 k v k' v' m)
  consider "k < k'" | "k = k'" | "k' < k" by (rule linorder_cases)
  then show ?case
  proof cases
    case 3
    then have "bt_inv (bt_insert k v m)" using 2 by (simp add: bt_inv_def)
    with 2 3 show ?thesis using set_bt_insert_keys [of k v m] by (auto simp: bt_inv_def)
  qed (use 2 in \<open>auto simp: bt_inv_def\<close>)
qed (simp add: bt_inv_def)

lemma bt_get_insert:
  "bt_inv m \<Longrightarrow> bt_get k (bt_insert k' v m) = (if k = k' then Some v else bt_get k m)"
proof (induction k' v m rule: bt_insert.induct)
  case (2 k' v k'' v'' m)
  then show ?case by (auto simp: bt_get_def bt_inv_def)
qed (simp add: bt_get_def)

lemma bt_inv_remove: "bt_inv m \<Longrightarrow> bt_inv (bt_remove k m)"
  by (simp add: bt_inv_def bt_remove_def sorted_wrt_map sorted_wrt_filter)

lemma bt_get_remove: "bt_get k (bt_remove k' m) = (if k = k' then None else bt_get k m)"
  by (induction m) (auto simp: bt_get_def bt_remove_def)

interpretation bt: ordered_map "[]" bt_insert bt_remove bt_get "\<lambda>m. m" bt_inv
  by unfold_locales
     (simp_all add: bt_inv_insert bt_inv_remove bt_get_insert bt_get_remove,
      simp_all add: bt_inv_def bt_get_def)

lemma bt_inv_Nil [simp]: "bt_inv []"
  by (simp add: bt_inv_def)

lemma bt_insert_not_Nil [simp]: "bt_insert k v m \<noteq> []"
  by (cases "(k, v, m)" rule: bt_insert.cases) auto

text \<open>Inserting in ascending order appends.\<close>

lemma bt_insert_last: "\<forall>e \<in> set m. fst e < k \<Longrightarrow> bt_insert k v m = m @ [(k, v)]"
proof (induction k v m rule: bt_insert.induct)
  case (2 k v k' v' m)
  then have "\<not> k < k'" "k \<noteq> k'" by auto
  with 2 show ?case by simp
qed simp

lemma bt_insert_replace_last:
  "\<forall>e \<in> set m. fst e < k \<Longrightarrow> bt_insert k v (m @ [(k, w)]) = m @ [(k, v)]"
proof (induction k v m rule: bt_insert.induct)
  case (2 k v k' v' m)
  then have "\<not> k < k'" "k \<noteq> k'" by auto
  with 2 show ?case by simp
qed simp

lemma bt_insert_first: "\<forall>e \<in> set m. k < fst e \<Longrightarrow> bt_insert k v m = (k, v) # m"
  by (cases m) auto

lemma bt_insert_lookup_other: "k \<noteq> k' \<Longrightarrow> bt_get k' (bt_insert k v m) = bt_get k' m"
  unfolding bt_get_def by (induction m) auto

lemma set_bt_insert_subset: "set (bt_insert k v m) \<subseteq> insert (k, v) (set m)"
  by (induction m) (auto split: if_splits)

end
