(* ===== verification/Automation.thy ===== *)
theory Automation
  imports Time_Map Rust_BTree
begin

text \<open>
  The keyframe curves of \<^verbatim>\<open>crates/kinewright-core/src/automation.rs\<close>: the integer evaluation
  kernel with its easing functions, the two validators, the queries about held values, and the
  three ways a curve is carried through an edit (rebased onto a new clip window, clamped into a
  shortened project, shifted with nothing dropped).

  The evaluation lemmas hold for curves of any length; the repository's own model-checking
  harnesses cover curves of two to four keys.
\<close>

section \<open>Definitions\<close>

definition CURVE_SCALE :: int where "CURVE_SCALE = 1000000"

definition PROVEN_VALUE_BOUND :: int where "PROVEN_VALUE_BOUND = 1000000"

definition MAX_KEY_FRAME_OFFSET :: int where "MAX_KEY_FRAME_OFFSET = 2 ^ 40"

datatype keyframe_interpolation = Hold | Linear | EaseIn | EaseOut | EaseInOut

record keyframe =
  key_at :: timecode
  key_value :: int
  key_interpolation :: keyframe_interpolation
  tangent_in :: int
  tangent_out :: int

record automation_curve =
  keyframes :: "keyframe list"

datatype automation_curve_error = Empty | NegativePosition | Unordered | PositionOutOfBounds

record hold_step =
  previous_value :: int
  next_key :: "timecode option"

text \<open>\<^verbatim>\<open>slice::windows(2)\<close>\<close>

definition windows2 :: "'a list \<Rightarrow> ('a \<times> 'a) list" where
  "windows2 xs = zip xs (tl xs)"

definition curve_validate :: "automation_curve \<Rightarrow> automation_curve_error + unit" where
  "curve_validate c =
     (case keyframes c of
        [] \<Rightarrow> Inl Empty
      | first # _ \<Rightarrow>
          if key_at first < 0 then Inl NegativePosition
          else for_each (\<lambda>(a, b).
                 if key_at b < 0 then Inl NegativePosition
                 else if key_at b \<le> key_at a then Inl Unordered
                 else Inr ()) (windows2 (keyframes c)))"

definition curve_validate_ordered :: "automation_curve \<Rightarrow> automation_curve_error + unit" where
  "curve_validate_ordered c =
     (if keyframes c = [] then Inl Empty
      else if list_ex (\<lambda>k. MAX_KEY_FRAME_OFFSET < \<bar>key_at k\<bar>) (keyframes c)
      then Inl PositionOutOfBounds
      else if list_ex (\<lambda>(a, b). key_at b \<le> key_at a) (windows2 (keyframes c))
      then Inl Unordered
      else Inr ())"

text \<open>The easing kernel uses plain \<^verbatim>\<open>i64\<close> operators, so every product and sum wraps.\<close>

definition ease_kernel :: "int \<Rightarrow> keyframe_interpolation \<Rightarrow> int" where
  "ease_kernel v interpolation =
     (case interpolation of
        Hold \<Rightarrow> 0
      | Linear \<Rightarrow> v
      | EaseIn \<Rightarrow> wrap_i64 (v * v) sdiv CURVE_SCALE
      | EaseOut \<Rightarrow>
          (let inverse = wrap_i64 (CURVE_SCALE - v)
           in wrap_i64 (CURVE_SCALE - wrap_i64 (inverse * inverse) sdiv CURVE_SCALE))
      | EaseInOut \<Rightarrow>
          (let squared = wrap_i64 (v * v) sdiv CURVE_SCALE
           in wrap_i64 (squared * wrap_i64 (3 * CURVE_SCALE - wrap_i64 (2 * v))) sdiv CURVE_SCALE))"

definition rounded_div_kernel :: "int \<Rightarrow> int \<Rightarrow> int option" where
  "rounded_div_kernel num den =
     (if 0 \<le> num then map_option (\<lambda>biased. biased sdiv den) (checked_add_i64 num (den sdiv 2))
      else map_option (\<lambda>biased. biased sdiv den) (checked_sub_i64 num (den sdiv 2)))"

text \<open>The body of the window loop of \<^verbatim>\<open>value_at_keys\<close> once the window is found, and the loop.\<close>

definition segment_value :: "keyframe \<Rightarrow> keyframe \<Rightarrow> timecode \<Rightarrow> int option" where
  "segment_value start end t =
     (if key_interpolation start = Hold then Some (key_value start)
      else
        Option.bind (checked_sub_i64 (key_at end) (key_at start)) (\<lambda>span.
        Option.bind (checked_sub_i64 t (key_at start)) (\<lambda>offset.
        let linear = saturating_mul_i64 offset CURVE_SCALE sdiv span;
            eased = ease_kernel linear (key_interpolation start)
        in Option.bind (checked_sub_i64 (key_value end) (key_value start)) (\<lambda>delta.
           Option.bind (checked_mul_i64 delta eased) (\<lambda>product.
           Option.bind (rounded_div_kernel product CURVE_SCALE) (\<lambda>adjustment.
           checked_add_i64 (key_value start) adjustment))))))"

fun scan_segments :: "keyframe list \<Rightarrow> timecode \<Rightarrow> int option" where
  "scan_segments (start # end # keys) t =
     (if key_at start \<le> t \<and> t < key_at end then segment_value start end t
      else scan_segments (end # keys) t)"
| "scan_segments keys t = None"

definition value_at_keys :: "keyframe list \<Rightarrow> timecode \<Rightarrow> int option" where
  "value_at_keys keys t =
     (if keys = [] then None
      else if t \<le> key_at (hd keys) then Some (key_value (hd keys))
      else if key_at (last keys) \<le> t then Some (key_value (last keys))
      else scan_segments keys t)"

definition curve_value_at :: "automation_curve \<Rightarrow> timecode \<Rightarrow> int option" where
  "curve_value_at c t = value_at_keys (keyframes c) t"

definition holds_at :: "automation_curve \<Rightarrow> timecode \<Rightarrow> bool" where
  "holds_at c t =
     (if keyframes c = [] then True
      else if t < key_at (hd (keyframes c)) then True
      else if key_at (last (keyframes c)) \<le> t then True
      else case find (\<lambda>(a, b). key_at a \<le> t \<and> t < key_at b) (windows2 (keyframes c)) of
             None \<Rightarrow> True
           | Some (a, b) \<Rightarrow> key_interpolation a = Hold)"

definition hold_step_at :: "automation_curve \<Rightarrow> timecode \<Rightarrow> hold_step option" where
  "hold_step_at c t =
     Option.bind (position (\<lambda>k. key_at k = t) (keyframes c)) (\<lambda>index.
     if index = 0 then None
     else let previous = keyframes c ! (index - 1)
          in if key_interpolation previous \<noteq> Hold then None
             else Some \<lparr>previous_value = key_value previous,
                        next_key = (if index + 1 < length (keyframes c)
                                    then Some (key_at (keyframes c ! (index + 1))) else None)\<rparr>)"

definition segment_interpolation_at :: "automation_curve \<Rightarrow> timecode \<Rightarrow> keyframe_interpolation" where
  "segment_interpolation_at c t =
     (case keyframes c of
        [] \<Rightarrow> Linear
      | first # _ \<Rightarrow>
          if t \<le> key_at first then key_interpolation first
          else case find (\<lambda>k. key_at k \<le> t) (rev (keyframes c)) of
                 None \<Rightarrow> key_interpolation first
               | Some k \<Rightarrow> key_interpolation k)"

definition boundary_key :: "automation_curve \<Rightarrow> timecode \<Rightarrow> timecode \<Rightarrow> keyframe" where
  "boundary_key c t source =
     \<lparr>key_at = t,
      key_value = (case curve_value_at c source of
                     Some v \<Rightarrow> v
                   | None \<Rightarrow> (case keyframes c of [] \<Rightarrow> 0 | k # _ \<Rightarrow> key_value k)),
      key_interpolation = segment_interpolation_at c source,
      tangent_in = 0, tangent_out = 0\<rparr>"

definition single_key_at :: "automation_curve \<Rightarrow> timecode \<Rightarrow> timecode \<Rightarrow> automation_curve" where
  "single_key_at c t source = \<lparr>keyframes = [boundary_key c t source]\<rparr>"

definition insert_boundary_key ::
    "automation_curve \<Rightarrow> timecode \<Rightarrow> timecode \<Rightarrow> (int, keyframe) btree \<Rightarrow> (int, keyframe) btree" where
  "insert_boundary_key c t source keys = bt_insert t (boundary_key c t source) keys"

text \<open>The shift-and-drop loop of \<^verbatim>\<open>rebase_clip_curve\<close>.\<close>

definition rebase_window :: "keyframe list \<Rightarrow> timecode \<Rightarrow> timecode \<Rightarrow> (int, keyframe) btree" where
  "rebase_window ks delta_local new_duration =
     fold (\<lambda>k keys.
            let t = saturating_sub_i64 (key_at k) delta_local
            in if 0 \<le> t \<and> t < new_duration then bt_insert t (k\<lparr>key_at := t\<rparr>) keys else keys)
       ks []"

definition rebase_map :: "automation_curve \<Rightarrow> timecode \<Rightarrow> timecode \<Rightarrow> (int, keyframe) btree" where
  "rebase_map c delta_local new_duration =
     (let keys = rebase_window (keyframes c) delta_local new_duration;
          keys = (if list_ex (\<lambda>k. key_at k < delta_local) (keyframes c)
                  then insert_boundary_key c 0 delta_local keys else keys);
          right_source = saturating_sub_i64 (saturating_add_i64 delta_local new_duration) 1
      in if list_ex (\<lambda>k. new_duration \<le> wrap_i64 (key_at k - delta_local)) (keyframes c)
         then insert_boundary_key c (new_duration - 1) right_source keys else keys)"

definition rebase_clip_curve :: "automation_curve \<Rightarrow> timecode \<Rightarrow> timecode \<Rightarrow> automation_curve" where
  "rebase_clip_curve c delta_local new_duration =
     (if keyframes c = [] then c
      else if new_duration \<le> 0 then single_key_at c 0 delta_local
      else let keys = rebase_map c delta_local new_duration
           in if keys = [] then single_key_at c 0 delta_local
              else \<lparr>keyframes = bt_values keys\<rparr>)"

definition clamp_project_curve :: "automation_curve \<Rightarrow> timecode \<Rightarrow> automation_curve" where
  "clamp_project_curve c new_duration =
     (if keyframes c = [] then c
      else if new_duration \<le> 0 then single_key_at c 0 0
      else if list_all (\<lambda>k. key_at k < new_duration) (keyframes c) then c
      else
        let boundary = new_duration - 1;
            keys = fold (\<lambda>k keys. if key_at k < new_duration then bt_insert (key_at k) k keys else keys)
                     (keyframes c) []
        in \<lparr>keyframes = bt_values (insert_boundary_key c boundary boundary keys)\<rparr>)"

definition shift_keys_keep_outside :: "keyframe list \<Rightarrow> int \<Rightarrow> keyframe list" where
  "shift_keys_keep_outside keys delta =
     map (\<lambda>k. k\<lparr>key_at := saturating_sub_i64 (key_at k) delta\<rparr>) keys"

definition rebase_clip_curve_keep_outside :: "automation_curve \<Rightarrow> timecode \<Rightarrow> automation_curve" where
  "rebase_clip_curve_keep_outside c delta_local =
     (if keyframes c = [] then c
      else \<lparr>keyframes = shift_keys_keep_outside (keyframes c) delta_local\<rparr>)"

section \<open>Ordered curves\<close>

definition keys_ordered :: "keyframe list \<Rightarrow> bool" where
  "keys_ordered ks \<longleftrightarrow> sorted_wrt (\<lambda>a b. key_at a < key_at b) ks"

definition values_bounded :: "keyframe list \<Rightarrow> bool" where
  "values_bounded ks \<longleftrightarrow> (\<forall>k \<in> set ks. \<bar>key_value k\<bar> \<le> PROVEN_VALUE_BOUND)"

definition positions_bounded :: "keyframe list \<Rightarrow> bool" where
  "positions_bounded ks \<longleftrightarrow> (\<forall>k \<in> set ks. \<bar>key_at k\<bar> \<le> MAX_KEY_FRAME_OFFSET)"

lemma windows2_Cons [simp]: "windows2 (x # y # ys) = (x, y) # windows2 (y # ys)"
  "windows2 [x] = []" "windows2 [] = []"
  by (simp_all add: windows2_def)

lemma windows2_all_iff:
  assumes "transp R"
  shows "(\<forall>(a, b) \<in> set (windows2 xs). R a b) \<longleftrightarrow> sorted_wrt R xs"
proof -
  have "(\<forall>(a, b) \<in> set (windows2 xs). R a b) \<longleftrightarrow> successively R xs"
    by (induction xs rule: induct_list012) auto
  also have "\<dots> \<longleftrightarrow> sorted_wrt R xs" using assms by (rule successively_conv_sorted_wrt)
  finally show ?thesis .
qed

lemma keys_ordered_windows2:
  "keys_ordered ks \<longleftrightarrow> (\<forall>(a, b) \<in> set (windows2 ks). key_at a < key_at b)"
proof -
  have "transp (\<lambda>a b :: keyframe. key_at a < key_at b)" by (auto intro!: transpI)
  from windows2_all_iff [OF this] show ?thesis by (simp add: keys_ordered_def)
qed

lemma keys_ordered_Cons [simp]:
  "keys_ordered (k # ks) \<longleftrightarrow> (\<forall>k' \<in> set ks. key_at k < key_at k') \<and> keys_ordered ks"
  "keys_ordered []"
  by (simp_all add: keys_ordered_def)

lemma keys_ordered_nth:
  "keys_ordered ks \<Longrightarrow> i < j \<Longrightarrow> j < length ks \<Longrightarrow> key_at (ks ! i) < key_at (ks ! j)"
  unfolding keys_ordered_def by (drule (2) sorted_wrt_nth_less)

lemma keys_ordered_unique:
  "keys_ordered ks \<Longrightarrow> a \<in> set ks \<Longrightarrow> b \<in> set ks \<Longrightarrow> key_at a = key_at b \<Longrightarrow> a = b"
  by (metis in_set_conv_nth keys_ordered_nth linorder_neqE_nat order_less_irrefl)

lemma keys_ordered_hd_le: "keys_ordered ks \<Longrightarrow> k \<in> set ks \<Longrightarrow> key_at (hd ks) \<le> key_at k"
  by (cases ks) auto

lemma keys_ordered_le_last: "keys_ordered ks \<Longrightarrow> k \<in> set ks \<Longrightarrow> key_at k \<le> key_at (last ks)"
  by (induction ks) (auto simp: order.strict_iff_order)

lemma curve_validate_iff:
  "curve_validate c = Inr u \<longleftrightarrow>
     keyframes c \<noteq> [] \<and> keys_ordered (keyframes c) \<and> (\<forall>k \<in> set (keyframes c). 0 \<le> key_at k)"
proof (cases "keyframes c")
  case Nil
  then show ?thesis by (simp add: curve_validate_def)
next
  case (Cons k ks)
  have "curve_validate c = Inr u \<longleftrightarrow> 0 \<le> key_at k \<and>
      (\<forall>(a, b) \<in> set (windows2 (k # ks)). 0 \<le> key_at b \<and> key_at a < key_at b)"
    using Cons by (fastforce simp: curve_validate_def not_le not_less split: if_splits)
  also have "\<dots> \<longleftrightarrow> 0 \<le> key_at k \<and> keys_ordered (k # ks)"
  proof -
    have "0 \<le> key_at b" if "0 \<le> key_at k" "keys_ordered (k # ks)" "(a, b) \<in> set (windows2 (k # ks))" for a b
    proof -
      have "b \<in> set (k # ks)"
        using that(3) by (auto simp: windows2_def dest!: set_zip_rightD)
      then show ?thesis using keys_ordered_hd_le [OF that(2)] that(1) by fastforce
    qed
    then show ?thesis unfolding keys_ordered_windows2 by auto
  qed
  finally show ?thesis using Cons by (auto intro: order_trans [OF _ less_imp_le])
qed

lemma curve_validate_ordered_iff:
  "curve_validate_ordered c = Inr u \<longleftrightarrow>
     keyframes c \<noteq> [] \<and> positions_bounded (keyframes c) \<and> keys_ordered (keyframes c)"
  unfolding curve_validate_ordered_def keys_ordered_windows2 positions_bounded_def
  by (fastforce simp: list_ex_iff not_le not_less split: if_splits)

section \<open>The easing kernel\<close>

lemma sdiv_neg: "a < 0 \<Longrightarrow> 0 < b \<Longrightarrow> a sdiv b = - ((- a) div b)" for a b :: int
  by (simp add: signed_divide_int_def)

lemma CURVE_SCALE_pos [simp]: "0 < CURVE_SCALE"
  by (simp add: CURVE_SCALE_def)

lemma scale_square_small:
  assumes "0 \<le> v" "v \<le> CURVE_SCALE"
  shows "v * v \<le> CURVE_SCALE * CURVE_SCALE"
  using assms by (intro mult_mono) auto

text \<open>Inside the domain no operator wraps.\<close>

lemma ease_kernel_unwrapped:
  assumes v: "0 \<le> v" "v \<le> CURVE_SCALE"
  shows "ease_kernel v i = (case i of
      Hold \<Rightarrow> 0 | Linear \<Rightarrow> v
    | EaseIn \<Rightarrow> v * v div CURVE_SCALE
    | EaseOut \<Rightarrow> CURVE_SCALE - (CURVE_SCALE - v) * (CURVE_SCALE - v) div CURVE_SCALE
    | EaseInOut \<Rightarrow> (v * v div CURVE_SCALE) * (3 * CURVE_SCALE - 2 * v) div CURVE_SCALE)"
proof -
  have sq: "wrap_i64 (w * w) sdiv CURVE_SCALE = w * w div CURVE_SCALE"
    "0 \<le> w * w div CURVE_SCALE" "w * w div CURVE_SCALE \<le> CURVE_SCALE"
    if "0 \<le> w" "w \<le> CURVE_SCALE" for w
  proof -
    have s: "w * w \<le> CURVE_SCALE * CURVE_SCALE" "0 \<le> w * w"
      using scale_square_small [OF that] by simp_all
    then have i: "in_i64 (w * w)"
      using order_trans [OF _ s(2), of i64_min] order_trans [OF s(1), of i64_max]
      by (simp add: int_width_defs CURVE_SCALE_def)
    show "wrap_i64 (w * w) sdiv CURVE_SCALE = w * w div CURVE_SCALE"
      using s i by (simp add: wrap_i64_id sdiv_nonneg)
    show "0 \<le> w * w div CURVE_SCALE" using that by (simp add: pos_imp_zdiv_nonneg_iff)
    show "w * w div CURVE_SCALE \<le> CURVE_SCALE"
      using s int_div_less_iff_mult [of CURVE_SCALE "w * w" "CURVE_SCALE + 1"] CURVE_SCALE_pos
      by (simp add: distrib_right del: CURVE_SCALE_pos)
  qed
  have w1: "wrap_i64 (CURVE_SCALE - v) = CURVE_SCALE - v" "wrap_i64 (2 * v) = 2 * v"
    "wrap_i64 (3 * CURVE_SCALE - 2 * v) = 3 * CURVE_SCALE - 2 * v"
    using v by (simp_all add: wrap_i64_id int_width_defs CURVE_SCALE_def)
  have out: "wrap_i64 (CURVE_SCALE - x) = CURVE_SCALE - x" if "0 \<le> x" "x \<le> CURVE_SCALE" for x
    using that by (simp add: wrap_i64_id int_width_defs CURVE_SCALE_def)
  define m where "m = (v * v div CURVE_SCALE) * (3 * CURVE_SCALE - 2 * v)"
  have m: "0 \<le> m" using sq(2) [OF v] v by (simp add: m_def)
  have "m \<le> CURVE_SCALE * (3 * CURVE_SCALE)"
    unfolding m_def using sq(2,3) [OF v] v by (intro mult_mono) auto
  with m have "wrap_i64 m sdiv CURVE_SCALE = m div CURVE_SCALE"
    by (simp add: wrap_i64_id sdiv_nonneg int_width_defs CURVE_SCALE_def)
  then have io: "wrap_i64 (v * v div CURVE_SCALE * (3 * CURVE_SCALE - 2 * v)) sdiv CURVE_SCALE
      = (v * v div CURVE_SCALE) * (3 * CURVE_SCALE - 2 * v) div CURVE_SCALE"
    by (simp add: m_def)
  show ?thesis
    using v by (cases i) (simp_all add: ease_kernel_def Let_def w1 sq out io)
qed

text \<open>The smoothstep polynomial stays under the scale: \<open>S\<^sup>3 - v\<^sup>2 (3 S - 2 v) = (S - v)\<^sup>2 (S + 2 v)\<close>.\<close>

lemma smoothstep_le:
  fixes v s :: int
  assumes "0 \<le> v" "v \<le> s" "0 < s"
  shows "(v * v div s) * (3 * s - 2 * v) \<le> s * s"
proof -
  have "(v * v div s) * s \<le> v * v" using le_int_div_iff [of s "v * v div s" "v * v"] assms by simp
  then have "(v * v div s * s) * (3 * s - 2 * v) \<le> v * v * (3 * s - 2 * v)"
    using assms by (intro mult_right_mono) auto
  also have "\<dots> \<le> s * s * s"
  proof -
    have "0 \<le> (s - v) * (s - v) * (s + 2 * v)" using assms by (simp add: mult_nonneg_nonneg)
    then show ?thesis by (simp add: algebra_simps)
  qed
  finally have "(v * v div s) * (3 * s - 2 * v) * s \<le> s * s * s" by (simp add: ac_simps)
  then show ?thesis using assms by (simp add: mult_le_cancel_right)
qed

lemma ease_kernel_bounds:
  assumes v: "0 \<le> v" "v \<le> CURVE_SCALE"
  shows "0 \<le> ease_kernel v i" "ease_kernel v i \<le> CURVE_SCALE"
proof -
  have d: "0 \<le> x div CURVE_SCALE" "x div CURVE_SCALE \<le> CURVE_SCALE"
    if "0 \<le> x" "x \<le> CURVE_SCALE * CURVE_SCALE" for x
    using that int_div_less_iff_mult [of CURVE_SCALE x "CURVE_SCALE + 1"] CURVE_SCALE_pos
    by (simp_all add: pos_imp_zdiv_nonneg_iff distrib_right)
  have sq: "0 \<le> v * v" "v * v \<le> CURVE_SCALE * CURVE_SCALE" using scale_square_small [OF v] by simp_all
  have iv: "0 \<le> (CURVE_SCALE - v) * (CURVE_SCALE - v)"
    "(CURVE_SCALE - v) * (CURVE_SCALE - v) \<le> CURVE_SCALE * CURVE_SCALE"
    using scale_square_small [of "CURVE_SCALE - v"] v by simp_all
  have io: "0 \<le> (v * v div CURVE_SCALE) * (3 * CURVE_SCALE - 2 * v)"
    using d(1) [OF sq] v by simp
  note io2 = smoothstep_le [OF v CURVE_SCALE_pos]
  show "0 \<le> ease_kernel v i" "ease_kernel v i \<le> CURVE_SCALE"
    using v d [OF sq] d [OF iv] d [OF io io2]
    by (cases i; simp add: ease_kernel_unwrapped)+
qed

lemma ease_kernel_0: "ease_kernel 0 i = 0"
  using ease_kernel_unwrapped [of 0 i] by (cases i) (simp_all add: CURVE_SCALE_def)

lemma rounded_div_kernel_between:
  assumes w: "0 \<le> w" "w \<le> CURVE_SCALE" and d: "\<bar>d\<bar> \<le> 2 * PROVEN_VALUE_BOUND"
  shows "\<exists>a. rounded_div_kernel (d * w) CURVE_SCALE = Some a \<and> min 0 d \<le> a \<and> a \<le> max 0 d"
proof -
  have pos: "\<exists>a. (x * w + CURVE_SCALE div 2) div CURVE_SCALE = a \<and> 0 \<le> a \<and> a \<le> x
      \<and> x * w + CURVE_SCALE div 2 \<le> 2 * PROVEN_VALUE_BOUND * CURVE_SCALE + CURVE_SCALE div 2"
    if x: "0 \<le> x" "x \<le> 2 * PROVEN_VALUE_BOUND" for x
  proof -
    have xw: "0 \<le> x * w" "x * w \<le> x * CURVE_SCALE" using x w by (simp_all add: mult_left_mono)
    have "x * w \<le> 2 * PROVEN_VALUE_BOUND * CURVE_SCALE" using x w by (intro mult_mono) auto
    moreover have "(x * w + CURVE_SCALE div 2) div CURVE_SCALE < x + 1"
      using xw by (subst int_div_less_iff_mult) (auto simp: distrib_right CURVE_SCALE_def)
    ultimately show ?thesis using xw by (simp add: pos_imp_zdiv_nonneg_iff CURVE_SCALE_def)
  qed
  show ?thesis
  proof (cases "0 \<le> d * w")
    case True
    show ?thesis
    proof (cases "0 \<le> d")
      case d0: True
      have i: "in_i64 (d * w + CURVE_SCALE div 2)"
        using pos [of d] True d d0
        by (auto simp: int_width_defs CURVE_SCALE_def PROVEN_VALUE_BOUND_def)
      have s: "CURVE_SCALE sdiv 2 = CURVE_SCALE div 2" by (simp add: sdiv_nonneg CURVE_SCALE_def)
      have s': "(d * w + CURVE_SCALE div 2) sdiv CURVE_SCALE = (d * w + CURVE_SCALE div 2) div CURVE_SCALE"
        using True by (intro sdiv_nonneg) (auto simp: CURVE_SCALE_def)
      show ?thesis
        using pos [of d] True d d0 i
        by (simp add: rounded_div_kernel_def checked_add_i64_def s s')
    next
      case False
      then have "d * w = 0" using True w by (simp add: zero_le_mult_iff)
      then show ?thesis using False
        by (simp add: rounded_div_kernel_def checked_add_i64_def CURVE_SCALE_def sdiv_nonneg int_width_defs)
    qed
  next
    case False
    then have d0: "d < 0" using w by (metis linorder_not_le mult_nonneg_nonneg)
    have i: "in_i64 (d * w - CURVE_SCALE div 2)"
      using pos [of "- d"] False d d0
      by (auto simp: int_width_defs CURVE_SCALE_def PROVEN_VALUE_BOUND_def)
    have s: "CURVE_SCALE sdiv 2 = CURVE_SCALE div 2" by (simp add: sdiv_nonneg CURVE_SCALE_def)
    have s': "(d * w - CURVE_SCALE div 2) sdiv CURVE_SCALE = - ((- d * w + CURVE_SCALE div 2) div CURVE_SCALE)"
      using False by (subst sdiv_neg) (auto simp: CURVE_SCALE_def algebra_simps)
    show ?thesis
      using pos [of "- d"] False d d0 i
      by (simp add: rounded_div_kernel_def checked_sub_i64_def s s')
  qed
qed

section \<open>Evaluation\<close>

lemma linear_position_bounds:
  assumes "0 \<le> offset" "offset < span" "span \<le> i64_max"
  shows "0 \<le> saturating_mul_i64 offset CURVE_SCALE sdiv span"
    and "saturating_mul_i64 offset CURVE_SCALE sdiv span \<le> CURVE_SCALE"
proof -
  define x where "x = saturating_mul_i64 offset CURVE_SCALE"
  have o: "0 \<le> offset * CURVE_SCALE" using assms by (intro mult_nonneg_nonneg) (simp_all add: CURVE_SCALE_def)
  have x: "0 \<le> x" "x \<le> offset * CURVE_SCALE"
    using o by (auto simp: x_def saturating_mul_i64_def clamp_i64_def int_width_defs)
  have "offset * CURVE_SCALE \<le> span * CURVE_SCALE"
    using assms by (intro mult_right_mono) (simp_all add: CURVE_SCALE_def)
  with x(2) have "x \<le> span * CURVE_SCALE" by linarith
  then have "x \<le> CURVE_SCALE * span" by (simp only: mult.commute)
  then have "x div span < CURVE_SCALE + 1"
    using assms by (subst int_div_less_iff_mult) (auto simp: distrib_right)
  moreover have "x sdiv span = x div span" using x assms by (simp add: sdiv_nonneg)
  ultimately show "0 \<le> x sdiv span" "x sdiv span \<le> CURVE_SCALE"
    using x assms by (simp_all add: pos_imp_zdiv_nonneg_iff)
qed

text \<open>Inside one segment: total, and between the two key values.\<close>

lemma segment_value_between:
  assumes t: "key_at s \<le> t" "t < key_at e" and span: "key_at e - key_at s \<le> i64_max"
    and v: "\<bar>key_value s\<bar> \<le> PROVEN_VALUE_BOUND" "\<bar>key_value e\<bar> \<le> PROVEN_VALUE_BOUND"
  shows "\<exists>v. segment_value s e t = Some v
    \<and> min (key_value s) (key_value e) \<le> v \<and> v \<le> max (key_value s) (key_value e)"
proof (cases "key_interpolation s = Hold")
  case True
  then show ?thesis by (simp add: segment_value_def)
next
  case False
  define linear where
    "linear = saturating_mul_i64 (t - key_at s) CURVE_SCALE sdiv (key_at e - key_at s)"
  define w where "w = ease_kernel linear (key_interpolation s)"
  define d where "d = key_value e - key_value s"
  have l: "0 \<le> linear" "linear \<le> CURVE_SCALE"
    unfolding linear_def using t span by (intro linear_position_bounds; simp)+
  have w: "0 \<le> w" "w \<le> CURVE_SCALE" using ease_kernel_bounds [OF l] by (simp_all add: w_def)
  have d: "\<bar>d\<bar> \<le> 2 * PROVEN_VALUE_BOUND" using v by (simp add: d_def)
  obtain a where a: "rounded_div_kernel (d * w) CURVE_SCALE = Some a" "min 0 d \<le> a" "a \<le> max 0 d"
    using rounded_div_kernel_between [OF w d] by blast
  have "\<bar>d * w\<bar> \<le> (2 * PROVEN_VALUE_BOUND) * CURVE_SCALE"
    unfolding abs_mult using d w by (intro mult_mono) auto
  then have i: "in_i64 (d * w)" by (simp add: abs_le_iff int_width_defs PROVEN_VALUE_BOUND_def CURVE_SCALE_def)
  have "min (key_value s) (key_value e) \<le> key_value s + a"
    "key_value s + a \<le> max (key_value s) (key_value e)"
    using a by (auto simp: d_def)
  moreover have "in_i64 (key_value s + a)" "in_i64 d"
    using calculation v d by (auto simp: int_width_defs PROVEN_VALUE_BOUND_def abs_le_iff min_def max_def
        split: if_splits)
  moreover have "in_i64 (key_at e - key_at s)" "in_i64 (t - key_at s)"
    using t span by (simp_all add: int_width_defs)
  ultimately show ?thesis
    using False i a
    by (simp add: segment_value_def checked_sub_i64_def checked_mul_i64_def checked_add_i64_def Let_def
        linear_def [symmetric] w_def [symmetric] d_def [symmetric])
qed

lemma segment_value_start:
  assumes "key_at s < key_at e" "key_at e - key_at s \<le> i64_max" "in_i64 (key_value s)"
    and "in_i64 (key_value e - key_value s)"
  shows "segment_value s e (key_at s) = Some (key_value s)"
proof -
  have "saturating_mul_i64 0 CURVE_SCALE = 0" by (simp add: saturating_mul_i64_def clamp_i64_id)
  moreover have "in_i64 (key_at e - key_at s)" using assms by (simp add: int_width_defs)
  moreover have "rounded_div_kernel 0 CURVE_SCALE = Some 0"
    by (simp add: rounded_div_kernel_def checked_add_i64_def CURVE_SCALE_def sdiv_nonneg int_width_defs)
  ultimately show ?thesis
    using assms
    by (simp add: segment_value_def checked_sub_i64_def checked_mul_i64_def checked_add_i64_def Let_def
        ease_kernel_0)
qed

text \<open>The loop finds the segment of an index.\<close>

lemma scan_segments_nth:
  assumes "keys_ordered ks" "Suc i < length ks" "key_at (ks ! i) \<le> t" "t < key_at (ks ! Suc i)"
  shows "scan_segments ks t = segment_value (ks ! i) (ks ! Suc i) t"
  using assms
proof (induction ks t arbitrary: i rule: scan_segments.induct)
  case (1 start "end" keys t)
  show ?case
  proof (cases i)
    case 0
    with 1 show ?thesis by simp
  next
    case (Suc j)
    then have j: "Suc j < length (end # keys)" using "1.prems"(2) by simp
    have le: "key_at end \<le> key_at ((end # keys) ! j)"
      using keys_ordered_hd_le [of "end # keys" "(end # keys) ! j"] "1.prems"(1) j
      nth_mem [of j "end # keys"] by simp
    then have past: "\<not> (key_at start \<le> t \<and> t < key_at end)" using "1.prems"(3) Suc by simp
    have "scan_segments (end # keys) t = segment_value ((end # keys) ! j) ((end # keys) ! Suc j) t"
      by (rule "1.IH" [OF past]) (use "1.prems" Suc j in simp_all)
    with past Suc show ?thesis by auto
  qed
qed simp_all

lemma value_at_keys_nth:
  assumes o: "keys_ordered ks" and i: "Suc i < length ks"
    and t: "key_at (ks ! i) \<le> t" "t < key_at (ks ! Suc i)"
  shows "value_at_keys ks t =
    (if i = 0 \<and> t = key_at (ks ! 0) then Some (key_value (ks ! 0))
     else segment_value (ks ! i) (ks ! Suc i) t)"
proof -
  have ne: "ks \<noteq> []" using i by auto
  have "key_at (hd ks) \<le> key_at (ks ! i)"
    using keys_ordered_hd_le [OF o] i by (simp add: nth_mem)
  then have lo: "key_at (hd ks) \<le> t" using t by simp
  have "key_at (ks ! Suc i) \<le> key_at (last ks)"
    using keys_ordered_le_last [OF o] i by (simp add: nth_mem)
  then have hi: "t < key_at (last ks)" using t by simp
  have h: "t = key_at (hd ks) \<longleftrightarrow> i = 0 \<and> t = key_at (ks ! 0)"
  proof (cases i)
    case 0
    then show ?thesis using ne by (simp add: hd_conv_nth)
  next
    case (Suc j)
    then have "key_at (ks ! 0) < key_at (ks ! i)" using keys_ordered_nth [OF o, of 0 i] i by simp
    then show ?thesis using ne t Suc by (simp add: hd_conv_nth)
  qed
  show ?thesis
    using ne lo hi h scan_segments_nth [OF o i t]
    by (auto simp: value_at_keys_def hd_conv_nth)
qed

text \<open>Where a frame strictly inside the keyed interval lies.\<close>

lemma bracket_exists:
  assumes "keys_ordered ks" "ks \<noteq> []" "key_at (hd ks) \<le> t" "t < key_at (last ks)"
  shows "\<exists>i. Suc i < length ks \<and> key_at (ks ! i) \<le> t \<and> t < key_at (ks ! Suc i)"
  using assms
proof (induction ks rule: induct_list012)
  case (3 x y zs)
  show ?case
  proof (cases "t < key_at y")
    case True
    with 3 show ?thesis by (intro exI [of _ 0]) simp
  next
    case False
    with 3 obtain i where "Suc i < length (y # zs)" "key_at ((y # zs) ! i) \<le> t" "t < key_at ((y # zs) ! Suc i)"
      by auto
    then show ?thesis by (intro exI [of _ "Suc i"]) simp
  qed
qed auto

lemma ordered_span:
  assumes "positions_bounded ks" "a \<in> set ks" "b \<in> set ks"
  shows "key_at b - key_at a \<le> i64_max"
proof -
  have "\<bar>key_at a\<bar> \<le> MAX_KEY_FRAME_OFFSET" "\<bar>key_at b\<bar> \<le> MAX_KEY_FRAME_OFFSET"
    using assms by (simp_all add: positions_bounded_def)
  then show ?thesis by (simp add: MAX_KEY_FRAME_OFFSET_def int_width_defs abs_le_iff)
qed

lemma nonneg_span:
  "in_i64 (key_at b) \<Longrightarrow> 0 \<le> key_at a \<Longrightarrow> key_at b - key_at a \<le> i64_max"
  by (simp add: int_width_defs)

text \<open>The hull: a curve with bounded values and representable spans evaluates everywhere, and
  every value lies between two of its keys.\<close>

definition spans_ok :: "keyframe list \<Rightarrow> bool" where
  "spans_ok ks \<longleftrightarrow> (\<forall>a \<in> set ks. \<forall>b \<in> set ks. key_at b - key_at a \<le> i64_max)"

lemma value_at_keys_between:
  assumes o: "keys_ordered ks" and sp: "spans_ok ks" and vb: "values_bounded ks"
    and i: "Suc i < length ks" "key_at (ks ! i) \<le> t" "t < key_at (ks ! Suc i)"
  shows "\<exists>v. value_at_keys ks t = Some v \<and> min (key_value (ks ! i)) (key_value (ks ! Suc i)) \<le> v
    \<and> v \<le> max (key_value (ks ! i)) (key_value (ks ! Suc i))"
proof -
  have m: "ks ! i \<in> set ks" "ks ! Suc i \<in> set ks" using i(1) by (simp_all add: nth_mem)
  have s: "\<exists>v. segment_value (ks ! i) (ks ! Suc i) t = Some v
      \<and> min (key_value (ks ! i)) (key_value (ks ! Suc i)) \<le> v
      \<and> v \<le> max (key_value (ks ! i)) (key_value (ks ! Suc i))"
    using m sp vb i by (intro segment_value_between) (auto simp: spans_ok_def values_bounded_def)
  show ?thesis
    using s value_at_keys_nth [OF o i] by (cases "i = 0 \<and> t = key_at (ks ! 0)") auto
qed

lemma value_at_keys_total:
  assumes "keys_ordered ks" "spans_ok ks" "values_bounded ks" "ks \<noteq> []"
  shows "\<exists>v. value_at_keys ks t = Some v \<and> \<bar>v\<bar> \<le> PROVEN_VALUE_BOUND"
proof -
  have ends: "\<bar>key_value (hd ks)\<bar> \<le> PROVEN_VALUE_BOUND" "\<bar>key_value (last ks)\<bar> \<le> PROVEN_VALUE_BOUND"
    using assms by (simp_all add: values_bounded_def)
  show ?thesis
  proof (cases "key_at (hd ks) < t \<and> t < key_at (last ks)")
    case False
    then show ?thesis using ends assms(4) by (auto simp: value_at_keys_def not_less not_le)
  next
    case True
    then obtain i where i: "Suc i < length ks" "key_at (ks ! i) \<le> t" "t < key_at (ks ! Suc i)"
      using bracket_exists [of ks t] assms by auto
    then have "\<bar>key_value (ks ! i)\<bar> \<le> PROVEN_VALUE_BOUND" "\<bar>key_value (ks ! Suc i)\<bar> \<le> PROVEN_VALUE_BOUND"
      using assms(3) by (simp_all add: values_bounded_def)
    with value_at_keys_between [OF assms(1-3) i] show ?thesis by fastforce
  qed
qed

lemma value_at_key:
  assumes o: "keys_ordered ks" and sp: "spans_ok ks" and vb: "values_bounded ks" and k: "k \<in> set ks"
  shows "value_at_keys ks (key_at k) = Some (key_value k)"
proof -
  obtain i where i: "i < length ks" "k = ks ! i" using k by (auto simp: in_set_conv_nth)
  have ne: "ks \<noteq> []" using k by auto
  show ?thesis
  proof (cases "Suc i < length ks")
    case False
    then have "i = length ks - 1" using i by simp
    then have "k = last ks" using i ne by (simp add: last_conv_nth)
    then show ?thesis
      using keys_ordered_hd_le [OF o k] keys_ordered_unique [OF o k, of "hd ks"] ne
      by (auto simp: value_at_keys_def)
  next
    case True
    have lt: "key_at (ks ! i) < key_at (ks ! Suc i)" using keys_ordered_nth [OF o, of i "Suc i"] True by simp
    have m: "ks ! Suc i \<in> set ks" using True by (simp add: nth_mem)
    have b: "\<bar>key_value k\<bar> \<le> PROVEN_VALUE_BOUND" "\<bar>key_value (ks ! Suc i)\<bar> \<le> PROVEN_VALUE_BOUND"
      using vb k m by (simp_all add: values_bounded_def)
    have "segment_value (ks ! i) (ks ! Suc i) (key_at (ks ! i)) = Some (key_value (ks ! i))"
      using lt sp k m b i
      by (intro segment_value_start) (auto simp: spans_ok_def int_width_defs PROVEN_VALUE_BOUND_def)
    then show ?thesis using value_at_keys_nth [OF o True order_refl lt] i by auto
  qed
qed

text \<open>Translation equivariance.\<close>

lemma segment_value_shift:
  "segment_value (s\<lparr>key_at := key_at s - d\<rparr>) (e\<lparr>key_at := key_at e - d\<rparr>) (t - d) = segment_value s e t"
  by (simp add: segment_value_def checked_sub_i64_def)

lemma scan_segments_shift:
  "scan_segments (map (\<lambda>k. k\<lparr>key_at := key_at k - d\<rparr>) ks) (t - d) = scan_segments ks t"
  by (induction ks t rule: scan_segments.induct) (simp_all add: segment_value_shift)

lemma value_at_keys_shift:
  "value_at_keys (map (\<lambda>k. k\<lparr>key_at := key_at k - d\<rparr>) ks) (t - d) = value_at_keys ks t"
  by (simp add: value_at_keys_def hd_map last_map scan_segments_shift)

lemma shift_keys_exact:
  assumes "\<And>k. k \<in> set ks \<Longrightarrow> in_i64 (key_at k - d)"
  shows "shift_keys_keep_outside ks d = map (\<lambda>k. k\<lparr>key_at := key_at k - d\<rparr>) ks"
  using assms by (simp add: shift_keys_keep_outside_def saturating_sub_i64_def clamp_i64_id)

section \<open>Curves carried through an edit\<close>

text \<open>The curves every theorem below is about: non-empty, ordered, with representable spans and
  bounded values.\<close>

definition keys_sound :: "keyframe list \<Rightarrow> bool" where
  "keys_sound ks \<longleftrightarrow> ks \<noteq> [] \<and> keys_ordered ks \<and> spans_ok ks \<and> values_bounded ks"

lemma keys_soundD:
  assumes "keys_sound ks"
  shows "\<exists>v. value_at_keys ks t = Some v \<and> \<bar>v\<bar> \<le> PROVEN_VALUE_BOUND"
    and "k \<in> set ks \<Longrightarrow> value_at_keys ks (key_at k) = Some (key_value k)"
  using assms value_at_keys_total value_at_key by (auto simp: keys_sound_def)

lemma validated_keys_sound:
  assumes "curve_validate c = Inr ()" "\<And>k. k \<in> set (keyframes c) \<Longrightarrow> in_i64 (key_at k)"
    and "values_bounded (keyframes c)"
  shows "keys_sound (keyframes c)"
  using assms unfolding curve_validate_iff keys_sound_def spans_ok_def
  by (auto intro: nonneg_span)

lemma value_at_before:
  "ks \<noteq> [] \<Longrightarrow> t \<le> key_at (hd ks) \<Longrightarrow> value_at_keys ks t = Some (key_value (hd ks))"
  by (simp add: value_at_keys_def)

lemma boundary_key_sound:
  assumes "keys_sound (keyframes c)"
  shows "value_at_keys (keyframes c) s = Some (key_value (boundary_key c t s))"
    and "key_at (boundary_key c t s) = t" "\<bar>key_value (boundary_key c t s)\<bar> \<le> PROVEN_VALUE_BOUND"
  using keys_soundD(1) [OF assms, of s] by (auto simp: boundary_key_def curve_value_at_def)

subsection \<open>Maps of keys\<close>

text \<open>A map whose entries sit at their own frame reads back as an ordered curve.\<close>

definition key_map_ok :: "(int, keyframe) btree \<Rightarrow> bool" where
  "key_map_ok m \<longleftrightarrow> bt_inv m \<and> (\<forall>(p, k) \<in> set m. key_at k = p)"

lemma key_map_okI:
  "bt_inv m \<Longrightarrow> (\<And>p k. bt_get p m = Some k \<Longrightarrow> key_at k = p) \<Longrightarrow> key_map_ok m"
  using bt.entries_mem [of m] by (auto simp: key_map_ok_def)

lemma key_map_values:
  assumes "key_map_ok m"
  shows "keys_ordered (bt_values m)"
    and "k \<in> set (bt_values m) \<longleftrightarrow> bt_get (key_at k) m = Some k"
proof -
  have *: "key_at (snd e) = fst e" if "e \<in> set m" for e
    using assms that by (auto simp: key_map_ok_def)
  then have "map key_at (bt_values m) = map fst m" by (simp add: bt_values_def)
  then have "sorted_wrt (<) (map key_at (bt_values m))"
    using assms by (simp add: key_map_ok_def bt_inv_def)
  then show "keys_ordered (bt_values m)" by (simp add: keys_ordered_def sorted_wrt_map)
  have "k \<in> set (bt_values m) \<longleftrightarrow> (key_at k, k) \<in> set m"
  proof
    assume "k \<in> set (bt_values m)"
    then obtain e where "e \<in> set m" "k = snd e" by (auto simp: bt_values_def)
    then show "(key_at k, k) \<in> set m" using * [of e] by simp
  next
    assume "(key_at k, k) \<in> set m"
    then show "k \<in> set (bt_values m)" unfolding bt_values_def by (metis image_eqI list.set_map snd_conv)
  qed
  then show "k \<in> set (bt_values m) \<longleftrightarrow> bt_get (key_at k) m = Some k"
    using bt.entries_mem [of m "key_at k" k] assms by (simp add: key_map_ok_def)
qed

text \<open>A loop that inserts the selected keys, each under its own new frame.\<close>

lemma fold_select_insert:
  assumes "bt_inv m" and inj: "inj_on f (set ks)" "distinct ks"
  shows "bt_inv (fold (\<lambda>k m. if P k then bt_insert (f k) (g k) m else m) ks m)"
    and "bt_get p (fold (\<lambda>k m. if P k then bt_insert (f k) (g k) m else m) ks m)
      = (case find (\<lambda>k. P k \<and> f k = p) ks of Some k \<Rightarrow> Some (g k) | None \<Rightarrow> bt_get p m)"
  using assms
proof (induction ks arbitrary: m)
  case (Cons k ks)
  { case 1 then show ?case using Cons.IH(1) by (auto simp: bt.inv_insert) }
  { case 2
    have "find (\<lambda>k'. P k' \<and> f k' = p) ks = None" if "f k = p"
      using 2 that by (auto simp: find_None_iff inj_on_def)
    with 2 Cons.IH(2) show ?case
      by (auto simp: bt.inv_insert bt.lookup_insert split: option.split) }
qed simp_all

lemma keys_ordered_inj: "keys_ordered ks \<Longrightarrow> inj_on key_at (set ks)"
  using keys_ordered_unique by (auto simp: inj_on_def)

lemma keys_ordered_distinct: "keys_ordered ks \<Longrightarrow> distinct ks"
  by (induction ks) auto

subsection \<open>Rebasing onto a new clip window\<close>

text \<open>The hypotheses under which no position computation saturates or wraps.\<close>

definition rebase_fits :: "automation_curve \<Rightarrow> timecode \<Rightarrow> timecode \<Rightarrow> bool" where
  "rebase_fits c d n \<longleftrightarrow> 0 < n \<and> in_i64 n \<and> in_i64 d \<and> in_i64 (d + n)
     \<and> (\<forall>k \<in> set (keyframes c). in_i64 (key_at k - d))"

lemma rebase_window_get:
  assumes "keys_ordered (keyframes c)" "rebase_fits c d n"
  shows "bt_inv (rebase_window (keyframes c) d n)"
    and "bt_get p (rebase_window (keyframes c) d n) = Some k' \<longleftrightarrow>
      (\<exists>k \<in> set (keyframes c). key_at k = p + d \<and> 0 \<le> p \<and> p < n \<and> k' = k\<lparr>key_at := p\<rparr>)"
proof -
  let ?ks = "keyframes c" and ?f = "\<lambda>k. saturating_sub_i64 (key_at k) d"
  have f: "?f k = key_at k - d" if "k \<in> set ?ks" for k
    using assms(2) that by (simp add: rebase_fits_def saturating_sub_i64_def clamp_i64_id)
  have inj: "inj_on ?f (set ?ks)"
    using keys_ordered_inj [OF assms(1)] f by (auto simp: inj_on_def)
  note sel = fold_select_insert [OF bt_inv_Nil inj keys_ordered_distinct [OF assms(1)],
      where P = "\<lambda>k. 0 \<le> ?f k \<and> ?f k < n" and g = "\<lambda>k. k\<lparr>key_at := ?f k\<rparr>"]
  show "bt_inv (rebase_window ?ks d n)"
    using sel(1) by (simp add: rebase_window_def Let_def)
  have g: "bt_get p (rebase_window ?ks d n)
      = (case find (\<lambda>k. (0 \<le> ?f k \<and> ?f k < n) \<and> ?f k = p) ?ks of
           Some k \<Rightarrow> Some (k\<lparr>key_at := ?f k\<rparr>) | None \<Rightarrow> None)"
    using sel(2) [of p] by (simp add: rebase_window_def Let_def bt.lookup_empty split: option.split)
  show "bt_get p (rebase_window ?ks d n) = Some k' \<longleftrightarrow>
      (\<exists>k \<in> set ?ks. key_at k = p + d \<and> 0 \<le> p \<and> p < n \<and> k' = k\<lparr>key_at := p\<rparr>)"
  proof (cases "find (\<lambda>k. (0 \<le> ?f k \<and> ?f k < n) \<and> ?f k = p) ?ks")
    case None
    have "\<not> (key_at k = p + d \<and> 0 \<le> p \<and> p < n)" if k: "k \<in> set ?ks" for k
      using None [unfolded find_None_iff, simplified, rule_format, of k] f [OF k] k by auto
    then show ?thesis unfolding g None by auto
  next
    case (Some k)
    then have k: "k \<in> set ?ks" "0 \<le> p" "p < n" "?f k = p" using find_Some_mem [OF Some] by auto
    then have "key_at k = p + d" using f by simp
    then have uniq: "k2 = k" if "k2 \<in> set ?ks" "key_at k2 = p + d" for k2
      using keys_ordered_unique [OF assms(1) that(1) k(1)] that by simp
    have "bt_get p (rebase_window ?ks d n) = Some (k\<lparr>key_at := p\<rparr>)"
      unfolding g Some using k(4) by simp
    then show ?thesis using k(1-3) \<open>key_at k = p + d\<close> uniq by (metis option.inject)
  qed
qed

text \<open>What the rebased map holds at each frame.\<close>

lemma rebase_map_get:
  assumes o: "keys_ordered (keyframes c)" and fits: "rebase_fits c d n"
  defines "left \<equiv> \<exists>k \<in> set (keyframes c). key_at k < d"
    and "right \<equiv> \<exists>k \<in> set (keyframes c). d + n \<le> key_at k"
  shows "bt_inv (rebase_map c d n)"
    and "bt_get p (rebase_map c d n) =
      (if p = n - 1 \<and> right then Some (boundary_key c (n - 1) (d + n - 1))
       else if p = 0 \<and> left then Some (boundary_key c 0 d)
       else bt_get p (rebase_window (keyframes c) d n))"
proof -
  have l: "list_ex (\<lambda>k. key_at k < d) (keyframes c) \<longleftrightarrow> left"
    by (simp add: list_ex_iff left_def)
  have r: "list_ex (\<lambda>k. n \<le> wrap_i64 (key_at k - d)) (keyframes c) \<longleftrightarrow> right"
    using fits by (auto simp: list_ex_iff right_def rebase_fits_def wrap_i64_id algebra_simps)
  have "in_i64 (d + n - 1)" using fits by (simp add: rebase_fits_def int_width_defs)
  then have rs: "saturating_sub_i64 (saturating_add_i64 d n) 1 = d + n - 1"
    using fits by (simp add: rebase_fits_def saturating_sub_i64_def saturating_add_i64_def clamp_i64_id)
  note w = rebase_window_get(1) [OF o fits]
  show "bt_inv (rebase_map c d n)"
    using w by (simp add: rebase_map_def Let_def insert_boundary_key_def bt.inv_insert)
  show "bt_get p (rebase_map c d n) =
      (if p = n - 1 \<and> right then Some (boundary_key c (n - 1) (d + n - 1))
       else if p = 0 \<and> left then Some (boundary_key c 0 d)
       else bt_get p (rebase_window (keyframes c) d n))"
    using w unfolding rebase_map_def Let_def l r rs insert_boundary_key_def
    by (simp add: bt.inv_insert bt.lookup_insert)
qed

text \<open>Which frames carry a key.\<close>

lemma rebase_map_entry:
  assumes o: "keys_ordered (keyframes c)" and fits: "rebase_fits c d n" and k: "k \<in> set (keyframes c)"
  shows "d \<le> key_at k \<Longrightarrow> key_at k < d + n \<Longrightarrow> bt_get (key_at k - d) (rebase_map c d n) \<noteq> None"
    and "key_at k < d \<Longrightarrow> bt_get 0 (rebase_map c d n) \<noteq> None"
    and "d + n \<le> key_at k \<Longrightarrow> bt_get (n - 1) (rebase_map c d n) \<noteq> None"
proof -
  note get = rebase_map_get(2) [OF o fits]
  show "bt_get (key_at k - d) (rebase_map c d n) \<noteq> None" if "d \<le> key_at k" "key_at k < d + n"
  proof -
    have "bt_get (key_at k - d) (rebase_window (keyframes c) d n) = Some (k\<lparr>key_at := key_at k - d\<rparr>)"
      using rebase_window_get(2) [OF o fits] k that by auto
    then show ?thesis by (simp add: get)
  qed
  show "bt_get 0 (rebase_map c d n) \<noteq> None" if "key_at k < d"
    using k that by (auto simp: get)
  show "bt_get (n - 1) (rebase_map c d n) \<noteq> None" if "d + n \<le> key_at k"
    using k that by (auto simp: get)
qed

text \<open>The map is never empty, so the code's fallback after the assertion is dead.\<close>

lemma rebase_map_nonempty:
  assumes o: "keys_ordered (keyframes c)" and ne: "keyframes c \<noteq> []" and fits: "rebase_fits c d n"
  shows "rebase_map c d n \<noteq> []"
proof -
  obtain k where k: "k \<in> set (keyframes c)" using ne by (cases "keyframes c") auto
  have "\<exists>p. bt_get p (rebase_map c d n) \<noteq> None"
    using rebase_map_entry [OF o fits k] by (meson linorder_not_le)
  then show ?thesis by (auto simp: bt_get_def)
qed

lemma rebase_keyframes:
  assumes "keys_ordered (keyframes c)" "keyframes c \<noteq> []" "rebase_fits c d n"
  shows "keyframes (rebase_clip_curve c d n) = bt_values (rebase_map c d n)"
  using assms rebase_map_nonempty [OF assms]
  by (simp add: rebase_clip_curve_def rebase_fits_def Let_def)

lemma rebase_map_ok:
  assumes s: "keys_sound (keyframes c)" and fits: "rebase_fits c d n"
  shows "key_map_ok (rebase_map c d n)"
    and "bt_get p (rebase_map c d n) = Some k \<Longrightarrow>
      0 \<le> p \<and> p < n \<and> key_at k = p \<and> Some (key_value k) = value_at_keys (keyframes c) (d + p)"
proof -
  have o: "keys_ordered (keyframes c)" and n: "0 < n"
    using s fits by (simp_all add: keys_sound_def rebase_fits_def)
  have get: "0 \<le> p \<and> p < n \<and> key_at k = p \<and> Some (key_value k) = value_at_keys (keyframes c) (d + p)"
    if g: "bt_get p (rebase_map c d n) = Some k" for p k
  proof -
    consider "p = n - 1" "k = boundary_key c (n - 1) (d + n - 1)" | "p = 0" "k = boundary_key c 0 d"
      | k0 where "k0 \<in> set (keyframes c)" "key_at k0 = p + d" "0 \<le> p" "p < n" "k = k0\<lparr>key_at := p\<rparr>"
      using g rebase_window_get(2) [OF o fits, of p k]
      by (auto simp: rebase_map_get(2) [OF o fits] split: if_splits)
    then show ?thesis
    proof cases
      case 3
      then show ?thesis using keys_soundD(2) [OF s 3(1)] by (simp add: add.commute)
    qed (use boundary_key_sound [OF s] n in \<open>auto simp: algebra_simps\<close>)
  qed
  then show "bt_get p (rebase_map c d n) = Some k \<Longrightarrow>
      0 \<le> p \<and> p < n \<and> key_at k = p \<and> Some (key_value k) = value_at_keys (keyframes c) (d + p)" .
  show "key_map_ok (rebase_map c d n)"
    using rebase_map_get(1) [OF o fits] get by (intro key_map_okI) auto
qed

lemma rebase_keys_mem:
  assumes s: "keys_sound (keyframes c)" and fits: "rebase_fits c d n"
    and k: "k \<in> set (bt_values (rebase_map c d n))"
  shows "0 \<le> key_at k" "key_at k < n"
    "Some (key_value k) = value_at_keys (keyframes c) (d + key_at k)"
  using rebase_map_ok(2) [OF s fits] key_map_values(2) [OF rebase_map_ok(1) [OF s fits]] k by blast+

lemma rebase_keys_sound:
  assumes s: "keys_sound (keyframes c)" and fits: "rebase_fits c d n"
  shows "keys_sound (bt_values (rebase_map c d n))"
proof -
  have o: "keys_ordered (keyframes c)" "keyframes c \<noteq> []" and n: "in_i64 n"
    using s fits by (simp_all add: keys_sound_def rebase_fits_def)
  have "\<bar>key_value k\<bar> \<le> PROVEN_VALUE_BOUND" if "k \<in> set (bt_values (rebase_map c d n))" for k
    using keys_soundD(1) [OF s, of "d + key_at k"] rebase_keys_mem(3) [OF s fits that] by auto
  moreover have "key_at b - key_at a \<le> i64_max"
    if "a \<in> set (bt_values (rebase_map c d n))" "b \<in> set (bt_values (rebase_map c d n))" for a b
    using rebase_keys_mem(1,2) [OF s fits that(1)] rebase_keys_mem(1,2) [OF s fits that(2)] n
    by (simp add: in_i64_def)
  moreover have "bt_values (rebase_map c d n) \<noteq> []"
    using rebase_map_nonempty [OF o fits] by (simp add: bt_values_def)
  ultimately show ?thesis
    using key_map_values(1) [OF rebase_map_ok(1) [OF s fits]]
    by (simp add: keys_sound_def spans_ok_def values_bounded_def)
qed

text \<open>A frame that carries a key in the rebased map keeps its value.\<close>

lemma rebase_value_at_entry:
  assumes s: "keys_sound (keyframes c)" and fits: "rebase_fits c d n"
    and g: "bt_get p (rebase_map c d n) \<noteq> None"
  shows "value_at_keys (bt_values (rebase_map c d n)) p = value_at_keys (keyframes c) (d + p)"
proof -
  from g obtain k where k: "bt_get p (rebase_map c d n) = Some k" by auto
  note m = rebase_map_ok(2) [OF s fits k]
  then have "k \<in> set (bt_values (rebase_map c d n))"
    using key_map_values(2) [OF rebase_map_ok(1) [OF s fits], of k] k by simp
  from keys_soundD(2) [OF rebase_keys_sound [OF s fits] this] m show ?thesis by simp
qed

text \<open>Before the first surviving key the rebased curve is flat, as the old one was: the first
  rebased key sits at or before the old first key.\<close>

lemma rebase_hd_le:
  assumes s: "keys_sound (keyframes c)" and fits: "rebase_fits c d n" and k: "k \<in> set (keyframes c)"
    and lo: "d \<le> key_at k"
  shows "d + key_at (hd (bt_values (rebase_map c d n))) \<le> key_at k"
proof -
  have o: "keys_ordered (keyframes c)" using s by (simp add: keys_sound_def)
  define p where "p = (if key_at k < d + n then key_at k - d else n - 1)"
  have "bt_get p (rebase_map c d n) \<noteq> None"
    using rebase_map_entry [OF o fits k] lo by (auto simp: p_def)
  then obtain k' where k': "bt_get p (rebase_map c d n) = Some k'" by auto
  then have "k' \<in> set (bt_values (rebase_map c d n))" "key_at k' = p"
    using rebase_map_ok(2) [OF s fits k'] key_map_values(2) [OF rebase_map_ok(1) [OF s fits], of k'] by auto
  then have "key_at (hd (bt_values (rebase_map c d n))) \<le> p"
    using keys_ordered_hd_le [OF key_map_values(1) [OF rebase_map_ok(1) [OF s fits]]] by blast
  then show ?thesis by (auto simp: p_def split: if_splits)
qed

lemma rebase_value_before:
  assumes s: "keys_sound (keyframes c)" and fits: "rebase_fits c d n"
    and before: "\<And>k. k \<in> set (keyframes c) \<Longrightarrow> d + p < key_at k" and p: "0 \<le> p"
    and first: "p < key_at (hd (bt_values (rebase_map c d n)))"
  shows "value_at_keys (bt_values (rebase_map c d n)) p = value_at_keys (keyframes c) (d + p)"
proof -
  let ?ks' = "bt_values (rebase_map c d n)"
  have ne: "keyframes c \<noteq> []" "?ks' \<noteq> []"
    using s rebase_keys_sound [OF s fits] by (simp_all add: keys_sound_def)
  have hd: "hd (keyframes c) \<in> set (keyframes c)" "hd ?ks' \<in> set ?ks'" using ne by simp_all
  have le: "d + key_at (hd ?ks') \<le> key_at (hd (keyframes c))"
    using rebase_hd_le [OF s fits hd(1)] before [OF hd(1)] p by simp
  have "value_at_keys ?ks' p = Some (key_value (hd ?ks'))"
    using value_at_before [OF ne(2)] first by simp
  also have "\<dots> = Some (key_value (hd (keyframes c)))"
    using rebase_keys_mem(3) [OF s fits hd(2)] value_at_before [OF ne(1) le] by simp
  also have "\<dots> = value_at_keys (keyframes c) (d + p)"
    using value_at_before [OF ne(1), of "d + p"] le first by simp
  finally show ?thesis .
qed

text \<open>Both new boundary frames keep their value.\<close>

lemma rebase_value_head:
  assumes s: "keys_sound (keyframes c)" and fits: "rebase_fits c d n"
  shows "value_at_keys (bt_values (rebase_map c d n)) 0 = value_at_keys (keyframes c) d"
proof (cases "bt_get 0 (rebase_map c d n) = None")
  case False
  then show ?thesis using rebase_value_at_entry [OF s fits False] by simp
next
  case True
  have o: "keys_ordered (keyframes c)" and n: "0 < n" and ne': "bt_values (rebase_map c d n) \<noteq> []"
    using s fits rebase_keys_sound [OF s fits] by (simp_all add: keys_sound_def rebase_fits_def)
  have b: "d + 0 < key_at k" if "k \<in> set (keyframes c)" for k
    using rebase_map_entry(1,2) [OF o fits that] True n by (cases "key_at k = d"; cases "key_at k < d") auto
  have "hd (bt_values (rebase_map c d n)) \<in> set (bt_values (rebase_map c d n))" using ne' by simp
  then have "bt_get (key_at (hd (bt_values (rebase_map c d n)))) (rebase_map c d n) \<noteq> None"
    "0 \<le> key_at (hd (bt_values (rebase_map c d n)))"
    using key_map_values(2) [OF rebase_map_ok(1) [OF s fits]] rebase_keys_mem(1) [OF s fits] by blast+
  then have "0 < key_at (hd (bt_values (rebase_map c d n)))"
    using True by (cases "key_at (hd (bt_values (rebase_map c d n))) = 0") auto
  from rebase_value_before [OF s fits b order_refl this] show ?thesis by simp
qed

lemma value_at_after:
  "keys_ordered ks \<Longrightarrow> ks \<noteq> [] \<Longrightarrow> key_at (last ks) \<le> t \<Longrightarrow> value_at_keys ks t = Some (key_value (last ks))"
  using keys_ordered_hd_le [of ks "last ks"] keys_ordered_unique [of ks "hd ks" "last ks"]
  by (auto simp: value_at_keys_def)

lemma rebase_value_tail:
  assumes s: "keys_sound (keyframes c)" and fits: "rebase_fits c d n"
  shows "value_at_keys (bt_values (rebase_map c d n)) (n - 1) = value_at_keys (keyframes c) (d + n - 1)"
proof (cases "bt_get (n - 1) (rebase_map c d n) = None")
  case False
  then show ?thesis using rebase_value_at_entry [OF s fits False] by (simp add: algebra_simps)
next
  case True
  let ?ks = "keyframes c" and ?ks' = "bt_values (rebase_map c d n)"
  have o: "keys_ordered ?ks" "?ks \<noteq> []" and n: "0 < n" and o': "keys_ordered ?ks'" "?ks' \<noteq> []"
    using s fits rebase_keys_sound [OF s fits] by (simp_all add: keys_sound_def rebase_fits_def)
  have b: "key_at k < d + n - 1" if "k \<in> set ?ks" for k
    using rebase_map_entry(1,3) [OF o(1) fits that] True n
    by (cases "key_at k = d + n - 1"; cases "d + n \<le> key_at k") auto
  have la: "last ?ks' \<in> set ?ks'" "last ?ks \<in> set ?ks" using o o' by simp_all
  have up: "key_at (last ?ks) \<le> d + key_at (last ?ks')"
  proof -
    define p where "p = (if key_at (last ?ks) < d then 0 else key_at (last ?ks) - d)"
    have "bt_get p (rebase_map c d n) \<noteq> None"
      using rebase_map_entry(1,2) [OF o(1) fits la(2)] b [OF la(2)] by (auto simp: p_def)
    then obtain k' where k': "bt_get p (rebase_map c d n) = Some k'" by auto
    then have "k' \<in> set ?ks'" "key_at k' = p"
      using rebase_map_ok(2) [OF s fits k'] key_map_values(2) [OF rebase_map_ok(1) [OF s fits], of k'] by auto
    then have "p \<le> key_at (last ?ks')" using keys_ordered_le_last [OF o'(1)] by blast
    then show ?thesis by (auto simp: p_def split: if_splits)
  qed
  have "value_at_keys ?ks' (n - 1) = Some (key_value (last ?ks'))"
    using value_at_after [OF o'] rebase_keys_mem(2) [OF s fits la(1)] by simp
  also have "\<dots> = Some (key_value (last ?ks))"
    using rebase_keys_mem(3) [OF s fits la(1)] value_at_after [OF o up] by simp
  also have "\<dots> = value_at_keys ?ks (d + n - 1)"
    using value_at_after [OF o, of "d + n - 1"] b [OF la(2)] by simp
  finally show ?thesis .
qed

text \<open>Curves whose every key holds: the value is that of the governing key.\<close>

definition governs :: "keyframe list \<Rightarrow> timecode \<Rightarrow> keyframe \<Rightarrow> bool" where
  "governs ks t k \<longleftrightarrow> k \<in> set ks \<and>
     (key_at k \<le> t \<and> (\<forall>k' \<in> set ks. key_at k' \<le> t \<longrightarrow> key_at k' \<le> key_at k) \<or>
      t < key_at k \<and> (\<forall>k' \<in> set ks. key_at k \<le> key_at k'))"

definition all_hold :: "keyframe list \<Rightarrow> bool" where
  "all_hold ks \<longleftrightarrow> (\<forall>k \<in> set ks. key_interpolation k = Hold)"

lemma governs_exists:
  assumes "keys_ordered ks" "ks \<noteq> []"
  shows "\<exists>k. governs ks t k"
proof (cases "\<exists>k \<in> set ks. key_at k \<le> t")
  case True
  let ?S = "{k \<in> set ks. key_at k \<le> t}"
  have "finite ?S" "?S \<noteq> {}" using True by auto
  then have "Max (key_at ` ?S) \<in> key_at ` ?S" by (intro Max_in) auto
  then obtain k where "k \<in> ?S" "key_at k = Max (key_at ` ?S)" by fastforce
  moreover from this have "\<forall>k' \<in> ?S. key_at k' \<le> key_at k" by simp
  ultimately show ?thesis by (auto simp: governs_def)
next
  case False
  then show ?thesis
    using keys_ordered_hd_le [OF assms(1)] assms(2)
    by (intro exI [of _ "hd ks"]) (auto simp: governs_def not_le)
qed

lemma hold_value_governs:
  assumes o: "keys_ordered ks" and h: "all_hold ks" and g: "governs ks t k"
  shows "value_at_keys ks t = Some (key_value k)"
proof -
  have k: "k \<in> set ks" and ne: "ks \<noteq> []" using g by (auto simp: governs_def)
  note hdle = keys_ordered_hd_le [OF o] and lele = keys_ordered_le_last [OF o]
  have ends: "hd ks \<in> set ks" "last ks \<in> set ks" using ne by simp_all
  consider (lo) "t \<le> key_at (hd ks)" | (hi) "key_at (hd ks) < t" "key_at (last ks) \<le> t"
    | (mid) "key_at (hd ks) < t" "t < key_at (last ks)" by linarith
  then show ?thesis
  proof cases
    case lo
    then have "key_at k = key_at (hd ks)" using g hdle [OF k] ends unfolding governs_def by force
    then show ?thesis using keys_ordered_unique [OF o k ends(1)] value_at_before [OF ne lo] by simp
  next
    case hi
    then have "key_at k = key_at (last ks)" using g lele [OF k] hdle ends unfolding governs_def by force
    then show ?thesis using keys_ordered_unique [OF o k ends(2)] value_at_after [OF o ne hi(2)] by simp
  next
    case mid
    then obtain i where i: "Suc i < length ks" "key_at (ks ! i) \<le> t" "t < key_at (ks ! Suc i)"
      using bracket_exists [OF o ne, of t] by auto
    have m: "ks ! i \<in> set ks" using i by simp
    have kt: "key_at k \<le> t"
    proof (rule ccontr)
      assume c: "\<not> ?thesis"
      then have "key_at k \<le> key_at (ks ! i)" using g m by (simp add: governs_def)
      with c i(2) show False by simp
    qed
    have ik: "key_at (ks ! i) \<le> key_at k" using g kt m i(2) by (simp add: governs_def)
    have "key_at k \<le> key_at (ks ! i)"
    proof (rule ccontr)
      assume lt: "\<not> ?thesis"
      obtain j where j: "j < length ks" "k = ks ! j" using k by (auto simp: in_set_conv_nth)
      have "i < j"
      proof (rule ccontr)
        assume "\<not> i < j"
        then show False using lt keys_ordered_nth [OF o, of j i] i j by (cases "i = j") auto
      qed
      then have "key_at (ks ! Suc i) \<le> key_at k"
        using keys_ordered_nth [OF o, of "Suc i" j] j by (cases "Suc i = j") auto
      then show False using i kt by simp
    qed
    then have "key_at (ks ! i) = key_at k" using ik by simp
    then have "ks ! i = k" by (rule keys_ordered_unique [OF o m k])
    moreover have "segment_value (ks ! i) (ks ! Suc i) t = Some (key_value (ks ! i))"
      using h m by (simp add: segment_value_def all_hold_def)
    ultimately show ?thesis
      unfolding value_at_keys_nth [OF o i] by (cases "i = 0") simp_all
  qed
qed

lemma boundary_key_hold:
  assumes "all_hold (keyframes c)" "keyframes c \<noteq> []"
  shows "key_interpolation (boundary_key c t s) = Hold"
proof (cases "keyframes c")
  case (Cons k ks)
  show ?thesis
  proof (cases "find (\<lambda>k. key_at k \<le> s) (rev (keyframes c))")
    case None
    then show ?thesis
      using assms Cons by (auto simp: boundary_key_def segment_interpolation_at_def all_hold_def)
  next
    case (Some k')
    then have "k' \<in> set (keyframes c)" using find_Some_mem [OF Some] by simp
    with Some assms Cons show ?thesis
      by (auto simp: boundary_key_def segment_interpolation_at_def all_hold_def)
  qed
qed (use assms in simp)

lemma rebase_all_hold:
  assumes s: "keys_sound (keyframes c)" and fits: "rebase_fits c d n" and h: "all_hold (keyframes c)"
  shows "all_hold (bt_values (rebase_map c d n))"
proof -
  have o: "keys_ordered (keyframes c)" "keyframes c \<noteq> []" using s by (simp_all add: keys_sound_def)
  have "key_interpolation k = Hold" if "bt_get p (rebase_map c d n) = Some k" for p k
    using that boundary_key_hold [OF h o(2)] h rebase_window_get(2) [OF o(1) fits, of p k]
    by (auto simp: rebase_map_get(2) [OF o(1) fits] all_hold_def split: if_splits)
  then show ?thesis
    using key_map_values(2) [OF rebase_map_ok(1) [OF s fits]] by (auto simp: all_hold_def)
qed

lemma rebase_hold_exact:
  assumes s: "keys_sound (keyframes c)" and fits: "rebase_fits c d n" and h: "all_hold (keyframes c)"
    and t: "0 \<le> t" "t < n"
  shows "value_at_keys (bt_values (rebase_map c d n)) t = value_at_keys (keyframes c) (d + t)"
proof -
  let ?ks = "keyframes c" and ?ks' = "bt_values (rebase_map c d n)"
  have o: "keys_ordered ?ks" "?ks \<noteq> []" and o': "keys_ordered ?ks'" "?ks' \<noteq> []"
    using s rebase_keys_sound [OF s fits] by (simp_all add: keys_sound_def)
  obtain k' where k': "governs ?ks' t k'" using governs_exists [OF o'] by blast
  then have m': "k' \<in> set ?ks'" by (simp add: governs_def)
  obtain k where k: "governs ?ks (d + key_at k') k" using governs_exists [OF o] by blast
  have v: "value_at_keys ?ks' t = Some (key_value k)"
    using hold_value_governs [OF o'(1) rebase_all_hold [OF s fits h] k'] rebase_keys_mem(3) [OF s fits m']
      hold_value_governs [OF o(1) h k] by simp
  have in': "\<exists>k2 \<in> set ?ks'. key_at k2 = p" if "bt_get p (rebase_map c d n) \<noteq> None" for p
    using that rebase_map_ok(2) [OF s fits] key_map_values(2) [OF rebase_map_ok(1) [OF s fits]]
    by (metis option.exhaust)
  show ?thesis
  proof (cases "key_at k' \<le> t")
    case True
    have "governs ?ks (d + t) k"
    proof -
      have gap: "key_at k2 \<le> d + key_at k'" if k2: "k2 \<in> set ?ks" "key_at k2 \<le> d + t" for k2
      proof (cases "d \<le> key_at k2")
        case d: True
        then have "\<exists>k3 \<in> set ?ks'. key_at k3 = key_at k2 - d"
          using rebase_map_entry(1) [OF o(1) fits k2(1)] k2(2) t in' by simp
        then show ?thesis using k' True k2(2) unfolding governs_def by force
      next
        case False
        then show ?thesis using rebase_keys_mem(1) [OF s fits m'] by simp
      qed
      show ?thesis
      proof (cases "key_at k \<le> d + key_at k'")
        case c: True
        then show ?thesis using k gap True unfolding governs_def by force
      next
        case False
        then have "\<forall>k2 \<in> set ?ks. key_at k \<le> key_at k2" "k \<in> set ?ks" "d + key_at k' < key_at k"
          using k by (auto simp: governs_def)
        moreover from this have "\<not> key_at k \<le> d + t" using gap by force
        ultimately show ?thesis by (simp add: governs_def)
      qed
    qed
    then show ?thesis using v hold_value_governs [OF o(1) h] by simp
  next
    case False
    then have "\<forall>k2 \<in> set ?ks'. key_at k' \<le> key_at k2" using k' by (simp add: governs_def)
    moreover have "hd ?ks' \<in> set ?ks'" using o' by simp
    ultimately have first: "t < key_at (hd ?ks')" using False by fastforce
    have "d + t < key_at k2" if k2: "k2 \<in> set ?ks" for k2
    proof (rule ccontr)
      assume "\<not> ?thesis"
      then have "\<exists>p \<le> t. bt_get p (rebase_map c d n) \<noteq> None"
        using rebase_map_entry(1,2) [OF o(1) fits k2] t
        by (cases "d \<le> key_at k2") (auto intro: exI [of _ "key_at k2 - d"])
      then show False using in' first keys_ordered_hd_le [OF o'(1)] by force
    qed
    from rebase_value_before [OF s fits this t(1) first] show ?thesis by simp
  qed
qed

subsection \<open>Clamping into a shortened project\<close>

lemma fold_keys_append:
  assumes "keys_ordered ks" "\<forall>e \<in> set m. \<forall>k \<in> set ks. fst e < key_at k"
  shows "fold (\<lambda>k m. if P k then bt_insert (key_at k) k m else m) ks m
    = m @ map (\<lambda>k. (key_at k, k)) (filter P ks)"
  using assms
proof (induction ks arbitrary: m)
  case (Cons k ks)
  have "bt_insert (key_at k) k m = m @ [(key_at k, k)]"
    using Cons.prems by (intro bt_insert_last) auto
  with Cons show ?case by auto
qed simp

lemma bt_insert_end:
  "bt_inv m \<Longrightarrow> \<forall>e \<in> set m. fst e \<le> k \<Longrightarrow> bt_insert k v m = filter (\<lambda>e. fst e < k) m @ [(k, v)]"
proof (induction k v m rule: bt_insert.induct)
  case (2 k v k' v' m)
  show ?case
  proof (cases "k = k'")
    case True
    then have "m = []" using 2 by (cases m) (auto simp: bt_inv_def)
    with True show ?thesis by simp
  next
    case False
    with 2 show ?thesis by (auto simp: bt_inv_def)
  qed
qed simp

text \<open>A clamped curve is the keys before the new last frame, closed by one boundary key.\<close>

lemma clamp_keyframes:
  assumes o: "keys_ordered (keyframes c)" and n: "0 < n" and k: "k \<in> set (keyframes c)" "n \<le> key_at k"
  shows "keyframes (clamp_project_curve c n)
    = filter (\<lambda>k. key_at k < n - 1) (keyframes c) @ [boundary_key c (n - 1) (n - 1)]"
proof -
  let ?m = "map (\<lambda>k. (key_at k, k)) (filter (\<lambda>k. key_at k < n) (keyframes c))"
  have "fold (\<lambda>k m. if key_at k < n then bt_insert (key_at k) k m else m) (keyframes c) [] = ?m"
    using fold_keys_append [OF o, of "[]"] by simp
  moreover have "bt_inv ?m"
    using o by (simp add: bt_inv_def keys_ordered_def sorted_wrt_map sorted_wrt_filter)
  then have "bt_insert (n - 1) b ?m = filter (\<lambda>e. fst e < n - 1) ?m @ [(n - 1, b)]" for b
    by (rule bt_insert_end) auto
  moreover have "filter (\<lambda>e. fst e < n - 1) ?m
      = map (\<lambda>k. (key_at k, k)) (filter (\<lambda>k. key_at k < n - 1) (keyframes c))"
    by (auto simp: filter_map o_def intro!: arg_cong [where f = "map _"] filter_cong)
  moreover have "\<not> list_all (\<lambda>k. key_at k < n) (keyframes c)" "keyframes c \<noteq> []"
    using k by (auto simp: list_all_iff not_less)
  ultimately show ?thesis
    using n by (simp add: clamp_project_curve_def Let_def insert_boundary_key_def bt_values_def o_def)
qed

text \<open>Up to the last key of a prefix only the prefix matters.\<close>

lemma value_at_keys_prefix:
  assumes s: "keys_sound (pre @ rest)" and ne: "pre \<noteq> []" and t: "t \<le> key_at (last pre)"
  shows "value_at_keys (pre @ rest) t = value_at_keys pre t"
proof -
  have o: "keys_ordered (pre @ rest)" using s by (simp add: keys_sound_def)
  then have op: "keys_ordered pre" by (simp add: keys_ordered_def sorted_wrt_append)
  have sp: "keys_sound pre"
    using s op ne by (auto simp: keys_sound_def spans_ok_def values_bounded_def)
  consider "t = key_at (last pre)" | "t \<le> key_at (hd pre)"
    | "key_at (hd pre) < t" "t < key_at (last pre)" using t by linarith
  then show ?thesis
  proof cases
    case 1
    then show ?thesis using keys_soundD(2) [OF s, of "last pre"] keys_soundD(2) [OF sp, of "last pre"] ne by simp
  next
    case 2
    then show ?thesis using ne by (simp add: value_at_keys_def)
  next
    case 3
    then obtain i where i: "Suc i < length pre" "key_at (pre ! i) \<le> t" "t < key_at (pre ! Suc i)"
      using bracket_exists [OF op ne, of t] by auto
    then have "Suc i < length (pre @ rest)" "key_at ((pre @ rest) ! i) \<le> t" "t < key_at ((pre @ rest) ! Suc i)"
      by (simp_all add: nth_append)
    from value_at_keys_nth [OF o this] value_at_keys_nth [OF op i] i(1) ne show ?thesis
      by (simp add: nth_append)
  qed
qed

lemma keys_ordered_split:
  assumes "keys_ordered ks"
  shows "ks = filter (\<lambda>k. key_at k < p) ks @ filter (\<lambda>k. p \<le> key_at k) ks"
  using assms
proof (induction ks)
  case (Cons k ks)
  show ?case
  proof (cases "key_at k < p")
    case False
    then have "\<forall>k' \<in> set ks. p \<le> key_at k'" using Cons.prems by force
    then have "filter (\<lambda>k. key_at k < p) ks = []" "filter (\<lambda>k. p \<le> key_at k) ks = ks"
      by (auto simp: filter_empty_conv filter_id_conv)
    with False show ?thesis by simp
  qed (use Cons in auto)
qed simp

lemma clamp_keys_sound:
  assumes s: "keys_sound (keyframes c)" and pos: "\<forall>k \<in> set (keyframes c). 0 \<le> key_at k"
    and n: "0 < n" "in_i64 n" and k: "k \<in> set (keyframes c)" "n \<le> key_at k"
  shows "keys_sound (keyframes (clamp_project_curve c n))"
proof -
  have o: "keys_ordered (keyframes c)" using s by (simp add: keys_sound_def)
  let ?b = "boundary_key c (n - 1) (n - 1)"
  note b = boundary_key_sound [OF s, where s = "n - 1" and t = "n - 1"]
  show ?thesis
    unfolding clamp_keyframes [OF o n(1) k] using s pos n b
    by (auto simp: keys_sound_def keys_ordered_def sorted_wrt_append sorted_wrt_filter spans_ok_def
        values_bounded_def int_width_defs)
qed

lemma clamp_value_prefix:
  assumes s: "keys_sound (keyframes c)" and pos: "\<forall>k \<in> set (keyframes c). 0 \<le> key_at k"
    and n: "0 < n" "in_i64 n" and k: "k \<in> set (keyframes c)" "n \<le> key_at k"
    and p: "k' \<in> set (keyframes c)" "key_at k' < n - 1" "t \<le> key_at k'"
  shows "curve_value_at (clamp_project_curve c n) t = curve_value_at c t"
proof -
  let ?pre = "filter (\<lambda>k. key_at k < n - 1) (keyframes c)"
  let ?rest = "filter (\<lambda>k. n - 1 \<le> key_at k) (keyframes c)"
  have o: "keys_ordered (keyframes c)" using s by (simp add: keys_sound_def)
  note split = keys_ordered_split [OF o, of "n - 1"]
  have s': "keys_sound (?pre @ [boundary_key c (n - 1) (n - 1)])"
    using clamp_keys_sound [OF s pos n k] by (simp add: clamp_keyframes [OF o n(1) k])
  have k': "k' \<in> set ?pre" using p by simp
  then have ne: "?pre \<noteq> []" by (metis empty_iff list.set(1))
  have "keys_ordered ?pre" using o by (simp add: keys_ordered_def sorted_wrt_filter)
  then have t: "t \<le> key_at (last ?pre)" using keys_ordered_le_last [OF _ k'] p(3) by fastforce
  have sp: "keys_sound (?pre @ ?rest)" using s split by simp
  have "value_at_keys (?pre @ ?rest) t = value_at_keys (keyframes c) t" using split by simp
  then show ?thesis
    using value_at_keys_prefix [OF s' ne t] value_at_keys_prefix [OF sp ne t]
    by (simp add: curve_value_at_def clamp_keyframes [OF o n(1) k])
qed

lemma value_at_keys_in_range:
  assumes o: "keys_ordered ks" and ne: "ks \<noteq> []"
    and r: "\<And>k. k \<in> set ks \<Longrightarrow> lo \<le> key_value k \<and> key_value k \<le> hi"
    and smooth: "all_hold ks \<or> spans_ok ks \<and> - PROVEN_VALUE_BOUND \<le> lo \<and> hi \<le> PROVEN_VALUE_BOUND"
  shows "\<exists>v. value_at_keys ks t = Some v \<and> lo \<le> v \<and> v \<le> hi"
  using smooth
proof
  assume h: "all_hold ks"
  obtain k where g: "governs ks t k" using governs_exists [OF o ne] by blast
  then have "k \<in> set ks" by (simp add: governs_def)
  then show ?thesis using hold_value_governs [OF o h g] r by auto
next
  assume s: "spans_ok ks \<and> - PROVEN_VALUE_BOUND \<le> lo \<and> hi \<le> PROVEN_VALUE_BOUND"
  have vb: "values_bounded ks" unfolding values_bounded_def
    using r s by (fastforce simp: abs_le_iff)
  show ?thesis
  proof (cases "key_at (hd ks) < t \<and> t < key_at (last ks)")
    case False
    then show ?thesis using ne r by (auto simp: value_at_keys_def not_less not_le)
  next
    case True
    then obtain i where i: "Suc i < length ks" "key_at (ks ! i) \<le> t" "t < key_at (ks ! Suc i)"
      using bracket_exists [of ks t] o ne by auto
    have "ks ! i \<in> set ks" "ks ! Suc i \<in> set ks" using i(1) by simp_all
    with r [of "ks ! i"] r [of "ks ! Suc i"] value_at_keys_between [OF o _ vb i] s
    show ?thesis by fastforce
  qed
qed

lemma positions_bounded_spans: "positions_bounded ks \<Longrightarrow> spans_ok ks"
  using ordered_span by (auto simp: spans_ok_def)

section \<open>Properties\<close>

text \<open>
  Claim C30. Evaluation never leaves the hull of the two keys around a frame, for curves of any
  length and all five interpolations: on a curve accepted by \<^verbatim>\<open>validate_ordered\<close> with values in
  the proven bound, a frame between two neighbouring keys evaluates, without overflow, to a value
  between theirs, every key reads back its own value, and outside the keys the curve is flat.
\<close>

theorem value_at_hull:
  assumes "curve_validate_ordered c = Inr ()" "values_bounded (keyframes c)"
  shows "(\<forall>i t. Suc i < length (keyframes c) \<and> key_at (keyframes c ! i) \<le> t \<and> t < key_at (keyframes c ! Suc i) \<longrightarrow>
      (\<exists>v. curve_value_at c t = Some v
        \<and> min (key_value (keyframes c ! i)) (key_value (keyframes c ! Suc i)) \<le> v
        \<and> v \<le> max (key_value (keyframes c ! i)) (key_value (keyframes c ! Suc i))))
    \<and> (\<forall>k \<in> set (keyframes c). curve_value_at c (key_at k) = Some (key_value k))
    \<and> (\<forall>t \<le> key_at (hd (keyframes c)). curve_value_at c t = Some (key_value (hd (keyframes c))))
    \<and> (\<forall>t \<ge> key_at (last (keyframes c)). curve_value_at c t = Some (key_value (last (keyframes c))))"
proof (intro conjI)
  have o: "keyframes c \<noteq> []" "keys_ordered (keyframes c)" "positions_bounded (keyframes c)"
    using assms(1) by (simp_all add: curve_validate_ordered_iff)
  have sp: "spans_ok (keyframes c)" using ordered_span [OF o(3)] by (simp add: spans_ok_def)
  show "\<forall>i t. Suc i < length (keyframes c) \<and> key_at (keyframes c ! i) \<le> t \<and> t < key_at (keyframes c ! Suc i) \<longrightarrow>
      (\<exists>v. curve_value_at c t = Some v
        \<and> min (key_value (keyframes c ! i)) (key_value (keyframes c ! Suc i)) \<le> v
        \<and> v \<le> max (key_value (keyframes c ! i)) (key_value (keyframes c ! Suc i)))"
    using value_at_keys_between [OF o(2) sp assms(2)] by (simp add: curve_value_at_def)
  show "\<forall>k \<in> set (keyframes c). curve_value_at c (key_at k) = Some (key_value k)"
    using value_at_key [OF o(2) sp assms(2)] by (simp add: curve_value_at_def)
  show "\<forall>t \<le> key_at (hd (keyframes c)). curve_value_at c t = Some (key_value (hd (keyframes c)))"
    using value_at_before [OF o(1)] by (simp add: curve_value_at_def)
  show "\<forall>t \<ge> key_at (last (keyframes c)). curve_value_at c t = Some (key_value (last (keyframes c)))"
    using value_at_after [OF o(2,1)] by (simp add: curve_value_at_def)
qed

definition sample_key :: "int \<Rightarrow> int \<Rightarrow> keyframe_interpolation \<Rightarrow> keyframe" where
  "sample_key t v i = \<lparr>key_at = t, key_value = v, key_interpolation = i, tangent_in = 0, tangent_out = 0\<rparr>"

definition sample_curve :: automation_curve where
  "sample_curve = \<lparr>keyframes = [sample_key 0 (-60) EaseInOut, sample_key 12 0 Hold, sample_key 40 (-10) Linear]\<rparr>"

definition sample_hold_curve :: automation_curve where
  "sample_hold_curve = \<lparr>keyframes = [sample_key 0 5 Hold, sample_key 10 7 Hold, sample_key 30 9 Hold]\<rparr>"

theorem value_at_hull_witness:
  "curve_value_at sample_curve 12 = Some 0 \<and> curve_value_at sample_curve 90 = Some (-10)"
proof -
  have v: "curve_validate_ordered sample_curve = Inr ()" "values_bounded (keyframes sample_curve)"
    by (code_simp, simp add: values_bounded_def sample_curve_def sample_key_def PROVEN_VALUE_BOUND_def)
  show ?thesis
    using value_at_hull [OF v] by (simp add: sample_curve_def sample_key_def)
qed

text \<open>
  The keep-outside shift is exact: while no position saturates, every frame of the
  shifted curve reads what the original reads at the unshifted frame, and shifting back restores
  the curve bit for bit, tangents included.
\<close>

theorem keep_outside_shift_equivariant:
  assumes "\<And>k. k \<in> set (keyframes c) \<Longrightarrow> in_i64 (key_at k) \<and> in_i64 (key_at k - d)"
  shows "curve_value_at (rebase_clip_curve_keep_outside c d) (t - d) = curve_value_at c t
    \<and> rebase_clip_curve_keep_outside (rebase_clip_curve_keep_outside c d) (- d) = c"
proof -
  have a: "shift_keys_keep_outside (keyframes c) d = map (\<lambda>k. k\<lparr>key_at := key_at k - d\<rparr>) (keyframes c)"
    using assms by (intro shift_keys_exact) simp
  moreover have "shift_keys_keep_outside (map (\<lambda>k. k\<lparr>key_at := key_at k - d\<rparr>) (keyframes c)) (- d)
      = map (\<lambda>k. k\<lparr>key_at := key_at k - - d\<rparr>) (map (\<lambda>k. k\<lparr>key_at := key_at k - d\<rparr>) (keyframes c))"
    using assms by (intro shift_keys_exact) auto
  moreover have "map (\<lambda>k. k\<lparr>key_at := key_at k - - d\<rparr>) (map (\<lambda>k. k\<lparr>key_at := key_at k - d\<rparr>) (keyframes c))
      = keyframes c"
    by (simp add: map_idI)
  ultimately show ?thesis
    by (cases c) (auto simp: rebase_clip_curve_keep_outside_def curve_value_at_def value_at_keys_shift,
        simp add: value_at_keys_def)
qed

theorem keep_outside_shift_equivariant_witness:
  "curve_value_at (rebase_clip_curve_keep_outside sample_curve 7) (6 - 7) = curve_value_at sample_curve 6
    \<and> rebase_clip_curve_keep_outside (rebase_clip_curve_keep_outside sample_curve 7) (- 7) = sample_curve"
  by (rule keep_outside_shift_equivariant)
     (auto simp: sample_curve_def sample_key_def int_width_defs)

text \<open>
  Claim C33. Rebasing a curve onto a new clip window keeps it valid and keeps both edges: the
  result passes \<^verbatim>\<open>validate\<close>, all its keys lie in the window, its values stay in the proven bound,
  and the first and the last frame of the window read exactly what the old curve read there.
\<close>

theorem rebase_clip_curve_keeps_edges:
  assumes v: "curve_validate c = Inr ()" "\<And>k. k \<in> set (keyframes c) \<Longrightarrow> in_i64 (key_at k)"
    "values_bounded (keyframes c)" and fits: "rebase_fits c d n"
  shows "curve_validate (rebase_clip_curve c d n) = Inr ()
    \<and> (\<forall>k \<in> set (keyframes (rebase_clip_curve c d n)). 0 \<le> key_at k \<and> key_at k < n)
    \<and> values_bounded (keyframes (rebase_clip_curve c d n))
    \<and> curve_value_at (rebase_clip_curve c d n) 0 = curve_value_at c d
    \<and> curve_value_at (rebase_clip_curve c d n) (n - 1) = curve_value_at c (d + n - 1)"
proof -
  note s = validated_keys_sound [OF v]
  have o: "keys_ordered (keyframes c)" "keyframes c \<noteq> []" using s by (simp_all add: keys_sound_def)
  note k = rebase_keyframes [OF o fits]
  show ?thesis
    using rebase_keys_sound [OF s fits] rebase_keys_mem(1,2) [OF s fits]
      rebase_value_head [OF s fits] rebase_value_tail [OF s fits]
    unfolding curve_validate_iff curve_value_at_def k keys_sound_def by blast
qed

theorem rebase_clip_curve_keeps_edges_witness:
  "curve_validate (rebase_clip_curve sample_curve 5 20) = Inr ()
   \<and> curve_value_at (rebase_clip_curve sample_curve 5 20) 0 = curve_value_at sample_curve 5
   \<and> curve_value_at (rebase_clip_curve sample_curve 5 20) (20 - 1) = curve_value_at sample_curve (5 + 20 - 1)"
proof -
  have "curve_validate sample_curve = Inr ()" by code_simp
  moreover have "values_bounded (keyframes sample_curve)" "rebase_fits sample_curve 5 20"
    by (simp_all add: values_bounded_def rebase_fits_def sample_curve_def sample_key_def
        PROVEN_VALUE_BOUND_def int_width_defs)
  moreover have "in_i64 (key_at k)" if "k \<in> set (keyframes sample_curve)" for k
    using that by (auto simp: sample_curve_def sample_key_def int_width_defs)
  ultimately show ?thesis using rebase_clip_curve_keeps_edges [of sample_curve 5 20] by blast
qed

text \<open>
  On a curve that only holds, rebasing is exact at every frame of the window, not only
  at its edges.
\<close>

theorem rebase_clip_curve_exact_on_holds:
  assumes v: "curve_validate c = Inr ()" "\<And>k. k \<in> set (keyframes c) \<Longrightarrow> in_i64 (key_at k)"
    "values_bounded (keyframes c)" and fits: "rebase_fits c d n"
    and "all_hold (keyframes c)" "0 \<le> t" "t < n"
  shows "curve_value_at (rebase_clip_curve c d n) t = curve_value_at c (d + t)"
proof -
  note s = validated_keys_sound [OF v]
  have o: "keys_ordered (keyframes c)" "keyframes c \<noteq> []" using s by (simp_all add: keys_sound_def)
  show ?thesis
    using rebase_hold_exact [OF s fits assms(5-7)] by (simp add: curve_value_at_def rebase_keyframes [OF o fits])
qed

theorem rebase_clip_curve_exact_on_holds_witness:
  "curve_value_at (rebase_clip_curve sample_hold_curve 5 20) 4 = curve_value_at sample_hold_curve (5 + 4)"
proof (rule rebase_clip_curve_exact_on_holds [where n = 20])
  show "curve_validate sample_hold_curve = Inr ()" by code_simp
qed (auto simp: values_bounded_def rebase_fits_def all_hold_def sample_hold_curve_def sample_key_def
      PROVEN_VALUE_BOUND_def int_width_defs)

text \<open>
  Clamping a project curve into a shortened project keeps it valid inside the new
  duration, keeps the value of the new last frame, and changes no frame up to the last key that
  survives.
\<close>

theorem clamp_project_curve_keeps_values:
  assumes v: "curve_validate c = Inr ()" "\<And>k. k \<in> set (keyframes c) \<Longrightarrow> in_i64 (key_at k)"
    "values_bounded (keyframes c)" and n: "0 < n" "in_i64 n"
  shows "curve_validate (clamp_project_curve c n) = Inr ()
    \<and> (\<forall>k \<in> set (keyframes (clamp_project_curve c n)). key_at k < n)
    \<and> curve_value_at (clamp_project_curve c n) (n - 1) = curve_value_at c (n - 1)
    \<and> (\<forall>k t. k \<in> set (keyframes c) \<and> key_at k < n - 1 \<and> t \<le> key_at k \<longrightarrow>
          curve_value_at (clamp_project_curve c n) t = curve_value_at c t)"
proof (cases "list_all (\<lambda>k. key_at k < n) (keyframes c)")
  case True
  have "keyframes c \<noteq> []" using v(1) by (simp add: curve_validate_iff)
  then have "clamp_project_curve c n = c" using True n by (simp add: clamp_project_curve_def)
  with True v(1) show ?thesis by (simp add: list_all_iff)
next
  case False
  note s = validated_keys_sound [OF v]
  have o: "keys_ordered (keyframes c)" and pos: "\<forall>k \<in> set (keyframes c). 0 \<le> key_at k"
    using v(1) by (simp_all add: curve_validate_iff)
  from False obtain k where k: "k \<in> set (keyframes c)" "n \<le> key_at k" by (auto simp: list_all_iff not_less)
  note ks = clamp_keyframes [OF o n(1) k] and s' = clamp_keys_sound [OF s pos n k]
  have 1: "curve_validate (clamp_project_curve c n) = Inr ()"
    using s' pos n boundary_key_sound(2) [OF s] by (auto simp: curve_validate_iff keys_sound_def ks)
  have 2: "\<forall>k \<in> set (keyframes (clamp_project_curve c n)). key_at k < n"
    using boundary_key_sound(2) [OF s] by (auto simp: ks)
  have 3: "curve_value_at (clamp_project_curve c n) (n - 1) = curve_value_at c (n - 1)"
    using keys_soundD(2) [OF s', of "boundary_key c (n - 1) (n - 1)"] boundary_key_sound(1,2) [OF s]
    by (simp add: curve_value_at_def ks)
  from 1 2 3 clamp_value_prefix [OF s pos n k] show ?thesis by blast
qed

theorem clamp_project_curve_keeps_values_witness:
  "curve_validate (clamp_project_curve sample_curve 30) = Inr ()
   \<and> curve_value_at (clamp_project_curve sample_curve 30) (30 - 1) = curve_value_at sample_curve (30 - 1)"
proof -
  have v: "curve_validate sample_curve = Inr ()" by code_simp
  have "in_i64 (key_at k)" if "k \<in> set (keyframes sample_curve)" for k
    using that by (auto simp: sample_curve_def sample_key_def int_width_defs)
  moreover have "values_bounded (keyframes sample_curve)" "in_i64 30"
    by (simp_all add: values_bounded_def sample_curve_def sample_key_def PROVEN_VALUE_BOUND_def int_width_defs)
  ultimately show ?thesis
    using clamp_project_curve_keeps_values [OF v, of 30] by simp
qed

text \<open>
  Claim C34. Easing stays inside the unit interval without wrapping for every interpolation, and
  meets its end points; but the rounded \<^verbatim>\<open>EaseInOut\<close> is not monotone, as the comment above the
  hull harness says of all five: from 10000 to 10001 it falls from 298 to 297.
\<close>

theorem ease_kernel_in_range_but_not_monotone:
  "(\<forall>v i. 0 \<le> v \<and> v \<le> CURVE_SCALE \<longrightarrow> 0 \<le> ease_kernel v i \<and> ease_kernel v i \<le> CURVE_SCALE)
   \<and> (\<forall>i. ease_kernel 0 i = 0) \<and> (\<forall>i. i \<noteq> Hold \<longrightarrow> ease_kernel CURVE_SCALE i = CURVE_SCALE)
   \<and> ease_kernel 10000 EaseInOut = 298 \<and> ease_kernel 10001 EaseInOut = 297"
proof (intro conjI)
  show "\<forall>v i. 0 \<le> v \<and> v \<le> CURVE_SCALE \<longrightarrow> 0 \<le> ease_kernel v i \<and> ease_kernel v i \<le> CURVE_SCALE"
    using ease_kernel_bounds by blast
  show "\<forall>i. ease_kernel 0 i = 0" using ease_kernel_0 by blast
  show "\<forall>i. i \<noteq> Hold \<longrightarrow> ease_kernel CURVE_SCALE i = CURVE_SCALE"
  proof (intro allI impI)
    fix i assume "i \<noteq> Hold"
    then show "ease_kernel CURVE_SCALE i = CURVE_SCALE"
      using ease_kernel_unwrapped [of CURVE_SCALE i] by (cases i) (simp_all add: CURVE_SCALE_def)
  qed
  show "ease_kernel 10000 EaseInOut = 298" "ease_kernel 10001 EaseInOut = 297" by code_simp+
qed

theorem ease_kernel_in_range_but_not_monotone_witness:
  "0 \<le> ease_kernel 10000 EaseInOut \<and> ease_kernel 10001 EaseInOut = 297"
  using ease_kernel_in_range_but_not_monotone by simp

end
