(* ===== verification/Color_Model.thy ===== *)
theory Color_Model
  imports Rust_Prelude
begin

text \<open>
  Source and pipeline colour metadata, \<^verbatim>\<open>crates/kinewright-core/src/color.rs\<close>: the tag enums
  with their \<^verbatim>\<open>Other\<close> fallback, the bit depth with its canonical equality, the classification of
  a source description into a supported profile, the managed-pipeline predicates, and the migration
  of a stored colour context without a pipeline state.
\<close>

section \<open>Definitions\<close>

datatype color_primaries =
    Primaries_Unknown | Primaries_Srgb | Primaries_Bt709 | Primaries_Bt2020 | Primaries_DisplayP3
  | Primaries_DciP3 | Primaries_Smpte170M | Primaries_Smpte240M | Primaries_Bt470M
  | Primaries_Bt470Bg | Primaries_Film | Primaries_Other string

datatype color_transfer =
    Transfer_Unknown | Transfer_Srgb | Transfer_Bt709 | Transfer_Bt1886 | Transfer_Linear
  | Transfer_Gamma22 | Transfer_Gamma28 | Transfer_Smpte170M | Transfer_Smpte2084
  | Transfer_AribStdB67 | Transfer_Log | Transfer_LogC | Transfer_Log3G10 | Transfer_Other string

datatype color_matrix =
    Matrix_Unknown | Matrix_Identity | Matrix_Rgb | Matrix_Bt709 | Matrix_Bt2020Ncl | Matrix_Bt2020Cl
  | Matrix_Smpte170M | Matrix_Smpte240M | Matrix_Ycgco | Matrix_ChromaDerivedNcl
  | Matrix_ChromaDerivedCl | Matrix_Ictcp | Matrix_Other string

datatype color_range = Range_Unknown | Range_Full | Range_Limited | Range_Other string

datatype color_white_point =
    White_Unknown | White_D50 | White_D55 | White_D60 | White_D65 | White_Dci | White_Other string

datatype color_provenance =
    Prov_Unknown | Prov_ContainerMetadata | Prov_StreamMetadata | Prov_SidecarMetadata
  | Prov_UserOverride | Prov_Inferred | Prov_ApplicationDefault | Prov_AgentAssumption
  | Prov_Other string

datatype color_pipeline_state = Legacy | ManagedSdrV1 | Pipeline_Other string

datatype color_source_profile = Rec709Video | SrgbFull

datatype color_source_profile_assumption = Assume_D65

datatype color_bit_depth =
    Depth_Unknown | Eight | Ten | Twelve | Sixteen | Float16 | Float32 | Depth_Integer int
  | Depth_Other string

datatype canonical_bit_depth =
    Canonical_Unknown | Canonical_Integer int | Canonical_Float16 | Canonical_Float32
  | Canonical_Other string

datatype color_source_error =
    UnknownPrimaries | UnsupportedPrimaries color_primaries
  | UnknownTransfer | UnsupportedTransfer color_transfer
  | UnknownMatrix | UnsupportedMatrix color_matrix
  | UnknownRange | UnsupportedRange color_range
  | UnknownWhitePoint | UnsupportedWhitePoint color_white_point
  | UnknownBitDepth | UnsupportedBitDepth color_bit_depth
  | UnsupportedCombination color_primaries color_transfer color_matrix color_range

definition color_bit_depth_integer :: "int \<Rightarrow> color_bit_depth" where
  "color_bit_depth_integer bits =
     (if bits = 8 then Eight else if bits = 10 then Ten else if bits = 12 then Twelve
      else if bits = 16 then Sixteen else Depth_Integer bits)"

fun integer_bits :: "color_bit_depth \<Rightarrow> int option" where
  "integer_bits Eight = Some 8"
| "integer_bits Ten = Some 10"
| "integer_bits Twelve = Some 12"
| "integer_bits Sixteen = Some 16"
| "integer_bits (Depth_Integer bits) = (if in_u8 bits then Some bits else None)"
| "integer_bits _ = None"

fun canonical_depth :: "color_bit_depth \<Rightarrow> canonical_bit_depth" where
  "canonical_depth Depth_Unknown = Canonical_Unknown"
| "canonical_depth Eight = Canonical_Integer 8"
| "canonical_depth Ten = Canonical_Integer 10"
| "canonical_depth Twelve = Canonical_Integer 12"
| "canonical_depth Sixteen = Canonical_Integer 16"
| "canonical_depth Float16 = Canonical_Float16"
| "canonical_depth Float32 = Canonical_Float32"
| "canonical_depth (Depth_Integer bits) = Canonical_Integer bits"
| "canonical_depth (Depth_Other s) = Canonical_Other s"

definition bit_depth_eq :: "color_bit_depth \<Rightarrow> color_bit_depth \<Rightarrow> bool" where
  "bit_depth_eq a b \<longleftrightarrow> canonical_depth a = canonical_depth b"

record color_description =
  cd_primaries :: color_primaries
  cd_transfer :: color_transfer
  cd_matrix :: color_matrix
  cd_range :: color_range
  cd_white_point :: color_white_point
  cd_bit_depth :: color_bit_depth
  cd_confidence_basis_points :: int
  cd_provenance :: color_provenance

text \<open>The derived \<^verbatim>\<open>PartialEq\<close> of a description, through the bit depth's own equality.\<close>

definition color_description_eq :: "color_description \<Rightarrow> color_description \<Rightarrow> bool" where
  "color_description_eq a b \<longleftrightarrow>
     cd_primaries a = cd_primaries b \<and> cd_transfer a = cd_transfer b \<and> cd_matrix a = cd_matrix b
     \<and> cd_range a = cd_range b \<and> cd_white_point a = cd_white_point b
     \<and> bit_depth_eq (cd_bit_depth a) (cd_bit_depth b)
     \<and> cd_confidence_basis_points a = cd_confidence_basis_points b
     \<and> cd_provenance a = cd_provenance b"

definition COLOR_CONFIDENCE_MAX_BASIS_POINTS :: int where
  "COLOR_CONFIDENCE_MAX_BASIS_POINTS = 10000"

definition color_description_unknown :: color_description where
  "color_description_unknown =
     \<lparr>cd_primaries = Primaries_Unknown, cd_transfer = Transfer_Unknown, cd_matrix = Matrix_Unknown,
      cd_range = Range_Unknown, cd_white_point = White_Unknown, cd_bit_depth = Depth_Unknown,
      cd_confidence_basis_points = 0, cd_provenance = Prov_Unknown\<rparr>"

definition color_description_is_unknown :: "color_description \<Rightarrow> bool" where
  "color_description_is_unknown d \<longleftrightarrow> color_description_eq d color_description_unknown"

definition confidence_is_valid :: "color_description \<Rightarrow> bool" where
  "confidence_is_valid d \<longleftrightarrow> cd_confidence_basis_points d \<le> COLOR_CONFIDENCE_MAX_BASIS_POINTS"

definition application_default_with ::
    "color_matrix \<Rightarrow> color_range \<Rightarrow> color_transfer \<Rightarrow> color_bit_depth \<Rightarrow> color_description" where
  "application_default_with matrix rg transfer bit_depth =
     \<lparr>cd_primaries = Primaries_Bt709, cd_transfer = transfer, cd_matrix = matrix, cd_range = rg,
      cd_white_point = White_D65, cd_bit_depth = bit_depth,
      cd_confidence_basis_points = COLOR_CONFIDENCE_MAX_BASIS_POINTS,
      cd_provenance = Prov_ApplicationDefault\<rparr>"

definition application_default :: "color_matrix \<Rightarrow> color_range \<Rightarrow> color_description" where
  "application_default matrix rg = application_default_with matrix rg Transfer_Bt709 Eight"

definition validate_source_fields ::
    "color_description \<Rightarrow> color_source_profile_assumption option \<Rightarrow> color_source_error + unit" where
  "validate_source_fields d assumption =
     rbind (case cd_primaries d of
              Primaries_Unknown \<Rightarrow> Inl UnknownPrimaries
            | Primaries_Srgb \<Rightarrow> Inr () | Primaries_Bt709 \<Rightarrow> Inr ()
            | v \<Rightarrow> Inl (UnsupportedPrimaries v)) (\<lambda>_.
     rbind (case cd_transfer d of
              Transfer_Unknown \<Rightarrow> Inl UnknownTransfer
            | Transfer_Srgb \<Rightarrow> Inr () | Transfer_Bt709 \<Rightarrow> Inr () | Transfer_Bt1886 \<Rightarrow> Inr ()
            | v \<Rightarrow> Inl (UnsupportedTransfer v)) (\<lambda>_.
     rbind (case cd_matrix d of
              Matrix_Unknown \<Rightarrow> Inl UnknownMatrix
            | Matrix_Identity \<Rightarrow> Inr () | Matrix_Rgb \<Rightarrow> Inr () | Matrix_Bt709 \<Rightarrow> Inr ()
            | v \<Rightarrow> Inl (UnsupportedMatrix v)) (\<lambda>_.
     rbind (case cd_range d of
              Range_Unknown \<Rightarrow> Inl UnknownRange
            | Range_Full \<Rightarrow> Inr () | Range_Limited \<Rightarrow> Inr ()
            | v \<Rightarrow> Inl (UnsupportedRange v)) (\<lambda>_.
     rbind (case cd_white_point d of
              White_D65 \<Rightarrow> Inr ()
            | White_Unknown \<Rightarrow>
                if assumption = Some Assume_D65 \<and> cd_primaries d = Primaries_Bt709 then Inr ()
                else Inl UnknownWhitePoint
            | v \<Rightarrow> Inl (UnsupportedWhitePoint v)) (\<lambda>_.
     case cd_bit_depth d of
       Depth_Unknown \<Rightarrow> Inl UnknownBitDepth
     | v \<Rightarrow> (case integer_bits v of
               Some bits \<Rightarrow> if 8 \<le> bits \<and> bits \<le> 16 then Inr () else Inl (UnsupportedBitDepth v)
             | None \<Rightarrow> Inl (UnsupportedBitDepth v)))))))"

text \<open>The part of the classification after the field checks.\<close>

definition match_source_profile :: "color_description \<Rightarrow> color_source_error + color_source_profile" where
  "match_source_profile d =
     (if cd_primaries d = Primaries_Bt709
         \<and> (cd_transfer d = Transfer_Bt709 \<or> cd_transfer d = Transfer_Bt1886)
         \<and> (cd_matrix d = Matrix_Bt709 \<or> cd_matrix d = Matrix_Rgb)
         \<and> (cd_range d = Range_Limited \<or> cd_range d = Range_Full)
      then Inr Rec709Video
      else if (cd_primaries d = Primaries_Srgb \<or> cd_primaries d = Primaries_Bt709)
         \<and> cd_transfer d = Transfer_Srgb
         \<and> (cd_matrix d = Matrix_Rgb \<or> cd_matrix d = Matrix_Identity)
         \<and> cd_range d = Range_Full
      then Inr SrgbFull
      else Inl (UnsupportedCombination (cd_primaries d) (cd_transfer d) (cd_matrix d) (cd_range d)))"

text \<open>The recursive call of the source runs on a description whose white point is D65, so it
  cannot ask for the diagnostic again: its field check is unfolded here with that description.\<close>

definition classify_source_with_assumption ::
    "color_description \<Rightarrow> color_source_profile_assumption option
      \<Rightarrow> color_source_error + color_source_profile" where
  "classify_source_with_assumption d assumption =
     (case validate_source_fields d assumption of
        Inl e \<Rightarrow>
          if e = UnknownWhitePoint then
            let diagnostic = d\<lparr>cd_white_point := White_D65\<rparr>
            in (case rbind (validate_source_fields diagnostic None) (\<lambda>_. match_source_profile diagnostic) of
                  Inl (UnsupportedCombination p t m r) \<Rightarrow> Inl (UnsupportedCombination p t m r)
                | _ \<Rightarrow> Inl e)
          else Inl e
      | Inr _ \<Rightarrow> match_source_profile d)"

definition classify_source :: "color_description \<Rightarrow> color_source_error + color_source_profile" where
  "classify_source d = classify_source_with_assumption d None"

record color_context =
  pipeline_state :: color_pipeline_state
  cc_working :: color_description
  cc_monitoring :: color_description
  cc_delivery :: color_description

definition sdr_rec709 :: color_context where
  "sdr_rec709 =
     \<lparr>pipeline_state = ManagedSdrV1,
      cc_working = application_default_with Matrix_Rgb Range_Full Transfer_Linear Float16,
      cc_monitoring = application_default_with Matrix_Rgb Range_Full Transfer_Bt709 Float16,
      cc_delivery = application_default Matrix_Bt709 Range_Limited\<rparr>"

definition color_description_matches_managed :: "color_description \<Rightarrow> color_description \<Rightarrow> bool" where
  "color_description_matches_managed actual expected \<longleftrightarrow>
     confidence_is_valid actual \<and> 0 < cd_confidence_basis_points actual
     \<and> (cd_provenance actual = Prov_ApplicationDefault \<or> cd_provenance actual = Prov_UserOverride)
     \<and> cd_primaries actual = cd_primaries expected \<and> cd_transfer actual = cd_transfer expected
     \<and> cd_matrix actual = cd_matrix expected \<and> cd_range actual = cd_range expected
     \<and> cd_white_point actual = cd_white_point expected
     \<and> bit_depth_eq (cd_bit_depth actual) (cd_bit_depth expected)"

definition working_matches_managed_sdr :: "color_context \<Rightarrow> bool" where
  "working_matches_managed_sdr c = color_description_matches_managed (cc_working c) (cc_working sdr_rec709)"

definition monitoring_matches_managed_sdr :: "color_context \<Rightarrow> bool" where
  "monitoring_matches_managed_sdr c =
     color_description_matches_managed (cc_monitoring c) (cc_monitoring sdr_rec709)"

definition delivery_matches_managed_sdr :: "color_context \<Rightarrow> bool" where
  "delivery_matches_managed_sdr c =
     color_description_matches_managed (cc_delivery c) (cc_delivery sdr_rec709)"

definition is_managed_sdr_compatible :: "color_context \<Rightarrow> bool" where
  "is_managed_sdr_compatible c \<longleftrightarrow> pipeline_state c = ManagedSdrV1
     \<and> working_matches_managed_sdr c \<and> monitoring_matches_managed_sdr c \<and> delivery_matches_managed_sdr c"

definition working_matches_cc0_placeholder :: "color_context \<Rightarrow> bool" where
  "working_matches_cc0_placeholder c =
     color_description_eq (cc_working c) (application_default Matrix_Rgb Range_Full)"

definition monitoring_matches_cc0_default :: "color_context \<Rightarrow> bool" where
  "monitoring_matches_cc0_default c =
     color_description_eq (cc_monitoring c) (application_default Matrix_Rgb Range_Full)"

definition delivery_matches_cc0_default :: "color_context \<Rightarrow> bool" where
  "delivery_matches_cc0_default c =
     color_description_eq (cc_delivery c) (application_default Matrix_Bt709 Range_Limited)"

record color_context_wire =
  wire_working :: color_description
  wire_monitoring :: color_description
  wire_delivery :: color_description
  wire_pipeline_state :: "color_pipeline_state option"

definition color_context_from_wire :: "color_context_wire \<Rightarrow> color_context" where
  "color_context_from_wire wire =
     (let legacy = \<lparr>pipeline_state = Legacy, cc_working = wire_working wire,
                    cc_monitoring = wire_monitoring wire, cc_delivery = wire_delivery wire\<rparr>
      in case wire_pipeline_state wire of
           Some s \<Rightarrow> legacy\<lparr>pipeline_state := s\<rparr>
         | None \<Rightarrow>
             if working_matches_cc0_placeholder legacy then
               let migrated =
                 \<lparr>pipeline_state = Legacy, cc_working = cc_working sdr_rec709,
                  cc_monitoring = (if monitoring_matches_cc0_default legacy
                                   then cc_monitoring sdr_rec709 else cc_monitoring legacy),
                  cc_delivery = (if delivery_matches_cc0_default legacy
                                 then cc_delivery sdr_rec709 else cc_delivery legacy)\<rparr>
               in migrated\<lparr>pipeline_state :=
                    if working_matches_managed_sdr migrated \<and> monitoring_matches_managed_sdr migrated
                       \<and> delivery_matches_managed_sdr migrated
                    then ManagedSdrV1 else Legacy\<rparr>
             else legacy)"

text \<open>What serialisation writes for a context: the pipeline state is always present.\<close>

definition color_context_to_wire :: "color_context \<Rightarrow> color_context_wire" where
  "color_context_to_wire c =
     \<lparr>wire_working = cc_working c, wire_monitoring = cc_monitoring c, wire_delivery = cc_delivery c,
      wire_pipeline_state = Some (pipeline_state c)\<rparr>"

section \<open>Lemmas\<close>

lemma bit_depth_eq_equiv: "equivp bit_depth_eq"
  by (auto intro!: equivpI reflpI sympI transpI simp: bit_depth_eq_def)

lemma color_description_eq_equiv: "equivp color_description_eq"
  by (auto intro!: equivpI reflpI sympI transpI simp: color_description_eq_def bit_depth_eq_def)

lemma bit_depth_eq_refl [simp]: "bit_depth_eq a a"
  by (simp add: bit_depth_eq_def)

text \<open>The canonical constructor and its reader.\<close>

lemma integer_bits_integer: "in_u8 n \<Longrightarrow> integer_bits (color_bit_depth_integer n) = Some n"
  by (simp add: color_bit_depth_integer_def)

lemma integer_bits_canonical:
  "integer_bits d = Some n \<Longrightarrow> canonical_depth d = Canonical_Integer n \<and> in_u8 n"
  by (cases d) (auto simp: int_width_defs split: if_splits)

lemma integer_bits_respects: "bit_depth_eq a b \<Longrightarrow> integer_bits a = integer_bits b"
  by (cases a; cases b) (auto simp: bit_depth_eq_def int_width_defs)

definition supported_depth :: "color_bit_depth \<Rightarrow> bool" where
  "supported_depth d \<longleftrightarrow> (\<exists>n. integer_bits d = Some n \<and> 8 \<le> n \<and> n \<le> 16)"

lemma validate_source_fields_ok:
  "validate_source_fields d a = Inr u \<longleftrightarrow>
     cd_primaries d \<in> {Primaries_Srgb, Primaries_Bt709}
     \<and> cd_transfer d \<in> {Transfer_Srgb, Transfer_Bt709, Transfer_Bt1886}
     \<and> cd_matrix d \<in> {Matrix_Identity, Matrix_Rgb, Matrix_Bt709}
     \<and> cd_range d \<in> {Range_Full, Range_Limited}
     \<and> (cd_white_point d = White_D65 \<or> cd_white_point d = White_Unknown \<and> a = Some Assume_D65
          \<and> cd_primaries d = Primaries_Bt709)
     \<and> supported_depth (cd_bit_depth d)"
proof -
  have depth: "(case cd_bit_depth d of Depth_Unknown \<Rightarrow> Inl UnknownBitDepth
     | v \<Rightarrow> (case integer_bits v of
               Some bits \<Rightarrow> if 8 \<le> bits \<and> bits \<le> 16 then Inr () else Inl (UnsupportedBitDepth v)
             | None \<Rightarrow> Inl (UnsupportedBitDepth v))) = Inr u \<longleftrightarrow> supported_depth (cd_bit_depth d)"
    by (cases "cd_bit_depth d") (auto simp: supported_depth_def int_width_defs)
  have p: "(case cd_primaries d of Primaries_Unknown \<Rightarrow> Inl UnknownPrimaries
            | Primaries_Srgb \<Rightarrow> Inr () | Primaries_Bt709 \<Rightarrow> Inr ()
            | v \<Rightarrow> Inl (UnsupportedPrimaries v)) = Inr w \<longleftrightarrow>
      cd_primaries d \<in> {Primaries_Srgb, Primaries_Bt709}" for w
    by (cases "cd_primaries d") auto
  have t: "(case cd_transfer d of Transfer_Unknown \<Rightarrow> Inl UnknownTransfer
            | Transfer_Srgb \<Rightarrow> Inr () | Transfer_Bt709 \<Rightarrow> Inr () | Transfer_Bt1886 \<Rightarrow> Inr ()
            | v \<Rightarrow> Inl (UnsupportedTransfer v)) = Inr w \<longleftrightarrow>
      cd_transfer d \<in> {Transfer_Srgb, Transfer_Bt709, Transfer_Bt1886}" for w
    by (cases "cd_transfer d") auto
  have m: "(case cd_matrix d of Matrix_Unknown \<Rightarrow> Inl UnknownMatrix
            | Matrix_Identity \<Rightarrow> Inr () | Matrix_Rgb \<Rightarrow> Inr () | Matrix_Bt709 \<Rightarrow> Inr ()
            | v \<Rightarrow> Inl (UnsupportedMatrix v)) = Inr w \<longleftrightarrow>
      cd_matrix d \<in> {Matrix_Identity, Matrix_Rgb, Matrix_Bt709}" for w
    by (cases "cd_matrix d") auto
  have r: "(case cd_range d of Range_Unknown \<Rightarrow> Inl UnknownRange
            | Range_Full \<Rightarrow> Inr () | Range_Limited \<Rightarrow> Inr ()
            | v \<Rightarrow> Inl (UnsupportedRange v)) = Inr w \<longleftrightarrow> cd_range d \<in> {Range_Full, Range_Limited}" for w
    by (cases "cd_range d") auto
  have wp: "(case cd_white_point d of White_D65 \<Rightarrow> Inr ()
            | White_Unknown \<Rightarrow>
                if a = Some Assume_D65 \<and> cd_primaries d = Primaries_Bt709 then Inr ()
                else Inl UnknownWhitePoint
            | v \<Rightarrow> Inl (UnsupportedWhitePoint v)) = Inr w \<longleftrightarrow>
      (cd_white_point d = White_D65 \<or> cd_white_point d = White_Unknown \<and> a = Some Assume_D65
          \<and> cd_primaries d = Primaries_Bt709)" for w
    by (cases "cd_white_point d") auto
  show ?thesis
    unfolding validate_source_fields_def rbind_eq_Inr depth p t m r wp by blast
qed

lemma match_source_profile_ok:
  "match_source_profile d = Inr Rec709Video \<longleftrightarrow>
     cd_primaries d = Primaries_Bt709 \<and> cd_transfer d \<in> {Transfer_Bt709, Transfer_Bt1886}
     \<and> cd_matrix d \<in> {Matrix_Bt709, Matrix_Rgb} \<and> cd_range d \<in> {Range_Limited, Range_Full}"
  "match_source_profile d = Inr SrgbFull \<longleftrightarrow>
     cd_primaries d \<in> {Primaries_Srgb, Primaries_Bt709} \<and> cd_transfer d = Transfer_Srgb
     \<and> cd_matrix d \<in> {Matrix_Rgb, Matrix_Identity} \<and> cd_range d = Range_Full"
  by (auto simp: match_source_profile_def)

lemma classify_ok_iff:
  "classify_source_with_assumption d a = Inr p \<longleftrightarrow>
     validate_source_fields d a = Inr () \<and> match_source_profile d = Inr p"
  by (auto simp: classify_source_with_assumption_def Let_def
      split: sum.splits color_source_error.splits if_splits)

lemma color_context_wire_inverse: "color_context_from_wire (color_context_to_wire c) = c"
  by (cases c) (simp add: color_context_from_wire_def color_context_to_wire_def)

section \<open>Properties\<close>

text \<open>
  Classification is sound and complete: a source is accepted exactly when its tags form
  one of the two supported profiles, its depth is an integer of 8 to 16 bits, and its white point is
  D65, or unknown under the explicit D65 assumption on BT.709 primaries; without that assumption an
  unknown white point is never silently accepted.
\<close>

theorem classify_source_characterised:
  "classify_source_with_assumption d a = Inr p \<longleftrightarrow>
     supported_depth (cd_bit_depth d)
     \<and> (cd_white_point d = White_D65
        \<or> cd_white_point d = White_Unknown \<and> a = Some Assume_D65 \<and> cd_primaries d = Primaries_Bt709)
     \<and> (case p of
          Rec709Video \<Rightarrow> cd_primaries d = Primaries_Bt709
            \<and> cd_transfer d \<in> {Transfer_Bt709, Transfer_Bt1886}
            \<and> cd_matrix d \<in> {Matrix_Bt709, Matrix_Rgb} \<and> cd_range d \<in> {Range_Limited, Range_Full}
        | SrgbFull \<Rightarrow> cd_primaries d \<in> {Primaries_Srgb, Primaries_Bt709}
            \<and> cd_transfer d = Transfer_Srgb
            \<and> cd_matrix d \<in> {Matrix_Rgb, Matrix_Identity} \<and> cd_range d = Range_Full)"
  by (cases p) (auto simp: classify_ok_iff validate_source_fields_ok match_source_profile_ok)

text \<open>
  Loading a colour context never upgrades a pipeline on its own: a context whose stored
  state is present is read back unchanged, a context without one becomes managed only when every
  description really matches the managed pipeline, and a loaded context survives a save and reload.
\<close>

theorem color_context_migration:
  "(\<forall>s. wire_pipeline_state w = Some s \<longrightarrow> color_context_to_wire (color_context_from_wire w) = w)
   \<and> (wire_pipeline_state w = None \<and> pipeline_state (color_context_from_wire w) = ManagedSdrV1 \<longrightarrow>
        is_managed_sdr_compatible (color_context_from_wire w))
   \<and> color_context_from_wire (color_context_to_wire (color_context_from_wire w)) = color_context_from_wire w"
proof (intro conjI)
  show "\<forall>s. wire_pipeline_state w = Some s \<longrightarrow> color_context_to_wire (color_context_from_wire w) = w"
    by (cases w) (simp add: color_context_from_wire_def color_context_to_wire_def)
  show "wire_pipeline_state w = None \<and> pipeline_state (color_context_from_wire w) = ManagedSdrV1 \<longrightarrow>
        is_managed_sdr_compatible (color_context_from_wire w)"
    by (auto simp: color_context_from_wire_def Let_def is_managed_sdr_compatible_def
        working_matches_managed_sdr_def monitoring_matches_managed_sdr_def delivery_matches_managed_sdr_def
        split: if_splits)
  show "color_context_from_wire (color_context_to_wire (color_context_from_wire w)) = color_context_from_wire w"
    by (rule color_context_wire_inverse)
qed

theorem color_context_migration_witness:
  "is_managed_sdr_compatible (color_context_from_wire
     \<lparr>wire_working = application_default Matrix_Rgb Range_Full,
      wire_monitoring = application_default Matrix_Rgb Range_Full,
      wire_delivery = application_default Matrix_Bt709 Range_Limited, wire_pipeline_state = None\<rparr>)"
proof -
  let ?w = "\<lparr>wire_working = application_default Matrix_Rgb Range_Full,
      wire_monitoring = application_default Matrix_Rgb Range_Full,
      wire_delivery = application_default Matrix_Bt709 Range_Limited, wire_pipeline_state = None\<rparr>"
  have "pipeline_state (color_context_from_wire ?w) = ManagedSdrV1" by code_simp
  then show ?thesis using color_context_migration [of ?w] by simp
qed

end
