(* ===== verification/Doc_Types.thy ===== *)
theory Doc_Types
  imports Automation Color_Model "HOL-Library.List_Lexorder" "HOL-Library.Char_ord"
begin

text \<open>
  The data of the editing core: the project document of \<^verbatim>\<open>model.rs\<close> with titles
  (\<^verbatim>\<open>title.rs\<close>) and transitions (\<^verbatim>\<open>transition.rs\<close>), the operations and the errors of
  \<^verbatim>\<open>operation.rs\<close>. Structs are records with the source's field names (prefixed by the struct
  where two structs share one), enums are datatypes with the source's constructors; the one
  error enum of the source, \<^verbatim>\<open>OpError\<close>, is grouped by subject into six datatypes under
  \<open>op_error\<close>, each with the source's constructors and fields; fields that only carry text
  formatted for display (\<^verbatim>\<open>expected\<close>, \<^verbatim>\<open>actual\<close>, \<^verbatim>\<open>observed\<close>, \<^verbatim>\<open>allowed\<close>) are left out.

  Identifiers are \<^verbatim>\<open>u64\<close> values as integers, texts are strings, and every \<^verbatim>\<open>BTreeMap\<close> is a
  sorted association list of \<open>Rust_BTree\<close>.
\<close>

section \<open>Identifiers and enums\<close>

type_synonym asset_id = int
type_synonym track_id = int
type_synonym clip_id = int
type_synonym effect_id = int
type_synonym link_id = int
type_synonym marker_id = int
type_synonym bin_id = int
type_synonym string_out_id = int
type_synonym sync_group_id = int
type_synonym audio_bus_id = int
type_synonym lut_asset_id = int

datatype track_kind = TrackVideo | TrackAudio

datatype media_kind = MediaVideo | MediaAudio | MediaAudioVideo | MediaImage

fun media_kind_supports :: "media_kind \<Rightarrow> track_kind \<Rightarrow> bool" where
  "media_kind_supports MediaVideo TrackVideo = True"
| "media_kind_supports MediaAudioVideo TrackVideo = True"
| "media_kind_supports MediaImage TrackVideo = True"
| "media_kind_supports MediaAudio TrackAudio = True"
| "media_kind_supports MediaAudioVideo TrackAudio = True"
| "media_kind_supports _ _ = False"

datatype blend_mode = Normal | Multiply | Screen | Overlay | Darken | Lighten | Add

datatype pan_law = Balance | ConstantPower

datatype lut_asset_kind = Cube3d | Cube1d

datatype lut_asset_source = Imported string | Builtin string

datatype title_position = LowerThird | Center | Top

datatype caption_preset = Clean | Social | Minimal

datatype three_point_mode = Insert | Overwrite

datatype audio_chain = ChainBus audio_bus_id | ChainMaster

section \<open>Media\<close>

record media_source_fingerprint =
  content_sha256 :: "string option"
  byte_len :: "int option"

record media_asset =
  asset_id :: asset_id
  asset_path :: string
  asset_name :: string
  asset_duration :: timecode
  asset_fps :: rational
  asset_kind :: media_kind
  asset_resolution :: "(int \<times> int) option"
  source_fingerprint :: media_source_fingerprint
  asset_color_description :: color_description
  assumed_from :: "color_description option"

record relink_candidate =
  candidate_path :: string
  candidate_fingerprint :: media_source_fingerprint
  candidate_kind :: media_kind
  candidate_fps :: rational
  candidate_duration :: timecode
  candidate_resolution :: "(int \<times> int) option"

section \<open>Clips and tracks\<close>

datatype param_value = Integer int | Boolean bool | Text string

record effect =
  effect_id :: effect_id
  effect_name :: string
  parameters :: "(string, param_value) btree"
  effect_keyframes :: "(string, automation_curve) btree"
  effect_enabled :: bool
  effect_enabled_curve :: "automation_curve option"

record transition =
  transition_name :: string
  transition_duration :: timecode

record title =
  title_text :: string
  font_size_token :: int
  color_token :: int
  title_position :: title_position
  background_scrim :: bool
  fade_in_frames :: timecode
  fade_out_frames :: timecode
  title_caption_preset :: "caption_preset option"

record solid_color =
  solid_r :: int
  solid_g :: int
  solid_b :: int

datatype clip_content =
    Media
  | Title_Content title
  | Freeze timecode
  | Adjustment
  | Solid solid_color

record clip =
  clip_id :: clip_id
  clip_asset :: asset_id
  source_range :: trange
  content :: clip_content
  timeline_start :: timecode
  effects :: "effect list"
  transition_in :: "transition option"
  link :: "link_id option"
  audio_gain_tenth_db :: int
  audio_fade_in_frames :: timecode
  audio_fade_out_frames :: timecode
  audio_gain_curve :: "automation_curve option"
  speed_percent :: int
  clip_enabled :: bool
  clip_enabled_curve :: "automation_curve option"
  clip_blend_mode :: blend_mode

record track =
  track_id :: track_id
  track_kind :: track_kind
  sync_lock :: bool
  clips :: "clip list"

record marker =
  marker_id :: marker_id
  marker_position :: timecode
  marker_label :: string
  marker_color_token :: int

section \<open>The catalog and the mix\<close>

record media_bin =
  bin_id :: bin_id
  bin_name :: string
  bin_parent :: "bin_id option"
  bin_assets :: "asset_id list"

record source_select =
  select_asset :: asset_id
  select_source :: trange
  select_label :: string

record string_out =
  string_out_id :: string_out_id
  string_out_name :: string
  selects :: "source_select list"

record sync_group_member =
  member_asset :: asset_id
  member_offset :: timecode
  angle_name :: string

record sync_group =
  sync_group_id :: sync_group_id
  sync_group_name :: string
  members :: "sync_group_member list"

record media_catalog =
  bins :: "media_bin list"
  string_outs :: "string_out list"
  sync_groups :: "sync_group list"

record audio_bus =
  bus_id :: audio_bus_id
  bus_name :: string
  bus_tracks :: "track_id list"
  bus_gain_tenth_db :: int
  bus_gain_curve :: "automation_curve option"
  bus_effects :: "effect list"
  ducking_sidechain_tracks :: "track_id list"

record track_mix =
  mix_track :: track_id
  mix_gain_tenth_db :: int
  mix_pan_percent :: int
  mix_gain_curve :: "automation_curve option"
  mix_pan_curve :: "automation_curve option"
  mix_mute :: bool
  mix_solo :: bool

record audio_master =
  master_gain_tenth_db :: int
  master_gain_curve :: "automation_curve option"
  master_effects :: "effect list"

record audio_mix =
  buses :: "audio_bus list"
  track_mixes :: "track_mix list"
  master :: audio_master
  pan_law :: pan_law

record lut_asset =
  lut_id :: lut_asset_id
  lut_sha256 :: string
  lut_title :: string
  lut_kind :: lut_asset_kind
  lut_size :: int
  lut_byte_len :: int
  domain_min_millionths :: "int list"
  domain_max_millionths :: "int list"
  lut_source :: lut_asset_source

record document =
  tracks :: "track list"
  media_pool :: "media_asset list"
  markers :: "marker list"
  catalog :: media_catalog
  audio_mix :: audio_mix
  color_context :: color_context
  lut_assets :: "lut_asset list"
  investigator :: "string list option"
  doc_fps :: rational
  resolution :: "int \<times> int"
  doc_duration :: timecode

section \<open>Errors\<close>

datatype (plugins only: code size) catalog_error =
    DuplicateAsset asset_id
  | DuplicateBin bin_id
  | MissingBin bin_id
  | EmptyBinName bin_id
  | BinSelfParent bin_id
  | BinCycle bin_id
  | BinHasChildren bin_id
  | DuplicateBinAsset bin_id asset_id
  | AssetInMultipleBins asset_id bin_id bin_id
  | DuplicateStringOut string_out_id
  | MissingStringOut string_out_id
  | InvalidStringOut string_out_id
  | DuplicateSyncGroup sync_group_id
  | MissingSyncGroup sync_group_id
  | InvalidSyncGroup sync_group_id
  | DuplicateSyncGroupAsset sync_group_id asset_id
  | EmptySyncAngle sync_group_id asset_id

datatype (plugins only: code size) audio_error =
    DuplicateAudioBus audio_bus_id
  | MissingAudioBus audio_bus_id
  | InvalidAudioBus audio_bus_id
  | TrackInMultipleAudioBuses track_id audio_bus_id audio_bus_id
  | AudioBusMissingTrack audio_bus_id track_id
  | VisualEffectOnAudioBus audio_bus_id string
  | AudioEffectOnClip clip_id string
  | DuplicateAudioBusEffect audio_bus_id effect_id
  | AudioBusDuckingWithoutSidechain audio_bus_id
  | AudioBusLookaheadExceeded audio_bus_id int
  | AudioBusKeyframeOutsideProject audio_bus_id effect_id string timecode timecode
  | AudioBusGainOutOfRange audio_bus_id int
  | AudioMasterGainOutOfRange int
  | DuplicateAudioMasterEffect effect_id
  | VisualEffectOnAudioMaster string
  | DisabledEffectOnAudioChain audio_chain effect_id
  | AudioMasterDuckingUnsupported
  | AudioMasterKeyframeOutsideProject effect_id string timecode timecode
  | AudioMasterLookaheadExceeded int
  | AudioBusGainKeyframeOutsideProject audio_bus_id timecode timecode
  | AudioMasterGainKeyframeOutsideProject timecode timecode
  | InvalidTrackAutomation track_id string automation_curve_error
  | TrackAutomationOutOfRange track_id string int
  | TrackAutomationKeyframeOutsideProject track_id string timecode timecode
  | UnknownTrackAutomationParameter string
  | TrackMixGainOutOfRange track_id int
  | TrackMixPanOutOfRange track_id int
  | DuplicateTrackMix track_id
  | TrackMixUnsorted

datatype (plugins only: code size) timeline_error =
    DuplicateTrack track_id
  | NewTrackNotEmpty track_id
  | DuplicateClip clip_id
  | MissingAsset asset_id
  | MissingTrack track_id
  | MissingClip clip_id
  | IncompatibleTrack asset_id track_kind track_id
  | TitleOnAudioTrack track_id
  | FreezeOnAudioTrack track_id
  | AdjustmentOnAudioTrack track_id
  | SolidOnAudioTrack track_id
  | InvalidSourceRange int int
  | SourceOutOfBounds asset_id timecode timecode
  | NegativeTimelinePosition timecode
  | ZeroProjectDuration clip_id
  | ClipOverlap track_id clip_id clip_id
  | ClipsUnsorted track_id clip_id clip_id
  | SplitOutsideClip clip_id timecode
  | UnrepresentableSplit clip_id timecode
  | EditorialRequiresMedia clip_id
  | ClipsNotAdjacent clip_id clip_id
  | SlideRequiresNeighbors clip_id
  | UnrepresentableEditBoundary clip_id timecode
  | InvalidThreePointSelection
  | EmptySourcePatch
  | DuplicateSourcePatchTrack track_id
  | InvalidSourcePatchRouteKind string track_kind track_kind track_id
  | InvalidThreePointSource timecode timecode
  | InvalidThreePointTimeline timecode timecode
  | ReplacementDurationMismatch clip_id timecode timecode
  | FitToFillUnrepresentable clip_id
  | ClipIdExhausted
  | LinkIdExhausted
  | TooFewLinkedClips nat
  | DuplicateClipSelection clip_id
  | InvalidRippleDuration timecode

datatype (plugins only: code size) asset_error =
    InvalidProjectRate
  | InvalidAssetRate asset_id
  | InvalidAssetDuration asset_id
  | SourceFingerprintIncomplete asset_id
  | InvalidSourceFingerprintHash asset_id
  | InvalidSourceFingerprintByteLength asset_id
  | EmptyRelinkCandidatePath asset_id
  | UnverifiedRelinkCandidate asset_id
  | RelinkMetadataMismatch asset_id string
  | RelinkFingerprintMismatch asset_id
  | RelinkRequiresExplicitUnverifiedSource asset_id
  | ColorConfidenceOutOfRange int
  | ZeroConfidenceColorOverride asset_id
  | InvalidColorOverrideProvenance asset_id color_provenance
  | AssumedFromNotSuppliable asset_id
  | InvalidResolution
  | IncorrectDocumentDuration timecode timecode
  | DuplicateLutAsset lut_asset_id
  | InvalidLutAssetHash lut_asset_id string
  | InvalidLutAssetMetadata string
  | LutAssetInUse lut_asset_id clip_id effect_id
  | MissingLutAsset clip_id effect_id lut_asset_id
  | LutAssetIdExhausted
  | UnknownLutAsset lut_asset_id

datatype (plugins only: code size) clip_error =
    DuplicateMarker marker_id
  | MissingMarker marker_id
  | MarkersUnsorted marker_id marker_id
  | NegativeMarkerPosition timecode
  | InvalidMarkerColor int int
  | InvalidTitleDuration timecode
  | InvalidFreezeDuration timecode
  | FreezeSourceFrameOutOfRange asset_id timecode timecode
  | NotTitleClip clip_id
  | UnknownTitleParam string
  | InvalidTitleParamType string
  | TitleParamOutOfRange string int int int
  | TitleTextTooLong nat
  | CaptionPresetMismatch clip_id caption_preset
  | TitleFadeTooLong clip_id string timecode timecode
  | UnknownMarkerParam marker_id string
  | InvalidMarkerParamType marker_id string
  | DuplicateTransition clip_id
  | MissingTransition clip_id
  | UnknownTransition string
  | InvalidTransitionDuration clip_id timecode
  | TransitionTooLong clip_id timecode timecode
  | AudioGainOutOfRange clip_id int
  | NegativeAudioFade clip_id string timecode
  | AudioFadesTooLong clip_id timecode timecode timecode timecode
  | TitleClipHasNoAudio clip_id
  | FreezeClipHasNoAudio clip_id
  | AdjustmentClipHasNoAudio clip_id
  | SolidClipHasNoAudio clip_id
  | SolidColorOnNonSolidClip clip_id
  | TransitionUnsupportedOnAdjustment clip_id string
  | InvalidClipGainEnvelope clip_id automation_curve_error
  | ClipGainEnvelopeOutOfRange clip_id int
  | ClipGainEnvelopeKeyframeOutsideClip clip_id timecode timecode
  | ClipSpeedOutOfRange int
  | SpeedOnNonMediaClip clip_id

datatype automation_reason = CurveReason automation_curve_error | TextReason string

datatype (plugins only: code size) effect_error =
    DuplicateEffect clip_id effect_id
  | MissingEffect clip_id effect_id
  | UnknownEffect string
  | UnknownEffectParam string string
  | InvalidEffectParamType string string
  | MissingCubeLutPath
  | EffectParamOutOfRange string string int int int
  | InvalidCurvePoints string string nat int int
  | NonHoldKeyframeParameter string string
  | CurvePointCountAnimatedWithPoints string string
  | TooManyColorNodes clip_id nat nat
  | TooManyLutNodes clip_id nat nat
  | EffectIndexOutOfRange clip_id nat nat
  | NotALegacyLook clip_id effect_id string
  | ColorStageOrderViolation_Error clip_id effect_id string int effect_id string int
  | InvalidEffectAutomation string string automation_reason
  | EffectKeyframeOutsideClip clip_id effect_id string timecode timecode
  | EffectUnsupportedOnAdjustment clip_id string

datatype op_error =
    CatalogError catalog_error
  | AudioError audio_error
  | TimelineError timeline_error
  | AssetError asset_error
  | ClipError clip_error
  | EffectError effect_error
  | TimeOverflow
  | TimeMapping time_mapping_error

datatype batch_error = EmptyBatch | OperationFailed nat op_error

end
