(* ===== verification/Effect_Registry.thy ===== *)
theory Effect_Registry
  imports Doc_Types
begin

text \<open>
  The registry of built-in effects, \<^verbatim>\<open>crates/kinewright-core/src/effect.rs\<close>: one descriptor per
  effect with the accepted integer domain of each parameter, the families of parameters built by the
  source's macros (colour wheels, colour curves, mattes, noise profile bands), the classification of
  managed colour nodes and their stage order, and the queries about names. The compositor control of
  a parameter, an enum that only the renderer reads, is kept as the name of its variant.
\<close>

section \<open>Descriptors\<close>

record effect_parameter_descriptor =
  param_name :: string
  param_min :: int
  param_max :: int
  param_neutral :: int
  param_uniform :: string

record effect_descriptor =
  descriptor_name :: string
  descriptor_parameters :: "effect_parameter_descriptor list"

abbreviation param :: "string \<Rightarrow> int \<Rightarrow> int \<Rightarrow> int \<Rightarrow> string \<Rightarrow> effect_parameter_descriptor" where
  "param n lo hi neutral u \<equiv>
     \<lparr>param_name = n, param_min = lo, param_max = hi, param_neutral = neutral, param_uniform = u\<rparr>"

definition descriptor_parameter :: "effect_descriptor \<Rightarrow> string \<Rightarrow> effect_parameter_descriptor option" where
  "descriptor_parameter d name = find (\<lambda>p. param_name p = name) (descriptor_parameters d)"

definition COLOR_CURVE_MIN_POINTS :: nat where "COLOR_CURVE_MIN_POINTS = 2"
definition COLOR_CURVE_MAX_POINTS :: nat where "COLOR_CURVE_MAX_POINTS = 16"
definition COLOR_CURVE_COORDINATE_MIN :: int where "COLOR_CURVE_COORDINATE_MIN = -2000"
definition COLOR_CURVE_COORDINATE_MAX :: int where "COLOR_CURVE_COORDINATE_MAX = 12000"
definition COLOR_CURVE_WHITE_BASIS_POINTS :: int where "COLOR_CURVE_WHITE_BASIS_POINTS = 10000"
definition COLOR_NODE_LIMIT_PER_LAYER :: nat where "COLOR_NODE_LIMIT_PER_LAYER = 16"
definition LUT_NODE_LIMIT_PER_LAYER :: nat where "LUT_NODE_LIMIT_PER_LAYER = 4"
definition LUT_ASSET_ID_PARAMETER :: string where "LUT_ASSET_ID_PARAMETER = ''lut_asset_id''"
definition LUT_MIX_PARAMETER :: string where "LUT_MIX_PARAMETER = ''mix_basis_points''"
definition LUT_INPUT_ENCODING_PARAMETER :: string where
  "LUT_INPUT_ENCODING_PARAMETER = ''input_encoding_token''"
definition LUT_MIX_BASIS_POINTS_MAX :: int where "LUT_MIX_BASIS_POINTS_MAX = 10000"
definition LUT_INPUT_ENCODING_TOKEN_MAX :: int where "LUT_INPUT_ENCODING_TOKEN_MAX = 2"
definition LUT_ASSET_ID_DESCRIPTOR_MAX :: int where "LUT_ASSET_ID_DESCRIPTOR_MAX = 9007199254740991"
definition AUDIO_LOOKAHEAD_PARAMETER :: string where "AUDIO_LOOKAHEAD_PARAMETER = ''lookahead_milliseconds''"
definition AUDIO_RMS_WINDOW_PARAMETER :: string where "AUDIO_RMS_WINDOW_PARAMETER = ''rms_window_milliseconds''"
definition PROFILE_BAND_NEUTRAL_TENTH_DB :: int where "PROFILE_BAND_NEUTRAL_TENTH_DB = -1200"

definition LUT_ASSET_ID_DESCRIPTOR :: effect_parameter_descriptor where
  "LUT_ASSET_ID_DESCRIPTOR = param LUT_ASSET_ID_PARAMETER 0 LUT_ASSET_ID_DESCRIPTOR_MAX 0 ''ColorNode''"

definition LUT_INPUT_ENCODING_DESCRIPTOR :: effect_parameter_descriptor where
  "LUT_INPUT_ENCODING_DESCRIPTOR =
     param LUT_INPUT_ENCODING_PARAMETER 0 LUT_INPUT_ENCODING_TOKEN_MAX 0 ''ColorNode''"

definition COLOR_NODE_BYPASS_DESCRIPTOR :: effect_parameter_descriptor where
  "COLOR_NODE_BYPASS_DESCRIPTOR = param ''bypass'' 0 1 0 ''ColorNode''"

definition TECHNICAL_LUT_PARAMETERS :: "effect_parameter_descriptor list" where
  "TECHNICAL_LUT_PARAMETERS =
     [LUT_ASSET_ID_DESCRIPTOR,
      param LUT_MIX_PARAMETER LUT_MIX_BASIS_POINTS_MAX LUT_MIX_BASIS_POINTS_MAX LUT_MIX_BASIS_POINTS_MAX ''ColorNode'',
      LUT_INPUT_ENCODING_DESCRIPTOR,
      COLOR_NODE_BYPASS_DESCRIPTOR]"

definition CREATIVE_LOOK_PARAMETERS :: "effect_parameter_descriptor list" where
  "CREATIVE_LOOK_PARAMETERS =
     [LUT_ASSET_ID_DESCRIPTOR,
      param LUT_MIX_PARAMETER 0 LUT_MIX_BASIS_POINTS_MAX LUT_MIX_BASIS_POINTS_MAX ''ColorNode'',
      LUT_INPUT_ENCODING_DESCRIPTOR,
      COLOR_NODE_BYPASS_DESCRIPTOR]"

datatype color_wheel_control = Lift | Gamma | Gain

fun color_wheel_bounds :: "color_wheel_control \<Rightarrow> int \<times> int \<times> int" where
  "color_wheel_bounds Lift = (-2000, 2000, 0)"
| "color_wheel_bounds Gamma = (100, 4000, 1000)"
| "color_wheel_bounds Gain = (0, 4000, 1000)"

definition color_wheel_control_descriptor :: "string \<Rightarrow> color_wheel_control \<Rightarrow> effect_parameter_descriptor" where
  "color_wheel_control_descriptor name control =
     (case color_wheel_bounds control of (lo, hi, neutral) \<Rightarrow> param name lo hi neutral ''ColorNode'')"

definition COLOR_WHEELS_PARAMETERS :: "effect_parameter_descriptor list" where
  "COLOR_WHEELS_PARAMETERS =
     [color_wheel_control_descriptor ''lift_master_basis_points'' Lift,
      color_wheel_control_descriptor ''lift_red_basis_points'' Lift,
      color_wheel_control_descriptor ''lift_green_basis_points'' Lift,
      color_wheel_control_descriptor ''lift_blue_basis_points'' Lift,
      color_wheel_control_descriptor ''gamma_master_thousandths'' Gamma,
      color_wheel_control_descriptor ''gamma_red_thousandths'' Gamma,
      color_wheel_control_descriptor ''gamma_green_thousandths'' Gamma,
      color_wheel_control_descriptor ''gamma_blue_thousandths'' Gamma,
      color_wheel_control_descriptor ''gain_master_thousandths'' Gain,
      color_wheel_control_descriptor ''gain_red_thousandths'' Gain,
      color_wheel_control_descriptor ''gain_green_thousandths'' Gain,
      color_wheel_control_descriptor ''gain_blue_thousandths'' Gain,
      COLOR_NODE_BYPASS_DESCRIPTOR]"

text \<open>The curve tables: a point count, then \<open>x\<close> and \<open>y\<close> of sixteen points.\<close>

definition point_indices :: "(string \<times> int) list" where
  "point_indices = (''0'', 0) # map (\<lambda>s. (s, 10000))
     [''1'', ''2'', ''3'', ''4'', ''5'', ''6'', ''7'', ''8'', ''9'', ''10'', ''11'', ''12'', ''13'', ''14'', ''15'']"

definition color_curve_parameter_table :: "string \<Rightarrow> effect_parameter_descriptor list" where
  "color_curve_parameter_table curve =
     param (curve @ ''_point_count'') (int COLOR_CURVE_MIN_POINTS) (int COLOR_CURVE_MAX_POINTS)
       (int COLOR_CURVE_MIN_POINTS) ''ColorNode''
     # concat (map (\<lambda>(i, neutral).
         [param (curve @ ''_x'' @ i) COLOR_CURVE_COORDINATE_MIN COLOR_CURVE_COORDINATE_MAX neutral ''ColorNode'',
          param (curve @ ''_y'' @ i) COLOR_CURVE_COORDINATE_MIN COLOR_CURVE_COORDINATE_MAX neutral ''ColorNode''])
         point_indices)"

datatype color_curve_channel = Curve_Master | Curve_Red | Curve_Green | Curve_Blue

definition color_curve_channels :: "color_curve_channel list" where
  "color_curve_channels = [Curve_Master, Curve_Red, Curve_Green, Curve_Blue]"

fun curve_channel_name :: "color_curve_channel \<Rightarrow> string" where
  "curve_channel_name Curve_Master = ''master''"
| "curve_channel_name Curve_Red = ''red''"
| "curve_channel_name Curve_Green = ''green''"
| "curve_channel_name Curve_Blue = ''blue''"

definition curve_channel_parameters :: "color_curve_channel \<Rightarrow> effect_parameter_descriptor list" where
  "curve_channel_parameters c = color_curve_parameter_table (curve_channel_name c)"

definition curve_parameter_names :: "color_curve_channel \<Rightarrow> string list" where
  "curve_parameter_names c = map param_name (curve_channel_parameters c)"

definition point_count_parameter :: "color_curve_channel \<Rightarrow> string" where
  "point_count_parameter c = curve_parameter_names c ! 0"

definition x_parameter :: "color_curve_channel \<Rightarrow> nat \<Rightarrow> string option" where
  "x_parameter c index =
     (if COLOR_CURVE_MAX_POINTS \<le> index then None else Some (curve_parameter_names c ! (1 + index * 2)))"

definition y_parameter :: "color_curve_channel \<Rightarrow> nat \<Rightarrow> string option" where
  "y_parameter c index =
     (if COLOR_CURVE_MAX_POINTS \<le> index then None else Some (curve_parameter_names c ! (2 + index * 2)))"

definition COLOR_CURVES_PARAMETERS :: "effect_parameter_descriptor list" where
  "COLOR_CURVES_PARAMETERS =
     concat (map curve_channel_parameters color_curve_channels) @ [COLOR_NODE_BYPASS_DESCRIPTOR]"

definition PRIMARY_CORRECTION_PARAMETERS :: "effect_parameter_descriptor list" where
  "PRIMARY_CORRECTION_PARAMETERS = [
     param ''exposure_milli_stops'' (-5000) 5000 0 ''PrimaryExposure'',
     param ''temperature_percent'' (-100) 100 0 ''PrimaryTemperature'',
     param ''tint_percent'' (-100) 100 0 ''PrimaryTint'',
     param ''contrast_percent'' (-100) 100 0 ''PrimaryContrast'',
     param ''contrast_pivot_basis_points'' 0 10000 5000 ''PrimaryPivot'',
     param ''blacks_percent'' (-100) 100 0 ''Blacks'',
     param ''shadows_percent'' (-100) 100 0 ''Shadows'',
     param ''highlights_percent'' (-100) 100 0 ''Highlights'',
     param ''whites_percent'' (-100) 100 0 ''Whites'',
     param ''saturation_percent'' (-100) 100 0 ''PrimarySaturation'']"

text \<open>The forty-seven matte parameters: fifteen controls and four windows of eight.\<close>

definition matte_control :: "string \<Rightarrow> int \<Rightarrow> int \<Rightarrow> int \<Rightarrow> effect_parameter_descriptor" where
  "matte_control name lo hi neutral = param name lo hi neutral ''ColorNode''"

definition MATTE_CONTROL_PARAMETERS :: "effect_parameter_descriptor list" where
  "MATTE_CONTROL_PARAMETERS =
     [matte_control ''matte_enabled'' 0 1 0,
      matte_control ''matte_window_count'' 0 4 0,
      matte_control ''matte_combine_token'' 0 1 0,
      matte_control ''matte_invert'' 0 1 0,
      matte_control ''matte_mix_basis_points'' 0 10000 10000,
      matte_control ''matte_qualifier_enabled'' 0 1 0,
      matte_control ''matte_hue_center_centidegrees'' 0 35999 0,
      matte_control ''matte_hue_width_centidegrees'' 0 18000 18000,
      matte_control ''matte_hue_softness_centidegrees'' 0 18000 0,
      matte_control ''matte_saturation_low_basis_points'' 0 10000 0,
      matte_control ''matte_saturation_high_basis_points'' 0 10000 10000,
      matte_control ''matte_saturation_softness_basis_points'' 0 10000 0,
      matte_control ''matte_luma_low_basis_points'' 0 10000 0,
      matte_control ''matte_luma_high_basis_points'' 0 10000 10000,
      matte_control ''matte_luma_softness_basis_points'' 0 10000 0]"

definition matte_window_table :: "string \<Rightarrow> effect_parameter_descriptor list" where
  "matte_window_table index =
     [matte_control (''matte_window'' @ index @ ''_shape_token'') 1 2 1,
      matte_control (''matte_window'' @ index @ ''_center_x_basis_points'') (-10000) 20000 5000,
      matte_control (''matte_window'' @ index @ ''_center_y_basis_points'') (-10000) 20000 5000,
      matte_control (''matte_window'' @ index @ ''_half_width_basis_points'') 1 10000 2500,
      matte_control (''matte_window'' @ index @ ''_half_height_basis_points'') 1 10000 2500,
      matte_control (''matte_window'' @ index @ ''_rotation_centidegrees'') (-18000) 18000 0,
      matte_control (''matte_window'' @ index @ ''_feather_basis_points'') 0 10000 0,
      matte_control (''matte_window'' @ index @ ''_invert'') 0 1 0]"

definition MATTE_WINDOW_PARAMETERS :: "effect_parameter_descriptor list list" where
  "MATTE_WINDOW_PARAMETERS = map matte_window_table [''0'', ''1'', ''2'', ''3'']"

definition MATTE_PARAMETERS :: "effect_parameter_descriptor list" where
  "MATTE_PARAMETERS = MATTE_CONTROL_PARAMETERS @ concat MATTE_WINDOW_PARAMETERS"

definition is_matte_parameter :: "string \<Rightarrow> bool" where
  "is_matte_parameter name = (name \<in> set (map param_name MATTE_PARAMETERS))"

definition is_hold_only_matte_parameter :: "string \<Rightarrow> bool" where
  "is_hold_only_matte_parameter name =
     (name \<in> set [''matte_enabled'', ''matte_window_count'', ''matte_combine_token'', ''matte_invert'',
                  ''matte_qualifier_enabled''] \<or>
      list_ex (\<lambda>window. param_name (window ! 0) = name \<or> param_name (window ! 7) = name)
        MATTE_WINDOW_PARAMETERS)"

definition with_matte_parameters :: "effect_parameter_descriptor list \<Rightarrow> effect_parameter_descriptor list" where
  "with_matte_parameters base = base @ MATTE_PARAMETERS"

definition PRIMARY_CORRECTION_DESCRIPTOR_PARAMETERS :: "effect_parameter_descriptor list" where
  "PRIMARY_CORRECTION_DESCRIPTOR_PARAMETERS = with_matte_parameters PRIMARY_CORRECTION_PARAMETERS"

definition COLOR_WHEELS_DESCRIPTOR_PARAMETERS :: "effect_parameter_descriptor list" where
  "COLOR_WHEELS_DESCRIPTOR_PARAMETERS = with_matte_parameters COLOR_WHEELS_PARAMETERS"

definition COLOR_CURVES_DESCRIPTOR_PARAMETERS :: "effect_parameter_descriptor list" where
  "COLOR_CURVES_DESCRIPTOR_PARAMETERS = with_matte_parameters COLOR_CURVES_PARAMETERS"

definition CREATIVE_LOOK_DESCRIPTOR_PARAMETERS :: "effect_parameter_descriptor list" where
  "CREATIVE_LOOK_DESCRIPTOR_PARAMETERS = with_matte_parameters CREATIVE_LOOK_PARAMETERS"

definition AUDIO_BYPASS_DESCRIPTOR :: effect_parameter_descriptor where
  "AUDIO_BYPASS_DESCRIPTOR = param ''bypass'' 0 1 0 ''AudioBypass''"

definition NOISE_PROFILE_PARAMETER_NAMES :: "string list" where
  "NOISE_PROFILE_PARAMETER_NAMES = map (\<lambda>i. ''profile_band'' @ i @ ''_tenth_db'')
     [''01'', ''02'', ''03'', ''04'', ''05'', ''06'', ''07'', ''08'', ''09'', ''10'', ''11'', ''12'', ''13'',
      ''14'', ''15'', ''16'', ''17'', ''18'', ''19'', ''20'', ''21'', ''22'', ''23'', ''24'', ''25'', ''26'',
      ''27'', ''28'', ''29'', ''30'', ''31'']"

definition profile_band_descriptor :: "string \<Rightarrow> effect_parameter_descriptor" where
  "profile_band_descriptor name =
     param name PROFILE_BAND_NEUTRAL_TENTH_DB 0 PROFILE_BAND_NEUTRAL_TENTH_DB ''DenoiseProfileBand''"

definition AUDIO_DENOISE_PARAMETERS :: "effect_parameter_descriptor list" where
  "AUDIO_DENOISE_PARAMETERS =
     [AUDIO_BYPASS_DESCRIPTOR,
      param ''reduction_tenth_db'' 0 400 0 ''DenoiseReduction'',
      param ''floor_offset_tenth_db'' (-200) 200 0 ''DenoiseFloorOffset'',
      param ''smoothing_milliseconds'' 0 200 50 ''DenoiseSmoothing'',
      param AUDIO_LOOKAHEAD_PARAMETER 12 12 12 ''DenoiseLookahead'']
     @ map profile_band_descriptor NOISE_PROFILE_PARAMETER_NAMES"

definition effect_brightness_descriptor :: effect_descriptor where
  "effect_brightness_descriptor = \<lparr>descriptor_name = ''brightness'', descriptor_parameters = [
     param ''percent'' (-100) 100 0 ''Brightness'']\<rparr>"

definition effect_contrast_descriptor :: effect_descriptor where
  "effect_contrast_descriptor = \<lparr>descriptor_name = ''contrast'', descriptor_parameters = [
     param ''percent'' (-100) 100 0 ''Contrast'']\<rparr>"

definition effect_saturation_descriptor :: effect_descriptor where
  "effect_saturation_descriptor = \<lparr>descriptor_name = ''saturation'', descriptor_parameters = [
     param ''percent'' (-100) 100 0 ''Saturation'']\<rparr>"

definition effect_opacity_descriptor :: effect_descriptor where
  "effect_opacity_descriptor = \<lparr>descriptor_name = ''opacity'', descriptor_parameters = [
     param ''percent'' 0 100 100 ''Opacity'']\<rparr>"

definition effect_transform_descriptor :: effect_descriptor where
  "effect_transform_descriptor = \<lparr>descriptor_name = ''transform'', descriptor_parameters = [
     param ''scale_percent'' 1 400 100 ''Scale'',
     param ''x_percent'' (-100) 100 0 ''OffsetX'',
     param ''y_percent'' (-100) 100 0 ''OffsetY'',
     param ''scale_x_percent'' 1 400 100 ''ScaleX'',
     param ''scale_y_percent'' 1 400 100 ''ScaleY'',
     param ''rotation_centidegrees'' (-36000) 36000 0 ''Rotation'',
     param ''anchor_x_basis_points'' 0 10000 5000 ''AnchorX'',
     param ''anchor_y_basis_points'' 0 10000 5000 ''AnchorY'',
     param ''x_basis_points'' (-10000) 10000 0 ''OffsetXBasisPoints'',
     param ''y_basis_points'' (-10000) 10000 0 ''OffsetYBasisPoints'',
     param ''scale_fine_hundredths'' 100 40000 10000 ''ScaleFine'']\<rparr>"

definition effect_crop_descriptor :: effect_descriptor where
  "effect_crop_descriptor = \<lparr>descriptor_name = ''crop'', descriptor_parameters = [
     param ''left_percent'' 0 45 0 ''CropLeft'',
     param ''right_percent'' 0 45 0 ''CropRight'',
     param ''top_percent'' 0 45 0 ''CropTop'',
     param ''bottom_percent'' 0 45 0 ''CropBottom'']\<rparr>"

definition effect_reframe_descriptor :: effect_descriptor where
  "effect_reframe_descriptor = \<lparr>descriptor_name = ''reframe'', descriptor_parameters = [
     param ''target_aspect_basis_points'' 1000 40000 17778 ''ReframeAspect'',
     param ''focus_x_percent'' 0 100 50 ''ReframeFocusX'',
     param ''focus_y_percent'' 0 100 50 ''ReframeFocusY'',
     param ''focus_x_basis_points'' 0 10000 5000 ''ReframeFocusXBasisPoints'',
     param ''focus_y_basis_points'' 0 10000 5000 ''ReframeFocusYBasisPoints'']\<rparr>"

definition effect_color_grade_descriptor :: effect_descriptor where
  "effect_color_grade_descriptor = \<lparr>descriptor_name = ''color_grade'', descriptor_parameters = [
     param ''exposure_milli_stops'' (-5000) 5000 0 ''Exposure'',
     param ''temperature_percent'' (-100) 100 0 ''Temperature'',
     param ''tint_percent'' (-100) 100 0 ''Tint'']\<rparr>"

definition effect_primary_correction_descriptor :: effect_descriptor where
  "effect_primary_correction_descriptor = \<lparr>descriptor_name = ''primary_correction'', descriptor_parameters = PRIMARY_CORRECTION_DESCRIPTOR_PARAMETERS\<rparr>"

definition effect_color_wheels_descriptor :: effect_descriptor where
  "effect_color_wheels_descriptor = \<lparr>descriptor_name = ''color_wheels'', descriptor_parameters = COLOR_WHEELS_DESCRIPTOR_PARAMETERS\<rparr>"

definition effect_color_curves_descriptor :: effect_descriptor where
  "effect_color_curves_descriptor = \<lparr>descriptor_name = ''color_curves'', descriptor_parameters = COLOR_CURVES_DESCRIPTOR_PARAMETERS\<rparr>"

definition effect_technical_lut_descriptor :: effect_descriptor where
  "effect_technical_lut_descriptor = \<lparr>descriptor_name = ''technical_lut'', descriptor_parameters = TECHNICAL_LUT_PARAMETERS\<rparr>"

definition effect_creative_look_descriptor :: effect_descriptor where
  "effect_creative_look_descriptor = \<lparr>descriptor_name = ''creative_look'', descriptor_parameters = CREATIVE_LOOK_DESCRIPTOR_PARAMETERS\<rparr>"

definition effect_look_lut_descriptor :: effect_descriptor where
  "effect_look_lut_descriptor = \<lparr>descriptor_name = ''look_lut'', descriptor_parameters = [
     param ''preset_token'' 0 4 0 ''LutPreset'',
     param ''intensity_percent'' 0 100 100 ''LutIntensity'']\<rparr>"

definition effect_cube_lut_descriptor :: effect_descriptor where
  "effect_cube_lut_descriptor = \<lparr>descriptor_name = ''cube_lut'', descriptor_parameters = [
     param ''intensity_percent'' 0 100 100 ''ExternalLutIntensity'']\<rparr>"

definition effect_mask_descriptor :: effect_descriptor where
  "effect_mask_descriptor = \<lparr>descriptor_name = ''mask'', descriptor_parameters = [
     param ''shape_token'' 1 2 1 ''MaskShape'',
     param ''center_x_percent'' 0 100 50 ''MaskCenterX'',
     param ''center_y_percent'' 0 100 50 ''MaskCenterY'',
     param ''width_percent'' 1 200 100 ''MaskWidth'',
     param ''height_percent'' 1 200 100 ''MaskHeight'',
     param ''feather_percent'' 0 100 0 ''MaskFeather'',
     param ''invert'' 0 1 0 ''MaskInvert'']\<rparr>"

definition effect_chroma_key_descriptor :: effect_descriptor where
  "effect_chroma_key_descriptor = \<lparr>descriptor_name = ''chroma_key'', descriptor_parameters = [
     param ''key_red'' 0 255 0 ''KeyRed'',
     param ''key_green'' 0 255 255 ''KeyGreen'',
     param ''key_blue'' 0 255 0 ''KeyBlue'',
     param ''threshold_percent'' 0 100 15 ''KeyThreshold'',
     param ''softness_percent'' 0 100 10 ''KeySoftness'',
     param ''spill_percent'' 0 100 50 ''KeySpill'']\<rparr>"

definition effect_audio_gain_descriptor :: effect_descriptor where
  "effect_audio_gain_descriptor = \<lparr>descriptor_name = ''audio_gain'', descriptor_parameters = [
     param ''gain_tenth_db'' (-600) 120 0 ''AudioGain'',
     AUDIO_BYPASS_DESCRIPTOR]\<rparr>"

definition effect_audio_eq_descriptor :: effect_descriptor where
  "effect_audio_eq_descriptor = \<lparr>descriptor_name = ''audio_eq'', descriptor_parameters = [
     param ''low_gain_tenth_db'' (-240) 240 0 ''EqLowGain'',
     param ''mid_gain_tenth_db'' (-240) 240 0 ''EqMidGain'',
     param ''high_gain_tenth_db'' (-240) 240 0 ''EqHighGain'',
     AUDIO_BYPASS_DESCRIPTOR]\<rparr>"

definition effect_audio_compressor_descriptor :: effect_descriptor where
  "effect_audio_compressor_descriptor = \<lparr>descriptor_name = ''audio_compressor'', descriptor_parameters = [
     param ''threshold_tenth_db'' (-600) 0 0 ''CompressorThreshold'',
     param ''ratio_hundredths'' 100 2000 100 ''CompressorRatio'',
     param ''attack_milliseconds'' 1 1000 10 ''CompressorAttack'',
     param ''release_milliseconds'' 10 5000 250 ''CompressorRelease'',
     param ''makeup_gain_tenth_db'' (-120) 240 0 ''CompressorMakeup'',
     param ''knee_tenth_db'' 0 240 0 ''CompressorKnee'',
     param ''detector'' 0 1 0 ''CompressorDetector'',
     param ''rms_window_milliseconds'' 1 100 10 ''CompressorRmsWindow'',
     param AUDIO_LOOKAHEAD_PARAMETER 0 10 0 ''CompressorLookahead'',
     AUDIO_BYPASS_DESCRIPTOR]\<rparr>"

definition effect_audio_ducking_descriptor :: effect_descriptor where
  "effect_audio_ducking_descriptor = \<lparr>descriptor_name = ''audio_ducking'', descriptor_parameters = [
     param ''threshold_tenth_db'' (-600) 0 (-300) ''DuckThreshold'',
     param ''reduction_tenth_db'' 0 600 120 ''DuckReduction'',
     param ''attack_milliseconds'' 1 1000 20 ''DuckAttack'',
     param ''release_milliseconds'' 10 5000 300 ''DuckRelease'',
     AUDIO_BYPASS_DESCRIPTOR]\<rparr>"

definition effect_audio_limiter_descriptor :: effect_descriptor where
  "effect_audio_limiter_descriptor = \<lparr>descriptor_name = ''audio_limiter'', descriptor_parameters = [
     param ''ceiling_tenth_db'' (-120) 0 (-10) ''LimiterCeiling'',
     AUDIO_BYPASS_DESCRIPTOR]\<rparr>"

definition effect_audio_parametric_eq_descriptor :: effect_descriptor where
  "effect_audio_parametric_eq_descriptor = \<lparr>descriptor_name = ''audio_parametric_eq'', descriptor_parameters = [
     AUDIO_BYPASS_DESCRIPTOR,
     param ''high_pass_hertz'' 0 1000 0 ''ParametricEqHighPassHertz'',
     param ''low_shelf_hertz'' 20 1000 100 ''ParametricEqLowShelfHertz'',
     param ''low_shelf_gain_tenth_db'' (-240) 240 0 ''ParametricEqLowShelfGain'',
     param ''band1_hertz'' 20 20000 120 ''ParametricEqBand1Hertz'',
     param ''band1_gain_tenth_db'' (-240) 240 0 ''ParametricEqBand1Gain'',
     param ''band1_q_hundredths'' 10 1800 71 ''ParametricEqBand1Q'',
     param ''band2_hertz'' 20 20000 500 ''ParametricEqBand2Hertz'',
     param ''band2_gain_tenth_db'' (-240) 240 0 ''ParametricEqBand2Gain'',
     param ''band2_q_hundredths'' 10 1800 71 ''ParametricEqBand2Q'',
     param ''band3_hertz'' 20 20000 2000 ''ParametricEqBand3Hertz'',
     param ''band3_gain_tenth_db'' (-240) 240 0 ''ParametricEqBand3Gain'',
     param ''band3_q_hundredths'' 10 1800 71 ''ParametricEqBand3Q'',
     param ''band4_hertz'' 20 20000 8000 ''ParametricEqBand4Hertz'',
     param ''band4_gain_tenth_db'' (-240) 240 0 ''ParametricEqBand4Gain'',
     param ''band4_q_hundredths'' 10 1800 71 ''ParametricEqBand4Q'',
     param ''high_shelf_hertz'' 1000 20000 8000 ''ParametricEqHighShelfHertz'',
     param ''high_shelf_gain_tenth_db'' (-240) 240 0 ''ParametricEqHighShelfGain'',
     param ''output_gain_tenth_db'' (-240) 240 0 ''ParametricEqOutputGain'']\<rparr>"

definition effect_audio_gate_descriptor :: effect_descriptor where
  "effect_audio_gate_descriptor = \<lparr>descriptor_name = ''audio_gate'', descriptor_parameters = [
     AUDIO_BYPASS_DESCRIPTOR,
     param ''threshold_tenth_db'' (-600) 0 (-600) ''GateThreshold'',
     param ''ratio_hundredths'' 100 2000 100 ''GateRatio'',
     param ''range_tenth_db'' 0 800 0 ''GateRange'',
     param ''attack_milliseconds'' 1 1000 1 ''GateAttack'',
     param ''hold_milliseconds'' 0 1000 10 ''GateHold'',
     param ''release_milliseconds'' 10 5000 100 ''GateRelease'']\<rparr>"

definition effect_audio_true_peak_limiter_descriptor :: effect_descriptor where
  "effect_audio_true_peak_limiter_descriptor = \<lparr>descriptor_name = ''audio_true_peak_limiter'', descriptor_parameters = [
     AUDIO_BYPASS_DESCRIPTOR,
     param ''ceiling_tenth_db'' (-120) 0 0 ''TruePeakCeiling'',
     param AUDIO_LOOKAHEAD_PARAMETER 1 10 5 ''TruePeakLookahead'',
     param ''release_milliseconds'' 1 1000 50 ''TruePeakRelease'',
     param ''true_peak'' 0 1 1 ''TruePeakDetector'']\<rparr>"

definition effect_audio_denoise_descriptor :: effect_descriptor where
  "effect_audio_denoise_descriptor = \<lparr>descriptor_name = ''audio_denoise'', descriptor_parameters = AUDIO_DENOISE_PARAMETERS\<rparr>"

definition effect_audio_hum_removal_descriptor :: effect_descriptor where
  "effect_audio_hum_removal_descriptor = \<lparr>descriptor_name = ''audio_hum_removal'', descriptor_parameters = [
     AUDIO_BYPASS_DESCRIPTOR,
     param ''fundamental_hertz'' 50 60 50 ''HumFundamental'',
     param ''harmonic_count'' 1 10 1 ''HumHarmonicCount'',
     param ''depth_tenth_db'' (-600) 0 0 ''HumDepth'',
     param ''notch_q_hundredths'' 100 1800 1200 ''HumNotchQ'']\<rparr>"

definition effect_audio_declick_descriptor :: effect_descriptor where
  "effect_audio_declick_descriptor = \<lparr>descriptor_name = ''audio_declick'', descriptor_parameters = [
     AUDIO_BYPASS_DESCRIPTOR,
     param ''max_click_milliseconds'' 0 1 0 ''DeclickMaxClick'',
     param ''detector_threshold_tenth_db'' 60 400 240 ''DeclickThreshold'',
     param AUDIO_LOOKAHEAD_PARAMETER 3 3 3 ''DeclickLookahead'']\<rparr>"

definition EFFECT_DESCRIPTORS :: "effect_descriptor list" where
  "EFFECT_DESCRIPTORS = [
     effect_brightness_descriptor,
     effect_contrast_descriptor,
     effect_saturation_descriptor,
     effect_opacity_descriptor,
     effect_transform_descriptor,
     effect_crop_descriptor,
     effect_reframe_descriptor,
     effect_color_grade_descriptor,
     effect_primary_correction_descriptor,
     effect_color_wheels_descriptor,
     effect_color_curves_descriptor,
     effect_technical_lut_descriptor,
     effect_creative_look_descriptor,
     effect_look_lut_descriptor,
     effect_cube_lut_descriptor,
     effect_mask_descriptor,
     effect_chroma_key_descriptor,
     effect_audio_gain_descriptor,
     effect_audio_eq_descriptor,
     effect_audio_compressor_descriptor,
     effect_audio_ducking_descriptor,
     effect_audio_limiter_descriptor,
     effect_audio_parametric_eq_descriptor,
     effect_audio_gate_descriptor,
     effect_audio_true_peak_limiter_descriptor,
     effect_audio_denoise_descriptor,
     effect_audio_hum_removal_descriptor,
     effect_audio_declick_descriptor]"

definition effect_descriptor :: "string \<Rightarrow> effect_descriptor option" where
  "effect_descriptor name = find (\<lambda>d. descriptor_name d = name) EFFECT_DESCRIPTORS"

section \<open>Colour nodes and name queries\<close>

definition MANAGED_COLOR_NODE_NAMES :: "string list" where
  "MANAGED_COLOR_NODE_NAMES =
     [''technical_lut'', ''primary_correction'', ''color_wheels'', ''color_curves'', ''creative_look'']"

definition is_managed_color_node :: "string \<Rightarrow> bool" where
  "is_managed_color_node name = (name \<in> set MANAGED_COLOR_NODE_NAMES)"

datatype color_node_kind = TechnicalLut | Primary | Wheels | Curves | CreativeLook

fun color_node_effect_name :: "color_node_kind \<Rightarrow> string" where
  "color_node_effect_name TechnicalLut = ''technical_lut''"
| "color_node_effect_name Primary = ''primary_correction''"
| "color_node_effect_name Wheels = ''color_wheels''"
| "color_node_effect_name Curves = ''color_curves''"
| "color_node_effect_name CreativeLook = ''creative_look''"

definition from_effect_name :: "string \<Rightarrow> color_node_kind option" where
  "from_effect_name name =
     (if name = ''technical_lut'' then Some TechnicalLut
      else if name = ''primary_correction'' then Some Primary
      else if name = ''color_wheels'' then Some Wheels
      else if name = ''color_curves'' then Some Curves
      else if name = ''creative_look'' then Some CreativeLook
      else None)"

datatype color_stage = Stage_Input | Stage_Correction | Stage_Look

fun color_stage_rank :: "color_stage \<Rightarrow> int" where
  "color_stage_rank Stage_Input = 0"
| "color_stage_rank Stage_Correction = 1"
| "color_stage_rank Stage_Look = 2"

fun color_node_stage :: "color_node_kind \<Rightarrow> color_stage" where
  "color_node_stage TechnicalLut = Stage_Input"
| "color_node_stage Primary = Stage_Correction"
| "color_node_stage Wheels = Stage_Correction"
| "color_node_stage Curves = Stage_Correction"
| "color_node_stage CreativeLook = Stage_Look"

definition color_node_is_lut :: "color_node_kind \<Rightarrow> bool" where
  "color_node_is_lut k \<longleftrightarrow> k = TechnicalLut \<or> k = CreativeLook"

definition supports_matte :: "color_node_kind \<Rightarrow> bool" where
  "supports_matte k \<longleftrightarrow> k \<noteq> TechnicalLut"

definition is_lut_color_node :: "string \<Rightarrow> bool" where
  "is_lut_color_node name = (case from_effect_name name of Some k \<Rightarrow> color_node_is_lut k | None \<Rightarrow> False)"

definition classify_color_node :: "effect \<Rightarrow> color_node_kind option" where
  "classify_color_node e = from_effect_name (effect_name e)"

definition managed_color_node_count :: "effect list \<Rightarrow> nat" where
  "managed_color_node_count es = length (filter (\<lambda>e. is_managed_color_node (effect_name e)) es)"

definition lut_node_count :: "effect list \<Rightarrow> nat" where
  "lut_node_count es = length (filter (\<lambda>e. is_lut_color_node (effect_name e)) es)"

definition stored_integer :: "effect \<Rightarrow> string \<Rightarrow> int \<Rightarrow> int" where
  "stored_integer e name neutral =
     (case bt_get name (parameters e) of Some (Integer v) \<Rightarrow> v | _ \<Rightarrow> neutral)"

record color_stage_order_violation =
  violation_index :: nat
  violation_effect :: effect_id
  violation_kind :: color_node_kind
  previous_index :: nat
  previous_effect :: effect_id
  previous_kind :: color_node_kind

fun color_stage_order_violation_loop ::
    "(nat \<times> effect_id \<times> color_node_kind) option \<Rightarrow> (nat \<times> effect_id \<times> color_node_kind) list
      \<Rightarrow> color_stage_order_violation option" where
  "color_stage_order_violation_loop previous [] = None"
| "color_stage_order_violation_loop previous ((i, e, k) # nodes) =
     (case previous of
        Some (pi, pe, pk) \<Rightarrow>
          if color_stage_rank (color_node_stage k) < color_stage_rank (color_node_stage pk)
          then Some \<lparr>violation_index = i, violation_effect = e, violation_kind = k,
                     previous_index = pi, previous_effect = pe, previous_kind = pk\<rparr>
          else color_stage_order_violation_loop (Some (i, e, k)) nodes
      | None \<Rightarrow> color_stage_order_violation_loop (Some (i, e, k)) nodes)"

definition color_stage_order_violation_over ::
    "(nat \<times> effect_id \<times> color_node_kind) list \<Rightarrow> color_stage_order_violation option" where
  "color_stage_order_violation_over nodes = color_stage_order_violation_loop None nodes"

definition classified_nodes :: "effect list \<Rightarrow> (nat \<times> effect_id \<times> color_node_kind) list" where
  "classified_nodes es =
     List.map_filter (\<lambda>(i, e). map_option (\<lambda>k. (i, effect_id e, k)) (classify_color_node e))
       (enumerate 0 es)"

definition color_stage_order_violation_of :: "effect list \<Rightarrow> color_stage_order_violation option" where
  "color_stage_order_violation_of es = color_stage_order_violation_over (classified_nodes es)"

record color_curve_order_violation =
  curve_violation_curve :: color_curve_channel
  curve_violation_index :: nat
  curve_violation_previous_x :: int
  curve_violation_x :: int

definition point_coordinate_neutral :: "nat \<Rightarrow> int" where
  "point_coordinate_neutral index = (if index = 0 then 0 else COLOR_CURVE_WHITE_BASIS_POINTS)"

text \<open>The loop of \<^verbatim>\<open>curve_order_violation\<close> over the declared points.\<close>

fun curve_order_loop ::
    "effect \<Rightarrow> color_curve_channel \<Rightarrow> nat list \<Rightarrow> int option \<Rightarrow> color_curve_order_violation option" where
  "curve_order_loop e c [] previous_x = None"
| "curve_order_loop e c (index # rest) previous_x =
     (case x_parameter c index of
        None \<Rightarrow> None
      | Some x_name \<Rightarrow>
          let x = stored_integer e x_name (point_coordinate_neutral index)
          in case previous_x of
               Some px \<Rightarrow>
                 if x \<le> px
                 then Some \<lparr>curve_violation_curve = c, curve_violation_index = index,
                            curve_violation_previous_x = px, curve_violation_x = x\<rparr>
                 else curve_order_loop e c rest (Some x)
             | None \<Rightarrow> curve_order_loop e c rest (Some x))"

definition declared_points :: "effect \<Rightarrow> color_curve_channel \<Rightarrow> nat" where
  "declared_points e c =
     nat (max (int COLOR_CURVE_MIN_POINTS) (min (int COLOR_CURVE_MAX_POINTS)
       (stored_integer e (point_count_parameter c) (int COLOR_CURVE_MIN_POINTS))))"

definition curve_order_violation :: "effect \<Rightarrow> color_curve_channel \<Rightarrow> color_curve_order_violation option" where
  "curve_order_violation e c = curve_order_loop e c [0..<declared_points e c] None"

definition color_curve_order_violation_of :: "effect \<Rightarrow> color_curve_order_violation option" where
  "color_curve_order_violation_of e =
     (if from_effect_name (effect_name e) \<noteq> Some Curves then None
      else List.fold (\<lambda>c found. case found of Some v \<Rightarrow> Some v | None \<Rightarrow> curve_order_violation e c)
             color_curve_channels None)"

definition LEGACY_DISPLAY_EFFECT_NAMES :: "string list" where
  "LEGACY_DISPLAY_EFFECT_NAMES = [''brightness'', ''contrast'', ''saturation'']"

definition POST_PRIMARY_LUT_EFFECT_NAMES :: "string list" where
  "POST_PRIMARY_LUT_EFFECT_NAMES = [''look_lut'', ''cube_lut'']"

datatype effect_compatibility_stage = LegacyDisplayCoded | PostPrimaryLut

definition effect_compatibility_stage :: "string \<Rightarrow> effect_compatibility_stage option" where
  "effect_compatibility_stage name =
     (if name \<in> set LEGACY_DISPLAY_EFFECT_NAMES then Some LegacyDisplayCoded
      else if name \<in> set POST_PRIMARY_LUT_EFFECT_NAMES then Some PostPrimaryLut
      else None)"

definition is_audio_effect :: "string \<Rightarrow> bool" where
  "is_audio_effect name =
     (name \<in> set [''audio_gain'', ''audio_eq'', ''audio_compressor'', ''audio_ducking'', ''audio_limiter'',
                  ''audio_parametric_eq'', ''audio_gate'', ''audio_true_peak_limiter'', ''audio_denoise'',
                  ''audio_hum_removal'', ''audio_declick''])"

definition starts_with :: "string \<Rightarrow> string \<Rightarrow> bool" where
  "starts_with p s \<longleftrightarrow> take (length p) s = p"

definition ends_with :: "string \<Rightarrow> string \<Rightarrow> bool" where
  "ends_with p s \<longleftrightarrow> length p \<le> length s \<and> drop (length s - length p) s = p"

definition is_noise_profile_parameter :: "string \<Rightarrow> bool" where
  "is_noise_profile_parameter name \<longleftrightarrow> starts_with ''profile_band'' name \<and> ends_with ''_tenth_db'' name"

definition is_static_audio_parameter :: "string \<Rightarrow> string \<Rightarrow> bool" where
  "is_static_audio_parameter effect parameter =
     (if parameter = AUDIO_LOOKAHEAD_PARAMETER
      then effect \<in> set [''audio_compressor'', ''audio_true_peak_limiter'', ''audio_denoise'', ''audio_declick'']
      else if parameter = AUDIO_RMS_WINDOW_PARAMETER then effect = ''audio_compressor''
      else if is_noise_profile_parameter parameter then effect = ''audio_denoise''
      else False)"

text \<open>\<^verbatim>\<open>operation.rs\<close>: parameters whose keyframes must hold.\<close>

definition is_hold_only_parameter :: "string \<Rightarrow> string \<Rightarrow> bool" where
  "is_hold_only_parameter effect name =
     (if is_audio_effect effect
      then name \<in> set [''bypass'', ''detector'', ''true_peak'', ''harmonic_count'']
      else case from_effect_name effect of
             None \<Rightarrow> False
           | Some kind \<Rightarrow>
               (kind = Curves \<and> list_ex (\<lambda>c. point_count_parameter c = name) color_curve_channels)
               \<or> (color_node_is_lut kind \<and> (name = LUT_ASSET_ID_PARAMETER \<or> name = LUT_INPUT_ENCODING_PARAMETER))
               \<or> (supports_matte kind \<and> is_hold_only_matte_parameter name))"

text \<open>The resolved parameters of a lookup-table node, each clamped into its descriptor.\<close>

record lut_node_params =
  node_lut_asset_id :: lut_asset_id
  node_mix_basis_points :: int
  node_input_encoding_token :: int
  node_bypass_token :: int

definition lut_parameters :: "color_node_kind \<Rightarrow> effect_parameter_descriptor list option" where
  "lut_parameters k =
     (case k of TechnicalLut \<Rightarrow> Some TECHNICAL_LUT_PARAMETERS
      | CreativeLook \<Rightarrow> Some CREATIVE_LOOK_PARAMETERS
      | _ \<Rightarrow> None)"

definition lut_node_params_from_effect :: "effect \<Rightarrow> lut_node_params" where
  "lut_node_params_from_effect e =
     (let ps = (case Option.bind (from_effect_name (effect_name e)) lut_parameters of
                  Some ps \<Rightarrow> ps | None \<Rightarrow> CREATIVE_LOOK_PARAMETERS);
          resolve = (\<lambda>i. let d = ps ! i
                         in max (param_min d) (min (param_max d)
                              (stored_integer e (param_name d) (param_neutral d))))
      in \<lparr>node_lut_asset_id = (case try_u64 (resolve 0) of Some v \<Rightarrow> v | None \<Rightarrow> 0),
          node_mix_basis_points = resolve 1,
          node_input_encoding_token = resolve 2,
          node_bypass_token = resolve 3\<rparr>)"

datatype color_node_inactive_reason = Bypassed | Neutral | Unbound | MatteExcluded

definition lut_node_inactive_reason :: "lut_node_params \<Rightarrow> color_node_inactive_reason option" where
  "lut_node_inactive_reason p =
     (if 1 \<le> node_bypass_token p then Some Bypassed
      else if node_mix_basis_points p = 0 then Some Neutral
      else if node_lut_asset_id p = 0 then Some Unbound
      else None)"

section \<open>Lemmas\<close>

abbreviation node_rank :: "nat \<times> effect_id \<times> color_node_kind \<Rightarrow> int" where
  "node_rank n \<equiv> color_stage_rank (color_node_stage (snd (snd n)))"

lemma stage_loop_None:
  "color_stage_order_violation_loop p nodes = None \<longleftrightarrow>
     sorted (map node_rank ((case p of None \<Rightarrow> [] | Some n \<Rightarrow> [n]) @ nodes))"
proof (induction nodes arbitrary: p)
  case Nil
  then show ?case by (simp split: option.split)
next
  case (Cons m nodes)
  obtain i e k where m: "m = (i, e, k)" by (cases m) auto
  have IH: "color_stage_order_violation_loop (Some (i, e, k)) nodes = None \<longleftrightarrow>
      sorted (map node_rank ((i, e, k) # nodes))" using Cons by simp
  show ?case
  proof (cases p)
    case None
    with IH m show ?thesis by simp
  next
    case (Some n)
    obtain pi pe pk where n: "n = (pi, pe, pk)" by (cases n) auto
    show ?thesis
    proof (cases "color_stage_rank (color_node_stage k) < color_stage_rank (color_node_stage pk)")
      case True
      with Some n m show ?thesis by auto
    next
      case False
      with IH Some n m show ?thesis by (auto intro: order_trans)
    qed
  qed
qed

lemma stage_order_None:
  "color_stage_order_violation_over nodes = None \<longleftrightarrow> sorted (map node_rank nodes)"
  by (simp add: color_stage_order_violation_over_def stage_loop_None)

definition curve_xs :: "effect \<Rightarrow> color_curve_channel \<Rightarrow> int list" where
  "curve_xs e c = map (\<lambda>i. stored_integer e (the (x_parameter c i)) (point_coordinate_neutral i))
     [0..<declared_points e c]"

lemma curve_order_loop_None:
  assumes "\<forall>i \<in> set is. i < COLOR_CURVE_MAX_POINTS"
  shows "curve_order_loop e c is p = None \<longleftrightarrow>
    sorted_wrt (<) ((case p of None \<Rightarrow> [] | Some x \<Rightarrow> [x]) @
      map (\<lambda>i. stored_integer e (the (x_parameter c i)) (point_coordinate_neutral i)) is)"
  using assms
proof (induction "is" arbitrary: p)
  case Nil
  then show ?case by (simp split: option.split)
next
  case (Cons i "is")
  then obtain n where n: "x_parameter c i = Some n" by (auto simp: x_parameter_def)
  let ?f = "\<lambda>i. stored_integer e (the (x_parameter c i)) (point_coordinate_neutral i)"
  have IH: "curve_order_loop e c is (Some (?f i)) = None \<longleftrightarrow> sorted_wrt (<) (?f i # map ?f is)"
    using Cons by simp
  show ?case
  proof (cases p)
    case None
    then show ?thesis using IH n by simp
  next
    case (Some px)
    show ?thesis
    proof (cases "?f i \<le> px")
      case True
      then show ?thesis using Some n by auto
    next
      case False
      then show ?thesis using IH Some n by (auto simp: not_le intro: order.strict_trans)
    qed
  qed
qed

lemma declared_points_bounds:
  "COLOR_CURVE_MIN_POINTS \<le> declared_points e c \<and> declared_points e c \<le> COLOR_CURVE_MAX_POINTS"
  by (auto simp: declared_points_def COLOR_CURVE_MIN_POINTS_def COLOR_CURVE_MAX_POINTS_def le_nat_iff nat_le_iff)

lemma curve_order_None: "curve_order_violation e c = None \<longleftrightarrow> sorted_wrt (<) (curve_xs e c)"
proof -
  have "\<forall>i \<in> set [0..<declared_points e c]. i < COLOR_CURVE_MAX_POINTS"
    using declared_points_bounds [of e c] by auto
  from curve_order_loop_None [OF this, of e c None] show ?thesis
    by (simp add: curve_order_violation_def curve_xs_def)
qed

text \<open>A descriptor is well formed when every parameter's neutral value is accepted, and fits the
  proven bound when everything that may be interpolated does.\<close>

definition descriptor_ok :: "effect_descriptor \<Rightarrow> bool" where
  "descriptor_ok d \<longleftrightarrow> list_all (\<lambda>p. param_min p \<le> param_neutral p \<and> param_neutral p \<le> param_max p)
     (descriptor_parameters d)"

definition descriptor_fits_bound :: "effect_descriptor \<Rightarrow> bool" where
  "descriptor_fits_bound d \<longleftrightarrow> list_all (\<lambda>p.
     - PROVEN_VALUE_BOUND \<le> param_min p \<and> param_max p \<le> PROVEN_VALUE_BOUND
     \<or> is_hold_only_parameter (descriptor_name d) (param_name p)) (descriptor_parameters d)"

definition descriptor_names_distinct :: "effect_descriptor \<Rightarrow> bool" where
  "descriptor_names_distinct d \<longleftrightarrow> distinct (map param_name (descriptor_parameters d))"

lemma registry_fits_bound: "list_all descriptor_fits_bound EFFECT_DESCRIPTORS"
  by code_simp

section \<open>Properties\<close>

text \<open>
  The registry is well formed and inside the proven bound: effect names are unique, every
  neutral value is accepted by its own parameter, and every parameter whose keyframes may interpolate
  has a range within the bound that curve evaluation is proved for.
\<close>

theorem registry_well_formed:
  "distinct (map descriptor_name EFFECT_DESCRIPTORS)
   \<and> list_all descriptor_ok EFFECT_DESCRIPTORS
   \<and> list_all descriptor_fits_bound EFFECT_DESCRIPTORS"
proof (intro conjI)
  show "distinct (map descriptor_name EFFECT_DESCRIPTORS)" by code_simp
  show "list_all descriptor_ok EFFECT_DESCRIPTORS" by code_simp
  show "list_all descriptor_fits_bound EFFECT_DESCRIPTORS" by (rule registry_fits_bound)
qed

text \<open>
  The colour-stage check accepts exactly the effect lists whose managed nodes run in stage
  order, input before correction before look, although it only compares neighbours, and the curve
  check accepts a \<^verbatim>\<open>color_curves\<close> node exactly when the declared points of each of its four curves
  have strictly increasing positions.
\<close>

theorem color_order_checks_exact:
  "(color_stage_order_violation_of es = None \<longleftrightarrow> sorted (map node_rank (classified_nodes es)))
   \<and> (color_curve_order_violation_of e = None \<longleftrightarrow>
        from_effect_name (effect_name e) \<noteq> Some Curves
        \<or> (\<forall>c \<in> set color_curve_channels. sorted_wrt (<) (curve_xs e c)))"
proof
  show "color_stage_order_violation_of es = None \<longleftrightarrow> sorted (map node_rank (classified_nodes es))"
    by (simp add: color_stage_order_violation_of_def stage_order_None)
  show "color_curve_order_violation_of e = None \<longleftrightarrow>
      from_effect_name (effect_name e) \<noteq> Some Curves
      \<or> (\<forall>c \<in> set color_curve_channels. sorted_wrt (<) (curve_xs e c))"
    by (simp add: color_curve_order_violation_of_def color_curve_channels_def curve_order_None [symmetric]
        split: option.split)
qed

definition sample_curves_effect :: effect where
  "sample_curves_effect = \<lparr>effect_id = 1, effect_name = ''color_curves'', parameters = [],
     effect_keyframes = [], effect_enabled = True, effect_enabled_curve = None\<rparr>"

theorem color_order_checks_exact_witness:
  "sorted (map node_rank (classified_nodes [sample_curves_effect]))
   \<and> sorted_wrt (<) (curve_xs sample_curves_effect Curve_Master)"
proof -
  have "color_stage_order_violation_of [sample_curves_effect] = None"
    "color_curve_order_violation_of sample_curves_effect = None" by code_simp+
  then show ?thesis
    using color_order_checks_exact [of "[sample_curves_effect]" sample_curves_effect]
    by (simp add: sample_curves_effect_def from_effect_name_def color_curve_channels_def)
qed

end
