(* ===== verification/Doc_Model.thy ===== *)
theory Doc_Model
  imports Effect_Registry
begin

text \<open>
  The project document's own functions, \<^verbatim>\<open>crates/kinewright-core/src/model.rs\<close>: effect and clip
  evaluation, the audio mix with its lookahead accounting, colour lookup tables, and the document's
  queries (lookup by id, track gaps, clip durations) with the recomputation of the project duration,
  which clamps every project-frame curve when the project shrinks.
\<close>

section \<open>Definitions\<close>

subsection \<open>Media and effects\<close>

definition fingerprint_unknown :: media_source_fingerprint where
  "fingerprint_unknown = \<lparr>content_sha256 = None, byte_len = None\<rparr>"

definition fingerprint_is_unknown :: "media_source_fingerprint \<Rightarrow> bool" where
  "fingerprint_is_unknown f \<longleftrightarrow> content_sha256 f = None \<and> byte_len f = None"

definition fingerprint_is_verified :: "media_source_fingerprint \<Rightarrow> bool" where
  "fingerprint_is_verified f \<longleftrightarrow> content_sha256 f \<noteq> None \<and> byte_len f \<noteq> None"

definition canonicalize_legacy_color_grade_name :: "string \<Rightarrow> string" where
  "canonicalize_legacy_color_grade_name name =
     (if name = ''color_grade'' then ''primary_correction'' else name)"

definition effect_canonicalize_legacy_name :: "effect \<Rightarrow> effect" where
  "effect_canonicalize_legacy_name e =
     e\<lparr>effect_name := canonicalize_legacy_color_grade_name (effect_name e)\<rparr>"

definition static_integer_parameter :: "effect \<Rightarrow> string \<Rightarrow> int option" where
  "static_integer_parameter e name =
     (case bt_get name (parameters e) of Some (Integer v) \<Rightarrow> Some v | _ \<Rightarrow> None)"

definition integer_parameter_at :: "effect \<Rightarrow> string \<Rightarrow> timecode \<Rightarrow> int option" where
  "integer_parameter_at e name t =
     (case Option.bind (bt_get name (effect_keyframes e)) (\<lambda>c. curve_value_at c t) of
        Some v \<Rightarrow> Some v
      | None \<Rightarrow> static_integer_parameter e name)"

definition curve_gates_on :: "automation_curve \<Rightarrow> timecode \<Rightarrow> bool" where
  "curve_gates_on c t = (case curve_value_at c t of Some v \<Rightarrow> 1 \<le> v | None \<Rightarrow> False)"

definition effect_is_enabled_at :: "effect \<Rightarrow> timecode \<Rightarrow> bool" where
  "effect_is_enabled_at e t =
     (case effect_enabled_curve e of Some c \<Rightarrow> curve_gates_on c t | None \<Rightarrow> effect_enabled e)"

definition effect_evaluated_at :: "effect \<Rightarrow> timecode \<Rightarrow> effect" where
  "effect_evaluated_at e t =
     e\<lparr>parameters := fold (\<lambda>(name, c) ps. case curve_value_at c t of
                             Some v \<Rightarrow> bt_insert name (Integer v) ps
                           | None \<Rightarrow> ps) (effect_keyframes e) (parameters e),
       effect_keyframes := [],
       effect_enabled := effect_is_enabled_at e t,
       effect_enabled_curve := None\<rparr>"

subsection \<open>Clips\<close>

definition is_media :: "clip_content \<Rightarrow> bool" where
  "is_media c \<longleftrightarrow> c = Media"

definition is_span :: "clip_content \<Rightarrow> bool" where
  "is_span c \<longleftrightarrow> \<not> is_media c"

fun references_asset :: "clip_content \<Rightarrow> bool" where
  "references_asset Media = True"
| "references_asset (Freeze _) = True"
| "references_asset _ = False"

fun content_title :: "clip_content \<Rightarrow> title option" where
  "content_title (Title_Content t) = Some t"
| "content_title _ = None"

definition clip_is_enabled_at :: "clip \<Rightarrow> timecode \<Rightarrow> bool" where
  "clip_is_enabled_at c t =
     (case clip_enabled_curve c of Some curve \<Rightarrow> curve_gates_on curve t | None \<Rightarrow> clip_enabled c)"

definition clip_effective_fps :: "rational \<Rightarrow> clip \<Rightarrow> time_mapping_error + rational" where
  "clip_effective_fps fps c = speed_scaled_fps fps (speed_percent c)"

subsection \<open>The audio mix\<close>

definition CLIP_GAIN_MIN :: int where "CLIP_GAIN_MIN = -600"
definition CLIP_GAIN_MAX :: int where "CLIP_GAIN_MAX = 120"
definition TRACK_MIX_GAIN_MIN :: int where "TRACK_MIX_GAIN_MIN = -600"
definition TRACK_MIX_GAIN_MAX :: int where "TRACK_MIX_GAIN_MAX = 120"
definition TRACK_MIX_PAN_MIN :: int where "TRACK_MIX_PAN_MIN = -100"
definition TRACK_MIX_PAN_MAX :: int where "TRACK_MIX_PAN_MAX = 100"
definition AUDIO_BUS_GAIN_MIN :: int where "AUDIO_BUS_GAIN_MIN = -600"
definition AUDIO_BUS_GAIN_MAX :: int where "AUDIO_BUS_GAIN_MAX = 120"
definition AUDIO_MASTER_GAIN_MIN :: int where "AUDIO_MASTER_GAIN_MIN = -600"
definition AUDIO_MASTER_GAIN_MAX :: int where "AUDIO_MASTER_GAIN_MAX = 120"
definition CHAIN_LOOKAHEAD_MILLISECONDS :: int where "CHAIN_LOOKAHEAD_MILLISECONDS = 20"
definition MARKER_COLOR_TOKEN_COUNT :: int where "MARKER_COLOR_TOKEN_COUNT = 4"

definition TRACK_AUTOMATION_PARAMETERS :: "string list" where
  "TRACK_AUTOMATION_PARAMETERS = [''gain_tenth_db'', ''pan_percent'']"

definition track_mix_neutral :: "track_id \<Rightarrow> track_mix" where
  "track_mix_neutral t =
     \<lparr>mix_track = t, mix_gain_tenth_db = 0, mix_pan_percent = 0, mix_gain_curve = None,
      mix_pan_curve = None, mix_mute = False, mix_solo = False\<rparr>"

definition track_mix_is_neutral :: "track_mix \<Rightarrow> bool" where
  "track_mix_is_neutral m \<longleftrightarrow>
     mix_gain_tenth_db m = 0 \<and> mix_pan_percent m = 0 \<and> mix_gain_curve m = None
     \<and> mix_pan_curve m = None \<and> \<not> mix_mute m \<and> \<not> mix_solo m"

definition audio_master_is_neutral :: "audio_master \<Rightarrow> bool" where
  "audio_master_is_neutral m \<longleftrightarrow>
     master_gain_tenth_db m = 0 \<and> master_gain_curve m = None \<and> master_effects m = []"

definition audio_mix_is_empty :: "audio_mix \<Rightarrow> bool" where
  "audio_mix_is_empty m \<longleftrightarrow>
     buses m = [] \<and> track_mixes m = [] \<and> audio_master_is_neutral (master m) \<and> pan_law m = Balance"

definition audio_master_default :: audio_master where
  "audio_master_default = \<lparr>master_gain_tenth_db = 0, master_gain_curve = None, master_effects = []\<rparr>"

definition audio_mix_default :: audio_mix where
  "audio_mix_default = \<lparr>buses = [], track_mixes = [], master = audio_master_default, pan_law = Balance\<rparr>"

definition effect_lookahead :: "effect \<Rightarrow> int" where
  "effect_lookahead e =
     (case static_integer_parameter e AUDIO_LOOKAHEAD_PARAMETER of
        Some v \<Rightarrow> v
      | None \<Rightarrow>
          (case Option.bind (effect_descriptor (effect_name e))
                  (\<lambda>d. descriptor_parameter d AUDIO_LOOKAHEAD_PARAMETER) of
             Some p \<Rightarrow> param_neutral p
           | None \<Rightarrow> 0))"

definition chain_lookahead_milliseconds :: "effect list \<Rightarrow> int" where
  "chain_lookahead_milliseconds es =
     wrap_i64 (sum_list (map effect_lookahead
       (filter (\<lambda>e. is_static_audio_parameter (effect_name e) AUDIO_LOOKAHEAD_PARAMETER) es)))"

definition max_list0 :: "int list \<Rightarrow> int" where
  "max_list0 xs = (case xs of [] \<Rightarrow> 0 | x # xs \<Rightarrow> fold max xs x)"

definition next_bus_id :: "audio_mix \<Rightarrow> audio_bus_id" where
  "next_bus_id m = saturating_add_u64 (max_list0 (map bus_id (buses m))) 1"

definition mix_bus :: "audio_mix \<Rightarrow> audio_bus_id \<Rightarrow> audio_bus option" where
  "mix_bus m i = find (\<lambda>b. bus_id b = i) (buses m)"

definition bus_for_track :: "audio_mix \<Rightarrow> track_id \<Rightarrow> audio_bus_id option" where
  "bus_for_track m t = map_option bus_id (find (\<lambda>b. t \<in> set (bus_tracks b)) (buses m))"

definition lookahead_milliseconds :: "audio_mix \<Rightarrow> int \<times> int" where
  "lookahead_milliseconds m =
     (max_list0 (map (\<lambda>b. chain_lookahead_milliseconds (bus_effects b)) (buses m)),
      chain_lookahead_milliseconds (master_effects (master m)))"

definition mix_for_track :: "audio_mix \<Rightarrow> track_id \<Rightarrow> track_mix" where
  "mix_for_track m t =
     (case find (\<lambda>e. mix_track e = t) (track_mixes m) of Some e \<Rightarrow> e | None \<Rightarrow> track_mix_neutral t)"

definition any_solo :: "audio_mix \<Rightarrow> bool" where
  "any_solo m = list_ex mix_solo (track_mixes m)"

definition clamp_slot :: "timecode \<Rightarrow> automation_curve option \<Rightarrow> automation_curve option" where
  "clamp_slot duration slot = map_option (\<lambda>c. clamp_project_curve c duration) slot"

definition clamp_effects :: "timecode \<Rightarrow> effect list \<Rightarrow> effect list" where
  "clamp_effects duration =
     map (\<lambda>e. e\<lparr>effect_keyframes :=
        map (\<lambda>(n, c). (n, clamp_project_curve c duration)) (effect_keyframes e)\<rparr>)"

definition clamp_audio_mix_curves :: "audio_mix \<Rightarrow> timecode \<Rightarrow> audio_mix" where
  "clamp_audio_mix_curves mix duration =
     mix\<lparr>track_mixes := map (\<lambda>e. e\<lparr>mix_gain_curve := clamp_slot duration (mix_gain_curve e),
                                  mix_pan_curve := clamp_slot duration (mix_pan_curve e)\<rparr>)
                         (track_mixes mix),
         buses := map (\<lambda>b. b\<lparr>bus_gain_curve := clamp_slot duration (bus_gain_curve b),
                             bus_effects := clamp_effects duration (bus_effects b)\<rparr>) (buses mix),
         master := (master mix)\<lparr>master_gain_curve := clamp_slot duration (master_gain_curve (master mix)),
                                master_effects := clamp_effects duration (master_effects (master mix))\<rparr>\<rparr>"

subsection \<open>Lookup tables\<close>

definition LUT_ASSET_ID_MAX :: int where "LUT_ASSET_ID_MAX = 9007199254740991"
definition LUT_SIZE_MIN :: int where "LUT_SIZE_MIN = 2"
definition LUT_SIZE_MAX :: int where "LUT_SIZE_MAX = 65"

definition is_canonical_sha256 :: "string \<Rightarrow> bool" where
  "is_canonical_sha256 h \<longleftrightarrow> length h = 64 \<and> list_all (\<lambda>c. c \<in> set ''0123456789abcdef'') h"

definition LUT_DOMAIN_FIELDS :: "string list" where
  "LUT_DOMAIN_FIELDS = [''domain_r_millionths'', ''domain_g_millionths'', ''domain_b_millionths'']"

definition validate_lut_asset :: "lut_asset \<Rightarrow> op_error + unit" where
  "validate_lut_asset a =
     (if lut_id a = 0 \<or> LUT_ASSET_ID_MAX < lut_id a
      then Inl (AssetError (InvalidLutAssetMetadata ''id''))
      else if \<not> is_canonical_sha256 (lut_sha256 a)
      then Inl (AssetError (InvalidLutAssetHash (lut_id a) (lut_sha256 a)))
      else if lut_title a = [] then Inl (AssetError (InvalidLutAssetMetadata ''title''))
      else if lut_kind a \<noteq> Cube3d then Inl (AssetError (InvalidLutAssetMetadata ''kind''))
      else if lut_size a < LUT_SIZE_MIN \<or> LUT_SIZE_MAX < lut_size a
      then Inl (AssetError (InvalidLutAssetMetadata ''size''))
      else if lut_byte_len a = 0 then Inl (AssetError (InvalidLutAssetMetadata ''byte_len''))
      else for_each (\<lambda>((lo, hi), field).
             ensure (lo < hi) (AssetError (InvalidLutAssetMetadata field)))
             (zip (zip (domain_min_millionths a) (domain_max_millionths a)) LUT_DOMAIN_FIELDS))"

definition effect_references_lut_asset :: "effect \<Rightarrow> lut_asset_id \<Rightarrow> bool" where
  "effect_references_lut_asset e i \<longleftrightarrow>
     is_lut_color_node (effect_name e) \<and>
     ((case bt_get LUT_ASSET_ID_PARAMETER (parameters e) of Some (Integer v) \<Rightarrow> 0 \<le> v \<and> v = i | _ \<Rightarrow> False)
      \<or> (case bt_get LUT_ASSET_ID_PARAMETER (effect_keyframes e) of
           Some c \<Rightarrow> list_ex (\<lambda>k. 0 \<le> key_value k \<and> key_value k = i) (keyframes c)
         | None \<Rightarrow> False))"

subsection \<open>The document\<close>

definition media_catalog_default :: media_catalog where
  "media_catalog_default = \<lparr>bins = [], string_outs = [], sync_groups = []\<rparr>"

definition document_default :: document where
  "document_default =
     \<lparr>tracks = [], media_pool = [], markers = [], catalog = media_catalog_default,
      audio_mix = audio_mix_default, color_context = sdr_rec709, lut_assets = [],
      investigator = None, doc_fps = rational_default, resolution = (1920, 1080), doc_duration = 0\<rparr>"

definition all_clips :: "document \<Rightarrow> clip list" where
  "all_clips doc = concat (map clips (tracks doc))"

definition doc_asset :: "document \<Rightarrow> asset_id \<Rightarrow> media_asset option" where
  "doc_asset doc i = find (\<lambda>a. asset_id a = i) (media_pool doc)"

definition timeline_referenced_media_assets :: "document \<Rightarrow> media_asset list" where
  "timeline_referenced_media_assets doc =
     (let referenced = set (map clip_asset (filter (\<lambda>c. references_asset (content c)) (all_clips doc)))
      in filter (\<lambda>a. asset_id a \<in> referenced) (media_pool doc))"

definition doc_clip :: "document \<Rightarrow> clip_id \<Rightarrow> clip option" where
  "doc_clip doc i = find (\<lambda>c. clip_id c = i) (all_clips doc)"

definition doc_lut_asset :: "document \<Rightarrow> lut_asset_id \<Rightarrow> lut_asset option" where
  "doc_lut_asset doc i = find (\<lambda>a. lut_id a = i) (lut_assets doc)"

definition next_lut_asset_id :: "document \<Rightarrow> op_error + lut_asset_id" where
  "next_lut_asset_id doc =
     (let next = saturating_add_u64 (max_list0 (map lut_id (lut_assets doc))) 1
      in if LUT_ASSET_ID_MAX < next then Inl (AssetError LutAssetIdExhausted) else Inr next)"

definition lut_asset_references :: "document \<Rightarrow> lut_asset_id \<Rightarrow> (clip_id \<times> effect_id) list" where
  "lut_asset_references doc i =
     concat (map (\<lambda>c. map (\<lambda>e. (clip_id c, effect_id e))
                        (filter (\<lambda>e. effect_references_lut_asset e i) (effects c))) (all_clips doc))"

definition doc_marker :: "document \<Rightarrow> marker_id \<Rightarrow> marker option" where
  "doc_marker doc i = find (\<lambda>m. marker_id m = i) (markers doc)"

definition doc_track_mix :: "document \<Rightarrow> track_id \<Rightarrow> track_mix" where
  "doc_track_mix doc t = mix_for_track (audio_mix doc) t"

definition track_audible :: "document \<Rightarrow> track_id \<Rightarrow> bool" where
  "track_audible doc t =
     (let mix = doc_track_mix doc t in \<not> mix_mute mix \<and> (\<not> any_solo (audio_mix doc) \<or> mix_solo mix))"

definition clip_duration :: "document \<Rightarrow> clip \<Rightarrow> op_error + timecode" where
  "clip_duration doc c =
     (if is_span (content c)
      then ok_or TimeOverflow (timecode_checked_sub (r_end (source_range c)) (r_start (source_range c)))
      else
        rbind (ok_or (TimelineError (MissingAsset (clip_asset c))) (doc_asset doc (clip_asset c))) (\<lambda>a.
        rbind (map_err TimeMapping (clip_effective_fps (asset_fps a) c)) (\<lambda>effective.
        map_err TimeMapping (map_source_range_to_project (source_range c) effective (doc_fps doc)))))"

definition clip_end :: "document \<Rightarrow> clip \<Rightarrow> op_error + timecode" where
  "clip_end doc c =
     rbind (clip_duration doc c) (\<lambda>d. ok_or TimeOverflow (timecode_checked_add (timeline_start c) d))"

definition longest_end :: "document \<Rightarrow> op_error + timecode" where
  "longest_end doc =
     fold_res (\<lambda>c duration. rbind (clip_end doc c) (\<lambda>e. Inr (max duration e))) (all_clips doc) 0"

definition recompute_duration :: "document \<Rightarrow> op_error + document" where
  "recompute_duration doc =
     rbind (longest_end doc) (\<lambda>duration.
       let doc' = doc\<lparr>doc_duration := duration\<rparr>
       in Inr (if duration < doc_duration doc
               then doc'\<lparr>audio_mix := clamp_audio_mix_curves (audio_mix doc) duration\<rparr> else doc'))"

text \<open>The loop of \<^verbatim>\<open>track_gaps\<close>.\<close>

fun gaps_loop :: "document \<Rightarrow> timecode \<Rightarrow> clip list \<Rightarrow> trange list" where
  "gaps_loop doc previous_end [] = []"
| "gaps_loop doc previous_end (c # cs) =
     (let duration = (case clip_duration doc c of Inr d \<Rightarrow> d | Inl _ \<Rightarrow> 0);
          end = saturating_add_i64 (timeline_start c) duration;
          rest = gaps_loop doc (max end previous_end) cs
      in if previous_end < timeline_start c then rng previous_end (timeline_start c) # rest else rest)"

definition doc_track :: "document \<Rightarrow> track_id \<Rightarrow> track option" where
  "doc_track doc t = find (\<lambda>tr. track_id tr = t) (tracks doc)"

definition track_gaps :: "document \<Rightarrow> track_id \<Rightarrow> trange list option" where
  "track_gaps doc t = map_option (\<lambda>tr. gaps_loop doc 0 (clips tr)) (doc_track doc t)"

end
