(* ===== verification/Title_Model.thy ===== *)
theory Title_Model
  imports Doc_Model
begin

text \<open>
  Titles and transitions: the parameter descriptors and caption presets of
  \<^verbatim>\<open>crates/kinewright-core/src/title.rs\<close> (its glyph layout is not modelled) and the transition
  table of \<^verbatim>\<open>crates/kinewright-core/src/transition.rs\<close>.
\<close>

section \<open>Definitions\<close>

datatype title_parameter_kind =
    TitleText nat
  | TitleInteger int int
  | TitleBoolean
  | TitlePositionKind
  | TitleCaptionPreset

definition TITLE_PARAMETER_DESCRIPTORS :: "(string \<times> title_parameter_kind) list" where
  "TITLE_PARAMETER_DESCRIPTORS =
     [(''text'', TitleText 512),
      (''font_size_token'', TitleInteger 0 2),
      (''color_token'', TitleInteger 0 2),
      (''position'', TitlePositionKind),
      (''caption_preset'', TitleCaptionPreset),
      (''background_scrim'', TitleBoolean),
      (''fade_in_frames'', TitleInteger 0 i64_max),
      (''fade_out_frames'', TitleInteger 0 i64_max)]"

fun title_position_as_str :: "title_position \<Rightarrow> string" where
  "title_position_as_str LowerThird = ''lower_third''"
| "title_position_as_str Center = ''center''"
| "title_position_as_str Top = ''top''"

definition title_position_from_str :: "string \<Rightarrow> title_position option" where
  "title_position_from_str s =
     (if s = ''lower_third'' then Some LowerThird
      else if s = ''center'' then Some Center
      else if s = ''top'' then Some Top
      else None)"

fun caption_preset_as_str :: "caption_preset \<Rightarrow> string" where
  "caption_preset_as_str Clean = ''clean''"
| "caption_preset_as_str Social = ''social''"
| "caption_preset_as_str Minimal = ''minimal''"

definition caption_preset_from_str :: "string \<Rightarrow> caption_preset option" where
  "caption_preset_from_str s =
     (if s = ''clean'' then Some Clean
      else if s = ''social'' then Some Social
      else if s = ''minimal'' then Some Minimal
      else None)"

definition caption_preset_title :: "caption_preset \<Rightarrow> string \<Rightarrow> title" where
  "caption_preset_title p text =
     (case (case p of
              Clean \<Rightarrow> (0, 0, LowerThird, True)
            | Social \<Rightarrow> (2, 0, LowerThird, False)
            | Minimal \<Rightarrow> (0, 0, LowerThird, False)) of
        (sz, clr, pos, scrim) \<Rightarrow>
          \<lparr>title_text = text, font_size_token = sz, color_token = clr, title_position = pos,
           background_scrim = scrim, fade_in_frames = 0, fade_out_frames = 0,
           title_caption_preset = Some p\<rparr>)"

definition title_default :: title where
  "title_default =
     \<lparr>title_text = ''Title'', font_size_token = 1, color_token = 0, title_position = Center,
      background_scrim = True, fade_in_frames = 0, fade_out_frames = 0, title_caption_preset = None\<rparr>"

definition title_parameter_descriptor :: "string \<Rightarrow> title_parameter_kind option" where
  "title_parameter_descriptor name = map_option snd (find (\<lambda>d. fst d = name) TITLE_PARAMETER_DESCRIPTORS)"

definition title_parameter_value :: "title \<Rightarrow> string \<Rightarrow> param_value option" where
  "title_parameter_value t name =
     (if name = ''text'' then Some (Text (title_text t))
      else if name = ''font_size_token'' then Some (Integer (font_size_token t))
      else if name = ''color_token'' then Some (Integer (color_token t))
      else if name = ''position'' then Some (Text (title_position_as_str (title_position t)))
      else if name = ''caption_preset''
        then Some (Text (case title_caption_preset t of None \<Rightarrow> ''none'' | Some p \<Rightarrow> caption_preset_as_str p))
      else if name = ''background_scrim'' then Some (Boolean (background_scrim t))
      else if name = ''fade_in_frames'' then Some (Integer (fade_in_frames t))
      else if name = ''fade_out_frames'' then Some (Integer (fade_out_frames t))
      else None)"

datatype transition_axis = Horizontal | Vertical

datatype transition_shading =
    CrossfadeAlpha
  | FadeFromColor bool
  | Push transition_axis int
  | Slide transition_axis int
  | Wipe transition_axis int

definition TRANSITION_DESCRIPTORS :: "(string \<times> transition_shading) list" where
  "TRANSITION_DESCRIPTORS =
     [(''crossfade'', CrossfadeAlpha),
      (''fade_from_black'', FadeFromColor False),
      (''fade_from_white'', FadeFromColor True),
      (''push_left'', Push Horizontal (-1)),
      (''push_right'', Push Horizontal 1),
      (''push_up'', Push Vertical (-1)),
      (''push_down'', Push Vertical 1),
      (''slide_left'', Slide Horizontal (-1)),
      (''slide_right'', Slide Horizontal 1),
      (''slide_up'', Slide Vertical (-1)),
      (''slide_down'', Slide Vertical 1),
      (''wipe_left'', Wipe Horizontal (-1)),
      (''wipe_right'', Wipe Horizontal 1),
      (''wipe_up'', Wipe Vertical (-1)),
      (''wipe_down'', Wipe Vertical 1)]"

definition transition_descriptor :: "string \<Rightarrow> transition_shading option" where
  "transition_descriptor name = map_option snd (find (\<lambda>d. fst d = name) TRANSITION_DESCRIPTORS)"

section \<open>Lemmas\<close>

lemma title_position_roundtrip [simp]: "title_position_from_str (title_position_as_str p) = Some p"
  by (cases p) (simp_all add: title_position_from_str_def)

lemma caption_preset_roundtrip [simp]: "caption_preset_from_str (caption_preset_as_str p) = Some p"
  by (cases p) (simp_all add: caption_preset_from_str_def)

lemma title_descriptor_has_value:
  "(name, k) \<in> set TITLE_PARAMETER_DESCRIPTORS \<Longrightarrow> title_parameter_value t name \<noteq> None"
  by (auto simp: TITLE_PARAMETER_DESCRIPTORS_def title_parameter_value_def)

end
