(* ===== verification/Validate.thy ===== *)
theory Validate
  imports Title_Model
begin

text \<open>
  The document invariant: \<^verbatim>\<open>validate_document\<close> and everything it calls, from
  \<^verbatim>\<open>crates/kinewright-core/src/operation.rs\<close>. The checks run in the source's order and return the
  first error; \<open>each_new\<close> is a loop with a \<^verbatim>\<open>HashSet\<close> of seen keys. The lemmas turn acceptance into
  declarative well-formedness.
\<close>

section \<open>Definitions\<close>

subsection \<open>Assets\<close>

definition validate_source_fingerprint :: "asset_id \<Rightarrow> media_source_fingerprint \<Rightarrow> op_error + unit" where
  "validate_source_fingerprint asset f =
     (case (content_sha256 f, byte_len f) of
        (None, None) \<Rightarrow> Inr ()
      | (Some hash, Some len) \<Rightarrow>
          if length hash \<noteq> 64 \<or> \<not> list_all (\<lambda>c. c \<in> set ''0123456789abcdef'') hash
          then Inl (AssetError (InvalidSourceFingerprintHash asset))
          else if len = 0 then Inl (AssetError (InvalidSourceFingerprintByteLength asset))
          else Inr ()
      | _ \<Rightarrow> Inl (AssetError (SourceFingerprintIncomplete asset)))"

definition validate_color_description :: "color_description \<Rightarrow> op_error + unit" where
  "validate_color_description d =
     ensure (cd_confidence_basis_points d \<le> COLOR_CONFIDENCE_MAX_BASIS_POINTS)
       (AssetError (ColorConfidenceOutOfRange (cd_confidence_basis_points d)))"

definition validate_asset :: "media_asset \<Rightarrow> op_error + unit" where
  "validate_asset a =
     (if \<not> rational_is_valid (asset_fps a) then Inl (AssetError (InvalidAssetRate (asset_id a)))
      else if asset_duration a \<le> 0 then Inl (AssetError (InvalidAssetDuration (asset_id a)))
      else if (case asset_resolution a of Some (w, h) \<Rightarrow> w = 0 \<or> h = 0 | None \<Rightarrow> False)
      then Inl (AssetError InvalidResolution)
      else rbind (validate_source_fingerprint (asset_id a) (source_fingerprint a)) (\<lambda>_.
           rbind (validate_color_description (asset_color_description a)) (\<lambda>_.
           case assumed_from a of Some d \<Rightarrow> validate_color_description d | None \<Rightarrow> Inr ())))"

definition validate_freeze_source_frame :: "media_asset \<Rightarrow> timecode \<Rightarrow> op_error + unit" where
  "validate_freeze_source_frame a frame =
     ensure (\<not> (frame < 0 \<or> asset_duration a \<le> frame))
       (ClipError (FreezeSourceFrameOutOfRange (asset_id a) frame (asset_duration a)))"

subsection \<open>Effects\<close>

definition validate_described_effect_parameter ::
    "effect_descriptor \<Rightarrow> string \<Rightarrow> param_value \<Rightarrow> op_error + unit" where
  "validate_described_effect_parameter d name v =
     (case descriptor_parameter d name of
        None \<Rightarrow> Inl (EffectError (UnknownEffectParam (descriptor_name d) name))
      | Some p \<Rightarrow>
          (case v of
             Integer actual \<Rightarrow>
               if param_min p \<le> actual \<and> actual \<le> param_max p then Inr ()
               else Inl (EffectError (EffectParamOutOfRange (descriptor_name d) name (param_min p)
                      (param_max p) actual))
           | _ \<Rightarrow> Inl (EffectError (InvalidEffectParamType (descriptor_name d) name))))"

definition validate_effect_parameter :: "string \<Rightarrow> string \<Rightarrow> param_value \<Rightarrow> op_error + unit" where
  "validate_effect_parameter effect name v =
     (if effect = ''cube_lut'' \<and> name = ''path''
      then (case v of Text path \<Rightarrow> ensure (\<not> is_blank path) (EffectError MissingCubeLutPath)
            | _ \<Rightarrow> Inl (EffectError MissingCubeLutPath))
      else case effect_descriptor effect of
             None \<Rightarrow> Inl (EffectError (UnknownEffect effect))
           | Some d \<Rightarrow> validate_described_effect_parameter d name v)"

definition validate_effect :: "effect \<Rightarrow> op_error + unit" where
  "validate_effect e =
     (case effect_descriptor (effect_name e) of
        None \<Rightarrow> Inl (EffectError (UnknownEffect (effect_name e)))
      | Some d \<Rightarrow>
          if effect_name e = ''cube_lut'' \<and>
             \<not> (case bt_get ''path'' (parameters e) of Some (Text p) \<Rightarrow> \<not> is_blank p | _ \<Rightarrow> False)
          then Inl (EffectError MissingCubeLutPath)
          else rbind (for_each (\<lambda>(name, v).
                 if effect_name e = ''cube_lut'' \<and> name = ''path'' then Inr ()
                 else validate_described_effect_parameter d name v) (parameters e)) (\<lambda>_.
               for_each (\<lambda>name. ensure (descriptor_parameter d name \<noteq> None)
                   (EffectError (UnknownEffectParam (effect_name e) name)))
                 (bt_keys (effect_keyframes e))))"

definition validate_gate_curve :: "string \<Rightarrow> automation_curve \<Rightarrow> op_error + unit" where
  "validate_gate_curve owner c =
     rbind (map_err (\<lambda>err. EffectError (InvalidEffectAutomation owner ''enabled'' (CurveReason err)))
              (curve_validate_ordered c)) (\<lambda>_.
     for_each (\<lambda>k. ensure (0 \<le> key_value k \<and> key_value k \<le> 1)
         (EffectError (EffectParamOutOfRange owner ''enabled'' 0 1 (key_value k)))) (keyframes c))"

definition validate_enabled_curve :: "string \<Rightarrow> automation_curve \<Rightarrow> op_error + unit" where
  "validate_enabled_curve effect c = validate_gate_curve effect c"

definition validate_clip_enabled_curve :: "clip_id \<Rightarrow> automation_curve \<Rightarrow> op_error + unit" where
  "validate_clip_enabled_curve clip c = validate_gate_curve (''clip '' @ decimal_nat (nat clip)) c"

definition validate_curve ::
    "clip_id \<Rightarrow> timecode \<Rightarrow> effect_id \<Rightarrow> string \<Rightarrow> string \<Rightarrow> automation_curve \<Rightarrow> op_error + unit" where
  "validate_curve clip clip_dur eid ename name c =
     (let audio_owner = is_audio_effect ename
      in rbind (map_err (\<lambda>err. EffectError (InvalidEffectAutomation ename name (CurveReason err)))
                  (if audio_owner then curve_validate c else curve_validate_ordered c)) (\<lambda>_.
         rbind (if is_hold_only_parameter ename name
                then for_each (\<lambda>k. ensure (key_interpolation k = Hold)
                       (EffectError (NonHoldKeyframeParameter ename name))) (keyframes c)
                else Inr ()) (\<lambda>_.
         for_each (\<lambda>k.
             if audio_owner \<and> clip_dur \<le> key_at k
             then Inl (EffectError (EffectKeyframeOutsideClip clip eid name (key_at k) clip_dur))
             else case effect_descriptor ename of
                    None \<Rightarrow> Inl (EffectError (UnknownEffect ename))
                  | Some d \<Rightarrow> validate_described_effect_parameter d name (Integer (key_value k)))
           (keyframes c))))"

definition validate_curve_keyframe_policy ::
    "string \<Rightarrow> (string, automation_curve) btree \<Rightarrow> op_error + unit" where
  "validate_curve_keyframe_policy ename kfs =
     (if from_effect_name ename \<noteq> Some Curves then Inr ()
      else for_each (\<lambda>channel.
        if (case bt_get (point_count_parameter channel) kfs of
              Some a \<Rightarrow> 1 < length (keyframes a) | None \<Rightarrow> False)
           \<and> list_ex (\<lambda>name. case bt_get name kfs of Some a \<Rightarrow> keyframes a \<noteq> [] | None \<Rightarrow> False)
               (drop 1 (curve_parameter_names channel))
        then Inl (EffectError (CurvePointCountAnimatedWithPoints ename (curve_channel_name channel)))
        else Inr ()) color_curve_channels)"

definition validate_effect_automation :: "clip_id \<Rightarrow> timecode \<Rightarrow> effect \<Rightarrow> op_error + unit" where
  "validate_effect_automation clip clip_dur e =
     rbind (ok_or (EffectError (UnknownEffect (effect_name e))) (effect_descriptor (effect_name e))) (\<lambda>d.
     rbind (for_each (\<lambda>(name, c).
         rbind (ok_or (EffectError (UnknownEffectParam (effect_name e) name)) (descriptor_parameter d name)) (\<lambda>_.
         validate_curve clip clip_dur (effect_id e) (effect_name e) name c)) (effect_keyframes e)) (\<lambda>_.
     rbind (case effect_enabled_curve e of
              Some c \<Rightarrow> validate_enabled_curve (effect_name e) c | None \<Rightarrow> Inr ()) (\<lambda>_.
     validate_curve_keyframe_policy (effect_name e) (effect_keyframes e))))"

definition validate_color_curve_points :: "effect \<Rightarrow> op_error + unit" where
  "validate_color_curve_points e =
     (case color_curve_order_violation_of e of
        Some v \<Rightarrow> Inl (EffectError (InvalidCurvePoints (effect_name e)
                    (curve_channel_name (curve_violation_curve v)) (curve_violation_index v)
                    (curve_violation_previous_x v) (curve_violation_x v)))
      | None \<Rightarrow> Inr ())"

definition stage_order_error :: "clip_id \<Rightarrow> color_stage_order_violation \<Rightarrow> op_error" where
  "stage_order_error clip v =
     EffectError (ColorStageOrderViolation_Error clip (violation_effect v)
       (color_node_effect_name (violation_kind v)) (color_stage_rank (color_node_stage (violation_kind v)))
       (previous_effect v) (color_node_effect_name (previous_kind v))
       (color_stage_rank (color_node_stage (previous_kind v))))"

definition validate_lut_node_references :: "document \<Rightarrow> clip_id \<Rightarrow> effect \<Rightarrow> op_error + unit" where
  "validate_lut_node_references doc clip e =
     (if \<not> is_lut_color_node (effect_name e) then Inr ()
      else
        let referenced = (\<lambda>v.
              let lut = (if in_u64 v then v else 0)
              in ensure (lut \<noteq> 0 \<and> doc_lut_asset doc lut \<noteq> None)
                   (AssetError (MissingLutAsset clip (effect_id e) lut)));
            stored = node_lut_asset_id (lut_node_params_from_effect e)
        in rbind (referenced (if in_i64 stored then stored else 0)) (\<lambda>_.
           case bt_get LUT_ASSET_ID_PARAMETER (effect_keyframes e) of
             Some c \<Rightarrow> for_each (\<lambda>k. referenced (key_value k)) (keyframes c)
           | None \<Rightarrow> Inr ()))"

subsection \<open>Clips\<close>

definition CLIP_SPEED_MIN_PERCENT :: int where "CLIP_SPEED_MIN_PERCENT = 10"
definition CLIP_SPEED_MAX_PERCENT :: int where "CLIP_SPEED_MAX_PERCENT = 1000"

definition validate_clip_speed :: "int \<Rightarrow> op_error + unit" where
  "validate_clip_speed s =
     ensure (CLIP_SPEED_MIN_PERCENT \<le> s \<and> s \<le> CLIP_SPEED_MAX_PERCENT) (ClipError (ClipSpeedOutOfRange s))"

definition validate_transition :: "document \<Rightarrow> clip \<Rightarrow> transition \<Rightarrow> op_error + unit" where
  "validate_transition doc c t =
     (case transition_descriptor (transition_name t) of
        None \<Rightarrow> Inl (ClipError (UnknownTransition (transition_name t)))
      | Some shading \<Rightarrow>
          if content c = Adjustment \<and> (case shading of FadeFromColor _ \<Rightarrow> True | _ \<Rightarrow> False)
          then Inl (ClipError (TransitionUnsupportedOnAdjustment (clip_id c) (transition_name t)))
          else if transition_duration t \<le> 0
          then Inl (ClipError (InvalidTransitionDuration (clip_id c) (transition_duration t)))
          else rbind (clip_duration doc c) (\<lambda>d.
               ensure (transition_duration t \<le> d)
                 (ClipError (TransitionTooLong (clip_id c) (transition_duration t) d))))"

definition validate_clip_gain_curve :: "clip_id \<Rightarrow> automation_curve \<Rightarrow> timecode \<Rightarrow> op_error + unit" where
  "validate_clip_gain_curve clip c clip_dur =
     rbind (map_err (\<lambda>err. ClipError (InvalidClipGainEnvelope clip err)) (curve_validate c)) (\<lambda>_.
     for_each (\<lambda>k.
       if \<not> (CLIP_GAIN_MIN \<le> key_value k \<and> key_value k \<le> CLIP_GAIN_MAX)
       then Inl (ClipError (ClipGainEnvelopeOutOfRange clip (key_value k)))
       else if clip_dur \<le> key_at k
       then Inl (ClipError (ClipGainEnvelopeKeyframeOutsideClip clip (key_at k) clip_dur))
       else Inr ()) (keyframes c))"

definition validate_clip_audio_values ::
    "clip_id \<Rightarrow> int \<Rightarrow> timecode \<Rightarrow> timecode \<Rightarrow> timecode \<Rightarrow> op_error + unit" where
  "validate_clip_audio_values clip gain fade_in fade_out clip_dur =
     (if \<not> (CLIP_GAIN_MIN \<le> gain \<and> gain \<le> CLIP_GAIN_MAX)
      then Inl (ClipError (AudioGainOutOfRange clip gain))
      else rbind (for_each (\<lambda>(name, frames).
                    ensure (0 \<le> frames) (ClipError (NegativeAudioFade clip name frames)))
                    [(''fade-in'', fade_in), (''fade-out'', fade_out)]) (\<lambda>_.
           rbind (ok_or TimeOverflow (timecode_checked_add fade_in fade_out)) (\<lambda>total.
           ensure (total \<le> clip_dur)
             (ClipError (AudioFadesTooLong clip fade_in fade_out total clip_dur)))))"

text \<open>The refusal of audio settings on a clip that has no audio; \<open>None\<close> on media.\<close>

fun no_audio_error :: "clip_id \<Rightarrow> clip_content \<Rightarrow> op_error option" where
  "no_audio_error clip (Title_Content _) = Some (ClipError (TitleClipHasNoAudio clip))"
| "no_audio_error clip (Freeze _) = Some (ClipError (FreezeClipHasNoAudio clip))"
| "no_audio_error clip Adjustment = Some (ClipError (AdjustmentClipHasNoAudio clip))"
| "no_audio_error clip (Solid _) = Some (ClipError (SolidClipHasNoAudio clip))"
| "no_audio_error clip Media = None"

definition validate_clip_audio :: "document \<Rightarrow> clip \<Rightarrow> op_error + unit" where
  "validate_clip_audio doc c =
     (if \<not> is_media (content c) \<and>
         (audio_gain_tenth_db c \<noteq> 0 \<or> audio_fade_in_frames c \<noteq> 0 \<or> audio_fade_out_frames c \<noteq> 0
          \<or> audio_gain_curve c \<noteq> None)
      then (case no_audio_error (clip_id c) (content c) of Some e \<Rightarrow> Inl e | None \<Rightarrow> Inr ())
      else rbind (clip_duration doc c) (\<lambda>d.
           rbind (case audio_gain_curve c of
                    Some curve \<Rightarrow> validate_clip_gain_curve (clip_id c) curve d | None \<Rightarrow> Inr ()) (\<lambda>_.
           validate_clip_audio_values (clip_id c) (audio_gain_tenth_db c) (audio_fade_in_frames c)
             (audio_fade_out_frames c) d)))"

definition validate_marker :: "marker \<Rightarrow> op_error + unit" where
  "validate_marker m =
     (if marker_position m < 0 then Inl (ClipError (NegativeMarkerPosition (marker_position m)))
      else if MARKER_COLOR_TOKEN_COUNT \<le> marker_color_token m
      then Inl (ClipError (InvalidMarkerColor (marker_color_token m) MARKER_COLOR_TOKEN_COUNT))
      else Inr ())"

definition validate_title_parameter :: "string \<Rightarrow> param_value \<Rightarrow> op_error + unit" where
  "validate_title_parameter name v =
     rbind (ok_or (ClipError (UnknownTitleParam name)) (title_parameter_descriptor name)) (\<lambda>kind.
     case (kind, v) of
       (TitleText maximum, Text t) \<Rightarrow> ensure (length (utf8_chars t) \<le> maximum) (ClipError (TitleTextTooLong maximum))
     | (TitleInteger lo hi, Integer actual) \<Rightarrow>
         ensure (lo \<le> actual \<and> actual \<le> hi) (ClipError (TitleParamOutOfRange name lo hi actual))
     | (TitleBoolean, Boolean _) \<Rightarrow> Inr ()
     | (TitlePositionKind, Text p) \<Rightarrow>
         ensure (title_position_from_str p \<noteq> None) (ClipError (InvalidTitleParamType name))
     | (TitleCaptionPreset, Text p) \<Rightarrow>
         ensure (p = ''none'' \<or> caption_preset_from_str p \<noteq> None) (ClipError (InvalidTitleParamType name))
     | _ \<Rightarrow> Inl (ClipError (InvalidTitleParamType name)))"

definition validate_title :: "clip_id \<Rightarrow> title \<Rightarrow> timecode \<Rightarrow> op_error + unit" where
  "validate_title clip t duration =
     rbind (for_each (\<lambda>(name, kind).
              case title_parameter_value t name of
                Some v \<Rightarrow> validate_title_parameter name v
              | None \<Rightarrow> Inr ()) TITLE_PARAMETER_DESCRIPTORS) (\<lambda>_.
     rbind (case title_caption_preset t of
              None \<Rightarrow> Inr ()
            | Some preset \<Rightarrow>
                let resolved = caption_preset_title preset []
                in ensure (font_size_token t = font_size_token resolved
                           \<and> color_token t = color_token resolved
                           \<and> title_position t = title_position resolved
                           \<and> background_scrim t = background_scrim resolved)
                     (ClipError (CaptionPresetMismatch clip preset))) (\<lambda>_.
     for_each (\<lambda>(name, frames). ensure (frames \<le> duration) (ClipError (TitleFadeTooLong clip name frames duration)))
       [(''fade_in_frames'', fade_in_frames t), (''fade_out_frames'', fade_out_frames t)]))"

definition validate_title_range :: "trange \<Rightarrow> op_error + unit" where
  "validate_title_range r =
     ensure (\<not> (r_start r < 0 \<or> r_end r \<le> r_start r)) (TimelineError (InvalidSourceRange (r_start r) (r_end r)))"

definition validate_source_range :: "media_asset \<Rightarrow> trange \<Rightarrow> op_error + unit" where
  "validate_source_range a r =
     (if r_start r < 0 \<or> r_end r \<le> r_start r
      then Inl (TimelineError (InvalidSourceRange (r_start r) (r_end r)))
      else if asset_duration a < r_end r
      then Inl (TimelineError (SourceOutOfBounds (asset_id a) (r_end r) (asset_duration a)))
      else Inr ())"

definition validate_track_compatibility :: "media_asset \<Rightarrow> track \<Rightarrow> op_error + unit" where
  "validate_track_compatibility a t =
     ensure (media_kind_supports (asset_kind a) (track_kind t))
       (TimelineError (IncompatibleTrack (asset_id a) (track_kind t) (track_id t)))"

text \<open>The body of the clip loop of \<^verbatim>\<open>validate_document\<close>, without the checks that look at
  other clips: content, duration, effects, transition, audio.\<close>

definition validate_clip_content :: "document \<Rightarrow> track \<Rightarrow> clip \<Rightarrow> op_error + unit" where
  "validate_clip_content doc tr c =
     (case content c of
        Media \<Rightarrow>
          rbind (ok_or (TimelineError (MissingAsset (clip_asset c))) (doc_asset doc (clip_asset c))) (\<lambda>a.
          rbind (validate_track_compatibility a tr) (\<lambda>_.
          rbind (validate_source_range a (source_range c)) (\<lambda>_.
          validate_clip_speed (speed_percent c))))
      | Title_Content t \<Rightarrow>
          if track_kind tr \<noteq> TrackVideo then Inl (TimelineError (TitleOnAudioTrack (track_id tr)))
          else rbind (validate_title_range (source_range c)) (\<lambda>_.
               rbind (clip_duration doc c) (\<lambda>d. validate_title (clip_id c) t d))
      | Freeze frame \<Rightarrow>
          if track_kind tr \<noteq> TrackVideo then Inl (TimelineError (FreezeOnAudioTrack (track_id tr)))
          else rbind (ok_or (TimelineError (MissingAsset (clip_asset c))) (doc_asset doc (clip_asset c))) (\<lambda>a.
               rbind (validate_track_compatibility a tr) (\<lambda>_.
               rbind (validate_freeze_source_frame a frame) (\<lambda>_.
               validate_title_range (source_range c))))
      | Adjustment \<Rightarrow>
          if track_kind tr \<noteq> TrackVideo then Inl (TimelineError (AdjustmentOnAudioTrack (track_id tr)))
          else validate_title_range (source_range c)
      | Solid _ \<Rightarrow>
          if track_kind tr \<noteq> TrackVideo then Inl (TimelineError (SolidOnAudioTrack (track_id tr)))
          else validate_title_range (source_range c))"

definition validate_clip_effect :: "document \<Rightarrow> clip \<Rightarrow> timecode \<Rightarrow> effect \<Rightarrow> op_error + unit" where
  "validate_clip_effect doc c d e =
     (if is_audio_effect (effect_name e)
      then Inl (AudioError (AudioEffectOnClip (clip_id c) (effect_name e)))
      else if content c = Adjustment \<and> effect_name e = ''chroma_key''
      then Inl (EffectError (EffectUnsupportedOnAdjustment (clip_id c) (effect_name e)))
      else rbind (validate_effect e) (\<lambda>_.
           rbind (validate_lut_node_references doc (clip_id c) e) (\<lambda>_.
           rbind (validate_color_curve_points e) (\<lambda>_.
           validate_effect_automation (clip_id c) d e))))"

definition validate_clip_body :: "document \<Rightarrow> track \<Rightarrow> clip \<Rightarrow> op_error + timecode" where
  "validate_clip_body doc tr c =
     (if timeline_start c < 0 then Inl (TimelineError (NegativeTimelinePosition (timeline_start c)))
      else rbind (validate_clip_content doc tr c) (\<lambda>_.
      if \<not> is_media (content c) \<and> speed_percent c \<noteq> 100
      then Inl (ClipError (SpeedOnNonMediaClip (clip_id c)))
      else rbind (clip_duration doc c) (\<lambda>d.
      if d \<le> 0 then Inl (TimelineError (ZeroProjectDuration (clip_id c)))
      else rbind (ok_or TimeOverflow (timecode_checked_add (timeline_start c) d)) (\<lambda>end.
      rbind (each_new effect_id (\<lambda>e. EffectError (DuplicateEffect (clip_id c) (effect_id e)))
               (validate_clip_effect doc c d) [] (effects c)) (\<lambda>_.
      if COLOR_NODE_LIMIT_PER_LAYER < managed_color_node_count (effects c)
      then Inl (EffectError (TooManyColorNodes (clip_id c) COLOR_NODE_LIMIT_PER_LAYER
                  (managed_color_node_count (effects c))))
      else if LUT_NODE_LIMIT_PER_LAYER < lut_node_count (effects c)
      then Inl (EffectError (TooManyLutNodes (clip_id c) LUT_NODE_LIMIT_PER_LAYER (lut_node_count (effects c))))
      else rbind (case color_stage_order_violation_of (effects c) of
                    Some v \<Rightarrow> Inl (stage_order_error (clip_id c) v) | None \<Rightarrow> Inr ()) (\<lambda>_.
      rbind (case transition_in c of Some t \<Rightarrow> validate_transition doc c t | None \<Rightarrow> Inr ()) (\<lambda>_.
      rbind (validate_clip_audio doc c) (\<lambda>_.
      rbind (case clip_enabled_curve c of
               Some curve \<Rightarrow> validate_clip_enabled_curve (clip_id c) curve | None \<Rightarrow> Inr ()) (\<lambda>_.
      Inr end)))))))))"

text \<open>The clip loop of one track, threading the clip ids seen in the whole document, the previous
  clip with its end, and the expected duration.\<close>

fun validate_clips ::
    "document \<Rightarrow> track \<Rightarrow> clip list \<Rightarrow> (clip \<times> timecode) option \<Rightarrow> clip_id list \<times> timecode
      \<Rightarrow> op_error + (clip_id list \<times> timecode)" where
  "validate_clips doc tr [] previous (seen, expected) = Inr (seen, expected)"
| "validate_clips doc tr (c # cs) previous (seen, expected) =
     (if clip_id c \<in> set seen then Inl (TimelineError (DuplicateClip (clip_id c)))
      else rbind (validate_clip_body doc tr c) (\<lambda>end.
      rbind (case previous of
               None \<Rightarrow> Inr ()
             | Some (p, p_end) \<Rightarrow>
                 if timeline_start c < timeline_start p
                 then Inl (TimelineError (ClipsUnsorted (track_id tr) (clip_id p) (clip_id c)))
                 else if timeline_start c < p_end
                 then Inl (TimelineError (ClipOverlap (track_id tr) (clip_id p) (clip_id c)))
                 else Inr ()) (\<lambda>_.
      validate_clips doc tr cs (Some (c, end)) (clip_id c # seen, max expected end))))"

fun validate_tracks ::
    "document \<Rightarrow> track list \<Rightarrow> track_id list \<Rightarrow> clip_id list \<times> timecode
      \<Rightarrow> op_error + (clip_id list \<times> timecode)" where
  "validate_tracks doc [] tids st = Inr st"
| "validate_tracks doc (tr # trs) tids st =
     (if track_id tr \<in> set tids then Inl (TimelineError (DuplicateTrack (track_id tr)))
      else rbind (validate_clips doc tr (clips tr) None st) (\<lambda>st'.
           validate_tracks doc trs (track_id tr # tids) st'))"

subsection \<open>The mix\<close>

definition project_frame_in_range :: "timecode \<Rightarrow> timecode \<Rightarrow> bool" where
  "project_frame_in_range t duration \<longleftrightarrow> t < duration \<or> (duration \<le> 0 \<and> t = 0)"

definition validate_track_mix_values :: "track_mix \<Rightarrow> op_error + unit" where
  "validate_track_mix_values e =
     (if \<not> (TRACK_MIX_GAIN_MIN \<le> mix_gain_tenth_db e \<and> mix_gain_tenth_db e \<le> TRACK_MIX_GAIN_MAX)
      then Inl (AudioError (TrackMixGainOutOfRange (mix_track e) (mix_gain_tenth_db e)))
      else if \<not> (TRACK_MIX_PAN_MIN \<le> mix_pan_percent e \<and> mix_pan_percent e \<le> TRACK_MIX_PAN_MAX)
      then Inl (AudioError (TrackMixPanOutOfRange (mix_track e) (mix_pan_percent e)))
      else Inr ())"

definition validate_track_mix_automation :: "track_mix \<Rightarrow> timecode \<Rightarrow> op_error + unit" where
  "validate_track_mix_automation e duration =
     for_each (\<lambda>(parameter, curve, lo, hi).
       case curve of
         None \<Rightarrow> Inr ()
       | Some c \<Rightarrow>
           rbind (map_err (\<lambda>err. AudioError (InvalidTrackAutomation (mix_track e) parameter err))
                    (curve_validate c)) (\<lambda>_.
           for_each (\<lambda>k.
             if \<not> (lo \<le> key_value k \<and> key_value k \<le> hi)
             then Inl (AudioError (TrackAutomationOutOfRange (mix_track e) parameter (key_value k)))
             else if \<not> project_frame_in_range (key_at k) duration
             then Inl (AudioError (TrackAutomationKeyframeOutsideProject (mix_track e) parameter
                        (key_at k) duration))
             else Inr ()) (keyframes c)))
       [(TRACK_AUTOMATION_PARAMETERS ! 0, mix_gain_curve e, TRACK_MIX_GAIN_MIN, TRACK_MIX_GAIN_MAX),
        (TRACK_AUTOMATION_PARAMETERS ! 1, mix_pan_curve e, TRACK_MIX_PAN_MIN, TRACK_MIX_PAN_MAX)]"

definition track_exists :: "document \<Rightarrow> track_id \<Rightarrow> bool" where
  "track_exists doc t = list_ex (\<lambda>tr. track_id tr = t) (tracks doc)"

fun validate_track_mix_loop :: "document \<Rightarrow> track_id option \<Rightarrow> track_mix list \<Rightarrow> op_error + unit" where
  "validate_track_mix_loop doc previous [] = Inr ()"
| "validate_track_mix_loop doc previous (e # es) =
     rbind (case previous of
              None \<Rightarrow> Inr ()
            | Some p \<Rightarrow>
                if mix_track e = p then Inl (AudioError (DuplicateTrackMix (mix_track e)))
                else if mix_track e < p then Inl (AudioError TrackMixUnsorted)
                else Inr ()) (\<lambda>_.
     if \<not> track_exists doc (mix_track e) then Inl (TimelineError (MissingTrack (mix_track e)))
     else rbind (validate_track_mix_values e) (\<lambda>_.
     rbind (validate_track_mix_automation e (doc_duration doc)) (\<lambda>_.
     validate_track_mix_loop doc (Some (mix_track e)) es)))"

definition validate_track_mix :: "document \<Rightarrow> op_error + unit" where
  "validate_track_mix doc = validate_track_mix_loop doc None (track_mixes (audio_mix doc))"

datatype fader_curve_error = FaderStructure automation_curve_error | FaderRange int | FaderOutside timecode timecode

definition validate_audio_fader_curve ::
    "automation_curve \<Rightarrow> timecode \<Rightarrow> int \<Rightarrow> int \<Rightarrow> fader_curve_error + unit" where
  "validate_audio_fader_curve c duration lo hi =
     rbind (map_err FaderStructure (curve_validate c)) (\<lambda>_.
     for_each (\<lambda>k.
       if \<not> (lo \<le> key_value k \<and> key_value k \<le> hi) then Inl (FaderRange (key_value k))
       else if \<not> project_frame_in_range (key_at k) duration then Inl (FaderOutside (key_at k) duration)
       else Inr ()) (keyframes c))"

definition to_i32 :: "int \<Rightarrow> int" where
  "to_i32 v = (if in_i32 v then v else i32_max)"

definition validate_audio_chain_automation :: "timecode \<Rightarrow> audio_chain \<Rightarrow> effect \<Rightarrow> op_error + unit" where
  "validate_audio_chain_automation duration chain e =
     for_each (\<lambda>(name, c).
       if is_static_audio_parameter (effect_name e) name
       then Inl (EffectError (InvalidEffectAutomation (effect_name e) name (TextReason
              (if name = AUDIO_LOOKAHEAD_PARAMETER then ''sets processing latency and cannot be keyframed''
               else ''is read when the chain is built or retuned and cannot be keyframed''))))
       else rbind (map_err (\<lambda>err. EffectError (InvalidEffectAutomation (effect_name e) name (CurveReason err)))
                     (curve_validate c)) (\<lambda>_.
       if is_hold_only_parameter (effect_name e) name \<and> list_ex (\<lambda>k. key_interpolation k \<noteq> Hold) (keyframes c)
       then Inl (EffectError (NonHoldKeyframeParameter (effect_name e) name))
       else for_each (\<lambda>k.
         if \<not> project_frame_in_range (key_at k) duration
         then Inl (AudioError (case chain of
                ChainBus bus \<Rightarrow> AudioBusKeyframeOutsideProject bus (effect_id e) name (key_at k) duration
              | ChainMaster \<Rightarrow> AudioMasterKeyframeOutsideProject (effect_id e) name (key_at k) duration))
         else case effect_descriptor (effect_name e) of
                None \<Rightarrow> Inl (EffectError (UnknownEffect (effect_name e)))
              | Some d \<Rightarrow> validate_described_effect_parameter d name (Integer (key_value k)))
         (keyframes c))) (effect_keyframes e)"

definition validate_audio_master :: "document \<Rightarrow> audio_master \<Rightarrow> op_error + unit" where
  "validate_audio_master doc m =
     (if \<not> (AUDIO_MASTER_GAIN_MIN \<le> master_gain_tenth_db m \<and> master_gain_tenth_db m \<le> AUDIO_MASTER_GAIN_MAX)
      then Inl (AudioError (AudioMasterGainOutOfRange (master_gain_tenth_db m)))
      else rbind (case master_gain_curve m of
               None \<Rightarrow> Inr ()
             | Some c \<Rightarrow> map_err (\<lambda>err. case err of
                   FaderStructure r \<Rightarrow>
                     EffectError (InvalidEffectAutomation ''audio_master'' ''gain_tenth_db'' (CurveReason r))
                 | FaderRange v \<Rightarrow> AudioError (AudioMasterGainOutOfRange (to_i32 v))
                 | FaderOutside t d \<Rightarrow> AudioError (AudioMasterGainKeyframeOutsideProject t d))
                 (validate_audio_fader_curve c (doc_duration doc) AUDIO_MASTER_GAIN_MIN AUDIO_MASTER_GAIN_MAX)) (\<lambda>_.
      rbind (each_new effect_id (\<lambda>e. AudioError (DuplicateAudioMasterEffect (effect_id e)))
               (\<lambda>e. if \<not> is_audio_effect (effect_name e)
                    then Inl (AudioError (VisualEffectOnAudioMaster (effect_name e)))
                    else if \<not> effect_enabled e \<or> effect_enabled_curve e \<noteq> None
                    then Inl (AudioError (DisabledEffectOnAudioChain ChainMaster (effect_id e)))
                    else rbind (validate_effect e) (\<lambda>_.
                         if effect_name e = ''audio_ducking'' then Inl (AudioError AudioMasterDuckingUnsupported)
                         else validate_audio_chain_automation (doc_duration doc) ChainMaster e))
               [] (master_effects m)) (\<lambda>_.
      ensure (chain_lookahead_milliseconds (master_effects m) \<le> CHAIN_LOOKAHEAD_MILLISECONDS)
        (AudioError (AudioMasterLookaheadExceeded (chain_lookahead_milliseconds (master_effects m)))))))"

definition validate_audio_bus :: "document \<Rightarrow> audio_bus \<Rightarrow> op_error + unit" where
  "validate_audio_bus doc b =
     (if is_blank (bus_name b) \<or> bus_tracks b = [] then Inl (AudioError (InvalidAudioBus (bus_id b)))
      else if \<not> (AUDIO_BUS_GAIN_MIN \<le> bus_gain_tenth_db b \<and> bus_gain_tenth_db b \<le> AUDIO_BUS_GAIN_MAX)
      then Inl (AudioError (AudioBusGainOutOfRange (bus_id b) (bus_gain_tenth_db b)))
      else rbind (case bus_gain_curve b of
               None \<Rightarrow> Inr ()
             | Some c \<Rightarrow> map_err (\<lambda>err. case err of
                   FaderStructure r \<Rightarrow>
                     EffectError (InvalidEffectAutomation ''audio_bus'' ''gain_tenth_db'' (CurveReason r))
                 | FaderRange v \<Rightarrow> AudioError (AudioBusGainOutOfRange (bus_id b) (to_i32 v))
                 | FaderOutside t d \<Rightarrow> AudioError (AudioBusGainKeyframeOutsideProject (bus_id b) t d))
                 (validate_audio_fader_curve c (doc_duration doc) AUDIO_BUS_GAIN_MIN AUDIO_BUS_GAIN_MAX)) (\<lambda>_.
      rbind (each_new id (\<lambda>t. AudioError (TrackInMultipleAudioBuses t (bus_id b) (bus_id b)))
               (\<lambda>t. ensure (track_exists doc t) (AudioError (AudioBusMissingTrack (bus_id b) t)))
               [] (bus_tracks b)) (\<lambda>_.
      rbind (each_new id (\<lambda>t. AudioError (AudioBusMissingTrack (bus_id b) t))
               (\<lambda>t. ensure (track_exists doc t) (AudioError (AudioBusMissingTrack (bus_id b) t)))
               [] (ducking_sidechain_tracks b)) (\<lambda>_.
      rbind (each_new effect_id (\<lambda>e. AudioError (DuplicateAudioBusEffect (bus_id b) (effect_id e)))
               (\<lambda>e. if \<not> is_audio_effect (effect_name e)
                    then Inl (AudioError (VisualEffectOnAudioBus (bus_id b) (effect_name e)))
                    else if \<not> effect_enabled e \<or> effect_enabled_curve e \<noteq> None
                    then Inl (AudioError (DisabledEffectOnAudioChain (ChainBus (bus_id b)) (effect_id e)))
                    else rbind (validate_effect e) (\<lambda>_.
                         if effect_name e = ''audio_ducking'' \<and> ducking_sidechain_tracks b = []
                         then Inl (AudioError (AudioBusDuckingWithoutSidechain (bus_id b)))
                         else validate_audio_chain_automation (doc_duration doc) (ChainBus (bus_id b)) e))
               [] (bus_effects b)) (\<lambda>_.
      ensure (chain_lookahead_milliseconds (bus_effects b) \<le> CHAIN_LOOKAHEAD_MILLISECONDS)
        (AudioError (AudioBusLookaheadExceeded (bus_id b) (chain_lookahead_milliseconds (bus_effects b)))))))))"

text \<open>The routing map of \<^verbatim>\<open>validate_audio_mix\<close>: each track belongs to at most one bus.\<close>

fun claim_all :: "'k list \<Rightarrow> 'b \<Rightarrow> ('k \<Rightarrow> 'b \<Rightarrow> 'b \<Rightarrow> 'e) \<Rightarrow> ('k \<times> 'b) list \<Rightarrow> 'e + ('k \<times> 'b) list" where
  "claim_all [] owner err claimed = Inr claimed"
| "claim_all (k # ks) owner err claimed =
     (case map_of claimed k of
        Some first \<Rightarrow> Inl (err k first owner)
      | None \<Rightarrow> claim_all ks owner err ((k, owner) # claimed))"

fun validate_buses ::
    "document \<Rightarrow> audio_bus_id list \<Rightarrow> (track_id \<times> audio_bus_id) list \<Rightarrow> audio_bus list \<Rightarrow> op_error + unit" where
  "validate_buses doc seen routed [] = Inr ()"
| "validate_buses doc seen routed (b # bs) =
     (if bus_id b \<in> set seen then Inl (AudioError (DuplicateAudioBus (bus_id b)))
      else rbind (validate_audio_bus doc b) (\<lambda>_.
           rbind (claim_all (bus_tracks b) (bus_id b)
                    (\<lambda>t first second. AudioError (TrackInMultipleAudioBuses t first second)) routed) (\<lambda>routed'.
           validate_buses doc (bus_id b # seen) routed' bs)))"

definition validate_audio_mix :: "document \<Rightarrow> op_error + unit" where
  "validate_audio_mix doc =
     rbind (validate_buses doc [] [] (buses (audio_mix doc))) (\<lambda>_.
     validate_audio_master doc (master (audio_mix doc)))"

subsection \<open>The catalog\<close>

text \<open>The assets of one bin: present, not repeated, not in an earlier bin.\<close>

fun validate_bin_assets ::
    "document \<Rightarrow> bin_id \<Rightarrow> asset_id list \<Rightarrow> (asset_id \<times> bin_id) list \<Rightarrow> asset_id list
      \<Rightarrow> op_error + (asset_id \<times> bin_id) list" where
  "validate_bin_assets doc bin seen owned [] = Inr owned"
| "validate_bin_assets doc bin seen owned (a # as) =
     (if doc_asset doc a = None then Inl (TimelineError (MissingAsset a))
      else if a \<in> set seen then Inl (CatalogError (DuplicateBinAsset bin a))
      else case map_of owned a of
             Some first \<Rightarrow> Inl (CatalogError (AssetInMultipleBins a first bin))
           | None \<Rightarrow> validate_bin_assets doc bin (a # seen) ((a, bin) # owned) as)"

fun validate_bins :: "document \<Rightarrow> bin_id list \<Rightarrow> (asset_id \<times> bin_id) list \<Rightarrow> media_bin list \<Rightarrow> op_error + unit" where
  "validate_bins doc seen owned [] = Inr ()"
| "validate_bins doc seen owned (b # bs) =
     (if bin_id b \<in> set seen then Inl (CatalogError (DuplicateBin (bin_id b)))
      else if is_blank (bin_name b) then Inl (CatalogError (EmptyBinName (bin_id b)))
      else if bin_parent b = Some (bin_id b) then Inl (CatalogError (BinSelfParent (bin_id b)))
      else rbind (validate_bin_assets doc (bin_id b) [] owned (bin_assets b)) (\<lambda>owned'.
           validate_bins doc (bin_id b # seen) owned' bs))"

text \<open>The parent walk \<^verbatim>\<open>while let Some(id) = cursor\<close>.\<close>

function walk_parents :: "media_bin list \<Rightarrow> bin_id list \<Rightarrow> bin_id \<Rightarrow> op_error + unit" where
  "walk_parents bs seen i =
     (if i \<in> set seen then Inl (CatalogError (BinCycle i))
      else case find (\<lambda>b. bin_id b = i) bs of
             None \<Rightarrow> Inr ()
           | Some b \<Rightarrow> (case bin_parent b of None \<Rightarrow> Inr () | Some p \<Rightarrow> walk_parents bs (i # seen) p))"
  by pat_completeness auto
termination
proof (relation "measure (\<lambda>(bs, seen, i). length (filter (\<lambda>b. bin_id b \<notin> set seen) bs))", goal_cases)
  case (2 bs seen i b p)
  from find_Some_mem [OF 2(2)] have b: "b \<in> set bs" "bin_id b = i" by simp_all
  have "length (filter (\<lambda>b. bin_id b \<notin> set (i # seen)) bs)
      < length (filter (\<lambda>b. bin_id b \<notin> set seen) bs)"
    using b 2(1) by (intro length_filter_strict [of b]) auto
  then show ?case by simp
qed simp

declare walk_parents.simps [simp del]

fun validate_members ::
    "document \<Rightarrow> sync_group_id \<Rightarrow> asset_id list \<Rightarrow> sync_group_member list \<Rightarrow> op_error + unit" where
  "validate_members doc g seen [] = Inr ()"
| "validate_members doc g seen (m # ms) =
     (if doc_asset doc (member_asset m) = None then Inl (TimelineError (MissingAsset (member_asset m)))
      else if member_asset m \<in> set seen
      then Inl (CatalogError (DuplicateSyncGroupAsset g (member_asset m)))
      else if is_blank (angle_name m) then Inl (CatalogError (EmptySyncAngle g (member_asset m)))
      else validate_members doc g (member_asset m # seen) ms)"

definition validate_catalog :: "document \<Rightarrow> op_error + unit" where
  "validate_catalog doc =
     rbind (validate_bins doc [] [] (bins (catalog doc))) (\<lambda>_.
     rbind (for_each (\<lambda>b.
              rbind (case bin_parent b of
                       Some p \<Rightarrow> ensure (p \<in> set (map bin_id (bins (catalog doc)))) (CatalogError (MissingBin p))
                     | None \<Rightarrow> Inr ()) (\<lambda>_.
              walk_parents (bins (catalog doc)) [] (bin_id b))) (bins (catalog doc))) (\<lambda>_.
     rbind (each_new string_out_id (\<lambda>s. CatalogError (DuplicateStringOut (string_out_id s)))
              (\<lambda>s. if is_blank (string_out_name s) \<or> selects s = []
                   then Inl (CatalogError (InvalidStringOut (string_out_id s)))
                   else for_each (\<lambda>sel.
                     rbind (ok_or (TimelineError (MissingAsset (select_asset sel))) (doc_asset doc (select_asset sel))) (\<lambda>a.
                     validate_source_range a (select_source sel))) (selects s))
              [] (string_outs (catalog doc))) (\<lambda>_.
     each_new sync_group_id (\<lambda>g. CatalogError (DuplicateSyncGroup (sync_group_id g)))
       (\<lambda>g. if is_blank (sync_group_name g) \<or> length (members g) < 2
            then Inl (CatalogError (InvalidSyncGroup (sync_group_id g)))
            else validate_members doc (sync_group_id g) [] (members g))
       [] (sync_groups (catalog doc)))))"

subsection \<open>The document\<close>

fun validate_markers :: "marker_id list \<Rightarrow> marker option \<Rightarrow> marker list \<Rightarrow> op_error + unit" where
  "validate_markers seen previous [] = Inr ()"
| "validate_markers seen previous (m # ms) =
     (if marker_id m \<in> set seen then Inl (ClipError (DuplicateMarker (marker_id m)))
      else rbind (validate_marker m) (\<lambda>_.
           rbind (case previous of
                    Some p \<Rightarrow> ensure (\<not> marker_position m < marker_position p)
                                (ClipError (MarkersUnsorted (marker_id p) (marker_id m)))
                  | None \<Rightarrow> Inr ()) (\<lambda>_.
           validate_markers (marker_id m # seen) (Some m) ms)))"

definition validate_document :: "document \<Rightarrow> op_error + unit" where
  "validate_document doc =
     (if \<not> rational_is_valid (doc_fps doc) then Inl (AssetError InvalidProjectRate)
      else if fst (resolution doc) = 0 \<or> snd (resolution doc) = 0 then Inl (AssetError InvalidResolution)
      else rbind (for_each validate_color_description
                    [cc_working (color_context doc), cc_monitoring (color_context doc),
                     cc_delivery (color_context doc)]) (\<lambda>_.
      rbind (each_new asset_id (\<lambda>a. CatalogError (DuplicateAsset (asset_id a))) validate_asset []
               (media_pool doc)) (\<lambda>_.
      rbind (each_new lut_id (\<lambda>a. AssetError (DuplicateLutAsset (lut_id a))) validate_lut_asset []
               (lut_assets doc)) (\<lambda>_.
      rbind (validate_catalog doc) (\<lambda>_.
      rbind (validate_tracks doc (tracks doc) [] ([], 0)) (\<lambda>(seen, expected).
      rbind (validate_markers [] None (markers doc)) (\<lambda>_.
      if doc_duration doc \<noteq> expected
      then Inl (AssetError (IncorrectDocumentDuration expected (doc_duration doc)))
      else rbind (validate_track_mix doc) (\<lambda>_. validate_audio_mix doc))))))))"

section \<open>What acceptance means\<close>

lemma timecode_add_Some [simp]: "timecode_checked_add a b = Some c \<longleftrightarrow> in_i64 (a + b) \<and> c = a + b"
  by (simp add: timecode_checked_add_def)

lemma timecode_sub_Some [simp]: "timecode_checked_sub a b = Some c \<longleftrightarrow> in_i64 (a - b) \<and> c = a - b"
  by (simp add: timecode_checked_sub_def)

text \<open>The end of a clip on the timeline, for clips whose end is known.\<close>

definition clip_stop :: "document \<Rightarrow> clip \<Rightarrow> timecode" where
  "clip_stop doc c = (case clip_end doc c of Inr e \<Rightarrow> e | Inl _ \<Rightarrow> 0)"

lemma validate_clip_body_end:
  assumes "validate_clip_body doc tr c = Inr e"
  shows "clip_end doc c = Inr e" "0 \<le> timeline_start c" "timeline_start c < e"
  using assms by (auto simp: validate_clip_body_def clip_end_def rbind_eq_Inr)

definition clips_disjoint :: "document \<Rightarrow> clip list \<Rightarrow> bool" where
  "clips_disjoint doc cs = sorted_wrt (\<lambda>a b. clip_stop doc a \<le> timeline_start b) cs"

lemma validate_clips_ok:
  "validate_clips doc tr cs prev (seen, expd) = Inr (seen', expd') \<Longrightarrow>
     distinct (map clip_id cs) \<and> set seen \<inter> clip_id ` set cs = {}
     \<and> set seen' = set seen \<union> clip_id ` set cs
     \<and> (\<forall>c \<in> set cs. validate_clip_body doc tr c = Inr (clip_stop doc c))
     \<and> clips_disjoint doc cs
     \<and> (\<forall>p e. prev = Some (p, e) \<longrightarrow> (\<forall>c \<in> set cs. e \<le> timeline_start c))
     \<and> expd' = fold (\<lambda>c. max (clip_stop doc c)) cs expd"
proof (induction cs arbitrary: prev seen expd)
  case Nil
  then show ?case by (simp add: clips_disjoint_def)
next
  case (Cons c cs)
  from Cons.prems obtain e where e: "validate_clip_body doc tr c = Inr e"
    and prev: "\<forall>p q. prev = Some (p, q) \<longrightarrow> q \<le> timeline_start c"
    and rest: "validate_clips doc tr cs (Some (c, e)) (clip_id c # seen, max expd e) = Inr (seen', expd')"
    and new: "clip_id c \<notin> set seen"
    by (fastforce simp: rbind_eq_Inr split: if_splits option.splits)
  have stop: "clip_stop doc c = e" "timeline_start c < e"
    using validate_clip_body_end [OF e] by (simp_all add: clip_stop_def)
  from Cons.IH [OF rest] show ?case
    using new e prev stop by (fastforce simp: clips_disjoint_def max.commute)
qed

lemma validate_tracks_ok:
  "validate_tracks doc trs tids (seen, expd) = Inr (seen', expd') \<Longrightarrow>
     distinct (map track_id trs) \<and> set tids \<inter> track_id ` set trs = {}
     \<and> distinct (map clip_id (concat (map clips trs))) \<and> set seen \<inter> clip_id ` set (concat (map clips trs)) = {}
     \<and> (\<forall>tr \<in> set trs. clips_disjoint doc (clips tr)
          \<and> (\<forall>c \<in> set (clips tr). validate_clip_body doc tr c = Inr (clip_stop doc c)))
     \<and> expd' = fold (\<lambda>c. max (clip_stop doc c)) (concat (map clips trs)) expd"
proof (induction trs arbitrary: tids seen expd)
  case (Cons tr trs)
  from Cons.prems obtain s1 e1 where first: "validate_clips doc tr (clips tr) None (seen, expd) = Inr (s1, e1)"
    and rest: "validate_tracks doc trs (track_id tr # tids) (s1, e1) = Inr (seen', expd')"
    and new: "track_id tr \<notin> set tids"
    by (auto simp: rbind_eq_Inr split: if_splits)
  note one = validate_clips_ok [OF first] and more = Cons.IH [OF rest]
  have s1: "set s1 = set seen \<union> clip_id ` set (clips tr)" using one by simp
  have "set s1 \<inter> clip_id ` set (concat (map clips trs)) = {}" using more by simp
  then have sep: "clip_id ` set (clips tr) \<inter> clip_id ` set (concat (map clips trs)) = {}"
    "set seen \<inter> clip_id ` set (concat (map clips trs)) = {}" unfolding s1 by auto
  have "insert (track_id tr) (set tids) \<inter> track_id ` set trs = {}" using more by simp
  then have ids: "set tids \<inter> track_id ` set (tr # trs) = {}" "track_id tr \<notin> track_id ` set trs"
    using new by auto
  have "set seen \<inter> clip_id ` set (clips tr) = {}" using one by simp
  with sep(2) have "set seen \<inter> clip_id ` set (concat (map clips (tr # trs))) = {}"
    by (simp add: image_Un Int_Un_distrib)
  moreover have "distinct (map clip_id (concat (map clips (tr # trs))))"
    using one more sep(1) by simp
  ultimately show ?case
    using ids one more by simp
qed simp

lemma validate_markers_ok:
  "validate_markers seen prev ms = Inr u \<Longrightarrow>
     distinct (map marker_id ms) \<and> set seen \<inter> marker_id ` set ms = {}
     \<and> sorted (map marker_position ms) \<and> (\<forall>m \<in> set ms. validate_marker m = Inr ())
     \<and> (\<forall>p. prev = Some p \<longrightarrow> (\<forall>m \<in> set ms. marker_position p \<le> marker_position m))"
proof (induction ms arbitrary: seen prev)
  case (Cons m ms)
  then show ?case
    by (fastforce simp: rbind_eq_Inr split: if_splits option.splits)
qed simp

lemma claim_all_ok:
  "claim_all ks b err claimed = Inr claimed' \<Longrightarrow>
     set ks \<inter> fst ` set claimed = {} \<and> fst ` set claimed' = fst ` set claimed \<union> set ks"
proof (induction ks arbitrary: claimed)
  case (Cons k ks)
  from Cons.prems have new: "k \<notin> fst ` set claimed" and rest: "claim_all ks b err ((k, b) # claimed) = Inr claimed'"
    by (simp_all split: option.splits add: map_of_eq_None_iff)
  show ?case using Cons.IH [OF rest] new by auto
qed simp

lemma validate_buses_ok:
  "validate_buses doc seen routed bs = Inr u \<Longrightarrow>
     distinct (map bus_id bs) \<and> set seen \<inter> bus_id ` set bs = {}
     \<and> (\<forall>b \<in> set bs. validate_audio_bus doc b = Inr ())
     \<and> (\<forall>b \<in> set bs. set (bus_tracks b) \<inter> fst ` set routed = {})
     \<and> sorted_wrt (\<lambda>a b. set (bus_tracks a) \<inter> set (bus_tracks b) = {}) bs"
proof (induction bs arbitrary: seen routed)
  case (Cons b bs)
  from Cons.prems obtain routed' where ok: "validate_audio_bus doc b = Inr ()" "bus_id b \<notin> set seen"
    and claim: "claim_all (bus_tracks b) (bus_id b)
                    (\<lambda>t first second. AudioError (TrackInMultipleAudioBuses t first second)) routed = Inr routed'"
    and rest: "validate_buses doc (bus_id b # seen) routed' bs = Inr u"
    by (auto simp: rbind_eq_Inr split: if_splits)
  note one = claim_all_ok [OF claim] and more = Cons.IH [OF rest]
  have r: "fst ` set routed' = fst ` set routed \<union> set (bus_tracks b)" using one by simp
  have "\<forall>x \<in> set bs. set (bus_tracks x) \<inter> fst ` set routed' = {}" using more by simp
  then have sep: "\<forall>x \<in> set bs. set (bus_tracks x) \<inter> fst ` set routed = {}"
    "\<forall>x \<in> set bs. set (bus_tracks b) \<inter> set (bus_tracks x) = {}" unfolding r by auto
  have "insert (bus_id b) (set seen) \<inter> bus_id ` set bs = {}" using more by simp
  then have ids: "set seen \<inter> bus_id ` set (b # bs) = {}" "bus_id b \<notin> bus_id ` set bs"
    using ok by auto
  show ?case
    using sep ids one more ok(1) by simp
qed simp

definition bin_parent_rel :: "media_bin list \<Rightarrow> (bin_id \<times> bin_id) set" where
  "bin_parent_rel bs = {(bin_id b, p) |b p. b \<in> set bs \<and> bin_parent b = Some p}"

lemma walk_parents_avoids:
  assumes "distinct (map bin_id bs)" "walk_parents bs seen i = Inr ()" "(i, j) \<in> (bin_parent_rel bs)\<^sup>*"
  shows "j \<notin> set seen"
  using assms
proof (induction bs seen i rule: walk_parents.induct)
  case (1 bs seen i)
  have new: "i \<notin> set seen" using "1.prems"(2) by (subst (asm) walk_parents.simps) (simp split: if_splits)
  from "1.prems"(3) show ?case
  proof (cases rule: converse_rtranclE)
    case base
    with new show ?thesis by simp
  next
    case (step p)
    then obtain b where b: "b \<in> set bs" "bin_id b = i" "bin_parent b = Some p"
      by (auto simp: bin_parent_rel_def)
    have found: "find (\<lambda>b. bin_id b = i) bs = Some b"
      using find_unique_key [OF "1.prems"(1) b(1)] b(2) by simp
    have "walk_parents bs (i # seen) p = Inr ()"
      using "1.prems"(2) new found b(3) by (subst (asm) walk_parents.simps) simp
    from "1.IH" [OF new found b(3) "1.prems"(1) this step(2)] show ?thesis by simp
  qed
qed

lemma walk_parents_acyclic:
  assumes d: "distinct (map bin_id bs)" and w: "\<forall>b \<in> set bs. walk_parents bs [] (bin_id b) = Inr ()"
  shows "acyclic (bin_parent_rel bs)"
proof (rule acyclicI, intro allI notI)
  fix i assume "(i, i) \<in> (bin_parent_rel bs)\<^sup>+"
  then obtain p where step: "(i, p) \<in> bin_parent_rel bs" and around: "(p, i) \<in> (bin_parent_rel bs)\<^sup>*"
    by (meson tranclD)
  then obtain b where b: "b \<in> set bs" "bin_id b = i" "bin_parent b = Some p"
    by (auto simp: bin_parent_rel_def)
  have found: "find (\<lambda>b. bin_id b = i) bs = Some b"
    using find_unique_key [OF d b(1)] b(2) by simp
  have "walk_parents bs [i] p = Inr ()"
    using w b found by (auto simp: walk_parents.simps [of bs "[]"])
  from walk_parents_avoids [OF d this around] show False by simp
qed

lemma validate_bin_assets_ok:
  "validate_bin_assets doc bin seen owned as = Inr owned' \<Longrightarrow>
     set as \<inter> fst ` set owned = {} \<and> fst ` set owned' = fst ` set owned \<union> set as
     \<and> distinct as \<and> set as \<inter> set seen = {} \<and> (\<forall>a \<in> set as. doc_asset doc a \<noteq> None)"
proof (induction as arbitrary: seen owned)
  case (Cons a as)
  from Cons.prems have new: "a \<notin> fst ` set owned" "a \<notin> set seen" "doc_asset doc a \<noteq> None"
    and rest: "validate_bin_assets doc bin (a # seen) ((a, bin) # owned) as = Inr owned'"
    by (simp_all split: option.splits if_splits add: map_of_eq_None_iff)
  show ?case using Cons.IH [OF rest] new by auto
qed simp

lemma validate_bins_ok:
  "validate_bins doc seen owned bs = Inr u \<Longrightarrow>
     distinct (map bin_id bs) \<and> set seen \<inter> bin_id ` set bs = {}
     \<and> (\<forall>b \<in> set bs. set (bin_assets b) \<inter> fst ` set owned = {} \<and> distinct (bin_assets b)
          \<and> (\<forall>a \<in> set (bin_assets b). doc_asset doc a \<noteq> None))
     \<and> sorted_wrt (\<lambda>a b. set (bin_assets a) \<inter> set (bin_assets b) = {}) bs"
proof (induction bs arbitrary: seen owned)
  case (Cons b bs)
  from Cons.prems obtain owned' where ok: "bin_id b \<notin> set seen"
    and claim: "validate_bin_assets doc (bin_id b) [] owned (bin_assets b) = Inr owned'"
    and rest: "validate_bins doc (bin_id b # seen) owned' bs = Inr u"
    by (auto simp: rbind_eq_Inr split: if_splits)
  note one = validate_bin_assets_ok [OF claim] and more = Cons.IH [OF rest]
  have r: "fst ` set owned' = fst ` set owned \<union> set (bin_assets b)" using one by simp
  have "\<forall>x \<in> set bs. set (bin_assets x) \<inter> fst ` set owned' = {}" using more by simp
  then have sep: "\<forall>x \<in> set bs. set (bin_assets x) \<inter> fst ` set owned = {}"
    "\<forall>x \<in> set bs. set (bin_assets b) \<inter> set (bin_assets x) = {}" unfolding r by auto
  have "insert (bin_id b) (set seen) \<inter> bin_id ` set bs = {}" using more by simp
  then have ids: "set seen \<inter> bin_id ` set (b # bs) = {}" "bin_id b \<notin> bin_id ` set bs"
    using ok by auto
  show ?case
    using sep ids one more by simp
qed simp

lemma validate_track_mix_loop_ok:
  "validate_track_mix_loop doc prev es = Inr u \<Longrightarrow>
     sorted_wrt (<) (map mix_track es)
     \<and> (\<forall>e \<in> set es. track_exists doc (mix_track e) \<and> validate_track_mix_values e = Inr ()
          \<and> validate_track_mix_automation e (doc_duration doc) = Inr ())
     \<and> (\<forall>p. prev = Some p \<longrightarrow> (\<forall>e \<in> set es. p < mix_track e))"
proof (induction es arbitrary: prev)
  case (Cons e es)
  then show ?case
    by (fastforce simp: rbind_eq_Inr split: if_splits option.splits)
qed simp

lemma validate_document_parts:
  assumes "validate_document doc = Inr ()"
  shows "rational_is_valid (doc_fps doc)"
    and "distinct (map asset_id (media_pool doc))" "\<forall>a \<in> set (media_pool doc). validate_asset a = Inr ()"
    and "distinct (map lut_id (lut_assets doc))" "\<forall>a \<in> set (lut_assets doc). validate_lut_asset a = Inr ()"
    and "validate_catalog doc = Inr ()"
    and "\<exists>seen. validate_tracks doc (tracks doc) [] ([], 0) = Inr (seen, doc_duration doc)"
    and "validate_markers [] None (markers doc) = Inr ()"
    and "validate_track_mix doc = Inr ()" and "validate_audio_mix doc = Inr ()"
  using assms by (auto simp: validate_document_def rbind_eq_Inr split: if_splits prod.splits)

lemma described_parameter_ok:
  "validate_described_effect_parameter d name v = Inr () \<longleftrightarrow>
     (\<exists>p n. descriptor_parameter d name = Some p \<and> v = Integer n \<and> param_min p \<le> n \<and> n \<le> param_max p)"
  by (auto simp: validate_described_effect_parameter_def split: option.splits param_value.splits)

lemma effect_descriptor_registered:
  "effect_descriptor name = Some d \<Longrightarrow> d \<in> set EFFECT_DESCRIPTORS \<and> descriptor_name d = name"
  unfolding effect_descriptor_def by (rule find_Some_mem)

lemma descriptor_parameter_registered:
  "descriptor_parameter d name = Some p \<Longrightarrow> p \<in> set (descriptor_parameters d) \<and> param_name p = name"
  unfolding descriptor_parameter_def by (rule find_Some_mem)

lemma registered_range_bounded:
  assumes "effect_descriptor ename = Some d" "descriptor_parameter d name = Some p"
    "\<not> is_hold_only_parameter ename name"
  shows "- PROVEN_VALUE_BOUND \<le> param_min p" "param_max p \<le> PROVEN_VALUE_BOUND"
  using registry_fits_bound effect_descriptor_registered [OF assms(1)]
    descriptor_parameter_registered [OF assms(2)] assms(3)
  by (auto simp: list_all_iff descriptor_fits_bound_def)

text \<open>A keyframed parameter of a clip effect that validation accepts evaluates at every frame to a value of
  the parameter's own range.\<close>

lemma validated_curve_value:
  assumes v: "validate_curve clip dur eid ename name c = Inr ()" and a: "\<not> is_audio_effect ename"
    and d: "effect_descriptor ename = Some d"
  shows "\<exists>n. curve_value_at c t = Some n \<and> validate_described_effect_parameter d name (Integer n) = Inr ()"
proof -
  from v a d have o: "curve_validate_ordered c = Inr ()"
    and hold: "is_hold_only_parameter ename name \<Longrightarrow> all_hold (keyframes c)"
    and keys: "\<And>k. k \<in> set (keyframes c) \<Longrightarrow>
      validate_described_effect_parameter d name (Integer (key_value k)) = Inr ()"
    by (auto simp: validate_curve_def rbind_eq_Inr all_hold_def split: if_splits)
  have ks: "keyframes c \<noteq> []" "keys_ordered (keyframes c)" "positions_bounded (keyframes c)"
    using o by (simp_all add: curve_validate_ordered_iff)
  obtain k where "k \<in> set (keyframes c)" using ks(1) by (cases "keyframes c") auto
  from keys [OF this] obtain p where p: "descriptor_parameter d name = Some p"
    by (auto simp: described_parameter_ok)
  have r: "\<And>k. k \<in> set (keyframes c) \<Longrightarrow> param_min p \<le> key_value k \<and> key_value k \<le> param_max p"
    using keys p by (auto simp: described_parameter_ok)
  have "\<exists>n. value_at_keys (keyframes c) t = Some n \<and> param_min p \<le> n \<and> n \<le> param_max p"
    using value_at_keys_in_range [OF ks(2,1) r] hold registered_range_bounded [OF d p]
      positions_bounded_spans [OF ks(3)] by blast
  then show ?thesis using p by (auto simp: curve_value_at_def described_parameter_ok)
qed

definition write_curve_values :: "timecode \<Rightarrow> (string, automation_curve) btree \<Rightarrow> (string, param_value) btree
    \<Rightarrow> (string, param_value) btree" where
  "write_curve_values t = fold (\<lambda>(name, c) ps. case curve_value_at c t of
       Some v \<Rightarrow> bt_insert name (Integer v) ps | None \<Rightarrow> ps)"

lemma write_curve_values_entries:
  "(name, v) \<in> set (write_curve_values t kfs ps) \<Longrightarrow>
     (name, v) \<in> set ps \<or> (\<exists>c n. (name, c) \<in> set kfs \<and> curve_value_at c t = Some n \<and> v = Integer n)"
proof (induction kfs arbitrary: ps)
  case (Cons kc kfs)
  obtain k c where kc: "kc = (k, c)" by force
  show ?case
  proof (cases "curve_value_at c t")
    case None
    with Cons kc show ?thesis by (auto simp: write_curve_values_def)
  next
    case (Some n)
    with Cons.prems kc have "(name, v) \<in> set (write_curve_values t kfs (bt_insert k (Integer n) ps))"
      by (simp add: write_curve_values_def)
    from Cons.IH [OF this] set_bt_insert_subset [of k "Integer n" ps] Some kc show ?thesis by auto
  qed
qed (simp add: write_curve_values_def)

lemma write_curve_values_other:
  "name \<notin> fst ` set kfs \<Longrightarrow> bt_get name (write_curve_values t kfs ps) = bt_get name ps"
proof (induction kfs arbitrary: ps)
  case (Cons kc kfs)
  obtain k c where kc: "kc = (k, c)" by force
  with Cons.prems have "k \<noteq> name" "name \<notin> fst ` set kfs" by auto
  then show ?case
    using Cons.IH kc by (auto simp: write_curve_values_def bt_insert_lookup_other split: option.split)
qed (simp add: write_curve_values_def)

lemma cube_lut_path_not_described:
  "effect_descriptor ''cube_lut'' = Some d \<Longrightarrow> descriptor_parameter d ''path'' = None"
proof -
  have "(case effect_descriptor ''cube_lut'' of Some d \<Rightarrow> descriptor_parameter d ''path'' = None | None \<Rightarrow> True)"
    by code_simp
  then show "effect_descriptor ''cube_lut'' = Some d \<Longrightarrow> descriptor_parameter d ''path'' = None" by simp
qed

lemma evaluated_effect_valid:
  assumes ve: "validate_effect e = Inr ()" and va: "validate_effect_automation clip dur e = Inr ()"
    and a: "\<not> is_audio_effect (effect_name e)"
  shows "validate_effect (effect_evaluated_at e t) = Inr ()"
proof -
  obtain d where d: "effect_descriptor (effect_name e) = Some d"
    using ve by (auto simp: validate_effect_def split: option.splits)
  have curves: "\<And>name c. (name, c) \<in> set (effect_keyframes e) \<Longrightarrow>
      descriptor_parameter d name \<noteq> None \<and> validate_curve clip dur (effect_id e) (effect_name e) name c = Inr ()"
    using va d by (fastforce simp: validate_effect_automation_def rbind_eq_Inr)
  have curve_vals: "\<And>name c n. (name, c) \<in> set (effect_keyframes e) \<Longrightarrow> curve_value_at c t = Some n \<Longrightarrow>
      validate_described_effect_parameter d name (Integer n) = Inr ()"
    using validated_curve_value [OF _ a d, of clip dur "effect_id e" _ _ t] curves by (metis option.inject)
  have static: "\<And>name v. (name, v) \<in> set (parameters e) \<Longrightarrow>
      effect_name e = ''cube_lut'' \<and> name = ''path'' \<or> validate_described_effect_parameter d name v = Inr ()"
    using ve d by (fastforce simp: validate_effect_def rbind_eq_Inr split: if_splits)
  have path: "effect_name e = ''cube_lut'' \<Longrightarrow> ''path'' \<notin> fst ` set (effect_keyframes e)"
    using curves cube_lut_path_not_described d by force
  have ps: "parameters (effect_evaluated_at e t) = write_curve_values t (effect_keyframes e) (parameters e)"
    by (simp add: effect_evaluated_at_def write_curve_values_def)
  have entries: "\<And>name v. (name, v) \<in> set (parameters (effect_evaluated_at e t)) \<Longrightarrow>
      effect_name e = ''cube_lut'' \<and> name = ''path'' \<or> validate_described_effect_parameter d name v = Inr ()"
    unfolding ps using write_curve_values_entries static curve_vals by blast
  have same_path: "effect_name e = ''cube_lut'' \<Longrightarrow>
      bt_get ''path'' (parameters (effect_evaluated_at e t)) = bt_get ''path'' (parameters e)"
    unfolding ps by (rule write_curve_values_other [OF path])
  have frame: "effect_name (effect_evaluated_at e t) = effect_name e" "effect_keyframes (effect_evaluated_at e t) = []"
    by (simp_all add: effect_evaluated_at_def)
  have checks: "\<forall>x \<in> set (parameters (effect_evaluated_at e t)).
      (case x of (name, v) \<Rightarrow> if effect_name e = ''cube_lut'' \<and> name = ''path'' then Inr ()
         else validate_described_effect_parameter d name v) = Inr ()"
    by (auto dest!: entries)
  have "effect_name e = ''cube_lut'' \<Longrightarrow>
      (case bt_get ''path'' (parameters (effect_evaluated_at e t)) of Some (Text p) \<Rightarrow> \<not> is_blank p | _ \<Rightarrow> False)"
    using ve d same_path by (auto simp: validate_effect_def split: if_splits)
  then show ?thesis
    using d checks by (simp add: validate_effect_def frame rbind_eq_Inr bt_keys_def)
qed

section \<open>A sample project\<close>

definition sample_opacity :: effect where
  "sample_opacity = \<lparr>effect_id = 1, effect_name = ''opacity'', parameters = [],
     effect_keyframes = [(''percent'', \<lparr>keyframes = [sample_key 0 0 Linear, sample_key 12 100 Linear]\<rparr>)],
     effect_enabled = True, effect_enabled_curve = None\<rparr>"

definition sample_clip :: clip where
  "sample_clip = \<lparr>clip_id = 1, clip_asset = 1, source_range = rng 0 24, content = Media, timeline_start = 0,
     effects = [sample_opacity], transition_in = None, link = None, audio_gain_tenth_db = 0,
     audio_fade_in_frames = 5, audio_fade_out_frames = 5, audio_gain_curve = None, speed_percent = 100,
     clip_enabled = True, clip_enabled_curve = None, clip_blend_mode = Normal\<rparr>"

definition sample_asset :: media_asset where
  "sample_asset = \<lparr>asset_id = 1, asset_path = ''a.mov'', asset_name = ''a'', asset_duration = 100,
     asset_fps = \<lparr>numerator = 24, denominator = 1\<rparr>, asset_kind = MediaAudioVideo,
     asset_resolution = Some (1920, 1080), source_fingerprint = fingerprint_unknown,
     asset_color_description = color_description_unknown, assumed_from = None\<rparr>"

definition sample_project :: document where
  "sample_project = document_default\<lparr>
     tracks := [\<lparr>track_id = 1, track_kind = TrackVideo, sync_lock = True,
                 clips = [sample_clip, sample_clip\<lparr>clip_id := 2, source_range := rng 24 48, timeline_start := 40\<rparr>]\<rparr>,
                \<lparr>track_id = 2, track_kind = TrackAudio, sync_lock = False, clips = []\<rparr>],
     media_pool := [sample_asset],
     markers := [\<lparr>marker_id = 1, marker_position = 35, marker_label = ''m'', marker_color_token = 0\<rparr>],
     catalog := \<lparr>bins = [\<lparr>bin_id = 1, bin_name = ''rushes'', bin_parent = None, bin_assets = [1]\<rparr>,
                         \<lparr>bin_id = 2, bin_name = ''day 1'', bin_parent = Some 1, bin_assets = []\<rparr>],
                 string_outs = [], sync_groups = []\<rparr>,
     audio_mix := audio_mix_default\<lparr>
       buses := [\<lparr>bus_id = 1, bus_name = ''voice'', bus_tracks = [2], bus_gain_tenth_db = 0,
                  bus_gain_curve = None, bus_effects = [], ducking_sidechain_tracks = []\<rparr>],
       track_mixes := [(track_mix_neutral 2)\<lparr>mix_gain_tenth_db := -30\<rparr>]\<rparr>,
     doc_fps := \<lparr>numerator = 30, denominator = 1\<rparr>,
     doc_duration := 70\<rparr>"

lemma sample_project_valid: "validate_document sample_project = Inr ()"
  by code_simp

lemma all_clips_concat: "c \<in> set (all_clips doc) \<longleftrightarrow> (\<exists>tr \<in> set (tracks doc). c \<in> set (clips tr))"
  by (auto simp: all_clips_def)

lemma validated_clip:
  assumes "validate_document doc = Inr ()" "tr \<in> set (tracks doc)" "c \<in> set (clips tr)"
  shows "validate_clip_body doc tr c = Inr (clip_stop doc c)"
  using validate_document_parts(7) [OF assms(1)] validate_tracks_ok assms(2,3) by blast

lemma validated_duration:
  assumes "validate_document doc = Inr ()"
  shows "doc_duration doc = fold (\<lambda>c. max (clip_stop doc c)) (all_clips doc) 0"
  using validate_document_parts(7) [OF assms] validate_tracks_ok unfolding all_clips_def by blast

lemma validated_catalog_parts:
  assumes "validate_document doc = Inr ()"
  shows "validate_bins doc [] [] (bins (catalog doc)) = Inr ()"
    and "\<forall>b \<in> set (bins (catalog doc)). walk_parents (bins (catalog doc)) [] (bin_id b) = Inr ()"
    and "\<forall>b \<in> set (bins (catalog doc)). \<forall>p. bin_parent b = Some p \<longrightarrow> p \<in> bin_id ` set (bins (catalog doc))"
  using validate_document_parts(6) [OF assms]
  by (auto simp: validate_catalog_def rbind_eq_Inr split: option.splits)

lemma longest_end_fold:
  assumes "\<forall>c \<in> set cs. clip_end doc c = Inr (clip_stop doc c)"
  shows "fold_res (\<lambda>c duration. rbind (clip_end doc c) (\<lambda>e. Inr (max duration e))) cs d
    = Inr (fold (\<lambda>c. max (clip_stop doc c)) cs d)"
  using assms by (induction cs arbitrary: d) (simp_all add: max.commute)

section \<open>Properties\<close>

text \<open>
  Claim C8. An accepted document has a sound timeline: track ids are unique and clip ids are unique over
  the whole document, on every track the clips stand in order and no two share a frame, every clip has a
  positive length inside the project, and the project ends exactly where its last clip ends (at zero when
  it has no clip). Recomputing the duration of such a document changes nothing.
\<close>

theorem validated_timeline_sound:
  assumes "validate_document doc = Inr ()"
  shows "distinct (map track_id (tracks doc)) \<and> distinct (map clip_id (all_clips doc))
    \<and> (\<forall>tr \<in> set (tracks doc). sorted_wrt (\<lambda>a b. clip_stop doc a \<le> timeline_start b) (clips tr))
    \<and> (\<forall>c \<in> set (all_clips doc). clip_end doc c = Inr (clip_stop doc c) \<and> 0 \<le> timeline_start c
         \<and> timeline_start c < clip_stop doc c \<and> clip_stop doc c \<le> doc_duration doc)
    \<and> doc_duration doc \<in> insert 0 (clip_stop doc ` set (all_clips doc))
    \<and> recompute_duration doc = Inr doc"
proof -
  obtain seen where "validate_tracks doc (tracks doc) [] ([], 0) = Inr (seen, doc_duration doc)"
    using validate_document_parts(7) [OF assms] by blast
  note ok = validate_tracks_ok [OF this, folded all_clips_def]
  have ends: "\<forall>c \<in> set (all_clips doc). clip_end doc c = Inr (clip_stop doc c) \<and> 0 \<le> timeline_start c
         \<and> timeline_start c < clip_stop doc c"
  proof
    fix c assume "c \<in> set (all_clips doc)"
    then obtain tr where "tr \<in> set (tracks doc)" "c \<in> set (clips tr)" by (auto simp: all_clips_concat)
    from validate_clip_body_end [OF validated_clip [OF assms this]]
    show "clip_end doc c = Inr (clip_stop doc c) \<and> 0 \<le> timeline_start c \<and> timeline_start c < clip_stop doc c" by simp
  qed
  have dur: "doc_duration doc = fold (\<lambda>c. max (clip_stop doc c)) (all_clips doc) 0"
    using ok by blast
  have "longest_end doc = Inr (doc_duration doc)"
    unfolding longest_end_def dur using ends by (intro longest_end_fold) blast
  then have "recompute_duration doc = Inr doc" by (simp add: recompute_duration_def)
  moreover have "\<forall>c \<in> set (all_clips doc). clip_stop doc c \<le> doc_duration doc"
    unfolding dur by (auto intro: fold_max_upper)
  moreover have "doc_duration doc \<in> insert 0 (clip_stop doc ` set (all_clips doc))"
    unfolding dur by (rule fold_max_attained)
  ultimately show ?thesis
    using ok ends by (auto simp: clips_disjoint_def)
qed

theorem validated_timeline_sound_witness:
  "distinct (map clip_id (all_clips sample_project)) \<and> recompute_duration sample_project = Inr sample_project"
  using validated_timeline_sound [OF sample_project_valid] by blast

text \<open>
  Claim C35. An accepted catalog is a forest: no bin is its own ancestor, every parent exists, and an asset
  lies in at most one bin.
\<close>

theorem validated_bins_form_forest:
  assumes "validate_document doc = Inr ()"
  shows "acyclic (bin_parent_rel (bins (catalog doc)))
    \<and> Range (bin_parent_rel (bins (catalog doc))) \<subseteq> bin_id ` set (bins (catalog doc))
    \<and> sorted_wrt (\<lambda>a b. set (bin_assets a) \<inter> set (bin_assets b) = {}) (bins (catalog doc))"
proof -
  note bins_ok = validate_bins_ok [OF validated_catalog_parts(1) [OF assms]]
  have "acyclic (bin_parent_rel (bins (catalog doc)))"
    using bins_ok validated_catalog_parts(2) [OF assms] by (intro walk_parents_acyclic) auto
  moreover have "Range (bin_parent_rel (bins (catalog doc))) \<subseteq> bin_id ` set (bins (catalog doc))"
    using validated_catalog_parts(3) [OF assms] by (auto simp: bin_parent_rel_def)
  ultimately show ?thesis using bins_ok by blast
qed

theorem validated_bins_form_forest_witness:
  "acyclic (bin_parent_rel (bins (catalog sample_project)))"
  using validated_bins_form_forest [OF sample_project_valid] by blast

text \<open>
  An accepted mix routes every track at most once: bus ids are unique, no track is on two buses,
  and the table of track settings is strictly ascending by track, so a track has at most one entry and it
  names an existing track.
\<close>

theorem validated_mix_routing:
  assumes "validate_document doc = Inr ()"
  shows "distinct (map bus_id (buses (audio_mix doc)))
    \<and> sorted_wrt (\<lambda>a b. set (bus_tracks a) \<inter> set (bus_tracks b) = {}) (buses (audio_mix doc))
    \<and> sorted_wrt (<) (map mix_track (track_mixes (audio_mix doc)))
    \<and> (\<forall>e \<in> set (track_mixes (audio_mix doc)). track_exists doc (mix_track e)
         \<and> mix_for_track (audio_mix doc) (mix_track e) = e)"
proof -
  have "validate_buses doc [] [] (buses (audio_mix doc)) = Inr ()"
    using validate_document_parts(10) [OF assms] by (auto simp: validate_audio_mix_def rbind_eq_Inr)
  note b = validate_buses_ok [OF this]
  have "validate_track_mix_loop doc None (track_mixes (audio_mix doc)) = Inr ()"
    using validate_document_parts(9) [OF assms] by (simp add: validate_track_mix_def)
  note m = validate_track_mix_loop_ok [OF this]
  have "distinct (map mix_track (track_mixes (audio_mix doc)))"
    using m by (simp add: strict_sorted_iff)
  then have "mix_for_track (audio_mix doc) (mix_track e) = e" if "e \<in> set (track_mixes (audio_mix doc))" for e
    using find_unique_key [OF _ that, of mix_track] by (simp add: mix_for_track_def)
  with b m show ?thesis by blast
qed

theorem validated_mix_routing_witness:
  "mix_for_track (audio_mix sample_project) 2 = (track_mix_neutral 2)\<lparr>mix_gain_tenth_db := -30\<rparr>"
proof -
  let ?e = "(track_mix_neutral 2)\<lparr>mix_gain_tenth_db := -30\<rparr>"
  have "?e \<in> set (track_mixes (audio_mix sample_project))" "mix_track ?e = 2"
    by (simp_all add: sample_project_def track_mix_neutral_def)
  then show ?thesis using validated_mix_routing [OF sample_project_valid] by metis
qed

text \<open>
  Claim C36. Whatever frame an effect of a clip of an accepted document is rendered at, resolving its keyframes gives an
  effect that \<^verbatim>\<open>validate_effect\<close> accepts: every parameter is known and inside its range, for curves of any length and
  every interpolation, without overflow. The order of the points of a \<^verbatim>\<open>color_curves\<close> effect is a separate check of its
  static parameters and is not part of the statement, nor are the effects of buses and of the master.
\<close>

theorem validated_effects_render_in_range:
  assumes "validate_document doc = Inr ()" "tr \<in> set (tracks doc)" "c \<in> set (clips tr)" "e \<in> set (effects c)"
  shows "validate_effect (effect_evaluated_at e t) = Inr ()"
proof -
  from validated_clip [OF assms(1-3)]
  obtain d where "each_new effect_id (\<lambda>e. EffectError (DuplicateEffect (clip_id c) (effect_id e)))
      (validate_clip_effect doc c d) [] (effects c) = Inr ()"
    by (auto simp: validate_clip_body_def rbind_eq_Inr)
  then have "validate_clip_effect doc c d e = Inr ()" using assms(4) by simp
  then show ?thesis
    by (intro evaluated_effect_valid [of _ "clip_id c" d]) (auto simp: validate_clip_effect_def rbind_eq_Inr)
qed

theorem validated_effects_render_in_range_witness:
  "validate_effect (effect_evaluated_at sample_opacity 7) = Inr ()"
  by (rule validated_effects_render_in_range [OF sample_project_valid, of "hd (tracks sample_project)" sample_clip])
    (simp_all add: sample_project_def sample_clip_def)

end
