(* ===== verification/Edit_Base.thy ===== *)
theory Edit_Base
  imports Validate "HOL-Library.Product_Lexorder" "HOL-Library.Multiset"
begin

text \<open>
  The helpers every timeline operation of \<^verbatim>\<open>operation.rs\<close> is built from: addressing a clip by
  track and clip index, fresh identifiers, the three bisections that look for a source frame, the
  rebase of a clip's automation and fades after its extent changed, and the ripple of track automation
  and markers. \<^verbatim>\<open>sort_by_key\<close> is \<open>sort_key\<close>, which is stable too; the pair keys are compared
  lexicographically.
\<close>

section \<open>Definitions\<close>

subsection \<open>Addressing and identifiers\<close>

text \<open>\<^verbatim>\<open>doc.tracks[t].clips[c]\<close>, read and written. The indexes come from \<open>find_clip\<close> or from an
  enumeration of the same document, so they are in range.\<close>

definition clip_at :: "document \<Rightarrow> nat \<Rightarrow> nat \<Rightarrow> clip" where
  "clip_at doc ti ci = clips (tracks doc ! ti) ! ci"

definition upd_track :: "nat \<Rightarrow> (track \<Rightarrow> track) \<Rightarrow> document \<Rightarrow> document" where
  "upd_track ti f doc = doc\<lparr>tracks := (tracks doc)[ti := f (tracks doc ! ti)]\<rparr>"

definition upd_clips :: "nat \<Rightarrow> (clip list \<Rightarrow> clip list) \<Rightarrow> document \<Rightarrow> document" where
  "upd_clips ti f = upd_track ti (\<lambda>tr. tr\<lparr>clips := f (clips tr)\<rparr>)"

definition upd_clip :: "nat \<Rightarrow> nat \<Rightarrow> (clip \<Rightarrow> clip) \<Rightarrow> document \<Rightarrow> document" where
  "upd_clip ti ci f = upd_clips ti (\<lambda>cs. cs[ci := f (cs ! ci)])"

fun find_clip_loop :: "clip_id \<Rightarrow> nat \<Rightarrow> track list \<Rightarrow> (nat \<times> nat) option" where
  "find_clip_loop i n [] = None"
| "find_clip_loop i n (tr # trs) =
     (case position (\<lambda>c. clip_id c = i) (clips tr) of
        Some ci \<Rightarrow> Some (n, ci)
      | None \<Rightarrow> find_clip_loop i (Suc n) trs)"

definition find_clip :: "document \<Rightarrow> clip_id \<Rightarrow> op_error + (nat \<times> nat)" where
  "find_clip doc i = ok_or (TimelineError (MissingClip i)) (find_clip_loop i 0 (tracks doc))"

definition find_track :: "document \<Rightarrow> track_id \<Rightarrow> op_error + nat" where
  "find_track doc t =
     ok_or (TimelineError (MissingTrack t)) (position (\<lambda>tr. track_id tr = t) (tracks doc))"

definition next_clip_id :: "document \<Rightarrow> op_error + clip_id" where
  "next_clip_id doc =
     ok_or (TimelineError ClipIdExhausted) (checked_add_u64 (max_list0 (map clip_id (all_clips doc))) 1)"

definition next_link_id :: "document \<Rightarrow> op_error + link_id" where
  "next_link_id doc =
     ok_or (TimelineError LinkIdExhausted)
       (checked_add_u64 (max_list0 (List.map_filter link (all_clips doc))) 1)"

definition sort_clips :: "clip list \<Rightarrow> clip list" where
  "sort_clips = sort_key (\<lambda>c. (timeline_start c, clip_id c))"

definition push_clip :: "nat \<Rightarrow> clip \<Rightarrow> document \<Rightarrow> document" where
  "push_clip ti c = upd_clips ti (\<lambda>cs. sort_clips (cs @ [c]))"

subsection \<open>Looking for a source frame\<close>

text \<open>The bisection loop shared by the three searches: \<open>rising\<close> says whether the mapped length grows
  with the candidate. A negative range start makes the first mapping refuse, so past it \<open>low\<close> is not
  negative and \<^verbatim>\<open>high - low\<close> is exact.\<close>

function source_bisect ::
    "(int \<Rightarrow> time_mapping_error + timecode) \<Rightarrow> bool \<Rightarrow> timecode \<Rightarrow> int \<Rightarrow> int \<Rightarrow> timecode option" where
  "source_bisect mapped rising target low high =
     (if low \<le> high
      then let middle = low + (high - low) div 2
           in case mapped middle of
                Inl _ \<Rightarrow> None
              | Inr m \<Rightarrow>
                  if m = target then Some middle
                  else if (m < target) = rising
                  then (case checked_add_i64 middle 1 of
                          None \<Rightarrow> None | Some l \<Rightarrow> source_bisect mapped rising target l high)
                  else (case checked_sub_i64 middle 1 of
                          None \<Rightarrow> None | Some h \<Rightarrow> source_bisect mapped rising target low h)
      else None)"
  by pat_completeness auto
termination
  by (relation "measure (\<lambda>(mapped, rising, target, low, high). nat (high - low + 1))") auto

declare source_bisect.simps [simp del]

definition find_source_boundary :: "trange \<Rightarrow> timecode \<Rightarrow> rational \<Rightarrow> rational \<Rightarrow> timecode option" where
  "find_source_boundary source project_offset source_fps project_fps =
     Option.bind (checked_add_i64 (r_start source) 1) (\<lambda>low.
     Option.bind (checked_sub_i64 (r_end source) 1) (\<lambda>high.
     source_bisect (\<lambda>m. map_source_range_to_project (rng (r_start source) m) source_fps project_fps)
       True project_offset low high))"

definition source_end_for_project_duration ::
    "timecode \<Rightarrow> timecode \<Rightarrow> rational \<Rightarrow> rational \<Rightarrow> timecode \<Rightarrow> timecode option" where
  "source_end_for_project_duration source_start maximum_end source_fps project_fps project_duration =
     Option.bind (checked_add_i64 source_start 1) (\<lambda>low.
     source_bisect (\<lambda>m. map_source_range_to_project (rng source_start m) source_fps project_fps)
       True project_duration low maximum_end)"

definition source_start_for_project_duration ::
    "timecode \<Rightarrow> timecode \<Rightarrow> rational \<Rightarrow> rational \<Rightarrow> timecode \<Rightarrow> timecode option" where
  "source_start_for_project_duration minimum_start source_end source_fps project_fps project_duration =
     Option.bind (checked_sub_i64 source_end 1) (\<lambda>high.
     source_bisect (\<lambda>m. map_source_range_to_project (rng m source_end) source_fps project_fps)
       False project_duration minimum_start high)"

subsection \<open>What a clip keeps when its extent changes\<close>

definition rebase_clip_automation :: "timecode \<Rightarrow> timecode \<Rightarrow> clip \<Rightarrow> clip" where
  "rebase_clip_automation delta_local new_duration c =
     c\<lparr>audio_gain_curve := map_option (\<lambda>k. rebase_clip_curve k delta_local new_duration) (audio_gain_curve c),
       effects := map (\<lambda>e. e\<lparr>
           effect_keyframes := map (\<lambda>(n, k). (n, rebase_clip_curve_keep_outside k delta_local))
                                 (effect_keyframes e),
           effect_enabled_curve := map_option (\<lambda>k. rebase_clip_curve_keep_outside k delta_local)
                                     (effect_enabled_curve e)\<rparr>) (effects c),
       clip_enabled_curve := map_option (\<lambda>k. rebase_clip_curve_keep_outside k delta_local)
                               (clip_enabled_curve c)\<rparr>"

definition clamp_int :: "int \<Rightarrow> int \<Rightarrow> int \<Rightarrow> int" where
  "clamp_int lo hi x = (if x < lo then lo else if hi < x then hi else x)"

definition clamp_clip_audio_fades :: "timecode \<Rightarrow> clip \<Rightarrow> clip" where
  "clamp_clip_audio_fades new_duration c =
     (let duration = max new_duration 0;
          fade_in = clamp_int 0 duration (audio_fade_in_frames c);
          fade_out = clamp_int 0 duration (audio_fade_out_frames c);
          (fade_in, fade_out) =
            (if duration < saturating_add_i64 fade_in fade_out
             then let fade_out = duration - fade_in
                  in (if duration < saturating_add_i64 fade_in fade_out
                      then (duration - fade_out, fade_out) else (fade_in, fade_out))
             else (fade_in, fade_out))
      in c\<lparr>audio_fade_in_frames := fade_in, audio_fade_out_frames := fade_out\<rparr>)"

definition survive_clip_edit :: "nat \<Rightarrow> nat \<Rightarrow> timecode \<Rightarrow> document \<Rightarrow> op_error + document" where
  "survive_clip_edit ti ci delta_local doc =
     rbind (clip_duration doc (clip_at doc ti ci)) (\<lambda>new_duration.
     Inr (upd_clip ti ci (\<lambda>c. clamp_clip_audio_fades new_duration
            (rebase_clip_automation delta_local new_duration c)) doc))"

definition require_media :: "clip \<Rightarrow> op_error + unit" where
  "require_media c = ensure (is_media (content c)) (TimelineError (EditorialRequiresMedia (clip_id c)))"

subsection \<open>Ripple\<close>

definition ripple_delete_curve ::
    "automation_curve \<Rightarrow> timecode \<Rightarrow> timecode \<Rightarrow> timecode \<Rightarrow> automation_curve" where
  "ripple_delete_curve c start ripple_point duration =
     (let removed = (\<lambda>t. start \<le> t \<and> t < ripple_point);
          key = (\<lambda>t source v. \<lparr>key_at = t, key_value = v,
                   key_interpolation = segment_interpolation_at c source, tangent_in = 0, tangent_out = 0\<rparr>);
          keys0 = (if 0 < start \<and> list_ex (\<lambda>k. removed (key_at k)) (keyframes c)
                   then (case curve_value_at c (start - 1) of
                           Some v \<Rightarrow> bt_insert (start - 1) (key (start - 1) (start - 1) v) []
                         | None \<Rightarrow> [])
                   else []);
          keys = fold (\<lambda>k keys.
                   if removed (key_at k) then keys
                   else let t = (if ripple_point \<le> key_at k then wrap_i64 (key_at k - duration) else key_at k)
                        in bt_insert t (k\<lparr>key_at := t\<rparr>) keys) (keyframes c) keys0;
          keys = (if keys = []
                  then (case curve_value_at c ripple_point of
                          Some v \<Rightarrow> bt_insert start (key start ripple_point v) keys
                        | None \<Rightarrow> keys)
                  else keys)
      in \<lparr>keyframes = bt_values keys\<rparr>)"

definition ripple_insert_curve ::
    "automation_curve \<Rightarrow> timecode \<Rightarrow> timecode \<Rightarrow> timecode \<Rightarrow> automation_curve" where
  "ripple_insert_curve c t duration project_duration =
     clamp_project_curve
       \<lparr>keyframes = map (\<lambda>k. if t \<le> key_at k then k\<lparr>key_at := wrap_i64 (key_at k + duration)\<rparr> else k)
                      (keyframes c)\<rparr>
       project_duration"

definition ripple_track_automation ::
    "track_id list \<Rightarrow> (automation_curve \<Rightarrow> automation_curve) \<Rightarrow> document \<Rightarrow> document" where
  "ripple_track_automation track_ids rewrite doc =
     doc\<lparr>audio_mix := (audio_mix doc)\<lparr>track_mixes :=
       map (\<lambda>e. if mix_track e \<in> set track_ids
                then e\<lparr>mix_gain_curve := map_option rewrite (mix_gain_curve e),
                       mix_pan_curve := map_option rewrite (mix_pan_curve e)\<rparr>
                else e) (track_mixes (audio_mix doc))\<rparr>\<rparr>"

definition sort_markers :: "marker list \<Rightarrow> marker list" where
  "sort_markers = sort_key (\<lambda>m. (marker_position m, marker_id m))"

definition shift_markers_left :: "timecode \<Rightarrow> timecode \<Rightarrow> marker list \<Rightarrow> op_error + marker list" where
  "shift_markers_left boundary duration ms =
     rbind (map_res (\<lambda>m. if boundary \<le> marker_position m
                then rbind (ok_or TimeOverflow (timecode_checked_sub (marker_position m) duration)) (\<lambda>p.
                     Inr (m\<lparr>marker_position := max p 0\<rparr>))
                else Inr m) ms) (\<lambda>ms'. Inr (sort_markers ms'))"

definition shift_markers_right :: "timecode \<Rightarrow> timecode \<Rightarrow> marker list \<Rightarrow> op_error + marker list" where
  "shift_markers_right boundary duration ms =
     rbind (map_res (\<lambda>m. if boundary \<le> marker_position m
                then rbind (ok_or TimeOverflow (timecode_checked_add (marker_position m) duration)) (\<lambda>p.
                     Inr (m\<lparr>marker_position := p\<rparr>))
                else Inr m) ms) (\<lambda>ms'. Inr (sort_markers ms'))"

text \<open>The shift of the clips at or after a point, on the source track and every sync-locked track.\<close>

definition shift_clips ::
    "(track \<Rightarrow> bool) \<Rightarrow> timecode \<Rightarrow> (timecode \<Rightarrow> timecode option) \<Rightarrow> track list \<Rightarrow> op_error + track list" where
  "shift_clips affected boundary shift =
     map_res (\<lambda>tr. if affected tr
       then rbind (map_res (\<lambda>c. if boundary \<le> timeline_start c
                     then rbind (ok_or TimeOverflow (shift (timeline_start c))) (\<lambda>s.
                          Inr (c\<lparr>timeline_start := s\<rparr>))
                     else Inr c) (clips tr)) (\<lambda>cs. Inr (tr\<lparr>clips := cs\<rparr>))
       else Inr tr)"

section \<open>Lemmas\<close>

subsection \<open>Searching and updating\<close>

lemma find_clip_loop_Some:
  "find_clip_loop i n trs = Some (ti, ci) \<Longrightarrow>
     n \<le> ti \<and> ti - n < length trs \<and> ci < length (clips (trs ! (ti - n)))
     \<and> clip_id (clips (trs ! (ti - n)) ! ci) = i"
proof (induction trs arbitrary: n)
  case (Cons tr trs)
  show ?case
  proof (cases "position (\<lambda>c. clip_id c = i) (clips tr)")
    case None
    with Cons.prems have "find_clip_loop i (Suc n) trs = Some (ti, ci)" by simp
    from Cons.IH [OF this] show ?thesis by (cases "ti - n") (auto simp: diff_Suc nth_Cons split: nat.splits)
  next
    case (Some k)
    with Cons.prems position_Some [OF Some] show ?thesis by auto
  qed
qed simp

lemma find_clip_InrD:
  assumes "find_clip doc i = Inr (ti, ci)"
  shows "ti < length (tracks doc)" "ci < length (clips (tracks doc ! ti))" "clip_id (clip_at doc ti ci) = i"
  using assms find_clip_loop_Some [of i 0 "tracks doc" ti ci] by (simp_all add: find_clip_def clip_at_def)

lemma find_clip_mem:
  assumes "find_clip doc i = Inr (ti, ci)"
  shows "tracks doc ! ti \<in> set (tracks doc)" "clip_at doc ti ci \<in> set (clips (tracks doc ! ti))"
    "clip_at doc ti ci \<in> set (all_clips doc)"
  using find_clip_InrD [OF assms] by (auto simp: clip_at_def all_clips_concat intro!: bexI [OF _ nth_mem])

lemma find_track_InrD:
  assumes "find_track doc t = Inr ti"
  shows "ti < length (tracks doc)" "track_id (tracks doc ! ti) = t"
  using assms position_Some by (fastforce simp: find_track_def)+

lemma max_list0_upper: "x \<in> set xs \<Longrightarrow> x \<le> max_list0 xs"
proof (cases xs)
  case (Cons y ys)
  have "fold max ys y \<ge> y" and "\<forall>z \<in> set ys. z \<le> fold max ys y"
    using fold_max_ge [where f = "\<lambda>x. x" and cs = ys and d = y] fold_max_upper [where f = "\<lambda>x. x" and cs = ys and d = y] by auto
  then show "x \<in> set xs \<Longrightarrow> x \<le> max_list0 xs" using Cons by (auto simp: max_list0_def)
qed simp

lemma next_clip_id_fresh:
  "next_clip_id doc = Inr i \<Longrightarrow> c \<in> set (all_clips doc) \<Longrightarrow> clip_id c < i"
  using max_list0_upper [of "clip_id c" "map clip_id (all_clips doc)"]
  by (auto simp: next_clip_id_def checked_add_u64_def split: if_splits)

lemma upd_frame [simp]:
  "media_pool (upd_track ti f doc) = media_pool doc" "doc_fps (upd_track ti f doc) = doc_fps doc"
  "media_pool (upd_clips ti g doc) = media_pool doc" "doc_fps (upd_clips ti g doc) = doc_fps doc"
  "media_pool (upd_clip ti ci h doc) = media_pool doc" "doc_fps (upd_clip ti ci h doc) = doc_fps doc"
  "media_pool (push_clip ti c doc) = media_pool doc" "doc_fps (push_clip ti c doc) = doc_fps doc"
  by (simp_all add: upd_track_def upd_clips_def upd_clip_def push_clip_def)

lemma upd_lengths [simp]:
  "length (tracks (upd_track ti f doc)) = length (tracks doc)"
  "length (tracks (upd_clips ti g doc)) = length (tracks doc)"
  "length (tracks (upd_clip ti ci h doc)) = length (tracks doc)"
  "length (tracks (push_clip ti c doc)) = length (tracks doc)"
  by (simp_all add: upd_track_def upd_clips_def upd_clip_def push_clip_def)

lemma upd_clips_at [simp]:
  "ti < length (tracks doc) \<Longrightarrow> clips (tracks (upd_clips ti g doc) ! ti) = g (clips (tracks doc ! ti))"
  by (simp add: upd_clips_def upd_track_def)

lemma upd_clip_at [simp]:
  "ti < length (tracks doc) \<Longrightarrow> clips (tracks (upd_clip ti ci h doc) ! ti) =
     (clips (tracks doc ! ti))[ci := h (clips (tracks doc ! ti) ! ci)]"
  by (simp add: upd_clip_def)

lemma push_clip_at [simp]:
  "ti < length (tracks doc) \<Longrightarrow> clips (tracks (push_clip ti c doc) ! ti) = sort_clips (clips (tracks doc ! ti) @ [c])"
  by (simp add: push_clip_def)

lemma clip_at_upd_clip [simp]:
  "ti < length (tracks doc) \<Longrightarrow> ci < length (clips (tracks doc ! ti)) \<Longrightarrow>
     clip_at (upd_clip ti ci h doc) ti ci = h (clip_at doc ti ci)"
  by (simp add: clip_at_def)

lemma mset_concat_update:
  "ti < length xss \<Longrightarrow> mset (concat (xss[ti := ys])) + mset (xss ! ti) = mset (concat xss) + mset ys"
  by (induction xss arbitrary: ti) (auto simp: nth_Cons split: nat.split)

lemma mset_upd_clips:
  assumes "ti < length (tracks doc)"
  shows "mset (all_clips (upd_clips ti g doc)) + mset (clips (tracks doc ! ti))
    = mset (all_clips doc) + mset (g (clips (tracks doc ! ti)))"
proof -
  have "map clips (tracks (upd_clips ti g doc)) = (map clips (tracks doc))[ti := g (clips (tracks doc ! ti))]"
    using assms by (simp add: upd_clips_def upd_track_def map_update)
  then show ?thesis
    using mset_concat_update [of ti "map clips (tracks doc)" "g (clips (tracks doc ! ti))"] assms
    by (simp add: all_clips_def)
qed

lemma mset_push_clip:
  "ti < length (tracks doc) \<Longrightarrow> mset (all_clips (push_clip ti c doc)) = add_mset c (mset (all_clips doc))"
  using mset_upd_clips [of ti doc "\<lambda>cs. sort_clips (cs @ [c])"]
  by (simp add: push_clip_def sort_clips_def)

lemma mset_upd_clip:
  assumes "ti < length (tracks doc)" "ci < length (clips (tracks doc ! ti))"
  shows "add_mset (clip_at doc ti ci) (mset (all_clips (upd_clip ti ci h doc)))
    = add_mset (h (clip_at doc ti ci)) (mset (all_clips doc))"
proof -
  let ?cs = "clips (tracks doc ! ti)"
  have swap: "mset (?cs[ci := h (?cs ! ci)]) + {#?cs ! ci#} = mset ?cs + {#h (?cs ! ci)#}"
    using assms(2) by (simp add: mset_update)
  have "(mset (all_clips (upd_clip ti ci h doc)) + {#?cs ! ci#}) + mset ?cs
      = mset (all_clips doc) + (mset (?cs[ci := h (?cs ! ci)]) + {#?cs ! ci#})"
    using mset_upd_clips [OF assms(1), of "\<lambda>cs. cs[ci := h (cs ! ci)]"] by (simp add: upd_clip_def ac_simps)
  also have "\<dots> = (mset (all_clips doc) + {#h (?cs ! ci)#}) + mset ?cs"
    unfolding swap by (simp add: ac_simps)
  finally show ?thesis by (simp add: clip_at_def)
qed

lemma set_all_clips_upd_clip:
  assumes "ti < length (tracks doc)" "ci < length (clips (tracks doc ! ti))" "c \<in> set (all_clips (upd_clip ti ci h doc))"
  shows "c = h (clip_at doc ti ci) \<or> c \<in> set (all_clips doc)"
proof -
  have "c \<in># add_mset (h (clip_at doc ti ci)) (mset (all_clips doc))"
    unfolding mset_upd_clip [OF assms(1,2), symmetric] using assms(3) by simp
  then show ?thesis by auto
qed

subsection \<open>Clip lengths\<close>

text \<open>A clip's length depends on the document only through the media pool and the project rate, and on
  the clip only through its source.\<close>

lemma clip_duration_cong:
  assumes "media_pool d = media_pool d'" "doc_fps d = doc_fps d'"
    and "clip_asset c = clip_asset c'" "source_range c = source_range c'" "speed_percent c = speed_percent c'"
    and "is_media (content c) = is_media (content c')"
  shows "clip_duration d c = clip_duration d' c'"
  using assms by (simp add: clip_duration_def doc_asset_def clip_effective_fps_def is_span_def)

lemma clip_end_cong:
  assumes "media_pool d = media_pool d'" "doc_fps d = doc_fps d'"
    and "clip_asset c = clip_asset c'" "source_range c = source_range c'" "speed_percent c = speed_percent c'"
    and "is_media (content c) = is_media (content c')" "timeline_start c = timeline_start c'"
  shows "clip_end d c = clip_end d' c'"
  using clip_duration_cong [OF assms(1-6)] assms(7) by (simp add: clip_end_def)

lemma rebase_keeps [simp]:
  "clip_id (rebase_clip_automation dl nd c) = clip_id c"
  "clip_asset (rebase_clip_automation dl nd c) = clip_asset c"
  "source_range (rebase_clip_automation dl nd c) = source_range c"
  "speed_percent (rebase_clip_automation dl nd c) = speed_percent c"
  "content (rebase_clip_automation dl nd c) = content c"
  "timeline_start (rebase_clip_automation dl nd c) = timeline_start c"
  "audio_fade_in_frames (rebase_clip_automation dl nd c) = audio_fade_in_frames c"
  "audio_fade_out_frames (rebase_clip_automation dl nd c) = audio_fade_out_frames c"
  by (simp_all add: rebase_clip_automation_def)

lemma clamp_fades_keeps [simp]:
  "clip_id (clamp_clip_audio_fades nd c) = clip_id c"
  "clip_asset (clamp_clip_audio_fades nd c) = clip_asset c"
  "source_range (clamp_clip_audio_fades nd c) = source_range c"
  "speed_percent (clamp_clip_audio_fades nd c) = speed_percent c"
  "content (clamp_clip_audio_fades nd c) = content c"
  "timeline_start (clamp_clip_audio_fades nd c) = timeline_start c"
  "effects (clamp_clip_audio_fades nd c) = effects c"
  "audio_gain_curve (clamp_clip_audio_fades nd c) = audio_gain_curve c"
  by (simp_all add: clamp_clip_audio_fades_def Let_def split: prod.split)

lemma survive_clip_edit_InrD:
  assumes "survive_clip_edit ti ci delta doc = Inr doc'"
  obtains d where "clip_duration doc (clip_at doc ti ci) = Inr d"
    "doc' = upd_clip ti ci (\<lambda>c. clamp_clip_audio_fades d (rebase_clip_automation delta d c)) doc"
  using assms by (auto simp: survive_clip_edit_def rbind_eq_Inr)

subsection \<open>Bisection\<close>

lemma source_bisect_sound:
  "source_bisect mapped rising target low high = Some m \<Longrightarrow>
     low \<le> m \<and> m \<le> high \<and> mapped m = Inr target"
proof (induction mapped rising target low high rule: source_bisect.induct)
  case (1 mapped rising target low high)
  show ?case
  proof (cases "low \<le> high")
    case True
    define mid where "mid = low + (high - low) div 2"
    have mid: "low \<le> mid" "mid \<le> high" using True by (simp_all add: mid_def)
    note step = "1.prems" [unfolded source_bisect.simps [of mapped rising target low high] Let_def,
        folded mid_def]
    from step True obtain v where v: "mapped mid = Inr v" by (auto split: sum.splits)
    note IH = "1.IH" [OF True mid_def v]
    show ?thesis
      using step True v mid IH(1) [of "mid + 1"] IH(2) [of "mid - 1"]
      by (auto split: if_splits option.splits)
  qed (use "1.prems" in \<open>simp add: source_bisect.simps [of mapped rising target low high]\<close>)
qed

lemma source_bisect_complete:
  assumes "\<And>x. low \<le> x \<Longrightarrow> x \<le> high \<Longrightarrow> \<exists>v. mapped x = Inr v"
    and "\<And>x y v w. low \<le> x \<Longrightarrow> x \<le> y \<Longrightarrow> y \<le> high \<Longrightarrow> mapped x = Inr v \<Longrightarrow> mapped y = Inr w \<Longrightarrow>
           (if rising then v \<le> w else w \<le> v)"
    and "low \<le> m" "m \<le> high" "mapped m = Inr target" "0 \<le> low" "high \<le> i64_max"
  shows "\<exists>m'. source_bisect mapped rising target low high = Some m'"
  using assms
proof (induction mapped rising target low high rule: source_bisect.induct)
  case (1 mapped rising target low high)
  have le: "low \<le> high" using "1.prems"(3,4) by simp
  define mid where "mid = low + (high - low) div 2"
  have mid: "low \<le> mid" "mid \<le> high" using le by (simp_all add: mid_def)
  obtain v where v: "mapped mid = Inr v" using "1.prems"(1) mid by blast
  have i64: "in_i64 (mid + 1) \<or> mid = high" "in_i64 (mid - 1)"
    using "1.prems"(6,7) mid by (auto simp: int_width_defs)
  note IH = "1.IH" [OF le mid_def v]
  note unfold = source_bisect.simps [of mapped rising target low high]
  consider (eq) "v = target" | (up) "v \<noteq> target" "(v < target) = rising" | (down) "v \<noteq> target" "(v < target) \<noteq> rising"
    by blast
  then show ?case
  proof cases
    case eq
    then show ?thesis using le v by (simp add: unfold Let_def mid_def [symmetric])
  next
    case up
    have "mid < m"
    proof (rule ccontr)
      assume "\<not> mid < m"
      then have "if rising then target \<le> v else v \<le> target"
        using "1.prems"(2) [OF "1.prems"(3) _ mid(2) "1.prems"(5) v] by simp
      with up show False by (cases rising) auto
    qed
    then have c: "checked_add_i64 mid 1 = Some (mid + 1)" using i64 "1.prems"(4) by (auto simp: checked_add_i64_def)
    have "\<exists>m'. source_bisect mapped rising target (mid + 1) high = Some m'"
    proof (rule IH(1) [OF up c])
      show "\<exists>v. mapped x = Inr v" if "mid + 1 \<le> x" "x \<le> high" for x
        using "1.prems"(1) [of x] that mid by simp
      show "if rising then a \<le> b else b \<le> a"
        if "mid + 1 \<le> x" "x \<le> y" "y \<le> high" "mapped x = Inr a" "mapped y = Inr b" for x y a b
        using "1.prems"(2) [of x y a b] that mid by simp
      show "mid + 1 \<le> m" "m \<le> high" "mapped m = Inr target" "0 \<le> mid + 1" "high \<le> i64_max"
        using \<open>mid < m\<close> "1.prems"(4-7) mid by simp_all
    qed
    then show ?thesis using le v up c by (simp add: unfold Let_def mid_def [symmetric] checked_add_i64_def)
  next
    case down
    have "m < mid"
    proof (rule ccontr)
      assume "\<not> m < mid"
      then have "if rising then v \<le> target else target \<le> v"
        using "1.prems"(2) [OF mid(1) _ "1.prems"(4) v "1.prems"(5)] by simp
      with down show False by (cases rising) auto
    qed
    have c: "checked_sub_i64 mid 1 = Some (mid - 1)" using i64 by (simp add: checked_sub_i64_def)
    have "\<exists>m'. source_bisect mapped rising target low (mid - 1) = Some m'"
    proof (rule IH(2) [OF down c])
      show "\<exists>v. mapped x = Inr v" if "low \<le> x" "x \<le> mid - 1" for x
        using "1.prems"(1) [of x] that mid by simp
      show "if rising then a \<le> b else b \<le> a"
        if "low \<le> x" "x \<le> y" "y \<le> mid - 1" "mapped x = Inr a" "mapped y = Inr b" for x y a b
        using "1.prems"(2) [of x y a b] that mid by simp
      show "low \<le> m" "m \<le> mid - 1" "mapped m = Inr target" "0 \<le> low" "mid - 1 \<le> i64_max"
        using \<open>m < mid\<close> "1.prems"(3-7) mid by simp_all
    qed
    then show ?thesis using le v down c by (simp add: unfold Let_def mid_def [symmetric] checked_sub_i64_def)
  qed
qed

text \<open>The two directions of the search over a range of the source.\<close>

lemma map_range_rising:
  assumes "rate_ok sf" "rate_ok pf" "0 \<le> s" "s < x" "x \<le> y" "y \<le> i64_max"
    and "map_source_range_to_project (rng s x) sf pf = Inr v" "map_source_range_to_project (rng s y) sf pf = Inr w"
  shows "v \<le> w"
  using map_source_range_eq [OF assms(1-4)] map_source_range_eq [OF assms(1-3), of y]
    nearest_mono [OF assms(1,2,5)] assms(4-8)
  by (auto split: if_splits)

lemma map_range_falling:
  assumes "rate_ok sf" "rate_ok pf" "0 \<le> x" "x \<le> y" "y < e" "e \<le> i64_max"
    and "map_source_range_to_project (rng x e) sf pf = Inr v" "map_source_range_to_project (rng y e) sf pf = Inr w"
  shows "w \<le> v"
  using map_source_range_eq [OF assms(1,2,3), of e] map_source_range_eq [OF assms(1,2), of y e]
    nearest_mono [OF assms(1,2,4)] assms(3-8)
  by (auto split: if_splits)

lemma map_range_total_below:
  assumes "rate_ok sf" "rate_ok pf" "0 \<le> s" "s < x" "x \<le> e" "e \<le> i64_max"
    and "map_source_range_to_project (rng s e) sf pf = Inr d"
  shows "\<exists>v. map_source_range_to_project (rng s x) sf pf = Inr v"
  using map_source_range_eq [OF assms(1-4)] map_source_range_eq [OF assms(1-3), of e]
    nearest_mono [OF assms(1,2,5)] assms(4-7)
  by (auto split: if_splits)

lemma map_range_split:
  assumes "rate_ok sf" "rate_ok pf" "m < e" "e \<le> i64_max"
    and "map_source_range_to_project (rng s e) sf pf = Inr d" "map_source_range_to_project (rng s m) sf pf = Inr v"
  shows "map_source_range_to_project (rng m e) sf pf = Inr (d - v)"
proof -
  have s: "0 \<le> s" "s < m" using map_source_range_InrD [OF assms(6)] by simp_all
  show ?thesis
    using map_source_range_eq [OF assms(1,2) s(1), of e] map_source_range_eq [OF assms(1,2) s]
      map_source_range_eq [OF assms(1,2) _ assms(3,4)] s assms(3-6)
    by (auto split: if_splits)
qed

text \<open>\<^verbatim>\<open>find_source_boundary\<close> is sound, and it misses no inner boundary.\<close>

lemma find_source_boundary_sound:
  assumes "find_source_boundary r off sf pf = Some m"
  shows "r_start r < m" "m < r_end r" "map_source_range_to_project (rng (r_start r) m) sf pf = Inr off"
  using assms source_bisect_sound
  by (fastforce simp: find_source_boundary_def bind_eq_Some_conv)+

lemma find_source_boundary_complete:
  assumes "rate_ok sf" "rate_ok pf" "r_end r \<le> i64_max"
    and whole: "map_source_range_to_project r sf pf = Inr d"
    and m: "m < r_end r" "map_source_range_to_project (rng (r_start r) m) sf pf = Inr off"
  shows "\<exists>m'. find_source_boundary r off sf pf = Some m'"
proof -
  have r: "rng (r_start r) (r_end r) = r" by (cases r) simp
  note s = map_source_range_InrD [OF m(2), simplified] map_source_range_InrD [OF whole]
  have "\<exists>m'. source_bisect (\<lambda>m. map_source_range_to_project (rng (r_start r) m) sf pf) True off
      (r_start r + 1) (r_end r - 1) = Some m'"
  proof (rule source_bisect_complete)
    show "\<exists>v. map_source_range_to_project (rng (r_start r) x) sf pf = Inr v"
      if "r_start r + 1 \<le> x" "x \<le> r_end r - 1" for x
      using map_range_total_below [OF assms(1,2) s(1), of x "r_end r" d] that assms(3) whole by (simp add: r)
    show "if True then v \<le> w else w \<le> v"
      if "r_start r + 1 \<le> x" "x \<le> y" "y \<le> r_end r - 1"
        "map_source_range_to_project (rng (r_start r) x) sf pf = Inr v"
        "map_source_range_to_project (rng (r_start r) y) sf pf = Inr w" for x y v w
      using map_range_rising [OF assms(1,2) s(1) _ that(2) _ that(4,5)] that assms(3) by simp
  qed (use s m assms(3) in simp_all)
  moreover have "checked_add_i64 (r_start r) 1 = Some (r_start r + 1)" "checked_sub_i64 (r_end r) 1 = Some (r_end r - 1)"
    using s assms(3) by (simp_all add: int_width_defs)
  ultimately show ?thesis by (simp add: find_source_boundary_def checked_add_i64_def checked_sub_i64_def)
qed

lemma source_end_sound:
  assumes "source_end_for_project_duration s mx sf pf d = Some e"
  shows "s < e" "e \<le> mx" "map_source_range_to_project (rng s e) sf pf = Inr d"
  using assms source_bisect_sound
  by (fastforce simp: source_end_for_project_duration_def bind_eq_Some_conv)+

lemma source_end_complete:
  assumes "rate_ok sf" "rate_ok pf" "mx \<le> i64_max"
    and whole: "map_source_range_to_project (rng s mx) sf pf = Inr w"
    and e: "e \<le> mx" "map_source_range_to_project (rng s e) sf pf = Inr d"
  shows "\<exists>e'. source_end_for_project_duration s mx sf pf d = Some e'"
proof -
  note s = map_source_range_InrD [OF e(2), simplified]
  have "\<exists>e'. source_bisect (\<lambda>m. map_source_range_to_project (rng s m) sf pf) True d (s + 1) mx = Some e'"
  proof (rule source_bisect_complete)
    show "\<exists>v. map_source_range_to_project (rng s x) sf pf = Inr v" if "s + 1 \<le> x" "x \<le> mx" for x
      using map_range_total_below [OF assms(1,2) s(1), of x mx w] that assms(3) whole by simp
    show "if True then v \<le> u else u \<le> v"
      if "s + 1 \<le> x" "x \<le> y" "y \<le> mx" "map_source_range_to_project (rng s x) sf pf = Inr v"
        "map_source_range_to_project (rng s y) sf pf = Inr u" for x y v u
      using map_range_rising [OF assms(1,2) s(1) _ that(2) _ that(4,5)] that assms(3) by simp
  qed (use s e assms(3) in simp_all)
  then show ?thesis
    using s e assms(3) by (simp add: source_end_for_project_duration_def checked_add_i64_def int_width_defs)
qed

lemma source_start_sound:
  assumes "source_start_for_project_duration mn e sf pf d = Some s"
  shows "mn \<le> s" "s < e" "map_source_range_to_project (rng s e) sf pf = Inr d"
  using assms source_bisect_sound
  by (fastforce simp: source_start_for_project_duration_def bind_eq_Some_conv)+

lemma source_start_complete:
  assumes "rate_ok sf" "rate_ok pf" "e \<le> i64_max" "0 \<le> mn"
    and s: "mn \<le> s" "map_source_range_to_project (rng s e) sf pf = Inr d"
  shows "\<exists>s'. source_start_for_project_duration mn e sf pf d = Some s'"
proof -
  note b = map_source_range_InrD [OF s(2), simplified]
  have top: "nearest sf pf e \<le> i64_max"
    using map_source_range_eq [OF assms(1,2) b assms(3)] s(2) by (simp split: if_splits)
  have "\<exists>s'. source_bisect (\<lambda>m. map_source_range_to_project (rng m e) sf pf) False d mn (e - 1) = Some s'"
  proof (rule source_bisect_complete)
    show "\<exists>v. map_source_range_to_project (rng x e) sf pf = Inr v" if "mn \<le> x" "x \<le> e - 1" for x
      using map_source_range_eq [OF assms(1,2), of x e] top that assms(3,4) by simp
    show "if False then v \<le> u else u \<le> v"
      if "mn \<le> x" "x \<le> y" "y \<le> e - 1" "map_source_range_to_project (rng x e) sf pf = Inr v"
        "map_source_range_to_project (rng y e) sf pf = Inr u" for x y v u
      using map_range_falling [OF assms(1,2) _ that(2) _ assms(3) that(4,5)] that assms(4) by simp
  qed (use s b assms(3,4) in simp_all)
  moreover have "in_i64 (e - 1)" using b assms(3) by (simp add: int_width_defs)
  ultimately show ?thesis
    by (simp add: source_start_for_project_duration_def checked_sub_i64_def)
qed

subsection \<open>Fades\<close>

lemma clamp_clip_audio_fades_fit:
  assumes "0 < d" "d < i64_max"
  shows "0 \<le> audio_fade_in_frames (clamp_clip_audio_fades d c)"
    and "0 \<le> audio_fade_out_frames (clamp_clip_audio_fades d c)"
    and "audio_fade_in_frames (clamp_clip_audio_fades d c) + audio_fade_out_frames (clamp_clip_audio_fades d c) \<le> d"
  using assms
  by (auto simp: clamp_clip_audio_fades_def clamp_int_def saturating_add_i64_def clamp_i64_def int_width_defs Let_def
      split: if_splits)

lemma clamp_clip_audio_fades_id:
  assumes "0 \<le> audio_fade_in_frames c" "0 \<le> audio_fade_out_frames c"
    "audio_fade_in_frames c + audio_fade_out_frames c \<le> d" "d \<le> i64_max"
  shows "clamp_clip_audio_fades d c = c"
  using assms
  by (auto simp: clamp_clip_audio_fades_def clamp_int_def saturating_add_i64_def clamp_i64_def int_width_defs Let_def)

subsection \<open>Machine-typed documents\<close>

text \<open>What Rust's types guarantee of every document: rates are positive \<^verbatim>\<open>u32\<close> fractions, frame numbers are
  \<^verbatim>\<open>i64\<close> values and speeds \<^verbatim>\<open>u32\<close> values. (\<^verbatim>\<open>Rational\<close> cannot be built with a zero component.)\<close>

definition doc_typed :: "document \<Rightarrow> bool" where
  "doc_typed doc \<longleftrightarrow> rate_ok (doc_fps doc)
     \<and> list_all (\<lambda>a. rate_ok (asset_fps a) \<and> in_i64 (asset_duration a)) (media_pool doc)
     \<and> list_all (\<lambda>c. in_i64 (timeline_start c) \<and> in_i64 (r_start (source_range c))
          \<and> in_i64 (r_end (source_range c)) \<and> in_u32 (speed_percent c)) (all_clips doc)"

lemma speed_scaled_rate_ok:
  assumes "rate_ok fps" "0 < p" "speed_scaled_fps fps p = Inr r"
  shows "rate_ok r"
proof (cases "p = 100")
  case True
  then show ?thesis using assms by (simp add: speed_scaled_fps_def)
next
  case False
  define n d where "n = numerator fps * p" and "d = denominator fps * 100"
  have pos: "0 < n" "0 < d" using assms by (simp_all add: n_def d_def rate_ok_def)
  have r: "r = \<lparr>numerator = n div gcd n d, denominator = d div gcd n d\<rparr>" and top: "n \<le> u32_max" "d \<le> u32_max"
    using assms(3) False pos gcd_u32_eq [of n d]
    by (auto simp: speed_scaled_fps_def rational_new_def checked_mul_u32_def n_def d_def Let_def
        rbind_eq_Inr in_u32_def split: if_splits)
  have "0 < gcd n d" using pos by simp
  then have g: "1 \<le> gcd n d" by linarith
  have "0 < n div gcd n d" "0 < d div gcd n d"
    using pos by (simp_all add: pos_imp_zdiv_pos_iff zdvd_imp_le)
  moreover have "n div gcd n d \<le> n" "d div gcd n d \<le> d"
    using pos g zdiv_mono2 [of n 1 "gcd n d"] zdiv_mono2 [of d 1 "gcd n d"] by simp_all
  ultimately show ?thesis using top by (simp add: r rate_ok_def)
qed

lemma doc_asset_mem: "doc_asset doc i = Some a \<Longrightarrow> a \<in> set (media_pool doc) \<and> asset_id a = i"
  unfolding doc_asset_def by (rule find_Some_mem)

lemma media_clip_facts:
  assumes v: "validate_document doc = Inr ()" and t: "doc_typed doc"
    and c: "tr \<in> set (tracks doc)" "c \<in> set (clips tr)" "is_media (content c)"
  obtains a eff where "doc_asset doc (clip_asset c) = Some a" "clip_effective_fps (asset_fps a) c = Inr eff"
    "rate_ok eff" "rate_ok (doc_fps doc)" "0 \<le> r_start (source_range c)" "r_start (source_range c) < r_end (source_range c)"
    "r_end (source_range c) \<le> asset_duration a" "asset_duration a \<le> i64_max"
    "clip_duration doc c = map_err TimeMapping (map_source_range_to_project (source_range c) eff (doc_fps doc))"
proof -
  from validated_clip [OF v c(1,2)] c(3)
  have body: "validate_clip_content doc tr c = Inr ()" and dur: "\<exists>d. clip_duration doc c = Inr d"
    by (auto simp: validate_clip_body_def rbind_eq_Inr)
  from body c(3) obtain a where a: "doc_asset doc (clip_asset c) = Some a"
    and rg: "validate_source_range a (source_range c) = Inr ()" and sp: "validate_clip_speed (speed_percent c) = Inr ()"
    by (auto simp: validate_clip_content_def is_media_def rbind_eq_Inr)
  from dur a c(3) obtain eff where eff: "clip_effective_fps (asset_fps a) c = Inr eff"
    by (auto simp: clip_duration_def is_span_def rbind_eq_Inr)
  have at: "rate_ok (asset_fps a)" "in_i64 (asset_duration a)" and dt: "rate_ok (doc_fps doc)"
    using t doc_asset_mem [OF a] by (auto simp: doc_typed_def list_all_iff)
  have "0 < speed_percent c" using sp by (auto simp: validate_clip_speed_def CLIP_SPEED_MIN_PERCENT_def)
  from speed_scaled_rate_ok [OF at(1) this] eff have re: "rate_ok eff" by (simp add: clip_effective_fps_def)
  show ?thesis
  proof (rule that [OF a eff re dt])
    show "0 \<le> r_start (source_range c)" "r_start (source_range c) < r_end (source_range c)"
      "r_end (source_range c) \<le> asset_duration a"
      using rg by (auto simp: validate_source_range_def split: if_splits)
    show "asset_duration a \<le> i64_max" using at by (simp add: in_i64_def)
    show "clip_duration doc c = map_err TimeMapping (map_source_range_to_project (source_range c) eff (doc_fps doc))"
      using a eff c(3) by (simp add: clip_duration_def is_span_def)
  qed
qed

end
