(* ===== verification/Timeline_Ops.thy ===== *)
theory Timeline_Ops
  imports Edit_Base
begin

text \<open>
  The timeline operations of \<^verbatim>\<open>crates/kinewright-core/src/operation.rs\<close>: tracks, clip creation, split,
  trim, move, three-point edits, slip, roll, slide, replace, delete, ripple, links and markers. Each
  handler takes the document and returns the edited document or the first error; on an error the source
  drops the half-edited candidate, so nothing of it is kept here.
\<close>

section \<open>Definitions\<close>

subsection \<open>Tracks\<close>

definition add_track :: "document \<Rightarrow> track \<Rightarrow> op_error + document" where
  "add_track doc tr =
     (if list_ex (\<lambda>e. track_id e = track_id tr) (tracks doc)
      then Inl (TimelineError (DuplicateTrack (track_id tr)))
      else if clips tr \<noteq> [] then Inl (TimelineError (NewTrackNotEmpty (track_id tr)))
      else Inr (doc\<lparr>tracks := tracks doc @ [tr]\<rparr>))"

definition remove_track :: "document \<Rightarrow> track_id \<Rightarrow> op_error + document" where
  "remove_track doc t =
     rbind (find_track doc t) (\<lambda>index.
     let mix = audio_mix doc;
         bs = map (\<lambda>b. b\<lparr>bus_tracks := filter (\<lambda>x. x \<noteq> t) (bus_tracks b),
                        ducking_sidechain_tracks := filter (\<lambda>x. x \<noteq> t) (ducking_sidechain_tracks b)\<rparr>) (buses mix)
     in Inr (doc\<lparr>tracks := remove_at index (tracks doc),
                 audio_mix := mix\<lparr>buses := filter (\<lambda>b. bus_tracks b \<noteq> []) bs,
                                  track_mixes := filter (\<lambda>e. mix_track e \<noteq> t) (track_mixes mix)\<rparr>\<rparr>))"

definition set_track_sync_lock :: "document \<Rightarrow> track_id \<Rightarrow> bool \<Rightarrow> op_error + document" where
  "set_track_sync_lock doc t locked =
     rbind (find_track doc t) (\<lambda>index. Inr (upd_track index (\<lambda>tr. tr\<lparr>sync_lock := locked\<rparr>) doc))"

subsection \<open>New clips\<close>

text \<open>The \<^verbatim>\<open>Clip\<close> literal of the four creating operations.\<close>

definition fresh_clip :: "clip_id \<Rightarrow> asset_id \<Rightarrow> trange \<Rightarrow> clip_content \<Rightarrow> timecode \<Rightarrow> effect list \<Rightarrow> clip" where
  "fresh_clip i asset source cont start effs =
     \<lparr>clip_id = i, clip_asset = asset, source_range = source, content = cont, timeline_start = start,
      effects = effs, transition_in = None, link = None, audio_gain_tenth_db = 0,
      audio_fade_in_frames = 0, audio_fade_out_frames = 0, audio_gain_curve = None,
      speed_percent = 100, clip_enabled = True, clip_enabled_curve = None, clip_blend_mode = Normal\<rparr>"

definition add_generated_clip ::
    "document \<Rightarrow> track_id \<Rightarrow> timecode \<Rightarrow> timecode \<Rightarrow> clip_content \<Rightarrow> effect list \<Rightarrow> op_error + document" where
  "add_generated_clip doc t start duration cont effs =
     rbind (find_track doc t) (\<lambda>ti.
     if start < 0 then Inl (TimelineError (NegativeTimelinePosition start))
     else if duration \<le> 0 then Inl (TimelineError (InvalidSourceRange 0 duration))
     else rbind (ok_or TimeOverflow (timecode_checked_add start duration)) (\<lambda>_.
     if track_kind (tracks doc ! ti) \<noteq> TrackVideo
     then Inl (TimelineError (if cont = Adjustment then AdjustmentOnAudioTrack t else SolidOnAudioTrack t))
     else rbind (next_clip_id doc) (\<lambda>i.
     Inr (push_clip ti (fresh_clip i 0 (rng 0 duration) cont start effs) doc))))"

definition add_clip :: "document \<Rightarrow> track_id \<Rightarrow> asset_id \<Rightarrow> timecode \<Rightarrow> trange \<Rightarrow> op_error + document" where
  "add_clip doc t asset start source =
     (if start < 0 then Inl (TimelineError (NegativeTimelinePosition start))
      else rbind (ok_or (TimelineError (MissingAsset asset)) (doc_asset doc asset)) (\<lambda>a.
      if asset_kind a = MediaImage
      then Inl (TimelineError (InvalidSourceRange (r_start source) (r_end source)))
      else rbind (validate_source_range a source) (\<lambda>_.
      rbind (find_track doc t) (\<lambda>ti.
      rbind (validate_track_compatibility a (tracks doc ! ti)) (\<lambda>_.
      rbind (next_clip_id doc) (\<lambda>i.
      Inr (push_clip ti (fresh_clip i asset source Media start []) doc)))))))"

definition add_title :: "document \<Rightarrow> track_id \<Rightarrow> timecode \<Rightarrow> timecode \<Rightarrow> title \<Rightarrow> op_error + document" where
  "add_title doc t start duration ttl =
     (if start < 0 then Inl (TimelineError (NegativeTimelinePosition start))
      else if duration \<le> 0 then Inl (ClipError (InvalidTitleDuration duration))
      else rbind (find_track doc t) (\<lambda>ti.
      if track_kind (tracks doc ! ti) \<noteq> TrackVideo then Inl (TimelineError (TitleOnAudioTrack t))
      else rbind (next_clip_id doc) (\<lambda>i.
      rbind (validate_title i ttl duration) (\<lambda>_.
      Inr (push_clip ti (fresh_clip i 0 (rng 0 duration) (Title_Content ttl) start []) doc)))))"

definition add_freeze_frame ::
    "document \<Rightarrow> track_id \<Rightarrow> timecode \<Rightarrow> timecode \<Rightarrow> asset_id \<Rightarrow> timecode \<Rightarrow> op_error + document" where
  "add_freeze_frame doc t start duration asset frame =
     (if start < 0 then Inl (TimelineError (NegativeTimelinePosition start))
      else if duration \<le> 0 then Inl (ClipError (InvalidFreezeDuration duration))
      else rbind (find_track doc t) (\<lambda>ti.
      if track_kind (tracks doc ! ti) \<noteq> TrackVideo then Inl (TimelineError (FreezeOnAudioTrack t))
      else rbind (ok_or (TimelineError (MissingAsset asset)) (doc_asset doc asset)) (\<lambda>a.
      rbind (validate_track_compatibility a (tracks doc ! ti)) (\<lambda>_.
      rbind (validate_freeze_source_frame a frame) (\<lambda>_.
      rbind (next_clip_id doc) (\<lambda>i.
      Inr (push_clip ti (fresh_clip i asset (rng 0 duration) (Freeze frame) start []) doc)))))))"

subsection \<open>Split, trim, move\<close>

definition set_range_end :: "timecode \<Rightarrow> clip \<Rightarrow> clip" where
  "set_range_end e c = c\<lparr>source_range := rng (r_start (source_range c)) e\<rparr>"

definition set_range_start :: "timecode \<Rightarrow> clip \<Rightarrow> clip" where
  "set_range_start s c = c\<lparr>source_range := rng s (r_end (source_range c))\<rparr>"

definition map_title :: "(title \<Rightarrow> title) \<Rightarrow> clip \<Rightarrow> clip" where
  "map_title f c = (case content c of Title_Content t \<Rightarrow> c\<lparr>content := Title_Content (f t)\<rparr> | _ \<Rightarrow> c)"

definition split_source :: "document \<Rightarrow> clip \<Rightarrow> timecode \<Rightarrow> timecode \<Rightarrow> op_error + timecode" where
  "split_source doc original offset t =
     (if is_media (content original)
      then rbind (ok_or (TimelineError (MissingAsset (clip_asset original)))
                    (doc_asset doc (clip_asset original))) (\<lambda>a.
           rbind (map_err TimeMapping (clip_effective_fps (asset_fps a) original)) (\<lambda>effective.
           ok_or (TimelineError (UnrepresentableSplit (clip_id original) t))
             (find_source_boundary (source_range original) offset effective (doc_fps doc))))
      else ok_or TimeOverflow (timecode_checked_add (r_start (source_range original)) offset))"

definition split_left :: "timecode \<Rightarrow> timecode \<Rightarrow> clip \<Rightarrow> clip" where
  "split_left source_split offset c =
     (map_title (\<lambda>t. t\<lparr>fade_in_frames := min (fade_in_frames t) offset, fade_out_frames := 0\<rparr>)
       (set_range_end source_split c))\<lparr>audio_fade_out_frames := 0\<rparr>"

definition split_right :: "clip_id \<Rightarrow> timecode \<Rightarrow> timecode \<Rightarrow> timecode \<Rightarrow> clip \<Rightarrow> op_error + clip" where
  "split_right new_id source_split t end original =
     (let right = (set_range_start source_split original)\<lparr>clip_id := new_id, timeline_start := t,
                    transition_in := None\<rparr>
      in rbind (case content right of
                  Title_Content ttl \<Rightarrow>
                    rbind (ok_or TimeOverflow (timecode_checked_sub end t)) (\<lambda>right_duration.
                    Inr (right\<lparr>content := Title_Content (ttl\<lparr>fade_in_frames := 0,
                           fade_out_frames := min (fade_out_frames ttl) right_duration\<rparr>)\<rparr>))
                | _ \<Rightarrow> Inr right) (\<lambda>right. Inr (right\<lparr>audio_fade_in_frames := 0\<rparr>)))"

definition split_clip :: "document \<Rightarrow> clip_id \<Rightarrow> timecode \<Rightarrow> op_error + document" where
  "split_clip doc i t =
     rbind (find_clip doc i) (\<lambda>(ti, ci).
     let original = clip_at doc ti ci
     in rbind (clip_end doc original) (\<lambda>end.
     if t \<le> timeline_start original \<or> end \<le> t then Inl (TimelineError (SplitOutsideClip i t))
     else rbind (ok_or TimeOverflow (timecode_checked_sub t (timeline_start original))) (\<lambda>offset.
     rbind (split_source doc original offset t) (\<lambda>source_split.
     rbind (next_clip_id doc) (\<lambda>new_id.
     let doc1 = upd_clip ti ci (split_left source_split offset) doc
     in rbind (split_right new_id source_split t end original) (\<lambda>right.
     rbind (clip_duration doc1 right) (\<lambda>right_duration.
     let right' = clamp_clip_audio_fades right_duration (rebase_clip_automation offset right_duration right);
         doc2 = push_clip ti right' doc1
     in rbind (ok_or (TimelineError (MissingClip i))
                 (position (\<lambda>c. clip_id c = i) (clips (tracks doc2 ! ti)))) (\<lambda>left_index.
        survive_clip_edit ti left_index 0 doc2))))))))"

definition trim_source_fps :: "document \<Rightarrow> clip \<Rightarrow> trange \<Rightarrow> op_error + rational" where
  "trim_source_fps doc original new_source =
     (if is_media (content original)
      then rbind (ok_or (TimelineError (MissingAsset (clip_asset original)))
                    (doc_asset doc (clip_asset original))) (\<lambda>a.
           rbind (validate_source_range a new_source) (\<lambda>_.
           map_err TimeMapping (clip_effective_fps (asset_fps a) original)))
      else rbind (validate_title_range new_source) (\<lambda>_. Inr (doc_fps doc)))"

definition trim_start :: "document \<Rightarrow> clip \<Rightarrow> trange \<Rightarrow> rational \<Rightarrow> op_error + timecode" where
  "trim_start doc original new_source source_fps =
     (let old_start = r_start (source_range original); new_start = r_start new_source
      in if old_start < new_start
         then rbind (map_err TimeMapping (map_source_range_to_project (rng old_start new_start) source_fps (doc_fps doc)))
                (\<lambda>offset. ok_or TimeOverflow (timecode_checked_add (timeline_start original) offset))
         else if new_start < old_start
         then rbind (map_err TimeMapping (map_source_range_to_project (rng new_start old_start) source_fps (doc_fps doc)))
                (\<lambda>offset. ok_or TimeOverflow (timecode_checked_sub (timeline_start original) offset))
         else Inr (timeline_start original))"

definition trim_clip :: "document \<Rightarrow> clip_id \<Rightarrow> trange \<Rightarrow> op_error + document" where
  "trim_clip doc i new_source =
     rbind (find_clip doc i) (\<lambda>(ti, ci).
     let original = clip_at doc ti ci
     in rbind (trim_source_fps doc original new_source) (\<lambda>source_fps.
     rbind (trim_start doc original new_source source_fps) (\<lambda>shifted_start.
     if shifted_start < 0 then Inl (TimelineError (NegativeTimelinePosition shifted_start))
     else rbind (ok_or TimeOverflow (timecode_checked_sub (r_end new_source) (r_start new_source))) (\<lambda>duration.
     let doc1 = upd_clip ti ci (\<lambda>c. map_title (\<lambda>t. t\<lparr>fade_in_frames := min (fade_in_frames t) duration,
                    fade_out_frames := min (fade_out_frames t) duration\<rparr>)
                  (c\<lparr>timeline_start := shifted_start, source_range := new_source\<rparr>)) doc
     in survive_clip_edit ti ci (wrap_i64 (shifted_start - timeline_start original)) doc1))))"

definition move_compatible :: "document \<Rightarrow> clip \<Rightarrow> track \<Rightarrow> op_error + unit" where
  "move_compatible doc c target =
     (case content c of
        Media \<Rightarrow> rbind (ok_or (TimelineError (MissingAsset (clip_asset c))) (doc_asset doc (clip_asset c)))
                   (\<lambda>a. validate_track_compatibility a target)
      | Title_Content _ \<Rightarrow> ensure (track_kind target = TrackVideo) (TimelineError (TitleOnAudioTrack (track_id target)))
      | Freeze _ \<Rightarrow> ensure (track_kind target = TrackVideo) (TimelineError (FreezeOnAudioTrack (track_id target)))
      | Adjustment \<Rightarrow> ensure (track_kind target = TrackVideo) (TimelineError (AdjustmentOnAudioTrack (track_id target)))
      | Solid _ \<Rightarrow> ensure (track_kind target = TrackVideo) (TimelineError (SolidOnAudioTrack (track_id target))))"

definition move_clip :: "document \<Rightarrow> clip_id \<Rightarrow> track_id \<Rightarrow> timecode \<Rightarrow> op_error + document" where
  "move_clip doc i target to =
     (if to < 0 then Inl (TimelineError (NegativeTimelinePosition to))
      else rbind (find_clip doc i) (\<lambda>(ti, ci).
      rbind (find_track doc target) (\<lambda>target_index.
      let c = clip_at doc ti ci
      in rbind (move_compatible doc c (tracks doc ! target_index)) (\<lambda>_.
      Inr (push_clip target_index (c\<lparr>timeline_start := to\<rparr>) (upd_clips ti (remove_at ci) doc))))))"

definition delete_clip :: "document \<Rightarrow> clip_id \<Rightarrow> op_error + document" where
  "delete_clip doc i = rbind (find_clip doc i) (\<lambda>(ti, ci). Inr (upd_clips ti (remove_at ci) doc))"

subsection \<open>Ripple\<close>

definition ripple_delete_clip :: "document \<Rightarrow> clip_id \<Rightarrow> op_error + document" where
  "ripple_delete_clip doc i =
     rbind (find_clip doc i) (\<lambda>(ti, ci).
     let removed = clip_at doc ti ci
     in rbind (clip_duration doc removed) (\<lambda>duration.
     rbind (ok_or TimeOverflow (timecode_checked_add (timeline_start removed) duration)) (\<lambda>ripple_point.
     let source_track = track_id (tracks doc ! ti);
         affected = (\<lambda>tr. track_id tr = source_track \<or> sync_lock tr);
         doc1 = upd_clips ti (remove_at ci) doc
     in rbind (shift_clips affected ripple_point (\<lambda>s. timecode_checked_sub s duration) (tracks doc1)) (\<lambda>trs.
     let rippled = map track_id (filter affected (tracks doc1));
         doc2 = ripple_track_automation rippled
                  (\<lambda>k. ripple_delete_curve k (timeline_start removed) ripple_point duration)
                  (doc1\<lparr>tracks := trs\<rparr>)
     in rbind (shift_markers_left ripple_point duration (markers doc2)) (\<lambda>ms.
     Inr (doc2\<lparr>markers := ms\<rparr>))))))"

text \<open>The missing-track check walks a \<^verbatim>\<open>HashSet\<close> of the targets; the model walks the list.\<close>

definition ripple_insert_gap_for_tracks ::
    "document \<Rightarrow> track_id list \<Rightarrow> timecode \<Rightarrow> timecode \<Rightarrow> op_error + document" where
  "ripple_insert_gap_for_tracks doc targets t duration =
     (if t < 0 then Inl (TimelineError (NegativeTimelinePosition t))
      else if duration \<le> 0 then Inl (TimelineError (InvalidRippleDuration duration))
      else rbind (for_each (\<lambda>x. ensure (track_exists doc x) (TimelineError (MissingTrack x))) targets) (\<lambda>_.
      let affected = (\<lambda>tr. track_id tr \<in> set targets \<or> sync_lock tr)
      in rbind (shift_clips affected t (\<lambda>s. timecode_checked_add s duration) (tracks doc)) (\<lambda>trs.
      rbind (recompute_duration (doc\<lparr>tracks := trs\<rparr>)) (\<lambda>doc1.
      let rippled = map track_id (filter affected (tracks doc));
          doc2 = ripple_track_automation rippled
                   (\<lambda>k. ripple_insert_curve k t duration (doc_duration doc1)) doc1
      in rbind (shift_markers_right t duration (markers doc2)) (\<lambda>ms.
      Inr (doc2\<lparr>markers := ms\<rparr>))))))"

definition ripple_insert_gap :: "document \<Rightarrow> track_id \<Rightarrow> timecode \<Rightarrow> timecode \<Rightarrow> op_error + document" where
  "ripple_insert_gap doc t start duration = ripple_insert_gap_for_tracks doc [t] start duration"

subsection \<open>Links\<close>

definition validate_clip_selection :: "document \<Rightarrow> clip_id list \<Rightarrow> nat \<Rightarrow> op_error + unit" where
  "validate_clip_selection doc cs minimum =
     (if length cs < minimum then Inl (TimelineError (TooFewLinkedClips minimum))
      else each_new id (\<lambda>c. TimelineError (DuplicateClipSelection c))
             (\<lambda>c. rbind (find_clip doc c) (\<lambda>_. Inr ())) [] cs)"

definition map_clips :: "(clip \<Rightarrow> clip) \<Rightarrow> document \<Rightarrow> document" where
  "map_clips f doc = doc\<lparr>tracks := map (\<lambda>tr. tr\<lparr>clips := map f (clips tr)\<rparr>) (tracks doc)\<rparr>"

definition link_clips :: "document \<Rightarrow> clip_id list \<Rightarrow> op_error + document" where
  "link_clips doc cs =
     rbind (validate_clip_selection doc cs 2) (\<lambda>_.
     rbind (next_link_id doc) (\<lambda>l.
     Inr (map_clips (\<lambda>c. if clip_id c \<in> set cs then c\<lparr>link := Some l\<rparr> else c) doc)))"

definition unlink_clips :: "document \<Rightarrow> clip_id list \<Rightarrow> op_error + document" where
  "unlink_clips doc cs =
     rbind (validate_clip_selection doc cs 1) (\<lambda>_.
     Inr (map_clips (\<lambda>c. if clip_id c \<in> set cs then c\<lparr>link := None\<rparr> else c) doc))"

subsection \<open>Three-point edits\<close>

definition validate_three_point_selection ::
    "timecode option \<Rightarrow> timecode option \<Rightarrow> timecode option \<Rightarrow> timecode option \<Rightarrow> op_error + unit" where
  "validate_three_point_selection si so tin tout =
     ensure (length (filter (\<lambda>x. x \<noteq> None) [si, so, tin, tout]) = 3) (TimelineError InvalidThreePointSelection)"

definition validate_timeline_range :: "timecode \<Rightarrow> timecode \<Rightarrow> op_error + unit" where
  "validate_timeline_range start end =
     ensure (\<not> (start < 0 \<or> end \<le> start)) (TimelineError (InvalidThreePointTimeline start end))"

definition timeline_duration :: "trange \<Rightarrow> op_error + timecode" where
  "timeline_duration r = ok_or TimeOverflow (timecode_checked_sub (r_end r) (r_start r))"

definition three_point_ranges ::
    "document \<Rightarrow> media_asset \<Rightarrow> timecode option \<Rightarrow> timecode option \<Rightarrow> timecode option \<Rightarrow> timecode option
      \<Rightarrow> op_error + (trange \<times> trange)" where
  "three_point_ranges doc a si so tin tout =
     (case (si, so, tin, tout) of
        (Some s, Some e, Some t, None) \<Rightarrow>
          rbind (validate_source_range a (rng s e)) (\<lambda>_.
          rbind (map_err TimeMapping (map_source_range_to_project (rng s e) (asset_fps a) (doc_fps doc))) (\<lambda>d.
          rbind (ok_or TimeOverflow (timecode_checked_add t d)) (\<lambda>t'.
          Inr (rng s e, rng t t'))))
      | (Some s, Some e, None, Some t') \<Rightarrow>
          rbind (validate_source_range a (rng s e)) (\<lambda>_.
          rbind (map_err TimeMapping (map_source_range_to_project (rng s e) (asset_fps a) (doc_fps doc))) (\<lambda>d.
          rbind (ok_or TimeOverflow (timecode_checked_sub t' d)) (\<lambda>t.
          Inr (rng s e, rng t t'))))
      | (Some s, None, Some t, Some t') \<Rightarrow>
          rbind (validate_timeline_range t t') (\<lambda>_.
          rbind (ok_or TimeOverflow (timecode_checked_sub t' t)) (\<lambda>d.
          rbind (ok_or (TimelineError (InvalidThreePointSource s (asset_duration a)))
                   (source_end_for_project_duration s (asset_duration a) (asset_fps a) (doc_fps doc) d)) (\<lambda>e.
          Inr (rng s e, rng t t'))))
      | (None, Some e, Some t, Some t') \<Rightarrow>
          rbind (validate_timeline_range t t') (\<lambda>_.
          rbind (ok_or TimeOverflow (timecode_checked_sub t' t)) (\<lambda>d.
          rbind (ok_or (TimelineError (InvalidThreePointSource 0 e))
                   (source_start_for_project_duration 0 e (asset_fps a) (doc_fps doc) d)) (\<lambda>s.
          Inr (rng s e, rng t t'))))
      | _ \<Rightarrow> Inl (TimelineError InvalidThreePointSelection))"

definition derive_three_point_ranges ::
    "document \<Rightarrow> media_asset \<Rightarrow> timecode option \<Rightarrow> timecode option \<Rightarrow> timecode option \<Rightarrow> timecode option
      \<Rightarrow> op_error + (trange \<times> trange)" where
  "derive_three_point_ranges doc a si so tin tout =
     rbind (three_point_ranges doc a si so tin tout) (\<lambda>(source, timeline).
     rbind (validate_source_range a source) (\<lambda>_.
     rbind (validate_timeline_range (r_start timeline) (r_end timeline)) (\<lambda>_.
     rbind (timeline_duration timeline) (\<lambda>duration.
     rbind (map_err TimeMapping (map_source_range_to_project source (asset_fps a) (doc_fps doc))) (\<lambda>mapped.
     if mapped \<noteq> duration
     then Inl (TimelineError (InvalidThreePointSource (r_start source) (r_end source)))
     else Inr (source, timeline))))))"

text \<open>The first clip of a track with a frame strictly on both sides of a boundary; a clip whose end
  cannot be computed is skipped.\<close>

definition straddling_clip :: "document \<Rightarrow> timecode \<Rightarrow> track \<Rightarrow> clip_id option" where
  "straddling_clip doc boundary tr =
     map_option clip_id (find (\<lambda>c. case clip_end doc c of
         Inl _ \<Rightarrow> False | Inr end \<Rightarrow> timeline_start c < boundary \<and> boundary < end) (clips tr))"

definition clear_boundary :: "track_id \<Rightarrow> timecode \<Rightarrow> document \<Rightarrow> op_error + document" where
  "clear_boundary t boundary doc =
     rbind (ok_or (TimelineError (MissingTrack t)) (doc_track doc t)) (\<lambda>tr.
     case straddling_clip doc boundary tr of
       Some c \<Rightarrow> split_clip doc c boundary
     | None \<Rightarrow> Inr doc)"

definition clear_track_range :: "document \<Rightarrow> track_id \<Rightarrow> trange \<Rightarrow> op_error + document" where
  "clear_track_range doc t r =
     rbind (fold_res (clear_boundary t) [r_end r, r_start r] doc) (\<lambda>doc1.
     rbind (ok_or (TimelineError (MissingTrack t)) (doc_track doc1 t)) (\<lambda>tr.
     let remove = map clip_id (filter (\<lambda>c. case clip_end doc1 c of
             Inl _ \<Rightarrow> False | Inr end \<Rightarrow> r_start r \<le> timeline_start c \<and> end \<le> r_end r) (clips tr))
     in fold_res (\<lambda>c d. delete_clip d c) remove doc1))"

text \<open>The insert arm shared by both three-point edits: split what straddles the point on every affected
  track, then open the gap.\<close>

definition split_straddling :: "document \<Rightarrow> (track \<Rightarrow> bool) \<Rightarrow> timecode \<Rightarrow> op_error + document" where
  "split_straddling doc affected t =
     fold_res (\<lambda>c d. split_clip d c t)
       (List.map_filter (straddling_clip doc t) (filter affected (tracks doc))) doc"

definition three_point_edit ::
    "document \<Rightarrow> track_id \<Rightarrow> asset_id \<Rightarrow> timecode option \<Rightarrow> timecode option \<Rightarrow> timecode option
      \<Rightarrow> timecode option \<Rightarrow> three_point_mode \<Rightarrow> op_error + document" where
  "three_point_edit doc t asset si so tin tout mode =
     rbind (validate_three_point_selection si so tin tout) (\<lambda>_.
     rbind (ok_or (TimelineError (MissingAsset asset)) (doc_asset doc asset)) (\<lambda>a.
     rbind (ok_or (TimelineError (MissingTrack t)) (doc_track doc t)) (\<lambda>tr.
     rbind (validate_track_compatibility a tr) (\<lambda>_.
     rbind (derive_three_point_ranges doc a si so tin tout) (\<lambda>(source, timeline).
     rbind (timeline_duration timeline) (\<lambda>duration.
     rbind (case mode of
              Insert \<Rightarrow>
                rbind (split_straddling doc (\<lambda>x. track_id x = t \<or> sync_lock x) (r_start timeline)) (\<lambda>doc1.
                ripple_insert_gap doc1 t (r_start timeline) duration)
            | Overwrite \<Rightarrow> clear_track_range doc t timeline) (\<lambda>doc2.
     add_clip doc2 t asset (r_start timeline) source)))))))"

fun patch_routes ::
    "document \<Rightarrow> media_asset \<Rightarrow> track_id list \<Rightarrow> (string \<times> track_kind \<times> track_id) list
      \<Rightarrow> op_error + track_id list" where
  "patch_routes doc a routes [] = Inr routes"
| "patch_routes doc a routes ((component, expected, t) # rest) =
     (if t \<in> set routes then Inl (TimelineError (DuplicateSourcePatchTrack t))
      else rbind (ok_or (TimelineError (MissingTrack t)) (doc_track doc t)) (\<lambda>tr.
      if track_kind tr \<noteq> expected
      then Inl (TimelineError (InvalidSourcePatchRouteKind component expected (track_kind tr) t))
      else rbind (validate_track_compatibility a tr) (\<lambda>_.
      patch_routes doc a (routes @ [t]) rest)))"

definition validate_source_patch_routes ::
    "document \<Rightarrow> media_asset \<Rightarrow> track_id option \<Rightarrow> track_id option \<Rightarrow> op_error + track_id list" where
  "validate_source_patch_routes doc a video audio =
     rbind (patch_routes doc a [] (List.map_filter (\<lambda>(component, expected, t). map_option (\<lambda>x. (component, expected, x)) t)
              [(''video'', TrackVideo, video), (''audio'', TrackAudio, audio)])) (\<lambda>routes.
     if routes = [] then Inl (TimelineError EmptySourcePatch) else Inr routes)"

text \<open>The final loop: one clip per routed track, remembering the ids.\<close>

fun add_routed_clips ::
    "track_id list \<Rightarrow> asset_id \<Rightarrow> timecode \<Rightarrow> trange \<Rightarrow> document \<Rightarrow> op_error + (document \<times> clip_id list)" where
  "add_routed_clips [] asset start source doc = Inr (doc, [])"
| "add_routed_clips (t # ts) asset start source doc =
     rbind (next_clip_id doc) (\<lambda>i.
     rbind (add_clip doc t asset start source) (\<lambda>doc1.
     rbind (add_routed_clips ts asset start source doc1) (\<lambda>(doc2, ids). Inr (doc2, i # ids))))"

definition patched_three_point_edit ::
    "document \<Rightarrow> asset_id \<Rightarrow> timecode option \<Rightarrow> timecode option \<Rightarrow> timecode option
      \<Rightarrow> timecode option \<Rightarrow> three_point_mode \<Rightarrow> track_id option \<Rightarrow> track_id option \<Rightarrow> op_error + document" where
  "patched_three_point_edit doc asset si so tin tout mode video audio =
     rbind (validate_three_point_selection si so tin tout) (\<lambda>_.
     rbind (ok_or (TimelineError (MissingAsset asset)) (doc_asset doc asset)) (\<lambda>a.
     rbind (validate_source_patch_routes doc a video audio) (\<lambda>targets.
     rbind (derive_three_point_ranges doc a si so tin tout) (\<lambda>(source, timeline).
     rbind (timeline_duration timeline) (\<lambda>duration.
     rbind (case mode of
              Insert \<Rightarrow>
                rbind (split_straddling doc (\<lambda>x. track_id x \<in> set targets \<or> sync_lock x) (r_start timeline)) (\<lambda>doc1.
                ripple_insert_gap_for_tracks doc1 targets (r_start timeline) duration)
            | Overwrite \<Rightarrow> fold_res (\<lambda>t d. clear_track_range d t timeline) targets doc) (\<lambda>doc2.
     rbind (add_routed_clips targets asset (r_start timeline) source doc2) (\<lambda>(doc3, ids).
     if length ids = 2 then link_clips doc3 ids else Inr doc3)))))))"

subsection \<open>Slip, roll, slide, replace\<close>

definition slip_clip :: "document \<Rightarrow> clip_id \<Rightarrow> timecode \<Rightarrow> op_error + document" where
  "slip_clip doc i new_source_in =
     rbind (find_clip doc i) (\<lambda>(ti, ci).
     let c = clip_at doc ti ci
     in if \<not> is_media (content c) then Inl (TimelineError (EditorialRequiresMedia i))
        else rbind (ok_or TimeOverflow (timecode_checked_sub (r_end (source_range c)) (r_start (source_range c)))) (\<lambda>span.
        rbind (ok_or TimeOverflow (timecode_checked_add new_source_in span)) (\<lambda>new_source_out.
        rbind (ok_or (TimelineError (MissingAsset (clip_asset c))) (doc_asset doc (clip_asset c))) (\<lambda>a.
        rbind (validate_source_range a (rng new_source_in new_source_out)) (\<lambda>_.
        Inr (upd_clip ti ci (\<lambda>c. c\<lparr>source_range := rng new_source_in new_source_out\<rparr>) doc))))))"

text \<open>The new source end of the clip on the left of a moved edit point, and the new source start of the
  media clip on its right.\<close>

definition left_source_out :: "document \<Rightarrow> clip \<Rightarrow> timecode \<Rightarrow> timecode \<Rightarrow> op_error + timecode" where
  "left_source_out doc left left_duration at =
     rbind (if is_media (content left)
            then rbind (ok_or (TimelineError (MissingAsset (clip_asset left))) (doc_asset doc (clip_asset left))) (\<lambda>a.
                 rbind (map_err TimeMapping (clip_effective_fps (asset_fps a) left)) (\<lambda>fps.
                 Inr (source_end_for_project_duration (r_start (source_range left)) (asset_duration a) fps
                        (doc_fps doc) left_duration)))
            else Inr (timecode_checked_add (r_start (source_range left)) left_duration)) (\<lambda>found.
     ok_or (TimelineError (UnrepresentableEditBoundary (clip_id left) at)) found)"

definition right_source_in ::
    "document \<Rightarrow> clip \<Rightarrow> timecode \<Rightarrow> timecode \<Rightarrow> timecode option \<Rightarrow> op_error + timecode" where
  "right_source_in doc right right_duration at span_start =
     rbind (if is_media (content right)
            then rbind (ok_or (TimelineError (MissingAsset (clip_asset right))) (doc_asset doc (clip_asset right))) (\<lambda>a.
                 rbind (map_err TimeMapping (clip_effective_fps (asset_fps a) right)) (\<lambda>fps.
                 Inr (source_start_for_project_duration 0 (r_end (source_range right)) fps
                        (doc_fps doc) right_duration)))
            else Inr span_start) (\<lambda>found.
     ok_or (TimelineError (UnrepresentableEditBoundary (clip_id right) at)) found)"

definition right_range_out :: "clip \<Rightarrow> timecode \<Rightarrow> timecode \<Rightarrow> op_error + timecode" where
  "right_range_out right right_duration at =
     (if is_media (content right) then Inr (r_end (source_range right))
      else ok_or (TimelineError (UnrepresentableEditBoundary (clip_id right) at))
             (case timecode_checked_add (r_start (source_range right)) right_duration of
                Some e \<Rightarrow> if r_start (source_range right) < e then Some e else None
              | None \<Rightarrow> None))"

definition roll_edit :: "document \<Rightarrow> clip_id \<Rightarrow> clip_id \<Rightarrow> timecode \<Rightarrow> op_error + document" where
  "roll_edit doc left_id right_id to =
     rbind (find_clip doc left_id) (\<lambda>(ti, li).
     rbind (find_clip doc right_id) (\<lambda>(rti, ri).
     if ti \<noteq> rti \<or> ri \<noteq> li + 1 then Inl (TimelineError (ClipsNotAdjacent left_id right_id))
     else let left = clip_at doc ti li; right = clip_at doc ti ri
     in rbind (clip_end doc left) (\<lambda>left_end.
     rbind (clip_end doc right) (\<lambda>right_end.
     if left_end \<noteq> timeline_start right \<or> to \<le> timeline_start left \<or> right_end \<le> to
     then Inl (TimelineError (ClipsNotAdjacent left_id right_id))
     else rbind (ok_or TimeOverflow (timecode_checked_sub to (timeline_start left))) (\<lambda>left_duration.
     rbind (left_source_out doc left left_duration to) (\<lambda>source_out.
     rbind (ok_or TimeOverflow (timecode_checked_sub right_end to)) (\<lambda>right_duration.
     rbind (right_source_in doc right right_duration to (Some (r_start (source_range right)))) (\<lambda>source_in.
     rbind (right_range_out right right_duration to) (\<lambda>right_range_end.
     let doc1 = upd_clip ti ri (\<lambda>c. (set_range_start source_in (set_range_end right_range_end c))\<lparr>timeline_start := to\<rparr>)
                  (upd_clip ti li (set_range_end source_out) doc)
     in rbind (survive_clip_edit ti li 0 doc1) (\<lambda>doc2.
        survive_clip_edit ti ri (wrap_i64 (to - timeline_start right)) doc2))))))))))"

definition slide_clip :: "document \<Rightarrow> clip_id \<Rightarrow> timecode \<Rightarrow> op_error + document" where
  "slide_clip doc i to =
     rbind (find_clip doc i) (\<lambda>(ti, ci).
     if ci = 0 \<or> length (clips (tracks doc ! ti)) \<le> ci + 1
     then Inl (TimelineError (SlideRequiresNeighbors i))
     else let left = clip_at doc ti (ci - 1); middle = clip_at doc ti ci; right = clip_at doc ti (ci + 1)
     in rbind (clip_end doc left) (\<lambda>left_end.
     rbind (clip_duration doc middle) (\<lambda>middle_duration.
     rbind (clip_end doc middle) (\<lambda>middle_end.
     rbind (clip_end doc right) (\<lambda>right_end.
     rbind (ok_or TimeOverflow (timecode_checked_add to middle_duration)) (\<lambda>new_end.
     if left_end \<noteq> timeline_start middle \<or> middle_end \<noteq> timeline_start right
        \<or> to \<le> timeline_start left \<or> right_end \<le> new_end
     then Inl (TimelineError (SlideRequiresNeighbors i))
     else rbind (ok_or TimeOverflow (timecode_checked_sub to (timeline_start left))) (\<lambda>left_duration.
     rbind (left_source_out doc left left_duration to) (\<lambda>source_out.
     rbind (ok_or TimeOverflow (timecode_checked_sub right_end new_end)) (\<lambda>right_duration.
     rbind (right_source_in doc right right_duration new_end
              (timecode_checked_sub (r_end (source_range right)) right_duration)) (\<lambda>source_in.
     let doc1 = upd_clip ti (ci + 1) (\<lambda>c. (set_range_start source_in c)\<lparr>timeline_start := new_end\<rparr>)
                  (upd_clip ti ci (\<lambda>c. c\<lparr>timeline_start := to\<rparr>)
                    (upd_clip ti (ci - 1) (set_range_end source_out) doc))
     in rbind (survive_clip_edit ti (ci - 1) 0 doc1) (\<lambda>doc2.
        survive_clip_edit ti (ci + 1) (wrap_i64 (to - timeline_start middle)) doc2)))))))))))"

text \<open>\<^verbatim>\<open>Iterator::min_by_key\<close>: the first element with the least key.\<close>

fun min_by_key :: "('a \<Rightarrow> int) \<Rightarrow> 'a list \<Rightarrow> 'a option" where
  "min_by_key k [] = None"
| "min_by_key k (x # xs) = Some (fold (\<lambda>y best. if k y < k best then y else best) xs x)"

definition fit_speed :: "document \<Rightarrow> media_asset \<Rightarrow> trange \<Rightarrow> timecode \<Rightarrow> clip_id \<Rightarrow> op_error + int" where
  "fit_speed doc a source required i =
     rbind (map_err TimeMapping (map_source_range_to_project source (asset_fps a) (doc_fps doc))) (\<lambda>real_time.
     rbind (ok_or TimeOverflow
              (Option.bind (checked_mul_i64 real_time 100) (\<lambda>v.
               Option.bind (checked_add_i64 v (required sdiv 2)) (\<lambda>v.
               if required = 0 \<or> \<not> in_i64 (v sdiv required) then None
               else if in_u32 (v sdiv required) then Some (v sdiv required) else None)))) (\<lambda>ideal.
     ok_or (TimelineError (FitToFillUnrepresentable i))
       (min_by_key (\<lambda>speed. \<bar>speed - ideal\<bar>)
          (filter (\<lambda>speed. case speed_scaled_fps (asset_fps a) speed of
               Inl _ \<Rightarrow> False
             | Inr effective \<Rightarrow> is_ok_and (\<lambda>d. d = required)
                                 (map_source_range_to_project source effective (doc_fps doc)))
             [CLIP_SPEED_MIN_PERCENT..CLIP_SPEED_MAX_PERCENT]))))"

definition replace_clip :: "document \<Rightarrow> clip_id \<Rightarrow> asset_id \<Rightarrow> trange \<Rightarrow> bool \<Rightarrow> op_error + document" where
  "replace_clip doc i asset source fit_to_fill =
     rbind (find_clip doc i) (\<lambda>(ti, ci).
     let original = clip_at doc ti ci
     in rbind (require_media original) (\<lambda>_.
     rbind (clip_duration doc original) (\<lambda>required.
     rbind (ok_or (TimelineError (MissingAsset asset)) (doc_asset doc asset)) (\<lambda>a.
     rbind (validate_source_range a source) (\<lambda>_.
     rbind (validate_track_compatibility a (tracks doc ! ti)) (\<lambda>_.
     rbind (if fit_to_fill then fit_speed doc a source required i
            else rbind (map_err TimeMapping (map_source_range_to_project source (asset_fps a) (doc_fps doc))) (\<lambda>actual.
                 if actual \<noteq> required
                 then Inl (TimelineError (ReplacementDurationMismatch i required actual))
                 else Inr 100)) (\<lambda>speed.
     Inr (upd_clip ti ci (\<lambda>c. c\<lparr>clip_asset := asset, source_range := source, content := Media,
            speed_percent := speed\<rparr>) doc))))))))"

subsection \<open>Clip settings\<close>

definition set_clip_speed :: "document \<Rightarrow> clip_id \<Rightarrow> int \<Rightarrow> op_error + document" where
  "set_clip_speed doc i speed =
     rbind (validate_clip_speed speed) (\<lambda>_.
     rbind (find_clip doc i) (\<lambda>(ti, ci).
     if \<not> is_media (content (clip_at doc ti ci)) then Inl (ClipError (SpeedOnNonMediaClip i))
     else survive_clip_edit ti ci 0 (upd_clip ti ci (\<lambda>c. c\<lparr>speed_percent := speed\<rparr>) doc)))"

definition set_clip_audio :: "document \<Rightarrow> clip_id \<Rightarrow> int \<Rightarrow> timecode \<Rightarrow> timecode \<Rightarrow> op_error + document" where
  "set_clip_audio doc i gain fade_in fade_out =
     rbind (find_clip doc i) (\<lambda>(ti, ci).
     case no_audio_error i (content (clip_at doc ti ci)) of
       Some e \<Rightarrow> Inl e
     | None \<Rightarrow>
         rbind (clip_duration doc (clip_at doc ti ci)) (\<lambda>d.
         rbind (validate_clip_audio_values i gain fade_in fade_out d) (\<lambda>_.
         Inr (upd_clip ti ci (\<lambda>c. c\<lparr>audio_gain_tenth_db := gain, audio_fade_in_frames := fade_in,
                audio_fade_out_frames := fade_out\<rparr>) doc))))"

definition set_clip_gain_envelope :: "document \<Rightarrow> clip_id \<Rightarrow> automation_curve option \<Rightarrow> op_error + document" where
  "set_clip_gain_envelope doc i curve =
     rbind (find_clip doc i) (\<lambda>(ti, ci).
     case no_audio_error i (content (clip_at doc ti ci)) of
       Some e \<Rightarrow> Inl e
     | None \<Rightarrow>
         rbind (clip_duration doc (clip_at doc ti ci)) (\<lambda>d.
         rbind (case curve of Some k \<Rightarrow> validate_clip_gain_curve i k d | None \<Rightarrow> Inr ()) (\<lambda>_.
         Inr (upd_clip ti ci (\<lambda>c. c\<lparr>audio_gain_curve := curve\<rparr>) doc))))"

definition set_clip_enabled :: "document \<Rightarrow> clip_id \<Rightarrow> bool \<Rightarrow> op_error + document" where
  "set_clip_enabled doc i enabled =
     rbind (find_clip doc i) (\<lambda>(ti, ci). Inr (upd_clip ti ci (\<lambda>c. c\<lparr>clip_enabled := enabled\<rparr>) doc))"

definition set_clip_enabled_curve :: "document \<Rightarrow> clip_id \<Rightarrow> automation_curve option \<Rightarrow> op_error + document" where
  "set_clip_enabled_curve doc i curve =
     rbind (find_clip doc i) (\<lambda>(ti, ci).
     rbind (case curve of Some k \<Rightarrow> validate_clip_enabled_curve i k | None \<Rightarrow> Inr ()) (\<lambda>_.
     Inr (upd_clip ti ci (\<lambda>c. c\<lparr>clip_enabled_curve := curve\<rparr>) doc)))"

definition set_clip_blend_mode :: "document \<Rightarrow> clip_id \<Rightarrow> blend_mode \<Rightarrow> op_error + document" where
  "set_clip_blend_mode doc i mode =
     rbind (find_clip doc i) (\<lambda>(ti, ci). Inr (upd_clip ti ci (\<lambda>c. c\<lparr>clip_blend_mode := mode\<rparr>) doc))"

definition set_solid_color :: "document \<Rightarrow> clip_id \<Rightarrow> solid_color \<Rightarrow> op_error + document" where
  "set_solid_color doc i color =
     rbind (find_clip doc i) (\<lambda>(ti, ci).
     case content (clip_at doc ti ci) of
       Solid _ \<Rightarrow> Inr (upd_clip ti ci (\<lambda>c. c\<lparr>content := Solid color\<rparr>) doc)
     | _ \<Rightarrow> Inl (ClipError (SolidColorOnNonSolidClip i)))"

definition add_transition :: "document \<Rightarrow> clip_id \<Rightarrow> transition \<Rightarrow> op_error + document" where
  "add_transition doc i t =
     rbind (find_clip doc i) (\<lambda>(ti, ci).
     if transition_in (clip_at doc ti ci) \<noteq> None then Inl (ClipError (DuplicateTransition i))
     else rbind (validate_transition doc (clip_at doc ti ci) t) (\<lambda>_.
     Inr (upd_clip ti ci (\<lambda>c. c\<lparr>transition_in := Some t\<rparr>) doc)))"

definition remove_transition :: "document \<Rightarrow> clip_id \<Rightarrow> op_error + document" where
  "remove_transition doc i =
     rbind (find_clip doc i) (\<lambda>(ti, ci).
     if transition_in (clip_at doc ti ci) = None then Inl (ClipError (MissingTransition i))
     else Inr (upd_clip ti ci (\<lambda>c. c\<lparr>transition_in := None\<rparr>) doc))"

text \<open>The assignment of one title parameter.\<close>

definition assign_title_param :: "title \<Rightarrow> string \<Rightarrow> param_value \<Rightarrow> op_error + title" where
  "assign_title_param t name v =
     (case v of
        Text s \<Rightarrow>
          if name = ''text'' then Inr (t\<lparr>title_text := s\<rparr>)
          else if name = ''position''
          then rbind (ok_or (ClipError (InvalidTitleParamType name)) (title_position_from_str s)) (\<lambda>p.
               Inr (t\<lparr>title_position := p, title_caption_preset := None\<rparr>))
          else if name = ''caption_preset''
          then if s = ''none'' then Inr (t\<lparr>title_caption_preset := None\<rparr>)
               else rbind (ok_or (ClipError (InvalidTitleParamType name)) (caption_preset_from_str s)) (\<lambda>preset.
                    let resolved = caption_preset_title preset (title_text t)
                    in Inr (t\<lparr>font_size_token := font_size_token resolved, color_token := color_token resolved,
                              title_position := title_position resolved,
                              background_scrim := background_scrim resolved,
                              title_caption_preset := Some preset\<rparr>))
          else Inl (ClipError (InvalidTitleParamType name))
      | Integer n \<Rightarrow>
          if name = ''font_size_token''
          then if in_u8 n then Inr (t\<lparr>font_size_token := n, title_caption_preset := None\<rparr>)
               else Inl (ClipError (TitleParamOutOfRange name 0 u8_max n))
          else if name = ''color_token''
          then if in_u8 n then Inr (t\<lparr>color_token := n, title_caption_preset := None\<rparr>)
               else Inl (ClipError (TitleParamOutOfRange name 0 u8_max n))
          else if name = ''fade_in_frames'' then Inr (t\<lparr>fade_in_frames := n\<rparr>)
          else if name = ''fade_out_frames'' then Inr (t\<lparr>fade_out_frames := n\<rparr>)
          else Inl (ClipError (InvalidTitleParamType name))
      | Boolean b \<Rightarrow>
          if name = ''background_scrim'' then Inr (t\<lparr>background_scrim := b, title_caption_preset := None\<rparr>)
          else Inl (ClipError (InvalidTitleParamType name)))"

definition set_title_param :: "document \<Rightarrow> clip_id \<Rightarrow> string \<Rightarrow> param_value \<Rightarrow> op_error + document" where
  "set_title_param doc i name v =
     rbind (find_clip doc i) (\<lambda>(ti, ci).
     rbind (clip_duration doc (clip_at doc ti ci)) (\<lambda>duration.
     case content (clip_at doc ti ci) of
       Title_Content t \<Rightarrow>
         rbind (validate_title_parameter name v) (\<lambda>_.
         rbind (assign_title_param t name v) (\<lambda>t'.
         rbind (validate_title i t' duration) (\<lambda>_.
         Inr (upd_clip ti ci (\<lambda>c. c\<lparr>content := Title_Content t'\<rparr>) doc))))
     | _ \<Rightarrow> Inl (ClipError (NotTitleClip i))))"

subsection \<open>Markers\<close>

definition add_marker :: "document \<Rightarrow> marker \<Rightarrow> op_error + document" where
  "add_marker doc m =
     (if doc_marker doc (marker_id m) \<noteq> None then Inl (ClipError (DuplicateMarker (marker_id m)))
      else rbind (validate_marker m) (\<lambda>_. Inr (doc\<lparr>markers := sort_markers (markers doc @ [m])\<rparr>)))"

definition find_marker :: "document \<Rightarrow> marker_id \<Rightarrow> op_error + nat" where
  "find_marker doc i = ok_or (ClipError (MissingMarker i)) (position (\<lambda>m. marker_id m = i) (markers doc))"

definition remove_marker :: "document \<Rightarrow> marker_id \<Rightarrow> op_error + document" where
  "remove_marker doc i = rbind (find_marker doc i) (\<lambda>n. Inr (doc\<lparr>markers := remove_at n (markers doc)\<rparr>))"

definition move_marker :: "document \<Rightarrow> marker_id \<Rightarrow> timecode \<Rightarrow> op_error + document" where
  "move_marker doc i to =
     (if to < 0 then Inl (ClipError (NegativeMarkerPosition to))
      else rbind (find_marker doc i) (\<lambda>n.
        Inr (doc\<lparr>markers := sort_markers ((markers doc)[n := (markers doc ! n)\<lparr>marker_position := to\<rparr>])\<rparr>)))"

definition assign_marker_param :: "marker \<Rightarrow> string \<Rightarrow> param_value \<Rightarrow> op_error + marker" where
  "assign_marker_param m name v =
     (if name = ''label''
      then (case v of Text s \<Rightarrow> Inr (m\<lparr>marker_label := s\<rparr>)
            | _ \<Rightarrow> Inl (ClipError (InvalidMarkerParamType (marker_id m) name)))
      else if name = ''color_token''
      then (case v of
              Integer n \<Rightarrow> if in_u8 n then Inr (m\<lparr>marker_color_token := n\<rparr>)
                           else Inl (ClipError (InvalidMarkerColor u8_max MARKER_COLOR_TOKEN_COUNT))
            | _ \<Rightarrow> Inl (ClipError (InvalidMarkerParamType (marker_id m) name)))
      else if name = ''position''
      then (case v of Integer n \<Rightarrow> Inr (m\<lparr>marker_position := n\<rparr>)
            | _ \<Rightarrow> Inl (ClipError (InvalidMarkerParamType (marker_id m) name)))
      else Inl (ClipError (UnknownMarkerParam (marker_id m) name)))"

definition set_marker_param :: "document \<Rightarrow> marker_id \<Rightarrow> string \<Rightarrow> param_value \<Rightarrow> op_error + document" where
  "set_marker_param doc i name v =
     rbind (find_marker doc i) (\<lambda>n.
     rbind (assign_marker_param (markers doc ! n) name v) (\<lambda>m.
     rbind (validate_marker m) (\<lambda>_.
     Inr (doc\<lparr>markers := sort_markers ((markers doc)[n := m])\<rparr>))))"

end
