(* ===== verification/Timeline_Props.thy ===== *)
theory Timeline_Props
  imports Timeline_Ops
begin

text \<open>
  What the timeline operations guarantee: the source-frame searches agree with a walk over every frame,
  a split partitions the clip and shows the same picture, roll and slide move only the edit points they
  name, slip keeps its length to a frame, three-point edits solve for the missing point exactly, and the
  ripple edits keep tracks in order.
\<close>

section \<open>Lemmas\<close>

lemma all_clips_split:
  assumes "c \<in> set (all_clips doc)" "distinct (map clip_id (all_clips doc))"
  obtains rest where "mset (all_clips doc) = add_mset c rest" "\<And>x. x \<in># rest \<Longrightarrow> clip_id x \<noteq> clip_id c"
proof -
  obtain xs ys where "all_clips doc = xs @ c # ys" using assms(1) by (auto dest: split_list)
  with assms(2) show ?thesis by (intro that [of "mset (xs @ ys)"]) (auto simp: rev_image_eqI)
qed

lemma map_title_keeps [simp]:
  "clip_id (map_title f c) = clip_id c" "clip_asset (map_title f c) = clip_asset c"
  "source_range (map_title f c) = source_range c" "speed_percent (map_title f c) = speed_percent c"
  "timeline_start (map_title f c) = timeline_start c" "effects (map_title f c) = effects c"
  "is_media (content (map_title f c)) = is_media (content c)"
  by (simp_all add: map_title_def is_media_def split: clip_content.split)

lemma set_range_keeps [simp]:
  "clip_id (set_range_end e c) = clip_id c" "clip_id (set_range_start s c) = clip_id c"
  "clip_asset (set_range_end e c) = clip_asset c" "clip_asset (set_range_start s c) = clip_asset c"
  "speed_percent (set_range_end e c) = speed_percent c" "speed_percent (set_range_start s c) = speed_percent c"
  "timeline_start (set_range_end e c) = timeline_start c" "timeline_start (set_range_start s c) = timeline_start c"
  "content (set_range_end e c) = content c" "content (set_range_start s c) = content c"
  "effects (set_range_end e c) = effects c" "effects (set_range_start s c) = effects c"
  "source_range (set_range_end e c) = rng (r_start (source_range c)) e"
  "source_range (set_range_start s c) = rng s (r_end (source_range c))"
  by (simp_all add: set_range_end_def set_range_start_def)

lemma split_left_keeps [simp]:
  "clip_id (split_left m off c) = clip_id c" "clip_asset (split_left m off c) = clip_asset c"
  "speed_percent (split_left m off c) = speed_percent c" "timeline_start (split_left m off c) = timeline_start c"
  "is_media (content (split_left m off c)) = is_media (content c)" "effects (split_left m off c) = effects c"
  "source_range (split_left m off c) = rng (r_start (source_range c)) m"
  by (simp_all add: split_left_def)

lemma split_right_InrD:
  assumes "split_right j m t e c = Inr r"
  shows "clip_id r = j" "clip_asset r = clip_asset c" "speed_percent r = speed_percent c" "timeline_start r = t"
    "is_media (content r) = is_media (content c)" "effects r = effects c"
    "source_range r = rng m (r_end (source_range c))"
  using assms
  by (auto simp: split_right_def Let_def rbind_eq_Inr is_media_def split: clip_content.splits)

text \<open>The lengths of the two parts of a split source range.\<close>

lemma split_source_lengths:
  assumes v: "validate_document doc = Inr ()" and ty: "doc_typed doc"
    and c: "tr \<in> set (tracks doc)" "c \<in> set (clips tr)"
    and off: "0 < off" and d: "clip_duration doc c = Inr d" "off < d"
    and sp: "split_source doc c off t = Inr m"
    and l: "source_range l = rng (r_start (source_range c)) m" "clip_asset l = clip_asset c"
      "speed_percent l = speed_percent c" "is_media (content l) = is_media (content c)"
    and r: "source_range r = rng m (r_end (source_range c))" "clip_asset r = clip_asset c"
      "speed_percent r = speed_percent c" "is_media (content r) = is_media (content c)"
  shows "clip_duration doc l = Inr off" "clip_duration doc r = Inr (d - off)"
proof -
  have "clip_duration doc l = Inr off \<and> clip_duration doc r = Inr (d - off)"
  proof (cases "is_media (content c)")
    case True
    obtain a eff where a: "doc_asset doc (clip_asset c) = Some a" "clip_effective_fps (asset_fps a) c = Inr eff"
      and ok: "rate_ok eff" "rate_ok (doc_fps doc)" and top: "r_end (source_range c) \<le> asset_duration a" "asset_duration a \<le> i64_max"
      and dur: "clip_duration doc c = map_err TimeMapping (map_source_range_to_project (source_range c) eff (doc_fps doc))"
      using media_clip_facts [OF v ty c True] by metis
    have whole: "map_source_range_to_project (source_range c) eff (doc_fps doc) = Inr d" using dur d(1) by (metis map_err_eq_Inr)
    have "find_source_boundary (source_range c) off eff (doc_fps doc) = Some m"
      using sp True a by (simp add: split_source_def)
    note b = find_source_boundary_sound [OF this]
    have "rng (r_start (source_range c)) (r_end (source_range c)) = source_range c" by (cases "source_range c") simp
    with map_range_split [OF ok b(2) _ _ b(3), of d] whole top
    have "map_source_range_to_project (rng m (r_end (source_range c))) eff (doc_fps doc) = Inr (d - off)" by simp
    moreover have "clip_effective_fps (asset_fps a) l = Inr eff" "clip_effective_fps (asset_fps a) r = Inr eff"
      using a(2) l(3) r(3) by (simp_all add: clip_effective_fps_def)
    ultimately show ?thesis
      using b(3) a(1) True l r by (simp add: clip_duration_def is_span_def)
  next
    case False
    have m: "m = r_start (source_range c) + off"
      using sp False by (simp add: split_source_def)
    have "in_i64 d" "d = r_end (source_range c) - r_start (source_range c)"
      using d False by (simp_all add: clip_duration_def is_span_def)
    then show ?thesis
      using False l r m off d(2) by (auto simp: clip_duration_def is_span_def int_width_defs)
  qed
  then show "clip_duration doc l = Inr off" "clip_duration doc r = Inr (d - off)" by simp_all
qed

text \<open>Everything a successful split does, in one elimination rule.\<close>

lemma split_clip_InrE:
  assumes "split_clip doc i t = Inr doc'"
  obtains ti ci e off m j right0 rd doc2 li ld where
    "find_clip doc i = Inr (ti, ci)" "clip_end doc (clip_at doc ti ci) = Inr e"
    "timeline_start (clip_at doc ti ci) < t" "t < e" "off = t - timeline_start (clip_at doc ti ci)"
    "split_source doc (clip_at doc ti ci) off t = Inr m" "next_clip_id doc = Inr j"
    "split_right j m t e (clip_at doc ti ci) = Inr right0" "clip_duration doc right0 = Inr rd"
    "doc2 = push_clip ti (clamp_clip_audio_fades rd (rebase_clip_automation off rd right0))
       (upd_clip ti ci (split_left m off) doc)"
    "position (\<lambda>c. clip_id c = i) (clips (tracks doc2 ! ti)) = Some li"
    "clip_duration doc2 (clip_at doc2 ti li) = Inr ld"
    "doc' = upd_clip ti li (\<lambda>c. clamp_clip_audio_fades ld (rebase_clip_automation 0 ld c)) doc2"
proof -
  have same: "clip_duration (upd_clip ti ci (split_left m off) doc) c = clip_duration doc c" for ti ci m off c
    by (rule clip_duration_cong) simp_all
  from assms show ?thesis
    by (auto simp: split_clip_def Let_def rbind_eq_Inr same elim!: survive_clip_edit_InrD intro!: that
        split: prod.splits)
qed

lemma validated_ids_distinct:
  assumes "validate_document doc = Inr ()"
  shows "distinct (map clip_id (all_clips doc))" "distinct (map track_id (tracks doc))"
  using validate_document_parts(7) [OF assms] validate_tracks_ok unfolding all_clips_def by blast+

lemma clip_end_dur: "clip_end doc c = Inr e \<longleftrightarrow> (\<exists>d. clip_duration doc c = Inr d \<and> in_i64 e \<and> e = timeline_start c + d)"
  by (auto simp: clip_end_def rbind_eq_Inr)

text \<open>The clips after a split: the original gives way to the edited left part and the rebased right part.\<close>

lemma split_clip_parts:
  assumes v: "validate_document doc = Inr ()" and s: "split_clip doc i t = Inr doc'"
  obtains tr orig e off m right0 rd ld rest where
    "tr \<in> set (tracks doc)" "orig \<in> set (clips tr)" "clip_id orig = i"
    "clip_end doc orig = Inr e" "timeline_start orig < t" "t < e" "off = t - timeline_start orig"
    "split_source doc orig off t = Inr m"
    "split_right (clip_id right0) m t e orig = Inr right0" "clip_id right0 \<notin> clip_id ` set (all_clips doc)"
    "mset (all_clips doc) = add_mset orig rest"
    "mset (all_clips doc') = add_mset (clamp_clip_audio_fades ld (rebase_clip_automation 0 ld (split_left m off orig)))
       (add_mset (clamp_clip_audio_fades rd (rebase_clip_automation off rd right0)) rest)"
    "media_pool doc' = media_pool doc" "doc_fps doc' = doc_fps doc"
proof -
  from s obtain ti ci e off m j right0 rd doc2 li ld where
    f: "find_clip doc i = Inr (ti, ci)" and e: "clip_end doc (clip_at doc ti ci) = Inr e"
    and b: "timeline_start (clip_at doc ti ci) < t" "t < e" and off: "off = t - timeline_start (clip_at doc ti ci)"
    and sp: "split_source doc (clip_at doc ti ci) off t = Inr m" and j: "next_clip_id doc = Inr j"
    and r0: "split_right j m t e (clip_at doc ti ci) = Inr right0"
    and doc2: "doc2 = push_clip ti (clamp_clip_audio_fades rd (rebase_clip_automation off rd right0))
       (upd_clip ti ci (split_left m off) doc)"
    and li: "position (\<lambda>c. clip_id c = i) (clips (tracks doc2 ! ti)) = Some li"
    and doc': "doc' = upd_clip ti li (\<lambda>c. clamp_clip_audio_fades ld (rebase_clip_automation 0 ld c)) doc2"
    by (rule split_clip_InrE)
  define orig left0 right where "orig = clip_at doc ti ci" and "left0 = split_left m off orig"
    and "right = clamp_clip_audio_fades rd (rebase_clip_automation off rd right0)"
  note fi = find_clip_InrD [OF f] and fm = find_clip_mem [OF f, folded orig_def]
  have oi: "clip_id orig = i" using fi by (simp add: orig_def)
  obtain rest where rest: "mset (all_clips doc) = add_mset orig rest" "\<And>x. x \<in># rest \<Longrightarrow> clip_id x \<noteq> i"
    using all_clips_split [OF fm(3) validated_ids_distinct(1) [OF v]] oi by metis
  have rj: "clip_id right0 = j" using split_right_InrD [OF r0] by simp
  have fresh: "j \<notin> clip_id ` set (all_clips doc)" using next_clip_id_fresh [OF j] by force
  then have ri: "clip_id right \<noteq> i" using fm(3) oi rj by (auto simp: right_def)
  have "mset (all_clips (upd_clip ti ci (split_left m off) doc)) = add_mset left0 rest"
    using mset_upd_clip [OF fi(1,2), of "split_left m off"] rest(1) by (simp add: orig_def left0_def)
  then have all2: "mset (all_clips doc2) = add_mset right (add_mset left0 rest)"
    using mset_push_clip [of ti "upd_clip ti ci (split_left m off) doc" right] fi(1) by (simp add: doc2 right_def)
  have ti2: "ti < length (tracks doc2)" using fi(1) by (simp add: doc2)
  note pos = position_Some [OF li]
  have "clip_at doc2 ti li \<in> set (all_clips doc2)"
    using pos ti2 by (auto simp: clip_at_def all_clips_concat intro!: bexI [OF _ nth_mem])
  then have "clip_at doc2 ti li \<in># add_mset right (add_mset left0 rest)" using all2 by (metis set_mset_mset)
  moreover have "clip_id (clip_at doc2 ti li) = i" using pos by (simp add: clip_at_def)
  ultimately have left0: "clip_at doc2 ti li = left0" using rest(2) ri by auto
  have "mset (all_clips doc') = add_mset (clamp_clip_audio_fades ld (rebase_clip_automation 0 ld left0)) (add_mset right rest)"
    using mset_upd_clip [OF ti2, of li "\<lambda>c. clamp_clip_audio_fades ld (rebase_clip_automation 0 ld c)"] pos
    by (simp add: doc' left0 all2 add_mset_commute)
  then show ?thesis
    using that [of "tracks doc ! ti" orig e off m right0 rest ld rd] fm oi e b off sp r0 rj fresh rest(1)
    by (simp add: orig_def left0_def right_def doc' doc2)
qed

text \<open>
  Claim C9. Splitting a clip of a valid project at an interior frame partitions it: the left half keeps
  the clip's id, start and source start and ends exactly at the split frame, the right half carries a
  fresh id, starts exactly there and ends where the clip ended, the two source ranges abut and together
  are the old one, and no other clip of the timeline changes. The bisection for the source frame and the
  rounding of both halves lose and duplicate nothing.
\<close>

theorem split_clip_partitions:
  assumes v: "validate_document doc = Inr ()" and ty: "doc_typed doc" and s: "split_clip doc i t = Inr doc'"
  shows "\<exists>original left right rest.
      mset (all_clips doc) = add_mset original rest
    \<and> mset (all_clips doc') = add_mset left (add_mset right rest)
    \<and> clip_id original = i \<and> clip_id left = i \<and> clip_id right \<notin> clip_id ` set (all_clips doc)
    \<and> timeline_start left = timeline_start original \<and> clip_end doc' left = Inr t
    \<and> timeline_start right = t \<and> clip_end doc' right = clip_end doc original
    \<and> r_start (source_range left) = r_start (source_range original)
    \<and> r_end (source_range left) = r_start (source_range right)
    \<and> r_end (source_range right) = r_end (source_range original)"
proof -
  from split_clip_parts [OF v s] obtain tr orig e off m right0 rd ld rest where
    fm: "tr \<in> set (tracks doc)" "orig \<in> set (clips tr)" and oi: "clip_id orig = i"
    and e: "clip_end doc orig = Inr e" and b: "timeline_start orig < t" "t < e" and off: "off = t - timeline_start orig"
    and sp: "split_source doc orig off t = Inr m"
    and r0: "split_right (clip_id right0) m t e orig = Inr right0" and fresh: "clip_id right0 \<notin> clip_id ` set (all_clips doc)"
    and all: "mset (all_clips doc) = add_mset orig rest"
      "mset (all_clips doc') = add_mset (clamp_clip_audio_fades ld (rebase_clip_automation 0 ld (split_left m off orig)))
         (add_mset (clamp_clip_audio_fades rd (rebase_clip_automation off rd right0)) rest)"
    and frame: "media_pool doc' = media_pool doc" "doc_fps doc' = doc_fps doc" .
  define left right where "left = clamp_clip_audio_fades ld (rebase_clip_automation 0 ld (split_left m off orig))"
    and "right = clamp_clip_audio_fades rd (rebase_clip_automation off rd right0)"
  note rr = split_right_InrD [OF r0]
  from e obtain d where d: "clip_duration doc orig = Inr d" "e = timeline_start orig + d" "in_i64 e"
    by (auto simp: clip_end_dur)
  have lens: "clip_duration doc (split_left m off orig) = Inr off" "clip_duration doc right0 = Inr (d - off)"
    using split_source_lengths [OF v ty fm, of off d t m "split_left m off orig" right0] b d sp rr off by auto
  have "clip_duration doc' left = Inr off" "clip_duration doc' right = Inr (d - off)"
    using lens clip_duration_cong [of doc' doc left "split_left m off orig"]
      clip_duration_cong [of doc' doc right right0] frame
    by (simp_all add: left_def right_def)
  moreover have "timeline_start left = timeline_start orig" "timeline_start right = t"
    using rr(4) by (simp_all add: left_def right_def)
  moreover have "in_i64 t"
  proof -
    have "orig \<in> set (all_clips doc)" using fm by (auto simp: all_clips_concat)
    then have "in_i64 (timeline_start orig)" using ty by (simp add: doc_typed_def list_all_iff)
    then show ?thesis using b d(3) by (simp add: int_width_defs)
  qed
  ultimately have "clip_end doc' left = Inr t" "clip_end doc' right = Inr e"
    using d off by (simp_all add: clip_end_dur)
  then show ?thesis
    using all oi fresh e rr
    by (intro exI [of _ orig] exI [of _ left] exI [of _ right] exI [of _ rest])
      (simp add: left_def right_def)
qed


lemma sample_typed: "doc_typed sample_project"
  by code_simp

lemma sample_split_ok: "case split_clip sample_project 1 10 of Inr _ \<Rightarrow> True | Inl _ \<Rightarrow> False"
  by code_simp

theorem split_clip_partitions_witness:
  "\<exists>doc' left right rest. split_clip sample_project 1 10 = Inr doc'
    \<and> mset (all_clips doc') = add_mset left (add_mset right rest) \<and> clip_end doc' left = Inr 10
    \<and> timeline_start right = 10 \<and> r_end (source_range left) = r_start (source_range right)"
proof -
  from sample_split_ok obtain doc' where d: "split_clip sample_project 1 10 = Inr doc'" by (auto split: sum.splits)
  show ?thesis using split_clip_partitions [OF sample_project_valid sample_typed d] d by blast
qed

subsection \<open>The searches against a scan\<close>

text \<open>The reference the bisections are checked against: walk every frame of an interval.\<close>

definition scan_frames :: "(int \<Rightarrow> time_mapping_error + timecode) \<Rightarrow> timecode \<Rightarrow> int \<Rightarrow> int \<Rightarrow> timecode option" where
  "scan_frames mapped target low high = find (\<lambda>m. mapped m = Inr target) [low..high]"

lemma scan_frames_None:
  "scan_frames mapped target low high = None \<longleftrightarrow> (\<forall>m. low \<le> m \<and> m \<le> high \<longrightarrow> mapped m \<noteq> Inr target)"
  by (auto simp: scan_frames_def find_None_iff)

text \<open>
  The three bisections that turn a timeline position back into a source frame are as good as a
  walk over every frame: each finds a frame exactly when some frame of its interval maps to the requested
  length, and what it returns lies in the interval and maps to it. So an unrepresentable split or edit
  boundary is only ever reported when there is none.
\<close>

theorem source_searches_equal_scan:
  assumes r: "rate_ok sf" "rate_ok pf" "0 \<le> s" "s < e" "e \<le> i64_max"
    and whole: "map_source_range_to_project (rng s e) sf pf = Inr d"
  shows "(case find_source_boundary (rng s e) t sf pf of
        None \<Rightarrow> scan_frames (\<lambda>m. map_source_range_to_project (rng s m) sf pf) t (s + 1) (e - 1) = None
      | Some m \<Rightarrow> s < m \<and> m < e \<and> map_source_range_to_project (rng s m) sf pf = Inr t)
    \<and> (case source_end_for_project_duration s e sf pf t of
        None \<Rightarrow> scan_frames (\<lambda>m. map_source_range_to_project (rng s m) sf pf) t (s + 1) e = None
      | Some m \<Rightarrow> s < m \<and> m \<le> e \<and> map_source_range_to_project (rng s m) sf pf = Inr t)
    \<and> (case source_start_for_project_duration s e sf pf t of
        None \<Rightarrow> scan_frames (\<lambda>m. map_source_range_to_project (rng m e) sf pf) t s (e - 1) = None
      | Some m \<Rightarrow> s \<le> m \<and> m < e \<and> map_source_range_to_project (rng m e) sf pf = Inr t)"
  unfolding scan_frames_None
proof (intro conjI)
  show "case find_source_boundary (rng s e) t sf pf of
        None \<Rightarrow> \<forall>m. s + 1 \<le> m \<and> m \<le> e - 1 \<longrightarrow> map_source_range_to_project (rng s m) sf pf \<noteq> Inr t
      | Some m \<Rightarrow> s < m \<and> m < e \<and> map_source_range_to_project (rng s m) sf pf = Inr t"
    using find_source_boundary_complete [OF r(1,2), of "rng s e" d _ t] r(5) whole
      find_source_boundary_sound [of "rng s e" t sf pf]
    by (cases "find_source_boundary (rng s e) t sf pf") fastforce+
  show "case source_end_for_project_duration s e sf pf t of
        None \<Rightarrow> \<forall>m. s + 1 \<le> m \<and> m \<le> e \<longrightarrow> map_source_range_to_project (rng s m) sf pf \<noteq> Inr t
      | Some m \<Rightarrow> s < m \<and> m \<le> e \<and> map_source_range_to_project (rng s m) sf pf = Inr t"
    using source_end_complete [OF r(1,2,5) whole, of _ t] source_end_sound [of s e sf pf t]
    by (cases "source_end_for_project_duration s e sf pf t") fastforce+
  show "case source_start_for_project_duration s e sf pf t of
        None \<Rightarrow> \<forall>m. s \<le> m \<and> m \<le> e - 1 \<longrightarrow> map_source_range_to_project (rng m e) sf pf \<noteq> Inr t
      | Some m \<Rightarrow> s \<le> m \<and> m < e \<and> map_source_range_to_project (rng m e) sf pf = Inr t"
    using source_start_complete [OF r(1,2,5,3), of _ t] source_start_sound [of s e sf pf t]
    by (cases "source_start_for_project_duration s e sf pf t") fastforce+
qed

lemma rate_ok_24_30: "rate_ok \<lparr>numerator = 24, denominator = 1\<rparr>" "rate_ok \<lparr>numerator = 30, denominator = 1\<rparr>"
  by (simp_all add: rate_ok_def int_width_defs)

theorem source_searches_equal_scan_witness:
  "find_source_boundary (rng 0 24) 10 \<lparr>numerator = 24, denominator = 1\<rparr> \<lparr>numerator = 30, denominator = 1\<rparr> = Some 8
    \<and> map_source_range_to_project (rng 0 8) \<lparr>numerator = 24, denominator = 1\<rparr> \<lparr>numerator = 30, denominator = 1\<rparr> = Inr 10"
proof -
  have f: "find_source_boundary (rng 0 24) 10 \<lparr>numerator = 24, denominator = 1\<rparr> \<lparr>numerator = 30, denominator = 1\<rparr> = Some 8"
    by code_simp
  have w: "map_source_range_to_project (rng 0 24) \<lparr>numerator = 24, denominator = 1\<rparr> \<lparr>numerator = 30, denominator = 1\<rparr> = Inr 30"
    by code_simp
  show ?thesis
    using f source_searches_equal_scan [OF rate_ok_24_30, of 0 24 30 10] w by (simp add: int_width_defs)
qed


subsection \<open>Moving an edit point\<close>

lemma upd_clip_upd_clip:
  "ti < length (tracks doc) \<Longrightarrow> ci < length (clips (tracks doc ! ti)) \<Longrightarrow>
     upd_clip ti ci f (upd_clip ti ci g doc) = upd_clip ti ci (\<lambda>c. f (g c)) doc"
  by (simp add: upd_clip_def upd_clips_def upd_track_def)

lemma upd_clip_commute:
  "ti < length (tracks doc) \<Longrightarrow> ci \<noteq> cj \<Longrightarrow>
     upd_clip ti ci f (upd_clip ti cj g doc) = upd_clip ti cj g (upd_clip ti ci f doc)"
  by (simp add: upd_clip_def upd_clips_def upd_track_def list_update_swap)

lemma clip_at_upd_other:
  "ti < length (tracks doc) \<Longrightarrow> ci \<noteq> cj \<Longrightarrow> clip_at (upd_clip ti cj g doc) ti ci = clip_at doc ti ci"
  by (simp add: clip_at_def)

lemma left_source_out_duration:
  assumes "left_source_out doc c d t = Inr m" "in_i64 d"
  shows "clip_duration doc (set_range_end m c) = Inr d"
  using assms source_end_sound(3)
  by (auto simp: left_source_out_def rbind_eq_Inr clip_duration_def is_span_def clip_effective_fps_def
      timecode_checked_add_def timecode_checked_sub_def checked_add_i64_def checked_sub_i64_def split: if_splits)

lemma right_source_in_duration:
  assumes "right_source_in doc c d t s0 = Inr m" "is_media (content c)"
  shows "clip_duration doc (set_range_start m c) = Inr d"
  using assms source_start_sound(3)
  by (auto simp: right_source_in_def rbind_eq_Inr clip_duration_def is_span_def clip_effective_fps_def)


lemma right_source_in_span_duration:
  assumes "right_source_in doc c d t (timecode_checked_sub (r_end (source_range c)) d) = Inr m"
    "in_i64 d" "\<not> is_media (content c)"
  shows "clip_duration doc (set_range_start m c) = Inr d"
  using assms by (auto simp: clip_duration_def is_span_def right_source_in_def)

lemma survive_twice:
  assumes ti: "ti < length (tracks doc)" and n: "li < length (clips (tracks doc ! ti))" "ri < length (clips (tracks doc ! ti))"
    and ne: "li \<noteq> ri"
    and s: "survive_clip_edit ti li da doc = Inr doc2" "survive_clip_edit ti ri db doc2 = Inr doc'"
  obtains ld rd where
    "doc' = upd_clips ti (\<lambda>cs. cs[li := clamp_clip_audio_fades ld (rebase_clip_automation da ld (cs ! li)),
                                   ri := clamp_clip_audio_fades rd (rebase_clip_automation db rd (cs ! ri))]) doc"
proof -
  from survive_clip_edit_InrD [OF s(1)] obtain ld where
    "doc2 = upd_clip ti li (\<lambda>c. clamp_clip_audio_fades ld (rebase_clip_automation da ld c)) doc" .
  moreover from survive_clip_edit_InrD [OF s(2)] obtain rd where
    "doc' = upd_clip ti ri (\<lambda>c. clamp_clip_audio_fades rd (rebase_clip_automation db rd c)) doc2" .
  ultimately show ?thesis
    using ti n ne by (intro that [of ld rd]) (simp add: upd_clip_def upd_clips_def upd_track_def)
qed

lemma upd_clips_cong:
  "f (clips (tracks doc ! ti)) = g (clips (tracks doc ! ti)) \<Longrightarrow> upd_clips ti f doc = upd_clips ti g doc"
  by (simp add: upd_clips_def upd_track_def)

lemma upd_clips_upd_clip:
  "ti < length (tracks doc) \<Longrightarrow> upd_clips ti f (upd_clip ti ci g doc) = upd_clips ti (\<lambda>cs. f (cs[ci := g (cs ! ci)])) doc"
  by (simp add: upd_clip_def upd_clips_def upd_track_def)

lemma upd_pre: "ti < length (tracks doc) \<Longrightarrow> ti < length (tracks (upd_clip tj cj f doc))"
  by simp

lemma list_update_pair: "i \<noteq> j \<Longrightarrow> xs[i := a, j := b, i := c, j := d] = xs[i := c, j := d]"
  by (simp add: list_update_swap [of j i])

text \<open>
  Claim C24. A roll moves only the cut between two neighbours: the left clip keeps its start and source
  start and now ends at the new cut, the right clip starts there and still ends where it ended, and the
  document is otherwise the same. Each side's new source frame is found by bisection, so the timeline
  cannot open a gap or overlap by rounding.
\<close>

theorem roll_edit_moves_only_the_cut:
  assumes r: "roll_edit doc l r to = Inr doc'" and t: "in_i64 to"
  shows "\<exists>ti n left right left' right'.
      find_clip doc l = Inr (ti, n) \<and> find_clip doc r = Inr (ti, n + 1)
    \<and> left = clip_at doc ti n \<and> right = clip_at doc ti (n + 1) \<and> clip_end doc left = Inr (timeline_start right)
    \<and> doc' = upd_clips ti (\<lambda>cs. cs[n := left', n + 1 := right']) doc
    \<and> clip_id left' = l \<and> clip_id right' = r
    \<and> timeline_start left' = timeline_start left \<and> r_start (source_range left') = r_start (source_range left)
    \<and> clip_end doc' left' = Inr to \<and> timeline_start right' = to
    \<and> clip_end doc' right' = clip_end doc right"
proof -
  from r obtain ti n where f: "find_clip doc l = Inr (ti, n)" "find_clip doc r = Inr (ti, n + 1)"
    by (auto simp: roll_edit_def rbind_eq_Inr split: if_splits prod.splits)
  have "\<exists>left right. left = clip_at doc ti n \<and> right = clip_at doc ti (n + 1)" by simp
  then obtain left right where left_def: "left = clip_at doc ti n" and right_def: "right = clip_at doc ti (n + 1)" by blast
  note r = r [unfolded roll_edit_def f rbind_Inr prod.case Let_def, folded left_def right_def]
  from r obtain re ld so rd si rr doc2 where
    e: "clip_end doc left = Inr (timeline_start right)" "clip_end doc right = Inr re"
    and d: "ld = to - timeline_start left" "in_i64 ld" "rd = re - to" "in_i64 rd"
    and so: "left_source_out doc left ld to = Inr so"
    and si: "right_source_in doc right rd to (Some (r_start (source_range right))) = Inr si"
    and rr: "right_range_out right rd to = Inr rr"
    and s: "survive_clip_edit ti n 0 (upd_clip ti (n + 1) (\<lambda>c. (set_range_start si (set_range_end rr c))\<lparr>timeline_start := to\<rparr>)
                  (upd_clip ti n (set_range_end so) doc)) = Inr doc2"
      "survive_clip_edit ti (n + 1) (wrap_i64 (to - timeline_start right)) doc2 = Inr doc'"
    by (auto simp: rbind_eq_Inr split: if_splits)
  have b: "ti < length (tracks doc)" "n < length (clips (tracks doc ! ti))" "n + 1 < length (clips (tracks doc ! ti))"
    using find_clip_InrD [OF f(1)] find_clip_InrD [OF f(2)] by simp_all
  define right0 where "right0 = (set_range_start si (set_range_end rr right))\<lparr>timeline_start := to\<rparr>"
  from survive_twice [OF _ _ _ _ s] b obtain ld' rd' where
    D: "doc' = upd_clips ti (\<lambda>cs. cs[n := clamp_clip_audio_fades ld' (rebase_clip_automation 0 ld' (cs ! n)),
       n + 1 := clamp_clip_audio_fades rd' (rebase_clip_automation (wrap_i64 (to - timeline_start right)) rd' (cs ! (n + 1)))])
     (upd_clip ti (n + 1) (\<lambda>c. (set_range_start si (set_range_end rr c))\<lparr>timeline_start := to\<rparr>)
                  (upd_clip ti n (set_range_end so) doc))"
    by auto
  have doc': "doc' = upd_clips ti (\<lambda>cs. cs[n := clamp_clip_audio_fades ld' (rebase_clip_automation 0 ld' (set_range_end so left)),
       n + 1 := clamp_clip_audio_fades rd' (rebase_clip_automation (wrap_i64 (to - timeline_start right)) rd' right0)]) doc"
    (is "_ = upd_clips ti (\<lambda>cs. cs[n := ?left, n + 1 := ?right]) doc")
    unfolding D upd_clips_upd_clip [OF upd_pre [OF b(1)]] upd_clips_upd_clip [OF b(1)]
    by (rule upd_clips_cong) (use b in \<open>simp add: list_update_pair left_def right_def right0_def clip_at_def\<close>)
  have "clip_duration doc right0 = Inr rd"
  proof (cases "is_media (content right)")
    case True
    then show ?thesis
      using right_source_in_duration [OF si] rr clip_duration_cong [of doc doc right0 "set_range_start si right"]
      by (simp add: right_range_out_def right0_def)
  next
    case False
    then show ?thesis
      using si rr d by (auto simp: right_range_out_def right0_def clip_duration_def is_span_def right_source_in_def
          split: option.splits if_splits)
  qed
  then have ends: "clip_end doc' ?left = Inr to" "clip_end doc' ?right = Inr re"
    using left_source_out_duration [OF so d(2)] d t e(2)
      clip_duration_cong [of doc' doc ?left "set_range_end so left"] clip_duration_cong [of doc' doc ?right right0]
    by (auto simp: clip_end_dur doc' right0_def)
  have "clip_id left = l" "clip_id right = r" using find_clip_InrD(3) f by (simp_all add: left_def right_def)
  then show ?thesis
    using f e doc' ends
    by (intro exI [of _ ti] exI [of _ n] exI [of _ left] exI [of _ right] exI [of _ ?left] exI [of _ ?right])
      (simp add: left_def right_def right0_def)
qed


text \<open>Three clips in a row, one second each.\<close>

definition sample_row :: document where
  "sample_row = upd_clips 0 (\<lambda>_. map (\<lambda>k. sample_clip\<lparr>clip_id := k + 1, source_range := rng (24 * k) (24 * k + 24),
      timeline_start := 30 * k\<rparr>) [0, 1, 2]) (sample_project\<lparr>doc_duration := 90\<rparr>)"

lemma sample_row_roll: "case roll_edit sample_row 1 2 25 of Inr _ \<Rightarrow> True | Inl _ \<Rightarrow> False"
  by code_simp

theorem roll_edit_moves_only_the_cut_witness:
  "\<exists>doc' ti n left' right'. roll_edit sample_row 1 2 25 = Inr doc'
    \<and> doc' = upd_clips ti (\<lambda>cs. cs[n := left', n + 1 := right']) sample_row
    \<and> clip_end doc' left' = Inr 25 \<and> timeline_start right' = 25"
proof -
  from sample_row_roll obtain doc' where d: "roll_edit sample_row 1 2 25 = Inr doc'" by (auto split: sum.splits)
  show ?thesis using roll_edit_moves_only_the_cut [OF d] d by (auto simp: int_width_defs)
qed

lemma list_update_triple:
  "i \<noteq> j \<Longrightarrow> i \<noteq> k \<Longrightarrow> j \<noteq> k \<Longrightarrow> xs[i := a, j := b, k := c, i := d, k := e] = xs[i := d, j := b, k := e]"
  by (simp add: list_update_swap [of k i] list_update_swap [of j i])

text \<open>
  Claim C23. A slide moves a clip between its two neighbours: the clip itself only changes its position,
  the left neighbour keeps its start and now ends where the clip starts, the right neighbour starts where
  the clip ends and still ends where it ended, and nothing else in the document changes.
\<close>

theorem slide_clip_fills_both_sides:
  assumes r: "slide_clip doc i to = Inr doc'" and t: "in_i64 to"
  shows "\<exists>ti n left middle right left' right'.
      find_clip doc i = Inr (ti, n + 1)
    \<and> left = clip_at doc ti n \<and> middle = clip_at doc ti (n + 1) \<and> right = clip_at doc ti (n + 2)
    \<and> doc' = upd_clips ti (\<lambda>cs. cs[n := left', n + 1 := middle\<lparr>timeline_start := to\<rparr>, n + 2 := right']) doc
    \<and> clip_id left' = clip_id left \<and> clip_id right' = clip_id right
    \<and> timeline_start left' = timeline_start left \<and> r_start (source_range left') = r_start (source_range left)
    \<and> clip_end doc' left' = Inr to
    \<and> clip_end doc' (middle\<lparr>timeline_start := to\<rparr>) = Inr (timeline_start right')
    \<and> r_end (source_range right') = r_end (source_range right) \<and> clip_end doc' right' = clip_end doc right"
proof -
  from r obtain ti ci where f: "find_clip doc i = Inr (ti, ci)"
    by (auto simp: slide_clip_def rbind_eq_Inr)
  with r have "ci \<noteq> 0" and len: "ci + 1 < length (clips (tracks doc ! ti))"
    by (auto simp: slide_clip_def split: if_splits)
  then obtain n where ci: "ci = n + 1" by (cases ci) auto
  obtain left middle right where left_def: "left = clip_at doc ti (ci - 1)" and middle_def: "middle = clip_at doc ti ci"
    and right_def: "right = clip_at doc ti (ci + 1)" by blast
  note r = r [unfolded slide_clip_def f rbind_Inr prod.case Let_def, folded left_def middle_def right_def]
  from r obtain md re ne ld so rd si doc2 where
    e: "clip_duration doc middle = Inr md" "clip_end doc right = Inr re"
    and d: "ne = to + md" "in_i64 ne" "ld = to - timeline_start left" "in_i64 ld" "rd = re - ne" "in_i64 rd"
    and so: "left_source_out doc left ld to = Inr so"
    and si: "right_source_in doc right rd ne (timecode_checked_sub (r_end (source_range right)) rd) = Inr si"
    and s: "survive_clip_edit ti (ci - 1) 0 (upd_clip ti (ci + 1) (\<lambda>c. (set_range_start si c)\<lparr>timeline_start := ne\<rparr>)
                  (upd_clip ti ci (\<lambda>c. c\<lparr>timeline_start := to\<rparr>)
                    (upd_clip ti (ci - 1) (set_range_end so) doc))) = Inr doc2"
      "survive_clip_edit ti (ci + 1) (wrap_i64 (to - timeline_start middle)) doc2 = Inr doc'"
    by (auto simp: rbind_eq_Inr split: if_splits)
  have b: "ti < length (tracks doc)" "n < length (clips (tracks doc ! ti))" "n + 1 < length (clips (tracks doc ! ti))"
      "n + 2 < length (clips (tracks doc ! ti))"
    using find_clip_InrD [OF f] len ci by simp_all
  define right0 where "right0 = (set_range_start si right)\<lparr>timeline_start := ne\<rparr>"
  define w where "w = wrap_i64 (to - timeline_start middle)"
  from survive_twice [OF _ _ _ _ s] b ci obtain ld' rd' where
    D: "doc' = upd_clips ti (\<lambda>cs. cs[n := clamp_clip_audio_fades ld' (rebase_clip_automation 0 ld' (cs ! n)),
       n + 2 := clamp_clip_audio_fades rd' (rebase_clip_automation w rd' (cs ! (n + 2)))])
     (upd_clip ti (n + 2) (\<lambda>c. (set_range_start si c)\<lparr>timeline_start := ne\<rparr>)
                  (upd_clip ti (n + 1) (\<lambda>c. c\<lparr>timeline_start := to\<rparr>)
                    (upd_clip ti n (set_range_end so) doc)))"
    by (auto simp: w_def)
  have doc': "doc' = upd_clips ti (\<lambda>cs. cs[n := clamp_clip_audio_fades ld' (rebase_clip_automation 0 ld' (set_range_end so left)),
       n + 1 := middle\<lparr>timeline_start := to\<rparr>, n + 2 := clamp_clip_audio_fades rd' (rebase_clip_automation w rd' right0)]) doc"
    (is "_ = upd_clips ti (\<lambda>cs. cs[n := ?left, _ := _, n + 2 := ?right]) doc")
    unfolding D upd_clips_upd_clip [OF upd_pre [OF upd_pre [OF b(1)]]] upd_clips_upd_clip [OF upd_pre [OF b(1)]]
      upd_clips_upd_clip [OF b(1)]
    by (rule upd_clips_cong)
      (use b ci in \<open>simp add: list_update_triple left_def middle_def right_def right0_def clip_at_def\<close>)
  have "clip_duration doc right0 = Inr rd"
    using right_source_in_duration [OF si] right_source_in_span_duration [OF si d(6)]
      clip_duration_cong [of doc doc right0 "set_range_start si right"]
    by (cases "is_media (content right)") (simp_all add: right0_def)
  then have "clip_duration doc' ?left = Inr ld" "clip_duration doc' ?right = Inr rd"
    "clip_duration doc' (middle\<lparr>timeline_start := to\<rparr>) = Inr md"
    using left_source_out_duration [OF so d(4)] e(1)
      clip_duration_cong [of doc' doc ?left "set_range_end so left"] clip_duration_cong [of doc' doc ?right right0]
      clip_duration_cong [of doc' doc "middle\<lparr>timeline_start := to\<rparr>" middle]
    by (simp_all add: doc' right0_def)
  moreover have in64: "in_i64 re" using e(2) by (auto simp: clip_end_dur)
  ultimately have ends: "clip_end doc' ?left = Inr to" "clip_end doc' ?right = Inr re"
    "clip_end doc' (middle\<lparr>timeline_start := to\<rparr>) = Inr ne"
    using d t in64 by (simp_all add: clip_end_dur right0_def)
  have keep: "clip_id ?left = clip_id left" "clip_id ?right = clip_id right" "timeline_start ?left = timeline_start left"
    "r_start (source_range ?left) = r_start (source_range left)" "r_end (source_range ?right) = r_end (source_range right)"
    "timeline_start ?right = ne" by (simp_all add: right0_def)
  have at: "find_clip doc i = Inr (ti, n + 1)" "left = clip_at doc ti n" "middle = clip_at doc ti (n + 1)"
    "right = clip_at doc ti (n + 2)"
    using f ci left_def middle_def right_def by simp_all
  show ?thesis
    by (rule exI [of _ ti], rule exI [of _ n], rule exI [of _ left], rule exI [of _ middle], rule exI [of _ right],
        rule exI [of _ ?left], rule exI [of _ ?right])
      (intro conjI at doc' keep ends; simp only: keep ends e)
qed

lemma sample_row_slide: "case slide_clip sample_row 2 25 of Inr _ \<Rightarrow> True | Inl _ \<Rightarrow> False"
  by code_simp

theorem slide_clip_fills_both_sides_witness:
  "\<exists>doc' ti n middle left' (right' :: clip). slide_clip sample_row 2 25 = Inr doc' \<and> find_clip sample_row 2 = Inr (ti, n + 1)
    \<and> middle = clip_at sample_row ti (n + 1) \<and> clip_end doc' left' = Inr 25
    \<and> clip_end doc' (middle\<lparr>timeline_start := 25\<rparr>) = Inr (timeline_start right')"
proof -
  from sample_row_slide obtain doc' where d: "slide_clip sample_row 2 25 = Inr doc'" by (auto split: sum.splits)
  have "in_i64 25" by (simp add: int_width_defs)
  from slide_clip_fills_both_sides [OF d this]
  show ?thesis using d by blast
qed


subsection \<open>Slip\<close>

lemma div_add_bounds:
  fixes x y n :: int
  assumes "0 < n"
  shows "x div n + y div n \<le> (x + y) div n" "(x + y) div n \<le> x div n + y div n + 1"
proof -
  have "0 \<le> x mod n + y mod n" "x mod n + y mod n < 2 * n"
    using assms pos_mod_bound [of n x] pos_mod_bound [of n y] by (simp, linarith)
  moreover from this have "(x mod n + y mod n) div n \<le> (n + n - 1) div n" using assms by (intro zdiv_mono1) auto
  moreover have "(n + n - 1) div n = 1" using assms by (simp add: div_pos_geq div_pos_pos_trivial)
  ultimately have "0 \<le> (x mod n + y mod n) div n" "(x mod n + y mod n) div n < 2"
    using assms by (simp_all add: pos_imp_zdiv_nonneg_iff)
  then show "x div n + y div n \<le> (x + y) div n" "(x + y) div n \<le> x div n + y div n + 1"
    by (simp_all add: div_add1_eq [of x y n])
qed

lemma nearest_length_stable:
  assumes "rate_ok sf" "rate_ok pf"
  shows "\<bar>(nearest sf pf (a + n) - nearest sf pf a) - (nearest sf pf (b + n) - nearest sf pf b)\<bar> \<le> 1"
proof -
  let ?k = "project_scale sf pf" and ?n = "source_scale sf pf" and ?h = "source_scale sf pf div 2"
  have n: "0 < ?n" using assms by (simp add: source_scale_def rate_ok_def)
  have "nearest sf pf (x + n) = ((x * ?k + ?h) + n * ?k) div ?n" for x
    by (simp add: nearest_def algebra_simps)
  then have "nearest sf pf x + (n * ?k) div ?n \<le> nearest sf pf (x + n)
      \<and> nearest sf pf (x + n) \<le> nearest sf pf x + (n * ?k) div ?n + 1" for x
    using div_add_bounds [OF n, of "x * ?k + ?h" "n * ?k"] by (simp add: nearest_def)
  from this [of a] this [of b] show ?thesis by linarith
qed

text \<open>
  Claim C37. A slip replaces the media under a clip by a window of the same number of source frames and
  changes nothing else. When the rates differ, the window's length in project frames still depends on its
  phase, so the clip's timeline length may change, but by at most one frame.
\<close>

theorem slip_clip_length_within_one_frame:
  assumes v: "validate_document doc = Inr ()" and ty: "doc_typed doc" and s: "slip_clip doc i t = Inr doc'"
    and d': "find_clip doc i = Inr (ti, ci)" "clip_duration doc' (clip_at doc' ti ci) = Inr d'"
  shows "\<exists>n. doc' = upd_clip ti ci (\<lambda>c. c\<lparr>source_range := rng t (t + n)\<rparr>) doc
    \<and> n = r_end (source_range (clip_at doc ti ci)) - r_start (source_range (clip_at doc ti ci))
    \<and> (\<exists>d. clip_duration doc (clip_at doc ti ci) = Inr d \<and> \<bar>d' - d\<bar> \<le> 1)"
proof -
  define c n where "c = clip_at doc ti ci" and "n = r_end (source_range c) - r_start (source_range c)"
  from s obtain a where m: "is_media (content c)" and a: "doc_asset doc (clip_asset c) = Some a"
    and rg: "validate_source_range a (rng t (t + n)) = Inr ()"
    and D: "doc' = upd_clip ti ci (\<lambda>c. c\<lparr>source_range := rng t (t + n)\<rparr>) doc"
    by (auto simp: slip_clip_def d'(1) Let_def rbind_eq_Inr c_def [symmetric] n_def split: if_splits)
  note mem = find_clip_mem [OF d'(1), folded c_def] find_clip_InrD [OF d'(1)]
  from media_clip_facts [OF v ty mem(1,2) m] a obtain eff where eff: "clip_effective_fps (asset_fps a) c = Inr eff"
    "rate_ok eff" "rate_ok (doc_fps doc)" and src: "0 \<le> r_start (source_range c)" "r_start (source_range c) < r_end (source_range c)"
    "r_end (source_range c) \<le> asset_duration a" "asset_duration a \<le> i64_max"
    and dur: "clip_duration doc c = map_err TimeMapping (map_source_range_to_project (source_range c) eff (doc_fps doc))"
    by (metis option.inject)
  obtain d where d: "clip_duration doc c = Inr d"
    using validated_clip [OF v mem(1,2)] by (auto simp: validate_clip_body_def rbind_eq_Inr)
  have old: "map_source_range_to_project (rng (r_start (source_range c)) (r_start (source_range c) + n)) eff (doc_fps doc) = Inr d"
    using trans [OF dur [symmetric] d] by (cases "source_range c") (simp add: n_def)
  have new: "map_source_range_to_project (rng t (t + n)) eff (doc_fps doc) = Inr d'"
    using d'(2) m a eff(1) mem by (simp add: D clip_duration_def is_span_def doc_asset_def c_def [symmetric] clip_effective_fps_def)
  have b: "0 \<le> t" "t < t + n" "t + n \<le> i64_max"
    using rg src(4) by (auto simp: validate_source_range_def split: if_splits)
  have "\<bar>d' - d\<bar> \<le> 1"
    using old new map_source_range_eq [OF eff(2,3) b] map_source_range_eq [OF eff(2,3) src(1,2)] src n_def
      nearest_length_stable [OF eff(2,3), of t n "r_start (source_range c)"]
    by (auto split: if_splits)
  then show ?thesis using D d by (auto simp: n_def c_def)
qed

text \<open>Two source frames at 24 frames per second are three project frames at 30 from frame 0 and two from frame 2.\<close>

definition sample_slip :: document where
  "sample_slip = upd_clip 0 0 (\<lambda>c. c\<lparr>source_range := rng 0 2, audio_fade_in_frames := 0, audio_fade_out_frames := 0\<rparr>) sample_project"

theorem slip_clip_length_within_one_frame_witness:
  "\<exists>doc' n. slip_clip sample_slip 1 2 = Inr doc' \<and> doc' = upd_clip 0 0 (\<lambda>c. c\<lparr>source_range := rng 2 (2 + n)\<rparr>) sample_slip
    \<and> clip_duration sample_slip (clip_at sample_slip 0 0) = Inr 3 \<and> clip_duration doc' (clip_at doc' 0 0) = Inr 2"
proof -
  have "validate_document sample_slip = Inr ()" by code_simp
  moreover have "doc_typed sample_slip" by code_simp
  moreover have "case slip_clip sample_slip 1 2 of Inr d \<Rightarrow> clip_duration d (clip_at d 0 0) = Inr 2 | Inl _ \<Rightarrow> False"
    by code_simp
  then obtain doc' where "slip_clip sample_slip 1 2 = Inr doc'" "clip_duration doc' (clip_at doc' 0 0) = Inr 2"
    by (auto split: sum.splits)
  moreover have "find_clip sample_slip 1 = Inr (0, 0)" by code_simp
  moreover have "clip_duration sample_slip (clip_at sample_slip 0 0) = Inr 3" by code_simp
  ultimately show ?thesis using slip_clip_length_within_one_frame [of sample_slip 1 2 doc' 0 0 2] by blast
qed

subsection \<open>Three-point ranges\<close>

text \<open>
  Claim C26. The range solver of the three-point edits returns a source window inside the asset and a
  timeline slot of exactly the project length of that window; the three points the caller set are used as
  given, and only the fourth is computed.
\<close>

theorem three_point_ranges_exact:
  assumes "derive_three_point_ranges doc a si so tin tout = Inr (source, timeline)"
  shows "map_source_range_to_project source (asset_fps a) (doc_fps doc) = Inr (r_end timeline - r_start timeline)
    \<and> 0 \<le> r_start source \<and> r_start source < r_end source \<and> r_end source \<le> asset_duration a
    \<and> 0 \<le> r_start timeline \<and> r_start timeline < r_end timeline
    \<and> si \<in> {None, Some (r_start source)} \<and> so \<in> {None, Some (r_end source)}
    \<and> tin \<in> {None, Some (r_start timeline)} \<and> tout \<in> {None, Some (r_end timeline)}
    \<and> validate_three_point_selection si so tin tout = Inr ()"
proof -
  from assms have p: "three_point_ranges doc a si so tin tout = Inr (source, timeline)"
    and v: "validate_source_range a source = Inr ()" "validate_timeline_range (r_start timeline) (r_end timeline) = Inr ()"
    and d: "map_source_range_to_project source (asset_fps a) (doc_fps doc) = Inr (r_end timeline - r_start timeline)"
    by (auto simp: derive_three_point_ranges_def rbind_eq_Inr timeline_duration_def split: prod.splits if_splits)
  have "si \<in> {None, Some (r_start source)} \<and> so \<in> {None, Some (r_end source)}
    \<and> tin \<in> {None, Some (r_start timeline)} \<and> tout \<in> {None, Some (r_end timeline)}
    \<and> validate_three_point_selection si so tin tout = Inr ()"
    using p by (auto simp: three_point_ranges_def rbind_eq_Inr validate_three_point_selection_def split: option.splits)
  with v d show ?thesis
    by (auto simp: validate_source_range_def validate_timeline_range_def split: if_splits)
qed

theorem three_point_ranges_exact_witness:
  "derive_three_point_ranges sample_project sample_asset None (Some 48) (Some 10) (Some 40) = Inr (rng 24 48, rng 10 40)
    \<and> map_source_range_to_project (rng 24 48) (asset_fps sample_asset) (doc_fps sample_project) = Inr (40 - 10)"
proof -
  have "derive_three_point_ranges sample_project sample_asset None (Some 48) (Some 10) (Some 40) = Inr (rng 24 48, rng 10 40)"
    by code_simp
  from this three_point_ranges_exact [OF this] show ?thesis by simp
qed

subsection \<open>Ripple\<close>

lemma map_res_map:
  assumes "map_res f xs = Inr ys" "\<And>x y. x \<in> set xs \<Longrightarrow> f x = Inr y \<Longrightarrow> y = g x"
  shows "ys = map g xs"
  using assms by (induction xs arbitrary: ys) (auto simp: rbind_eq_Inr)

lemma map_res_all: "map_res f xs = Inr ys \<Longrightarrow> x \<in> set xs \<Longrightarrow> \<exists>y. f x = Inr y"
  by (induction xs arbitrary: ys) (auto simp: rbind_eq_Inr)

definition moved :: "timecode \<Rightarrow> timecode \<Rightarrow> clip \<Rightarrow> clip" where
  "moved boundary delta c = (if boundary \<le> timeline_start c then c\<lparr>timeline_start := timeline_start c + delta\<rparr> else c)"

definition moved_track :: "timecode \<Rightarrow> timecode \<Rightarrow> track \<Rightarrow> track" where
  "moved_track boundary delta tr = tr\<lparr>clips := map (moved boundary delta) (clips tr)\<rparr>"

lemma shift_clips_InrD:
  assumes "shift_clips affected boundary shift trs = Inr trs'"
    and "\<And>s s'. shift s = Some s' \<Longrightarrow> s' = s + delta"
  shows "trs' = map (\<lambda>tr. if affected tr then moved_track boundary delta tr else tr) trs"
proof (rule map_res_map [OF assms(1) [unfolded shift_clips_def]])
  fix tr tr' assume "(if affected tr
       then rbind (map_res (\<lambda>c. if boundary \<le> timeline_start c
                     then rbind (ok_or TimeOverflow (shift (timeline_start c))) (\<lambda>s. Inr (c\<lparr>timeline_start := s\<rparr>))
                     else Inr c) (clips tr)) (\<lambda>cs. Inr (tr\<lparr>clips := cs\<rparr>))
       else Inr tr) = Inr tr'"
  then show "tr' = (if affected tr then moved_track boundary delta tr else tr)"
    using assms(2) by (auto simp: moved_track_def moved_def rbind_eq_Inr split: if_splits dest!: map_res_map [where g = "moved boundary delta"])
qed


definition track_in_order :: "document \<Rightarrow> clip list \<Rightarrow> bool" where
  "track_in_order doc cs = sorted_wrt (\<lambda>a b. \<exists>e. clip_end doc a = Inr e \<and> e \<le> timeline_start b) cs"

lemma validated_track:
  assumes "validate_document doc = Inr ()" "tr \<in> set (tracks doc)"
  shows "clips_disjoint doc (clips tr)"
    and "c \<in> set (clips tr) \<Longrightarrow> clip_end doc c = Inr (clip_stop doc c)"
    and "c \<in> set (clips tr) \<Longrightarrow> 0 \<le> timeline_start c \<and> timeline_start c < clip_stop doc c"
  using validate_document_parts(7) [OF assms(1)] validate_tracks_ok assms(2) validated_clip [OF assms, of c]
    validate_clip_body_end [of doc tr c "clip_stop doc c"] by blast+

lemma moved_duration:
  assumes "media_pool doc' = media_pool doc" "doc_fps doc' = doc_fps doc"
  shows "clip_duration doc' (moved b delta c) = clip_duration doc c"
  using assms by (intro clip_duration_cong) (simp_all add: moved_def)

lemma moved_end:
  assumes "media_pool doc' = media_pool doc" "doc_fps doc' = doc_fps doc"
    and "clip_end doc c = Inr e" "clip_end doc' (moved b delta c) = Inr e'"
  shows "e' = e + (if b \<le> timeline_start c then delta else 0)"
  using assms(3,4) by (auto simp: clip_end_dur moved_duration [OF assms(1,2)]) (auto simp: moved_def)

lemma moved_in_order:
  assumes f: "media_pool doc' = media_pool doc" "doc_fps doc' = doc_fps doc" and "0 \<le> delta"
    and o: "clips_disjoint doc cs"
    and e: "\<And>c. c \<in> set cs \<Longrightarrow> clip_end doc c = Inr (clip_stop doc c) \<and> timeline_start c < clip_stop doc c"
    and e': "\<And>c. c \<in> set cs \<Longrightarrow> \<exists>x. clip_end doc' (moved b delta c) = Inr x"
  shows "track_in_order doc' (map (moved b delta) cs)"
  unfolding track_in_order_def sorted_wrt_map
proof (rule sorted_wrt_mono_rel [OF _ o [unfolded clips_disjoint_def]])
  fix x y assume xy: "x \<in> set cs" "y \<in> set cs" "clip_stop doc x \<le> timeline_start y"
  then obtain v where v: "clip_end doc' (moved b delta x) = Inr v" using e' by blast
  have "v = clip_stop doc x + (if b \<le> timeline_start x then delta else 0)"
    using moved_end [OF f _ v] e [OF xy(1)] by simp
  then show "\<exists>v. clip_end doc' (moved b delta x) = Inr v \<and> v \<le> timeline_start (moved b delta y)"
    using v xy(3) e [OF xy(1)] \<open>0 \<le> delta\<close> by (auto simp: moved_def)
qed

lemma longest_end_defined:
  assumes "longest_end doc = Inr d" "c \<in> set (all_clips doc)"
  shows "\<exists>e. clip_end doc c = Inr e"
proof -
  have "fold_res (\<lambda>c duration. rbind (clip_end doc c) (\<lambda>e. Inr (max duration e))) cs d0 = Inr d \<Longrightarrow>
    c \<in> set cs \<Longrightarrow> \<exists>e. clip_end doc c = Inr e" for cs d0
    by (induction cs arbitrary: d0) (auto simp: rbind_eq_Inr)
  then show ?thesis using assms by (simp add: longest_end_def)
qed

text \<open>
  Claim C38. Opening a ripple gap on an accepted project moves exactly the clips at or after the point, by
  exactly the gap, on the target track and on every sync-locked track, and leaves every clip before the
  point and every other track alone; afterwards the clips of every track still follow each other without
  overlap. So the edit can never be refused for a collision.
\<close>

theorem ripple_insert_gap_never_collides:
  assumes v: "validate_document doc = Inr ()" and r: "ripple_insert_gap doc t s d = Inr doc'"
  shows "tracks doc' = map (\<lambda>tr. if track_id tr = t \<or> sync_lock tr then moved_track s d tr else tr) (tracks doc)
    \<and> list_all (\<lambda>tr. track_in_order doc' (clips tr)) (tracks doc')"
proof -
  from r obtain trs doc1 ms where d: "0 < d"
    and sh: "shift_clips (\<lambda>tr. track_id tr \<in> set [t] \<or> sync_lock tr) s (\<lambda>x. timecode_checked_add x d) (tracks doc) = Inr trs"
    and rd: "recompute_duration (doc\<lparr>tracks := trs\<rparr>) = Inr doc1"
    and D: "doc' = (ripple_track_automation (map track_id (filter (\<lambda>tr. track_id tr \<in> set [t] \<or> sync_lock tr) (tracks doc)))
              (\<lambda>k. ripple_insert_curve k s d (doc_duration doc1)) doc1)\<lparr>markers := ms\<rparr>"
    by (auto simp: ripple_insert_gap_def ripple_insert_gap_for_tracks_def Let_def rbind_eq_Inr split: if_splits)
  have trs: "trs = map (\<lambda>tr. if track_id tr = t \<or> sync_lock tr then moved_track s d tr else tr) (tracks doc)"
    using shift_clips_InrD [OF sh, of d] by auto
  from rd obtain e where le: "longest_end (doc\<lparr>tracks := trs\<rparr>) = Inr e"
    by (auto simp: recompute_duration_def rbind_eq_Inr)
  have frame: "tracks doc' = trs" "media_pool doc' = media_pool doc" "doc_fps doc' = doc_fps doc"
    using rd by (auto simp: D ripple_track_automation_def recompute_duration_def rbind_eq_Inr Let_def split: if_splits)
  have same: "clip_end doc' c = clip_end (doc\<lparr>tracks := trs\<rparr>) c" for c
    using frame by (intro clip_end_cong) simp_all
  have "track_in_order doc' (clips tr')" if "tr' \<in> set trs" for tr'
  proof -
    from that obtain tr where tr: "tr \<in> set (tracks doc)"
      and tr': "tr' = (if track_id tr = t \<or> sync_lock tr then moved_track s d tr else tr)" by (auto simp: trs)
    have ends: "\<exists>x. clip_end doc' c = Inr x" if "c \<in> set (clips tr')" for c
      unfolding same using that \<open>tr' \<in> set trs\<close> by (intro longest_end_defined [OF le]) (auto simp: all_clips_concat)
    have id: "map (moved b 0) cs = cs" for b cs by (induction cs) (simp_all add: moved_def)
    note ok = validated_track [OF v tr]
    show ?thesis
    proof (cases "track_id tr = t \<or> sync_lock tr")
      case True
      then show ?thesis
        using moved_in_order [OF frame(2,3) _ ok(1), of d s] ok(2,3) d ends by (simp add: tr' moved_track_def)
    next
      case False
      then show ?thesis
        using moved_in_order [OF frame(2,3) _ ok(1), of 0 s] ok(2,3) ends by (simp add: tr' id moved_def)
    qed
  qed
  then show ?thesis using trs frame(1) by (simp add: list_all_iff)
qed

lemma sample_gap: "case ripple_insert_gap sample_project 2 20 15 of Inr _ \<Rightarrow> True | Inl _ \<Rightarrow> False"
  by code_simp

theorem ripple_insert_gap_never_collides_witness:
  "\<exists>doc'. ripple_insert_gap sample_project 2 20 15 = Inr doc'
    \<and> list_all (\<lambda>tr. track_in_order doc' (clips tr)) (tracks doc')"
proof -
  from sample_gap obtain doc' where d: "ripple_insert_gap sample_project 2 20 15 = Inr doc'" by (auto split: sum.splits)
  then show ?thesis using ripple_insert_gap_never_collides [OF sample_project_valid d] by blast
qed

text \<open>
  Claim C25. A ripple delete closes the hole exactly: on the clip's own track the clips before it stay where
  they are, the clips after it move left by its length, so that they keep their order and their distances,
  none of them passes the start of the deleted clip, and no two clips of the track overlap.
\<close>

theorem ripple_delete_closes_the_gap:
  assumes v: "validate_document doc = Inr ()" and r: "ripple_delete_clip doc i = Inr doc'"
  shows "\<exists>ti xs removed ys d. ti < length (tracks doc) \<and> clips (tracks doc ! ti) = xs @ removed # ys \<and> clip_id removed = i
    \<and> clip_duration doc removed = Inr d
    \<and> clips (tracks doc' ! ti) = xs @ map (\<lambda>c. c\<lparr>timeline_start := timeline_start c - d\<rparr>) ys
    \<and> list_all (\<lambda>c. timeline_start removed + d \<le> timeline_start c) ys
    \<and> track_in_order doc' (clips (tracks doc' ! ti))"
proof -
  from r obtain ti ci d trs ms where f: "find_clip doc i = Inr (ti, ci)"
    and d: "clip_duration doc (clip_at doc ti ci) = Inr d"
    and sh: "shift_clips (\<lambda>tr. track_id tr = track_id (tracks doc ! ti) \<or> sync_lock tr) (timeline_start (clip_at doc ti ci) + d)
       (\<lambda>s. timecode_checked_sub s d) (tracks (upd_clips ti (remove_at ci) doc)) = Inr trs"
    and D: "tracks doc' = trs" "media_pool doc' = media_pool doc" "doc_fps doc' = doc_fps doc"
    by (auto simp: ripple_delete_clip_def Let_def rbind_eq_Inr ripple_track_automation_def)
  define cs rp where "cs = clips (tracks doc ! ti)" and "rp = timeline_start (clip_at doc ti ci) + d"
  note fi = find_clip_InrD [OF f]
  define xs removed ys where "xs = take ci cs" and "removed = clip_at doc ti ci" and "ys = drop (Suc ci) cs"
  have cs: "cs = xs @ removed # ys"
    using fi by (simp add: xs_def removed_def ys_def cs_def clip_at_def id_take_nth_drop)
  note ok = validated_track [OF v find_clip_mem(1) [OF f], folded cs_def]
  have stop: "clip_stop doc removed = rp"
    using ok(2) [of removed] d by (auto simp: cs clip_end_dur removed_def rp_def)
  have xs: "clip_stop doc x \<le> timeline_start removed" if "x \<in> set xs" for x
    using ok(1) that by (auto simp: clips_disjoint_def cs sorted_wrt_append)
  have ys: "rp \<le> timeline_start y" if "y \<in> set ys" for y
    using ok(1) that stop by (auto simp: clips_disjoint_def cs sorted_wrt_append)
  have removed: "0 \<le> timeline_start removed" "0 < d"
    using ok(3) [of removed] stop by (simp_all add: cs removed_def rp_def)
  have unmoved: "moved rp (- d) x = x" if "x \<in> set xs" for x
    using xs [OF that] ok(3) [of x] that removed by (simp add: moved_def rp_def removed_def [symmetric] cs)
  have left: "moved rp (- d) y = y\<lparr>timeline_start := timeline_start y - d\<rparr>" if "y \<in> set ys" for y
    using ys [OF that] by (simp add: moved_def)
  have "clips (trs ! ti) = map (moved rp (- d)) (remove_at ci cs)"
    using shift_clips_InrD [OF sh, of "- d"] fi(1) by (simp add: moved_track_def rp_def cs_def upd_clips_def upd_track_def)
  then have trs: "clips (tracks doc' ! ti) = xs @ map (\<lambda>c. c\<lparr>timeline_start := timeline_start c - d\<rparr>) ys"
    using unmoved left by (simp add: D(1) remove_at_def xs_def ys_def cong: map_cong)
  have stay: "clip_end doc' x = Inr (clip_stop doc x)" if "x \<in> set xs" for x
    using ok(2) [of x] that clip_end_cong [OF D(2,3), of x x] by (simp add: cs)
  have move: "clip_end doc' (y\<lparr>timeline_start := timeline_start y - d\<rparr>) = Inr (clip_stop doc y - d)" if "y \<in> set ys" for y
    using ok(2,3) [of y] that ys [OF that] removed moved_duration [OF D(2,3), of rp "- d" y] left [OF that]
    by (auto simp: cs clip_end_dur rp_def removed_def int_width_defs)
  have "track_in_order doc' (xs @ map (\<lambda>c. c\<lparr>timeline_start := timeline_start c - d\<rparr>) ys)"
    using ok(1) ys removed xs
    by (fastforce simp: track_in_order_def sorted_wrt_append sorted_wrt_map clips_disjoint_def cs stay move rp_def removed_def
        elim!: sorted_wrt_mono_rel [rotated])
  then show ?thesis
    using fi d cs ys trs by (intro exI [of _ ti] exI [of _ xs] exI [of _ removed] exI [of _ ys] exI [of _ d])
      (simp add: removed_def rp_def cs_def list_all_iff)
qed

theorem ripple_delete_closes_the_gap_witness:
  "\<exists>doc' xs ys. ripple_delete_clip sample_row 2 = Inr doc'
    \<and> clips (tracks doc' ! 0) = xs @ map (\<lambda>c. c\<lparr>timeline_start := timeline_start c - 30\<rparr>) ys
    \<and> track_in_order doc' (clips (tracks doc' ! 0))"
proof -
  have v: "validate_document sample_row = Inr ()" by code_simp
  have "case ripple_delete_clip sample_row 2 of Inr _ \<Rightarrow> True | Inl _ \<Rightarrow> False" by code_simp
  then obtain doc' where d: "ripple_delete_clip sample_row 2 = Inr doc'" by (auto split: sum.splits)
  from ripple_delete_closes_the_gap [OF v d] obtain ti xs removed ys n where
    at: "ti < length (tracks sample_row)" "clips (tracks sample_row ! ti) = xs @ removed # ys" "clip_id removed = 2"
    and n: "clip_duration sample_row removed = Inr n"
    and c: "clips (tracks doc' ! ti) = xs @ map (\<lambda>c. c\<lparr>timeline_start := timeline_start c - n\<rparr>) ys"
      "track_in_order doc' (clips (tracks doc' ! ti))" by blast
  have "list_all (\<lambda>tr. \<forall>c \<in> set (clips tr). clip_duration sample_row c = Inr 30 \<and> track_id tr = 1) (tracks sample_row)
      \<and> length (tracks sample_row) = 2 \<and> clips (tracks sample_row ! 1) = []" by code_simp
  moreover have "removed \<in> set (clips (tracks sample_row ! ti))" using at by simp
  ultimately have "n = 30" "ti = 0"
    using at n by (auto simp: list_all_length less_2_cases_iff)
  then show ?thesis using d c by blast
qed

subsection \<open>What a split shows\<close>

lemma keep_outside_value:
  assumes "positions_bounded (keyframes c)" "0 \<le> d" "d \<le> i64_max - MAX_KEY_FRAME_OFFSET"
  shows "curve_value_at (rebase_clip_curve_keep_outside c d) x = curve_value_at c (d + x)"
proof -
  have "in_i64 (key_at k - d)" if "k \<in> set (keyframes c)" for k
    using assms that by (auto simp: positions_bounded_def MAX_KEY_FRAME_OFFSET_def int_width_defs abs_le_iff)
  then have "shift_keys_keep_outside (keyframes c) d = map (\<lambda>k. k\<lparr>key_at := key_at k - d\<rparr>) (keyframes c)"
    by (rule shift_keys_exact)
  then show ?thesis
    using value_at_keys_shift [of d "keyframes c" "d + x"]
    by (simp add: rebase_clip_curve_keep_outside_def curve_value_at_def) (simp add: value_at_keys_def)
qed

lemma validated_clip_effect:
  assumes "validate_document doc = Inr ()" "tr \<in> set (tracks doc)" "c \<in> set (clips tr)" "e \<in> set (effects c)"
  obtains d where "validate_clip_effect doc c d e = Inr ()"
proof -
  from validated_clip [OF assms(1-3)]
  obtain d where "each_new effect_id (\<lambda>e. EffectError (DuplicateEffect (clip_id c) (effect_id e)))
      (validate_clip_effect doc c d) [] (effects c) = Inr ()"
    by (auto simp: validate_clip_body_def rbind_eq_Inr)
  then show ?thesis using assms(4) by (intro that [of d]) simp
qed

lemma validated_effect_positions:
  assumes "validate_clip_effect doc c d e = Inr ()"
  shows "\<forall>(n, k) \<in> set (effect_keyframes e). positions_bounded (keyframes k)"
    and "effect_enabled_curve e = Some k \<Longrightarrow> positions_bounded (keyframes k)"
  using assms
  by (auto simp: validate_clip_effect_def validate_effect_automation_def rbind_eq_Inr validate_curve_def
      curve_validate_ordered_iff validate_enabled_curve_def validate_gate_curve_def split: if_splits)

lemma write_curves_shift:
  assumes "\<forall>(n, k) \<in> set kfs. positions_bounded (keyframes k)" "0 \<le> d" "d \<le> i64_max - MAX_KEY_FRAME_OFFSET"
  shows "write_curve_values x (map (\<lambda>(n, k). (n, rebase_clip_curve_keep_outside k d)) kfs) ps = write_curve_values (d + x) kfs ps"
  using assms
  by (induction kfs arbitrary: ps) (auto simp: write_curve_values_def keep_outside_value split: option.splits)

lemma rebased_effects_evaluate:
  assumes "\<And>e. e \<in> set (effects c) \<Longrightarrow> (\<forall>(n, k) \<in> set (effect_keyframes e). positions_bounded (keyframes k))
      \<and> (\<forall>k. effect_enabled_curve e = Some k \<longrightarrow> positions_bounded (keyframes k))"
    and "0 \<le> d" "d \<le> i64_max - MAX_KEY_FRAME_OFFSET"
  shows "map (\<lambda>e. effect_evaluated_at e x) (effects (rebase_clip_automation d nd c))
    = map (\<lambda>e. effect_evaluated_at e (d + x)) (effects c)"
  using assms write_curves_shift [OF _ assms(2,3), unfolded write_curve_values_def]
  by (auto simp: rebase_clip_automation_def effect_evaluated_at_def effect_is_enabled_at_def curve_gates_on_def
      keep_outside_value split: option.splits)

text \<open>
  Claim C12. A split does not change the picture: at every frame the left half resolves its effects to the
  same parameters and gates as the original clip at that frame, and the right half at its local frame
  \<open>x\<close> to those the original had \<open>x\<close> frames after the split point, so the rendered sequence is the same
  on both sides of the cut. (The bound on the split frame keeps the shift of far-outside keys exact.)
\<close>

theorem split_clip_keeps_effect_rendering:
  assumes v: "validate_document doc = Inr ()" and s: "split_clip doc i t = Inr doc'"
    and t: "t \<le> i64_max - MAX_KEY_FRAME_OFFSET"
  shows "\<exists>original left right rest. mset (all_clips doc) = add_mset original rest
    \<and> mset (all_clips doc') = add_mset left (add_mset right rest)
    \<and> clip_id original = i \<and> clip_id left = i \<and> timeline_start right = t
    \<and> map (\<lambda>e. effect_evaluated_at e x) (effects left) = map (\<lambda>e. effect_evaluated_at e x) (effects original)
    \<and> map (\<lambda>e. effect_evaluated_at e x) (effects right)
      = map (\<lambda>e. effect_evaluated_at e (t - timeline_start original + x)) (effects original)"
proof -
  from split_clip_parts [OF v s] obtain tr orig e off m right0 rd ld rest where
    fm: "tr \<in> set (tracks doc)" "orig \<in> set (clips tr)" and oi: "clip_id orig = i"
    and b: "timeline_start orig < t" and off: "off = t - timeline_start orig"
    and r0: "split_right (clip_id right0) m t e orig = Inr right0"
    and all: "mset (all_clips doc) = add_mset orig rest"
      "mset (all_clips doc') = add_mset (clamp_clip_audio_fades ld (rebase_clip_automation 0 ld (split_left m off orig)))
         (add_mset (clamp_clip_audio_fades rd (rebase_clip_automation off rd right0)) rest)" by metis
  note rr = split_right_InrD [OF r0]
  have "0 \<le> timeline_start orig" using validated_track(3) [OF v fm] by simp
  then have o: "0 \<le> off" "off \<le> i64_max - MAX_KEY_FRAME_OFFSET" using b off t by simp_all
  have pos: "(\<forall>(n, k) \<in> set (effect_keyframes e). positions_bounded (keyframes k))
      \<and> (\<forall>k. effect_enabled_curve e = Some k \<longrightarrow> positions_bounded (keyframes k))" if "e \<in> set (effects orig)" for e
    using validated_clip_effect [OF v fm that] validated_effect_positions by metis
  have "map (\<lambda>e. effect_evaluated_at e x) (effects (rebase_clip_automation 0 ld (split_left m off orig)))
      = map (\<lambda>e. effect_evaluated_at e x) (effects orig)"
    using rebased_effects_evaluate [of "split_left m off orig" 0] pos o by (simp add: MAX_KEY_FRAME_OFFSET_def int_width_defs)
  moreover have "map (\<lambda>e. effect_evaluated_at e x) (effects (rebase_clip_automation off rd right0))
      = map (\<lambda>e. effect_evaluated_at e (off + x)) (effects orig)"
    using rebased_effects_evaluate [of right0 off] pos o rr(6) by simp
  ultimately show ?thesis
    using all oi off rr(4) by (intro exI conjI) (assumption | simp)+
qed

theorem split_clip_keeps_effect_rendering_witness:
  "\<exists>doc' (original :: clip) (right :: clip). split_clip sample_project 1 10 = Inr doc' \<and> clip_id original = 1 \<and> timeline_start right = 10
    \<and> map (\<lambda>e. effect_evaluated_at e 1) (effects right)
      = map (\<lambda>e. effect_evaluated_at e (10 - timeline_start original + 1)) (effects original)"
proof -
  from sample_split_ok obtain doc' where d: "split_clip sample_project 1 10 = Inr doc'" by (auto split: sum.splits)
  have "(10 :: int) \<le> i64_max - MAX_KEY_FRAME_OFFSET" by (simp add: MAX_KEY_FRAME_OFFSET_def int_width_defs)
  from split_clip_keeps_effect_rendering [OF sample_project_valid d this, of 1] show ?thesis using d by blast
qed

end
