(* ===== verification/Project_Ops.thy ===== *)
theory Project_Ops
  imports Timeline_Ops
begin

text \<open>
  The operations of \<^verbatim>\<open>operation.rs\<close> on everything but the timeline itself: media assets and their
  colour, bins, string-outs and sync groups, the audio mix, lookup tables, and the effect stack of a clip
  with its keyframes.
\<close>

section \<open>Definitions\<close>

subsection \<open>Assets and colour\<close>

definition add_asset :: "document \<Rightarrow> media_asset \<Rightarrow> op_error + document" where
  "add_asset doc a =
     (if doc_asset doc (asset_id a) \<noteq> None then Inl (CatalogError (DuplicateAsset (asset_id a)))
      else if assumed_from a \<noteq> None then Inl (AssetError (AssumedFromNotSuppliable (asset_id a)))
      else if cd_provenance (asset_color_description a) = Prov_AgentAssumption
      then Inl (AssetError (AssumedFromNotSuppliable (asset_id a)))
      else rbind (validate_asset a) (\<lambda>_. Inr (doc\<lparr>media_pool := media_pool doc @ [a]\<rparr>)))"

definition find_asset :: "document \<Rightarrow> asset_id \<Rightarrow> op_error + nat" where
  "find_asset doc i =
     ok_or (TimelineError (MissingAsset i)) (position (\<lambda>a. asset_id a = i) (media_pool doc))"

text \<open>Every media clip bound to an asset with its project duration: \<^verbatim>\<open>enumerate\<close> over tracks and clips.\<close>

fun enumerate_from :: "nat \<Rightarrow> 'a list \<Rightarrow> (nat \<times> 'a) list" where
  "enumerate_from n [] = []"
| "enumerate_from n (x # xs) = (n, x) # enumerate_from (Suc n) xs"

definition clip_durations_for_asset ::
    "document \<Rightarrow> asset_id \<Rightarrow> op_error + (nat \<times> nat \<times> timecode) list" where
  "clip_durations_for_asset doc asset =
     map_res (\<lambda>(ti, ci, c). rbind (clip_duration doc c) (\<lambda>d. Inr (ti, ci, d)))
       (concat (map (\<lambda>(ti, tr). map (\<lambda>(ci, c). (ti, ci, c))
          (filter (\<lambda>(ci, c). clip_asset c = asset \<and> is_media (content c)) (enumerate_from 0 (clips tr))))
          (enumerate_from 0 (tracks doc))))"

definition relink_checks :: "media_asset \<Rightarrow> relink_candidate \<Rightarrow> bool \<Rightarrow> op_error + unit" where
  "relink_checks current candidate allow_unverified =
     (let i = asset_id current
      in if asset_kind current \<noteq> candidate_kind candidate
         then Inl (AssetError (RelinkMetadataMismatch i ''kind''))
         else if asset_fps current \<noteq> candidate_fps candidate
         then Inl (AssetError (RelinkMetadataMismatch i ''fps''))
         else if asset_duration current \<noteq> candidate_duration candidate
         then Inl (AssetError (RelinkMetadataMismatch i ''duration''))
         else if asset_resolution current \<noteq> candidate_resolution candidate
         then Inl (AssetError (RelinkMetadataMismatch i ''resolution''))
         else if fingerprint_is_verified (source_fingerprint current)
         then ensure (source_fingerprint current = candidate_fingerprint candidate)
                (AssetError (RelinkFingerprintMismatch i))
         else ensure allow_unverified (AssetError (RelinkRequiresExplicitUnverifiedSource i)))"

definition relink_asset :: "document \<Rightarrow> asset_id \<Rightarrow> relink_candidate \<Rightarrow> bool \<Rightarrow> op_error + document" where
  "relink_asset doc i candidate allow_unverified =
     rbind (find_asset doc i) (\<lambda>index.
     if candidate_path candidate = [] then Inl (AssetError (EmptyRelinkCandidatePath i))
     else rbind (validate_source_fingerprint i (candidate_fingerprint candidate)) (\<lambda>_.
     if \<not> fingerprint_is_verified (candidate_fingerprint candidate)
     then Inl (AssetError (UnverifiedRelinkCandidate i))
     else rbind (relink_checks (media_pool doc ! index) candidate allow_unverified) (\<lambda>_.
     rbind (clip_durations_for_asset doc i) (\<lambda>before.
     let doc1 = doc\<lparr>media_pool := (media_pool doc)[index := (media_pool doc ! index)\<lparr>
                  asset_path := candidate_path candidate,
                  source_fingerprint := candidate_fingerprint candidate\<rparr>]\<rparr>
     in fold_res (\<lambda>(ti, ci, previous) d.
          rbind (clip_duration d (clip_at d ti ci)) (\<lambda>now.
          if now = previous then Inr d else survive_clip_edit ti ci 0 d)) before doc1))))"

definition set_asset_color_description :: "document \<Rightarrow> asset_id \<Rightarrow> color_description \<Rightarrow> op_error + document" where
  "set_asset_color_description doc i d =
     rbind (find_asset doc i) (\<lambda>index.
     rbind (validate_color_description d) (\<lambda>_.
     let current = media_pool doc ! index;
         is_actor = (cd_provenance d = Prov_UserOverride \<or> cd_provenance d = Prov_AgentAssumption);
         is_revert = (case assumed_from current of Some r \<Rightarrow> color_description_eq r d | None \<Rightarrow> False)
     in if \<not> is_actor \<and> \<not> is_revert
        then Inl (AssetError (InvalidColorOverrideProvenance i (cd_provenance d)))
        else if is_actor \<and> cd_confidence_basis_points d = 0
        then Inl (AssetError (ZeroConfidenceColorOverride i))
        else let recorded = (if is_revert then None
                             else if cd_provenance d = Prov_AgentAssumption \<and> assumed_from current = None
                             then Some (asset_color_description current)
                             else assumed_from current)
        in Inr (doc\<lparr>media_pool := (media_pool doc)[index := current\<lparr>
             asset_color_description := d, assumed_from := recorded\<rparr>]\<rparr>)))"

definition set_color_context :: "document \<Rightarrow> color_context \<Rightarrow> op_error + document" where
  "set_color_context doc cc =
     rbind (for_each validate_color_description [cc_working cc, cc_monitoring cc, cc_delivery cc]) (\<lambda>_.
     Inr (doc\<lparr>color_context := cc\<rparr>))"

subsection \<open>The catalog\<close>

text \<open>Replace the item with the same id in place or append, then sort by id: the body of the three
  catalog upserts and of \<^verbatim>\<open>upsert_audio_bus\<close>.\<close>

definition upsert_by :: "('a \<Rightarrow> int) \<Rightarrow> 'a \<Rightarrow> 'a list \<Rightarrow> 'a list" where
  "upsert_by key x xs =
     sort_key key (case position (\<lambda>y. key y = key x) xs of Some i \<Rightarrow> xs[i := x] | None \<Rightarrow> xs @ [x])"

definition upd_catalog :: "(media_catalog \<Rightarrow> media_catalog) \<Rightarrow> document \<Rightarrow> document" where
  "upd_catalog f doc = doc\<lparr>catalog := f (catalog doc)\<rparr>"

definition upsert_bin :: "document \<Rightarrow> media_bin \<Rightarrow> document" where
  "upsert_bin doc b = upd_catalog (\<lambda>c. c\<lparr>bins := upsert_by bin_id b (bins c)\<rparr>) doc"

definition remove_bin :: "document \<Rightarrow> bin_id \<Rightarrow> op_error + document" where
  "remove_bin doc i =
     (if list_ex (\<lambda>b. bin_parent b = Some i) (bins (catalog doc)) then Inl (CatalogError (BinHasChildren i))
      else rbind (ok_or (CatalogError (MissingBin i)) (position (\<lambda>b. bin_id b = i) (bins (catalog doc)))) (\<lambda>n.
      Inr (upd_catalog (\<lambda>c. c\<lparr>bins := remove_at n (bins c)\<rparr>) doc)))"

definition set_asset_bin :: "document \<Rightarrow> asset_id \<Rightarrow> bin_id option \<Rightarrow> op_error + document" where
  "set_asset_bin doc asset destination =
     (if doc_asset doc asset = None then Inl (TimelineError (MissingAsset asset))
      else rbind (case destination of
              Some b \<Rightarrow> ensure (list_ex (\<lambda>x. bin_id x = b) (bins (catalog doc))) (CatalogError (MissingBin b))
            | None \<Rightarrow> Inr ()) (\<lambda>_.
      Inr (upd_catalog (\<lambda>c. c\<lparr>bins := map (\<lambda>b.
             let kept = filter (\<lambda>a. a \<noteq> asset) (bin_assets b)
             in b\<lparr>bin_assets := (if Some (bin_id b) = destination then sort (kept @ [asset]) else kept)\<rparr>)
             (bins c)\<rparr>) doc)))"

definition upsert_string_out :: "document \<Rightarrow> string_out \<Rightarrow> document" where
  "upsert_string_out doc s = upd_catalog (\<lambda>c. c\<lparr>string_outs := upsert_by string_out_id s (string_outs c)\<rparr>) doc"

definition remove_string_out :: "document \<Rightarrow> string_out_id \<Rightarrow> op_error + document" where
  "remove_string_out doc i =
     rbind (ok_or (CatalogError (MissingStringOut i))
              (position (\<lambda>s. string_out_id s = i) (string_outs (catalog doc)))) (\<lambda>n.
     Inr (upd_catalog (\<lambda>c. c\<lparr>string_outs := remove_at n (string_outs c)\<rparr>) doc))"

definition upsert_sync_group :: "document \<Rightarrow> sync_group \<Rightarrow> document" where
  "upsert_sync_group doc g = upd_catalog (\<lambda>c. c\<lparr>sync_groups := upsert_by sync_group_id g (sync_groups c)\<rparr>) doc"

definition remove_sync_group :: "document \<Rightarrow> sync_group_id \<Rightarrow> op_error + document" where
  "remove_sync_group doc i =
     rbind (ok_or (CatalogError (MissingSyncGroup i))
              (position (\<lambda>g. sync_group_id g = i) (sync_groups (catalog doc)))) (\<lambda>n.
     Inr (upd_catalog (\<lambda>c. c\<lparr>sync_groups := remove_at n (sync_groups c)\<rparr>) doc))"

subsection \<open>The mix\<close>

definition upd_mix :: "(audio_mix \<Rightarrow> audio_mix) \<Rightarrow> document \<Rightarrow> document" where
  "upd_mix f doc = doc\<lparr>audio_mix := f (audio_mix doc)\<rparr>"

definition upsert_audio_bus :: "document \<Rightarrow> audio_bus \<Rightarrow> op_error + document" where
  "upsert_audio_bus doc b =
     rbind (validate_audio_bus doc b) (\<lambda>_.
     Inr (upd_mix (\<lambda>m. m\<lparr>buses := upsert_by bus_id b (buses m)\<rparr>) doc))"

definition remove_audio_bus :: "document \<Rightarrow> audio_bus_id \<Rightarrow> op_error + document" where
  "remove_audio_bus doc i =
     rbind (ok_or (AudioError (MissingAudioBus i)) (position (\<lambda>b. bus_id b = i) (buses (audio_mix doc)))) (\<lambda>n.
     Inr (upd_mix (\<lambda>m. m\<lparr>buses := remove_at n (buses m)\<rparr>) doc))"

definition set_audio_master :: "document \<Rightarrow> audio_master \<Rightarrow> op_error + document" where
  "set_audio_master doc ms =
     rbind (validate_audio_master doc ms) (\<lambda>_. Inr (upd_mix (\<lambda>m. m\<lparr>master := ms\<rparr>) doc))"

definition set_pan_law :: "document \<Rightarrow> pan_law \<Rightarrow> document" where
  "set_pan_law doc law = upd_mix (\<lambda>m. m\<lparr>pan_law := law\<rparr>) doc"

definition store_track_mix :: "document \<Rightarrow> track_mix \<Rightarrow> op_error + document" where
  "store_track_mix doc e =
     rbind (validate_track_mix_values e) (\<lambda>_.
     rbind (validate_track_mix_automation e (doc_duration doc)) (\<lambda>_.
     Inr (upd_mix (\<lambda>m. m\<lparr>track_mixes :=
       (if track_mix_is_neutral e then filter (\<lambda>x. mix_track x \<noteq> mix_track e) (track_mixes m)
        else upsert_by mix_track e (track_mixes m))\<rparr>) doc)))"

definition set_track_mix :: "document \<Rightarrow> track_id \<Rightarrow> int \<Rightarrow> int \<Rightarrow> bool \<Rightarrow> bool \<Rightarrow> op_error + document" where
  "set_track_mix doc t gain pan mute solo =
     (if \<not> track_exists doc t then Inl (TimelineError (MissingTrack t))
      else let stored = mix_for_track (audio_mix doc) t
           in store_track_mix doc \<lparr>mix_track = t, mix_gain_tenth_db = gain, mix_pan_percent = pan,
                mix_gain_curve = mix_gain_curve stored, mix_pan_curve = mix_pan_curve stored,
                mix_mute = mute, mix_solo = solo\<rparr>)"

definition set_track_automation ::
    "document \<Rightarrow> track_id \<Rightarrow> string \<Rightarrow> automation_curve option \<Rightarrow> op_error + document" where
  "set_track_automation doc t parameter curve =
     (if \<not> track_exists doc t then Inl (TimelineError (MissingTrack t))
      else if parameter \<notin> set TRACK_AUTOMATION_PARAMETERS
      then Inl (AudioError (UnknownTrackAutomationParameter parameter))
      else let e = mix_for_track (audio_mix doc) t
           in store_track_mix doc
                (if parameter = TRACK_AUTOMATION_PARAMETERS ! 0 then e\<lparr>mix_gain_curve := curve\<rparr>
                 else e\<lparr>mix_pan_curve := curve\<rparr>))"

subsection \<open>Lookup tables\<close>

definition add_lut_asset :: "document \<Rightarrow> lut_asset \<Rightarrow> op_error + document" where
  "add_lut_asset doc a =
     rbind (validate_lut_asset a) (\<lambda>_.
     if list_ex (\<lambda>x. lut_id x = lut_id a) (lut_assets doc) then Inl (AssetError (DuplicateLutAsset (lut_id a)))
     else Inr (doc\<lparr>lut_assets := lut_assets doc @ [a]\<rparr>))"

definition remove_lut_asset :: "document \<Rightarrow> lut_asset_id \<Rightarrow> op_error + document" where
  "remove_lut_asset doc i =
     (case lut_asset_references doc i of
        (c, e) # _ \<Rightarrow> Inl (AssetError (LutAssetInUse i c e))
      | [] \<Rightarrow> rbind (ok_or (AssetError (UnknownLutAsset i)) (position (\<lambda>a. lut_id a = i) (lut_assets doc))) (\<lambda>n.
              Inr (doc\<lparr>lut_assets := remove_at n (lut_assets doc)\<rparr>)))"

subsection \<open>The effect stack\<close>

definition prospective_color_nodes ::
    "effect list \<Rightarrow> nat \<Rightarrow> effect \<Rightarrow> (nat \<times> effect_id \<times> color_node_kind) list" where
  "prospective_color_nodes es pos replacement =
     (let node = (\<lambda>(i, e). map_option (\<lambda>k. (i, effect_id e, k)) (from_effect_name (effect_name e)))
      in List.map_filter node
           (concat (map (\<lambda>(i, e). (if i = pos then [(pos, replacement)] else [])
                       @ [(if i < pos then i else i + 1, e)]) (enumerate_from 0 es))
            @ (if pos = length es then [(pos, replacement)] else [])))"

definition insert_effect :: "document \<Rightarrow> clip_id \<Rightarrow> nat option \<Rightarrow> effect \<Rightarrow> op_error + document" where
  "insert_effect doc i index e =
     rbind (validate_effect e) (\<lambda>_.
     if is_audio_effect (effect_name e) then Inl (AudioError (AudioEffectOnClip i (effect_name e)))
     else rbind (validate_color_curve_points e) (\<lambda>_.
     rbind (find_clip doc i) (\<lambda>(ti, ci).
     rbind (clip_duration doc (clip_at doc ti ci)) (\<lambda>d.
     rbind (validate_effect_automation i d e) (\<lambda>_.
     rbind (validate_lut_node_references doc i e) (\<lambda>_.
     let es = effects (clip_at doc ti ci)
     in if list_ex (\<lambda>x. effect_id x = effect_id e) es then Inl (EffectError (DuplicateEffect i (effect_id e)))
        else rbind (case index of
                 None \<Rightarrow> Inr (length es)
               | Some n \<Rightarrow> if length es < n then Inl (EffectError (EffectIndexOutOfRange i n (length es)))
                           else Inr n) (\<lambda>pos.
        if is_managed_color_node (effect_name e) \<and> COLOR_NODE_LIMIT_PER_LAYER \<le> managed_color_node_count es
        then Inl (EffectError (TooManyColorNodes i COLOR_NODE_LIMIT_PER_LAYER (managed_color_node_count es + 1)))
        else if is_lut_color_node (effect_name e) \<and> LUT_NODE_LIMIT_PER_LAYER \<le> lut_node_count es
        then Inl (EffectError (TooManyLutNodes i LUT_NODE_LIMIT_PER_LAYER (lut_node_count es + 1)))
        else case color_stage_order_violation_over (prospective_color_nodes es pos e) of
               Some v \<Rightarrow> Inl (stage_order_error i v)
             | None \<Rightarrow> Inr (upd_clip ti ci (\<lambda>c. c\<lparr>effects := insert_at pos e (effects c)\<rparr>) doc))))))))"

definition add_effect :: "document \<Rightarrow> clip_id \<Rightarrow> effect \<Rightarrow> op_error + document" where
  "add_effect doc i e = insert_effect doc i None e"

definition find_effect :: "document \<Rightarrow> clip_id \<Rightarrow> effect_id \<Rightarrow> op_error + (nat \<times> nat \<times> nat)" where
  "find_effect doc i eid =
     rbind (find_clip doc i) (\<lambda>(ti, ci).
     rbind (ok_or (EffectError (MissingEffect i eid))
              (position (\<lambda>e. effect_id e = eid) (effects (clip_at doc ti ci)))) (\<lambda>ei.
     Inr (ti, ci, ei)))"

definition effect_at :: "document \<Rightarrow> nat \<times> nat \<times> nat \<Rightarrow> effect" where
  "effect_at doc p = (case p of (ti, ci, ei) \<Rightarrow> effects (clip_at doc ti ci) ! ei)"

definition upd_effect :: "nat \<times> nat \<times> nat \<Rightarrow> (effect \<Rightarrow> effect) \<Rightarrow> document \<Rightarrow> document" where
  "upd_effect p f doc = (case p of (ti, ci, ei) \<Rightarrow>
     upd_clip ti ci (\<lambda>c. c\<lparr>effects := (effects c)[ei := f (effects c ! ei)]\<rparr>) doc)"

definition convert_legacy_look ::
    "document \<Rightarrow> clip_id \<Rightarrow> effect_id \<Rightarrow> lut_asset_id \<Rightarrow> int \<Rightarrow> op_error + document" where
  "convert_legacy_look doc i eid lut mix =
     rbind (find_effect doc i eid) (\<lambda>(ti, ci, pos).
     let es = effects (clip_at doc ti ci); legacy = es ! pos
     in if effect_name legacy \<notin> set POST_PRIMARY_LUT_EFFECT_NAMES
        then Inl (EffectError (NotALegacyLook i eid (effect_name legacy)))
        else if doc_lut_asset doc lut = None then Inl (AssetError (MissingLutAsset i eid lut))
        else let converted = \<lparr>effect_id = eid, effect_name = color_node_effect_name CreativeLook,
                   parameters = bt_insert LUT_MIX_PARAMETER (Integer mix)
                     (bt_insert LUT_ASSET_ID_PARAMETER (Integer (if in_i64 lut then lut else i64_max)) []),
                   effect_keyframes = [], effect_enabled = effect_enabled legacy,
                   effect_enabled_curve = effect_enabled_curve legacy\<rparr>
        in rbind (validate_effect converted) (\<lambda>_.
        if COLOR_NODE_LIMIT_PER_LAYER \<le> managed_color_node_count es
        then Inl (EffectError (TooManyColorNodes i COLOR_NODE_LIMIT_PER_LAYER (managed_color_node_count es + 1)))
        else if LUT_NODE_LIMIT_PER_LAYER \<le> lut_node_count es
        then Inl (EffectError (TooManyLutNodes i LUT_NODE_LIMIT_PER_LAYER (lut_node_count es + 1)))
        else let nodes = List.map_filter (\<lambda>(n, e).
                   if n = pos then None
                   else map_option (\<lambda>k. (n, effect_id e, k)) (from_effect_name (effect_name e)))
                   (enumerate_from 0 es);
                 at = (case position (\<lambda>(n, _, _). pos < n) nodes of Some p \<Rightarrow> p | None \<Rightarrow> length nodes)
        in case color_stage_order_violation_over (insert_at at (pos, eid, CreativeLook) nodes) of
             Some v \<Rightarrow> Inl (stage_order_error i v)
           | None \<Rightarrow> Inr (upd_effect (ti, ci, pos) (\<lambda>_. converted) doc)))"

definition remove_effect :: "document \<Rightarrow> clip_id \<Rightarrow> effect_id \<Rightarrow> op_error + document" where
  "remove_effect doc i eid =
     rbind (find_effect doc i eid) (\<lambda>(ti, ci, ei).
     Inr (upd_clip ti ci (\<lambda>c. c\<lparr>effects := remove_at ei (effects c)\<rparr>) doc))"

definition set_effect_param ::
    "document \<Rightarrow> clip_id \<Rightarrow> effect_id \<Rightarrow> string \<Rightarrow> param_value \<Rightarrow> op_error + document" where
  "set_effect_param doc i eid name v =
     rbind (find_effect doc i eid) (\<lambda>p.
     let e = effect_at doc p
     in rbind (validate_effect_parameter (effect_name e) name v) (\<lambda>_.
     rbind (if classify_color_node e = Some Curves
            then validate_color_curve_points (e\<lparr>parameters := bt_insert name v (parameters e)\<rparr>)
            else Inr ()) (\<lambda>_.
     rbind (if is_lut_color_node (effect_name e) \<and> name = LUT_ASSET_ID_PARAMETER
            then let lut = (case v of Integer n \<Rightarrow> (if in_u64 n then n else 0) | _ \<Rightarrow> 0)
                 in ensure (lut \<noteq> 0 \<and> doc_lut_asset doc lut \<noteq> None) (AssetError (MissingLutAsset i eid lut))
            else Inr ()) (\<lambda>_.
     Inr (upd_effect p (\<lambda>e. e\<lparr>parameters := bt_insert name v (parameters e)\<rparr>) doc)))))"

definition ENABLED_CURVE_NAME :: string where "ENABLED_CURVE_NAME = ''enabled''"

definition effect_has_parameter :: "effect \<Rightarrow> string \<Rightarrow> bool" where
  "effect_has_parameter e name \<longleftrightarrow>
     Option.bind (effect_descriptor (effect_name e)) (\<lambda>d. descriptor_parameter d name) \<noteq> None"

text \<open>The tail shared by \<^verbatim>\<open>set_effect_keyframes\<close> and \<^verbatim>\<open>upsert_effect_keyframe\<close>: validate the whole
  prospective curve and store it.\<close>

definition store_effect_curve ::
    "document \<Rightarrow> clip_id \<Rightarrow> timecode \<Rightarrow> nat \<times> nat \<times> nat \<Rightarrow> string \<Rightarrow> automation_curve \<Rightarrow> op_error + document" where
  "store_effect_curve doc i d p name c =
     (let e = effect_at doc p
      in rbind (validate_curve i d (effect_id e) (effect_name e) name c) (\<lambda>_.
         rbind (if classify_color_node e = Some Curves
                then validate_curve_keyframe_policy (effect_name e) (bt_insert name c (effect_keyframes e))
                else Inr ()) (\<lambda>_.
         Inr (upd_effect p (\<lambda>e. e\<lparr>effect_keyframes := bt_insert name c (effect_keyframes e)\<rparr>) doc))))"

definition set_effect_keyframes ::
    "document \<Rightarrow> clip_id \<Rightarrow> effect_id \<Rightarrow> string \<Rightarrow> automation_curve \<Rightarrow> op_error + document" where
  "set_effect_keyframes doc i eid name c =
     rbind (find_clip doc i) (\<lambda>(ti, ci).
     rbind (clip_duration doc (clip_at doc ti ci)) (\<lambda>d.
     rbind (find_effect doc i eid) (\<lambda>p.
     let e = effect_at doc p
     in if name = ENABLED_CURVE_NAME
        then rbind (validate_enabled_curve (effect_name e) c) (\<lambda>_.
             Inr (upd_effect p (\<lambda>e. e\<lparr>effect_enabled_curve := Some c\<rparr>) doc))
        else if \<not> effect_has_parameter e name then Inl (EffectError (UnknownEffectParam (effect_name e) name))
        else store_effect_curve doc i d p name c)))"

definition clear_effect_keyframes :: "document \<Rightarrow> clip_id \<Rightarrow> effect_id \<Rightarrow> string \<Rightarrow> op_error + document" where
  "clear_effect_keyframes doc i eid name =
     rbind (find_effect doc i eid) (\<lambda>p.
     let e = effect_at doc p
     in if name = ENABLED_CURVE_NAME then Inr (upd_effect p (\<lambda>e. e\<lparr>effect_enabled_curve := None\<rparr>) doc)
        else if \<not> effect_has_parameter e name then Inl (EffectError (UnknownEffectParam (effect_name e) name))
        else Inr (upd_effect p (\<lambda>e. e\<lparr>effect_keyframes := bt_remove name (effect_keyframes e)\<rparr>) doc))"

text \<open>\<^verbatim>\<open>binary_search_by_key\<close> on keys in strictly ascending order: replace the key at the same frame, or
  insert before the first later key.\<close>

fun insert_key_sorted :: "keyframe list \<Rightarrow> keyframe \<Rightarrow> keyframe list" where
  "insert_key_sorted [] k = [k]"
| "insert_key_sorted (x # xs) k =
     (if key_at x < key_at k then x # insert_key_sorted xs k
      else if key_at x = key_at k then k # xs
      else k # x # xs)"

definition upsert_effect_keyframe ::
    "document \<Rightarrow> clip_id \<Rightarrow> effect_id \<Rightarrow> string \<Rightarrow> keyframe \<Rightarrow> op_error + document" where
  "upsert_effect_keyframe doc i eid name k =
     rbind (find_clip doc i) (\<lambda>(ti, ci).
     rbind (clip_duration doc (clip_at doc ti ci)) (\<lambda>d.
     rbind (find_effect doc i eid) (\<lambda>p.
     let e = effect_at doc p
     in if name = ENABLED_CURVE_NAME
        then let prospective = \<lparr>keyframes = insert_key_sorted
                   (case effect_enabled_curve e of Some c \<Rightarrow> keyframes c | None \<Rightarrow> []) k\<rparr>
             in rbind (validate_enabled_curve (effect_name e) prospective) (\<lambda>_.
                Inr (upd_effect p (\<lambda>e. e\<lparr>effect_enabled_curve := Some prospective\<rparr>) doc))
        else if \<not> effect_has_parameter e name then Inl (EffectError (UnknownEffectParam (effect_name e) name))
        else store_effect_curve doc i d p name
               \<lparr>keyframes = insert_key_sorted
                  (case bt_get name (effect_keyframes e) of Some c \<Rightarrow> keyframes c | None \<Rightarrow> []) k\<rparr>)))"

definition remove_effect_keyframe ::
    "document \<Rightarrow> clip_id \<Rightarrow> effect_id \<Rightarrow> string \<Rightarrow> timecode \<Rightarrow> op_error + document" where
  "remove_effect_keyframe doc i eid name t =
     rbind (find_effect doc i eid) (\<lambda>p.
     let e = effect_at doc p
     in if name = ENABLED_CURVE_NAME
        then (case effect_enabled_curve e of
                None \<Rightarrow> Inr doc
              | Some sibling \<Rightarrow>
                  (case position (\<lambda>k. key_at k = t) (keyframes sibling) of
                     None \<Rightarrow> Inr doc
                   | Some n \<Rightarrow>
                       let keys = remove_at n (keyframes sibling); removed = keyframes sibling ! n
                       in Inr (upd_effect p (\<lambda>e. if keys = []
                            then e\<lparr>effect_enabled := 1 \<le> key_value removed, effect_enabled_curve := None\<rparr>
                            else e\<lparr>effect_enabled_curve := Some \<lparr>keyframes = keys\<rparr>\<rparr>) doc)))
        else if \<not> effect_has_parameter e name then Inl (EffectError (UnknownEffectParam (effect_name e) name))
        else case bt_get name (effect_keyframes e) of
               None \<Rightarrow> Inr doc
             | Some c \<Rightarrow>
                 (case position (\<lambda>k. key_at k = t) (keyframes c) of
                    None \<Rightarrow> Inr doc
                  | Some n \<Rightarrow>
                      let keys = remove_at n (keyframes c); removed = keyframes c ! n;
                          stored = (\<lambda>e. e\<lparr>parameters := bt_insert name (Integer (key_value removed)) (parameters e)\<rparr>)
                      in if keys = []
                         then rbind (validate_effect_parameter (effect_name e) name (Integer (key_value removed))) (\<lambda>_.
                              rbind (if classify_color_node e = Some Curves
                                     then validate_color_curve_points (stored e) else Inr ()) (\<lambda>_.
                              Inr (upd_effect p (\<lambda>e. (stored e)\<lparr>effect_keyframes :=
                                     bt_remove name (effect_keyframes e)\<rparr>) doc)))
                         else Inr (upd_effect p (\<lambda>e. e\<lparr>effect_keyframes :=
                                     bt_insert name \<lparr>keyframes = keys\<rparr> (effect_keyframes e)\<rparr>) doc)))"

definition set_effect_enabled :: "document \<Rightarrow> clip_id \<Rightarrow> effect_id \<Rightarrow> bool \<Rightarrow> op_error + document" where
  "set_effect_enabled doc i eid enabled =
     rbind (find_effect doc i eid) (\<lambda>p. Inr (upd_effect p (\<lambda>e. e\<lparr>effect_enabled := enabled\<rparr>) doc))"

subsection \<open>Copying attributes\<close>

text \<open>The loop of \<^verbatim>\<open>copy_clip_attributes\<close>. Its \<open>slots\<close> map lists the target positions of each effect
  name, computed once from the original target, and \<open>seen\<close> counts the occurrences of each name met so
  far in the source.\<close>

definition name_slots :: "effect list \<Rightarrow> string \<Rightarrow> nat list" where
  "name_slots target name = map fst (filter (\<lambda>(i, e). effect_name e = name) (enumerate_from 0 target))"

fun copy_effects ::
    "effect list \<Rightarrow> bool \<Rightarrow> effect list \<Rightarrow> (string \<Rightarrow> nat) \<Rightarrow> int \<Rightarrow> effect list \<Rightarrow> op_error + effect list" where
  "copy_effects target include_keyframes [] seen next_id result = Inr result"
| "copy_effects target include_keyframes (e # es) seen next_id result =
     (let slots = name_slots target (effect_name e); occurrence = seen (effect_name e);
          seen' = seen(effect_name e := Suc occurrence)
      in if occurrence < length slots
         then let index = slots ! occurrence; old = result ! index
              in copy_effects target include_keyframes es seen' next_id
                   (result[index := e\<lparr>effect_id := effect_id old,
                      effect_keyframes := (if include_keyframes then effect_keyframes e
                                           else effect_keyframes old)\<rparr>])
         else rbind (ok_or TimeOverflow (checked_add_u64 next_id 1)) (\<lambda>next_id'.
              copy_effects target include_keyframes es seen' next_id'
                (result @ [e\<lparr>effect_id := next_id',
                   effect_keyframes := (if include_keyframes then effect_keyframes e else [])\<rparr>])))"

definition copy_clip_attributes ::
    "document \<Rightarrow> clip_id \<Rightarrow> clip_id \<Rightarrow> string list option \<Rightarrow> bool \<Rightarrow> op_error + document" where
  "copy_clip_attributes doc from to names include_keyframes =
     rbind (find_clip doc from) (\<lambda>(fti, fci).
     rbind (find_clip doc to) (\<lambda>(ti, ci).
     rbind (case names of
              Some ns \<Rightarrow> for_each (\<lambda>n. ensure (effect_descriptor n \<noteq> None) (EffectError (UnknownEffect n))) ns
            | None \<Rightarrow> Inr ()) (\<lambda>_.
     let in_scope = (\<lambda>n. case names of Some ns \<Rightarrow> n \<in> set ns | None \<Rightarrow> True);
         source = filter (\<lambda>e. in_scope (effect_name e)) (effects (clip_at doc fti fci));
         target = effects (clip_at doc ti ci)
     in rbind (copy_effects target include_keyframes source (\<lambda>_. 0) (max_list0 (map effect_id target)) target) (\<lambda>result.
     Inr (upd_clip ti ci (\<lambda>c. c\<lparr>effects := result\<rparr>) doc)))))"

section \<open>Lemmas\<close>

lemma enumerate_from_append: "enumerate_from n (xs @ ys) = enumerate_from n xs @ enumerate_from (n + length xs) ys"
  by (induction xs arbitrary: n) simp_all

lemma prospective_before:
  "concat (map (\<lambda>(i, e). (if i = pos then [(pos, r)] else []) @ [(if i < pos then i else i + 1, e)]) (enumerate_from n es))
    = enumerate_from n es" if "n + length es \<le> pos" for pos r n es
  using that by (induction es arbitrary: n) auto

lemma prospective_after:
  "concat (map (\<lambda>(i, e). (if i = pos then [(pos, r)] else []) @ [(if i < pos then i else i + 1, e)]) (enumerate_from n es))
    = enumerate_from (n + 1) es" if "pos < n" for pos r n es
  using that by (induction es arbitrary: n) auto

lemma prospective_list:
  assumes "pos \<le> length es"
  shows "concat (map (\<lambda>(i, e). (if i = pos then [(pos, r)] else []) @ [(if i < pos then i else i + 1, e)])
      (enumerate_from 0 es)) @ (if pos = length es then [(pos, r)] else []) = enumerate_from 0 (insert_at pos r es)"
proof (cases "pos = length es")
  case True
  then show ?thesis using prospective_before [of 0 es pos r] by (simp add: insert_at_def enumerate_from_append)
next
  case False
  then obtain xs x ys where es: "es = xs @ x # ys" "length xs = pos"
    using assms by (metis id_take_nth_drop le_neq_implies_less length_take min.absorb2)
  show ?thesis
    using prospective_before [of 0 xs pos r] prospective_after [of pos "pos + 1" r ys] False es(2)
    by (simp add: es(1) enumerate_from_append insert_at_def)
qed

lemma enumerate_from_enumerate: "enumerate_from n xs = enumerate n xs"
  by (induction xs arbitrary: n) simp_all

section \<open>Properties\<close>

text \<open>
  The insertion of an effect judges the colour-stage order of the stack before it is built: the
  prospective walk, which numbers the new node and shifts the ones behind it without copying the stack,
  gives exactly the nodes the validator classifies in the finished stack, so an insertion is refused for
  its stage order exactly when the resulting stack would be.
\<close>

theorem prospective_nodes_match_validator:
  assumes "pos \<le> length es"
  shows "prospective_color_nodes es pos e = classified_nodes (insert_at pos e es)
    \<and> color_stage_order_violation_over (prospective_color_nodes es pos e) = color_stage_order_violation_of (insert_at pos e es)"
  using prospective_list [OF assms]
  by (simp add: prospective_color_nodes_def classified_nodes_def color_stage_order_violation_of_def Let_def
      enumerate_from_enumerate classify_color_node_def)

theorem prospective_nodes_match_validator_witness:
  "prospective_color_nodes [sample_opacity, sample_curves_effect] 1 sample_opacity
    = classified_nodes (insert_at 1 sample_opacity [sample_opacity, sample_curves_effect])"
  using prospective_nodes_match_validator [of 1 "[sample_opacity, sample_curves_effect]" sample_opacity] by simp

end
