(* ===== verification/Editor_Spec.thy ===== *)
theory Editor_Spec
  imports Rust_Prelude
begin

text \<open>
  The contract between an editor that applies operations to documents and the history that records them.
  The interface promises one thing, that a step only ever returns valid documents; what follows for runs
  of operations, for the stack of undo entries and for the stack of redo entries is proved here once and
  used through the interpretation on the project editor.
\<close>

section \<open>Runs\<close>

lemma fold_res_append: "fold_res f (xs @ ys) s = rbind (fold_res f xs s) (fold_res f ys)"
proof (induction xs arbitrary: s)
  case (Cons x xs)
  then show ?case by (cases "f x s") simp_all
qed simp

text \<open>Undo entries, oldest first: each holds the document before and the operations that lead to the document
  of the next entry, the newest to the current document.\<close>

fun past_linked :: "('o \<Rightarrow> 'd \<Rightarrow> 'e + 'd) \<Rightarrow> ('d \<times> 'o list) list \<Rightarrow> 'd \<Rightarrow> bool" where
  "past_linked step [] d \<longleftrightarrow> True"
| "past_linked step ((d0, ops) # es) d \<longleftrightarrow>
     fold_res step ops d0 = Inr (case es of [] \<Rightarrow> d | e # _ \<Rightarrow> fst e) \<and> past_linked step es d"

text \<open>Redo entries, next first: each holds the operations and the document they lead to.\<close>

fun future_linked :: "('o \<Rightarrow> 'd \<Rightarrow> 'e + 'd) \<Rightarrow> 'd \<Rightarrow> ('d \<times> 'o list) list \<Rightarrow> bool" where
  "future_linked step d [] \<longleftrightarrow> True"
| "future_linked step d ((d1, ops) # es) \<longleftrightarrow> fold_res step ops d = Inr d1 \<and> future_linked step d1 es"

lemma past_linked_snoc [simp]:
  "past_linked step (es @ [(d0, ops)]) d \<longleftrightarrow> past_linked step es d0 \<and> fold_res step ops d0 = Inr d"
  by (induction step es d rule: past_linked.induct) (auto split: list.splits)

text \<open>The document the oldest entry starts from.\<close>

definition origin :: "('d \<times> 'o list) list \<Rightarrow> 'd \<Rightarrow> 'd" where
  "origin es d = (case es of [] \<Rightarrow> d | e # _ \<Rightarrow> fst e)"

lemma origin_simps [simp]: "origin [] d = d" "origin (e # es) d = fst e"
  "origin (es @ [e]) d = origin es (fst e)"
  by (simp_all add: origin_def split: list.split)

lemma past_linked_run:
  "past_linked step es d \<Longrightarrow> fold_res step (concat (map snd es)) (origin es d) = Inr d"
  by (induction es) (auto simp: fold_res_append origin_def split: list.splits)

section \<open>The interface\<close>

locale checked_editor =
  fixes valid :: "'d \<Rightarrow> bool" and step :: "'o \<Rightarrow> 'd \<Rightarrow> 'e + 'd"
  assumes step_valid: "step op d = Inr d' \<Longrightarrow> valid d'"
begin

lemma run_valid: "valid d \<Longrightarrow> fold_res step ops d = Inr d' \<Longrightarrow> valid d'"
  by (induction ops arbitrary: d) (auto simp: rbind_eq_Inr dest: step_valid)

lemma past_valid:
  "past_linked step es d \<Longrightarrow> valid (origin es d) \<Longrightarrow> valid d \<and> (\<forall>e \<in> set es. valid (fst e))"
proof (induction es)
  case (Cons e es)
  obtain d0 ops where e: "e = (d0, ops)" by (cases e)
  with Cons.prems have "valid (origin es d)" using run_valid by (auto simp: origin_def split: list.splits)
  with Cons show ?case by (auto simp: e)
qed simp

lemma future_valid: "future_linked step d es \<Longrightarrow> valid d \<Longrightarrow> \<forall>e \<in> set es. valid (fst e)"
  by (induction es arbitrary: d) (auto dest: run_valid, fastforce dest: run_valid)

end

end
