(* ===== verification/Operation.thy ===== *)
theory Operation
  imports Project_Ops Editor_Spec
begin

text \<open>
  The \<^verbatim>\<open>Operation\<close> enum of \<^verbatim>\<open>crates/kinewright-core/src/operation.rs\<close>, its dispatch, and the two ways an
  edit reaches a document: \<^verbatim>\<open>Operation::apply\<close> and \<^verbatim>\<open>apply_batch\<close>. Both validate the document before and
  after every step and replace the caller's document only on success; here they return the new document or
  the error.
\<close>

section \<open>Definitions\<close>

datatype (plugins only: code) operation =
    AddAsset media_asset
  | RelinkAsset asset_id relink_candidate bool
  | SetAssetColorDescription asset_id color_description
  | SetColorContext color_context
  | UpsertBin media_bin
  | RemoveBin bin_id
  | SetAssetBin asset_id "bin_id option"
  | UpsertStringOut string_out
  | RemoveStringOut string_out_id
  | UpsertSyncGroup sync_group
  | RemoveSyncGroup sync_group_id
  | UpsertAudioBus audio_bus
  | RemoveAudioBus audio_bus_id
  | SetAudioMaster audio_master
  | SetPanLaw pan_law
  | AddTrack track
  | RemoveTrack track_id
  | SetTrackSyncLock track_id bool
  | SetTrackMix track_id int int bool bool
  | SetTrackAutomation track_id string "automation_curve option"
  | AddClip track_id asset_id timecode trange
  | AddTitle track_id timecode timecode title
  | SplitClip clip_id timecode
  | TrimClip clip_id trange
  | MoveClip clip_id track_id timecode
  | ThreePointEdit track_id asset_id "timecode option" "timecode option" "timecode option"
      "timecode option" three_point_mode
  | PatchedThreePointEdit asset_id "timecode option" "timecode option" "timecode option"
      "timecode option" three_point_mode "track_id option" "track_id option"
  | SlipClip clip_id timecode
  | RollEdit clip_id clip_id timecode
  | SlideClip clip_id timecode
  | ReplaceClip clip_id asset_id trange
  | FitToFill clip_id asset_id trange
  | DeleteClip clip_id
  | RippleDeleteClip clip_id
  | RippleInsertGap track_id timecode timecode
  | LinkClips "clip_id list"
  | UnlinkClips "clip_id list"
  | AddMarker marker
  | RemoveMarker marker_id
  | MoveMarker marker_id timecode
  | AddEffect clip_id effect
  | InsertEffect clip_id nat effect
  | RemoveEffect clip_id effect_id
  | SetEffectParam clip_id effect_id string param_value
  | SetEffectKeyframes clip_id effect_id string automation_curve
  | ClearEffectKeyframes clip_id effect_id string
  | UpsertEffectKeyframe clip_id effect_id string keyframe
  | RemoveEffectKeyframe clip_id effect_id string timecode
  | SetEffectEnabled clip_id effect_id bool
  | SetClipEnabled clip_id bool
  | SetClipEnabledCurve clip_id "automation_curve option"
  | CopyClipAttributes clip_id clip_id "string list option" bool
  | ConvertLegacyLook clip_id effect_id lut_asset_id int
  | AddLutAsset lut_asset
  | RemoveLutAsset lut_asset_id
  | SetTitleParam clip_id string param_value
  | SetClipAudio clip_id int timecode timecode
  | SetClipGainEnvelope clip_id "automation_curve option"
  | AddTransition clip_id transition
  | RemoveTransition clip_id
  | SetMarkerParam marker_id string param_value
  | AddFreezeFrame track_id timecode timecode asset_id timecode
  | SetClipSpeed clip_id int
  | SetClipBlendMode clip_id blend_mode
  | AddAdjustmentClip track_id timecode timecode "effect list"
  | AddSolidClip track_id timecode timecode solid_color
  | SetSolidColor clip_id solid_color

definition canonicalize_legacy_effect_names :: "operation \<Rightarrow> operation" where
  "canonicalize_legacy_effect_names op =
     (case op of
        AddEffect c e \<Rightarrow> AddEffect c (effect_canonicalize_legacy_name e)
      | InsertEffect c n e \<Rightarrow> InsertEffect c n (effect_canonicalize_legacy_name e)
      | AddAdjustmentClip t s d es \<Rightarrow> AddAdjustmentClip t s d (map effect_canonicalize_legacy_name es)
      | _ \<Rightarrow> op)"

definition apply_unchecked :: "operation \<Rightarrow> document \<Rightarrow> op_error + document" where
  "apply_unchecked op doc =
     (case op of
        AddAsset a \<Rightarrow> add_asset doc a
      | RelinkAsset a c allow \<Rightarrow> relink_asset doc a c allow
      | SetAssetColorDescription a d \<Rightarrow> set_asset_color_description doc a d
      | SetColorContext cc \<Rightarrow> set_color_context doc cc
      | UpsertBin b \<Rightarrow> Inr (upsert_bin doc b)
      | RemoveBin b \<Rightarrow> remove_bin doc b
      | SetAssetBin a b \<Rightarrow> set_asset_bin doc a b
      | UpsertStringOut s \<Rightarrow> Inr (upsert_string_out doc s)
      | RemoveStringOut s \<Rightarrow> remove_string_out doc s
      | UpsertSyncGroup g \<Rightarrow> Inr (upsert_sync_group doc g)
      | RemoveSyncGroup g \<Rightarrow> remove_sync_group doc g
      | UpsertAudioBus b \<Rightarrow> upsert_audio_bus doc b
      | RemoveAudioBus b \<Rightarrow> remove_audio_bus doc b
      | SetAudioMaster m \<Rightarrow> set_audio_master doc m
      | SetPanLaw law \<Rightarrow> Inr (set_pan_law doc law)
      | AddTrack t \<Rightarrow> add_track doc t
      | RemoveTrack t \<Rightarrow> remove_track doc t
      | SetTrackSyncLock t l \<Rightarrow> set_track_sync_lock doc t l
      | SetTrackMix t g p m s \<Rightarrow> set_track_mix doc t g p m s
      | SetTrackAutomation t p c \<Rightarrow> set_track_automation doc t p c
      | AddClip t a s src \<Rightarrow> add_clip doc t a s src
      | AddTitle t s d ttl \<Rightarrow> add_title doc t s d ttl
      | AddFreezeFrame t s d a f \<Rightarrow> add_freeze_frame doc t s d a f
      | SplitClip c t \<Rightarrow> split_clip doc c t
      | TrimClip c r \<Rightarrow> trim_clip doc c r
      | MoveClip c t s \<Rightarrow> move_clip doc c t s
      | ThreePointEdit t a si so tin tout m \<Rightarrow> three_point_edit doc t a si so tin tout m
      | PatchedThreePointEdit a si so tin tout m v au \<Rightarrow> patched_three_point_edit doc a si so tin tout m v au
      | SlipClip c s \<Rightarrow> slip_clip doc c s
      | RollEdit l r t \<Rightarrow> roll_edit doc l r t
      | SlideClip c t \<Rightarrow> slide_clip doc c t
      | ReplaceClip c a r \<Rightarrow> replace_clip doc c a r False
      | FitToFill c a r \<Rightarrow> replace_clip doc c a r True
      | DeleteClip c \<Rightarrow> delete_clip doc c
      | RippleDeleteClip c \<Rightarrow> ripple_delete_clip doc c
      | RippleInsertGap t s d \<Rightarrow> ripple_insert_gap doc t s d
      | LinkClips cs \<Rightarrow> link_clips doc cs
      | UnlinkClips cs \<Rightarrow> unlink_clips doc cs
      | AddMarker m \<Rightarrow> add_marker doc m
      | RemoveMarker m \<Rightarrow> remove_marker doc m
      | MoveMarker m t \<Rightarrow> move_marker doc m t
      | InsertEffect c n e \<Rightarrow> insert_effect doc c (Some n) e
      | ConvertLegacyLook c e l m \<Rightarrow> convert_legacy_look doc c e l m
      | AddLutAsset a \<Rightarrow> add_lut_asset doc a
      | RemoveLutAsset a \<Rightarrow> remove_lut_asset doc a
      | AddEffect c e \<Rightarrow> add_effect doc c (effect_canonicalize_legacy_name e)
      | RemoveEffect c e \<Rightarrow> remove_effect doc c e
      | SetEffectParam c e n v \<Rightarrow> set_effect_param doc c e n v
      | SetEffectKeyframes c e n k \<Rightarrow> set_effect_keyframes doc c e n k
      | ClearEffectKeyframes c e n \<Rightarrow> clear_effect_keyframes doc c e n
      | UpsertEffectKeyframe c e n k \<Rightarrow> upsert_effect_keyframe doc c e n k
      | RemoveEffectKeyframe c e n t \<Rightarrow> remove_effect_keyframe doc c e n t
      | SetEffectEnabled c e b \<Rightarrow> set_effect_enabled doc c e b
      | SetClipEnabled c b \<Rightarrow> set_clip_enabled doc c b
      | SetClipEnabledCurve c k \<Rightarrow> set_clip_enabled_curve doc c k
      | CopyClipAttributes f t ns k \<Rightarrow> copy_clip_attributes doc f t ns k
      | SetTitleParam c n v \<Rightarrow> set_title_param doc c n v
      | SetClipAudio c g i out \<Rightarrow> set_clip_audio doc c g i out
      | SetClipGainEnvelope c k \<Rightarrow> set_clip_gain_envelope doc c k
      | AddTransition c t \<Rightarrow> add_transition doc c t
      | RemoveTransition c \<Rightarrow> remove_transition doc c
      | SetMarkerParam m n v \<Rightarrow> set_marker_param doc m n v
      | SetClipSpeed c s \<Rightarrow> set_clip_speed doc c s
      | SetClipBlendMode c b \<Rightarrow> set_clip_blend_mode doc c b
      | AddAdjustmentClip t s d es \<Rightarrow> add_generated_clip doc t s d Adjustment es
      | AddSolidClip t s d c \<Rightarrow> add_generated_clip doc t s d (Solid c) []
      | SetSolidColor c col \<Rightarrow> set_solid_color doc c col)"

text \<open>The checked step both entry points share: edit the candidate, recompute the duration, validate.\<close>

definition apply_step :: "operation \<Rightarrow> document \<Rightarrow> op_error + document" where
  "apply_step op candidate =
     rbind (apply_unchecked op candidate) (\<lambda>c1.
     rbind (recompute_duration c1) (\<lambda>c2.
     rbind (validate_document c2) (\<lambda>_. Inr c2)))"

definition operation_apply :: "operation \<Rightarrow> document \<Rightarrow> op_error + document" where
  "operation_apply op doc = rbind (validate_document doc) (\<lambda>_. apply_step op doc)"

subsection \<open>Batches\<close>

record identity_effect =
  created :: "clip_id list"
  deleted :: "clip_id list"
  retained :: "clip_id list"
  split_parent :: "clip option"
  split_results :: "clip list"

text \<open>A \<^verbatim>\<open>BTreeSet\<close> of clip ids is a sorted list without repetition.\<close>

definition clip_identities :: "document \<Rightarrow> clip_id list" where
  "clip_identities doc = sort (remdups (map clip_id (all_clips doc)))"

definition identity_effect_of :: "clip_id list \<Rightarrow> document \<Rightarrow> clip option \<Rightarrow> identity_effect" where
  "identity_effect_of before after parent =
     (let ids = clip_identities after
      in \<lparr>created = filter (\<lambda>i. i \<notin> set before) ids,
          deleted = filter (\<lambda>i. i \<notin> set ids) before,
          retained = filter (\<lambda>i. i \<in> set ids) before,
          split_parent = parent,
          split_results = (case parent of
              None \<Rightarrow> []
            | Some p \<Rightarrow> filter (\<lambda>c. clip_id c = clip_id p \<or> clip_id c \<notin> set before) (all_clips after))\<rparr>)"

definition batch_split_parent :: "bool \<Rightarrow> operation \<Rightarrow> document \<Rightarrow> clip option" where
  "batch_split_parent capture op candidate =
     (if capture then (case op of SplitClip c _ \<Rightarrow> doc_clip candidate c | _ \<Rightarrow> None) else None)"

fun batch_loop ::
    "bool \<Rightarrow> nat \<Rightarrow> operation list \<Rightarrow> document \<Rightarrow> batch_error + (document \<times> identity_effect list)" where
  "batch_loop capture n [] candidate = Inr (candidate, [])"
| "batch_loop capture n (op # ops) candidate =
     rbind (map_err (OperationFailed (n + 1)) (apply_step op candidate)) (\<lambda>candidate'.
     rbind (batch_loop capture (n + 1) ops candidate') (\<lambda>(final, effects).
     Inr (final, (if capture
                  then identity_effect_of (clip_identities candidate) candidate'
                         (batch_split_parent capture op candidate) # effects
                  else effects))))"

definition apply_batch_inner ::
    "document \<Rightarrow> operation list \<Rightarrow> bool \<Rightarrow> batch_error + (document \<times> identity_effect list)" where
  "apply_batch_inner doc ops capture =
     (if ops = [] then Inl EmptyBatch
      else rbind (map_err (OperationFailed 1) (validate_document doc)) (\<lambda>_. batch_loop capture 0 ops doc))"

definition apply_batch :: "document \<Rightarrow> operation list \<Rightarrow> batch_error + document" where
  "apply_batch doc ops = rbind (apply_batch_inner doc ops False) (\<lambda>(d, _). Inr d)"

definition apply_batch_observed ::
    "document \<Rightarrow> operation list \<Rightarrow> batch_error + (document \<times> identity_effect list)" where
  "apply_batch_observed doc ops = apply_batch_inner doc ops True"

section \<open>Lemmas\<close>

definition valid_document :: "document \<Rightarrow> bool" where
  "valid_document doc \<longleftrightarrow> validate_document doc = Inr ()"

lemma apply_step_valid: "apply_step op doc = Inr doc' \<Longrightarrow> valid_document doc'"
  by (auto simp: apply_step_def valid_document_def rbind_eq_Inr)

interpretation editor: checked_editor valid_document apply_step
  by unfold_locales (rule apply_step_valid)

lemma operation_apply_valid: "valid_document doc \<Longrightarrow> operation_apply op doc = apply_step op doc"
  by (simp add: operation_apply_def valid_document_def)

lemma batch_loop_run:
  "batch_loop capture n ops doc = Inr (doc', effs) \<Longrightarrow>
     fold_res apply_step ops doc = Inr doc' \<and> (capture \<longrightarrow> length effs = length ops) \<and> (\<not> capture \<longrightarrow> effs = [])"
  by (induction capture n ops doc arbitrary: effs rule: batch_loop.induct)
    (fastforce simp: rbind_eq_Inr)+

lemma run_batch_loop:
  "fold_res apply_step ops doc = Inr doc' \<Longrightarrow> \<exists>effs. batch_loop capture n ops doc = Inr (doc', effs)"
proof (induction ops arbitrary: n doc)
  case (Cons op ops)
  from Cons.prems obtain d where d: "apply_step op doc = Inr d" "fold_res apply_step ops d = Inr doc'"
    by (auto simp: rbind_eq_Inr)
  from Cons.IH [OF d(2), of "n + 1"] obtain effs where "batch_loop capture (n + 1) ops d = Inr (doc', effs)" ..
  then show ?case using d(1) by simp
qed simp

lemma batch_loop_capture:
  "rbind (batch_loop True n ops doc) (\<lambda>(d, _). Inr d) = rbind (batch_loop False n ops doc) (\<lambda>(d, _). Inr d)"
proof (induction ops arbitrary: n doc)
  case (Cons op ops)
  show ?case
  proof (cases "apply_step op doc")
    case (Inr d)
    then show ?thesis using Cons [of "n + 1" d]
      by (cases "batch_loop True (n + 1) ops d"; cases "batch_loop False (n + 1) ops d") (auto split: prod.splits)
  qed simp
qed simp

text \<open>What a recorded identity effect says: created, retained and deleted ids partition the clip ids before
  and after the operation.\<close>

lemma set_clip_identities [simp]: "set (clip_identities doc) = clip_id ` set (all_clips doc)"
  by (simp add: clip_identities_def)

lemma identity_effect_partition:
  fixes before after parent
  defines "eff \<equiv> identity_effect_of (clip_identities before) after parent"
  shows "set (created eff) \<union> set (retained eff) = clip_id ` set (all_clips after)"
    and "set (deleted eff) \<union> set (retained eff) = clip_id ` set (all_clips before)"
    and "set (created eff) \<inter> clip_id ` set (all_clips before) = {}"
    and "set (deleted eff) \<inter> clip_id ` set (all_clips after) = {}"
  by (auto simp: eff_def identity_effect_of_def Let_def)

section \<open>Properties\<close>

text \<open>Plain sequential editing: apply the operations one by one through the public entry point and stop at
  the first refusal, numbered from one.\<close>

fun apply_sequentially :: "nat \<Rightarrow> operation list \<Rightarrow> document \<Rightarrow> batch_error + document" where
  "apply_sequentially n [] doc = Inr doc"
| "apply_sequentially n (op # ops) doc =
     (case operation_apply op doc of
        Inl e \<Rightarrow> Inl (OperationFailed n e)
      | Inr doc' \<Rightarrow> apply_sequentially (n + 1) ops doc')"

lemma batch_loop_sequential:
  assumes "valid_document doc"
  shows "rbind (batch_loop False n ops doc) (\<lambda>(d, _). Inr d) = apply_sequentially (n + 1) ops doc"
  using assms
proof (induction ops arbitrary: n doc)
  case (Cons op ops)
  show ?case
  proof (cases "apply_step op doc")
    case (Inl e)
    then show ?thesis using Cons.prems by (simp add: operation_apply_valid)
  next
    case (Inr d)
    then have "rbind (batch_loop False (n + 1) ops d) (\<lambda>(d, _). Inr d) = apply_sequentially (n + 2) ops d"
      using Cons.IH [of d "n + 1"] apply_step_valid by simp
    then show ?thesis using Cons.prems Inr
      by (cases "batch_loop False (n + 1) ops d") (auto simp: operation_apply_valid split: prod.splits)
  qed
qed simp

text \<open>
  Claim C7. A batch is exactly sequential editing made atomic: for every document and every non-empty list
  of operations it returns what applying them one by one through the public entry point returns, the same
  final document or the same error with the one-based number of the first operation that was refused; the
  observed variant the history uses returns the same document or error.
\<close>

theorem apply_batch_refines_sequential:
  "apply_batch doc ops = (if ops = [] then Inl EmptyBatch else apply_sequentially 1 ops doc)
    \<and> rbind (apply_batch_observed doc ops) (\<lambda>(d, _). Inr d) = apply_batch doc ops"
proof (cases "ops = [] \<or> validate_document doc \<noteq> Inr ()")
  case True
  then show ?thesis
    by (cases "validate_document doc"; cases ops)
      (auto simp: apply_batch_def apply_batch_observed_def apply_batch_inner_def operation_apply_def)
next
  case False
  then show ?thesis
    using batch_loop_sequential [of doc 0 ops] batch_loop_capture [of 0 ops doc]
    by (simp add: apply_batch_def apply_batch_observed_def apply_batch_inner_def valid_document_def)
qed

end
