(* ===== verification/History.thy ===== *)
theory History
  imports Operation
begin

text \<open>
  The editing history of \<^verbatim>\<open>crates/kinewright-core/src/actor.rs\<close>, \<^verbatim>\<open>history.rs\<close>,
  \<^verbatim>\<open>history_transition.rs\<close> and \<^verbatim>\<open>journal.rs\<close>: the state one core actor owns (document, revision, undo and
  redo stacks, accepted batches, save barrier), the commands that change it, export and restore by replay,
  and the floors that drop a saved prefix. \<^verbatim>\<open>Arc\<close> sharing is not observable and is left out; stacks are lists
  with the newest entry last. The actor thread panics when the revision counter is exhausted; a definition
  that can panic returns an option, with \<open>None\<close> for the panic.
\<close>

section \<open>Definitions\<close>

subsection \<open>Portable history values\<close>

datatype journal_command =
    JDo operation
  | JDoBatch "operation list"
  | JDoBatchCoalesced "operation list" string
  | JUndo
  | JRedo

text \<open>\<^verbatim>\<open>HistoryEntry\<close> and its exported form \<^verbatim>\<open>GestureBoundary\<close> have the same fields.\<close>

record history_entry =
  entry_document :: document
  entry_operations :: "operation list"
  entry_coalesce_key :: "string option"

record gesture_boundary =
  boundary_document :: document
  boundary_operations :: "operation list"
  boundary_coalesce_key :: "string option"

record history_cursor =
  cursor_undo :: "gesture_boundary list"
  cursor_redo :: "gesture_boundary list"

record history_batch =
  batch_order :: nat
  batch_command :: journal_command
  batch_identity_effects :: "identity_effect list"
  undo_entries :: nat
  redo_entries :: nat

record history_snapshot =
  snap_floor_offset :: int
  snap_baseline :: document
  snap_document :: document
  snap_batches :: "history_batch list"
  snap_cursor :: history_cursor

datatype core_mutation_refusal =
  FrozenRefusal | SealedRefusal | OwnerRequired | ManualPermitRequired | ManualBackpressure | ManualInputRequired

datatype history_error =
    MutationRefused_History core_mutation_refusal
  | CaptureChanged
  | SaveInProgress
  | BarrierInvariant
  | CommitInvariant
  | Capacity
  | Corrupt
  | Disconnected

definition applied_operations :: "history_snapshot \<Rightarrow> operation list" where
  "applied_operations h = concat (map boundary_operations (cursor_undo (snap_cursor h)))"

subsection \<open>Commands and events\<close>

type_synonym revision = int
type_synonym command_token = int

datatype query = QueryDocument | QuerySnapshot | QueryClip clip_id | QueryOpLog | QueryAppliedOperations

datatype command =
    Do operation
  | DoBatch "operation list"
  | DoBatchCoalesced "operation list" string
  | DoIfRevision revision operation "command_token option"
  | DoBatchIfRevision revision "operation list"
  | Undo
  | Redo
  | Query query

fun command_of_journal :: "journal_command \<Rightarrow> command" where
  "command_of_journal (JDo op) = Do op"
| "command_of_journal (JDoBatch ops) = DoBatch ops"
| "command_of_journal (JDoBatchCoalesced ops k) = DoBatchCoalesced ops k"
| "command_of_journal JUndo = Undo"
| "command_of_journal JRedo = Redo"

datatype query_result =
    DocumentResult document
  | SnapshotResult revision document
  | ClipResult "clip option"
  | OpLogResult "operation list"
  | AppliedOperationsResult "operation list"

datatype event =
    MutationRefused core_mutation_refusal "command_token option"
  | UndoBlockedBySave int
  | DocumentChanged document revision "operation option" "journal_command option" "command_token option"
  | OpRejected operation op_error "command_token option"
  | BatchRejected "operation list" batch_error
  | RevisionConflict revision revision "command_token option"
  | QueryResult query_result

subsection \<open>The state of a core actor\<close>

record history_save_tag =
  tag_destination :: string
  tag_parent_device :: int
  tag_parent_inode :: int
  tag_root_sha256 :: string
  tag_previous_root_sha256 :: "string option"

record pending_history_save =
  save_actor :: int
  save_id :: int
  save_tag :: "history_save_tag option"
  save_ready :: bool

record pending_floor =
  floor_save :: pending_history_save
  floor_target :: int
  floor_discard :: nat
  floor_depth :: nat
  floor_baseline :: document

record core_state =
  history_epoch :: int
  next_floor_id :: int
  state_pending_floor :: "pending_floor option"
  floor_offset :: int
  baseline :: document
  batches :: "history_batch list"
  identity_effects :: "identity_effect list"
  state_document :: document
  state_revision :: revision
  undo_stack :: "history_entry list"
  redo_stack :: "history_entry list"
  op_log :: "operation list"

definition core_state_new :: "document \<Rightarrow> revision \<Rightarrow> core_state" where
  "core_state_new doc revision =
     \<lparr>history_epoch = 0, next_floor_id = 0, state_pending_floor = None, floor_offset = 0, baseline = doc,
      batches = [], identity_effects = [], state_document = doc, state_revision = revision,
      undo_stack = [], redo_stack = [], op_log = []\<rparr>"

record history_change_id =
  change_revision :: revision
  change_batch_count :: nat

definition history_change_id_of :: "core_state \<Rightarrow> history_change_id" where
  "history_change_id_of s = \<lparr>change_revision = state_revision s, change_batch_count = length (batches s)\<rparr>"

definition increment_revision :: "core_state \<Rightarrow> core_state option" where
  "increment_revision s =
     map_option (\<lambda>r. s\<lparr>state_revision := r\<rparr>) (checked_add_u64 (state_revision s) 1)"

subsection \<open>Editing\<close>

text \<open>The tail the three editing commands share: clear the redo stack, log, install the document.\<close>

definition install_edit ::
    "operation list \<Rightarrow> document \<Rightarrow> history_entry list \<Rightarrow> identity_effect list \<Rightarrow> core_state \<Rightarrow> core_state option" where
  "install_edit ops after undo effs s =
     increment_revision (s\<lparr>identity_effects := effs, undo_stack := undo, redo_stack := [],
       op_log := op_log s @ ops, state_document := after\<rparr>)"

definition do_operation :: "operation \<Rightarrow> core_state \<Rightarrow> (op_error + core_state) option" where
  "do_operation op s =
     (case apply_batch_observed (state_document s) [op] of
        Inl (OperationFailed _ e) \<Rightarrow> Some (Inl e)
      | Inl EmptyBatch \<Rightarrow> None
      | Inr (after, effs) \<Rightarrow>
          map_option Inr (install_edit [op] after
            (undo_stack s @ [\<lparr>entry_document = state_document s, entry_operations = [op], entry_coalesce_key = None\<rparr>]) effs s))"

definition do_batch :: "operation list \<Rightarrow> core_state \<Rightarrow> (batch_error + core_state) option" where
  "do_batch ops s =
     (case apply_batch_observed (state_document s) ops of
        Inl e \<Rightarrow> Some (Inl e)
      | Inr (after, effs) \<Rightarrow>
          map_option Inr (install_edit ops after
            (undo_stack s @ [\<lparr>entry_document = state_document s, entry_operations = ops, entry_coalesce_key = None\<rparr>]) effs s))"

text \<open>The newest entry is reused when it belongs to the same gesture.\<close>

definition coalesce :: "operation list \<Rightarrow> string \<Rightarrow> document \<Rightarrow> history_entry list \<Rightarrow> history_entry list" where
  "coalesce ops key before stack =
     (if stack \<noteq> [] \<and> entry_coalesce_key (last stack) = Some key
      then butlast stack @ [(last stack)\<lparr>entry_operations := entry_operations (last stack) @ ops\<rparr>]
      else stack @ [\<lparr>entry_document = before, entry_operations = ops, entry_coalesce_key = Some key\<rparr>])"

definition do_batch_coalesced :: "operation list \<Rightarrow> string \<Rightarrow> core_state \<Rightarrow> (batch_error + core_state) option" where
  "do_batch_coalesced ops key s =
     (case apply_batch_observed (state_document s) ops of
        Inl e \<Rightarrow> Some (Inl e)
      | Inr (after, effs) \<Rightarrow>
          map_option Inr (install_edit ops after (coalesce ops key (state_document s) (undo_stack s)) effs s))"

definition close_gesture :: "history_entry list \<Rightarrow> history_entry list" where
  "close_gesture stack = (if stack = [] then [] else butlast stack @ [(last stack)\<lparr>entry_coalesce_key := None\<rparr>])"

definition undo :: "core_state \<Rightarrow> core_state option" where
  "undo s =
     (if undo_stack s = [] then Some s
      else let entry = last (undo_stack s)
           in increment_revision (s\<lparr>
                redo_stack := redo_stack s @ [\<lparr>entry_document = state_document s,
                  entry_operations = entry_operations entry, entry_coalesce_key = None\<rparr>],
                undo_stack := close_gesture (butlast (undo_stack s)),
                state_document := entry_document entry\<rparr>))"

definition redo :: "core_state \<Rightarrow> core_state option" where
  "redo s =
     (if redo_stack s = [] then Some s
      else let entry = last (redo_stack s)
           in increment_revision (s\<lparr>
                undo_stack := undo_stack s @ [\<lparr>entry_document = state_document s,
                  entry_operations = entry_operations entry, entry_coalesce_key = None\<rparr>],
                redo_stack := butlast (redo_stack s),
                state_document := entry_document entry\<rparr>))"

definition query_state :: "query \<Rightarrow> core_state \<Rightarrow> query_result" where
  "query_state q s =
     (case q of
        QueryDocument \<Rightarrow> DocumentResult (state_document s)
      | QuerySnapshot \<Rightarrow> SnapshotResult (state_revision s) (state_document s)
      | QueryClip i \<Rightarrow> ClipResult (doc_clip (state_document s) i)
      | QueryOpLog \<Rightarrow> OpLogResult (op_log s)
      | QueryAppliedOperations \<Rightarrow> AppliedOperationsResult (concat (map entry_operations (undo_stack s))))"

subsection \<open>The command executor\<close>

definition revision_conflict :: "core_state \<Rightarrow> revision \<Rightarrow> command_token option \<Rightarrow> event option" where
  "revision_conflict s expected token =
     (if expected \<noteq> state_revision s then Some (RevisionConflict expected (state_revision s) token) else None)"

definition execute_operation :: "operation \<Rightarrow> command_token option \<Rightarrow> core_state \<Rightarrow> (event \<times> core_state) option" where
  "execute_operation op0 token s =
     (let op = canonicalize_legacy_effect_names op0
      in Option.bind (do_operation op s) (\<lambda>r. case r of
           Inr s' \<Rightarrow> Some (DocumentChanged (state_document s') (state_revision s') (Some op) (Some (JDo op)) token, s')
         | Inl e \<Rightarrow> Some (OpRejected op e token, s)))"

definition execute_batch :: "operation list \<Rightarrow> core_state \<Rightarrow> (event \<times> core_state) option" where
  "execute_batch ops0 s =
     (let ops = map canonicalize_legacy_effect_names ops0
      in Option.bind (do_batch ops s) (\<lambda>r. case r of
           Inr s' \<Rightarrow> Some (DocumentChanged (state_document s') (state_revision s') None (Some (JDoBatch ops)) None, s')
         | Inl e \<Rightarrow> Some (BatchRejected ops e, s)))"

definition execute_batch_coalesced :: "operation list \<Rightarrow> string \<Rightarrow> core_state \<Rightarrow> (event \<times> core_state) option" where
  "execute_batch_coalesced ops0 key s =
     (let ops = map canonicalize_legacy_effect_names ops0
      in Option.bind (do_batch_coalesced ops key s) (\<lambda>r. case r of
           Inr s' \<Rightarrow> Some (DocumentChanged (state_document s') (state_revision s') None
                             (Some (JDoBatchCoalesced ops key)) None, s')
         | Inl e \<Rightarrow> Some (BatchRejected ops e, s)))"

definition execute_command_inner :: "command \<Rightarrow> core_state \<Rightarrow> (event \<times> core_state) option" where
  "execute_command_inner cmd s =
     (case cmd of
        Do op \<Rightarrow> execute_operation op None s
      | DoBatch ops \<Rightarrow> execute_batch ops s
      | DoBatchCoalesced ops key \<Rightarrow> execute_batch_coalesced ops key s
      | DoIfRevision expected op token \<Rightarrow>
          (case revision_conflict s expected token of
             Some e \<Rightarrow> Some (e, s) | None \<Rightarrow> execute_operation op token s)
      | DoBatchIfRevision expected ops \<Rightarrow>
          (case revision_conflict s expected None of
             Some e \<Rightarrow> Some (e, s) | None \<Rightarrow> execute_batch ops s)
      | Undo \<Rightarrow> map_option (\<lambda>s'. (DocumentChanged (state_document s') (state_revision s') None (Some JUndo) None, s')) (undo s)
      | Redo \<Rightarrow> map_option (\<lambda>s'. (DocumentChanged (state_document s') (state_revision s') None (Some JRedo) None, s')) (redo s)
      | Query q \<Rightarrow> Some (QueryResult (query_state q s), s))"

definition record_batch :: "event \<Rightarrow> core_state \<Rightarrow> core_state" where
  "record_batch e s =
     (case e of
        DocumentChanged _ _ _ (Some c) _ \<Rightarrow>
          s\<lparr>batches := batches s @ [\<lparr>batch_order = length (batches s), batch_command = c,
              batch_identity_effects = identity_effects s, undo_entries = length (undo_stack s),
              redo_entries = length (redo_stack s)\<rparr>],
            identity_effects := []\<rparr>
      | _ \<Rightarrow> s)"

definition execute_command :: "command \<Rightarrow> core_state \<Rightarrow> (event \<times> core_state) option" where
  "execute_command cmd s =
     map_option (\<lambda>(e, s'). (e, record_batch e s')) (execute_command_inner cmd (s\<lparr>identity_effects := []\<rparr>))"

fun is_document_changed :: "event \<Rightarrow> bool" where
  "is_document_changed (DocumentChanged _ _ _ _ _) = True"
| "is_document_changed _ = False"


subsection \<open>Export and restore\<close>

text \<open>Sequencing of steps that can panic (\<open>None\<close>) or return an error.\<close>

definition pbind :: "('e + 'a) option \<Rightarrow> ('a \<Rightarrow> ('e + 'b) option) \<Rightarrow> ('e + 'b) option" where
  "pbind m f = (case m of None \<Rightarrow> None | Some (Inl e) \<Rightarrow> Some (Inl e) | Some (Inr x) \<Rightarrow> f x)"

declare pbind_def [code_unfold]

definition boundary_of :: "history_entry \<Rightarrow> gesture_boundary" where
  "boundary_of e = \<lparr>boundary_document = entry_document e, boundary_operations = entry_operations e,
     boundary_coalesce_key = entry_coalesce_key e\<rparr>"

definition history :: "core_state \<Rightarrow> history_snapshot" where
  "history s = \<lparr>snap_floor_offset = floor_offset s, snap_baseline = baseline s, snap_document = state_document s,
     snap_batches = batches s,
     snap_cursor = \<lparr>cursor_undo = map boundary_of (undo_stack s), cursor_redo = map boundary_of (redo_stack s)\<rparr>\<rparr>"

text \<open>The replay loop shared by restore, the floors and the commit.\<close>

fun replay_batches :: "history_batch list \<Rightarrow> core_state \<Rightarrow> (history_error + core_state) option" where
  "replay_batches [] s = Some (Inr s)"
| "replay_batches (b # bs) s =
     Option.bind (execute_command (command_of_journal (batch_command b)) s) (\<lambda>(e, s').
     if is_document_changed e then replay_batches bs s' else Some (Inl Corrupt))"

definition restore :: "history_snapshot \<Rightarrow> (history_error + core_state) option" where
  "restore h =
     (if validate_document (snap_baseline h) \<noteq> Inr () then Some (Inl Corrupt)
      else pbind (replay_batches (snap_batches h) (core_state_new (snap_baseline h) 0)) (\<lambda>c.
        let candidate = c\<lparr>floor_offset := snap_floor_offset h\<rparr>
        in if history candidate \<noteq> h then Some (Inl Corrupt) else Some (Inr candidate)))"

definition HISTORY_BYTES :: int where "HISTORY_BYTES = 32 * 1024 * 1024"
definition HISTORY_COMMANDS :: nat where "HISTORY_COMMANDS = 65536"

text \<open>\<open>json_len\<close> stands for the number of bytes \<^verbatim>\<open>serde_json\<close> writes for a value, \<open>None\<close> when it fails.\<close>

definition encoded_bytes :: "(history_snapshot \<Rightarrow> int option) \<Rightarrow> history_snapshot \<Rightarrow> history_error + int" where
  "encoded_bytes json_len h =
     (if HISTORY_COMMANDS < length (snap_batches h) then Inl Capacity
      else case json_len h of
             Some n \<Rightarrow> if n \<le> HISTORY_BYTES then Inr n else Inl Capacity
           | None \<Rightarrow> Inl Capacity)"

subsection \<open>Floors\<close>

record history_transition =
  transition_before :: history_snapshot
  transition_after :: history_snapshot

definition floor_from_prefix :: "history_snapshot \<Rightarrow> nat \<Rightarrow> core_state \<Rightarrow> (history_error + history_snapshot) option" where
  "floor_from_prefix before discard prefix =
     (let dropped = length (undo_stack prefix); cursor = snap_cursor before
      in if redo_stack prefix \<noteq> [] \<or> length (cursor_undo cursor) < dropped
            \<or> (dropped = length (cursor_undo cursor) \<and> cursor_undo cursor \<noteq> []
               \<and> boundary_coalesce_key (last (cursor_undo cursor)) \<noteq> None)
         then Some (Inl Corrupt)
         else pbind (replay_batches (drop discard (snap_batches before)) (core_state_new (state_document prefix) 0)) (\<lambda>suffix.
           let after = history suffix
           in if snap_document after \<noteq> snap_document before
                 \<or> cursor_undo (snap_cursor after) \<noteq> drop dropped (cursor_undo cursor)
                 \<or> cursor_redo (snap_cursor after) \<noteq> cursor_redo cursor
              then Some (Inl Corrupt)
              else Some (case checked_add_u64 (snap_floor_offset before) (int discard) of
                           None \<Rightarrow> Inl Capacity
                         | Some offset \<Rightarrow> Inr (after\<lparr>snap_floor_offset := offset\<rparr>))))"

definition floor_history :: "history_snapshot \<Rightarrow> nat \<Rightarrow> (history_error + history_snapshot) option" where
  "floor_history before discard =
     (if discard = 0 \<or> length (snap_batches before) < discard then Some (Inl Corrupt)
      else pbind (restore before) (\<lambda>_.
        pbind (replay_batches (take discard (snap_batches before)) (core_state_new (snap_baseline before) 0)) (\<lambda>prefix.
        floor_from_prefix before discard prefix)))"

text \<open>The search in command order. \<open>may_fit\<close> and \<open>accepts\<close> are the caller's budget tests.\<close>

fun find_floor_loop ::
    "history_snapshot \<Rightarrow> (nat \<Rightarrow> nat \<Rightarrow> document \<Rightarrow> bool) \<Rightarrow> (history_snapshot \<Rightarrow> bool) \<Rightarrow> nat
      \<Rightarrow> history_batch list \<Rightarrow> core_state \<Rightarrow> (history_error + history_snapshot) option" where
  "find_floor_loop before may_fit accepts index [] prefix =
     (if history (prefix\<lparr>floor_offset := snap_floor_offset before\<rparr>) \<noteq> before then Some (Inl Corrupt)
      else Some (Inl Capacity))"
| "find_floor_loop before may_fit accepts index (batch # rest) prefix0 =
     Option.bind (execute_command (command_of_journal (batch_command batch)) prefix0) (\<lambda>(e, prefix).
     if \<not> is_document_changed e then Some (Inl Corrupt)
     else if batches prefix = [] \<or> last (batches prefix) \<noteq> batch then Some (Inl Corrupt)
     else let discard = index + 1
     in if redo_stack prefix = [] \<and> may_fit discard (length (undo_stack prefix)) (state_document prefix)
        then Option.bind (floor_from_prefix before discard prefix) (\<lambda>r.
             case r of
               Inr after \<Rightarrow>
                 if accepts after
                 then pbind (replay_batches (drop discard (snap_batches before)) prefix) (\<lambda>complete.
                      if history (complete\<lparr>floor_offset := snap_floor_offset before\<rparr>) \<noteq> before
                      then Some (Inl Corrupt) else Some (Inr after))
                 else find_floor_loop before may_fit accepts (index + 1) rest prefix
             | Inl _ \<Rightarrow> find_floor_loop before may_fit accepts (index + 1) rest prefix)
        else find_floor_loop before may_fit accepts (index + 1) rest prefix)"

definition find_floor_history ::
    "history_snapshot \<Rightarrow> (nat \<Rightarrow> nat \<Rightarrow> document \<Rightarrow> bool) \<Rightarrow> (history_snapshot \<Rightarrow> bool)
      \<Rightarrow> (history_error + history_snapshot) option" where
  "find_floor_history before may_fit accepts =
     (if validate_document (snap_baseline before) \<noteq> Inr () then Some (Inl Corrupt)
      else find_floor_loop before may_fit accepts 0 (snap_batches before) (core_state_new (snap_baseline before) 0))"

definition transition_find_floor ::
    "history_snapshot \<Rightarrow> (nat \<Rightarrow> nat \<Rightarrow> document \<Rightarrow> bool) \<Rightarrow> (history_snapshot \<Rightarrow> bool)
      \<Rightarrow> (history_error + history_transition) option" where
  "transition_find_floor before may_fit accepts =
     pbind (find_floor_history before may_fit accepts) (\<lambda>after.
     Some (Inr \<lparr>transition_before = before, transition_after = after\<rparr>))"

definition transition_floor :: "history_snapshot \<Rightarrow> nat \<Rightarrow> (history_error + history_transition) option" where
  "transition_floor before discard =
     pbind (floor_history before discard) (\<lambda>after.
     Some (Inr \<lparr>transition_before = before, transition_after = after\<rparr>))"

text \<open>A save that began after the barrier was taken: the two counts are differences of lengths, which a
  transition made by \<open>transition_floor\<close> or \<open>transition_find_floor\<close> keeps non-negative; a negative one
  panics.\<close>

definition begin_floor :: "int \<Rightarrow> history_transition \<Rightarrow> core_state \<Rightarrow> (history_error + (int \<times> core_state)) option" where
  "begin_floor actor transition s =
     (let before = transition_before transition; after = transition_after transition
      in case state_pending_floor s of
        Some p \<Rightarrow> Some (Inl (if save_ready (floor_save p) then BarrierInvariant else SaveInProgress))
      | None \<Rightarrow>
          if history s \<noteq> before then Some (Inl CaptureChanged)
          else if snap_floor_offset after \<le> floor_offset s then Some (Inl BarrierInvariant)
          else case checked_add_u64 (next_floor_id s) 1 of
            None \<Rightarrow> Some (Inl Capacity)
          | Some i \<Rightarrow>
              if length (snap_batches before) < length (snap_batches after)
                 \<or> length (cursor_undo (snap_cursor before)) < length (cursor_undo (snap_cursor after)) then None
              else Some (Inr (i, s\<lparr>next_floor_id := i, state_pending_floor := Some
                \<lparr>floor_save = \<lparr>save_actor = actor, save_id = i, save_tag = None, save_ready = False\<rparr>,
                 floor_target = snap_floor_offset after,
                 floor_discard = length (snap_batches before) - length (snap_batches after),
                 floor_depth = length (cursor_undo (snap_cursor before)) - length (cursor_undo (snap_cursor after)),
                 floor_baseline = snap_baseline after\<rparr>\<rparr>)))"

definition commit_floor :: "pending_floor \<Rightarrow> core_state \<Rightarrow> (history_error + core_state) option" where
  "commit_floor p s =
     (if length (batches s) < floor_discard p then Some (Inl Corrupt)
      else pbind (replay_batches (drop (floor_discard p) (batches s))
                    ((core_state_new (floor_baseline p) 0)\<lparr>floor_offset := floor_target p\<rparr>)) (\<lambda>candidate.
        if state_document candidate \<noteq> state_document s
           \<or> length (undo_stack s) < floor_depth p \<or> undo_stack candidate \<noteq> drop (floor_depth p) (undo_stack s)
           \<or> redo_stack candidate \<noteq> redo_stack s
        then Some (Inl Corrupt)
        else case checked_add_u64 (state_revision s) 1 of
               None \<Rightarrow> Some (Inl Capacity)
             | Some r \<Rightarrow>
                 case checked_add_u64 (history_epoch s) 1 of
                   None \<Rightarrow> Some (Inl Capacity)
                 | Some epoch \<Rightarrow> Some (Inr (candidate\<lparr>state_revision := r, next_floor_id := next_floor_id s,
                     history_epoch := epoch\<rparr>))))"

definition settle_floor :: "int \<Rightarrow> bool \<Rightarrow> core_state \<Rightarrow> ((history_error + unit) \<times> core_state) option" where
  "settle_floor i commit s =
     (if i \<le> next_floor_id s \<and>
         (case state_pending_floor s of None \<Rightarrow> True | Some p \<Rightarrow> save_id (floor_save p) \<noteq> i)
      then Some (Inr (), s)
      else case state_pending_floor s of
        None \<Rightarrow> Some (Inl BarrierInvariant, s)
      | Some p \<Rightarrow>
          if save_id (floor_save p) \<noteq> i then Some (Inl BarrierInvariant, s)
          else if commit
          then (case commit_floor p s of
                  None \<Rightarrow> None
                | Some (Inr s') \<Rightarrow> Some (Inr (), s')
                | Some (Inl _) \<Rightarrow> Some (Inl CommitInvariant, s\<lparr>state_pending_floor := None\<rparr>))
          else Some (Inr (), s\<lparr>state_pending_floor := None\<rparr>))"


text \<open>The tagging arm of the actor: a tag never changes once set, a ready ticket never becomes unready, and only
  a tagged ticket becomes ready. A new tag is stored even when the ready check then refuses.\<close>

definition tag_floor ::
    "int \<Rightarrow> history_save_tag option \<Rightarrow> bool \<Rightarrow> core_state \<Rightarrow> (history_error + unit) \<times> core_state" where
  "tag_floor i tag ready s =
     (case state_pending_floor s of
        None \<Rightarrow> (Inl BarrierInvariant, s)
      | Some p \<Rightarrow>
          let save = floor_save p
          in if save_id save \<noteq> i then (Inl BarrierInvariant, s)
             else if (save_ready save \<and> \<not> ready)
                     \<or> (tag \<noteq> None \<and> save_tag save \<noteq> None \<and> save_tag save \<noteq> tag)
             then (Inl BarrierInvariant, s)
             else let save = (if tag = None then save else save\<lparr>save_tag := tag\<rparr>)
                  in if ready \<and> save_tag save = None
                     then (Inl BarrierInvariant, s\<lparr>state_pending_floor := Some (p\<lparr>floor_save := save\<rparr>)\<rparr>)
                     else (Inr (), s\<lparr>state_pending_floor := Some (p\<lparr>floor_save := save\<lparr>save_ready := ready\<rparr>\<rparr>)\<rparr>))"

text \<open>What the actor does with a restored candidate before it replaces its state.\<close>

definition adopt_candidate :: "core_state \<Rightarrow> core_state \<Rightarrow> history_error + core_state" where
  "adopt_candidate candidate s =
     (case checked_add_u64 (history_epoch s) 1 of
        None \<Rightarrow> Inl Capacity
      | Some epoch \<Rightarrow>
          case checked_add_u64 (state_revision s) 1 of
            None \<Rightarrow> Inl Capacity
          | Some r \<Rightarrow> Inr (candidate\<lparr>history_epoch := epoch, next_floor_id := next_floor_id s, state_revision := r\<rparr>))"

subsection \<open>Commands at the actor\<close>

datatype attachment_state = Live | Frozen | Sealed

fun is_query :: "command \<Rightarrow> bool" where
  "is_query (Query _) = True"
| "is_query _ = False"

fun token_of :: "command \<Rightarrow> command_token option" where
  "token_of (DoIfRevision _ _ t) = t"
| "token_of _ = None"

definition manual_refusal :: "command \<Rightarrow> core_mutation_refusal \<Rightarrow> event" where
  "manual_refusal cmd reason = MutationRefused reason (token_of cmd)"

definition execute_actor_command :: "attachment_state \<Rightarrow> command \<Rightarrow> core_state \<Rightarrow> (event \<times> core_state) option" where
  "execute_actor_command attachment cmd s =
     (if \<not> is_query cmd \<and> attachment \<noteq> Live
      then Some (MutationRefused (if attachment = Sealed then SealedRefusal else FrozenRefusal) (token_of cmd), s)
      else case (cmd, state_pending_floor s) of
        (Undo, Some p) \<Rightarrow>
          if length (undo_stack s) \<le> floor_depth p then Some (UndoBlockedBySave (floor_target p), s)
          else execute_command cmd s
      | _ \<Rightarrow> execute_command cmd s)"

text \<open>\<^verbatim>\<open>recovery_close\<close> replays in a second actor: spawn on the baseline, restore the cut, then close the gesture
  with an ordinary undo and redo.\<close>

definition replay_command :: "command \<Rightarrow> core_state \<Rightarrow> (history_error + core_state) option" where
  "replay_command cmd s =
     Option.bind (execute_actor_command Live cmd s) (\<lambda>(e, s').
     if is_document_changed e then Some (Inr s') else Some (Inl Corrupt))"

definition recovery_close ::
    "(history_snapshot \<Rightarrow> int option) \<Rightarrow> history_snapshot \<Rightarrow> history_snapshot \<Rightarrow> (history_error + history_transition) option" where
  "recovery_close json_len before reconciled =
     (if before \<noteq> reconciled then Some (Inl Corrupt)
      else if validate_document (snap_baseline before) \<noteq> Inr () then Some (Inl Corrupt)
      else case encoded_bytes json_len before of
        Inl e \<Rightarrow> Some (Inl e)
      | Inr _ \<Rightarrow>
          pbind (restore before) (\<lambda>restored.
          pbind (Some (adopt_candidate restored (core_state_new (snap_baseline before) 0))) (\<lambda>candidate.
          pbind (if cursor_undo (snap_cursor before) \<noteq> []
                    \<and> boundary_coalesce_key (last (cursor_undo (snap_cursor before))) \<noteq> None
                 then if cursor_redo (snap_cursor before) \<noteq> [] then Some (Inl Corrupt)
                      else pbind (replay_command Undo candidate) (replay_command Redo)
                 else Some (Inr candidate)) (\<lambda>candidate.
          let after = history candidate
          in if snap_document before \<noteq> snap_document after \<or> applied_operations before \<noteq> applied_operations after
                \<or> length (cursor_undo (snap_cursor before)) \<noteq> length (cursor_undo (snap_cursor after))
                \<or> cursor_redo (snap_cursor before) \<noteq> cursor_redo (snap_cursor after)
             then Some (Inl Corrupt)
             else Some (Inr \<lparr>transition_before = before, transition_after = after\<rparr>)))))"

end
