(* ===== verification/History_Session.thy ===== *)
theory History_Session
  imports History
begin

text \<open>
  The lemmas on the editing history: the effect of every command, the simulation between a state and its
  replay, linked undo and redo stacks, and the invariant of sessions, in which edits, undo, redo, saves and
  restores follow each other in any order.
\<close>

section \<open>Lemmas\<close>

subsection \<open>What a command does\<close>

fun journal_ops :: "journal_command \<Rightarrow> operation list" where
  "journal_ops (JDo op) = [op]"
| "journal_ops (JDoBatch ops) = ops"
| "journal_ops (JDoBatchCoalesced ops _) = ops"
| "journal_ops _ = []"

fun edit_stack :: "journal_command \<Rightarrow> document \<Rightarrow> history_entry list \<Rightarrow> history_entry list" where
  "edit_stack (JDoBatchCoalesced ops key) d st = coalesce ops key d st"
| "edit_stack j d st = st @ [\<lparr>entry_document = d, entry_operations = journal_ops j, entry_coalesce_key = None\<rparr>]"

definition is_edit :: "journal_command \<Rightarrow> bool" where
  "is_edit j \<longleftrightarrow> j \<noteq> JUndo \<and> j \<noteq> JRedo"

definition canonical_journal :: "journal_command \<Rightarrow> bool" where
  "canonical_journal j \<longleftrightarrow> map canonicalize_legacy_effect_names (journal_ops j) = journal_ops j"

definition log_batch :: "journal_command \<Rightarrow> identity_effect list \<Rightarrow> core_state \<Rightarrow> core_state" where
  "log_batch j effs s = s\<lparr>batches := batches s @ [\<lparr>batch_order = length (batches s), batch_command = j,
     batch_identity_effects = effs, undo_entries = length (undo_stack s), redo_entries = length (redo_stack s)\<rparr>],
     identity_effects := []\<rparr>"

definition after_edit :: "journal_command \<Rightarrow> document \<Rightarrow> identity_effect list \<Rightarrow> core_state \<Rightarrow> core_state" where
  "after_edit j after effs s = log_batch j effs (s\<lparr>state_document := after, state_revision := state_revision s + 1,
     undo_stack := edit_stack j (state_document s) (undo_stack s), redo_stack := [], op_log := op_log s @ journal_ops j\<rparr>)"

definition after_undo :: "core_state \<Rightarrow> core_state" where
  "after_undo s = log_batch JUndo [] (if undo_stack s = [] then s else s\<lparr>
     redo_stack := redo_stack s @ [\<lparr>entry_document = state_document s,
       entry_operations = entry_operations (last (undo_stack s)), entry_coalesce_key = None\<rparr>],
     undo_stack := close_gesture (butlast (undo_stack s)),
     state_document := entry_document (last (undo_stack s)), state_revision := state_revision s + 1\<rparr>)"

definition after_redo :: "core_state \<Rightarrow> core_state" where
  "after_redo s = log_batch JRedo [] (if redo_stack s = [] then s else s\<lparr>
     undo_stack := undo_stack s @ [\<lparr>entry_document = state_document s,
       entry_operations = entry_operations (last (redo_stack s)), entry_coalesce_key = None\<rparr>],
     redo_stack := butlast (redo_stack s),
     state_document := entry_document (last (redo_stack s)), state_revision := state_revision s + 1\<rparr>)"

lemma canonical_idem [simp]:
  "canonicalize_legacy_effect_names (canonicalize_legacy_effect_names op) = canonicalize_legacy_effect_names op"
  by (cases op) (simp_all add: canonicalize_legacy_effect_names_def effect_canonicalize_legacy_name_def
      canonicalize_legacy_color_grade_name_def)

lemma increment_revision_Some:
  "increment_revision s = Some s' \<longleftrightarrow> in_u64 (state_revision s + 1) \<and> s' = s\<lparr>state_revision := state_revision s + 1\<rparr>"
  by (auto simp: increment_revision_def checked_add_u64_def)

text \<open>An accepted edit before it is logged.\<close>

definition raw_edit :: "journal_command \<Rightarrow> document \<Rightarrow> identity_effect list \<Rightarrow> core_state \<Rightarrow> core_state" where
  "raw_edit j after effs s = s\<lparr>identity_effects := effs, state_document := after, state_revision := state_revision s + 1,
     undo_stack := edit_stack j (state_document s) (undo_stack s), redo_stack := [], op_log := op_log s @ journal_ops j\<rparr>"

lemma record_raw_edit [simp]:
  "record_batch (DocumentChanged d r o1 (Some j) t) (raw_edit j after effs (s\<lparr>identity_effects := []\<rparr>)) = after_edit j after effs s"
  by (simp add: record_batch_def raw_edit_def after_edit_def log_batch_def)

definition accepts_edit :: "journal_command \<Rightarrow> core_state \<Rightarrow> document \<Rightarrow> identity_effect list \<Rightarrow> bool" where
  "accepts_edit j s after effs \<longleftrightarrow> is_edit j \<and> canonical_journal j
     \<and> apply_batch_observed (state_document s) (journal_ops j) = Inr (after, effs) \<and> in_u64 (state_revision s + 1)"

lemma execute_operation_iff:
  "execute_operation op tok s = Some (e, s') \<longleftrightarrow>
    (\<exists>er. do_operation (canonicalize_legacy_effect_names op) s = Some (Inl er)
       \<and> e = OpRejected (canonicalize_legacy_effect_names op) er tok \<and> s' = s)
    \<or> (\<exists>after effs. accepts_edit (JDo (canonicalize_legacy_effect_names op)) s after effs
       \<and> s' = raw_edit (JDo (canonicalize_legacy_effect_names op)) after effs s
       \<and> e = DocumentChanged after (state_revision s + 1) (Some (canonicalize_legacy_effect_names op))
               (Some (JDo (canonicalize_legacy_effect_names op))) tok)"
proof (cases "apply_batch_observed (state_document s) [canonicalize_legacy_effect_names op]")
  case (Inl er)
  then show ?thesis
    by (cases er) (auto simp: execute_operation_def Let_def do_operation_def install_edit_def increment_revision_Some raw_edit_def
      accepts_edit_def canonical_journal_def is_edit_def comp_def)
next
  case (Inr r)
  then show ?thesis
    by (cases r) (auto simp: execute_operation_def Let_def do_operation_def install_edit_def increment_revision_Some raw_edit_def
      accepts_edit_def canonical_journal_def is_edit_def comp_def bind_eq_Some_conv)
qed

lemma execute_batch_iff:
  "execute_batch ops s = Some (e, s') \<longleftrightarrow>
    (\<exists>er. do_batch (map canonicalize_legacy_effect_names ops) s = Some (Inl er)
       \<and> e = BatchRejected (map canonicalize_legacy_effect_names ops) er \<and> s' = s)
    \<or> (\<exists>after effs. accepts_edit (JDoBatch (map canonicalize_legacy_effect_names ops)) s after effs
       \<and> s' = raw_edit (JDoBatch (map canonicalize_legacy_effect_names ops)) after effs s
       \<and> e = DocumentChanged after (state_revision s + 1) None
               (Some (JDoBatch (map canonicalize_legacy_effect_names ops))) None)"
proof (cases "apply_batch_observed (state_document s) (map canonicalize_legacy_effect_names ops)")
  case (Inl er)
  then show ?thesis
    by (cases er) (auto simp: execute_batch_def Let_def do_batch_def install_edit_def increment_revision_Some raw_edit_def
      accepts_edit_def canonical_journal_def is_edit_def comp_def)
next
  case (Inr r)
  then show ?thesis
    by (cases r) (auto simp: execute_batch_def Let_def do_batch_def install_edit_def increment_revision_Some raw_edit_def
      accepts_edit_def canonical_journal_def is_edit_def comp_def bind_eq_Some_conv)
qed

lemma execute_batch_coalesced_iff:
  "execute_batch_coalesced ops key s = Some (e, s') \<longleftrightarrow>
    (\<exists>er. do_batch_coalesced (map canonicalize_legacy_effect_names ops) key s = Some (Inl er)
       \<and> e = BatchRejected (map canonicalize_legacy_effect_names ops) er \<and> s' = s)
    \<or> (\<exists>after effs. accepts_edit (JDoBatchCoalesced (map canonicalize_legacy_effect_names ops) key) s after effs
       \<and> s' = raw_edit (JDoBatchCoalesced (map canonicalize_legacy_effect_names ops) key) after effs s
       \<and> e = DocumentChanged after (state_revision s + 1) None
               (Some (JDoBatchCoalesced (map canonicalize_legacy_effect_names ops) key)) None)"
proof (cases "apply_batch_observed (state_document s) (map canonicalize_legacy_effect_names ops)")
  case (Inl er)
  then show ?thesis
    by (cases er) (auto simp: execute_batch_coalesced_def Let_def do_batch_coalesced_def install_edit_def increment_revision_Some raw_edit_def
      accepts_edit_def canonical_journal_def is_edit_def comp_def)
next
  case (Inr r)
  then show ?thesis
    by (cases r) (auto simp: execute_batch_coalesced_def Let_def do_batch_coalesced_def install_edit_def increment_revision_Some raw_edit_def
      accepts_edit_def canonical_journal_def is_edit_def comp_def bind_eq_Some_conv)
qed

lemma execute_undo_iff:
  "execute_command Undo s = Some (e, s') \<longleftrightarrow> (undo_stack s \<noteq> [] \<longrightarrow> in_u64 (state_revision s + 1)) \<and> s' = after_undo s
     \<and> e = DocumentChanged (state_document s') (state_revision s') None (Some JUndo) None"
  by (auto simp: execute_command_def execute_command_inner_def undo_def Let_def increment_revision_Some
      record_batch_def after_undo_def log_batch_def)

lemma execute_redo_iff:
  "execute_command Redo s = Some (e, s') \<longleftrightarrow> (redo_stack s \<noteq> [] \<longrightarrow> in_u64 (state_revision s + 1)) \<and> s' = after_redo s
     \<and> e = DocumentChanged (state_document s') (state_revision s') None (Some JRedo) None"
  by (auto simp: execute_command_def execute_command_inner_def redo_def Let_def increment_revision_Some
      record_batch_def after_redo_def log_batch_def)


lemma execute_command_inner_eq:
  "execute_command cmd s = Some (e, s') \<longleftrightarrow>
     (\<exists>s1. execute_command_inner cmd (s\<lparr>identity_effects := []\<rparr>) = Some (e, s1) \<and> s' = record_batch e s1)"
  by (auto simp: execute_command_def)

lemma accepts_edit_clear [simp]: "accepts_edit j (s\<lparr>identity_effects := x\<rparr>) after effs = accepts_edit j s after effs"
  by (simp add: accepts_edit_def)

lemma record_unchanged [simp]: "\<not> is_document_changed e \<Longrightarrow> record_batch e s = s"
  by (cases e) (simp_all add: record_batch_def)

text \<open>The edit a command asks for, as it is journalled.\<close>

fun command_edit :: "command \<Rightarrow> journal_command option" where
  "command_edit (Do op) = Some (JDo (canonicalize_legacy_effect_names op))"
| "command_edit (DoBatch ops) = Some (JDoBatch (map canonicalize_legacy_effect_names ops))"
| "command_edit (DoBatchCoalesced ops key) = Some (JDoBatchCoalesced (map canonicalize_legacy_effect_names ops) key)"
| "command_edit (DoIfRevision _ op _) = Some (JDo (canonicalize_legacy_effect_names op))"
| "command_edit (DoBatchIfRevision _ ops) = Some (JDoBatch (map canonicalize_legacy_effect_names ops))"
| "command_edit _ = None"

lemma execute_command_cases:
  assumes "execute_command cmd s = Some (e, s')"
  obtains (same) "s' = s\<lparr>identity_effects := []\<rparr>" "\<not> is_document_changed e" "cmd \<noteq> Undo" "cmd \<noteq> Redo"
  | (edit) j after effs where "command_edit cmd = Some j" "accepts_edit j s after effs" "s' = after_edit j after effs s"
      "is_document_changed e"
  | (undo) "cmd = Undo" "s' = after_undo s" "is_document_changed e" "undo_stack s \<noteq> [] \<longrightarrow> in_u64 (state_revision s + 1)"
  | (redo) "cmd = Redo" "s' = after_redo s" "is_document_changed e" "redo_stack s \<noteq> [] \<longrightarrow> in_u64 (state_revision s + 1)"
proof (cases "cmd = Undo \<or> cmd = Redo")
  case True
  then show ?thesis
    using assms undo redo by (elim disjE) (simp_all add: execute_undo_iff execute_redo_iff)
next
  case False
  from assms obtain s1 where s1: "execute_command_inner cmd (s\<lparr>identity_effects := []\<rparr>) = Some (e, s1)"
    and s': "s' = record_batch e s1" by (auto simp: execute_command_inner_eq)
  have "(s1 = s\<lparr>identity_effects := []\<rparr> \<and> \<not> is_document_changed e)
      \<or> (\<exists>j after effs. command_edit cmd = Some j \<and> accepts_edit j s after effs
           \<and> s1 = raw_edit j after effs (s\<lparr>identity_effects := []\<rparr>) \<and> (\<exists>d r x t. e = DocumentChanged d r x (Some j) t))"
    using s1 False
    by (cases cmd) (simp_all add: execute_command_inner_def execute_operation_iff execute_batch_iff execute_batch_coalesced_iff
        revision_conflict_def split: if_splits, (fastforce+))
  then show ?thesis using same edit False s' by (elim disjE exE conjE) (auto intro: edit)
qed

lemma execute_journal:
  assumes "accepts_edit j s after effs"
  shows "\<exists>e. execute_command (command_of_journal j) s = Some (e, after_edit j after effs s) \<and> is_document_changed e"
proof -
  have "\<exists>d r x t. execute_command_inner (command_of_journal j) (s\<lparr>identity_effects := []\<rparr>)
      = Some (DocumentChanged d r x (Some j) t, raw_edit j after effs (s\<lparr>identity_effects := []\<rparr>))"
    using assms accepts_edit_clear [of j "[]" s after effs]
    by (cases j) (auto simp: execute_command_inner_def execute_operation_iff execute_batch_iff execute_batch_coalesced_iff
        accepts_edit_def canonical_journal_def is_edit_def)
  then show ?thesis by (auto simp: execute_command_def)
qed

subsection \<open>Simulation\<close>

text \<open>A state \<open>c\<close> replayed from a later baseline follows a state \<open>s\<close> whose undo stack has \<open>depth\<close> more entries at
  the bottom, as long as no gesture is open across the boundary.\<close>

definition follows :: "nat \<Rightarrow> core_state \<Rightarrow> core_state \<Rightarrow> bool" where
  "follows depth c s \<longleftrightarrow> state_document c = state_document s \<and> redo_stack c = redo_stack s
     \<and> (\<exists>P. length P = depth \<and> undo_stack s = P @ undo_stack c
            \<and> (undo_stack c = [] \<longrightarrow> P = [] \<or> entry_coalesce_key (last P) = None))"

lemma edit_stack_append:
  assumes "st = [] \<longrightarrow> P = [] \<or> entry_coalesce_key (last P) = None"
  shows "edit_stack j d (P @ st) = P @ edit_stack j d st"
  using assms by (cases j) (auto simp: coalesce_def butlast_append)

lemma edit_stack_nonempty [simp]: "edit_stack j d st \<noteq> []"
  by (cases j) (simp_all add: coalesce_def)

lemma close_gesture_length [simp]: "length (close_gesture st) = length st"
  by (simp add: close_gesture_def)

lemma close_gesture_last: "close_gesture st = [] \<or> entry_coalesce_key (last (close_gesture st)) = None"
  by (simp add: close_gesture_def)

lemma follows_edit:
  assumes "follows depth c s"
  shows "follows depth (after_edit j after effs c) (after_edit j after effs' s)"
  using assms by (auto simp: follows_def after_edit_def log_batch_def edit_stack_append)

lemma follows_redo:
  assumes "follows depth c s"
  shows "follows depth (after_redo c) (after_redo s)"
  using assms by (auto simp: follows_def after_redo_def log_batch_def)

lemma follows_undo:
  assumes "follows depth c s" "depth < length (undo_stack s) \<or> depth = 0"
  shows "follows depth (after_undo c) (after_undo s)"
proof -
  from assms(1) obtain P where P: "length P = depth" "undo_stack s = P @ undo_stack c"
    and k: "undo_stack c = [] \<longrightarrow> P = [] \<or> entry_coalesce_key (last P) = None"
    and eq: "state_document c = state_document s" "redo_stack c = redo_stack s" by (auto simp: follows_def)
  show ?thesis
  proof (cases "undo_stack c = []")
    case True
    then have "undo_stack s = []" "depth = 0" using assms(2) P by auto
    then show ?thesis using True eq by (simp add: follows_def after_undo_def log_batch_def)
  next
    case False
    define U where "U = butlast (undo_stack c)"
    have "close_gesture (P @ U) = (if U = [] then close_gesture P else P @ close_gesture U)"
      by (simp add: close_gesture_def butlast_append)
    moreover have "close_gesture U = [] \<longleftrightarrow> U = []" by (metis close_gesture_length length_0_conv)
    ultimately show ?thesis
      using False P eq close_gesture_last [of P]
      by (auto simp: follows_def after_undo_def log_batch_def butlast_append U_def [symmetric] close_gesture_def
          intro!: exI [of _ "if U = [] then close_gesture P else P"])
  qed
qed


lemma after_frame [simp]:
  "baseline (after_edit j a f s) = baseline s" "baseline (after_undo s) = baseline s" "baseline (after_redo s) = baseline s"
  "floor_offset (after_edit j a f s) = floor_offset s" "floor_offset (after_undo s) = floor_offset s"
  "floor_offset (after_redo s) = floor_offset s"
  "state_pending_floor (after_edit j a f s) = state_pending_floor s" "state_pending_floor (after_undo s) = state_pending_floor s"
  "state_pending_floor (after_redo s) = state_pending_floor s"
  "identity_effects (after_edit j a f s) = []" "identity_effects (after_undo s) = []" "identity_effects (after_redo s) = []"
  "length (batches (after_edit j a f s)) = length (batches s) + 1" "length (batches (after_undo s)) = length (batches s) + 1"
  "length (batches (after_redo s)) = length (batches s) + 1"
  by (simp_all add: after_edit_def after_undo_def after_redo_def log_batch_def)

lemma after_batches:
  "\<exists>b. batches (after_edit j a f s) = batches s @ [b] \<and> batch_command b = j"
  "\<exists>b. batches (after_undo s) = batches s @ [b] \<and> batch_command b = JUndo"
  "\<exists>b. batches (after_redo s) = batches s @ [b] \<and> batch_command b = JRedo"
  by (simp_all add: after_edit_def after_undo_def after_redo_def log_batch_def)

lemma after_revision:
  "state_revision (after_edit j a f s) = state_revision s + 1"
  "state_revision (after_undo s) = (if undo_stack s = [] then state_revision s else state_revision s + 1)"
  "state_revision (after_redo s) = (if redo_stack s = [] then state_revision s else state_revision s + 1)"
  by (simp_all add: after_edit_def after_undo_def after_redo_def log_batch_def)

text \<open>What one accepted command adds to the journal, and that executing the journalled command on a state that
  follows keeps following.\<close>

lemma follows_step:
  assumes x: "execute_command cmd s = Some (e, s')" "is_document_changed e" and f: "follows d c s"
    and u: "cmd = Undo \<Longrightarrow> d < length (undo_stack s) \<or> d = 0" and r: "in_u64 (state_revision c + 1)"
  obtains b e' c' where "batches s' = batches s @ [b]"
    "execute_command (command_of_journal (batch_command b)) c = Some (e', c')" "is_document_changed e'"
    "follows d c' s'" "state_revision c' \<le> state_revision c + 1"
    "d = 0 \<Longrightarrow> batches c = batches s \<Longrightarrow> batches c' = batches s'"
  using x(1)
proof (cases rule: execute_command_cases)
  case same
  then show ?thesis using x(2) by simp
next
  case (edit j after effs)
  have a: "accepts_edit j c after effs" using edit(2) f r by (simp add: accepts_edit_def follows_def)
  obtain e' where "execute_command (command_of_journal j) c = Some (e', after_edit j after effs c)" "is_document_changed e'"
    using execute_journal [OF a] by blast
  moreover have "d = 0 \<Longrightarrow> batches c = batches s \<Longrightarrow> batches (after_edit j after effs c) = batches s'"
    using f edit(3) by (simp add: after_edit_def log_batch_def follows_def)
  moreover obtain b where "batches s' = batches s @ [b]" "batch_command b = j"
    using after_batches(1) [of j after effs s] edit(3) by blast
  ultimately show ?thesis
    using follows_edit [OF f, of j after effs effs] edit(3) after_revision(1) [of j after effs c]
    by (intro that [of b e' "after_edit j after effs c"]) simp_all
next
  case undo
  have "d = 0 \<Longrightarrow> batches c = batches s \<Longrightarrow> batches (after_undo c) = batches s'"
    using f undo(2) by (auto simp: after_undo_def log_batch_def follows_def)
  moreover obtain b where "batches s' = batches s @ [b]" "batch_command b = JUndo"
    using after_batches(2) [of s] undo(2) by blast
  moreover have "\<exists>e'. execute_command Undo c = Some (e', after_undo c) \<and> is_document_changed e'"
    using r by (simp add: execute_undo_iff)
  ultimately show ?thesis
    using follows_undo [OF f u] undo after_revision(2) [of c] that [of b _ "after_undo c"] by (auto split: if_splits)
next
  case redo
  have "d = 0 \<Longrightarrow> batches c = batches s \<Longrightarrow> batches (after_redo c) = batches s'"
    using f redo(2) by (auto simp: after_redo_def log_batch_def follows_def)
  moreover obtain b where "batches s' = batches s @ [b]" "batch_command b = JRedo"
    using after_batches(3) [of s] redo(2) by blast
  moreover have "\<exists>e'. execute_command Redo c = Some (e', after_redo c) \<and> is_document_changed e'"
    using r by (simp add: execute_redo_iff)
  ultimately show ?thesis
    using follows_redo [OF f] redo after_revision(3) [of c] that [of b _ "after_redo c"] by (auto split: if_splits)
qed

lemma execute_frame:
  assumes "execute_command cmd s = Some (e, s')"
  shows "baseline s' = baseline s" "floor_offset s' = floor_offset s" "state_pending_floor s' = state_pending_floor s"
    "identity_effects s' = []" "history_epoch s' = history_epoch s" "next_floor_id s' = next_floor_id s"
    "\<exists>bs. batches s' = batches s @ bs \<and> length bs = (if is_document_changed e then 1 else 0)
       \<and> (\<forall>b \<in> set bs. canonical_journal (batch_command b))"
    "state_revision s \<le> state_revision s'" "state_revision s' \<le> state_revision s + int (length (batches s') - length (batches s))"
  using assms
  by (cases rule: execute_command_cases;
      auto simp: after_edit_def after_undo_def after_redo_def log_batch_def accepts_edit_def canonical_journal_def)+


subsection \<open>Linked histories\<close>

definition entry_pair :: "history_entry \<Rightarrow> document \<times> operation list" where
  "entry_pair e = (entry_document e, entry_operations e)"

definition history_linked :: "core_state \<Rightarrow> bool" where
  "history_linked s \<longleftrightarrow> valid_document (baseline s)
     \<and> origin (map entry_pair (undo_stack s)) (state_document s) = baseline s
     \<and> past_linked apply_step (map entry_pair (undo_stack s)) (state_document s)
     \<and> future_linked apply_step (state_document s) (rev (map entry_pair (redo_stack s)))"

lemma observed_InrD:
  "apply_batch_observed doc ops = Inr (after, effs) \<Longrightarrow> fold_res apply_step ops doc = Inr after"
  by (auto simp: apply_batch_observed_def apply_batch_inner_def rbind_eq_Inr dest: batch_loop_run split: if_splits)

lemma entry_pair_close [simp]: "map entry_pair (close_gesture st) = map entry_pair st"
  by (cases st rule: rev_cases) (simp_all add: close_gesture_def entry_pair_def)

lemma edit_stack_pairs:
  "map entry_pair (edit_stack j d st) = map entry_pair st @ [(d, journal_ops j)]
    \<or> (\<exists>ys y. st = ys @ [y]
         \<and> map entry_pair (edit_stack j d st) = map entry_pair ys @ [(entry_document y, entry_operations y @ journal_ops j)])"
  by (cases st rule: rev_cases; cases j) (auto simp: coalesce_def entry_pair_def)

lemma linked_edit_stack:
  assumes "past_linked apply_step (map entry_pair st) d" "fold_res apply_step (journal_ops j) d = Inr d'"
  shows "past_linked apply_step (map entry_pair (edit_stack j d st)) d'"
    and "origin (map entry_pair (edit_stack j d st)) d' = origin (map entry_pair st) d"
proof -
  have "past_linked apply_step (map entry_pair (edit_stack j d st)) d'
      \<and> origin (map entry_pair (edit_stack j d st)) d' = origin (map entry_pair st) d"
    using edit_stack_pairs [of j d st]
  proof (elim disjE exE conjE)
    fix ys y assume "st = ys @ [y]"
      "map entry_pair (edit_stack j d st) = map entry_pair ys @ [(entry_document y, entry_operations y @ journal_ops j)]"
    then show ?thesis using assms by (simp add: entry_pair_def [of y] fold_res_append)
  qed (use assms in simp)
  then show "past_linked apply_step (map entry_pair (edit_stack j d st)) d'"
    "origin (map entry_pair (edit_stack j d st)) d' = origin (map entry_pair st) d" by simp_all
qed

lemma linked_undo: "history_linked s \<Longrightarrow> history_linked (after_undo s)"
  by (cases "undo_stack s" rule: rev_cases)
    (auto simp: history_linked_def after_undo_def log_batch_def entry_pair_def [of "_ :: history_entry"])

lemma linked_redo: "history_linked s \<Longrightarrow> history_linked (after_redo s)"
  by (cases "redo_stack s" rule: rev_cases) (auto simp: history_linked_def after_redo_def log_batch_def entry_pair_def)

lemma linked_edit:
  assumes "history_linked s" "accepts_edit j s after effs"
  shows "history_linked (after_edit j after effs s)"
proof -
  have "fold_res apply_step (journal_ops j) (state_document s) = Inr after"
    using assms(2) observed_InrD by (auto simp: accepts_edit_def)
  with assms(1) show ?thesis
    using linked_edit_stack [of "undo_stack s" "state_document s" j after]
    by (simp add: history_linked_def after_edit_def log_batch_def)
qed

lemma linked_step: "history_linked s \<Longrightarrow> execute_command cmd s = Some (e, s') \<Longrightarrow> history_linked s'"
  by (erule execute_command_cases) (auto intro: linked_undo linked_redo linked_edit, simp add: history_linked_def)

lemma linked_new: "valid_document doc \<Longrightarrow> history_linked (core_state_new doc r)"
  by (simp add: history_linked_def core_state_new_def)

lemma linked_valid:
  assumes "history_linked s"
  shows "valid_document (state_document s)" "\<forall>e \<in> set (undo_stack s @ redo_stack s). valid_document (entry_document e)"
    "fold_res apply_step (concat (map entry_operations (undo_stack s))) (baseline s) = Inr (state_document s)"
proof -
  note l = assms [unfolded history_linked_def]
  have p: "valid_document (state_document s)" "\<forall>e \<in> set (map entry_pair (undo_stack s)). valid_document (fst e)"
    using editor.past_valid [of "map entry_pair (undo_stack s)" "state_document s"] l by simp_all
  have f: "\<forall>e \<in> set (rev (map entry_pair (redo_stack s))). valid_document (fst e)"
    using editor.future_valid p(1) l by blast
  show "valid_document (state_document s)" by (rule p(1))
  show "\<forall>e \<in> set (undo_stack s @ redo_stack s). valid_document (entry_document e)"
    using p(2) f by (auto simp: entry_pair_def)
  have "map snd (map entry_pair (undo_stack s)) = map entry_operations (undo_stack s)" by (simp add: entry_pair_def comp_def)
  then show "fold_res apply_step (concat (map entry_operations (undo_stack s))) (baseline s) = Inr (state_document s)"
    using past_linked_run [of apply_step "map entry_pair (undo_stack s)" "state_document s"] l by (simp del: map_map)
qed

subsection \<open>Replay\<close>

lemma replay_append: "replay_batches (xs @ ys) s = pbind (replay_batches xs s) (replay_batches ys)"
proof (induction xs arbitrary: s)
  case (Cons x xs)
  show ?case
    by (cases "execute_command (command_of_journal (batch_command x)) s") (auto simp: pbind_def Cons.IH)
qed (simp add: pbind_def)

lemma replay_Cons:
  "replay_batches (b # bs) s = Some (Inr s') \<longleftrightarrow> (\<exists>e s1. execute_command (command_of_journal (batch_command b)) s = Some (e, s1)
     \<and> is_document_changed e \<and> replay_batches bs s1 = Some (Inr s'))"
  by (auto simp: bind_eq_Some_conv split: if_splits)

declare replay_batches.simps(2) [simp del]

lemma replay_induct:
  assumes "replay_batches bs s = Some (Inr s')" "Q 0 s"
    and "\<And>n cmd s e s1. Q n s \<Longrightarrow> execute_command cmd s = Some (e, s1) \<Longrightarrow> is_document_changed e \<Longrightarrow> Q (Suc n) s1"
  shows "Q (length bs) s'"
proof -
  have "Q n s \<Longrightarrow> replay_batches bs s = Some (Inr s') \<Longrightarrow> Q (n + length bs) s'" for n
  proof (induction bs arbitrary: n s)
    case (Cons b bs)
    from Cons.prems(2) obtain e s1 where "execute_command (command_of_journal (batch_command b)) s = Some (e, s1)"
      "is_document_changed e" "replay_batches bs s1 = Some (Inr s')" by (auto simp: replay_Cons)
    then show ?case using Cons.IH [of "Suc n" s1] assms(3) Cons.prems(1) by simp
  qed simp
  from this [of 0] show ?thesis using assms(1,2) by simp
qed

lemma replay_frame:
  assumes "replay_batches bs s = Some (Inr s')"
  shows "baseline s' = baseline s" "floor_offset s' = floor_offset s" "state_pending_floor s' = state_pending_floor s"
    "history_epoch s' = history_epoch s" "next_floor_id s' = next_floor_id s"
    "length (batches s') = length (batches s) + length bs" "state_revision s' \<le> state_revision s + int (length bs)"
    "state_revision s \<le> state_revision s'"
proof -
  let ?Q = "\<lambda>n t. baseline t = baseline s \<and> floor_offset t = floor_offset s \<and> state_pending_floor t = state_pending_floor s
    \<and> history_epoch t = history_epoch s \<and> next_floor_id t = next_floor_id s \<and> length (batches t) = length (batches s) + n
    \<and> state_revision t \<le> state_revision s + int n \<and> state_revision s \<le> state_revision t"
  have "?Q (length bs) s'"
  proof (rule replay_induct [OF assms])
    fix n cmd t e t' assume q: "?Q n t" and x: "execute_command cmd t = Some (e, t')" "is_document_changed e"
    show "?Q (Suc n) t'" using q execute_frame [OF x(1)] x(2) by auto
  qed simp
  then show "baseline s' = baseline s" "floor_offset s' = floor_offset s" "state_pending_floor s' = state_pending_floor s"
    "history_epoch s' = history_epoch s" "next_floor_id s' = next_floor_id s"
    "length (batches s') = length (batches s) + length bs" "state_revision s' \<le> state_revision s + int (length bs)"
    "state_revision s \<le> state_revision s'" by simp_all
qed

definition canonical_batches :: "core_state \<Rightarrow> bool" where
  "canonical_batches s \<longleftrightarrow> (\<forall>b \<in> set (batches s). canonical_journal (batch_command b))"

lemma canonical_step: "canonical_batches s \<Longrightarrow> execute_command cmd s = Some (e, s') \<Longrightarrow> canonical_batches s'"
  using execute_frame(7) [of cmd s e s'] by (auto simp: canonical_batches_def)

lemma replay_keeps:
  assumes "replay_batches bs s = Some (Inr s')"
  shows "history_linked s \<Longrightarrow> history_linked s'" "canonical_batches s \<Longrightarrow> canonical_batches s'"
  using replay_induct [OF assms, of "\<lambda>_. history_linked"] replay_induct [OF assms, of "\<lambda>_. canonical_batches"]
    linked_step canonical_step by blast+

lemma replay_one:
  assumes "execute_command (command_of_journal j) s = Some (e, s')" "is_document_changed e" "canonical_journal j"
  shows "\<exists>b. batches s' = batches s @ [b] \<and> batch_command b = j"
  using assms(1)
proof (cases rule: execute_command_cases)
  case same
  then show ?thesis using assms(2) by simp
next
  case (edit j' after effs)
  have "j' = j" using edit(1) assms(3) by (cases j) (simp_all add: canonical_journal_def)
  then show ?thesis using after_batches(1) edit(3) by blast
next
  case undo
  then show ?thesis using after_batches(2) by (cases j) simp_all
next
  case redo
  then show ?thesis using after_batches(3) by (cases j) simp_all
qed

text \<open>The replay of a canonical journal does not depend on what the state carries beside document and stacks.\<close>

lemma replay_follows:
  assumes "replay_batches bs s = Some (Inr s')" "follows 0 c s" "\<forall>b \<in> set bs. canonical_journal (batch_command b)"
    and "0 \<le> state_revision c" "state_revision c + int (length bs) \<le> u64_max"
  shows "\<exists>c'. replay_batches bs c = Some (Inr c') \<and> follows 0 c' s' \<and> (batches c = batches s \<longrightarrow> batches c' = batches s')"
  using assms
proof (induction bs arbitrary: s c)
  case (Cons b bs)
  from Cons.prems(1) obtain e s1 where x: "execute_command (command_of_journal (batch_command b)) s = Some (e, s1)"
    "is_document_changed e" and rest: "replay_batches bs s1 = Some (Inr s')" by (auto simp: replay_Cons)
  have "in_u64 (state_revision c + 1)" using Cons.prems(4,5) by (simp add: in_u64_def)
  from follows_step [OF x Cons.prems(2) _ this] obtain b' e' c' where
    b': "batches s1 = batches s @ [b']" and y: "execute_command (command_of_journal (batch_command b')) c = Some (e', c')"
      "is_document_changed e'" "follows 0 c' s1" and r: "state_revision c' \<le> state_revision c + 1"
    and same: "batches c = batches s \<Longrightarrow> batches c' = batches s1" by auto
  have "batch_command b' = batch_command b" using replay_one [OF x] b' Cons.prems(3) by auto
  moreover have "0 \<le> state_revision c'" using execute_frame(8) [OF y(1)] Cons.prems(4) by simp
  ultimately show ?case
    using Cons.IH [OF rest y(3)] Cons.prems(3,5) r y same by (auto simp: replay_Cons)
qed simp

subsection \<open>Sessions\<close>

text \<open>Everything the actor does to its state. A \<^verbatim>\<open>Vec\<close> never holds more than \<^verbatim>\<open>isize::MAX\<close> elements.\<close>

definition batches_fit :: "core_state \<Rightarrow> bool" where
  "batches_fit s \<longleftrightarrow> int (length (batches s)) \<le> i64_max"

definition floor_transition :: "history_transition \<Rightarrow> bool" where
  "floor_transition t \<longleftrightarrow> (\<exists>before n. transition_floor before n = Some (Inr t))
     \<or> (\<exists>before may_fit accepts. transition_find_floor before may_fit accepts = Some (Inr t))"

inductive session_step :: "core_state \<Rightarrow> core_state \<Rightarrow> bool" where
  command: "execute_actor_command attachment cmd s = Some (e, s') \<Longrightarrow> batches_fit s' \<Longrightarrow> session_step s s'"
| begin_floor: "floor_transition t \<Longrightarrow> begin_floor actor t s = Some (Inr (i, s')) \<Longrightarrow> session_step s s'"
| tag_floor: "tag_floor i tag ready s = (r, s') \<Longrightarrow> session_step s s'"
| settle_floor: "settle_floor i commit s = Some (r, s') \<Longrightarrow> session_step s s'"
| restore: "state_pending_floor s = None \<Longrightarrow> restore h = Some (Inr c) \<Longrightarrow> batches_fit c \<Longrightarrow>
    adopt_candidate c s = Inr s' \<Longrightarrow> session_step s s'"

inductive session :: "core_state \<Rightarrow> bool" where
  start: "valid_document doc \<Longrightarrow> in_u64 r \<Longrightarrow> session (core_state_new doc r)"
| step: "session s \<Longrightarrow> session_step s s' \<Longrightarrow> session s'"

text \<open>The session invariant: the stacks are linked, the journal replays to the state, and while a save is
  pending the journal behind the floor replays from the floor's baseline.\<close>

definition journal_replays :: "core_state \<Rightarrow> bool" where
  "journal_replays s \<longleftrightarrow> (\<exists>c. replay_batches (batches s) (core_state_new (baseline s) 0) = Some (Inr c)
     \<and> follows 0 c s \<and> batches c = batches s)"

definition floor_start :: "pending_floor \<Rightarrow> core_state" where
  "floor_start p = (core_state_new (floor_baseline p) 0)\<lparr>floor_offset := floor_target p\<rparr>"

definition floor_replays :: "pending_floor \<Rightarrow> core_state \<Rightarrow> bool" where
  "floor_replays p s \<longleftrightarrow> floor_discard p \<le> length (batches s) \<and> valid_document (floor_baseline p)
     \<and> (\<exists>c. replay_batches (drop (floor_discard p) (batches s)) (floor_start p) = Some (Inr c)
            \<and> follows (floor_depth p) c s)"

definition session_ok :: "core_state \<Rightarrow> bool" where
  "session_ok s \<longleftrightarrow> history_linked s \<and> canonical_batches s \<and> batches_fit s \<and> journal_replays s
     \<and> (\<forall>p. state_pending_floor s = Some p \<longrightarrow> floor_replays p s)"

lemma fit_bound: "int n \<le> i64_max \<Longrightarrow> r \<le> int n \<Longrightarrow> 0 \<le> r \<Longrightarrow> in_u64 (r + 1)"
  by (simp add: int_width_defs)

text \<open>One more accepted command extends a replay.\<close>

lemma replay_extend:
  assumes x: "execute_command cmd s = Some (e, s')" "is_document_changed e"
    and u: "cmd = Undo \<Longrightarrow> d < length (undo_stack s) \<or> d = 0"
    and c: "replay_batches (drop k (batches s)) from = Some (Inr c)" "follows d c s"
    and k: "k \<le> length (batches s)" "state_revision from = 0" "int (length (batches s)) \<le> i64_max"
  shows "\<exists>c'. replay_batches (drop k (batches s')) from = Some (Inr c') \<and> follows d c' s'
    \<and> (d = 0 \<longrightarrow> batches c = batches s \<longrightarrow> batches c' = batches s')"
proof -
  have "0 \<le> state_revision c" "state_revision c \<le> int (length (batches s))"
    using replay_frame(7,8) [OF c(1)] k(2) by simp_all
  then have "in_u64 (state_revision c + 1)" using fit_bound k(3) by blast
  from follows_step [OF x c(2) u this] obtain b e' c' where
    "batches s' = batches s @ [b]" "execute_command (command_of_journal (batch_command b)) c = Some (e', c')"
    "is_document_changed e'" "follows d c' s'" "d = 0 \<Longrightarrow> batches c = batches s \<Longrightarrow> batches c' = batches s'" by blast
  then show ?thesis
    using c(1) k(1) by (auto simp: replay_append pbind_def replay_Cons)
qed

lemma follows_clear [simp]: "follows d c (s\<lparr>identity_effects := x\<rparr>) = follows d c s"
  by (simp add: follows_def)

lemma session_ok_command:
  assumes ok: "session_ok s" and x: "execute_command cmd s = Some (e, s')" and fit: "batches_fit s'"
    and u: "\<And>p. cmd = Undo \<Longrightarrow> state_pending_floor s = Some p \<Longrightarrow> floor_depth p < length (undo_stack s)"
  shows "session_ok s'"
proof (cases "is_document_changed e")
  case False
  with x have "s' = s\<lparr>identity_effects := []\<rparr>" by (auto elim: execute_command_cases)
  then show ?thesis
    using ok by (simp add: session_ok_def history_linked_def canonical_batches_def batches_fit_def journal_replays_def
        floor_replays_def floor_start_def)
next
  case True
  note f = execute_frame [OF x]
  have len: "int (length (batches s)) \<le> i64_max" using ok by (simp add: session_ok_def batches_fit_def)
  from ok obtain c where c: "replay_batches (batches s) (core_state_new (baseline s) 0) = Some (Inr c)"
    "follows 0 c s" "batches c = batches s" by (auto simp: session_ok_def journal_replays_def)
  have "journal_replays s'"
    using replay_extend [OF x True _ _ c(2), of 0 "core_state_new (baseline s) 0"] c len f(1)
    by (auto simp: journal_replays_def core_state_new_def [of _ 0])
  moreover have "floor_replays p s'" if p: "state_pending_floor s' = Some p" for p
  proof -
    have p: "state_pending_floor s = Some p" using p f(3) by simp
    with ok have fr: "floor_replays p s" by (simp add: session_ok_def)
    then obtain c where "replay_batches (drop (floor_discard p) (batches s)) (floor_start p) = Some (Inr c)"
      "follows (floor_depth p) c s" by (auto simp: floor_replays_def)
    from replay_extend [OF x True _ this] u [OF _ p] fr len f(7)
    show ?thesis by (auto simp: floor_replays_def floor_start_def core_state_new_def)
  qed
  ultimately show ?thesis
    using ok fit linked_step [OF _ x] canonical_step [OF _ x] by (simp add: session_ok_def)
qed


subsection \<open>Floors\<close>

lemma boundary_inj: "map boundary_of xs = map boundary_of ys \<Longrightarrow> xs = ys"
proof -
  have "inj boundary_of" by (rule injI) (simp add: boundary_of_def)
  then show "map boundary_of xs = map boundary_of ys \<Longrightarrow> xs = ys" by (simp add: inj_map_eq_map)
qed

lemma pbind_Some [simp]: "pbind m f = Some (Inr y) \<longleftrightarrow> (\<exists>x. m = Some (Inr x) \<and> f x = Some (Inr y))"
  by (auto simp: pbind_def split: option.splits sum.splits)

lemma floor_from_prefix_InrD:
  assumes "floor_from_prefix before discard prefix = Some (Inr after)"
  obtains suffix offset where "replay_batches (drop discard (snap_batches before)) (core_state_new (state_document prefix) 0) = Some (Inr suffix)"
    "after = (history suffix)\<lparr>snap_floor_offset := offset\<rparr>" "state_document suffix = snap_document before"
    "length (undo_stack prefix) \<le> length (cursor_undo (snap_cursor before))"
    "map boundary_of (undo_stack suffix) = drop (length (undo_stack prefix)) (cursor_undo (snap_cursor before))"
    "map boundary_of (redo_stack suffix) = cursor_redo (snap_cursor before)"
    "length (undo_stack prefix) = length (cursor_undo (snap_cursor before)) \<Longrightarrow> cursor_undo (snap_cursor before) \<noteq> [] \<Longrightarrow>
       boundary_coalesce_key (last (cursor_undo (snap_cursor before))) = None"
  using assms
  by (fastforce simp: floor_from_prefix_def Let_def history_def split: if_splits option.splits)

lemma find_floor_loop_prefix:
  assumes "find_floor_loop before may_fit accepts index rest prefix0 = Some (Inr after)" "history_linked prefix0"
  shows "\<exists>discard prefix. floor_from_prefix before discard prefix = Some (Inr after) \<and> history_linked prefix
    \<and> discard \<le> index + length rest"
  using assms
proof (induction rest arbitrary: index prefix0)
  case Nil
  then show ?case by (simp split: if_splits)
next
  case (Cons batch rest)
  from Cons.prems(1) obtain e prefix where
    x: "execute_command (command_of_journal (batch_command batch)) prefix0 = Some (e, prefix)"
    by (auto simp: bind_eq_Some_conv split: if_splits)
  have l: "history_linked prefix" using linked_step [OF Cons.prems(2) x] .
  have "floor_from_prefix before (index + 1) prefix = Some (Inr after)
      \<or> find_floor_loop before may_fit accepts (index + 1) rest prefix = Some (Inr after)"
  proof (cases "floor_from_prefix before (index + 1) prefix")
    case None
    then show ?thesis using Cons.prems(1) x by (simp add: Let_def split: if_splits)
  next
    case (Some r)
    then show ?thesis using Cons.prems(1) x by (cases r) (auto simp: Let_def split: if_splits)
  qed
  then show ?case using Cons.IH [OF _ l, of "index + 1"] l by fastforce
qed

lemma floor_transition_prefix:
  assumes "floor_transition t"
  obtains discard prefix where "floor_from_prefix (transition_before t) discard prefix = Some (Inr (transition_after t))"
    "history_linked prefix" "discard \<le> length (snap_batches (transition_before t))"
  using assms unfolding floor_transition_def
proof (elim disjE exE)
  fix before n assume "transition_floor before n = Some (Inr t)"
  then show thesis
    by (auto simp: transition_floor_def floor_history_def restore_def valid_document_def split: if_splits
        intro!: that linked_new dest: replay_keeps(1))
next
  fix before may_fit accepts assume "transition_find_floor before may_fit accepts = Some (Inr t)"
  then have "transition_before t = before"
    and l: "find_floor_loop before may_fit accepts 0 (snap_batches before) (core_state_new (snap_baseline before) 0)
        = Some (Inr (transition_after t))" "history_linked (core_state_new (snap_baseline before) 0)"
    by (auto simp: transition_find_floor_def find_floor_history_def valid_document_def split: if_splits intro: linked_new)
  then show thesis using find_floor_loop_prefix [OF l] that by auto
qed

lemma follows_refl: "follows 0 s s"
  by (simp add: follows_def)

lemma session_ok_begin:
  assumes ok: "session_ok s" and t: "floor_transition t" and b: "begin_floor actor t s = Some (Inr (i, s'))"
  shows "session_ok s'"
proof -
  from floor_transition_prefix [OF t] obtain discard prefix where
    ff: "floor_from_prefix (transition_before t) discard prefix = Some (Inr (transition_after t))"
    and l: "history_linked prefix" and n: "discard \<le> length (snap_batches (transition_before t))" .
  have before: "transition_before t = history s"
    using b by (auto simp: begin_floor_def Let_def split: option.splits if_splits)
  from floor_from_prefix_InrD [OF ff] obtain suffix offset where
    r: "replay_batches (drop discard (batches s)) (core_state_new (state_document prefix) 0) = Some (Inr suffix)"
    and after: "transition_after t = (history suffix)\<lparr>snap_floor_offset := offset\<rparr>"
    and eq: "state_document suffix = state_document s" "length (undo_stack prefix) \<le> length (undo_stack s)"
      "map boundary_of (undo_stack suffix) = drop (length (undo_stack prefix)) (map boundary_of (undo_stack s))"
      "map boundary_of (redo_stack suffix) = map boundary_of (redo_stack s)"
    and key: "length (undo_stack prefix) = length (undo_stack s) \<longrightarrow> undo_stack s \<noteq> [] \<longrightarrow>
       entry_coalesce_key (last (undo_stack s)) = None"
    by (auto simp: before history_def boundary_of_def last_map)
  define depth where "depth = length (undo_stack prefix)"
  have undo: "undo_stack suffix = drop depth (undo_stack s)" using boundary_inj eq(3) by (simp add: depth_def drop_map)
  have foll: "follows depth suffix s"
    using eq key boundary_inj [OF eq(4)] undo
    by (auto simp: follows_def depth_def intro!: exI [of _ "take (length (undo_stack prefix)) (undo_stack s)"])
  note fr = replay_frame [OF r]
  obtain p where p: "state_pending_floor s' = Some p" and s': "s' = s\<lparr>next_floor_id := i, state_pending_floor := Some p\<rparr>"
    and pd: "floor_discard p = discard" "floor_depth p = depth" "floor_baseline p = state_document prefix"
    using b n eq(2) fr(1,6) undo
    by (auto simp: begin_floor_def Let_def before after history_def depth_def core_state_new_def split: option.splits if_splits)
  have "\<forall>b \<in> set (drop discard (batches s)). canonical_journal (batch_command b)"
    using ok by (auto simp: session_ok_def canonical_batches_def dest: in_set_dropD)
  moreover have "follows 0 (floor_start p) (core_state_new (state_document prefix) 0)"
    by (simp add: follows_def floor_start_def pd core_state_new_def)
  moreover have "state_revision (floor_start p) = 0" by (simp add: floor_start_def core_state_new_def)
  moreover have "int (length (drop discard (batches s))) \<le> u64_max"
    using ok by (auto simp: session_ok_def batches_fit_def int_width_defs)
  ultimately obtain c where c: "replay_batches (drop discard (batches s)) (floor_start p) = Some (Inr c)" "follows 0 c suffix"
    using replay_follows [OF r, of "floor_start p"] by auto
  have "follows depth c s" using foll c(2) by (auto simp: follows_def)
  then have "floor_replays p s"
    using c(1) n l linked_valid(1) by (auto simp: floor_replays_def pd before history_def)
  then show ?thesis
    using ok p unfolding s'
    by (simp add: session_ok_def history_linked_def canonical_batches_def batches_fit_def journal_replays_def follows_def
        floor_replays_def)
qed


lemma replay_cong: "map batch_command xs = map batch_command ys \<Longrightarrow> replay_batches xs s = replay_batches ys s"
proof (induction xs arbitrary: ys s)
  case (Cons x xs)
  then obtain y zs where ys: "ys = y # zs" "batch_command y = batch_command x" "map batch_command xs = map batch_command zs"
    by (cases ys) auto
  then show ?case
    using Cons.IH [of zs] by (cases "execute_command (command_of_journal (batch_command x)) s") (auto simp: replay_batches.simps(2))
qed simp

lemma replay_commands:
  assumes "replay_batches bs s = Some (Inr s')" "\<forall>b \<in> set bs. canonical_journal (batch_command b)"
  shows "map batch_command (batches s') = map batch_command (batches s) @ map batch_command bs"
  using assms
proof (induction bs arbitrary: s)
  case (Cons b bs)
  from Cons.prems(1) obtain e s1 where x: "execute_command (command_of_journal (batch_command b)) s = Some (e, s1)"
    "is_document_changed e" "replay_batches bs s1 = Some (Inr s')" by (auto simp: replay_Cons)
  then show ?case using replay_one [OF x(1,2)] Cons.IH [OF x(3)] Cons.prems(2) by auto
qed simp

text \<open>A state that came out of a replay replays to itself.\<close>

lemma replayed_journal:
  assumes r: "replay_batches bs from = Some (Inr c)" "\<forall>b \<in> set bs. canonical_journal (batch_command b)"
    and init: "batches from = []" "follows 0 (core_state_new (baseline from) 0) from"
    and n: "int (length bs) \<le> u64_max"
  shows "journal_replays c"
proof -
  have "replay_batches (batches c) (core_state_new (baseline from) 0) = replay_batches bs (core_state_new (baseline from) 0)"
    using replay_commands [OF r] init(1) by (intro replay_cong) simp
  moreover obtain c' where "replay_batches bs (core_state_new (baseline from) 0) = Some (Inr c')" "follows 0 c' c"
    "batches c' = batches c"
    using replay_follows [OF r(1) init(2) r(2)] n init(1) by (auto simp: core_state_new_def)
  ultimately show ?thesis using replay_frame(1) [OF r(1)] by (simp add: journal_replays_def)
qed

lemma commit_floor_InrD:
  assumes "commit_floor p s = Some (Inr s')"
  obtains c r epoch where "replay_batches (drop (floor_discard p) (batches s)) (floor_start p) = Some (Inr c)"
    "state_document c = state_document s" "undo_stack c = drop (floor_depth p) (undo_stack s)"
    "redo_stack c = redo_stack s" "floor_depth p \<le> length (undo_stack s)"
    "s' = c\<lparr>state_revision := r, next_floor_id := next_floor_id s, history_epoch := epoch\<rparr>"
    "r = state_revision s + 1"
  using assms
  by (auto simp: commit_floor_def floor_start_def checked_add_u64_def split: if_splits)

lemma session_ok_upd [simp]:
  "session_ok (s\<lparr>state_revision := r, next_floor_id := n, history_epoch := x\<rparr>) = session_ok s"
  "session_ok (s\<lparr>history_epoch := x, next_floor_id := n, state_revision := r\<rparr>) = session_ok s"
  by (simp_all add: session_ok_def history_linked_def canonical_batches_def batches_fit_def journal_replays_def floor_replays_def
      follows_def)

lemma session_ok_commit:
  assumes ok: "session_ok s" and p: "state_pending_floor s = Some p" and c: "commit_floor p s = Some (Inr s')"
  shows "session_ok s'"
proof -
  from ok p have fr: "floor_replays p s" by (simp add: session_ok_def)
  from commit_floor_InrD [OF c] obtain c r x where
    r: "replay_batches (drop (floor_discard p) (batches s)) (floor_start p) = Some (Inr c)"
    and s': "s' = c\<lparr>state_revision := r, next_floor_id := next_floor_id s, history_epoch := x\<rparr>" by blast
  have can: "\<forall>b \<in> set (drop (floor_discard p) (batches s)). canonical_journal (batch_command b)"
    using ok by (auto simp: session_ok_def canonical_batches_def dest: in_set_dropD)
  have start: "batches (floor_start p) = []" "baseline (floor_start p) = floor_baseline p"
    "follows 0 (core_state_new (baseline (floor_start p)) 0) (floor_start p)" "state_pending_floor (floor_start p) = None"
    by (simp_all add: floor_start_def core_state_new_def follows_def)
  have len: "int (length (drop (floor_discard p) (batches s))) \<le> i64_max"
    using ok by (auto simp: session_ok_def batches_fit_def)
  have "history_linked (floor_start p)"
    using fr by (simp add: floor_replays_def floor_start_def history_linked_def core_state_new_def)
  moreover have "canonical_batches (floor_start p)" by (simp add: canonical_batches_def start)
  moreover have "journal_replays c"
    using replayed_journal [OF r can start(1,3)] len by (simp add: int_width_defs)
  ultimately show ?thesis
    using replay_keeps [OF r] replay_frame(3,6) [OF r] start(1,4) len
    unfolding s' session_ok_upd by (simp add: session_ok_def batches_fit_def)
qed

lemma session_ok_settle:
  assumes ok: "session_ok s" and x: "settle_floor i commit s = Some (r, s')"
  shows "session_ok s'"
proof -
  have "s' = s \<or> s' = s\<lparr>state_pending_floor := None\<rparr>
    \<or> (\<exists>p. state_pending_floor s = Some p \<and> commit_floor p s = Some (Inr s'))"
    using x by (auto simp: settle_floor_def split: if_splits option.splits sum.splits)
  moreover have "session_ok (s\<lparr>state_pending_floor := None\<rparr>)"
    using ok by (simp add: session_ok_def history_linked_def canonical_batches_def batches_fit_def journal_replays_def follows_def)
  ultimately show ?thesis using ok session_ok_commit by blast
qed

lemma session_ok_tag:
  assumes ok: "session_ok s" and x: "tag_floor i tag ready s = (r, s')"
  shows "session_ok s'"
proof -
  have "s' = s \<or> (\<exists>p v. state_pending_floor s = Some p \<and> s' = s\<lparr>state_pending_floor := Some (p\<lparr>floor_save := v\<rparr>)\<rparr>)"
    using x by (auto simp: tag_floor_def Let_def split: if_splits option.splits)
  then show ?thesis
    using ok by (auto simp: session_ok_def history_linked_def canonical_batches_def batches_fit_def journal_replays_def
        follows_def floor_replays_def floor_start_def)
qed

lemma restore_InrD:
  assumes "restore h = Some (Inr c)"
  obtains c0 where "valid_document (snap_baseline h)"
    "replay_batches (snap_batches h) (core_state_new (snap_baseline h) 0) = Some (Inr c0)"
    "c = c0\<lparr>floor_offset := snap_floor_offset h\<rparr>" "history c = h"
  using assms by (auto simp: restore_def valid_document_def Let_def split: if_splits)

lemma session_ok_restore:
  assumes h: "restore h = Some (Inr c)" and fit: "batches_fit c" and a: "adopt_candidate c s = Inr s'"
  shows "session_ok s'"
proof -
  from restore_InrD [OF h] obtain c0 where v: "valid_document (snap_baseline h)"
    and r: "replay_batches (snap_batches h) (core_state_new (snap_baseline h) 0) = Some (Inr c0)"
    and c: "c = c0\<lparr>floor_offset := snap_floor_offset h\<rparr>" and hc: "history c = h" .
  have b: "batches c0 = snap_batches h" using arg_cong [OF hc, of snap_batches] c by (simp add: history_def)
  have "state_pending_floor c0 = None" "baseline c0 = snap_baseline h"
    using replay_frame(1,3) [OF r] by (simp_all add: core_state_new_def)
  moreover have "canonical_batches c0" "history_linked c0"
    using replay_keeps [OF r] linked_new [OF v] by (simp_all add: canonical_batches_def core_state_new_def)
  ultimately have "session_ok c"
    using r b fit follows_refl [of c0]
    by (auto simp: session_ok_def c history_linked_def canonical_batches_def batches_fit_def journal_replays_def follows_def)
  moreover have "\<exists>r n x. s' = c\<lparr>history_epoch := x, next_floor_id := n, state_revision := r\<rparr>"
    using a by (auto simp: adopt_candidate_def split: option.splits)
  ultimately show ?thesis by auto
qed

lemma session_ok_new: "valid_document doc \<Longrightarrow> session_ok (core_state_new doc r)"
  using linked_new [of doc r]
  by (simp add: session_ok_def canonical_batches_def batches_fit_def journal_replays_def core_state_new_def
      follows_def int_width_defs)

lemma execute_actor_command_cases:
  assumes "execute_actor_command attachment cmd s = Some (e, s')"
  obtains (refused) "s' = s"
  | (executed) "execute_command cmd s = Some (e, s')"
      "\<And>p. cmd = Undo \<Longrightarrow> state_pending_floor s = Some p \<Longrightarrow> floor_depth p < length (undo_stack s)"
  using assms
  by (cases cmd; cases "state_pending_floor s") (auto simp: execute_actor_command_def split: if_splits)

lemma session_ok_step: "session_step s s' \<Longrightarrow> session_ok s \<Longrightarrow> session_ok s'"
proof (induction rule: session_step.induct)
  case (command attachment cmd s e s')
  from command.hyps(1) show ?case
  proof (cases rule: execute_actor_command_cases)
    case refused
    then show ?thesis using command.prems by simp
  next
    case executed
    then show ?thesis using session_ok_command [OF command.prems] command.hyps(2) by blast
  qed
qed (auto intro: session_ok_begin session_ok_tag session_ok_settle session_ok_restore)

lemma session_invariant: "session s \<Longrightarrow> session_ok s"
  by (induction rule: session.induct) (auto intro: session_ok_new session_ok_step)

end
