(* ===== verification/Sha256.thy ===== *)
theory Sha256
  imports Rust_Prelude "HOL-Library.Word"
begin

unbundle bit_operations_syntax

text \<open>
  The streaming SHA-256 of \<^verbatim>\<open>crates/kinewright-hash/src/lib.rs\<close>: the software compression on 32-bit words, the
  64-byte block buffer that \<^verbatim>\<open>update\<close> fills across calls, and the padding of \<^verbatim>\<open>finalize\<close>. The x86 path hands
  blocks to hardware instructions that compute the same compression; it is not modelled. A \<^verbatim>\<open>usize\<close> length fits
  a \<^verbatim>\<open>u64\<close>.
\<close>

section \<open>Definitions\<close>

type_synonym byte = "8 word"

definition INITIAL_STATE :: "32 word list" where
  "INITIAL_STATE = [0x6a09e667, 0xbb67ae85, 0x3c6ef372, 0xa54ff53a, 0x510e527f, 0x9b05688c, 0x1f83d9ab, 0x5be0cd19]"

text \<open>The constants in two halves, as the source's digit separators show them.\<close>

definition ROUND_CONSTANTS :: "32 word list" where
  "ROUND_CONSTANTS = map (\<lambda>(high, low). push_bit 16 high OR low) [
      (0x428a, 0x2f98), (0x7137, 0x4491), (0xb5c0, 0xfbcf), (0xe9b5, 0xdba5),
      (0x3956, 0xc25b), (0x59f1, 0x11f1), (0x923f, 0x82a4), (0xab1c, 0x5ed5),
      (0xd807, 0xaa98), (0x1283, 0x5b01), (0x2431, 0x85be), (0x550c, 0x7dc3),
      (0x72be, 0x5d74), (0x80de, 0xb1fe), (0x9bdc, 0x06a7), (0xc19b, 0xf174),
      (0xe49b, 0x69c1), (0xefbe, 0x4786), (0x0fc1, 0x9dc6), (0x240c, 0xa1cc),
      (0x2de9, 0x2c6f), (0x4a74, 0x84aa), (0x5cb0, 0xa9dc), (0x76f9, 0x88da),
      (0x983e, 0x5152), (0xa831, 0xc66d), (0xb003, 0x27c8), (0xbf59, 0x7fc7),
      (0xc6e0, 0x0bf3), (0xd5a7, 0x9147), (0x06ca, 0x6351), (0x1429, 0x2967),
      (0x27b7, 0x0a85), (0x2e1b, 0x2138), (0x4d2c, 0x6dfc), (0x5338, 0x0d13),
      (0x650a, 0x7354), (0x766a, 0x0abb), (0x81c2, 0xc92e), (0x9272, 0x2c85),
      (0xa2bf, 0xe8a1), (0xa81a, 0x664b), (0xc24b, 0x8b70), (0xc76c, 0x51a3),
      (0xd192, 0xe819), (0xd699, 0x0624), (0xf40e, 0x3585), (0x106a, 0xa070),
      (0x19a4, 0xc116), (0x1e37, 0x6c08), (0x2748, 0x774c), (0x34b0, 0xbcb5),
      (0x391c, 0x0cb3), (0x4ed8, 0xaa4a), (0x5b9c, 0xca4f), (0x682e, 0x6ff3),
      (0x748f, 0x82ee), (0x78a5, 0x636f), (0x84c8, 0x7814), (0x8cc7, 0x0208),
      (0x90be, 0xfffa), (0xa450, 0x6ceb), (0xbef9, 0xa3f7), (0xc671, 0x78f2)]"

definition rotate_right :: "nat \<Rightarrow> 32 word \<Rightarrow> 32 word" where
  "rotate_right n w = drop_bit n w OR push_bit (32 - n) w"

definition from_be_bytes :: "byte list \<Rightarrow> 32 word" where
  "from_be_bytes bs = fold (\<lambda>b acc. push_bit 8 acc OR ucast b) bs 0"

definition to_be_bytes :: "32 word \<Rightarrow> byte list" where
  "to_be_bytes w = map (\<lambda>i. ucast (drop_bit i w)) [24, 16, 8, 0]"

definition len_be_bytes :: "int \<Rightarrow> byte list" where
  "len_be_bytes n = map (\<lambda>i. word_of_int (n div 2 ^ i)) [56, 48, 40, 32, 24, 16, 8, 0]"

text \<open>\<^verbatim>\<open>as_chunks::<N>()\<close>: the full chunks and the remainder.\<close>

function as_chunks :: "nat \<Rightarrow> 'a list \<Rightarrow> 'a list list \<times> 'a list" where
  "as_chunks n xs =
     (if n = 0 \<or> length xs < n then ([], xs)
      else let (blocks, rest) = as_chunks n (drop n xs) in (take n xs # blocks, rest))"
  by pat_completeness auto
termination
  by (relation "measure (\<lambda>(n, xs). length xs)") auto

declare as_chunks.simps [simp del]

definition schedule_word :: "32 word list \<Rightarrow> nat \<Rightarrow> 32 word" where
  "schedule_word w i =
     (let x = w ! (i - 15); y = w ! (i - 2);
          s0 = rotate_right 7 x XOR rotate_right 18 x XOR drop_bit 3 x;
          s1 = rotate_right 17 y XOR rotate_right 19 y XOR drop_bit 10 y
      in w ! (i - 16) + s0 + w ! (i - 7) + s1)"

definition schedule :: "byte list \<Rightarrow> 32 word list" where
  "schedule block = fold (\<lambda>i w. w @ [schedule_word w i]) [16..<64] (map from_be_bytes (fst (as_chunks 4 block)))"

definition sha_round :: "32 word list \<Rightarrow> nat \<Rightarrow> 32 word list \<Rightarrow> 32 word list" where
  "sha_round w i st =
     (case st of
        [a, b, c, d, e, f, g, h] \<Rightarrow>
          let sum1 = rotate_right 6 e XOR rotate_right 11 e XOR rotate_right 25 e;
              ch = (e AND f) XOR (NOT e AND g);
              temporary1 = h + sum1 + ch + ROUND_CONSTANTS ! i + w ! i;
              sum0 = rotate_right 2 a XOR rotate_right 13 a XOR rotate_right 22 a;
              majority = (a AND b) XOR (a AND c) XOR (b AND c);
              temporary2 = sum0 + majority
          in [temporary1 + temporary2, a, b, c, d + temporary1, e, f, g]
      | _ \<Rightarrow> st)"

definition compress_software :: "byte list \<Rightarrow> 32 word list \<Rightarrow> 32 word list" where
  "compress_software block st =
     map2 (+) st (let w = schedule block in fold (sha_round w) [0..<64] st)"

record sha256 =
  sha_state :: "32 word list"
  sha_buffer :: "byte list"
  buffer_len :: nat
  message_len :: int

definition sha256_new :: sha256 where
  "sha256_new = \<lparr>sha_state = INITIAL_STATE, sha_buffer = replicate 64 0, buffer_len = 0, message_len = 0\<rparr>"

definition compress_blocks :: "byte list list \<Rightarrow> sha256 \<Rightarrow> sha256" where
  "compress_blocks blocks h = h\<lparr>sha_state := fold compress_software blocks (sha_state h)\<rparr>"

text \<open>\<^verbatim>\<open>buffer[at..at + len].copy_from_slice(bytes)\<close>\<close>

definition copy_into :: "nat \<Rightarrow> byte list \<Rightarrow> byte list \<Rightarrow> byte list" where
  "copy_into at bytes buffer = take at buffer @ bytes @ drop (at + length bytes) buffer"

definition update_tail :: "byte list \<Rightarrow> sha256 \<Rightarrow> sha256" where
  "update_tail input h =
     (let (blocks, rest) = as_chunks 64 input; h = compress_blocks blocks h
      in h\<lparr>sha_buffer := copy_into 0 rest (sha_buffer h), buffer_len := length rest\<rparr>)"

definition sha256_update :: "byte list \<Rightarrow> sha256 \<Rightarrow> sha256" where
  "sha256_update input h0 =
     (let h = h0\<lparr>message_len := min u64_max (message_len h0 + int (length input))\<rparr>
      in if buffer_len h \<noteq> 0
         then let wanted = min (64 - buffer_len h) (length input);
                  h = h\<lparr>sha_buffer := copy_into (buffer_len h) (take wanted input) (sha_buffer h),
                        buffer_len := buffer_len h + wanted\<rparr>;
                  rest = drop wanted input;
                  h = (if buffer_len h = 64 then (compress_blocks [sha_buffer h] h)\<lparr>buffer_len := 0\<rparr> else h)
              in if rest = [] then h else update_tail rest h
         else update_tail input h)"

definition sha256_finalize :: "sha256 \<Rightarrow> byte list" where
  "sha256_finalize h0 =
     (let bit_len = min u64_max (message_len h0 * 8);
          h = h0\<lparr>sha_buffer := copy_into (buffer_len h0) [0x80] (sha_buffer h0), buffer_len := buffer_len h0 + 1\<rparr>;
          h = (if 56 < buffer_len h
               then let h = h\<lparr>sha_buffer := copy_into (buffer_len h) (replicate (64 - buffer_len h) 0) (sha_buffer h)\<rparr>
                    in (compress_blocks [sha_buffer h] h)\<lparr>buffer_len := 0\<rparr>
               else h);
          buffer = copy_into (buffer_len h) (replicate (56 - buffer_len h) 0) (sha_buffer h);
          buffer = copy_into 56 (len_be_bytes bit_len) buffer
      in concat (map to_be_bytes (sha_state (compress_blocks [buffer] h))))"

definition hex_digit :: "nat \<Rightarrow> char" where
  "hex_digit n = (if n < 10 then char_of (48 + n) else char_of (87 + n))"

definition hex :: "byte list \<Rightarrow> string" where
  "hex bs = concat (map (\<lambda>b. [hex_digit (unat b div 16), hex_digit (unat b mod 16)]) bs)"

text \<open>The reader is the list of results its reads return; after the last of them it is at end of file.\<close>

fun read_loop :: "('e + byte list) list \<Rightarrow> sha256 \<Rightarrow> 'e + sha256" where
  "read_loop [] h = Inr h"
| "read_loop (Inl e # reads) h = Inl e"
| "read_loop (Inr chunk # reads) h = (if chunk = [] then Inr h else read_loop reads (sha256_update chunk h))"

definition sha256_reader :: "('e + byte list) list \<Rightarrow> 'e + string" where
  "sha256_reader reads =
     (case read_loop reads sha256_new of Inl e \<Rightarrow> Inl e | Inr h \<Rightarrow> Inr (hex (sha256_finalize h)))"

definition sha256_bytes :: "byte list \<Rightarrow> string" where
  "sha256_bytes bytes = hex (sha256_finalize (sha256_update bytes sha256_new))"

section \<open>Lemmas\<close>

lemma as_chunks_short: "length xs < n \<Longrightarrow> as_chunks n xs = ([], xs)"
  by (simp add: as_chunks.simps)

lemma as_chunks_full:
  "0 < n \<Longrightarrow> length xs = n \<Longrightarrow> as_chunks n (xs @ ys) = (xs # fst (as_chunks n ys), snd (as_chunks n ys))"
  by (subst as_chunks.simps) (simp add: case_prod_beta)

lemma as_chunks_rest: "0 < n \<Longrightarrow> length (snd (as_chunks n xs)) < n"
  by (induction n xs rule: as_chunks.induct) (subst as_chunks.simps, auto simp: case_prod_beta)

lemma as_chunks_append:
  assumes "0 < n"
  shows "as_chunks n (xs @ ys) = (fst (as_chunks n xs) @ fst (as_chunks n (snd (as_chunks n xs) @ ys)),
    snd (as_chunks n (snd (as_chunks n xs) @ ys)))"
  using assms
proof (induction n xs rule: as_chunks.induct)
  case (1 n xs)
  show ?case
  proof (cases "length xs < n")
    case True
    then show ?thesis by (simp add: as_chunks_short)
  next
    case False
    have split: "xs = take n xs @ drop n xs" by simp
    have full: "as_chunks n (take n xs @ zs) = (take n xs # fst (as_chunks n zs), snd (as_chunks n zs))" for zs
      using False "1.prems" by (intro as_chunks_full) simp_all
    have "xs @ ys = take n xs @ (drop n xs @ ys)" by (simp flip: append_assoc)
    then have "as_chunks n (xs @ ys) = as_chunks n (take n xs @ (drop n xs @ ys))" by (rule arg_cong)
    also have "\<dots> = (take n xs # fst (as_chunks n (drop n xs @ ys)), snd (as_chunks n (drop n xs @ ys)))" by (rule full)
    finally show ?thesis
      using "1.IH" False "1.prems" full [of "drop n xs"] by (simp add: prod_eq_iff)
  qed
qed

text \<open>What a hasher has absorbed: the full blocks are compressed, the rest waits in the buffer.\<close>

definition absorbed :: "byte list \<Rightarrow> sha256 \<Rightarrow> bool" where
  "absorbed bytes h \<longleftrightarrow> sha_state h = fold compress_software (fst (as_chunks 64 bytes)) INITIAL_STATE
     \<and> buffer_len h = length (snd (as_chunks 64 bytes)) \<and> length (sha_buffer h) = 64
     \<and> take (length (snd (as_chunks 64 bytes))) (sha_buffer h) = snd (as_chunks 64 bytes)
     \<and> message_len h = min u64_max (int (length bytes))"

lemma absorbed_new: "absorbed [] sha256_new"
  by (simp add: absorbed_def sha256_new_def as_chunks_short int_width_defs)

lemma update_tail_fields:
  "sha_state (update_tail input h) = fold compress_software (fst (as_chunks 64 input)) (sha_state h)"
  "message_len (update_tail input h) = message_len h"
  "buffer_len (update_tail input h) = length (snd (as_chunks 64 input))"
  "length (sha_buffer h) = 64 \<Longrightarrow> length (sha_buffer (update_tail input h)) = 64"
  "length (sha_buffer h) = 64 \<Longrightarrow>
     take (length (snd (as_chunks 64 input))) (sha_buffer (update_tail input h)) = snd (as_chunks 64 input)"
  using as_chunks_rest [of 64 input]
  by (simp_all add: update_tail_def compress_blocks_def copy_into_def case_prod_beta Let_def)

lemma absorbed_update:
  assumes "absorbed bytes h"
  shows "absorbed (bytes @ input) (sha256_update input h)"
proof -
  define r where "r = snd (as_chunks 64 bytes)"
  have r: "length r < 64" using as_chunks_rest [of 64 bytes] by (simp add: r_def)
  have app: "fst (as_chunks 64 (bytes @ input)) = fst (as_chunks 64 bytes) @ fst (as_chunks 64 (r @ input))"
    "snd (as_chunks 64 (bytes @ input)) = snd (as_chunks 64 (r @ input))"
    using as_chunks_append [of 64 bytes input] by (simp_all add: r_def)
  note h = assms [unfolded absorbed_def, folded r_def]
  have len: "min u64_max (min u64_max (int (length bytes)) + int (length input)) = min u64_max (int (length (bytes @ input)))"
    by (simp add: int_width_defs)
  show ?thesis
  proof (cases "r = []")
    case True
    then show ?thesis
      using h update_tail_fields [where input = input] len
      by (simp add: absorbed_def app sha256_update_def Let_def)
  next
    case False
    define wanted where "wanted = min (64 - length r) (length input)"
    define block where "block = copy_into (length r) (take wanted input) (sha_buffer h)"
    have block: "take (length r + wanted) block = r @ take wanted input" "length block = 64"
      using h r by (simp_all add: block_def copy_into_def wanted_def)
    show ?thesis
    proof (cases "length r + length input < 64")
      case True
      then have w: "wanted = length input" by (simp add: wanted_def)
      show ?thesis
        using h True False len
        by (simp add: absorbed_def app as_chunks_short sha256_update_def Let_def copy_into_def)
    next
      case full: False
      then have w: "wanted = 64 - length r" using r by (simp add: wanted_def)
      then have bl: "block = r @ take wanted input" using block r by simp
      have full_len: "length r + wanted = 64" using w r by simp
      have step: "sha256_update input h =
          (let h' = h\<lparr>message_len := min u64_max (message_len h + int (length input)), sha_buffer := block,
                 sha_state := compress_software block (sha_state h), buffer_len := 0\<rparr>
           in if drop wanted input = [] then h' else update_tail (drop wanted input) h')"
        using h False r full_len
        by (simp add: sha256_update_def Let_def wanted_def [symmetric] block_def compress_blocks_def)
      have "as_chunks 64 (r @ input) = (block # fst (as_chunks 64 (drop wanted input)), snd (as_chunks 64 (drop wanted input)))"
        using as_chunks_full [of 64 block "drop wanted input"] block(2) by (simp add: bl)
      then show ?thesis
        using h False r block(2) len
        by (cases "drop wanted input = []")
          (simp_all add: absorbed_def app as_chunks_short step Let_def update_tail_fields del: drop_eq_Nil drop_eq_Nil2)
    qed
  qed
qed

lemma absorbed_updates: "absorbed bytes h \<Longrightarrow> absorbed (bytes @ concat chunks) (fold sha256_update chunks h)"
proof (induction chunks arbitrary: bytes h)
  case (Cons c chunks)
  then show ?case using Cons.IH [OF absorbed_update [OF Cons.prems, of c]] by simp
qed simp

text \<open>The reference: pad the whole message to full blocks and compress them in order.\<close>

definition padded :: "byte list \<Rightarrow> byte list" where
  "padded bytes = bytes @ [0x80] @ replicate ((119 - length bytes mod 64) mod 64) 0 @ len_be_bytes (8 * int (length bytes))"

definition sha256_digest :: "byte list \<Rightarrow> byte list" where
  "sha256_digest bytes = concat (map to_be_bytes (fold compress_software (fst (as_chunks 64 (padded bytes))) INITIAL_STATE))"

lemma as_chunks_mod: "0 < n \<Longrightarrow> length (snd (as_chunks n xs)) = length xs mod n"
proof (induction n xs rule: as_chunks.induct)
  case (1 n xs)
  then show ?case
    by (subst as_chunks.simps) (auto simp: case_prod_beta le_mod_geq not_less)
qed

lemma as_chunks_one: "0 < n \<Longrightarrow> length xs = n \<Longrightarrow> as_chunks n xs = ([xs], [])"
  using as_chunks_full [of n xs "[]"] by (simp add: as_chunks_short)

lemma len_be_bytes_length [simp]: "length (len_be_bytes n) = 8"
  by (simp add: len_be_bytes_def)

lemma padding_one_block:
  assumes "length r < 56"
  shows "fst (as_chunks 64 (r @ 0x80 # replicate ((119 - length r) mod 64) 0 @ len_be_bytes n))
    = [r @ 0x80 # replicate (55 - length r) 0 @ len_be_bytes n]"
proof -
  have "(119 - length r) mod 64 = 55 - length r" using assms by (simp add: le_mod_geq)
  then show ?thesis using assms by (simp add: as_chunks_one)
qed

lemma padding_two_blocks:
  assumes "56 \<le> length r" "length r < 64"
  shows "fst (as_chunks 64 (r @ 0x80 # replicate ((119 - length r) mod 64) 0 @ len_be_bytes n))
    = [r @ 0x80 # replicate (63 - length r) 0, replicate 56 0 @ len_be_bytes n]"
proof -
  let ?b = "r @ 0x80 # replicate (63 - length r) (0 :: byte)"
  have "(119 - length r) mod 64 = (63 - length r) + 56" using assms by simp
  then have "r @ 0x80 # replicate ((119 - length r) mod 64) 0 @ len_be_bytes n = ?b @ (replicate 56 0 @ len_be_bytes n)"
    by (simp only: replicate_add append_assoc append_Cons)
  then show ?thesis
    using as_chunks_full [of 64 ?b "replicate 56 0 @ len_be_bytes n"] assms as_chunks_one [of 64 "replicate 56 0 @ len_be_bytes n"]
    by simp
qed

lemma absorbed_finalize:
  assumes abs: "absorbed bytes h" and len: "8 * int (length bytes) \<le> u64_max"
  shows "sha256_finalize h = sha256_digest bytes"
proof -
  define r where "r = snd (as_chunks 64 bytes)"
  have r: "length r < 64" "length bytes mod 64 = length r"
    using as_chunks_rest [of 64 bytes] as_chunks_mod [of 64 bytes] by (simp_all add: r_def)
  note h = abs [unfolded absorbed_def, folded r_def]
  have bits: "min u64_max (min u64_max (int (length bytes)) * 8) = 8 * int (length bytes)" using len by simp
  have app: "fst (as_chunks 64 (padded bytes)) = fst (as_chunks 64 bytes)
      @ fst (as_chunks 64 (r @ 0x80 # replicate ((119 - length r) mod 64) 0 @ len_be_bytes (8 * int (length bytes))))"
    using as_chunks_append [of 64 bytes] by (simp add: padded_def r r_def)
  show ?thesis
  proof (cases "length r < 56")
    case True
    then show ?thesis
      using h bits
      by (simp add: sha256_digest_def app padding_one_block mult.commute [of _ 8] sha256_finalize_def copy_into_def compress_blocks_def Let_def)
  next
    case False
    then have two: "fst (as_chunks 64 (padded bytes)) = fst (as_chunks 64 bytes)
        @ [r @ 0x80 # replicate (63 - length r) 0, replicate 56 0 @ len_be_bytes (8 * int (length bytes))]"
      using r(1) by (simp only: app padding_two_blocks not_less)
    show ?thesis
      using h bits r False
      by (simp add: sha256_digest_def two mult.commute [of _ 8] sha256_finalize_def copy_into_def compress_blocks_def Let_def)
  qed
qed

lemma read_loop_all:
  "\<forall>c \<in> set chunks. c \<noteq> [] \<Longrightarrow> read_loop (map Inr chunks) h = Inr (fold sha256_update chunks h)"
  by (induction chunks arbitrary: h) auto

lemma read_loop_error: "read_loop (map Inr (filter (\<lambda>c. c \<noteq> []) chunks) @ Inl e # reads) h = Inl e"
  by (induction chunks arbitrary: h) auto


lemma streaming_whole:
  assumes "8 * int (length (concat chunks)) \<le> u64_max"
  shows "hex (sha256_finalize (fold sha256_update chunks sha256_new)) = sha256_bytes (concat chunks)"
proof -
  have all: "absorbed (concat cs) (fold sha256_update cs sha256_new)" for cs
    using absorbed_updates [OF absorbed_new, of cs] by simp
  show ?thesis
    using absorbed_finalize [OF all [of chunks]] absorbed_finalize [OF all [of "[concat chunks]"]] assms
    by (simp add: sha256_bytes_def)
qed

section \<open>Properties\<close>

text \<open>
  Claim C29. Streaming is equivalent to hashing the whole message. However the input is cut into pieces, and
  whether it comes from memory or from a reader that never fails, the hasher's block buffer and padding give the
  digest of the padded message as a whole, for every message whose bit count a \<^verbatim>\<open>u64\<close> holds; a reader whose next
  result is an error returns that error.
\<close>

theorem sha256_streaming:
  assumes "8 * int (length (concat chunks)) \<le> u64_max"
  shows "sha256_finalize (fold sha256_update chunks sha256_new) = sha256_digest (concat chunks)
    \<and> sha256_bytes (concat chunks) = hex (sha256_digest (concat chunks))
    \<and> sha256_reader (map Inr (filter (\<lambda>c. c \<noteq> []) chunks)) = Inr (sha256_bytes (concat chunks))
    \<and> sha256_reader (map Inr (filter (\<lambda>c. c \<noteq> []) chunks) @ Inl e # reads) = Inl e"
proof -
  have all: "absorbed (concat cs) (fold sha256_update cs sha256_new)" for cs
    using absorbed_updates [OF absorbed_new, of cs] by simp
  have cat: "concat (filter (\<lambda>c. c \<noteq> []) chunks) = concat chunks" by (induction chunks) auto
  have one: "sha256_finalize (sha256_update (concat chunks) sha256_new) = sha256_digest (concat chunks)"
    using absorbed_finalize [OF all [of "[concat chunks]"]] assms by simp
  show ?thesis
    using absorbed_finalize [OF all [of chunks] assms]
      absorbed_finalize [OF all [of "filter (\<lambda>c. c \<noteq> []) chunks"]] one assms
    by (simp add: sha256_reader_def sha256_bytes_def cat read_loop_all read_loop_error)
qed

theorem sha256_streaming_witness:
  "sha256_finalize (sha256_update [0x62, 0x63] (sha256_update [0x61] sha256_new)) = sha256_digest [0x61, 0x62, 0x63]
    \<and> sha256_reader [Inr [0x61], Inr [0x62, 0x63], Inl ''io''] = Inl ''io''"
proof -
  have "8 * int (length (concat [[0x61], [0x62, 0x63 :: byte]])) \<le> u64_max" by (simp add: int_width_defs)
  from sha256_streaming [OF this, of "''io''" "[]"] show ?thesis by simp blast
qed

end
