(* ===== verification/Manual_History.thy ===== *)
theory Manual_History
  imports History_Session Sha256
begin

text \<open>
  Manual admission of \<^verbatim>\<open>crates/kinewright-core/src/actor/manual_history.rs\<close>: a command of the manual producer is
  executed on the live state, its JSON history and identities are updated incrementally, the persistence codec
  encodes it, and every refusal on the way rolls the state and the cache back. The JSON that \<^verbatim>\<open>serde_json\<close> writes
  for a document, a batch, an entry and an accepted item is a parameter (\<open>None\<close> when serialization fails), as is
  the encoder; the digests are those of the hash crate. An index or an \<^verbatim>\<open>expect\<close> that panics gives \<open>None\<close>.
\<close>

section \<open>Definitions\<close>

record accepted_history =
  accepted_sequence :: int
  accepted_batch_id :: string
  accepted_digest :: string
  accepted_envelope :: "byte list"

record manual_candidate =
  candidate_document :: document
  candidate_batch :: history_batch
  before_sha256 :: string
  after_sha256 :: string
  cursor_sha256 :: string

type_synonym manual_encoder =
  "int \<Rightarrow> revision \<Rightarrow> string option \<Rightarrow> manual_candidate \<Rightarrow> history_error + accepted_history"

record json_writer =
  json_document :: "document \<Rightarrow> byte list option"
  json_batch :: "history_batch \<Rightarrow> byte list option"
  json_entry :: "history_entry \<Rightarrow> byte list option"
  json_accepted :: "accepted_history \<Rightarrow> byte list option"

definition MANUAL_COMMANDS :: nat where "MANUAL_COMMANDS = 64"
definition MANUAL_BYTES :: int where "MANUAL_BYTES = 256 * 1024"

definition manual_message_bytes :: "json_writer \<Rightarrow> accepted_history \<Rightarrow> history_error + int" where
  "manual_message_bytes W item =
     (case json_accepted W item of Some bytes \<Rightarrow> Inr (int (length bytes)) | None \<Rightarrow> Inl Capacity)"

subsection \<open>Rolling the state back\<close>

record entry_head =
  head_document :: document
  head_coalesce_key :: "string option"
  head_operations :: nat

definition entry_head_of :: "history_entry \<Rightarrow> entry_head" where
  "entry_head_of entry = \<lparr>head_document = entry_document entry, head_coalesce_key = entry_coalesce_key entry,
     head_operations = length (entry_operations entry)\<rparr>"

datatype stack_delta = EditDelta "history_entry list" | UndoDelta "string option" | RedoDelta

record candidate_delta =
  delta_document :: document
  delta_revision :: revision
  undo_len :: nat
  redo_len :: nat
  undo_top :: "entry_head option"
  redo_top :: "entry_head option"
  op_log_len :: nat
  batches_len :: nat
  delta_identity_effects :: "identity_effect list"
  stacks :: stack_delta

definition last_option :: "'a list \<Rightarrow> 'a option" where
  "last_option xs = (if xs = [] then None else Some (last xs))"

definition candidate_begin :: "command \<Rightarrow> core_state \<Rightarrow> candidate_delta \<times> core_state" where
  "candidate_begin cmd s =
     (let len = length (undo_stack s);
          delta = (case cmd of
              Undo \<Rightarrow> UndoDelta (if 2 \<le> len then entry_coalesce_key (undo_stack s ! (len - 2)) else None)
            | Redo \<Rightarrow> RedoDelta
            | _ \<Rightarrow> EditDelta (redo_stack s))
      in (\<lparr>delta_document = state_document s, delta_revision = state_revision s, undo_len = len,
           redo_len = length (redo_stack s), undo_top = map_option entry_head_of (last_option (undo_stack s)),
           redo_top = map_option entry_head_of (last_option (redo_stack s)), op_log_len = length (op_log s),
           batches_len = length (batches s), delta_identity_effects = identity_effects s, stacks = delta\<rparr>,
          (case delta of EditDelta _ \<Rightarrow> s\<lparr>redo_stack := []\<rparr> | _ \<Rightarrow> s)\<lparr>identity_effects := []\<rparr>))"

definition cache_prefixes :: "core_state \<Rightarrow> candidate_delta \<Rightarrow> nat \<times> nat" where
  "cache_prefixes s delta =
     (case stacks delta of
        EditDelta _ \<Rightarrow> (if length (undo_stack s) = undo_len delta then undo_len delta - 1 else undo_len delta, 0)
      | UndoDelta _ \<Rightarrow>
          (if length (undo_stack s) < undo_len delta then undo_len delta - 2 else undo_len delta, redo_len delta)
      | RedoDelta \<Rightarrow> (undo_len delta, length (redo_stack s)))"

definition rollback_stacks :: "candidate_delta \<Rightarrow> core_state \<Rightarrow> core_state option" where
  "rollback_stacks delta s =
     (case stacks delta of
        EditDelta taken \<Rightarrow>
          let us = take (undo_len delta) (undo_stack s);
              us = (case (us, undo_top delta) of
                  (_ # _, Some head) \<Rightarrow>
                    butlast us @ [(last us)\<lparr>entry_operations := take (head_operations head) (entry_operations (last us))\<rparr>]
                | _ \<Rightarrow> us)
          in Some (s\<lparr>undo_stack := us, redo_stack := taken\<rparr>)
      | UndoDelta exposed_key \<Rightarrow>
          if length (undo_stack s) < undo_len delta
          then (case (last_option (redo_stack s), undo_top delta) of
                  (Some entry, Some head) \<Rightarrow>
                    let us = undo_stack s;
                        us = (if us = [] then [] else butlast us @ [(last us)\<lparr>entry_coalesce_key := exposed_key\<rparr>])
                    in Some (s\<lparr>redo_stack := butlast (redo_stack s),
                         undo_stack := us @ [\<lparr>entry_document = head_document head,
                           entry_operations = entry_operations entry, entry_coalesce_key = head_coalesce_key head\<rparr>]\<rparr>)
                | _ \<Rightarrow> None)
          else Some s
      | RedoDelta \<Rightarrow>
          if length (redo_stack s) < redo_len delta
          then (case (last_option (undo_stack s), redo_top delta) of
                  (Some entry, Some head) \<Rightarrow>
                    Some (s\<lparr>undo_stack := butlast (undo_stack s),
                      redo_stack := redo_stack s @ [\<lparr>entry_document = head_document head,
                        entry_operations = entry_operations entry, entry_coalesce_key = head_coalesce_key head\<rparr>]\<rparr>)
                | _ \<Rightarrow> None)
          else Some s)"

definition candidate_rollback :: "candidate_delta \<Rightarrow> core_state \<Rightarrow> core_state option" where
  "candidate_rollback delta s =
     map_option (\<lambda>s. s\<lparr>state_document := delta_document delta, state_revision := delta_revision delta,
       op_log := take (op_log_len delta) (op_log s), batches := take (batches_len delta) (batches s),
       identity_effects := delta_identity_effects delta\<rparr>) (rollback_stacks delta s)"

subsection \<open>The cached JSON arrays\<close>

definition bounded_write :: "nat \<Rightarrow> byte list \<Rightarrow> byte list \<Rightarrow> history_error + byte list" where
  "bounded_write limit bytes piece = (if length bytes + length piece \<le> limit then Inr (bytes @ piece) else Inl Capacity)"

text \<open>\<^verbatim>\<open>serde_json::to_writer\<close> into the bounded buffer: each piece it writes is checked against the limit, so it fails
  exactly when the whole value does not fit.\<close>

definition bounded_json :: "('a \<Rightarrow> byte list option) \<Rightarrow> nat \<Rightarrow> 'a \<Rightarrow> byte list \<Rightarrow> history_error + byte list" where
  "bounded_json ser limit v bytes = (case ser v of None \<Rightarrow> Inl Capacity | Some js \<Rightarrow> bounded_write limit bytes js)"

definition bytes_of_string :: "string \<Rightarrow> byte list" where
  "bytes_of_string s = map (\<lambda>c. word_of_nat (of_char c)) s"

record json_array =
  array_bytes :: "byte list"
  array_ends :: "nat list"

record array_patch =
  patch_prefix :: nat
  patch_bytes :: "byte list"
  patch_ends :: "nat list"

definition empty_array :: json_array where "empty_array = \<lparr>array_bytes = [], array_ends = []\<rparr>"

fun tail_loop ::
    "('a \<Rightarrow> byte list option) \<Rightarrow> nat \<Rightarrow> nat \<Rightarrow> nat \<Rightarrow> 'a list \<Rightarrow> byte list \<Rightarrow> nat list \<Rightarrow> history_error + (byte list \<times> nat list)" where
  "tail_loop ser prefix start limit [] bytes ends = Inr (bytes, ends)"
| "tail_loop ser prefix start limit (v # tail) bytes ends =
     rbind (if prefix \<noteq> 0 \<or> ends \<noteq> [] then bounded_write limit bytes (bytes_of_string '','') else Inr bytes) (\<lambda>bytes.
     rbind (bounded_json ser limit v bytes) (\<lambda>bytes.
     tail_loop ser prefix start limit tail bytes (ends @ [start + length bytes])))"

definition HISTORY_LIMIT :: nat where "HISTORY_LIMIT = nat HISTORY_BYTES"

definition array_start :: "nat \<Rightarrow> json_array \<Rightarrow> nat option" where
  "array_start prefix a =
     (if prefix = 0 then Some 0 else if prefix \<le> length (array_ends a) then Some (array_ends a ! (prefix - 1)) else None)"

definition replace_tail ::
    "('a \<Rightarrow> byte list option) \<Rightarrow> nat \<Rightarrow> 'a list \<Rightarrow> json_array \<Rightarrow> (history_error + (array_patch \<times> json_array)) option" where
  "replace_tail ser prefix tail a =
     Option.bind (array_start prefix a) (\<lambda>start.
     if HISTORY_LIMIT < start then Some (Inl Capacity)
     else case tail_loop ser prefix start (HISTORY_LIMIT - start) tail [] [] of
        Inl e \<Rightarrow> Some (Inl e)
      | Inr (bytes, ends) \<Rightarrow>
          if length (array_bytes a) < start \<or> length (array_ends a) < prefix then None
          else Some (Inr (\<lparr>patch_prefix = prefix, patch_bytes = drop start (array_bytes a), patch_ends = drop prefix (array_ends a)\<rparr>,
                 \<lparr>array_bytes = take start (array_bytes a) @ bytes, array_ends = take prefix (array_ends a) @ ends\<rparr>)))"

definition array_rollback :: "array_patch \<Rightarrow> json_array \<Rightarrow> json_array option" where
  "array_rollback p a =
     map_option (\<lambda>start. \<lparr>array_bytes = take start (array_bytes a) @ patch_bytes p,
       array_ends = take (patch_prefix p) (array_ends a) @ patch_ends p\<rparr>) (array_start (patch_prefix p) a)"

subsection \<open>The cached history\<close>

record history_json =
  cache_epoch :: int
  cache_prefix :: "byte list"
  cache_batches :: json_array
  cache_undo :: json_array
  cache_redo :: json_array
  cache_sha256 :: string

record history_patch =
  patch_batches :: array_patch
  patch_undo :: array_patch
  patch_redo :: array_patch

definition cursor_pieces :: "history_json \<Rightarrow> byte list list" where
  "cursor_pieces c =
     [bytes_of_string ''{\"undo\":['', array_bytes (cache_undo c), bytes_of_string ''],\"redo\":['',
      array_bytes (cache_redo c), bytes_of_string '']}'']"

definition json_encoded_bytes :: "int \<Rightarrow> history_json \<Rightarrow> history_error + int" where
  "json_encoded_bytes document_bytes c =
     fold (\<lambda>bytes r. rbind r (\<lambda>total.
         case checked_add_u64 total bytes of
           Some n \<Rightarrow> if n \<le> HISTORY_BYTES then Inr n else Inl Capacity
         | None \<Rightarrow> Inl Capacity))
       [int (length (cache_prefix c)), document_bytes, int (length '',\"batches\":[''), int (length (array_bytes (cache_batches c))),
        int (length ''],\"cursor\":''), int (length ''{\"undo\":[''), int (length (array_bytes (cache_undo c))),
        int (length ''],\"redo\":[''), int (length (array_bytes (cache_redo c))), int (length '']}''), int (length ''}'')]
       (Inr 0)"

text \<open>The pieces \<^verbatim>\<open>write_history\<close> hands to its writer, in order; those of the cursor go to the second hasher too.\<close>

definition write_history :: "json_writer \<Rightarrow> core_state \<Rightarrow> history_json \<Rightarrow> history_error + (byte list list \<times> string)" where
  "write_history W s c =
     rbind (json_encoded_bytes 0 c) (\<lambda>fixed_bytes.
     if HISTORY_BYTES < fixed_bytes then Inl Capacity
     else rbind (bounded_json (json_document W) (nat (HISTORY_BYTES - fixed_bytes)) (state_document s) []) (\<lambda>doc.
     Inr ([cache_prefix c, doc, bytes_of_string '',\"batches\":['', array_bytes (cache_batches c),
           bytes_of_string ''],\"cursor\":''] @ cursor_pieces c @ [bytes_of_string ''}''],
          hex (sha256_finalize (fold sha256_update (cursor_pieces c) sha256_new)))))"

definition identities :: "json_writer \<Rightarrow> core_state \<Rightarrow> history_json \<Rightarrow> history_error + (string \<times> string)" where
  "identities W s c =
     rbind (write_history W s c) (\<lambda>(pieces, cursor).
     Inr (hex (sha256_finalize (fold sha256_update pieces sha256_new)), cursor))"

fun decimal :: "nat \<Rightarrow> string" where
  "decimal n = (if n < 10 then [char_of (48 + n)] else decimal (n div 10) @ [char_of (48 + n mod 10)])"

declare decimal.simps [simp del]

definition json_prefix :: "json_writer \<Rightarrow> core_state \<Rightarrow> history_error + byte list" where
  "json_prefix W s =
     rbind (bounded_write HISTORY_LIMIT [] (bytes_of_string ''{'')) (\<lambda>p.
     rbind (if floor_offset s \<noteq> 0
            then bounded_write HISTORY_LIMIT p
                   (bytes_of_string (''\"floor_offset\":'' @ decimal (nat (floor_offset s)) @ '',''))
            else Inr p) (\<lambda>p.
     rbind (bounded_write HISTORY_LIMIT p (bytes_of_string ''\"baseline\":'')) (\<lambda>p.
     rbind (bounded_json (json_document W) HISTORY_LIMIT (baseline s) p) (\<lambda>p.
     bounded_write HISTORY_LIMIT p (bytes_of_string '',\"document\":'')))))"

definition history_json_new :: "json_writer \<Rightarrow> core_state \<Rightarrow> (history_error + history_json) option" where
  "history_json_new W s =
     (if HISTORY_COMMANDS < length (batches s) then Some (Inl Capacity)
      else pbind (Some (json_prefix W s)) (\<lambda>prefix.
        let cache = \<lparr>cache_epoch = history_epoch s, cache_prefix = prefix, cache_batches = empty_array,
          cache_undo = empty_array, cache_redo = empty_array, cache_sha256 = ''''\<rparr>
        in pbind (replace_tail (json_batch W) 0 (batches s) (cache_batches cache)) (\<lambda>(_, bs).
        pbind (replace_tail (json_entry W) 0 (undo_stack s) (cache_undo cache)) (\<lambda>(_, us).
        pbind (replace_tail (json_entry W) 0 (redo_stack s) (cache_redo cache)) (\<lambda>(_, rs).
        let cache = cache\<lparr>cache_batches := bs, cache_undo := us, cache_redo := rs\<rparr>
        in pbind (Some (identities W s cache)) (\<lambda>(sha, _).
        Some (Inr (cache\<lparr>cache_sha256 := sha\<rparr>))))))))"

text \<open>\<^verbatim>\<open>update\<close> changes the cache in place and undoes its own steps when a later one fails.\<close>

definition history_json_update ::
    "json_writer \<Rightarrow> core_state \<Rightarrow> nat \<Rightarrow> nat \<Rightarrow> history_json \<Rightarrow> ((history_error + history_patch) \<times> history_json) option" where
  "history_json_update W s undo_prefix redo_prefix c =
     (if HISTORY_COMMANDS < length (batches s) then Some (Inl Capacity, c)
      else let n = length (array_ends (cache_batches c))
      in if length (batches s) < n then None
      else Option.bind (replace_tail (json_batch W) n (drop n (batches s)) (cache_batches c)) (\<lambda>r.
      case r of
        Inl e \<Rightarrow> Some (Inl e, c)
      | Inr (bp, bs) \<Rightarrow>
      if length (undo_stack s) < undo_prefix then None
      else Option.bind (replace_tail (json_entry W) undo_prefix (drop undo_prefix (undo_stack s)) (cache_undo c)) (\<lambda>r.
      case r of
        Inl e \<Rightarrow> map_option (\<lambda>bs. (Inl e, c\<lparr>cache_batches := bs\<rparr>)) (array_rollback bp bs)
      | Inr (up, us) \<Rightarrow>
      if length (redo_stack s) < redo_prefix then None
      else Option.bind (replace_tail (json_entry W) redo_prefix (drop redo_prefix (redo_stack s)) (cache_redo c)) (\<lambda>r.
      case r of
        Inl e \<Rightarrow>
          Option.bind (array_rollback up us) (\<lambda>us.
          map_option (\<lambda>bs. (Inl e, c\<lparr>cache_undo := us, cache_batches := bs\<rparr>)) (array_rollback bp bs))
      | Inr (rp, rs) \<Rightarrow>
          Some (Inr \<lparr>patch_batches = bp, patch_undo = up, patch_redo = rp\<rparr>,
            c\<lparr>cache_batches := bs, cache_undo := us, cache_redo := rs\<rparr>)))))"

definition history_json_rollback :: "history_patch \<Rightarrow> history_json \<Rightarrow> history_json option" where
  "history_json_rollback p c =
     Option.bind (array_rollback (patch_batches p) (cache_batches c)) (\<lambda>bs.
     Option.bind (array_rollback (patch_undo p) (cache_undo c)) (\<lambda>us.
     map_option (\<lambda>rs. c\<lparr>cache_batches := bs, cache_undo := us, cache_redo := rs\<rparr>)
       (array_rollback (patch_redo p) (cache_redo c))))"

subsection \<open>Admission\<close>

record manual_ingress =
  ingress_generation :: int
  ingress_encoder :: manual_encoder
  next_sequence :: int
  predecessor :: "string option"
  ingress_pending :: "accepted_history list"
  ingress_bytes :: int
  ingress_cache :: history_json

definition manual_ingress_new ::
    "json_writer \<Rightarrow> core_state \<Rightarrow> int \<Rightarrow> manual_encoder \<Rightarrow> (history_error + manual_ingress) option" where
  "manual_ingress_new W s generation encoder =
     pbind (history_json_new W s) (\<lambda>cache. Some (Inr
       \<lparr>ingress_generation = generation, ingress_encoder = encoder, next_sequence = 1, predecessor = None,
        ingress_pending = [], ingress_bytes = 0, ingress_cache = cache\<rparr>))"

fun is_journalled :: "event \<Rightarrow> bool" where
  "is_journalled (DocumentChanged _ _ _ (Some _) _) = True"
| "is_journalled _ = False"

definition admit ::
    "json_writer \<Rightarrow> core_state \<Rightarrow> revision \<Rightarrow> manual_ingress \<Rightarrow> history_error + (accepted_history \<times> int \<times> int \<times> string)" where
  "admit W s revision m =
     rbind (identities W s (ingress_cache m)) (\<lambda>(after, cursor).
     rbind (case last_option (batches s) of None \<Rightarrow> Inl Corrupt | Some b \<Rightarrow> Inr b) (\<lambda>batch.
     rbind (ingress_encoder m (next_sequence m) revision (predecessor m)
        \<lparr>candidate_document = state_document s, candidate_batch = batch, before_sha256 = cache_sha256 (ingress_cache m),
         after_sha256 = after, cursor_sha256 = cursor\<rparr>) (\<lambda>item.
     rbind (manual_message_bytes W item) (\<lambda>bytes.
     rbind (case checked_add_u64 (next_sequence m) 1 of None \<Rightarrow> Inl Capacity | Some n \<Rightarrow> Inr n) (\<lambda>next.
     if accepted_sequence item \<noteq> next_sequence m \<or> max 0 (MANUAL_BYTES - ingress_bytes m) < bytes then Inl Capacity
     else Inr (item, bytes, next, after))))))"

definition refresh_cache :: "json_writer \<Rightarrow> core_state \<Rightarrow> manual_ingress \<Rightarrow> (history_error + manual_ingress) option" where
  "refresh_cache W s m =
     (if cache_epoch (ingress_cache m) \<noteq> history_epoch s
      then pbind (history_json_new W s) (\<lambda>cache. Some (Inr (m\<lparr>ingress_cache := cache\<rparr>)))
      else Some (Inr m))"

definition finish_admission ::
    "json_writer \<Rightarrow> command \<Rightarrow> candidate_delta \<Rightarrow> event \<Rightarrow> history_patch \<Rightarrow> core_state \<Rightarrow> manual_ingress
      \<Rightarrow> (event \<times> manual_ingress \<times> core_state) option" where
  "finish_admission W cmd delta e patches s m =
     (case admit W s (delta_revision delta) m of
        Inr (item, bytes, next, after) \<Rightarrow>
          Some (e, m\<lparr>next_sequence := next, predecessor := Some (accepted_batch_id item),
            ingress_bytes := ingress_bytes m + bytes, ingress_pending := ingress_pending m @ [item],
            ingress_cache := (ingress_cache m)\<lparr>cache_sha256 := after\<rparr>\<rparr>, s)
      | Inl error \<Rightarrow>
          Option.bind (history_json_rollback patches (ingress_cache m)) (\<lambda>cache.
          map_option (\<lambda>s. (manual_refusal cmd
              (case error of MutationRefused_History reason \<Rightarrow> reason | _ \<Rightarrow> ManualBackpressure),
            m\<lparr>ingress_cache := cache\<rparr>, s)) (candidate_rollback delta s)))"

definition manual_execute ::
    "json_writer \<Rightarrow> attachment_state \<Rightarrow> command \<Rightarrow> manual_ingress \<Rightarrow> core_state
      \<Rightarrow> (event \<times> manual_ingress \<times> core_state) option" where
  "manual_execute W attachment cmd m s =
     (if is_query cmd \<or> attachment \<noteq> Live
      then map_option (\<lambda>(e, s'). (e, m, s')) (execute_actor_command attachment cmd s)
      else if MANUAL_COMMANDS \<le> length (ingress_pending m) then Some (manual_refusal cmd ManualBackpressure, m, s)
      else Option.bind (refresh_cache W s m) (\<lambda>r.
      case r of
        Inl _ \<Rightarrow> Some (manual_refusal cmd ManualBackpressure, m, s)
      | Inr m \<Rightarrow>
      let (delta, s0) = candidate_begin cmd s
      in Option.bind (execute_actor_command attachment cmd s0) (\<lambda>(e, s1).
      if \<not> is_journalled e then map_option (\<lambda>s. (e, m, s)) (candidate_rollback delta s1)
      else let (up, rp) = cache_prefixes s1 delta
      in Option.bind (history_json_update W s1 up rp (ingress_cache m)) (\<lambda>(r, cache).
      let m = m\<lparr>ingress_cache := cache\<rparr>
      in case r of
        Inl _ \<Rightarrow> map_option (\<lambda>s. (manual_refusal cmd ManualBackpressure, m, s)) (candidate_rollback delta s1)
      | Inr patches \<Rightarrow> finish_admission W cmd delta e patches s1 m))))"

end
