(* ===== verification/Core_Actor.thy ===== *)
theory Core_Actor
  imports Manual_History
begin

text \<open>
  The core actor of \<^verbatim>\<open>crates/kinewright-core/src/actor.rs\<close>: one thread owns the editing state, the persistence
  owner, the attachment state and the manual producer, and handles one message at a time. \<open>actor_step\<close> is the body
  of the loop in \<^verbatim>\<open>run_actor\<close>; it returns the reply, the events broadcast to the subscribers and the new state, or
  \<open>None\<close> when the thread panics. A reply whose receiver is gone and a subscriber that has disconnected are ignored
  by the code and have no effect on the state. A proof type is identified by a number; the shared \<^verbatim>\<open>live\<close> flag of a
  recovery is read once, so the message carries its value.
\<close>

section \<open>Definitions\<close>

record accepted_cut =
  cut_actor :: int
  cut_revision :: revision
  cut_history :: history_snapshot

record core_actor =
  actor_identity :: int
  actor_owner :: "int option"
  actor_attachment :: attachment_state
  actor_manual :: "manual_ingress option"
  manual_generation :: int
  actor_state :: core_state

datatype (plugins only: code size) core_message =
    BindManual int manual_encoder "(accepted_cut \<times> bool) option"
  | ManualCommand int command
  | ManualPending int
  | ManualAck int int "accepted_history list"
  | BindOwner int
  | QueryAttachment
  | CaptureCut int bool
  | FinishAttachment int accepted_cut bool
  | CommandMessage command
  | RequestMessage command
  | Subscribe
  | QueryChangeId
  | ExportHistory
  | BeginFloor int history_transition
  | QueryPendingFloor
  | TagFloor int int "history_save_tag option" bool
  | SettleFloor int int "pending_history_save option" bool
  | InstallFrozen int accepted_cut history_snapshot "accepted_history list" bool
  | RestoreHistory "int option" history_snapshot "history_snapshot option"

datatype (plugins only: code size) core_reply =
    GenerationReply "history_error + int"
  | PendingReply "history_error + accepted_history list"
  | UnitReply "history_error + unit"
  | CutReply "history_error + accepted_cut"
  | AttachmentReply attachment_state
  | EventReply event
  | ChangeIdReply history_change_id
  | ExportReply history_change_id history_snapshot
  | SaveReply "pending_history_save option"
  | NoReply

definition actor_new :: "int \<Rightarrow> document \<Rightarrow> revision \<Rightarrow> core_actor" where
  "actor_new identity doc revision =
     \<lparr>actor_identity = identity, actor_owner = None, actor_attachment = Live, actor_manual = None, manual_generation = 0,
      actor_state = core_state_new doc revision\<rparr>"

definition spawn_at :: "int \<Rightarrow> document \<Rightarrow> revision \<Rightarrow> op_error + core_actor" where
  "spawn_at identity doc revision = rbind (validate_document doc) (\<lambda>_. Inr (actor_new identity doc revision))"

definition authorize_attachment :: "attachment_state \<Rightarrow> int option \<Rightarrow> int option \<Rightarrow> history_error + unit" where
  "authorize_attachment attachment owner requested =
     (if attachment = Sealed then Inl (MutationRefused_History SealedRefusal)
      else if owner = None \<or> owner \<noteq> requested then Inl (MutationRefused_History OwnerRequired)
      else Inr ())"

definition authorized :: "int \<Rightarrow> core_actor \<Rightarrow> history_error + unit" where
  "authorized requested a = authorize_attachment (actor_attachment a) (actor_owner a) (Some requested)"

definition current_cut :: "core_actor \<Rightarrow> accepted_cut" where
  "current_cut a = \<lparr>cut_actor = actor_identity a, cut_revision = state_revision (actor_state a),
     cut_history = history (actor_state a)\<rparr>"

definition changed_event :: "core_state \<Rightarrow> event" where
  "changed_event s = DocumentChanged (state_document s) (state_revision s) None None None"

subsection \<open>The manual producer\<close>

definition bind_manual ::
    "json_writer \<Rightarrow> int \<Rightarrow> manual_encoder \<Rightarrow> (accepted_cut \<times> bool) option \<Rightarrow> core_actor
      \<Rightarrow> ((history_error + int) \<times> core_actor) option" where
  "bind_manual W requested encoder recovery a =
     (case authorized requested a of
        Inl e \<Rightarrow> Some (Inl e, a)
      | Inr _ \<Rightarrow>
          let s = actor_state a;
              valid_state = (case recovery of
                  Some (given, live) \<Rightarrow> actor_attachment a = Frozen \<and> live \<and> given = current_cut a
                | None \<Rightarrow> actor_attachment a = Live)
          in if \<not> valid_state
                \<or> (case actor_manual a of Some m \<Rightarrow> ingress_pending m \<noteq> [] | None \<Rightarrow> False)
                \<or> state_pending_floor s \<noteq> None
             then Some (Inl BarrierInvariant, a)
             else (case checked_add_u64 (manual_generation a) 1 of
                None \<Rightarrow> Some (Inl Capacity, a)
              | Some generation \<Rightarrow>
                  (case manual_ingress_new W s generation encoder of
                     None \<Rightarrow> None
                   | Some (Inl e) \<Rightarrow> Some (Inl e, a)
                   | Some (Inr ingress) \<Rightarrow> Some (Inr generation, a\<lparr>manual_generation := generation,
                       actor_manual := Some ingress, actor_attachment := Live\<rparr>))))"

definition manual_at :: "int \<Rightarrow> core_actor \<Rightarrow> manual_ingress option" where
  "manual_at generation a =
     (case actor_manual a of Some m \<Rightarrow> if generation = ingress_generation m then Some m else None | None \<Rightarrow> None)"

definition manual_pending :: "int \<Rightarrow> core_actor \<Rightarrow> history_error + accepted_history list" where
  "manual_pending generation a =
     (case manual_at generation a of Some m \<Rightarrow> Inr (ingress_pending m) | None \<Rightarrow> Inl BarrierInvariant)"

fun ack_loop :: "json_writer \<Rightarrow> accepted_history list \<Rightarrow> manual_ingress \<Rightarrow> ((history_error + unit) \<times> manual_ingress) option" where
  "ack_loop W [] m = Some (Inr (), m)"
| "ack_loop W (_ # rest) m =
     (case ingress_pending m of
        [] \<Rightarrow> Some (Inl BarrierInvariant, m)
      | item # pending \<Rightarrow>
          (case manual_message_bytes W item of
             Inl e \<Rightarrow> Some (Inl e, m\<lparr>ingress_pending := pending\<rparr>)
           | Inr bytes \<Rightarrow>
               if ingress_bytes m < bytes then None
               else ack_loop W rest (m\<lparr>ingress_pending := pending, ingress_bytes := ingress_bytes m - bytes\<rparr>)))"

definition manual_ack ::
    "json_writer \<Rightarrow> int \<Rightarrow> int \<Rightarrow> accepted_history list \<Rightarrow> core_actor \<Rightarrow> ((history_error + unit) \<times> core_actor) option" where
  "manual_ack W requested generation prefix a =
     (case manual_at generation a of
        None \<Rightarrow> Some (Inl BarrierInvariant, a)
      | Some m \<Rightarrow>
          if actor_owner a \<noteq> Some requested then Some (Inl BarrierInvariant, a)
          else if length (ingress_pending m) < length prefix \<or> \<not> list_all (\<lambda>(x, y). x = y) (zip prefix (ingress_pending m))
          then Some (Inl BarrierInvariant, a)
          else map_option (\<lambda>(r, m). (r, a\<lparr>actor_manual := Some m\<rparr>)) (ack_loop W prefix m))"

definition manual_command :: "json_writer \<Rightarrow> int \<Rightarrow> command \<Rightarrow> core_actor \<Rightarrow> (event \<times> core_actor) option" where
  "manual_command W generation cmd a =
     (case manual_at generation a of
        Some m \<Rightarrow>
          map_option (\<lambda>(e, m, s). (e, a\<lparr>actor_manual := Some m, actor_state := s\<rparr>))
            (manual_execute W (actor_attachment a) cmd m (actor_state a))
      | None \<Rightarrow> Some (manual_refusal cmd ManualPermitRequired, a))"

definition plain_command :: "command \<Rightarrow> core_actor \<Rightarrow> (event \<times> core_actor) option" where
  "plain_command cmd a =
     (if actor_manual a \<noteq> None \<and> \<not> is_query cmd then Some (manual_refusal cmd ManualPermitRequired, a)
      else map_option (\<lambda>(e, s). (e, a\<lparr>actor_state := s\<rparr>))
             (execute_actor_command (actor_attachment a) cmd (actor_state a)))"

subsection \<open>The persistence owner\<close>

definition bind_owner :: "int \<Rightarrow> core_actor \<Rightarrow> (history_error + unit) \<times> core_actor" where
  "bind_owner requested a =
     (if actor_owner a = None \<or> actor_owner a = Some requested then (Inr (), a\<lparr>actor_owner := Some requested\<rparr>)
      else (Inl BarrierInvariant, a))"

definition capture_cut :: "int \<Rightarrow> bool \<Rightarrow> core_actor \<Rightarrow> (history_error + accepted_cut) \<times> core_actor" where
  "capture_cut requested freeze a =
     (case authorized requested a of
        Inl e \<Rightarrow> (Inl e, a)
      | Inr _ \<Rightarrow> (Inr (current_cut a), if freeze then a\<lparr>actor_attachment := Frozen\<rparr> else a))"

definition finish_attachment :: "int \<Rightarrow> accepted_cut \<Rightarrow> bool \<Rightarrow> core_actor \<Rightarrow> (history_error + unit) \<times> core_actor" where
  "finish_attachment requested given seal a =
     (case authorized requested a of
        Inl e \<Rightarrow> (Inl e, a)
      | Inr _ \<Rightarrow>
          if given \<noteq> current_cut a then (Inl CaptureChanged, a)
          else if actor_attachment a \<noteq> Frozen then (Inl BarrierInvariant, a)
          else (Inr (), a\<lparr>actor_attachment := if seal then Sealed else Live\<rparr>))"

definition tag_pending :: "int \<Rightarrow> int \<Rightarrow> history_save_tag option \<Rightarrow> bool \<Rightarrow> core_actor \<Rightarrow> (history_error + unit) \<times> core_actor" where
  "tag_pending requested i tag ready a =
     (case authorized requested a of
        Inl e \<Rightarrow> (Inl e, a)
      | Inr _ \<Rightarrow> let (r, s) = tag_floor i tag ready (actor_state a) in (r, a\<lparr>actor_state := s\<rparr>))"

definition begin_pending :: "int \<Rightarrow> history_transition \<Rightarrow> core_actor \<Rightarrow> ((history_error + int) \<times> core_actor) option" where
  "begin_pending requested transition a =
     (case authorized requested a of
        Inl e \<Rightarrow> Some (Inl e, a)
      | Inr _ \<Rightarrow>
          if actor_manual a \<noteq> None then Some (Inl (MutationRefused_History ManualPermitRequired), a)
          else case begin_floor (actor_identity a) transition (actor_state a) of
              None \<Rightarrow> None
            | Some (Inl e) \<Rightarrow> Some (Inl e, a)
            | Some (Inr (i, s)) \<Rightarrow> Some (Inr i, a\<lparr>actor_state := s\<rparr>))"

definition settle_pending ::
    "int \<Rightarrow> int \<Rightarrow> pending_history_save option \<Rightarrow> bool \<Rightarrow> core_actor
      \<Rightarrow> ((history_error + unit) \<times> event list \<times> core_actor) option" where
  "settle_pending requested offset expected commit a =
     (let s = actor_state a;
          present = (case state_pending_floor s of Some p \<Rightarrow> save_id (floor_save p) = offset | None \<Rightarrow> False)
      in case authorized requested a of
        Inl e \<Rightarrow> Some (Inl e, [], a)
      | Inr _ \<Rightarrow>
          if (case expected of
                Some save \<Rightarrow> save_actor save \<noteq> actor_identity a \<or> map_option floor_save (state_pending_floor s) \<noteq> Some save
              | None \<Rightarrow> False)
          then Some (Inl BarrierInvariant, [], a)
          else map_option (\<lambda>(r, s').
                 (r, if r = Inr () \<and> commit \<and> present then [changed_event s'] else [], a\<lparr>actor_state := s'\<rparr>))
               (settle_floor offset commit s))"

subsection \<open>Installing a history\<close>

text \<open>A frozen installation accepts the exact cut, its legal floor, or the recovery close of that floor.\<close>

definition legal_transition ::
    "(history_snapshot \<Rightarrow> int option) \<Rightarrow> history_snapshot \<Rightarrow> history_snapshot \<Rightarrow> (history_error + unit) option" where
  "legal_transition json_len before after =
     (if snap_floor_offset after < snap_floor_offset before then Some (Inl Corrupt)
      else let discard = nat (snap_floor_offset after - snap_floor_offset before)
      in pbind (if discard = 0 then Some (Inr before)
                else pbind (transition_floor before discard) (\<lambda>t. Some (Inr (transition_after t)))) (\<lambda>floored.
         if floored = after then Some (Inr ())
         else pbind (recovery_close json_len floored floored) (\<lambda>close.
              if transition_after close \<noteq> after then Some (Inl Corrupt) else Some (Inr ()))))"

definition install_frozen ::
    "(history_snapshot \<Rightarrow> int option) \<Rightarrow> int \<Rightarrow> accepted_cut \<Rightarrow> history_snapshot \<Rightarrow> accepted_history list \<Rightarrow> bool
      \<Rightarrow> core_actor \<Rightarrow> (history_error + core_actor) option" where
  "install_frozen json_len requested given after pending checkpoint a =
     pbind (Some (authorized requested a)) (\<lambda>_.
     if actor_attachment a \<noteq> Frozen \<or> given \<noteq> current_cut a \<or> state_pending_floor (actor_state a) \<noteq> None
        \<or> (case actor_manual a of None \<Rightarrow> pending \<noteq> [] | Some m \<Rightarrow> ingress_pending m \<noteq> pending)
     then Some (Inl CaptureChanged)
     else if checkpoint \<and> (actor_manual a \<noteq> None \<or> pending \<noteq> []) then Some (Inl CaptureChanged)
     else pbind (if checkpoint then Some (Inr ()) else legal_transition json_len (cut_history given) after) (\<lambda>_.
     pbind (restore after) (\<lambda>candidate.
     pbind (Some (adopt_candidate candidate (actor_state a))) (\<lambda>s.
     Some (Inr (a\<lparr>actor_state := s, actor_manual := None\<rparr>))))))"

definition restore_history ::
    "int option \<Rightarrow> history_snapshot \<Rightarrow> history_snapshot option \<Rightarrow> core_actor \<Rightarrow> (history_error + core_actor) option" where
  "restore_history requested h expected a =
     (let s = actor_state a
      in pbind
        (if actor_attachment a = Sealed then Some (Inl (MutationRefused_History SealedRefusal))
         else if actor_attachment a = Frozen then Some (Inl (MutationRefused_History FrozenRefusal))
         else if actor_manual a \<noteq> None then Some (Inl (MutationRefused_History ManualPermitRequired))
         else if state_pending_floor s \<noteq> None then Some (Inl SaveInProgress)
         else if actor_owner a \<noteq> None \<and> actor_owner a \<noteq> requested then Some (Inl (MutationRefused_History OwnerRequired))
         else if (case expected of Some before \<Rightarrow> history s \<noteq> before | None \<Rightarrow> False) then Some (Inl Corrupt)
         else restore h) (\<lambda>candidate.
      pbind (Some (adopt_candidate candidate s)) (\<lambda>s'. Some (Inr (a\<lparr>actor_state := s'\<rparr>)))))"

subsection \<open>One message\<close>

fun actor_step ::
    "json_writer \<Rightarrow> (history_snapshot \<Rightarrow> int option) \<Rightarrow> core_message \<Rightarrow> core_actor
      \<Rightarrow> (core_reply \<times> event list \<times> core_actor) option" where
  "actor_step W J (BindManual requested encoder recovery) a =
     map_option (\<lambda>(r, a). (GenerationReply r, [], a)) (bind_manual W requested encoder recovery a)"
| "actor_step W J (ManualPending generation) a = Some (PendingReply (manual_pending generation a), [], a)"
| "actor_step W J (ManualAck requested generation prefix) a =
     map_option (\<lambda>(r, a). (UnitReply r, [], a)) (manual_ack W requested generation prefix a)"
| "actor_step W J (ManualCommand generation cmd) a =
     map_option (\<lambda>(e, a). (EventReply e, [e], a)) (manual_command W generation cmd a)"
| "actor_step W J (BindOwner requested) a = (let (r, a) = bind_owner requested a in Some (UnitReply r, [], a))"
| "actor_step W J QueryAttachment a = Some (AttachmentReply (actor_attachment a), [], a)"
| "actor_step W J (CaptureCut requested freeze) a =
     (let (r, a) = capture_cut requested freeze a in Some (CutReply r, [], a))"
| "actor_step W J (FinishAttachment requested given seal) a =
     (let (r, a) = finish_attachment requested given seal a in Some (UnitReply r, [], a))"
| "actor_step W J QueryPendingFloor a =
     Some (SaveReply (map_option floor_save (state_pending_floor (actor_state a))), [], a)"
| "actor_step W J (TagFloor requested i tag ready) a =
     (let (r, a) = tag_pending requested i tag ready a in Some (UnitReply r, [], a))"
| "actor_step W J (BeginFloor requested transition) a =
     map_option (\<lambda>(r, a). (GenerationReply r, [], a)) (begin_pending requested transition a)"
| "actor_step W J (SettleFloor requested offset expected commit) a =
     map_option (\<lambda>(r, events, a). (UnitReply r, events, a)) (settle_pending requested offset expected commit a)"
| "actor_step W J QueryChangeId a = Some (ChangeIdReply (history_change_id_of (actor_state a)), [], a)"
| "actor_step W J ExportHistory a =
     Some (ExportReply (history_change_id_of (actor_state a)) (history (actor_state a)), [], a)"
| "actor_step W J (InstallFrozen requested given after pending checkpoint) a =
     (case install_frozen J requested given after pending checkpoint a of
        None \<Rightarrow> None
      | Some (Inl e) \<Rightarrow> Some (CutReply (Inl e), [], a)
      | Some (Inr a') \<Rightarrow> Some (CutReply (Inr (current_cut a')), [changed_event (actor_state a')], a'))"
| "actor_step W J (RestoreHistory requested h expected) a =
     (case restore_history requested h expected a of
        None \<Rightarrow> None
      | Some (Inl e) \<Rightarrow> Some (UnitReply (Inl e), [], a)
      | Some (Inr a') \<Rightarrow> Some (UnitReply (Inr ()), [changed_event (actor_state a')], a'))"
| "actor_step W J Subscribe a = Some (EventReply (changed_event (actor_state a)), [], a)"
| "actor_step W J (CommandMessage cmd) a =
     map_option (\<lambda>(e, a). (NoReply, [e], a)) (plain_command cmd a)"
| "actor_step W J (RequestMessage cmd) a =
     map_option (\<lambda>(e, a). (EventReply e, [e], a)) (plain_command cmd a)"

end
