(* ===== verification/History_Props.thy ===== *)
theory History_Props
  imports History_Session
begin

text \<open>
  What the editing history guarantees: it is a cursor on a timeline of valid documents, export and restore are
  inverse, a pending save can always be committed, and the change identity names one history.
\<close>

section \<open>Properties\<close>

subsection \<open>A history is a cursor on a timeline\<close>

record timeline =
  docs :: "document list"
  at :: nat

definition timeline_of :: "core_state \<Rightarrow> timeline" where
  "timeline_of s = \<lparr>docs = map entry_document (undo_stack s) @ state_document s # rev (map entry_document (redo_stack s)),
     at = length (undo_stack s)\<rparr>"

definition timeline_undo :: "timeline \<Rightarrow> timeline" where
  "timeline_undo t = t\<lparr>at := at t - 1\<rparr>"

definition timeline_redo :: "timeline \<Rightarrow> timeline" where
  "timeline_redo t = (if at t + 1 < length (docs t) then t\<lparr>at := at t + 1\<rparr> else t)"

definition timeline_push :: "document \<Rightarrow> timeline \<Rightarrow> timeline" where
  "timeline_push d t = \<lparr>docs = take (at t + 1) (docs t) @ [d], at = at t + 1\<rparr>"

definition timeline_replace :: "document \<Rightarrow> timeline \<Rightarrow> timeline" where
  "timeline_replace d t = \<lparr>docs = take (at t) (docs t) @ [d], at = at t\<rparr>"

definition gesture_open :: "string \<Rightarrow> core_state \<Rightarrow> bool" where
  "gesture_open key s \<longleftrightarrow> undo_stack s \<noteq> [] \<and> entry_coalesce_key (last (undo_stack s)) = Some key"

definition timeline_edit :: "command \<Rightarrow> core_state \<Rightarrow> document \<Rightarrow> timeline \<Rightarrow> timeline" where
  "timeline_edit cmd s = (case cmd of DoBatchCoalesced _ key \<Rightarrow>
     if gesture_open key s then timeline_replace else timeline_push | _ \<Rightarrow> timeline_push)"

lemma timeline_after_edit:
  assumes "command_edit cmd = Some j"
  shows "timeline_of (after_edit j after effs s) = timeline_edit cmd s after (timeline_of s)"
proof (cases "undo_stack s" rule: rev_cases)
  case Nil
  then show ?thesis using assms
    by (cases cmd) (auto simp: timeline_of_def after_edit_def log_batch_def timeline_edit_def timeline_push_def gesture_open_def
        coalesce_def)
next
  case (snoc ys y)
  then show ?thesis using assms
    by (cases cmd) (auto simp: timeline_of_def after_edit_def log_batch_def timeline_edit_def timeline_push_def
        timeline_replace_def gesture_open_def coalesce_def)
qed

lemma close_documents [simp]: "map entry_document (close_gesture st) = map entry_document st"
  by (cases st rule: rev_cases) (simp_all add: close_gesture_def)

lemma timeline_after_undo: "timeline_of (after_undo s) = timeline_undo (timeline_of s)"
  by (cases "undo_stack s" rule: rev_cases) (simp_all add: timeline_of_def after_undo_def log_batch_def timeline_undo_def)

lemma timeline_after_redo: "timeline_of (after_redo s) = timeline_redo (timeline_of s)"
  by (cases "redo_stack s" rule: rev_cases) (simp_all add: timeline_of_def after_redo_def log_batch_def timeline_redo_def)

text \<open>
  Claim C4. The undo and redo stacks implement a cursor on a list of documents: undo and redo only move the
  cursor and lose nothing, an accepted edit drops what lay ahead and appends the new document, an edit of the
  gesture that is open replaces the newest document instead, and a refused command or a query changes nothing.
\<close>

theorem commands_move_the_timeline:
  assumes "execute_command cmd s = Some (e, s')"
  shows "timeline_of s' = (case cmd of
      Undo \<Rightarrow> timeline_undo (timeline_of s)
    | Redo \<Rightarrow> timeline_redo (timeline_of s)
    | _ \<Rightarrow> if is_document_changed e then timeline_edit cmd s (state_document s') (timeline_of s) else timeline_of s)"
  using assms
proof (cases rule: execute_command_cases)
  case same
  then show ?thesis by (cases cmd) (simp_all add: timeline_of_def)
next
  case (edit j after effs)
  have "state_document s' = after" by (simp add: edit(3) after_edit_def log_batch_def)
  then show ?thesis using timeline_after_edit [OF edit(1), of after effs s] edit by (cases cmd) simp_all
qed (simp_all add: timeline_after_undo timeline_after_redo)

definition sample_edit :: operation where
  "sample_edit = AddMarker \<lparr>marker_id = 1, marker_position = 0, marker_label = ''m'', marker_color_token = 0\<rparr>"

definition sample_command :: command where
  "sample_command = DoBatchCoalesced [sample_edit] ''drag''"

lemma document_default_valid: "validate_document document_default = Inr ()"
  by code_simp

lemma sample_accepted: "case execute_command sample_command (core_state_new document_default 0) of
    Some (e, s) \<Rightarrow> is_document_changed e | None \<Rightarrow> False"
  by code_simp

theorem commands_move_the_timeline_witness:
  "\<exists>e s. execute_command sample_command (core_state_new document_default 0) = Some (e, s)
    \<and> timeline_of s = timeline_push (state_document s) (timeline_of (core_state_new document_default 0))"
proof -
  from sample_accepted obtain e s where x: "execute_command sample_command (core_state_new document_default 0) = Some (e, s)"
    "is_document_changed e" by (auto split: option.splits)
  have "\<not> gesture_open ''drag'' (core_state_new document_default 0)" by (simp add: gesture_open_def core_state_new_def)
  then show ?thesis
    using commands_move_the_timeline [OF x(1)] x by (simp add: sample_command_def timeline_edit_def)
qed

subsection \<open>Sound sessions\<close>

lemma fold_operation_apply: "valid_document d \<Longrightarrow> fold_res operation_apply ops d = fold_res apply_step ops d"
proof (induction ops arbitrary: d)
  case (Cons op ops)
  then show ?case
    using apply_step_valid [of op d] by (cases "apply_step op d") (simp_all add: operation_apply_valid)
qed simp

lemma future_linked_run:
  "future_linked step d es \<Longrightarrow> fold_res step (concat (map snd es)) d = Inr (last (d # map fst es))"
  by (induction es arbitrary: d) (auto simp: fold_res_append)

text \<open>
  Claim C1. In every session, whatever edits, undos, redos, saves and restores it went through, every document
  the history holds is valid, the operations on the undo stack applied through the public entry point lead
  from the baseline to the current document, and those on the redo stack lead from there to the newest one.
\<close>

theorem session_history_sound:
  assumes "session s"
  shows "list_all valid_document (docs (timeline_of s))
    \<and> fold_res operation_apply (concat (map entry_operations (undo_stack s))) (baseline s) = Inr (state_document s)
    \<and> fold_res operation_apply (concat (map entry_operations (rev (redo_stack s)))) (state_document s)
      = Inr (last (docs (timeline_of s)))"
proof -
  have l: "history_linked s" using session_invariant [OF assms] by (simp add: session_ok_def)
  note v = linked_valid [OF l]
  have b: "valid_document (baseline s)" using l by (simp add: history_linked_def)
  have "map snd (rev (map entry_pair (redo_stack s))) = map entry_operations (rev (redo_stack s))"
    "map fst (rev (map entry_pair (redo_stack s))) = rev (map entry_document (redo_stack s))"
    by (simp_all add: entry_pair_def rev_map)
  then have "fold_res apply_step (concat (map entry_operations (rev (redo_stack s)))) (state_document s)
      = Inr (last (docs (timeline_of s)))"
    using future_linked_run [of apply_step "state_document s" "rev (map entry_pair (redo_stack s))"] l
    by (simp add: history_linked_def timeline_of_def del: map_map)
  then show ?thesis
    using v fold_operation_apply [OF b] fold_operation_apply [OF v(1)] by (auto simp: timeline_of_def list_all_iff)
qed

lemma sample_session: "session (core_state_new document_default 0)"
  by (rule session.start) (simp_all add: valid_document_def document_default_valid int_width_defs)

lemma sample_edited:
  obtains e s where "execute_command sample_command (core_state_new document_default 0) = Some (e, s)" "session s"
    "is_document_changed e"
proof -
  from sample_accepted obtain e s where x: "execute_command sample_command (core_state_new document_default 0) = Some (e, s)"
    "is_document_changed e" by (auto split: option.splits)
  have "execute_actor_command Live sample_command (core_state_new document_default 0) = Some (e, s)"
    using x by (simp add: execute_actor_command_def sample_command_def core_state_new_def)
  moreover have "batches_fit s" using execute_frame(7) [OF x(1)] x(2) by (auto simp: batches_fit_def core_state_new_def int_width_defs)
  ultimately show ?thesis using that [OF x(1) _ x(2)] session.step [OF sample_session session_step.command] by blast
qed

theorem session_history_sound_witness:
  "\<exists>e s. execute_command sample_command (core_state_new document_default 0) = Some (e, s)
    \<and> fold_res operation_apply (concat (map entry_operations (undo_stack s))) (baseline s) = Inr (state_document s)"
  using sample_edited session_history_sound by metis

text \<open>
  Claim C5. Export and restore are inverse: the history exported from any session restores, by replaying its
  journal in a fresh actor, to a state with exactly the same history, stacks and document, so a saved session
  is never refused as corrupt.
\<close>

theorem restore_export_roundtrip:
  assumes "session s"
  shows "\<exists>c. restore (history s) = Some (Inr c) \<and> history c = history s \<and> undo_stack c = undo_stack s
    \<and> redo_stack c = redo_stack s \<and> state_document c = state_document s"
proof -
  have ok: "session_ok s" by (rule session_invariant [OF assms])
  then obtain c where c: "replay_batches (batches s) (core_state_new (baseline s) 0) = Some (Inr c)" "follows 0 c s"
    "batches c = batches s" by (auto simp: session_ok_def journal_replays_def)
  have "baseline c = baseline s" using replay_frame(1) [OF c(1)] by (simp add: core_state_new_def)
  then have "history (c\<lparr>floor_offset := floor_offset s\<rparr>) = history s"
    using c(2,3) by (auto simp: history_def follows_def)
  moreover have "validate_document (baseline s) = Inr ()"
    using ok by (simp add: session_ok_def history_linked_def valid_document_def)
  ultimately have "restore (history s) = Some (Inr (c\<lparr>floor_offset := floor_offset s\<rparr>))"
    using c(1) by (simp add: restore_def history_def pbind_def Let_def)
  then show ?thesis using c(2) \<open>history (c\<lparr>floor_offset := floor_offset s\<rparr>) = history s\<close> by (auto simp: follows_def)
qed

theorem restore_export_roundtrip_witness:
  "\<exists>e s c. execute_command sample_command (core_state_new document_default 0) = Some (e, s)
    \<and> restore (history s) = Some (Inr c) \<and> history c = history s"
  using sample_edited restore_export_roundtrip by metis

subsection \<open>Saving\<close>

text \<open>
  Claim C10. A save can always be committed: while a floor is pending, whatever was edited, undone or redone
  since it was taken, committing it replays the journal behind the floor to the very state the actor is in, so
  the commit is never refused as corrupt; it drops exactly the protected prefix of the undo stack and keeps
  the document, the rest of the undo stack and the redo stack.
\<close>

theorem pending_save_commits:
  assumes s: "session s" and p: "state_pending_floor s = Some p"
    and room: "in_u64 (state_revision s + 1)" "in_u64 (history_epoch s + 1)"
  shows "\<exists>s'. settle_floor (save_id (floor_save p)) True s = Some (Inr (), s') \<and> state_pending_floor s' = None
    \<and> state_document s' = state_document s \<and> undo_stack s' = drop (floor_depth p) (undo_stack s)
    \<and> redo_stack s' = redo_stack s \<and> floor_offset s' = floor_target p \<and> baseline s' = floor_baseline p
    \<and> length (batches s') = length (batches s) - floor_discard p"
proof -
  have "floor_replays p s" using session_invariant [OF s] p by (simp add: session_ok_def)
  then obtain c where n: "floor_discard p \<le> length (batches s)"
    and c: "replay_batches (drop (floor_discard p) (batches s)) (floor_start p) = Some (Inr c)"
    and f: "follows (floor_depth p) c s" by (auto simp: floor_replays_def)
  define s' where "s' = c\<lparr>state_revision := state_revision s + 1, next_floor_id := next_floor_id s,
    history_epoch := history_epoch s + 1\<rparr>"
  from f have undo: "undo_stack c = drop (floor_depth p) (undo_stack s)" "floor_depth p \<le> length (undo_stack s)"
    by (auto simp: follows_def)
  have "commit_floor p s = Some (Inr s')"
    using n c f undo room by (simp add: commit_floor_def floor_start_def [symmetric] pbind_def follows_def checked_add_u64_def s'_def)
  then have "settle_floor (save_id (floor_save p)) True s = Some (Inr (), s')"
    using p by (simp add: settle_floor_def)
  then show ?thesis
    using undo f replay_frame(1,2,3,6) [OF c] n
    by (intro exI [of _ s']) (simp add: s'_def follows_def floor_start_def core_state_new_def)
qed

text \<open>One edit, saved: the floor is taken behind it and pending.\<close>

definition sample_save :: "(core_state \<times> history_transition \<times> int \<times> core_state) option" where
  "sample_save = (case execute_command (Do sample_edit) (core_state_new document_default 0) of
     None \<Rightarrow> None
   | Some (e, s) \<Rightarrow> (case transition_floor (history s) 1 of
       Some (Inr t) \<Rightarrow> (case begin_floor 1 t s of Some (Inr (i, s')) \<Rightarrow> Some (s, t, i, s') | _ \<Rightarrow> None)
     | _ \<Rightarrow> None))"

lemma sample_save_ok: "case sample_save of Some (_, _, _, s) \<Rightarrow> state_revision s = 1 \<and> history_epoch s = 0 | None \<Rightarrow> False"
  by code_simp

lemma sample_save_session:
  obtains s p where "session s" "state_pending_floor s = Some p" "state_revision s = 1" "history_epoch s = 0"
proof -
  from sample_save_ok obtain s t i s' where ss: "sample_save = Some (s, t, i, s')" and r: "state_revision s' = 1" "history_epoch s' = 0"
    by (auto split: option.splits)
  then obtain e where x: "execute_command (Do sample_edit) (core_state_new document_default 0) = Some (e, s)"
    and t: "transition_floor (history s) 1 = Some (Inr t)" and b: "begin_floor 1 t s = Some (Inr (i, s'))"
    by (auto simp: sample_save_def split: option.splits sum.splits prod.splits)
  have "execute_actor_command Live (Do sample_edit) (core_state_new document_default 0) = Some (e, s)"
    using x by (simp add: execute_actor_command_def core_state_new_def)
  moreover have "batches_fit s"
    using execute_frame(7) [OF x] by (auto simp: batches_fit_def core_state_new_def int_width_defs split: if_splits)
  ultimately have "session s" using session.step [OF sample_session session_step.command] by blast
  moreover have "floor_transition t" using t by (auto simp: floor_transition_def)
  ultimately have "session s'" using session.step session_step.begin_floor [OF _ b] by blast
  moreover obtain p where "state_pending_floor s' = Some p"
    using b by (auto simp: begin_floor_def Let_def split: option.splits if_splits)
  ultimately show ?thesis using that r by blast
qed

theorem pending_save_commits_witness:
  "\<exists>s p s'. state_pending_floor s = Some p \<and> settle_floor (save_id (floor_save p)) True s = Some (Inr (), s')
    \<and> undo_stack s' = drop (floor_depth p) (undo_stack s)"
proof -
  obtain s p where s: "session s" "state_pending_floor s = Some p" "state_revision s = 1" "history_epoch s = 0"
    by (rule sample_save_session)
  then have "in_u64 (state_revision s + 1)" "in_u64 (history_epoch s + 1)" by (simp_all add: int_width_defs)
  from pending_save_commits [OF s(1,2) this] s(2) show ?thesis by blast
qed

subsection \<open>Change identities\<close>

text \<open>The order change identities grow in: the revision first, then the number of batches.\<close>

definition change_before :: "history_change_id \<Rightarrow> history_change_id \<Rightarrow> bool" where
  "change_before a b \<longleftrightarrow> change_revision a < change_revision b
     \<or> (change_revision a = change_revision b \<and> change_batch_count a < change_batch_count b)"

lemma change_before_trans: "change_before a b \<Longrightarrow> change_before b c \<Longrightarrow> change_before a c"
  by (auto simp: change_before_def)

lemma change_step:
  assumes "session_step s s'"
  shows "change_before (history_change_id_of s) (history_change_id_of s')
    \<or> (history_change_id_of s' = history_change_id_of s \<and> history s' = history s)"
  using assms
proof (cases rule: session_step.cases)
  case (command attachment cmd e)
  from command(1) show ?thesis
  proof (cases rule: execute_actor_command_cases)
    case executed
    from executed(1) show ?thesis
      by (cases rule: execute_command_cases)
        (auto simp: change_before_def history_change_id_of_def after_revision history_def)
  qed simp
next
  case (begin_floor t actor i)
  then show ?thesis
    by (auto simp: begin_floor_def Let_def history_change_id_of_def history_def split: option.splits if_splits)
next
  case (tag_floor i tag ready r)
  then show ?thesis
    by (auto simp: tag_floor_def Let_def history_change_id_of_def history_def split: option.splits if_splits)
next
  case (settle_floor i commit r)
  then have "s' = s \<or> s' = s\<lparr>state_pending_floor := None\<rparr>
    \<or> (\<exists>p. state_pending_floor s = Some p \<and> commit_floor p s = Some (Inr s'))"
    by (auto simp: settle_floor_def split: if_splits option.splits sum.splits)
  then show ?thesis
    by (elim disjE exE conjE)
      (auto simp: history_change_id_of_def history_def change_before_def elim!: commit_floor_InrD)
next
  case (restore h c)
  then show ?thesis
    by (auto simp: adopt_candidate_def checked_add_u64_def change_before_def history_change_id_of_def split: option.splits if_splits)
qed

lemma change_steps:
  assumes "session_step\<^sup>*\<^sup>* s s'"
  shows "change_before (history_change_id_of s) (history_change_id_of s')
    \<or> (history_change_id_of s' = history_change_id_of s \<and> history s' = history s)"
  using assms by (induction rule: rtranclp_induct) (auto dest!: change_step intro: change_before_trans)

text \<open>
  Claim C13. The constant-size change identity never lies: in one session two moments with the same identity
  have the same complete history, although empty undos leave the revision alone and committed floors shorten
  the journal. A truncation can therefore not reuse an identity a reader still holds.
\<close>

theorem change_identity_sound:
  assumes "session_step\<^sup>*\<^sup>* s s'" "history_change_id_of s' = history_change_id_of s"
  shows "history s' = history s"
  using change_steps [OF assms(1)] assms(2) by (auto simp: change_before_def)

theorem change_identity_sound_witness:
  "history (core_state_new document_default 0) = history (core_state_new document_default 0)
    \<and> session_step (core_state_new document_default 0) (core_state_new document_default 0)"
proof -
  have q: "execute_actor_command Live (Query QueryDocument) (core_state_new document_default 0)
      = Some (QueryResult (DocumentResult document_default), core_state_new document_default 0)"
    by (simp add: execute_actor_command_def execute_command_def execute_command_inner_def query_state_def
        record_batch_def core_state_new_def)
  have st: "session_step (core_state_new document_default 0) (core_state_new document_default 0)"
    by (rule session_step.command [OF q]) (simp add: batches_fit_def core_state_new_def int_width_defs)
  show ?thesis using change_identity_sound [OF r_into_rtranclp [of session_step, OF st] refl] st by blast
qed

end
