(* ===== verification/Manual_Props.thy ===== *)
theory Manual_Props
  imports Manual_History History_Props
begin

text \<open>
  Why manual admission is sound: the incremental JSON arrays equal a rebuild from scratch, a rolled-back state or
  cache is the one before the command, and the pending queue stays within its budget.
\<close>

section \<open>Lemmas\<close>

subsection \<open>Arrays\<close>

lemma tail_loop_append:
  "tail_loop ser p start limit (xs @ ys) bytes ends =
     rbind (tail_loop ser p start limit xs bytes ends) (\<lambda>(bytes, ends). tail_loop ser p start limit ys bytes ends)"
  by (induction xs arbitrary: bytes ends) (simp_all add: rbind_assoc)

lemma bounded_shift:
  "length B \<le> limit \<Longrightarrow> bounded_write limit (B @ b) x = map_sum id ((@) B) (bounded_write (limit - length B) b x)"
  "length B \<le> limit \<Longrightarrow> bounded_json ser limit v (B @ b) = map_sum id ((@) B) (bounded_json ser (limit - length B) v b)"
  by (auto simp: bounded_write_def bounded_json_def split: option.splits)

lemma tail_loop_shift:
  assumes "length B \<le> limit"
  shows "tail_loop ser 0 0 limit ys (B @ b) (E @ es) =
    map_sum id (map_prod ((@) B) ((@) E)) (tail_loop ser (length E) (length B) (limit - length B) ys b es)"
proof (induction ys arbitrary: b es)
  case (Cons y ys)
  let ?w = "if E \<noteq> [] \<or> es \<noteq> [] then bounded_write (limit - length B) b (bytes_of_string '','') else Inr b"
  have "(if E @ es \<noteq> [] then bounded_write limit (B @ b) (bytes_of_string '','') else Inr (B @ b)) = map_sum id ((@) B) ?w"
    using assms by (simp add: bounded_shift)
  then show ?case
    using assms Cons.IH
    by (cases ?w) (auto simp: bounded_shift rbind_def add.assoc split: sum.splits if_splits)
qed simp

lemma bounded_writeD:
  "bounded_write limit bytes x = Inr b \<Longrightarrow> b = bytes @ x \<and> length b \<le> limit"
  "bounded_json ser limit v bytes = Inr b \<Longrightarrow> \<exists>x. ser v = Some x \<and> b = bytes @ x \<and> length b \<le> limit"
  by (auto simp: bounded_write_def bounded_json_def split: option.splits if_splits)

lemma tail_loop_InrD:
  assumes "tail_loop ser p start limit ys bytes ends = Inr (b, es)"
  shows "take (length bytes) b = bytes \<and> take (length ends) es = ends \<and> length es = length ends + length ys
    \<and> length bytes \<le> length b \<and> (length bytes \<le> limit \<longrightarrow> length b \<le> limit) \<and> (ys \<noteq> [] \<longrightarrow> last es = start + length b)"
  using assms
proof (induction ys arbitrary: bytes ends)
  case (Cons y ys)
  from Cons.prems obtain b1 b2 where
    1: "(if p \<noteq> 0 \<or> ends \<noteq> [] then bounded_write limit bytes (bytes_of_string '','') else Inr bytes) = Inr b1"
    and 2: "bounded_json ser limit y b1 = Inr b2"
    and 3: "tail_loop ser p start limit ys b2 (ends @ [start + length b2]) = Inr (b, es)"
    by (auto simp: rbind_eq_Inr)
  have b1: "\<exists>x. b1 = bytes @ x" "length bytes \<le> limit \<longrightarrow> length b1 \<le> limit"
    using 1 bounded_writeD(1) [of limit bytes _ b1] by (auto split: if_splits)
  from bounded_writeD(2) [OF 2] b1 obtain x where b2: "b2 = bytes @ x" "length b2 \<le> limit" by auto
  have "take (length bytes) (take (length b2) b) = bytes" "take (length ends) (take (Suc (length ends)) es) = ends"
    using Cons.IH [OF 3] b2 by simp_all
  then show ?case
    using Cons.IH [OF 3] b2 3 by (cases "ys = []") auto
qed simp

definition build :: "('a \<Rightarrow> byte list option) \<Rightarrow> 'a list \<Rightarrow> history_error + json_array" where
  "build ser xs = map_sum id (\<lambda>(b, es). \<lparr>array_bytes = b, array_ends = es\<rparr>) (tail_loop ser 0 0 HISTORY_LIMIT xs [] [])"

lemma build_take:
  assumes "build ser xs = Inr a" "k \<le> length xs"
  obtains st where "array_start k a = Some st" "st \<le> length (array_bytes a)" "st \<le> HISTORY_LIMIT" "k \<le> length (array_ends a)"
    "build ser (take k xs) = Inr \<lparr>array_bytes = take st (array_bytes a), array_ends = take k (array_ends a)\<rparr>"
proof -
  from assms(1) obtain b es where l: "tail_loop ser 0 0 HISTORY_LIMIT xs [] [] = Inr (b, es)"
    and a: "a = \<lparr>array_bytes = b, array_ends = es\<rparr>" by (auto simp: build_def map_sum_def split: sum.splits)
  have "tail_loop ser 0 0 HISTORY_LIMIT (take k xs @ drop k xs) [] [] = Inr (b, es)" using l by simp
  then obtain b1 es1 where 1: "tail_loop ser 0 0 HISTORY_LIMIT (take k xs) [] [] = Inr (b1, es1)"
    and 2: "tail_loop ser 0 0 HISTORY_LIMIT (drop k xs) b1 es1 = Inr (b, es)"
    by (auto simp only: tail_loop_append rbind_eq_Inr prod.case split_paired_all)
  note t1 = tail_loop_InrD [OF 1] and t2 = tail_loop_InrD [OF 2]
  have len: "length es1 = k" using t1 assms(2) by simp
  have "array_start k a = Some (length b1)"
  proof (cases "k = 0")
    case True
    then show ?thesis using 1 by (simp add: array_start_def)
  next
    case False
    then have "es1 ! (k - 1) = length b1" "take k es = es1"
      using t1 t2 len assms(2) by (auto simp: last_conv_nth)
    then have "es ! (k - 1) = length b1" using False by (metis diff_less nth_take zero_less_iff_neq_zero zero_less_one)
    then show ?thesis using False t2 len by (simp add: array_start_def a)
  qed
  then show ?thesis
    using that [of "length b1"] t1 t2 len 1 by (simp add: a build_def)
qed

lemma build_length: "build ser xs = Inr a \<Longrightarrow> length (array_ends a) = length xs"
  using tail_loop_InrD [of ser 0 0 HISTORY_LIMIT xs "[]" "[]"]
  by (cases a) (auto simp: build_def map_sum_def split: sum.splits)

text \<open>Replacing the tail of an array that is up to date for \<open>xs\<close> gives what a rebuild for \<open>ys\<close> gives, when both
  lists agree on the kept prefix; the patch undoes it.\<close>

lemma replace_tail_build:
  assumes a: "build ser xs = Inr a" and k: "k \<le> length xs" "k \<le> length ys" "take k xs = take k ys"
  shows "(\<exists>e. replace_tail ser k (drop k ys) a = Some (Inl e) \<and> build ser ys = Inl e)
    \<or> (\<exists>p a'. replace_tail ser k (drop k ys) a = Some (Inr (p, a')) \<and> build ser ys = Inr a' \<and> array_rollback p a' = Some a)"
proof -
  from build_take [OF a k(1)] obtain st where st: "array_start k a = Some st" "st \<le> length (array_bytes a)"
    "st \<le> HISTORY_LIMIT" "k \<le> length (array_ends a)"
    "build ser (take k xs) = Inr \<lparr>array_bytes = take st (array_bytes a), array_ends = take k (array_ends a)\<rparr>" .
  let ?B = "take st (array_bytes a)" and ?E = "take k (array_ends a)"
  have 1: "tail_loop ser 0 0 HISTORY_LIMIT (take k ys) [] [] = Inr (?B, ?E)"
    using st(5) k(3) by (auto simp: build_def map_sum_def split: sum.splits)
  have ys: "tail_loop ser 0 0 HISTORY_LIMIT ys [] [] =
      map_sum id (map_prod ((@) ?B) ((@) ?E)) (tail_loop ser k st (HISTORY_LIMIT - st) (drop k ys) [] [])"
    using tail_loop_append [of ser 0 0 HISTORY_LIMIT "take k ys" "drop k ys" "[]" "[]"] 1
      tail_loop_shift [of ?B HISTORY_LIMIT ser "drop k ys" "[]" ?E "[]"] st k by simp
  show ?thesis
  proof (cases "tail_loop ser k st (HISTORY_LIMIT - st) (drop k ys) [] []")
    case (Inl e)
    then show ?thesis using ys st by (simp add: replace_tail_def build_def)
  next
    case (Inr r)
    obtain b es where r: "r = (b, es)" by (cases r)
    let ?a = "\<lparr>array_bytes = ?B @ b, array_ends = ?E @ es\<rparr>"
    have "array_start k ?a = array_start k a" using st by (auto simp: array_start_def nth_append)
    then have "array_rollback \<lparr>patch_prefix = k, patch_bytes = drop st (array_bytes a), patch_ends = drop k (array_ends a)\<rparr> ?a
        = Some a" using st by (simp add: array_rollback_def)
    then show ?thesis using Inr r ys st by (simp add: replace_tail_def build_def)
  qed
qed

subsection \<open>The cache\<close>

text \<open>A cache whose segments are those of a rebuild; the digest is compared separately.\<close>

definition cache_matches :: "json_writer \<Rightarrow> core_state \<Rightarrow> history_json \<Rightarrow> bool" where
  "cache_matches W s c \<longleftrightarrow> length (batches s) \<le> HISTORY_COMMANDS \<and> cache_epoch c = history_epoch s
     \<and> json_prefix W s = Inr (cache_prefix c) \<and> build (json_batch W) (batches s) = Inr (cache_batches c)
     \<and> build (json_entry W) (undo_stack s) = Inr (cache_undo c) \<and> build (json_entry W) (redo_stack s) = Inr (cache_redo c)"

lemma identities_sha [simp]: "identities W s (c\<lparr>cache_sha256 := x\<rparr>) = identities W s c"
  by (simp add: identities_def write_history_def json_encoded_bytes_def cursor_pieces_def cong: if_cong)

lemma replace_empty:
  "replace_tail ser 0 xs empty_array = Some (map_sum id (\<lambda>a. (\<lparr>patch_prefix = 0, patch_bytes = [], patch_ends = []\<rparr>, a)) (build ser xs))"
  by (auto simp: replace_tail_def empty_array_def array_start_def build_def map_sum_def split: sum.splits)

lemma map_sum_eq_Inr: "map_sum f g m = Inr y \<longleftrightarrow> (\<exists>x. m = Inr x \<and> y = g x)"
  by (cases m) auto

lemma history_json_new_iff:
  "history_json_new W s = Some (Inr c) \<longleftrightarrow>
     cache_matches W s c \<and> (\<exists>cursor. identities W s c = Inr (cache_sha256 c, cursor))" (is "?l \<longleftrightarrow> ?r")
proof
  assume ?l
  then obtain prefix bs us rs sha cursor where f: "length (batches s) \<le> HISTORY_COMMANDS" "json_prefix W s = Inr prefix"
    "build (json_batch W) (batches s) = Inr bs" "build (json_entry W) (undo_stack s) = Inr us"
    "build (json_entry W) (redo_stack s) = Inr rs"
    and i: "identities W s \<lparr>cache_epoch = history_epoch s, cache_prefix = prefix, cache_batches = bs, cache_undo = us,
      cache_redo = rs, cache_sha256 = ''''\<rparr> = Inr (sha, cursor)"
    and c: "c = \<lparr>cache_epoch = history_epoch s, cache_prefix = prefix, cache_batches = bs, cache_undo = us,
      cache_redo = rs, cache_sha256 = sha\<rparr>"
    by (auto simp: history_json_new_def replace_empty map_sum_eq_Inr Let_def split: if_splits)
  then have "identities W s c = Inr (sha, cursor)"
    using identities_sha [where c = c and x = "''''" and W = W and s = s] by simp
  then show ?r using f c by (simp add: cache_matches_def)
next
  assume ?r
  then obtain cursor where m: "cache_matches W s c" and "identities W s c = Inr (cache_sha256 c, cursor)" by blast
  then have "identities W s \<lparr>cache_epoch = history_epoch s, cache_prefix = cache_prefix c, cache_batches = cache_batches c,
      cache_undo = cache_undo c, cache_redo = cache_redo c, cache_sha256 = ''''\<rparr> = Inr (cache_sha256 c, cursor)"
    using identities_sha [where c = c and x = "''''" and W = W and s = s] by (cases c) (simp add: cache_matches_def)
  then show ?l
    using m by (cases c) (simp add: history_json_new_def cache_matches_def replace_empty Let_def)
qed

lemma history_json_new_total: "\<exists>r. history_json_new W s = Some r"
  by (auto simp: history_json_new_def pbind_def replace_empty map_sum_def Let_def split: sum.splits)

definition same_origin :: "core_state \<Rightarrow> core_state \<Rightarrow> bool" where
  "same_origin s s' \<longleftrightarrow> baseline s' = baseline s \<and> floor_offset s' = floor_offset s \<and> history_epoch s' = history_epoch s"

definition keeps_prefix :: "nat \<Rightarrow> 'a list \<Rightarrow> 'a list \<Rightarrow> bool" where
  "keeps_prefix k xs ys \<longleftrightarrow> k \<le> length xs \<and> k \<le> length ys \<and> take k xs = take k ys"

lemma update_matches:
  assumes c: "cache_matches W s c" and o: "same_origin s s'" and b: "\<exists>new. batches s' = batches s @ new"
    and u: "keeps_prefix up (undo_stack s) (undo_stack s')" and r: "keeps_prefix rp (redo_stack s) (redo_stack s')"
  shows "(\<exists>e. history_json_update W s' up rp c = Some (Inl e, c) \<and> (\<forall>c'. \<not> cache_matches W s' c'))
    \<or> (\<exists>p c'. history_json_update W s' up rp c = Some (Inr p, c') \<and> cache_matches W s' c'
          \<and> cache_sha256 c' = cache_sha256 c \<and> history_json_rollback p c' = Some c)"
proof -
  let ?n = "length (array_ends (cache_batches c))"
  have cb: "build (json_batch W) (batches s) = Inr (cache_batches c)" using c by (simp add: cache_matches_def)
  have n: "?n = length (batches s)" using build_length [OF cb] .
  have pre: "json_prefix W s' = Inr (cache_prefix c)" "cache_epoch c = history_epoch s'"
    using c o by (simp_all add: cache_matches_def same_origin_def json_prefix_def cong: if_cong)
  note B = replace_tail_build [OF cb, of ?n "batches s'"]
  note U = replace_tail_build [of "json_entry W" "undo_stack s" "cache_undo c" up "undo_stack s'"]
  note R = replace_tail_build [of "json_entry W" "redo_stack s" "cache_redo c" rp "redo_stack s'"]
  have bs: "?n \<le> length (batches s')" "take ?n (batches s) = take ?n (batches s')" using b n by auto
  show ?thesis
  proof (cases "HISTORY_COMMANDS < length (batches s')")
    case True
    then show ?thesis by (simp add: history_json_update_def cache_matches_def)
  next
    case False
    show ?thesis
      using B U R bs u r c n pre False
      by (auto simp: history_json_update_def cache_matches_def keeps_prefix_def history_json_rollback_def)
  qed
qed

subsection \<open>Executing on the stripped state\<close>

lemma journalled_changed:
  "execute_command cmd s = Some (e, s') \<Longrightarrow> is_journalled e \<longleftrightarrow> is_document_changed e"
  by (cases cmd)
    (auto simp: execute_command_inner_eq execute_command_inner_def execute_operation_def execute_batch_def
      execute_batch_coalesced_def revision_conflict_def Let_def split: Option.bind_splits sum.splits if_splits option.splits)

definition move_redo :: "history_entry list \<Rightarrow> event \<times> core_state \<Rightarrow> event \<times> core_state" where
  "move_redo taken = (\<lambda>(e, s). (e, if is_document_changed e then s else s\<lparr>redo_stack := taken\<rparr>))"

lemma do_redo:
  "do_operation op (s\<lparr>redo_stack := r\<rparr>) = do_operation op s"
  "do_batch ops (s\<lparr>redo_stack := r\<rparr>) = do_batch ops s"
  "do_batch_coalesced ops key (s\<lparr>redo_stack := r\<rparr>) = do_batch_coalesced ops key s"
  by (simp_all add: do_operation_def do_batch_def do_batch_coalesced_def install_edit_def split: sum.splits batch_error.splits)

lemma execute_redo:
  "execute_operation op t (s\<lparr>redo_stack := r\<rparr>) = map_option (move_redo r) (execute_operation op t s)"
  "execute_batch ops (s\<lparr>redo_stack := r\<rparr>) = map_option (move_redo r) (execute_batch ops s)"
  "execute_batch_coalesced ops key (s\<lparr>redo_stack := r\<rparr>) = map_option (move_redo r) (execute_batch_coalesced ops key s)"
  by (auto simp: execute_operation_def execute_batch_def execute_batch_coalesced_def do_redo move_redo_def Let_def
      split: Option.bind_splits sum.splits)

lemma record_redo:
  "\<not> is_document_changed e \<Longrightarrow> record_batch e (s\<lparr>redo_stack := r\<rparr>) = (record_batch e s)\<lparr>redo_stack := r\<rparr>"
  by simp

lemma is_document_changed_iff: "is_document_changed e \<longleftrightarrow> (\<exists>d r x j t. e = DocumentChanged d r x j t)"
  by (cases e) simp_all

lemma execute_edit_stripped:
  assumes "command_edit cmd \<noteq> None"
  shows "execute_command cmd (s\<lparr>redo_stack := r\<rparr>) = map_option (move_redo r) (execute_command cmd s)"
proof -
  have comm: "s\<lparr>redo_stack := r\<rparr>\<lparr>identity_effects := []\<rparr> = s\<lparr>identity_effects := []\<rparr>\<lparr>redo_stack := r\<rparr>" by simp
  have "execute_command_inner cmd (s\<lparr>identity_effects := []\<rparr>\<lparr>redo_stack := r\<rparr>)
      = map_option (move_redo r) (execute_command_inner cmd (s\<lparr>identity_effects := []\<rparr>))"
    using assms
    by (cases cmd) (simp_all only: execute_command_inner_def command.case execute_redo revision_conflict_def
      command_edit.simps core_state.select_convs core_state.update_convs,
      auto simp: move_redo_def execute_redo split: option.splits)
  then show ?thesis
    unfolding execute_command_def comm
    by (auto simp: option.map_comp comp_def move_redo_def intro!: option.map_cong)
qed

subsection \<open>Rollback\<close>

lemma truncate_head [simp]: "e\<lparr>entry_operations := take (length (entry_operations e)) (entry_operations e @ ops)\<rparr> = e"
  "e\<lparr>entry_operations := entry_operations e\<rparr> = e"
  by simp_all

lemma edit_stack_cases:
  obtains (push) x where "edit_stack j d us = us @ [x]"
  | (merge) ys y ops where "us = ys @ [y]" "edit_stack j d us = ys @ [y\<lparr>entry_operations := entry_operations y @ ops\<rparr>]"
proof (cases "\<exists>ops key. j = JDoBatchCoalesced ops key \<and> us \<noteq> [] \<and> entry_coalesce_key (last us) = Some key")
  case True
  then obtain ops key where "j = JDoBatchCoalesced ops key" "us \<noteq> []" "entry_coalesce_key (last us) = Some key" by blast
  then show ?thesis using merge [of "butlast us" "last us" ops] by (simp add: coalesce_def)
next
  case False
  then show ?thesis using push by (cases j) (auto simp: coalesce_def)
qed

lemma edit_candidate:
  assumes "candidate_begin cmd s = (delta, s0)" "command_edit cmd \<noteq> None"
  shows "stacks delta = EditDelta (redo_stack s)" "s0 = s\<lparr>redo_stack := [], identity_effects := []\<rparr>"
  using assms by (cases cmd; auto simp: candidate_begin_def Let_def)+

lemma candidate_fields:
  assumes "candidate_begin cmd s = (delta, s0)"
  shows "delta_document delta = state_document s" "delta_revision delta = state_revision s"
    "undo_len delta = length (undo_stack s)" "redo_len delta = length (redo_stack s)"
    "undo_top delta = map_option entry_head_of (last_option (undo_stack s))"
    "redo_top delta = map_option entry_head_of (last_option (redo_stack s))"
    "op_log_len delta = length (op_log s)" "batches_len delta = length (batches s)"
    "delta_identity_effects delta = identity_effects s"
  using assms by (auto simp: candidate_begin_def Let_def)

text \<open>The truncation of an edit's undo stack restores it whether the edit pushed an entry, joined the newest one or
  was refused.\<close>

definition truncate_top :: "nat \<Rightarrow> entry_head option \<Rightarrow> history_entry list \<Rightarrow> history_entry list" where
  "truncate_top n hd0 st =
     (let us = take n st
      in case (us, hd0) of
           (_ # _, Some head) \<Rightarrow>
             butlast us @ [(last us)\<lparr>entry_operations := take (head_operations head) (entry_operations (last us))\<rparr>]
         | _ \<Rightarrow> us)"

lemma truncate_top_snoc:
  "take n st = xs @ [x] \<Longrightarrow>
     truncate_top n (Some h) st = xs @ [x\<lparr>entry_operations := take (head_operations h) (entry_operations x)\<rparr>]"
  by (cases xs) (simp_all add: truncate_top_def)

lemma truncate_top_id: "truncate_top (length us) (map_option entry_head_of (last_option us)) us = us"
proof (cases us rule: rev_cases)
  case (snoc ys y)
  then show ?thesis by (simp add: truncate_top_snoc [where xs = ys and x = y] last_option_def entry_head_of_def)
qed (simp add: truncate_top_def)

lemma truncate_top_push: "truncate_top (length us) h (us @ st) = truncate_top (length us) h us"
  by (simp add: truncate_top_def)

lemma truncate_top_edit:
  "truncate_top (length us) (map_option entry_head_of (last_option us)) (edit_stack j d us) = us"
proof (cases rule: edit_stack_cases [of j d us])
  case (push x)
  then show ?thesis by (simp add: truncate_top_push truncate_top_id)
next
  case (merge ys y ops)
  then show ?thesis
    by (simp add: truncate_top_snoc [where xs = ys and x = "y\<lparr>entry_operations := entry_operations y @ ops\<rparr>"]
        last_option_def entry_head_of_def)
qed

lemma rollback_edit:
  assumes "candidate_begin cmd s = (delta, s0)" "stacks delta = EditDelta taken" "taken = redo_stack s"
    and "truncate_top (length (undo_stack s)) (map_option entry_head_of (last_option (undo_stack s))) (undo_stack s1) = undo_stack s"
    and "take (length (op_log s)) (op_log s1) = op_log s" "take (length (batches s)) (batches s1) = batches s"
    and "history_epoch s1 = history_epoch s" "next_floor_id s1 = next_floor_id s"
    "state_pending_floor s1 = state_pending_floor s" "floor_offset s1 = floor_offset s" "baseline s1 = baseline s"
  shows "candidate_rollback delta s1 = Some s"
  using assms(2-) candidate_fields [OF assms(1)]
  by (simp add: candidate_rollback_def rollback_stacks_def truncate_top_def Let_def)

lemma candidate_state:
  "candidate_begin cmd s = (delta, s0) \<Longrightarrow>
     s0 = (case stacks delta of EditDelta _ \<Rightarrow> s\<lparr>redo_stack := []\<rparr> | _ \<Rightarrow> s)\<lparr>identity_effects := []\<rparr>"
  "candidate_begin cmd s = (delta, s0) \<Longrightarrow> stacks delta = EditDelta taken \<Longrightarrow> taken = redo_stack s"
  by (auto simp: candidate_begin_def Let_def split: command.splits)

lemma candidate_rollback_unchanged:
  assumes "candidate_begin cmd s = (delta, s0)"
  shows "candidate_rollback delta s0 = Some s"
proof (cases "stacks delta")
  case (EditDelta taken)
  then show ?thesis
    using assms candidate_state [OF assms] by (intro rollback_edit) (simp_all add: truncate_top_id)
qed (use candidate_state(1) [OF assms] candidate_fields [OF assms] in
    \<open>simp_all add: candidate_rollback_def rollback_stacks_def\<close>)

lemma candidate_rollback_undo:
  assumes "candidate_begin Undo s = (delta, s0)"
  shows "candidate_rollback delta (after_undo s0) = Some s"
proof -
  have s0: "s0 = s\<lparr>identity_effects := []\<rparr>" using assms by (auto simp: candidate_begin_def Let_def)
  have d: "stacks delta = UndoDelta (if 2 \<le> length (undo_stack s) then entry_coalesce_key (undo_stack s ! (length (undo_stack s) - 2)) else None)"
    using assms by (auto simp: candidate_begin_def Let_def)
  note f = candidate_fields [OF assms]
  show ?thesis
  proof (cases "undo_stack s" rule: rev_cases)
    case Nil
    then show ?thesis by (simp add: candidate_rollback_def rollback_stacks_def d f s0 after_undo_def log_batch_def)
  next
    case (snoc ys y)
    show ?thesis
    proof (cases ys rule: rev_cases)
      case Nil
      with snoc show ?thesis
        by (simp add: candidate_rollback_def rollback_stacks_def d f s0 after_undo_def log_batch_def last_option_def
            entry_head_of_def close_gesture_def)
    next
      case (snoc zs z)
      with \<open>undo_stack s = ys @ [y]\<close> show ?thesis
        by (simp add: candidate_rollback_def rollback_stacks_def d f s0 after_undo_def log_batch_def last_option_def
            entry_head_of_def close_gesture_def nth_append butlast_append)
    qed
  qed
qed

lemma candidate_rollback_redo:
  assumes "candidate_begin Redo s = (delta, s0)"
  shows "candidate_rollback delta (after_redo s0) = Some s"
proof -
  have s0: "s0 = s\<lparr>identity_effects := []\<rparr>" and d: "stacks delta = RedoDelta"
    using assms by (auto simp: candidate_begin_def Let_def)
  note f = candidate_fields [OF assms]
  show ?thesis
    by (cases "redo_stack s" rule: rev_cases)
      (simp_all add: candidate_rollback_def rollback_stacks_def d f s0 after_redo_def log_batch_def last_option_def
        entry_head_of_def)
qed

lemma candidate_rollback_edit:
  assumes b: "candidate_begin cmd s = (delta, s0)" and c: "command_edit cmd \<noteq> None"
  shows "candidate_rollback delta (after_edit j after effs s0) = Some s"
  using edit_candidate [OF b c] truncate_top_edit [of "undo_stack s" j "state_document s"]
  by (intro rollback_edit [OF b]) (simp_all add: after_edit_def log_batch_def)

lemma candidate_rollback_exact:
  assumes b: "candidate_begin cmd s = (delta, s0)" and x: "execute_actor_command Live cmd s0 = Some (e, s1)"
  shows "candidate_rollback delta s1 = Some s"
  using x
proof (cases rule: execute_actor_command_cases)
  case refused
  then show ?thesis using candidate_rollback_unchanged [OF b] by simp
next
  case executed
  from executed(1) show ?thesis
  proof (cases rule: execute_command_cases)
    case same
    moreover have "s0\<lparr>identity_effects := []\<rparr> = s0" using b by (auto simp: candidate_begin_def Let_def)
    ultimately show ?thesis using candidate_rollback_unchanged [OF b] by simp
  next
    case (edit j after effs)
    then show ?thesis using candidate_rollback_edit [OF b] by simp
  next
    case undo
    then show ?thesis using candidate_rollback_undo b by simp
  next
    case redo
    then show ?thesis using candidate_rollback_redo b by simp
  qed
qed

subsection \<open>What the cache may keep\<close>

lemma keeps_prefix_all: "keeps_prefix (length xs) xs (xs @ ys)" "keeps_prefix 0 xs ys" "keeps_prefix (length ys - 1) ys (butlast ys @ zs)"
  by (simp_all add: keeps_prefix_def butlast_conv_take)

lemma prefixes_kept:
  assumes b: "candidate_begin cmd s = (delta, s0)" and x: "execute_command cmd s0 = Some (e, s1)" and e: "is_document_changed e"
    and p: "cache_prefixes s1 delta = (up, rp)"
  shows "keeps_prefix up (undo_stack s) (undo_stack s1)" "keeps_prefix rp (redo_stack s) (redo_stack s1)"
proof -
  note f = candidate_fields [OF b]
  have "keeps_prefix up (undo_stack s) (undo_stack s1) \<and> keeps_prefix rp (redo_stack s) (redo_stack s1)"
    using x
  proof (cases rule: execute_command_cases)
    case (edit j after effs)
    then have "command_edit cmd \<noteq> None" by simp
    from edit_candidate [OF b this] have d: "stacks delta = EditDelta (redo_stack s)" and s0: "undo_stack s0 = undo_stack s" by simp_all
    have u: "undo_stack s1 = edit_stack j (state_document s0) (undo_stack s)"
      using edit s0 by (simp add: after_edit_def log_batch_def)
    show ?thesis
    proof (cases rule: edit_stack_cases [of j "state_document s0" "undo_stack s"])
      case (push y)
      then show ?thesis using p by (auto simp: cache_prefixes_def d f u keeps_prefix_all)
    next
      case (merge ys y ops)
      then show ?thesis using p by (auto simp: cache_prefixes_def d f u keeps_prefix_def)
    qed
  next
    case undo
    have s0: "undo_stack s0 = undo_stack s" "redo_stack s0 = redo_stack s" and d: "\<exists>k. stacks delta = UndoDelta k"
      using b unfolding undo(1) by (auto simp: candidate_begin_def Let_def)
    show ?thesis
    proof (cases "undo_stack s" rule: rev_cases)
      case Nil
      then show ?thesis
        using p d undo s0 by (auto simp: cache_prefixes_def f after_undo_def log_batch_def keeps_prefix_def)
    next
      case (snoc ys y)
      then show ?thesis
        using p d undo s0
        by (cases ys rule: rev_cases)
          (auto simp: cache_prefixes_def f after_undo_def log_batch_def keeps_prefix_def close_gesture_def butlast_append)
    qed
  next
    case redo
    have "undo_stack s0 = undo_stack s" "redo_stack s0 = redo_stack s" "stacks delta = RedoDelta"
      using b unfolding redo(1) by (auto simp: candidate_begin_def Let_def)
    then show ?thesis
      using p redo
      by (cases "redo_stack s" rule: rev_cases)
        (auto simp: cache_prefixes_def f after_redo_def log_batch_def keeps_prefix_def)
  qed (use e in simp)
  then show "keeps_prefix up (undo_stack s) (undo_stack s1)" "keeps_prefix rp (redo_stack s) (redo_stack s1)" by simp_all
qed

lemma candidate_origin:
  assumes "candidate_begin cmd s = (delta, s0)"
  shows "same_origin s s0" "batches s0 = batches s" "state_pending_floor s0 = state_pending_floor s"
    "undo_stack s0 = undo_stack s" "identity_effects s0 = []"
  using candidate_state(1) [OF assms] by (auto simp: same_origin_def split: stack_delta.splits)

lemma stripped_execution:
  assumes b: "candidate_begin cmd s = (delta, s0)" and q: "\<not> is_query cmd" and i: "identity_effects s = []"
  shows "execute_actor_command Live cmd s0 = None \<longleftrightarrow> execute_actor_command Live cmd s = None"
    "execute_actor_command Live cmd s0 = Some (e, s1) \<Longrightarrow> is_document_changed e \<Longrightarrow>
       execute_actor_command Live cmd s = Some (e, s1)"
    "execute_actor_command Live cmd s = Some (e, s1) \<Longrightarrow> is_document_changed e \<Longrightarrow>
       execute_actor_command Live cmd s0 = Some (e, s1)"
proof -
  have "s0 = s \<or> execute_actor_command Live cmd s0 = map_option (move_redo []) (execute_actor_command Live cmd s)"
  proof (cases "command_edit cmd")
    case None
    then have "cmd = Undo \<or> cmd = Redo" using q by (cases cmd) simp_all
    then show ?thesis using b i by (elim disjE; simp add: candidate_begin_def Let_def) auto
  next
    case (Some j)
    then have c: "command_edit cmd \<noteq> None" by simp
    have "s0 = s\<lparr>redo_stack := []\<rparr>" using edit_candidate(2) [OF b c] i by simp
    then show ?thesis
      using execute_edit_stripped [OF c, where s = s and r = "[]"] c by (cases cmd) (simp_all add: execute_actor_command_def)
  qed
  then show "execute_actor_command Live cmd s0 = None \<longleftrightarrow> execute_actor_command Live cmd s = None"
    "execute_actor_command Live cmd s0 = Some (e, s1) \<Longrightarrow> is_document_changed e \<Longrightarrow>
       execute_actor_command Live cmd s = Some (e, s1)"
    "execute_actor_command Live cmd s = Some (e, s1) \<Longrightarrow> is_document_changed e \<Longrightarrow>
       execute_actor_command Live cmd s0 = Some (e, s1)"
    by (cases "execute_actor_command Live cmd s"; auto simp: move_redo_def split: if_splits)+
qed

subsection \<open>Admission\<close>

definition queue_ok :: "json_writer \<Rightarrow> manual_ingress \<Rightarrow> bool" where
  "queue_ok W m \<longleftrightarrow> length (ingress_pending m) \<le> MANUAL_COMMANDS
     \<and> (\<exists>sizes. map (manual_message_bytes W) (ingress_pending m) = map Inr sizes \<and> ingress_bytes m = sum_list sizes)
     \<and> ingress_bytes m \<le> MANUAL_BYTES
     \<and> map accepted_sequence (ingress_pending m)
         = map (\<lambda>i. next_sequence m - int (length (ingress_pending m)) + int i) [0..<length (ingress_pending m)]
     \<and> (ingress_pending m \<noteq> [] \<longrightarrow> predecessor m = Some (accepted_batch_id (last (ingress_pending m))))"

definition cache_current :: "json_writer \<Rightarrow> manual_ingress \<Rightarrow> core_state \<Rightarrow> bool" where
  "cache_current W m s \<longleftrightarrow>
     (cache_epoch (ingress_cache m) = history_epoch s \<longrightarrow> history_json_new W s = Some (Inr (ingress_cache m)))"

definition ingress_ok :: "json_writer \<Rightarrow> manual_ingress \<Rightarrow> core_state \<Rightarrow> bool" where
  "ingress_ok W m s \<longleftrightarrow> queue_ok W m \<and> cache_current W m s \<and> identity_effects s = []"

lemma queue_ok_cache [simp]: "queue_ok W (m\<lparr>ingress_cache := c\<rparr>) = queue_ok W m"
  by (simp add: queue_ok_def)

lemma refresh_current:
  assumes "cache_current W m s" "refresh_cache W s m = Some (Inr m1)"
  shows "history_json_new W s = Some (Inr (ingress_cache m1))" "m1 = m\<lparr>ingress_cache := ingress_cache m1\<rparr>"
  using assms by (auto simp: refresh_cache_def cache_current_def split: if_splits)

lemma refresh_total: "\<exists>r. refresh_cache W s m = Some r"
  using history_json_new_total [of W s] by (auto simp: refresh_cache_def pbind_def split: sum.splits)

lemma message_bytes_nonneg: "manual_message_bytes W item = Inr n \<Longrightarrow> 0 \<le> n"
  by (auto simp: manual_message_bytes_def split: option.splits)

lemma admit_InrD:
  assumes "admit W s r m = Inr (item, bytes, next, after)" "ingress_bytes m \<le> MANUAL_BYTES"
  shows "manual_message_bytes W item = Inr bytes" "next = next_sequence m + 1" "accepted_sequence item = next_sequence m"
    "ingress_bytes m + bytes \<le> MANUAL_BYTES" "\<exists>cursor. identities W s (ingress_cache m) = Inr (after, cursor)"
  using assms by (auto simp: admit_def rbind_eq_Inr checked_add_u64_def split: option.splits if_splits)

lemma queue_ok_push:
  assumes "queue_ok W m" "length (ingress_pending m) < MANUAL_COMMANDS" "admit W s r m = Inr (item, bytes, next, after)"
  shows "queue_ok W (m\<lparr>next_sequence := next, predecessor := Some (accepted_batch_id item),
    ingress_bytes := ingress_bytes m + bytes, ingress_pending := ingress_pending m @ [item]\<rparr>)"
proof -
  from assms(1) obtain sizes where s: "map (manual_message_bytes W) (ingress_pending m) = map Inr sizes"
    "ingress_bytes m = sum_list sizes" and b: "ingress_bytes m \<le> MANUAL_BYTES" by (auto simp: queue_ok_def)
  note a = admit_InrD [OF assms(3) b]
  have "map (manual_message_bytes W) (ingress_pending m @ [item]) = map Inr (sizes @ [bytes])" using s a by simp
  then show ?thesis
    using assms(1,2) a s unfolding queue_ok_def by (intro conjI exI [of _ "sizes @ [bytes]"]) (auto simp: algebra_simps)
qed

text \<open>The part of the admission after the command was executed on the live state.\<close>

lemma finish_admission_spec:
  assumes m: "queue_ok W m" "length (ingress_pending m) < MANUAL_COMMANDS" and c: "cache_matches W s1 (ingress_cache m)"
    and p: "history_json_rollback patches (ingress_cache m) = Some c0" and r: "candidate_rollback delta s1 = Some s"
    and x: "finish_admission W cmd delta e patches s1 m = Some (e', m', s')" and e: "is_journalled e"
  shows "if is_journalled e'
    then e' = e \<and> s' = s1 \<and> queue_ok W m' \<and> history_json_new W s1 = Some (Inr (ingress_cache m'))
      \<and> (\<exists>item. ingress_pending m' = ingress_pending m @ [item] \<and> accepted_sequence item = next_sequence m)
    else s' = s \<and> m' = m\<lparr>ingress_cache := c0\<rparr>"
proof (cases "admit W s1 (delta_revision delta) m")
  case (Inl error)
  then show ?thesis using x p r by (auto simp: finish_admission_def manual_refusal_def)
next
  case (Inr y)
  then obtain item bytes nxt after where y: "admit W s1 (delta_revision delta) m = Inr (item, bytes, nxt, after)"
    by (cases y) auto
  have b: "ingress_bytes m \<le> MANUAL_BYTES" using m(1) by (simp add: queue_ok_def)
  note a = admit_InrD [OF y b]
  have "history_json_new W s1 = Some (Inr ((ingress_cache m)\<lparr>cache_sha256 := after\<rparr>))"
    using c a(5) by (simp add: history_json_new_iff cache_matches_def)
  then show ?thesis
    using x e queue_ok_push [OF m y] a(3) by (auto simp: finish_admission_def y)
qed

lemma execute_actor_origin:
  assumes "execute_actor_command Live cmd s0 = Some (e, s1)"
  shows "same_origin s0 s1" "\<exists>new. batches s1 = batches s0 @ new" "identity_effects s0 = [] \<Longrightarrow> identity_effects s1 = []"
  using assms
  by (cases rule: execute_actor_command_cases; use execute_frame in \<open>fastforce simp: same_origin_def\<close>)+

lemma actor_journalled:
  assumes "execute_actor_command Live cmd s0 = Some (e, s1)"
  shows "is_journalled e \<Longrightarrow> execute_command cmd s0 = Some (e, s1) \<and> is_document_changed e"
  using assms journalled_changed
  by (auto simp: execute_actor_command_def split: command.splits option.splits if_splits)

lemma manual_execute_live:
  assumes m: "ingress_ok W m s" and q: "\<not> is_query cmd" and x: "manual_execute W Live cmd m s = Some (e', m', s')"
  shows "if is_journalled e'
    then execute_actor_command Live cmd s = Some (e', s') \<and> queue_ok W m' \<and> identity_effects s' = []
      \<and> history_json_new W s' = Some (Inr (ingress_cache m'))
      \<and> (\<exists>item. ingress_pending m' = ingress_pending m @ [item] \<and> accepted_sequence item = next_sequence m)
    else s' = s \<and> (m' = m \<or> (\<exists>c. m' = m\<lparr>ingress_cache := c\<rparr> \<and> history_json_new W s = Some (Inr c)))"
proof -
  have refuse: "\<not> is_journalled (manual_refusal cmd r)" for r by (simp add: manual_refusal_def)
  obtain delta s0 where b: "candidate_begin cmd s = (delta, s0)" by (cases "candidate_begin cmd s")
  have i: "identity_effects s = []" and cur: "cache_current W m s" and qo: "queue_ok W m" using m by (simp_all add: ingress_ok_def)
  from refresh_total [of W s m] consider (full) "MANUAL_COMMANDS \<le> length (ingress_pending m)"
    | (stale) error where "length (ingress_pending m) < MANUAL_COMMANDS" "refresh_cache W s m = Some (Inl error)"
    | (go) m1 where "length (ingress_pending m) < MANUAL_COMMANDS" "refresh_cache W s m = Some (Inr m1)"
    by (metis not_le sum.exhaust)
  then show ?thesis
  proof cases
    case (go m1)
    let ?c = "ingress_cache m1"
    note fresh = refresh_current [OF cur go(2)]
    have m1: "\<exists>c. m1 = m\<lparr>ingress_cache := c\<rparr> \<and> history_json_new W s = Some (Inr c)" using fresh by blast
    have m1c: "m1\<lparr>ingress_cache := c\<rparr>\<lparr>ingress_cache := ?c\<rparr> = m1" "m1\<lparr>ingress_cache := ?c\<rparr> = m1" for c by simp_all
    from x q go b obtain e s1 where ex: "execute_actor_command Live cmd s0 = Some (e, s1)"
      by (auto simp: manual_execute_def split: Option.bind_splits)
    note rolled = candidate_rollback_exact [OF b ex]
    show ?thesis
    proof (cases "is_journalled e")
      case False
      then show ?thesis using x q go b ex rolled m1 by (auto simp: manual_execute_def)
    next
      case True
      obtain up rp where p: "cache_prefixes s1 delta = (up, rp)" by (cases "cache_prefixes s1 delta")
      note jx = actor_journalled [OF ex True]
      have o: "same_origin s s1" "\<exists>new. batches s1 = batches s @ new" "identity_effects s1 = []"
        using execute_actor_origin [OF ex] candidate_origin [OF b] by (auto simp: same_origin_def)
      have "cache_matches W s ?c" using fresh(1) by (simp add: history_json_new_iff)
      from update_matches [OF this o(1,2) prefixes_kept [OF b conjunct1 [OF jx] conjunct2 [OF jx] p]]
      show ?thesis
      proof (elim disjE exE conjE)
        fix error assume "history_json_update W s1 up rp ?c = Some (Inl error, ?c)"
        then show ?thesis using x q go b ex rolled m1 True p refuse by (auto simp: manual_execute_def)
      next
        fix patches c1
        assume u: "history_json_update W s1 up rp ?c = Some (Inr patches, c1)" "cache_matches W s1 c1"
          "history_json_rollback patches c1 = Some ?c"
        let ?m = "m1\<lparr>ingress_cache := c1\<rparr>"
        have "finish_admission W cmd delta e patches s1 ?m = Some (e', m', s')"
          using x q go b ex True p u by (auto simp: manual_execute_def)
        moreover have "queue_ok W ?m" "length (ingress_pending ?m) < MANUAL_COMMANDS"
          using m1 qo go by auto
        ultimately have "if is_journalled e'
            then e' = e \<and> s' = s1 \<and> queue_ok W m' \<and> history_json_new W s1 = Some (Inr (ingress_cache m'))
              \<and> (\<exists>item. ingress_pending m' = ingress_pending ?m @ [item] \<and> accepted_sequence item = next_sequence ?m)
            else s' = s \<and> m' = ?m\<lparr>ingress_cache := ?c\<rparr>"
          using finish_admission_spec [of W ?m s1 patches ?c delta s cmd e e' m' s'] u rolled True by simp
        then show ?thesis
          using stripped_execution(2) [OF b q i ex] jx o m1 by (auto split: if_splits)
      qed
    qed
  qed (use x q b refuse cur in \<open>auto simp: manual_execute_def intro: exI [of _ "ingress_cache m"]\<close>)
qed

text \<open>An edit that the codec and the budgets accept is admitted.\<close>

lemma manual_execute_admits:
  assumes m: "ingress_ok W m s" "length (ingress_pending m) < MANUAL_COMMANDS" "cache_epoch (ingress_cache m) = history_epoch s"
    and q: "\<not> is_query cmd" and x: "execute_actor_command Live cmd s = Some (e, s1)" "is_journalled e"
    and c1: "history_json_new W s1 = Some (Inr c1)"
    and a: "admit W s1 (state_revision s) (m\<lparr>ingress_cache := c1\<lparr>cache_sha256 := cache_sha256 (ingress_cache m)\<rparr>\<rparr>) = Inr y"
  shows "\<exists>m'. manual_execute W Live cmd m s = Some (e, m', s1) \<and> ingress_pending m' = ingress_pending m @ [fst y]"
proof -
  obtain delta s0 where b: "candidate_begin cmd s = (delta, s0)" by (cases "candidate_begin cmd s")
  have i: "identity_effects s = []" and cur: "history_json_new W s = Some (Inr (ingress_cache m))"
    using m by (auto simp: ingress_ok_def cache_current_def)
  obtain up rp where p: "cache_prefixes s1 delta = (up, rp)" by (cases "cache_prefixes s1 delta")
  have dc: "is_document_changed e" using x(2) by (cases e rule: is_journalled.cases) simp_all
  have ex: "execute_actor_command Live cmd s0 = Some (e, s1)" by (rule stripped_execution(3) [OF b q i x(1) dc])
  note jx = actor_journalled [OF ex x(2)]
  have o: "same_origin s s1" "\<exists>new. batches s1 = batches s @ new"
    using execute_actor_origin [OF ex] candidate_origin [OF b] by (auto simp: same_origin_def)
  have c1': "cache_matches W s1 c1" using c1 by (simp add: history_json_new_iff)
  have "cache_matches W s (ingress_cache m)" using cur by (simp add: history_json_new_iff)
  from update_matches [OF this o prefixes_kept [OF b conjunct1 [OF jx] conjunct2 [OF jx] p]] c1'
  obtain patches c where u: "history_json_update W s1 up rp (ingress_cache m) = Some (Inr patches, c)"
    and c: "cache_matches W s1 c" "cache_sha256 c = cache_sha256 (ingress_cache m)" by blast
  have "c = c1\<lparr>cache_sha256 := cache_sha256 (ingress_cache m)\<rparr>"
    using c c1' by (intro history_json.equality) (simp_all add: cache_matches_def)
  then show ?thesis
    using m q b p ex x(2) u a candidate_fields(2) [OF b]
    by (cases y) (simp add: manual_execute_def refresh_cache_def finish_admission_def)
qed

subsection \<open>Identities\<close>

lemma encoded_step:
  "(case checked_add_u64 t bytes of Some n \<Rightarrow> if n \<le> HISTORY_BYTES then Inr n else Inl Capacity | None \<Rightarrow> Inl Capacity) = Inr n
     \<Longrightarrow> n = t + bytes \<and> n \<le> HISTORY_BYTES"
  by (auto simp: checked_add_u64_def split: if_splits)

lemma encoded_bytes_sum:
  assumes "json_encoded_bytes k c = Inr n"
  shows "n = int (length (cache_prefix c)) + k + int (length (array_bytes (cache_batches c))) + int (length (array_bytes (cache_undo c)))
    + int (length (array_bytes (cache_redo c))) + 45" "n \<le> HISTORY_BYTES"
  using assms unfolding json_encoded_bytes_def by (auto simp: rbind_eq_Inr dest!: encoded_step)

lemma bytes_of_string_length [simp]: "length (bytes_of_string s) = length s"
  by (simp add: bytes_of_string_def)

lemma write_history_bytes:
  assumes "write_history W s c = Inr (pieces, cursor)"
  shows "int (length (concat pieces)) \<le> HISTORY_BYTES" "cursor = sha256_bytes (concat (cursor_pieces c))"
proof -
  from assms obtain n js where n: "json_encoded_bytes 0 c = Inr n" and d: "bounded_json (json_document W) (nat (HISTORY_BYTES - n)) (state_document s) [] = Inr js"
    and p: "pieces = [cache_prefix c, js, bytes_of_string '',\"batches\":['', array_bytes (cache_batches c),
        bytes_of_string ''],\"cursor\":''] @ cursor_pieces c @ [bytes_of_string ''}'']"
    and cu: "cursor = hex (sha256_finalize (fold sha256_update (cursor_pieces c) sha256_new))"
    by (auto simp: write_history_def rbind_eq_Inr split: if_splits)
  have "int (length js) \<le> HISTORY_BYTES - n" using bounded_writeD(2) [OF d] encoded_bytes_sum(2) [OF n] by auto
  then show len: "int (length (concat pieces)) \<le> HISTORY_BYTES"
    using encoded_bytes_sum(1) [OF n] by (simp add: p cursor_pieces_def)
  have "8 * int (length (concat (cursor_pieces c))) \<le> u64_max"
    using len by (simp add: p HISTORY_BYTES_def int_width_defs)
  then show "cursor = sha256_bytes (concat (cursor_pieces c))" using streaming_whole [of "cursor_pieces c"] by (simp add: cu)
qed

lemma identities_whole:
  assumes "identities W s c = Inr (sha, cursor)"
  obtains pieces where "write_history W s c = Inr (pieces, cursor)" "sha = sha256_bytes (concat pieces)"
    "int (length (concat pieces)) \<le> HISTORY_BYTES" "cursor = sha256_bytes (concat (cursor_pieces c))"
proof -
  from assms obtain pieces where w: "write_history W s c = Inr (pieces, cursor)"
    and sha: "sha = hex (sha256_finalize (fold sha256_update pieces sha256_new))"
    by (auto simp: identities_def rbind_eq_Inr)
  note len = write_history_bytes [OF w]
  have "8 * int (length (concat pieces)) \<le> u64_max" using len(1) by (simp add: HISTORY_BYTES_def int_width_defs)
  then show ?thesis using that [OF w _ len] streaming_whole [of pieces] by (simp add: sha)
qed

section \<open>Properties\<close>

text \<open>
  Claim C3. Manual admission is atomic. A manual command either takes effect exactly as the plain command would,
  with one item appended to the pending queue under the next sequence number, or it changes nothing of the editing
  state and nothing of the queue: every refusal (a rejected edit, a full queue, a history over its byte budget, a
  codec that refuses, a message over budget) rolls the live state back exactly, undo and redo stacks, open
  gestures, journal and revision included. Either way the queue stays within 64 commands and its byte budget and
  the cached history stays the one of the state.
\<close>

theorem manual_admission_atomic:
  assumes "ingress_ok W m s" "manual_execute W attachment cmd m s = Some (e, m', s')"
  shows "ingress_ok W m' s' \<and>
    (if is_journalled e
     then execute_actor_command attachment cmd s = Some (e, s')
       \<and> (\<exists>item. ingress_pending m' = ingress_pending m @ [item] \<and> accepted_sequence item = next_sequence m)
     else s' = s \<and> ingress_pending m' = ingress_pending m \<and> ingress_bytes m' = ingress_bytes m
       \<and> next_sequence m' = next_sequence m \<and> predecessor m' = predecessor m)"
proof (cases "is_query cmd \<or> attachment \<noteq> Live")
  case True
  then have x: "execute_actor_command attachment cmd s = Some (e, s')" and m: "m' = m"
    using assms(2) by (auto simp: manual_execute_def)
  have "\<not> is_journalled e \<and> s' = s"
    using True x assms(1)
    by (cases cmd) (auto simp: execute_actor_command_def execute_command_def execute_command_inner_def record_batch_def
        ingress_ok_def split: if_splits)
  then show ?thesis using assms(1) m by simp
next
  case False
  then have q: "\<not> is_query cmd" and x: "manual_execute W Live cmd m s = Some (e, m', s')" using assms(2) by simp_all
  have cur: "cache_current W m' s'" if "history_json_new W s' = Some (Inr (ingress_cache m'))" using that by (simp add: cache_current_def)
  show ?thesis
    using manual_execute_live [OF assms(1) q x] assms(1) False
    by (auto simp: ingress_ok_def cache_current_def split: if_splits)
qed

text \<open>
  Claim C11. The incremental history cache equals a rebuild. After an admitted command the cached segments, patched
  in place behind the prefixes the command cannot have changed, are exactly those a rebuild from the whole state
  produces, and the digest published for it is the SHA-256 of that complete JSON text, which stays within the
  history budget.
\<close>

theorem manual_cache_equals_rebuild:
  assumes "ingress_ok W m s" "manual_execute W attachment cmd m s = Some (e, m', s')" "is_journalled e"
  shows "history_json_new W s' = Some (Inr (ingress_cache m')) \<and>
    (\<exists>pieces cursor. write_history W s' (ingress_cache m') = Inr (pieces, cursor)
       \<and> cache_sha256 (ingress_cache m') = sha256_bytes (concat pieces) \<and> int (length (concat pieces)) \<le> HISTORY_BYTES
       \<and> cursor = sha256_bytes (concat (cursor_pieces (ingress_cache m'))))"
proof -
  have q: "\<not> (is_query cmd \<or> attachment \<noteq> Live)"
    using assms(2,3)
    by (cases cmd) (auto simp: manual_execute_def execute_actor_command_def execute_command_def execute_command_inner_def
        record_batch_def split: if_splits)
  then have n: "history_json_new W s' = Some (Inr (ingress_cache m'))"
    using manual_execute_live [OF assms(1), of cmd e m' s'] assms(2,3) by simp
  then obtain cursor where "identities W s' (ingress_cache m') = Inr (cache_sha256 (ingress_cache m'), cursor)"
    by (auto simp: history_json_new_iff)
  then show ?thesis using n by (elim identities_whole) blast
qed

subsection \<open>A producer\<close>

text \<open>A writer that serializes everything to the empty text and a codec that accepts every candidate.\<close>

definition sample_writer :: json_writer where
  "sample_writer = \<lparr>json_document = \<lambda>_. Some [], json_batch = \<lambda>_. Some [], json_entry = \<lambda>_. Some [], json_accepted = \<lambda>_. Some []\<rparr>"

definition sample_encoder :: manual_encoder where
  "sample_encoder sequence revision pred candidate = Inr \<lparr>accepted_sequence = sequence, accepted_batch_id = ''b'',
     accepted_digest = after_sha256 candidate, accepted_envelope = []\<rparr>"

lemma sample_build: "length xs \<le> 1 \<Longrightarrow> \<exists>a. build (\<lambda>_. Some []) xs = Inr a \<and> array_bytes a = []"
  by (cases xs; cases "tl xs") (auto simp: build_def bounded_json_def bounded_write_def)

lemma sample_prefix: "floor_offset s = 0 \<Longrightarrow> \<exists>p. json_prefix sample_writer s = Inr p \<and> length p = 24"
  by (simp add: json_prefix_def bounded_write_def bounded_json_def sample_writer_def HISTORY_LIMIT_def HISTORY_BYTES_def)

lemma sample_cache:
  assumes "length (batches s) \<le> 1" "length (undo_stack s) \<le> 1" "length (redo_stack s) \<le> 1" "floor_offset s = 0"
  obtains c where "history_json_new sample_writer s = Some (Inr c)"
proof -
  from sample_build [OF assms(1)] obtain bs where bs: "build (json_batch sample_writer) (batches s) = Inr bs" "array_bytes bs = []"
    by (auto simp: sample_writer_def)
  from sample_build [OF assms(2)] obtain us where us: "build (json_entry sample_writer) (undo_stack s) = Inr us" "array_bytes us = []"
    by (auto simp: sample_writer_def)
  from sample_build [OF assms(3)] obtain rs where rs: "build (json_entry sample_writer) (redo_stack s) = Inr rs" "array_bytes rs = []"
    by (auto simp: sample_writer_def)
  from sample_prefix [OF assms(4)] obtain p where p: "json_prefix sample_writer s = Inr p" "length p = 24" by blast
  define c where "c = \<lparr>cache_epoch = history_epoch s, cache_prefix = p, cache_batches = bs, cache_undo = us, cache_redo = rs,
    cache_sha256 = ''''\<rparr>"
  have "json_encoded_bytes 0 c = Inr 69"
    by (simp add: json_encoded_bytes_def c_def p bs us rs checked_add_u64_def int_width_defs HISTORY_BYTES_def)
  then obtain sha cursor where "identities sample_writer s c = Inr (sha, cursor)"
    by (simp add: identities_def write_history_def HISTORY_BYTES_def bounded_json_def bounded_write_def sample_writer_def)
  moreover have "cache_matches sample_writer s (c\<lparr>cache_sha256 := sha\<rparr>)"
    using assms bs us rs p by (simp add: cache_matches_def c_def HISTORY_COMMANDS_def)
  ultimately have "history_json_new sample_writer s = Some (Inr (c\<lparr>cache_sha256 := sha\<rparr>))"
    by (simp add: history_json_new_iff)
  then show ?thesis by (rule that)
qed

definition sample_ingress :: "history_json \<Rightarrow> manual_ingress" where
  "sample_ingress c = \<lparr>ingress_generation = 1, ingress_encoder = sample_encoder, next_sequence = 1, predecessor = None,
     ingress_pending = [], ingress_bytes = 0, ingress_cache = c\<rparr>"

lemma sample_admission:
  obtains c e m' s' where "history_json_new sample_writer (core_state_new document_default 0) = Some (Inr c)"
    "ingress_ok sample_writer (sample_ingress c) (core_state_new document_default 0)" "is_journalled e"
    "manual_execute sample_writer Live sample_command (sample_ingress c) (core_state_new document_default 0) = Some (e, m', s')"
proof -
  let ?s = "core_state_new document_default 0"
  from sample_accepted obtain e s where x: "execute_command sample_command ?s = Some (e, s)" "is_document_changed e"
    by (auto split: option.splits)
  have ax: "execute_actor_command Live sample_command ?s = Some (e, s)"
    using x by (simp add: execute_actor_command_def sample_command_def core_state_new_def)
  have j: "is_journalled e" using journalled_changed [OF x(1)] x(2) by simp
  obtain c where c: "history_json_new sample_writer ?s = Some (Inr c)" by (rule sample_cache [of ?s]) (simp_all add: core_state_new_def)
  have fs: "length (batches s) = 1" "length (undo_stack s) = 1" "redo_stack s = []" "floor_offset s = 0"
    using x(1) execute_frame(2,7) [OF x(1)] x(2)
    by (cases rule: execute_command_cases; auto simp: sample_command_def after_edit_def log_batch_def core_state_new_def coalesce_def)+
  obtain c1 where c1: "history_json_new sample_writer s = Some (Inr c1)" by (rule sample_cache [of s]) (simp_all add: fs)
  define m where "m = sample_ingress c"
  let ?m1 = "m\<lparr>ingress_cache := c1\<lparr>cache_sha256 := cache_sha256 c\<rparr>\<rparr>"
  have ok: "ingress_ok sample_writer m ?s"
    using c by (simp add: ingress_ok_def queue_ok_def cache_current_def m_def sample_ingress_def MANUAL_BYTES_def core_state_new_def)
  have mb: "manual_message_bytes sample_writer item = Inr 0" for item by (simp add: manual_message_bytes_def sample_writer_def)
  from c1 obtain cursor where "identities sample_writer s (ingress_cache ?m1) = Inr (cache_sha256 c1, cursor)"
    by (auto simp: history_json_new_iff)
  then have "\<exists>y. admit sample_writer s 0 ?m1 = Inr y"
    using fs(1) mb
    by (auto simp: admit_def last_option_def m_def sample_ingress_def sample_encoder_def checked_add_u64_def int_width_defs MANUAL_BYTES_def)
  then obtain y where y: "admit sample_writer s 0 ?m1 = Inr y" by blast
  have "\<exists>m'. manual_execute sample_writer Live sample_command m ?s = Some (e, m', s)"
    using manual_execute_admits [OF ok _ _ _ ax j c1, of y] y c
    by (auto simp: m_def sample_ingress_def MANUAL_COMMANDS_def sample_command_def core_state_new_def history_json_new_iff cache_matches_def)
  then show ?thesis using that [OF c _ j] ok unfolding m_def by blast
qed

theorem manual_admission_atomic_witness:
  "\<exists>m e m' s'. manual_execute sample_writer Live sample_command m (core_state_new document_default 0) = Some (e, m', s')
    \<and> execute_actor_command Live sample_command (core_state_new document_default 0) = Some (e, s') \<and> ingress_ok sample_writer m' s'"
  using sample_admission manual_admission_atomic by metis

theorem manual_cache_equals_rebuild_witness:
  "\<exists>m e m' s'. manual_execute sample_writer Live sample_command m (core_state_new document_default 0) = Some (e, m', s')
    \<and> history_json_new sample_writer s' = Some (Inr (ingress_cache m'))"
  using sample_admission manual_cache_equals_rebuild by metis

end
