(* ===== verification/Actor_Props.thy ===== *)
theory Actor_Props
  imports Core_Actor Manual_Props
begin

text \<open>
  The core actor as a whole: every sequence of messages keeps the editing state in a session of the history, keeps the
  manual queue and cache consistent, and changes the history only through a message that is authorized for it.
\<close>

section \<open>Lemmas\<close>

subsection \<open>Sessions\<close>

lemma session_effects: "session s \<Longrightarrow> identity_effects s = []"
proof (induction rule: session.induct)
  case (step s s')
  have replayed: "identity_effects c = []" if "replay_batches bs c0 = Some (Inr c)" "identity_effects c0 = []" for bs c0 c
    using replay_induct [OF that(1), of "\<lambda>_ t. identity_effects t = []"] that(2) execute_frame(4) by blast
  from step.hyps(2) show ?case
  proof (cases rule: session_step.cases)
    case (command attachment cmd e)
    then show ?thesis using step.IH execute_frame(4) by (auto elim: execute_actor_command_cases)
  next
    case (begin_floor t actor i)
    then show ?thesis using step.IH by (auto simp: begin_floor_def Let_def split: option.splits if_splits)
  next
    case (tag_floor i tag ready r)
    then show ?thesis using step.IH by (auto simp: tag_floor_def Let_def split: option.splits if_splits)
  next
    case (settle_floor i commit r)
    then show ?thesis
      using step.IH
      by (auto simp: settle_floor_def floor_start_def core_state_new_def elim!: commit_floor_InrD replayed split: option.splits if_splits sum.splits)
  next
    case (restore h c)
    then show ?thesis
      by (auto simp: adopt_candidate_def core_state_new_def elim!: restore_InrD replayed split: option.splits)
  qed
qed (simp add: core_state_new_def)

lemma pbindE: "pbind m f = Some (Inr y) \<Longrightarrow> (\<And>x. m = Some (Inr x) \<Longrightarrow> f x = Some (Inr y) \<Longrightarrow> P) \<Longrightarrow> P"
  by auto

lemma recovery_keeps_offset:
  assumes "recovery_close J before reconciled = Some (Inr t)"
  shows "transition_before t = before \<and> snap_floor_offset (transition_after t) = snap_floor_offset before"
proof -
  have replay: "floor_offset s' = floor_offset s" if "replay_command cmd s = Some (Inr s')" for cmd s s'
    using that execute_frame(2) by (auto simp: replay_command_def bind_eq_Some_conv elim!: execute_actor_command_cases split: if_splits)
  let ?open = "cursor_undo (snap_cursor before) \<noteq> [] \<and> boundary_coalesce_key (last (cursor_undo (snap_cursor before))) \<noteq> None"
  let ?close = "\<lambda>c. if ?open then if cursor_redo (snap_cursor before) \<noteq> [] then Some (Inl Corrupt)
      else pbind (replay_command Undo c) (replay_command Redo) else Some (Inr c)"
  let ?fin = "\<lambda>c. let after = history c
      in if snap_document before \<noteq> snap_document after \<or> applied_operations before \<noteq> applied_operations after
            \<or> length (cursor_undo (snap_cursor before)) \<noteq> length (cursor_undo (snap_cursor after))
            \<or> cursor_redo (snap_cursor before) \<noteq> cursor_redo (snap_cursor after)
         then Some (Inl Corrupt) else Some (Inr \<lparr>transition_before = before, transition_after = after\<rparr>)"
  have "pbind (restore before) (\<lambda>c0. pbind (Some (adopt_candidate c0 (core_state_new (snap_baseline before) 0)))
      (\<lambda>c. pbind (?close c) ?fin)) = Some (Inr t)"
    using assms unfolding recovery_close_def by (simp only: split: if_split_asm sum.split_asm) simp_all
  then obtain c0 where r: "restore before = Some (Inr c0)"
    and 1: "pbind (Some (adopt_candidate c0 (core_state_new (snap_baseline before) 0))) (\<lambda>c. pbind (?close c) ?fin) = Some (Inr t)"
    by (rule pbindE)
  from 1 obtain c where a: "Some (adopt_candidate c0 (core_state_new (snap_baseline before) 0)) = Some (Inr c)"
    and 2: "pbind (?close c) ?fin = Some (Inr t)" by (rule pbindE)
  from 2 obtain c' where c: "?close c = Some (Inr c')" and 3: "?fin c' = Some (Inr t)" by (rule pbindE)
  have t: "transition_before t = before" "transition_after t = history c'" using 3 by (auto simp: Let_def split: if_splits)
  have "floor_offset c' = floor_offset c" using c replay by (auto simp only: pbind_Some option.inject sum.inject split: if_split_asm)
  moreover
  have "floor_offset c0 = snap_floor_offset before" using r by (auto elim: restore_InrD)
  ultimately show ?thesis using a t by (auto simp: history_def adopt_candidate_def split: option.splits)
qed

lemma settle_without_floor:
  "state_pending_floor s = None \<Longrightarrow> settle_floor i commit s = Some (r, s') \<Longrightarrow> s' = s"
  by (auto simp: settle_floor_def split: if_splits)

subsection \<open>Sessions of the actor\<close>

text \<open>A transition has no public constructor: it is a floor, a floor found within a budget or a recovery close.\<close>

fun message_ok :: "core_message \<Rightarrow> bool" where
  "message_ok (BeginFloor _ t) \<longleftrightarrow> floor_transition t \<or> (\<exists>J before reconciled. recovery_close J before reconciled = Some (Inr t))"
| "message_ok _ \<longleftrightarrow> True"

inductive actor_session :: "json_writer \<Rightarrow> (history_snapshot \<Rightarrow> int option) \<Rightarrow> core_actor \<Rightarrow> bool" for W J where
  spawned: "spawn_at identity doc revision = Inr a \<Longrightarrow> in_u64 revision \<Longrightarrow> actor_session W J a"
| message: "actor_session W J a \<Longrightarrow> message_ok msg \<Longrightarrow> actor_step W J msg a = Some (reply, events, a') \<Longrightarrow>
    batches_fit (actor_state a') \<Longrightarrow> actor_session W J a'"

definition manual_consistent :: "json_writer \<Rightarrow> core_actor \<Rightarrow> manual_ingress \<Rightarrow> bool" where
  "manual_consistent W a m \<longleftrightarrow> queue_ok W m \<and> state_pending_floor (actor_state a) = None
     \<and> history_json_new W (actor_state a) = Some (Inr (ingress_cache m)) \<and> ingress_generation m \<le> manual_generation a"

definition actor_ok :: "json_writer \<Rightarrow> core_actor \<Rightarrow> bool" where
  "actor_ok W a \<longleftrightarrow> session (actor_state a) \<and> (\<forall>m. actor_manual a = Some m \<longrightarrow> manual_consistent W a m)"

lemma manual_consistent_ok:
  "actor_ok W a \<Longrightarrow> actor_manual a = Some m \<Longrightarrow> ingress_ok W m (actor_state a)"
  by (auto simp: actor_ok_def manual_consistent_def ingress_ok_def cache_current_def intro: session_effects)

lemma session_commandI:
  "session s \<Longrightarrow> execute_actor_command attachment cmd s = Some (e, s') \<Longrightarrow> batches_fit s' \<Longrightarrow> session s'"
  by (auto intro: session.step session_step.command)

lemma session_adoptI:
  assumes "session s" "state_pending_floor s = None" "restore h = Some (Inr c)" "adopt_candidate c s = Inr s'" "batches_fit s'"
  shows "session s'" "history s' = h"
proof -
  from assms(4) have c: "batches s' = batches c" "history s' = history c"
    by (auto simp: adopt_candidate_def history_def split: option.splits)
  then have "batches_fit c" using assms(5) by (simp add: batches_fit_def)
  then show "session s'" using assms session.step session_step.restore by blast
  show "history s' = h" using c assms(3) by (auto elim: restore_InrD)
qed

lemma execute_actor_pending:
  "execute_actor_command attachment cmd s = Some (e, s') \<Longrightarrow> state_pending_floor s' = state_pending_floor s"
  using execute_frame(3) by (auto elim: execute_actor_command_cases)

lemma manual_execute_generation:
  "manual_execute W attachment cmd m s = Some (e, m', s') \<Longrightarrow> ingress_generation m' = ingress_generation m"
  by (auto simp: manual_execute_def finish_admission_def refresh_cache_def Let_def
      split: if_splits Option.bind_splits sum.splits prod.splits)

lemma manual_command_ok:
  assumes a: "actor_ok W a" and x: "manual_command W generation cmd a = Some (e, a')" and fit: "batches_fit (actor_state a')"
  shows "actor_ok W a'"
proof (cases "manual_at generation a")
  case None
  then show ?thesis using a x by (simp add: manual_command_def)
next
  case (Some m)
  then have m: "actor_manual a = Some m" by (auto simp: manual_at_def split: option.splits if_splits)
  from x Some obtain m' s' where ex: "manual_execute W (actor_attachment a) cmd m (actor_state a) = Some (e, m', s')"
    and a': "a' = a\<lparr>actor_manual := Some m', actor_state := s'\<rparr>" by (auto simp: manual_command_def)
  note ok = manual_consistent_ok [OF a m]
  have c: "manual_consistent W a m" and s: "session (actor_state a)" using a m by (simp_all add: actor_ok_def)
  show ?thesis
  proof (cases "is_query cmd \<or> actor_attachment a \<noteq> Live")
    case True
    then have "execute_actor_command (actor_attachment a) cmd (actor_state a) = Some (e, s')" "m' = m"
      using ex by (auto simp: manual_execute_def)
    moreover from this(1) True have "s' = (actor_state a)\<lparr>identity_effects := []\<rparr> \<or> s' = actor_state a"
      by (cases cmd) (auto simp: execute_actor_command_def execute_command_def execute_command_inner_def record_batch_def
          split: if_splits)
    moreover have "(actor_state a)\<lparr>identity_effects := []\<rparr> = actor_state a" using session_effects [OF s] by simp
    ultimately show ?thesis using a a' m by (auto simp: actor_ok_def manual_consistent_def)
  next
    case False
    then have q: "\<not> is_query cmd" and live: "actor_attachment a = Live" by simp_all
    note sp = manual_execute_live [OF ok q ex [unfolded live]]
    show ?thesis
    proof (cases "is_journalled e")
      case True
      then have "execute_actor_command Live cmd (actor_state a) = Some (e, s')" "queue_ok W m'"
        "history_json_new W s' = Some (Inr (ingress_cache m'))" using sp by simp_all
      moreover have "ingress_generation m' = ingress_generation m" using manual_execute_generation [OF ex] .
      ultimately show ?thesis
        using session_commandI [OF s] execute_actor_pending fit c a' by (auto simp: actor_ok_def manual_consistent_def)
    next
      case False
      then show ?thesis using sp c s a' by (auto simp: actor_ok_def manual_consistent_def)
    qed
  qed
qed

subsection \<open>The other messages\<close>

lemma authorized_InrD: "authorized requested a = Inr u \<Longrightarrow> actor_attachment a \<noteq> Sealed \<and> actor_owner a = Some requested"
  by (auto simp: authorized_def authorize_attachment_def split: if_splits)

lemma bind_manual_ok:
  assumes a: "actor_ok W a" and x: "bind_manual W requested encoder recovery a = Some (r, a')"
  shows "actor_ok W a'"
proof -
  have "a' = a \<or> (\<exists>g m. state_pending_floor (actor_state a) = None \<and> manual_ingress_new W (actor_state a) g encoder = Some (Inr m)
      \<and> a' = a\<lparr>manual_generation := g, actor_manual := Some m, actor_attachment := Live\<rparr>)"
    using x by (auto simp: bind_manual_def Let_def split: sum.split_asm if_split_asm option.split_asm)
  then show ?thesis
    using a by (auto simp: actor_ok_def manual_consistent_def manual_ingress_new_def queue_ok_def MANUAL_BYTES_def)
qed

lemma ack_loop_ok:
  assumes "queue_ok W m" "length prefix \<le> length (ingress_pending m)"
  shows "\<exists>m'. ack_loop W prefix m = Some (Inr (), m') \<and> queue_ok W m' \<and> ingress_pending m' = drop (length prefix) (ingress_pending m)
    \<and> m' = m\<lparr>ingress_pending := ingress_pending m', ingress_bytes := ingress_bytes m'\<rparr>"
  using assms
proof (induction prefix arbitrary: m)
  case Nil
  then show ?case by simp
next
  case (Cons p prefix)
  then obtain item pending where ip: "ingress_pending m = item # pending" by (cases "ingress_pending m") auto
  from Cons.prems(1) obtain sizes where sz: "map (manual_message_bytes W) (ingress_pending m) = map Inr sizes" "ingress_bytes m = sum_list sizes"
    by (auto simp: queue_ok_def)
  then obtain n ns where n: "sizes = n # ns" "manual_message_bytes W item = Inr n" "map (manual_message_bytes W) pending = map Inr ns"
    using ip by (cases sizes) auto
  have nn: "0 \<le> n" and ns: "0 \<le> sum_list ns"
  proof -
    show "0 \<le> n" by (rule message_bytes_nonneg [OF n(2)])
    have "0 \<le> x" if "x \<in> set ns" for x
    proof -
      have "Inr x \<in> set (map (manual_message_bytes W) pending)" using that n(3) by simp
      then show ?thesis using message_bytes_nonneg by fastforce
    qed
    then show "0 \<le> sum_list ns" by (rule sum_list_nonneg)
  qed
  let ?m = "m\<lparr>ingress_pending := pending, ingress_bytes := ingress_bytes m - n\<rparr>"
  have seq: "map accepted_sequence pending = map (\<lambda>i. next_sequence m - int (length pending) + int i) [0..<length pending]"
    using Cons.prems(1) ip by (auto simp: queue_ok_def upt_conv_Cons map_Suc_upt [symmetric] simp del: upt_Suc)
  have "queue_ok W ?m"
    using Cons.prems(1) n nn ns sz ip seq by (auto simp: queue_ok_def split: if_splits)
  moreover have "length prefix \<le> length (ingress_pending ?m)" using Cons.prems(2) ip by simp
  ultimately obtain m' where "ack_loop W prefix ?m = Some (Inr (), m')" "queue_ok W m'" "ingress_pending m' = drop (length prefix) pending"
    "m' = m\<lparr>ingress_pending := ingress_pending m', ingress_bytes := ingress_bytes m'\<rparr>"
    using Cons.IH [of ?m] by auto
  then show ?case using ip n ns sz by auto
qed

lemma manual_ack_ok:
  assumes a: "actor_ok W a" and x: "manual_ack W requested generation prefix a = Some (r, a')"
  shows "actor_ok W a'"
proof -
  have "a' = a \<or> (\<exists>m m' r. actor_manual a = Some m \<and> length prefix \<le> length (ingress_pending m)
      \<and> ack_loop W prefix m = Some (r, m') \<and> a' = a\<lparr>actor_manual := Some m'\<rparr>)"
    using x by (auto simp: manual_ack_def manual_at_def split: option.splits if_splits)
  then show ?thesis
  proof (elim disjE exE conjE)
    fix m m' r assume m: "actor_manual a = Some m" "length prefix \<le> length (ingress_pending m)" "ack_loop W prefix m = Some (r, m')"
      "a' = a\<lparr>actor_manual := Some m'\<rparr>"
    have "queue_ok W m" using a m(1) by (simp add: actor_ok_def manual_consistent_def)
    from ack_loop_ok [OF this m(2)] m(3) have "queue_ok W m'" "ingress_cache m' = ingress_cache m" "ingress_generation m' = ingress_generation m"
      by (auto, (metis manual_ingress.select_convs manual_ingress.surjective manual_ingress.update_convs)+)
    then show ?thesis using a m by (simp add: actor_ok_def manual_consistent_def)
  qed (use a in simp)
qed

lemma plain_command_ok:
  assumes a: "actor_ok W a" and x: "plain_command cmd a = Some (e, a')" and fit: "batches_fit (actor_state a')"
  shows "actor_ok W a'"
proof (cases "actor_manual a \<noteq> None \<and> \<not> is_query cmd")
  case True
  then show ?thesis using a x by (simp add: plain_command_def)
next
  case False
  then have "map_option (\<lambda>(e, s). (e, a\<lparr>actor_state := s\<rparr>)) (execute_actor_command (actor_attachment a) cmd (actor_state a))
      = Some (e, a')" using x unfolding plain_command_def by (simp only: if_False)
  then obtain s' where ex: "execute_actor_command (actor_attachment a) cmd (actor_state a) = Some (e, s')"
    and a': "a' = a\<lparr>actor_state := s'\<rparr>" by (auto simp only: map_option_eq_Some prod.case prod.inject split_paired_Ex)
  have s: "session (actor_state a)" using a by (simp add: actor_ok_def)
  show ?thesis
  proof (cases "is_query cmd")
    case True
    then have "s' = (actor_state a)\<lparr>identity_effects := []\<rparr>"
      using ex by (cases cmd) (auto simp: execute_actor_command_def execute_command_def execute_command_inner_def record_batch_def)
    moreover have "(actor_state a)\<lparr>identity_effects := []\<rparr> = actor_state a" using session_effects [OF s] by simp
    ultimately have "a' = a" using a' by simp
    then show ?thesis using a by simp
  next
    case q: False
    then have "actor_manual a = None" using False by simp
    then show ?thesis using a' session_commandI [OF s ex] fit by (simp add: actor_ok_def)
  qed
qed

lemma tag_pending_ok:
  assumes a: "actor_ok W a" and x: "tag_pending requested i tag ready a = (r, a')"
  shows "actor_ok W a'"
proof -
  obtain s' r' where t: "tag_floor i tag ready (actor_state a) = (r', s')" by fastforce
  have "state_pending_floor (actor_state a) = None \<Longrightarrow> s' = actor_state a" using t by (simp add: tag_floor_def)
  moreover have "session s'" using a t session.step session_step.tag_floor by (auto simp: actor_ok_def)
  moreover have "a' = a \<or> a' = a\<lparr>actor_state := s'\<rparr>" using x t by (auto simp: tag_pending_def split: sum.splits)
  ultimately show ?thesis using a by (auto simp: actor_ok_def manual_consistent_def)
qed

lemma begin_pending_ok:
  assumes a: "actor_ok W a" and x: "begin_pending requested t a = Some (r, a')" and t: "message_ok (BeginFloor requested t)"
  shows "actor_ok W a'"
proof (cases "\<exists>i s'. begin_floor (actor_identity a) t (actor_state a) = Some (Inr (i, s')) \<and> actor_manual a = None \<and> a' = a\<lparr>actor_state := s'\<rparr>")
  case True
  then obtain i s' where b: "begin_floor (actor_identity a) t (actor_state a) = Some (Inr (i, s'))" "actor_manual a = None"
    "a' = a\<lparr>actor_state := s'\<rparr>" by blast
  have "history (actor_state a) = transition_before t" "\<not> snap_floor_offset (transition_after t) \<le> floor_offset (actor_state a)"
    using b(1) by (auto simp: begin_floor_def Let_def split: option.split_asm if_split_asm)
  then have "floor_transition t" using t recovery_keeps_offset by (auto simp: history_def)
  then show ?thesis using a b session.step session_step.begin_floor by (auto simp: actor_ok_def)
next
  case False
  then have "a' = a" using x by (auto simp: begin_pending_def split: sum.split_asm if_split_asm option.split_asm)
  then show ?thesis using a by simp
qed

lemma settle_pending_ok:
  assumes a: "actor_ok W a" and x: "settle_pending requested i expected commit a = Some (r, events, a')"
  shows "actor_ok W a'"
proof -
  have "a' = a \<or> (\<exists>r s'. settle_floor i commit (actor_state a) = Some (r, s') \<and> a' = a\<lparr>actor_state := s'\<rparr>)"
    using x by (auto simp: settle_pending_def Let_def split: sum.split_asm if_split_asm option.split_asm)
  then show ?thesis
  proof (elim disjE exE conjE)
    fix r s' assume s: "settle_floor i commit (actor_state a) = Some (r, s')" "a' = a\<lparr>actor_state := s'\<rparr>"
    then show ?thesis
      using a session.step [OF _ session_step.settle_floor [OF s(1)]] settle_without_floor [OF _ s(1)]
      by (auto simp: actor_ok_def manual_consistent_def)
  qed (use a in simp)
qed

lemma install_frozen_InrD:
  assumes "install_frozen J requested given after pending checkpoint a = Some (Inr a')"
  obtains c s' where "actor_attachment a = Frozen" "actor_owner a = Some requested" "given = current_cut a"
    "state_pending_floor (actor_state a) = None" "restore after = Some (Inr c)" "adopt_candidate c (actor_state a) = Inr s'"
    "a' = a\<lparr>actor_state := s', actor_manual := None\<rparr>"
  using assms authorized_InrD [of requested a] by (auto simp: install_frozen_def split: if_split_asm)

lemma restore_history_InrD:
  assumes "restore_history requested h expected a = Some (Inr a')"
  obtains c s' where "actor_attachment a = Live" "actor_manual a = None" "actor_owner a = None \<or> actor_owner a = requested"
    "state_pending_floor (actor_state a) = None" "restore h = Some (Inr c)" "adopt_candidate c (actor_state a) = Inr s'"
    "a' = a\<lparr>actor_state := s'\<rparr>"
  using assms by (cases "actor_attachment a") (auto simp: restore_history_def Let_def split: if_split_asm)

lemma actor_ok_step:
  assumes a: "actor_ok W a" and m: "message_ok msg" and x: "actor_step W J msg a = Some (reply, events, a')"
    and fit: "batches_fit (actor_state a')"
  shows "actor_ok W a'"
proof -
  have s: "session (actor_state a)" using a by (simp add: actor_ok_def)
  show ?thesis
  proof (cases msg)
    case (InstallFrozen requested given after pending checkpoint)
    then consider "a' = a" | "install_frozen J requested given after pending checkpoint a = Some (Inr a')"
      using x by (auto split: option.split_asm sum.split_asm)
    then show ?thesis
      using a fit session_adoptI(1) [OF s] by cases (auto simp: actor_ok_def elim!: install_frozen_InrD)
  next
    case (RestoreHistory requested h expected)
    then consider "a' = a" | "restore_history requested h expected a = Some (Inr a')"
      using x by (auto split: option.split_asm sum.split_asm)
    then show ?thesis
      using a fit session_adoptI(1) [OF s] by cases (auto simp: actor_ok_def elim!: restore_history_InrD)
  next
    case (BindOwner requested)
    then show ?thesis using x a by (auto simp: bind_owner_def actor_ok_def manual_consistent_def split: if_split_asm)
  next
    case (CaptureCut requested freeze)
    then show ?thesis
      using x a by (auto simp: capture_cut_def actor_ok_def manual_consistent_def split: if_split_asm sum.split_asm)
  next
    case (FinishAttachment requested given seal)
    then show ?thesis
      using x a by (auto simp: finish_attachment_def actor_ok_def manual_consistent_def split: if_split_asm sum.split_asm)
  next
    case (BeginFloor requested t)
    then obtain r where "begin_pending requested t a = Some (r, a')" using x by auto
    then show ?thesis using begin_pending_ok [OF a] m BeginFloor by metis
  qed (use a x fit in \<open>auto intro: bind_manual_ok [OF a] manual_ack_ok [OF a] manual_command_ok [OF a] plain_command_ok [OF a]
      tag_pending_ok [OF a] settle_pending_ok [OF a] a split: prod.split_asm\<close>)
qed

lemma actor_session_ok: "actor_session W J a \<Longrightarrow> actor_ok W a"
proof (induction rule: actor_session.induct)
  case (spawned identity doc revision a)
  then show ?case
    using session.start [of doc revision] by (auto simp: spawn_at_def rbind_eq_Inr actor_ok_def actor_new_def valid_document_def)
next
  case (message a msg reply events a')
  then show ?case using actor_ok_step by blast
qed

section \<open>Properties\<close>

text \<open>
  Claim C2. The actor implements the editing session. After any sequence of messages, whoever sends them and in
  whatever order, the state the actor holds is one a session of edits, undos, saves and restores reaches, so
  everything proved of sessions holds of the running actor; while a manual producer is bound, no save is pending,
  its queue is within its budgets, and its cached history is the one of the state, so it is never rebuilt.
\<close>

theorem actor_refines_session:
  assumes "actor_session W J a"
  shows "session (actor_state a) \<and>
    (case actor_manual a of
       None \<Rightarrow> True
     | Some m \<Rightarrow> queue_ok W m \<and> state_pending_floor (actor_state a) = None
         \<and> history_json_new W (actor_state a) = Some (Inr (ingress_cache m)))"
  using actor_session_ok [OF assms] by (auto simp: actor_ok_def manual_consistent_def split: option.split)

text \<open>Who may change the history.\<close>

fun may_change :: "core_message \<Rightarrow> core_actor \<Rightarrow> bool" where
  "may_change (CommandMessage cmd) a \<longleftrightarrow> actor_attachment a = Live \<and> actor_manual a = None \<and> \<not> is_query cmd"
| "may_change (RequestMessage cmd) a \<longleftrightarrow> actor_attachment a = Live \<and> actor_manual a = None \<and> \<not> is_query cmd"
| "may_change (ManualCommand generation cmd) a \<longleftrightarrow> actor_attachment a = Live \<and> manual_at generation a \<noteq> None \<and> \<not> is_query cmd"
| "may_change (SettleFloor requested i _ commit) a \<longleftrightarrow>
     actor_attachment a \<noteq> Sealed \<and> actor_owner a = Some requested \<and> actor_manual a = None \<and> commit
     \<and> (\<exists>p. state_pending_floor (actor_state a) = Some p \<and> save_id (floor_save p) = i)"
| "may_change (InstallFrozen requested given _ _ _) a \<longleftrightarrow>
     actor_attachment a = Frozen \<and> actor_owner a = Some requested \<and> given = current_cut a"
| "may_change (RestoreHistory requested _ _) a \<longleftrightarrow>
     actor_attachment a = Live \<and> actor_manual a = None \<and> (actor_owner a = None \<or> actor_owner a = requested)"
| "may_change _ _ \<longleftrightarrow> False"

lemma execute_idle:
  assumes "session s" "execute_actor_command attachment cmd s = Some (e, s')" "is_query cmd \<or> attachment \<noteq> Live"
  shows "s' = s"
proof -
  have "s\<lparr>identity_effects := []\<rparr> = s" using session_effects [OF assms(1)] by simp
  then show ?thesis
    using assms(2,3)
    by (cases cmd) (auto simp: execute_actor_command_def execute_command_def execute_command_inner_def record_batch_def split: if_splits)
qed

lemma plain_command_changes:
  assumes "session (actor_state a)" "plain_command cmd a = Some (e, a')" "history (actor_state a') \<noteq> history (actor_state a)"
  shows "actor_attachment a = Live \<and> actor_manual a = None \<and> \<not> is_query cmd"
proof (rule ccontr)
  assume n: "\<not> ?thesis"
  show False
  proof (cases "actor_manual a \<noteq> None \<and> \<not> is_query cmd")
    case True
    then show ?thesis using assms(2,3) by (simp add: plain_command_def)
  next
    case False
    then have "map_option (\<lambda>(e, s). (e, a\<lparr>actor_state := s\<rparr>)) (execute_actor_command (actor_attachment a) cmd (actor_state a))
        = Some (e, a')" using assms(2) unfolding plain_command_def by (simp only: if_False)
    then obtain s' where "execute_actor_command (actor_attachment a) cmd (actor_state a) = Some (e, s')" "actor_state a' = s'" by auto
    moreover have "is_query cmd \<or> actor_attachment a \<noteq> Live" using n False by blast
    ultimately show ?thesis using execute_idle [OF assms(1)] assms(3) by metis
  qed
qed

lemma manual_command_changes:
  assumes "session (actor_state a)" "manual_command W generation cmd a = Some (e, a')" "history (actor_state a') \<noteq> history (actor_state a)"
  shows "actor_attachment a = Live \<and> manual_at generation a \<noteq> None \<and> \<not> is_query cmd"
proof (rule ccontr)
  assume n: "\<not> ?thesis"
  have m: "manual_at generation a \<noteq> None" using assms(2,3) by (auto simp: manual_command_def split: option.split_asm)
  then have "is_query cmd \<or> actor_attachment a \<noteq> Live" using n by blast
  moreover from this m assms(2) obtain s' where "execute_actor_command (actor_attachment a) cmd (actor_state a) = Some (e, s')" "actor_state a' = s'"
    by (auto simp: manual_command_def manual_execute_def)
  ultimately show False using execute_idle [OF assms(1)] assms(3) by metis
qed

lemma history_pending [simp]: "history (s\<lparr>state_pending_floor := x\<rparr>) = history s"
  by (simp add: history_def)

lemma settle_pending_changes:
  assumes a: "actor_ok W a" and x: "settle_pending requested i expected commit a = Some (r, events, a')"
    and h: "history (actor_state a') \<noteq> history (actor_state a)"
  shows "may_change (SettleFloor requested i expected commit) a"
proof -
  from x h obtain r s' where u: "authorized requested a = Inr ()" and s: "settle_floor i commit (actor_state a) = Some (r, s')"
    and a': "actor_state a' = s'"
    by (auto simp: settle_pending_def Let_def split: sum.split_asm if_split_asm option.split_asm)
  have "commit \<and> (\<exists>p. state_pending_floor (actor_state a) = Some p \<and> save_id (floor_save p) = i)"
    using s h [unfolded a'] by (auto simp: settle_floor_def split: if_split_asm option.split_asm)
  moreover from this have "actor_manual a = None" using a by (auto simp: actor_ok_def manual_consistent_def)
  ultimately show ?thesis using authorized_InrD [OF u] by auto
qed

text \<open>
  Claim C6. The history changes only with authority. Whatever message the actor handles, if the exported history is
  different afterwards, then the message was an edit while the session was live (from the bound manual producer
  when there is one, from anyone otherwise), the owner's commit of the pending save, the owner's installation at the exact
  frozen cut, or a restore on a live actor without producer by its owner. A sealed actor therefore never changes,
  a frozen one only through its owner, and no plain command or restore passes a bound manual producer.
\<close>

theorem history_changes_are_authorized:
  assumes a: "actor_session W J a" and x: "actor_step W J msg a = Some (reply, events, a')"
    and h: "history (actor_state a') \<noteq> history (actor_state a)"
  shows "may_change msg a"
proof -
  note ok = actor_session_ok [OF a]
  have s: "session (actor_state a)" using ok by (simp add: actor_ok_def)
  show ?thesis
  proof (cases msg)
    case (InstallFrozen requested given after pending checkpoint)
    then have "install_frozen J requested given after pending checkpoint a = Some (Inr a')"
      using x h by (auto split: option.split_asm sum.split_asm)
    then show ?thesis using InstallFrozen by (auto elim: install_frozen_InrD)
  next
    case (RestoreHistory requested hist expected)
    then have "restore_history requested hist expected a = Some (Inr a')" using x h by (auto split: option.split_asm sum.split_asm)
    then show ?thesis using RestoreHistory by (auto elim: restore_history_InrD)
  next
    case (SettleFloor requested i expected commit)
    then obtain r where "settle_pending requested i expected commit a = Some (r, events, a')" using x by auto
    then show ?thesis using settle_pending_changes [OF ok _ h] SettleFloor by blast
  next
    case (BindOwner requested)
    then show ?thesis using x h by (auto simp: bind_owner_def split: if_split_asm)
  next
    case (CaptureCut requested freeze)
    then show ?thesis using x h by (auto simp: capture_cut_def split: if_split_asm sum.split_asm)
  next
    case (FinishAttachment requested given seal)
    then show ?thesis using x h by (auto simp: finish_attachment_def split: if_split_asm sum.split_asm)
  next
    case (BindManual requested encoder recovery)
    then show ?thesis using x h by (auto simp: bind_manual_def Let_def split: sum.split_asm if_split_asm option.split_asm)
  next
    case (ManualAck requested generation prefix)
    then show ?thesis using x h by (auto simp: manual_ack_def split: if_split_asm option.split_asm)
  next
    case (TagFloor requested i tag ready)
    then show ?thesis
      using x h by (auto simp: tag_pending_def tag_floor_def history_def Let_def split: sum.split_asm if_split_asm option.split_asm)
  next
    case (BeginFloor requested t)
    then show ?thesis
      using x h by (auto simp: begin_pending_def begin_floor_def history_def Let_def split: sum.split_asm if_split_asm option.split_asm)
  qed (use x h plain_command_changes [OF s] manual_command_changes [OF s] in auto)
qed

text \<open>
  Saving always frees the queue. The owner can acknowledge any prefix of a bound producer's pending items:
  the acknowledgement succeeds, never underflows the byte count, removes exactly that prefix and changes nothing of
  the editing state.
\<close>

theorem manual_ack_succeeds:
  assumes "actor_session W J a" "manual_at generation a = Some m" "actor_owner a = Some requested" "ingress_pending m = prefix @ rest"
  shows "\<exists>m'. actor_step W J (ManualAck requested generation prefix) a = Some (UnitReply (Inr ()), [], a\<lparr>actor_manual := Some m'\<rparr>)
    \<and> ingress_pending m' = rest \<and> queue_ok W m'"
proof -
  have "actor_manual a = Some m" using assms(2) by (auto simp: manual_at_def split: option.split_asm if_split_asm)
  then have "queue_ok W m" using actor_session_ok [OF assms(1)] by (simp add: actor_ok_def manual_consistent_def)
  from ack_loop_ok [OF this, of prefix] assms(4) obtain m' where "ack_loop W prefix m = Some (Inr (), m')" "ingress_pending m' = rest"
    "queue_ok W m'" by auto
  moreover have "list_all (\<lambda>(x, y). x = y) (zip prefix (prefix @ rest))" by (induction prefix) auto
  ultimately show ?thesis using assms by (intro exI [of _ m']) (simp add: manual_ack_def)
qed

subsection \<open>A bound producer\<close>

definition sample_actor :: core_actor where
  "sample_actor = (actor_new 1 document_default 0)\<lparr>actor_owner := Some 7\<rparr>"

lemma sample_actor_session: "actor_session W J sample_actor"
proof (rule actor_session.message)
  show "actor_session W J (actor_new 1 document_default 0)"
    by (rule actor_session.spawned [of 1 document_default 0]) (simp_all add: spawn_at_def document_default_valid int_width_defs)
  show "actor_step W J (BindOwner 7) (actor_new 1 document_default 0) = Some (UnitReply (Inr ()), [], sample_actor)"
    by (simp add: bind_owner_def sample_actor_def actor_new_def)
qed (simp_all add: sample_actor_def actor_new_def batches_fit_def core_state_new_def int_width_defs)

text \<open>The owner binds a producer, which makes one edit; the edit waits in the queue.\<close>

lemma sample_producer:
  obtains a m item e a1 where "actor_session sample_writer J a" "actor_manual a = Some m" "ingress_pending m = [item]"
    "ingress_generation m = 1" "actor_owner a = Some 7" "actor_session sample_writer J a1"
    "actor_step sample_writer J (ManualCommand 1 sample_command) a1 = Some (EventReply e, [e], a)"
    "history (actor_state a) \<noteq> history (actor_state a1)"
proof -
  let ?s = "core_state_new document_default 0"
  obtain c e m' s' where c: "history_json_new sample_writer ?s = Some (Inr c)" and ok: "ingress_ok sample_writer (sample_ingress c) ?s"
    and j: "is_journalled e" and x: "manual_execute sample_writer Live sample_command (sample_ingress c) ?s = Some (e, m', s')"
    by (rule sample_admission)
  define a1 where "a1 = sample_actor\<lparr>manual_generation := 1, actor_manual := Some (sample_ingress c)\<rparr>"
  have st: "actor_state sample_actor = ?s" "actor_attachment sample_actor = Live" "actor_owner sample_actor = Some 7"
    "actor_manual sample_actor = None" "manual_generation sample_actor = 0" by (simp_all add: sample_actor_def actor_new_def)
  have "actor_step sample_writer J (BindManual 7 sample_encoder None) sample_actor = Some (GenerationReply (Inr 1), [], a1)"
    using st c by (simp add: bind_manual_def authorized_def authorize_attachment_def manual_ingress_new_def checked_add_u64_def
        int_width_defs a1_def sample_ingress_def core_state_new_def pbind_def)
  then have s1: "actor_session sample_writer J a1"
    using actor_session.message [OF sample_actor_session, of "BindManual 7 sample_encoder None" sample_writer J]
    by (simp add: a1_def st batches_fit_def core_state_new_def int_width_defs)
  define a where "a = a1\<lparr>actor_manual := Some m', actor_state := s'\<rparr>"
  have step: "actor_step sample_writer J (ManualCommand 1 sample_command) a1 = Some (EventReply e, [e], a)"
    using x st by (simp add: manual_command_def manual_at_def a1_def a_def sample_ingress_def)
  have q: "\<not> is_query sample_command" by (simp add: sample_command_def)
  from manual_execute_live [OF ok q x] j obtain item where ex: "execute_actor_command Live sample_command ?s = Some (e, s')"
    and item: "ingress_pending m' = [item]" by (auto simp: sample_ingress_def)
  from actor_journalled [OF ex j] have n: "length (batches s') = 1"
    using execute_frame(7) [of sample_command ?s e s'] by (auto simp: core_state_new_def)
  have fit: "batches_fit (actor_state a)" using n by (simp add: a_def batches_fit_def int_width_defs)
  have "actor_session sample_writer J a" by (rule actor_session.message [OF s1 _ step fit]) simp
  moreover have "history (actor_state a) \<noteq> history (actor_state a1)"
    using n by (auto simp: a_def a1_def st history_def core_state_new_def)
  moreover have "ingress_generation m' = 1" using manual_execute_generation [OF x] by (simp add: sample_ingress_def)
  ultimately show ?thesis
    using that [of a m' item a1 e] item s1 step by (simp add: a_def a1_def st)
qed

theorem actor_refines_session_witness:
  "\<exists>(a :: core_actor) m item. actor_manual a = Some m \<and> ingress_pending m = [item] \<and> session (actor_state a)
    \<and> history_json_new sample_writer (actor_state a) = Some (Inr (ingress_cache m))"
proof -
  obtain a m item e a1 where a: "actor_session sample_writer (\<lambda>_. None) a" and m: "actor_manual a = Some m" "ingress_pending m = [item]"
    by (rule sample_producer)
  then show ?thesis using actor_refines_session [OF a] by auto
qed

theorem history_changes_are_authorized_witness:
  "\<exists>e a a1. actor_step sample_writer (\<lambda>_. None) (ManualCommand 1 sample_command) a1 = Some (EventReply e, [e], a)
    \<and> may_change (ManualCommand 1 sample_command) a1"
proof -
  obtain a m item e a1 where "actor_session sample_writer (\<lambda>_. None) a1"
    "actor_step sample_writer (\<lambda>_. None) (ManualCommand 1 sample_command) a1 = Some (EventReply e, [e], a)"
    "history (actor_state a) \<noteq> history (actor_state a1)"
    by (rule sample_producer)
  then show ?thesis using history_changes_are_authorized by metis
qed

theorem manual_ack_succeeds_witness:
  "\<exists>a m item m'. actor_manual a = Some m \<and> ingress_pending m = [item] \<and> ingress_pending m' = []
    \<and> actor_step sample_writer (\<lambda>_. None) (ManualAck 7 1 [item]) a = Some (UnitReply (Inr ()), [], a\<lparr>actor_manual := Some m'\<rparr>)"
proof -
  obtain a m item e a1 where a: "actor_session sample_writer (\<lambda>_. None) a" and m: "actor_manual a = Some m" "ingress_pending m = [item]"
    "ingress_generation m = 1" "actor_owner a = Some 7" by (rule sample_producer)
  have "manual_at 1 a = Some m" using m by (simp add: manual_at_def)
  then show ?thesis using manual_ack_succeeds [OF a _ m(4), of 1 m "[item]" "[]"] m by auto
qed

end
