(* ===== verification/Rust_Text.thy ===== *)
theory Rust_Text
  imports Rust_Prelude
begin

text \<open>
  Rust's \<^verbatim>\<open>str\<close> where the code works on its characters: a text is the list of its Unicode scalar values, with
  the methods of the standard library the transcript and caption code calls (the type and its whitespace are in
  \<open>Rust_Prelude\<close>).
\<close>

section \<open>Definitions\<close>

definition ascii :: "string \<Rightarrow> utext" where
  "ascii s = map of_char s"

definition trim_end_matches :: "(int \<Rightarrow> bool) \<Rightarrow> utext \<Rightarrow> utext" where
  "trim_end_matches P t = rev (dropWhile P (rev t))"

definition trim_matches :: "(int \<Rightarrow> bool) \<Rightarrow> utext \<Rightarrow> utext" where
  "trim_matches P t = trim_end_matches P (dropWhile P t)"

definition trim :: "utext \<Rightarrow> utext" where
  "trim t = trim_matches is_whitespace t"

fun split_on :: "(int \<Rightarrow> bool) \<Rightarrow> utext \<Rightarrow> utext \<Rightarrow> utext list" where
  "split_on P acc [] = [rev acc]"
| "split_on P acc (c # cs) = (if P c then rev acc # split_on P [] cs else split_on P (c # acc) cs)"

definition split_whitespace :: "utext \<Rightarrow> utext list" where
  "split_whitespace t = filter (\<lambda>w. w \<noteq> []) (split_on is_whitespace [] t)"

definition starts_with :: "utext \<Rightarrow> utext \<Rightarrow> bool" where
  "starts_with p t \<longleftrightarrow> take (length p) t = p"

definition ends_with :: "utext \<Rightarrow> utext \<Rightarrow> bool" where
  "ends_with p t \<longleftrightarrow> drop (length t - length p) t = p"

fun join :: "utext \<Rightarrow> utext list \<Rightarrow> utext" where
  "join sep [] = []"
| "join sep [w] = w"
| "join sep (w # v # ws) = w @ sep @ join sep (v # ws)"

section \<open>Lemmas\<close>

lemma split_on_words: "w \<in> set (split_on P acc t) \<Longrightarrow> list_all (\<lambda>c. \<not> P c) acc \<Longrightarrow> list_all (\<lambda>c. \<not> P c) w"
  by (induction P acc t arbitrary: w rule: split_on.induct) (auto simp: list_all_rev split: if_split_asm)

lemma split_whitespace_word:
  "w \<in> set (split_whitespace t) \<Longrightarrow> w \<noteq> [] \<and> list_all (\<lambda>c. \<not> is_whitespace c) w"
  using split_on_words [of w is_whitespace "[]" t] by (auto simp: split_whitespace_def)

lemma split_on_append:
  "list_all (\<lambda>c. \<not> P c) w \<Longrightarrow> split_on P acc (w @ t) = split_on P (rev w @ acc) t"
  by (induction w arbitrary: acc) simp_all

text \<open>Joining words by one blank and splitting again gives the words back.\<close>

lemma split_join:
  "list_all (\<lambda>w. list_all (\<lambda>c. \<not> is_whitespace c) w \<and> w \<noteq> []) ws \<Longrightarrow>
     split_whitespace (join (ascii '' '') ws) = ws"
proof (induction "ascii '' ''" ws rule: join.induct)
  case (3 w v ws)
  have s: "is_whitespace 32" by (simp add: is_whitespace_def)
  from 3 s show ?case
    by (simp add: split_whitespace_def split_on_append ascii_def)
qed (simp_all add: split_whitespace_def split_on_append [where t = "[]", simplified])

end
