(* ===== verification/Transcript.thy ===== *)
theory Transcript
  imports Operation Rust_Text
begin

text \<open>
  Text-based editing, from recognised speech to a batch of operations:
  \<^verbatim>\<open>extract_words\<close> and \<^verbatim>\<open>map_timeline_words\<close> of \<^verbatim>\<open>crates/kinewright-media/src/transcript.rs\<close>, the cut ranges of
  \<^verbatim>\<open>crates/kinewright-core/src/transcript_edit.rs\<close> and the planner of
  \<^verbatim>\<open>crates/kinewright-app/src/transcript_edit.rs\<close>. What the speech recogniser returned is data: a segment holds its
  tokens (\<open>None\<close> where \<^verbatim>\<open>get_token\<close> fails) and the text and the times of both, a text that is not valid being
  the error the library reports. Error messages are constructors that carry what the message shows.
\<close>

section \<open>Definitions\<close>

subsection \<open>Words from recognised segments\<close>

record whisper_token =
  token_text :: "string + utext"
  token_t0 :: int
  token_t1 :: int

record whisper_segment =
  segment_tokens :: "whisper_token option list"
  segment_text :: "string + utext"
  segment_start :: int
  segment_end :: int

record transcript_word =
  word_text :: utext
  word_start :: timecode
  word_end :: timecode
  word_speaker :: "utext option"

record asset_transcript =
  transcript_asset :: asset_id
  transcript_content_sha256 :: string
  transcript_fps :: rational
  transcript_words :: "transcript_word list"

datatype media_error =
    BackendMapping time_mapping_error
  | InvalidWhisperToken string
  | InvalidWhisperSegment string
  | TranscriptRangeInvalid timecode timecode
  | TimelinePositionOverflowed
  | SourcePositionUnderflowed
  | ClampPanicked

definition centiseconds_to_frames :: "int \<Rightarrow> rational \<Rightarrow> frame_rounding \<Rightarrow> media_error + timecode" where
  "centiseconds_to_frames centiseconds fps rounding =
     (if centiseconds < 0 then Inr 0
      else rbind (map_err BackendMapping (rational_new 100 1)) (\<lambda>centisecond_rate.
           map_err BackendMapping (map_frames_with_rounding centiseconds centisecond_rate fps rounding)))"

definition is_special_token :: "utext \<Rightarrow> bool" where
  "is_special_token t \<longleftrightarrow> starts_with (ascii ''<|'') t \<and> ends_with (ascii ''|>'') t"

text \<open>
  \<^verbatim>\<open>i64::clamp\<close> on crossed bounds panics. For the first clamp that is a negative duration, and \<open>ClampPanicked\<close>, no error of
  the source, stands for the panic: nothing up the call chain handles an error either. The second clamp is reached only when
  \<open>source_start + 1 \<le> duration\<close>.
\<close>

definition push_word ::
    "rational \<Rightarrow> timecode \<Rightarrow> utext \<times> int \<times> int \<Rightarrow> transcript_word list \<Rightarrow> media_error + transcript_word list" where
  "push_word fps duration = (\<lambda>(raw, start_centiseconds, end_centiseconds) output.
     let t = trim raw
     in if t = [] \<or> is_special_token t then Inr output
        else rbind (centiseconds_to_frames start_centiseconds fps Nearest) (\<lambda>start.
             rbind (centiseconds_to_frames end_centiseconds fps Nearest) (\<lambda>end.
             if duration < 0 then Inl ClampPanicked
             else let source_start = max 0 (min start duration)
             in if duration \<le> source_start then Inr output
                else let source_end = max (saturating_add_i64 source_start 1) (min end duration)
                     in if source_end \<le> source_start then Inr output
                        else Inr (output @ [\<lparr>word_text = t, word_start = source_start, word_end = source_end,
                                             word_speaker = None\<rparr>]))))"

definition flush_pending ::
    "rational \<Rightarrow> timecode \<Rightarrow> (utext \<times> int \<times> int) option \<Rightarrow> transcript_word list \<Rightarrow> media_error + transcript_word list" where
  "flush_pending fps duration pending output =
     (case pending of None \<Rightarrow> Inr output | Some p \<Rightarrow> push_word fps duration p output)"

text \<open>The pieces of a token that holds several words, each with its share of the token's time.\<close>

definition token_pieces :: "utext list \<Rightarrow> int \<Rightarrow> int \<Rightarrow> (utext \<times> int \<times> int) list" where
  "token_pieces pieces start end =
     (let span = max 1 (saturating_sub_i64 end start);
          count = int (length pieces)
      in map (\<lambda>(i, piece).
           (piece, saturating_add_i64 start (saturating_mul_i64 span (int i) sdiv count),
                   saturating_add_i64 start (saturating_mul_i64 span (int i + 1) sdiv count)))
         (enumerate 0 pieces))"

definition append_token ::
    "rational \<Rightarrow> timecode \<Rightarrow> utext \<times> int \<times> int \<Rightarrow> transcript_word list \<times> (utext \<times> int \<times> int) option
       \<Rightarrow> media_error + transcript_word list \<times> (utext \<times> int \<times> int) option" where
  "append_token fps duration = (\<lambda>(raw, start, end) (output, pending).
     rbind (if raw \<noteq> [] \<and> is_whitespace (hd raw)
            then rbind (flush_pending fps duration pending output) (\<lambda>out. Inr (out, None))
            else Inr (output, pending)) (\<lambda>(output, pending).
     let pieces = split_whitespace raw
     in if 1 < length pieces
        then rbind (flush_pending fps duration pending output) (\<lambda>output.
             rbind (fold_res (push_word fps duration) (token_pieces pieces start end) output) (\<lambda>output.
             Inr (output, None)))
        else let t = trim raw
             in if t = [] then Inr (output, pending)
                else Inr (output, Some (case pending of
                       Some (pending_text, pending_start, pending_end) \<Rightarrow>
                         (pending_text @ t, pending_start, max pending_end end)
                     | None \<Rightarrow> (t, start, end)))))"

definition append_token_words ::
    "rational \<Rightarrow> timecode \<Rightarrow> (utext \<times> int \<times> int) list \<Rightarrow> transcript_word list \<Rightarrow> media_error + transcript_word list" where
  "append_token_words fps duration tokens output =
     rbind (fold_res (append_token fps duration) tokens (output, None)) (\<lambda>(output, pending).
     flush_pending fps duration pending output)"

text \<open>The even shares use plain \<^verbatim>\<open>i64\<close> operators.\<close>

definition even_shares :: "utext list \<Rightarrow> int \<Rightarrow> int \<Rightarrow> (utext \<times> int \<times> int) list" where
  "even_shares words start end =
     (let span = wrap_i64 (end - start);
          count = int (length words)
      in map (\<lambda>(i, word).
           (word, wrap_i64 (start + wrap_i64 (span * int i) sdiv count),
                  wrap_i64 (start + wrap_i64 (span * wrap_i64 (int i + 1)) sdiv count)))
         (enumerate 0 words))"

definition append_evenly_timed_words ::
    "rational \<Rightarrow> timecode \<Rightarrow> utext \<Rightarrow> int \<Rightarrow> int \<Rightarrow> transcript_word list \<Rightarrow> media_error + transcript_word list" where
  "append_evenly_timed_words fps duration t start end output =
     (let words = split_whitespace t
      in if words = [] \<or> end \<le> start then Inr output
         else fold_res (push_word fps duration) (even_shares words start end) output)"

fun collect_tokens :: "whisper_token option list \<Rightarrow> media_error + (utext \<times> int \<times> int) list" where
  "collect_tokens [] = Inr []"
| "collect_tokens (None # ts) = collect_tokens ts"
| "collect_tokens (Some k # ts) =
     rbind (map_err InvalidWhisperToken (token_text k)) (\<lambda>t.
     if token_t0 k < 0 \<or> token_t1 k \<le> token_t0 k \<or> trim t = [] \<or> is_special_token (trim t) then collect_tokens ts
     else rbind (collect_tokens ts) (\<lambda>rest. Inr ((t, token_t0 k, token_t1 k) # rest)))"

definition extract_segment ::
    "rational \<Rightarrow> timecode \<Rightarrow> whisper_segment \<Rightarrow> transcript_word list \<Rightarrow> media_error + transcript_word list" where
  "extract_segment fps duration segment result =
     rbind (collect_tokens (segment_tokens segment)) (\<lambda>tokens.
     rbind (append_token_words fps duration tokens result) (\<lambda>result'.
     if length result' = length result
     then rbind (map_err InvalidWhisperSegment (segment_text segment)) (\<lambda>t.
          append_evenly_timed_words fps duration t (segment_start segment) (segment_end segment) result')
     else Inr result'))"

definition extract_words :: "whisper_segment list \<Rightarrow> rational \<Rightarrow> timecode \<Rightarrow> media_error + transcript_word list" where
  "extract_words segments fps duration =
     rbind (fold_res (extract_segment fps duration) segments []) (\<lambda>result.
     Inr (filter (\<lambda>w. word_start w < word_end w \<and> word_text w \<noteq> []) result))"

subsection \<open>Words on the timeline\<close>

record timeline_transcript_word =
  tw_text :: utext
  tw_speaker :: "utext option"
  tw_asset :: asset_id
  tw_track :: track_id
  tw_clip :: clip_id
  tw_source_start :: timecode
  tw_source_end :: timecode
  tw_project_start :: timecode
  tw_project_end :: timecode

definition timeline_word ::
    "document \<Rightarrow> trange \<Rightarrow> track \<Rightarrow> clip \<Rightarrow> media_asset \<Rightarrow> timecode \<Rightarrow> transcript_word
       \<Rightarrow> media_error + timeline_transcript_word list" where
  "timeline_word doc requested tr c asset clip_finish word =
     (let source_start = max (word_start word) (r_start (source_range c));
          source_end = min (word_end word) (r_end (source_range c))
      in if source_end \<le> source_start then Inr []
         else
         rbind (ok_or SourcePositionUnderflowed (timecode_checked_sub source_start (r_start (source_range c)))) (\<lambda>start_offset.
         rbind (ok_or SourcePositionUnderflowed (timecode_checked_sub source_end (r_start (source_range c)))) (\<lambda>end_offset.
         rbind (map_err BackendMapping (map_frames_with_rounding start_offset (asset_fps asset) (doc_fps doc) Floor)) (\<lambda>mapped_start.
         rbind (map_err BackendMapping (map_frames_with_rounding end_offset (asset_fps asset) (doc_fps doc) Ceil)) (\<lambda>mapped_end.
         rbind (ok_or TimelinePositionOverflowed (timecode_checked_add (timeline_start c) mapped_start)) (\<lambda>project_start.
         rbind (ok_or TimelinePositionOverflowed (timecode_checked_add (timeline_start c) mapped_end)) (\<lambda>unclipped_end.
         let project_end = min unclipped_end clip_finish
         in if project_end \<le> r_start requested \<or> r_end requested \<le> project_start \<or> project_end \<le> project_start
            then Inr []
            else Inr [\<lparr>tw_text = word_text word, tw_speaker = word_speaker word, tw_asset = asset_id asset,
                       tw_track = track_id tr, tw_clip = clip_id c, tw_source_start = source_start,
                       tw_source_end = source_end, tw_project_start = project_start, tw_project_end = project_end\<rparr>])))))))"

text \<open>The transcript of an asset is looked up once per asset; the lookup is a function of the asset.\<close>

definition clip_timeline_words ::
    "document \<Rightarrow> trange \<Rightarrow> (media_asset \<Rightarrow> asset_transcript option) \<Rightarrow> track \<Rightarrow> clip
       \<Rightarrow> media_error + timeline_transcript_word list" where
  "clip_timeline_words doc requested transcript_for tr c =
     (if \<not> is_media (content c) \<or> speed_percent c \<noteq> 100 then Inr []
      else case doc_asset doc (clip_asset c) of
        None \<Rightarrow> Inr []
      | Some asset \<Rightarrow>
          if asset_kind asset = MediaImage then Inr []
          else case transcript_for asset of
            None \<Rightarrow> Inr []
          | Some transcript \<Rightarrow>
              rbind (map_err BackendMapping (map_source_range_to_project (source_range c) (asset_fps asset) (doc_fps doc))) (\<lambda>mapped_duration.
              rbind (ok_or TimelinePositionOverflowed (timecode_checked_add (timeline_start c) mapped_duration)) (\<lambda>clip_finish.
              if r_end requested \<le> timeline_start c \<or> clip_finish \<le> r_start requested then Inr []
              else rbind (map_res (timeline_word doc requested tr c asset clip_finish) (transcript_words transcript))
                     (\<lambda>ws. Inr (concat ws)))))"

definition map_timeline_words ::
    "document \<Rightarrow> trange option \<Rightarrow> (media_asset \<Rightarrow> asset_transcript option)
       \<Rightarrow> media_error + timeline_transcript_word list" where
  "map_timeline_words doc wanted transcript_for =
     (let requested = (case wanted of Some r \<Rightarrow> r | None \<Rightarrow> rng 0 (doc_duration doc))
      in if r_start requested < 0 \<or> r_end requested \<le> r_start requested
         then Inl (TranscriptRangeInvalid (r_start requested) (r_end requested))
         else rbind (map_res (\<lambda>(tr, c). clip_timeline_words doc requested transcript_for tr c)
                (concat (map (\<lambda>tr. map (Pair tr) (clips tr)) (tracks doc)))) (\<lambda>ws.
              Inr (sort_key (\<lambda>w. (tw_project_start w, tw_track w, tw_clip w, tw_source_start w)) (concat ws))))"

subsection \<open>Cut ranges\<close>

text \<open>Lower-casing is Rust's Unicode table, a parameter.\<close>

definition is_filler_word :: "(utext \<Rightarrow> utext) \<Rightarrow> utext \<Rightarrow> bool" where
  "is_filler_word to_lowercase t \<longleftrightarrow>
     to_lowercase (trim_matches (\<lambda>c. is_whitespace c \<or> c \<in> set (ascii ''.,!?;:'') \<or> c = 39 \<or> c = 34 \<or> c \<in> set (ascii ''()-'') \<or> c = 0x2026) t)
       \<in> set (map ascii [''um'', ''uh'', ''erm'', ''hmm'', ''mm'', ''mhm''])"

record transcript_cut_range =
  cut_track :: track_id
  cut_clip :: clip_id
  cut_source_range :: trange

definition silence_cut_margin_frames :: "rational \<Rightarrow> timecode" where
  "silence_cut_margin_frames source_fps =
     (if \<not> rational_is_valid source_fps then 0
      else let rate = numerator source_fps;
               tenth = denominator source_fps * 10;
               rounded_frames = (rate + tenth div 2) div tenth
           in case try_i64 rounded_frames of Some f \<Rightarrow> f | None \<Rightarrow> i64_max)"

text \<open>\<^verbatim>\<open>Ord::clamp\<close>, which panics on crossed bounds.\<close>

definition clamp_timecode :: "timecode \<Rightarrow> timecode \<Rightarrow> timecode \<Rightarrow> timecode option" where
  "clamp_timecode x lo hi = (if hi < lo then None else Some (if x < lo then lo else if hi < x then hi else x))"

type_synonym indexed_words = "(nat \<times> timeline_transcript_word) list"

function run_end :: "(nat \<Rightarrow> bool) \<Rightarrow> indexed_words \<Rightarrow> nat \<Rightarrow> nat" where
  "run_end is_selected ws cursor =
     (if cursor + 1 < length ws \<and> is_selected (fst (ws ! (cursor + 1))) then run_end is_selected ws (cursor + 1) else cursor)"
  by pat_completeness auto
termination
  by (relation "measure (\<lambda>(_, ws, cursor). length ws - cursor)") auto

declare run_end.simps [simp del]

definition run_cut :: "clip \<Rightarrow> timecode \<Rightarrow> indexed_words \<Rightarrow> nat \<Rightarrow> nat \<Rightarrow> transcript_cut_range list option" where
  "run_cut c margin ws run_start run_finish =
     (let first_word = snd (ws ! run_start);
          last_word = snd (ws ! run_finish);
          lo = r_start (source_range c);
          hi = r_end (source_range c);
          previous_retained_end = (if run_start = 0 then lo else tw_source_end (snd (ws ! (run_start - 1))))
      in Option.bind (clamp_timecode (max (tw_source_start first_word) previous_retained_end) lo hi) (\<lambda>cut_start.
         let open_end =
               (if run_finish + 1 < length ws
                then let next_start = tw_source_start (snd (ws ! (run_finish + 1)))
                     in min (max (tw_source_end last_word) (saturating_sub_i64 next_start margin)) next_start
                else saturating_add_i64 (tw_source_end last_word) margin)
         in Option.bind (clamp_timecode open_end lo hi) (\<lambda>cut_end.
         let cut_start = min cut_start hi
         in Some (if cut_start < cut_end
                  then [\<lparr>cut_track = tw_track first_word, cut_clip = clip_id c, cut_source_range = rng cut_start cut_end\<rparr>]
                  else []))))"

lemma run_end_bounds:
  "cursor < length ws \<Longrightarrow> cursor \<le> run_end sel ws cursor \<and> run_end sel ws cursor < length ws"
  by (induction sel ws cursor rule: run_end.induct) (subst run_end.simps, subst (2) run_end.simps, fastforce)

function cut_loop :: "(nat \<Rightarrow> bool) \<Rightarrow> clip \<Rightarrow> timecode \<Rightarrow> indexed_words \<Rightarrow> nat \<Rightarrow> transcript_cut_range list option" where
  "cut_loop is_selected c margin ws cursor =
     (if cursor < length ws then
        if \<not> is_selected (fst (ws ! cursor)) then cut_loop is_selected c margin ws (cursor + 1)
        else let run_finish = run_end is_selected ws cursor
             in Option.bind (run_cut c margin ws cursor run_finish) (\<lambda>cuts.
                Option.bind (cut_loop is_selected c margin ws (run_finish + 1)) (\<lambda>rest. Some (cuts @ rest)))
      else Some [])"
  by pat_completeness auto
termination
  by (relation "measure (\<lambda>(_, _, _, ws, cursor). length ws - cursor)")
    (auto dest: run_end_bounds intro!: diff_less_mono2 intro: le_imp_less_Suc)

declare cut_loop.simps [simp del]

definition clip_words :: "timeline_transcript_word list \<Rightarrow> clip_id \<Rightarrow> indexed_words" where
  "clip_words words i =
     sort_key (\<lambda>(n, w). (tw_source_start w, tw_source_end w, n)) (filter (\<lambda>(n, w). tw_clip w = i) (enumerate 0 words))"

fun clip_cuts ::
    "document \<Rightarrow> timeline_transcript_word list \<Rightarrow> (nat \<Rightarrow> bool) \<Rightarrow> clip_id list \<Rightarrow> transcript_cut_range list option" where
  "clip_cuts doc words is_selected [] = Some []"
| "clip_cuts doc words is_selected (i # is) =
     Option.bind
       (case doc_clip doc i of
          None \<Rightarrow> Some []
        | Some c \<Rightarrow>
            (case doc_asset doc (clip_asset c) of
               None \<Rightarrow> Some []
             | Some asset \<Rightarrow>
                 cut_loop is_selected c (silence_cut_margin_frames (asset_fps asset)) (clip_words words i) 0)) (\<lambda>cuts.
     Option.bind (clip_cuts doc words is_selected is) (\<lambda>rest. Some (cuts @ rest)))"

definition selected_clips :: "(nat \<Rightarrow> bool) \<Rightarrow> timeline_transcript_word list \<Rightarrow> clip_id list" where
  "selected_clips is_selected words =
     fold (\<lambda>(n, w) acc. if is_selected n \<and> tw_clip w \<notin> set acc then acc @ [tw_clip w] else acc) (enumerate 0 words) []"

definition retained_words_are_clear ::
    "timeline_transcript_word list \<Rightarrow> (nat \<Rightarrow> bool) \<Rightarrow> transcript_cut_range list \<Rightarrow> bool" where
  "retained_words_are_clear words is_selected cuts \<longleftrightarrow>
     list_all (\<lambda>(n, w). is_selected n \<or>
       list_all (\<lambda>cut_range. r_end (cut_source_range cut_range) \<le> tw_source_start w \<or> tw_source_end w \<le> r_start (cut_source_range cut_range))
         (filter (\<lambda>cut_range. cut_clip cut_range = tw_clip w) cuts))
     (enumerate 0 words)"

text \<open>The closing \<^verbatim>\<open>debug_assert\<close> of the function panics where it fails, as in a build with debug assertions.\<close>

definition transcript_cut_ranges_for_indices ::
    "document \<Rightarrow> timeline_transcript_word list \<Rightarrow> nat list \<Rightarrow> transcript_cut_range list option" where
  "transcript_cut_ranges_for_indices doc words selected_indices =
     (let selected = filter (\<lambda>n. n < length words) selected_indices;
          is_selected = (\<lambda>n. n \<in> set selected)
      in if selected = [] then Some []
         else Option.bind (clip_cuts doc words is_selected (selected_clips is_selected words)) (\<lambda>cuts.
              if retained_words_are_clear words is_selected cuts then Some cuts else None))"

definition transcript_cut_ranges ::
    "document \<Rightarrow> timeline_transcript_word list \<Rightarrow> nat \<Rightarrow> nat \<Rightarrow> transcript_cut_range list option" where
  "transcript_cut_ranges doc words selected_start selected_end =
     (if selected_end < selected_start \<or> length words \<le> selected_end then Some []
      else transcript_cut_ranges_for_indices doc words [selected_start..<Suc selected_end])"

subsection \<open>The plan of operations\<close>

record project_cut_range =
  pc_track :: track_id
  pc_clip :: clip_id
  pc_start :: timecode
  pc_end :: timecode

datatype plan_error =
    SelectionUnavailable
  | TranscriptClipMissing clip_id
  | TranscriptClipWithoutTrack clip_id
  | TranscriptAssetMissing asset_id
  | CutOutsideClip trange clip_id trange
  | CutStartUnderflowed
  | CutEndUnderflowed
  | CutStartOverflowed
  | CutEndOverflowed
  | CutMapping time_mapping_error
  | CutEmptyProjectRange
  | ClipInvalidatedByCut clip_id
  | RangeNotIsolated timecode timecode track_id
  | PlanTrackMissing track_id
  | ClipStraddlesCut clip_id timecode timecode
  | PlanClipDuration op_error
  | PlanClipEndOverflowed clip_id
  | PlanOperationRefused op_error

definition map_cut_to_project :: "document \<Rightarrow> transcript_cut_range \<Rightarrow> plan_error + project_cut_range" where
  "map_cut_to_project doc cut_range =
     (let source = cut_source_range cut_range in
     rbind (ok_or (TranscriptClipMissing (cut_clip cut_range)) (doc_clip doc (cut_clip cut_range))) (\<lambda>c.
     rbind (ok_or (TranscriptClipWithoutTrack (cut_clip cut_range))
       (find (\<lambda>tr. list_ex (\<lambda>candidate. clip_id candidate = cut_clip cut_range) (clips tr)) (tracks doc))) (\<lambda>tr.
     rbind (ok_or (TranscriptAssetMissing (clip_asset c)) (doc_asset doc (clip_asset c))) (\<lambda>asset.
     if r_start source < r_start (source_range c) \<or> r_end (source_range c) < r_end source \<or> r_end source \<le> r_start source
     then Inl (CutOutsideClip source (cut_clip cut_range) (source_range c))
     else
     rbind (ok_or CutStartUnderflowed (timecode_checked_sub (r_start source) (r_start (source_range c)))) (\<lambda>start_offset.
     rbind (ok_or CutEndUnderflowed (timecode_checked_sub (r_end source) (r_start (source_range c)))) (\<lambda>end_offset.
     rbind (map_err CutMapping (map_frames_with_rounding start_offset (asset_fps asset) (doc_fps doc) Floor)) (\<lambda>mapped_start.
     rbind (ok_or CutStartOverflowed (timecode_checked_add (timeline_start c) mapped_start)) (\<lambda>start.
     rbind (map_err CutMapping (map_frames_with_rounding end_offset (asset_fps asset) (doc_fps doc) Ceil)) (\<lambda>mapped_end.
     rbind (ok_or CutEndOverflowed (timecode_checked_add (timeline_start c) mapped_end)) (\<lambda>end.
     if end \<le> start then Inl CutEmptyProjectRange
     else Inr \<lparr>pc_track = track_id tr, pc_clip = cut_clip cut_range, pc_start = start, pc_end = end\<rparr>))))))))))"

definition plan_clip_end :: "document \<Rightarrow> clip \<Rightarrow> plan_error + timecode" where
  "plan_clip_end doc c =
     rbind (map_err PlanClipDuration (clip_duration doc c)) (\<lambda>d.
     ok_or (PlanClipEndOverflowed (clip_id c)) (timecode_checked_add (timeline_start c) d))"

type_synonym plan = "document \<times> operation list"

definition push_operation :: "operation \<Rightarrow> plan \<Rightarrow> plan_error + plan" where
  "push_operation op = (\<lambda>(working, operations).
     rbind (map_err PlanOperationRefused (operation_apply op working)) (\<lambda>working'. Inr (working', operations @ [op])))"

definition plan_track :: "document \<Rightarrow> track_id \<Rightarrow> plan_error + track" where
  "plan_track doc i = ok_or (PlanTrackMissing i) (find (\<lambda>candidate. track_id candidate = i) (tracks doc))"

definition split_track_at :: "track_id \<Rightarrow> timecode \<Rightarrow> plan \<Rightarrow> plan_error + plan" where
  "split_track_at i at = (\<lambda>(working, operations).
     rbind (plan_track working i) (\<lambda>tr.
     case find (\<lambda>c. is_ok_and (\<lambda>e. timeline_start c < at \<and> at < e) (plan_clip_end working c)) (clips tr) of
       Some c \<Rightarrow> push_operation (SplitClip (clip_id c) at) (working, operations)
     | None \<Rightarrow> Inr (working, operations)))"

fun covering_exactly :: "document \<Rightarrow> timecode \<Rightarrow> timecode \<Rightarrow> clip list \<Rightarrow> plan_error + clip_id option" where
  "covering_exactly doc start end [] = Inr None"
| "covering_exactly doc start end (c # cs) =
     (if timeline_start c = start
      then rbind (plan_clip_end doc c) (\<lambda>e. if e = end then Inr (Some (clip_id c)) else covering_exactly doc start end cs)
      else covering_exactly doc start end cs)"

definition clip_covering_exact_range :: "document \<Rightarrow> track_id \<Rightarrow> timecode \<Rightarrow> timecode \<Rightarrow> plan_error + clip_id option" where
  "clip_covering_exact_range doc i start end = rbind (plan_track doc i) (\<lambda>tr. covering_exactly doc start end (clips tr))"

fun overlapping_clips :: "document \<Rightarrow> timecode \<Rightarrow> timecode \<Rightarrow> clip list \<Rightarrow> plan_error + clip list" where
  "overlapping_clips doc start end [] = Inr []"
| "overlapping_clips doc start end (c # cs) =
     rbind (plan_clip_end doc c) (\<lambda>e.
     if timeline_start c < end \<and> start < e
     then if timeline_start c < start \<or> end < e then Inl (ClipStraddlesCut (clip_id c) start end)
          else rbind (overlapping_clips doc start end cs) (\<lambda>rest. Inr (c # rest))
     else overlapping_clips doc start end cs)"

definition track_clips_overlapping :: "document \<Rightarrow> track_id \<Rightarrow> timecode \<Rightarrow> timecode \<Rightarrow> plan_error + clip list" where
  "track_clips_overlapping doc i start end = rbind (plan_track doc i) (\<lambda>tr. overlapping_clips doc start end (clips tr))"

definition clear_track :: "timecode \<Rightarrow> timecode \<Rightarrow> track_id \<Rightarrow> plan \<Rightarrow> plan_error + plan" where
  "clear_track start end i p =
     rbind (split_track_at i start p) (\<lambda>p.
     rbind (split_track_at i end p) (\<lambda>p.
     rbind (track_clips_overlapping (fst p) i start end) (\<lambda>overlapping.
     fold_res push_operation
       (map (\<lambda>c. DeleteClip (clip_id c)) (sort_key (\<lambda>c. (- timeline_start c, - clip_id c)) overlapping)) p)))"

definition append_project_cut :: "project_cut_range \<Rightarrow> plan \<Rightarrow> plan_error + plan" where
  "append_project_cut cut_range p =
     (if doc_clip (fst p) (pc_clip cut_range) = None then Inl (ClipInvalidatedByCut (pc_clip cut_range))
      else
      rbind (split_track_at (pc_track cut_range) (pc_start cut_range) p) (\<lambda>p.
      rbind (split_track_at (pc_track cut_range) (pc_end cut_range) p) (\<lambda>p.
      rbind (rbind (clip_covering_exact_range (fst p) (pc_track cut_range) (pc_start cut_range) (pc_end cut_range))
               (ok_or (RangeNotIsolated (pc_start cut_range) (pc_end cut_range) (pc_track cut_range)))) (\<lambda>primary_middle.
      rbind (fold_res (clear_track (pc_start cut_range) (pc_end cut_range))
               (map track_id (filter (\<lambda>tr. track_id tr \<noteq> pc_track cut_range \<and> sync_lock tr) (tracks (fst p)))) p) (\<lambda>p.
      push_operation (RippleDeleteClip primary_middle) p)))))"

fun dedup_cuts :: "project_cut_range list \<Rightarrow> project_cut_range list" where
  "dedup_cuts (a # b # cs) =
     (if pc_start a = pc_start b \<and> pc_end a = pc_end b then dedup_cuts (a # cs) else a # dedup_cuts (b # cs))"
| "dedup_cuts cs = cs"

definition transcript_word_cut_operations :: "document \<Rightarrow> transcript_cut_range list \<Rightarrow> plan_error + operation list" where
  "transcript_word_cut_operations doc cuts =
     rbind (map_res (map_cut_to_project doc) cuts) (\<lambda>project_cuts.
     rbind (fold_res append_project_cut
              (dedup_cuts (sort_key (\<lambda>c. (- pc_start c, - pc_end c, pc_track c, pc_clip c)) project_cuts)) (doc, []))
       (\<lambda>(working, operations). Inr operations))"

subsection \<open>The handlers\<close>

record transcript_word_identity =
  identity_clip :: clip_id
  identity_source_start :: timecode

definition word_identity :: "timeline_transcript_word \<Rightarrow> transcript_word_identity" where
  "word_identity w = \<lparr>identity_clip = tw_clip w, identity_source_start = tw_source_start w\<rparr>"

record transcript_selection =
  selection_anchor :: transcript_word_identity
  selection_head :: transcript_word_identity

definition selection_single :: "timeline_transcript_word \<Rightarrow> transcript_selection" where
  "selection_single w = \<lparr>selection_anchor = word_identity w, selection_head = word_identity w\<rparr>"

definition selection_extend_to :: "timeline_transcript_word \<Rightarrow> transcript_selection \<Rightarrow> transcript_selection" where
  "selection_extend_to w s = s\<lparr>selection_head := word_identity w\<rparr>"

definition selection_indices :: "transcript_selection \<Rightarrow> timeline_transcript_word list \<Rightarrow> (nat \<times> nat) option" where
  "selection_indices s words =
     Option.bind (position (\<lambda>w. word_identity w = selection_anchor s) words) (\<lambda>anchor.
     Option.bind (position (\<lambda>w. word_identity w = selection_head s) words) (\<lambda>head.
     Some (min anchor head, max anchor head)))"

type_synonym word_key = "asset_id \<times> timecode \<times> timecode \<times> timecode \<times> timecode"

definition word_key :: "timeline_transcript_word \<Rightarrow> word_key" where
  "word_key w = (tw_asset w, tw_source_start w, tw_source_end w, tw_project_start w, tw_project_end w)"

fun keep_new_words :: "word_key list \<Rightarrow> timeline_transcript_word list \<Rightarrow> timeline_transcript_word list" where
  "keep_new_words seen [] = []"
| "keep_new_words seen (w # ws) =
     (if word_key w \<in> set seen then keep_new_words seen ws else w # keep_new_words (word_key w # seen) ws)"

definition dedup_linked_timeline_words :: "timeline_transcript_word list \<Rightarrow> timeline_transcript_word list" where
  "dedup_linked_timeline_words words = keep_new_words [] words"

definition filler_word_indices :: "(utext \<Rightarrow> utext) \<Rightarrow> timeline_transcript_word list \<Rightarrow> nat list" where
  "filler_word_indices to_lowercase words = map fst (filter (\<lambda>(n, w). is_filler_word to_lowercase (tw_text w)) (enumerate 0 words))"

definition selected_transcript_word_cut_operations ::
    "document \<Rightarrow> timeline_transcript_word list \<Rightarrow> transcript_selection \<Rightarrow> (plan_error + operation list) option" where
  "selected_transcript_word_cut_operations doc words s =
     (case selection_indices s words of
        None \<Rightarrow> Some (Inl SelectionUnavailable)
      | Some (first_index, last_index) \<Rightarrow>
          Option.bind (transcript_cut_ranges doc words first_index last_index) (\<lambda>cuts.
          Some (transcript_word_cut_operations doc cuts)))"

text \<open>What a handler does at its end: it returns without a selection, notes an incident, or sends the operations as
  one batch.\<close>

datatype transcript_outcome =
    NoSelection
  | ScanFailed media_error
  | NothingSelected
  | NothingCuttable
  | PlanFailed plan_error
  | SendOperations "operation list"

definition plan_outcome :: "plan_error + operation list \<Rightarrow> transcript_outcome" where
  "plan_outcome r = (case r of Inl e \<Rightarrow> PlanFailed e | Inr ops \<Rightarrow> if ops = [] then NothingCuttable else SendOperations ops)"

definition cut_selected_transcript_words ::
    "document \<Rightarrow> (media_asset \<Rightarrow> asset_transcript option) \<Rightarrow> transcript_selection option \<Rightarrow> transcript_outcome option" where
  "cut_selected_transcript_words doc transcript_for selection =
     (case selection of
        None \<Rightarrow> Some NoSelection
      | Some s \<Rightarrow>
          (case map_timeline_words doc None transcript_for of
             Inl e \<Rightarrow> Some (ScanFailed e)
           | Inr words \<Rightarrow>
               Option.bind (selected_transcript_word_cut_operations doc (dedup_linked_timeline_words words) s)
                 (\<lambda>r. Some (plan_outcome r))))"

definition remove_filler_words ::
    "(utext \<Rightarrow> utext) \<Rightarrow> document \<Rightarrow> (media_asset \<Rightarrow> asset_transcript option) \<Rightarrow> transcript_outcome option" where
  "remove_filler_words to_lowercase doc transcript_for =
     (case map_timeline_words doc None transcript_for of
        Inl e \<Rightarrow> Some (ScanFailed e)
      | Inr all_words \<Rightarrow>
          (let words = dedup_linked_timeline_words all_words;
               selected = filler_word_indices to_lowercase words
           in if selected = [] then Some NothingSelected
              else Option.bind (transcript_cut_ranges_for_indices doc words selected) (\<lambda>cuts.
                   Some (plan_outcome (transcript_word_cut_operations doc cuts)))))"

end
