(* ===== verification/Transcript_Props.thy ===== *)
theory Transcript_Props
  imports Transcript Timeline_Props
begin

text \<open>
  Text-based editing is correct: the words extracted from recognised speech are in order of time, the cut ranges of
  a selection cover exactly what is said only by selected words and spare every kept word, and what the planner
  returns is a batch the editor accepts.
\<close>

section \<open>Cut ranges\<close>

subsection \<open>One clip\<close>

lemma run_end_spec:
  "cursor < length ws \<Longrightarrow> sel (fst (ws ! cursor)) \<Longrightarrow>
     (\<forall>j. cursor \<le> j \<and> j \<le> run_end sel ws cursor \<longrightarrow> sel (fst (ws ! j)))
     \<and> (run_end sel ws cursor + 1 < length ws \<longrightarrow> \<not> sel (fst (ws ! (run_end sel ws cursor + 1))))"
proof (induction sel ws cursor rule: run_end.induct)
  case (1 sel ws cursor)
  show ?case
  proof (cases "cursor + 1 < length ws \<and> sel (fst (ws ! (cursor + 1)))")
    case True
    then have "run_end sel ws cursor = run_end sel ws (cursor + 1)" by (subst run_end.simps) (simp only: True if_True simp_thms)
    with 1 True show ?thesis by (metis add_leE le_antisym not_less_eq_eq Suc_eq_plus1)
  next
    case False
    then have "run_end sel ws cursor = cursor" by (subst run_end.simps) (simp only: False if_False)
    with 1 False show ?thesis by (metis le_antisym)
  qed
qed

text \<open>The words of a clip in source order: starts and ends both rise.\<close>

definition rising :: "indexed_words \<Rightarrow> bool" where
  "rising ws \<longleftrightarrow> sorted_wrt (\<lambda>a b. tw_source_start (snd a) \<le> tw_source_start (snd b) \<and> tw_source_end (snd a) \<le> tw_source_end (snd b)) ws"

lemma rising_nth:
  "rising ws \<Longrightarrow> i \<le> j \<Longrightarrow> j < length ws \<Longrightarrow>
     tw_source_start (snd (ws ! i)) \<le> tw_source_start (snd (ws ! j)) \<and> tw_source_end (snd (ws ! i)) \<le> tw_source_end (snd (ws ! j))"
  by (cases "i = j") (auto simp: rising_def sorted_wrt_iff_nth_less)

definition in_word :: "timecode \<Rightarrow> timeline_transcript_word \<Rightarrow> bool" where
  "in_word f w \<longleftrightarrow> tw_source_start w \<le> f \<and> f < tw_source_end w"

definition in_cut :: "timecode \<Rightarrow> transcript_cut_range \<Rightarrow> bool" where
  "in_cut f k \<longleftrightarrow> r_start (cut_source_range k) \<le> f \<and> f < r_end (cut_source_range k)"

definition cut_within :: "clip \<Rightarrow> transcript_cut_range \<Rightarrow> bool" where
  "cut_within c k \<longleftrightarrow> cut_clip k = clip_id c \<and> r_start (source_range c) \<le> r_start (cut_source_range k)
     \<and> r_start (cut_source_range k) < r_end (cut_source_range k) \<and> r_end (cut_source_range k) \<le> r_end (source_range c)"

definition cut_clear :: "transcript_cut_range \<Rightarrow> timeline_transcript_word \<Rightarrow> bool" where
  "cut_clear k w \<longleftrightarrow> r_end (cut_source_range k) \<le> tw_source_start w \<or> tw_source_end w \<le> r_start (cut_source_range k)"

definition cut_before :: "transcript_cut_range \<Rightarrow> transcript_cut_range \<Rightarrow> bool" where
  "cut_before a b \<longleftrightarrow> r_end (cut_source_range a) \<le> r_start (cut_source_range b)"

lemma clamp_timecode_Some: "lo \<le> hi \<Longrightarrow> clamp_timecode x lo hi = Some (max lo (min hi x))"
  by (simp add: clamp_timecode_def)

lemma run_cut_spec:
  assumes r: "rising ws" and ab: "a \<le> b" "b < length ws" and c: "r_start (source_range c) \<le> r_end (source_range c)"
    and hi: "r_end (source_range c) \<le> i64_max" and m: "0 \<le> m"
  obtains cuts where "run_cut c m ws a b = Some cuts"
    "length cuts \<le> 1" "\<forall>k \<in> set cuts. cut_within c k"
    "\<forall>k \<in> set cuts. tw_source_start (snd (ws ! a)) \<le> r_start (cut_source_range k)"
    "\<forall>k \<in> set cuts. \<forall>j < a. cut_clear k (snd (ws ! j))"
    "\<forall>k \<in> set cuts. \<forall>j < length ws. b < j \<longrightarrow> r_end (cut_source_range k) \<le> tw_source_start (snd (ws ! j))"
    "\<forall>f j. a \<le> j \<longrightarrow> j \<le> b \<longrightarrow> in_word f (snd (ws ! j)) \<longrightarrow> r_start (source_range c) \<le> f \<longrightarrow> f < r_end (source_range c) \<longrightarrow>
       (a \<noteq> 0 \<longrightarrow> \<not> in_word f (snd (ws ! (a - 1)))) \<longrightarrow> (b + 1 < length ws \<longrightarrow> \<not> in_word f (snd (ws ! (b + 1)))) \<longrightarrow>
       (\<exists>k \<in> set cuts. in_cut f k)"
proof -
  define lo hi' where "lo = r_start (source_range c)" and "hi' = r_end (source_range c)"
  define s e where "s = (\<lambda>i. tw_source_start (snd (ws ! i)))" and "e = (\<lambda>i. tw_source_end (snd (ws ! i)))"
  define S where "S = max (s a) (if a = 0 then lo else e (a - 1))"
  define Q where "Q = (if b + 1 < length ws then min (max (e b) (saturating_sub_i64 (s (b + 1)) m)) (s (b + 1))
                       else saturating_add_i64 (e b) m)"
  define x y where "x = max lo (min hi' S)" and "y = max lo (min hi' Q)"
  define cuts where "cuts = (if x < y then [\<lparr>cut_track = tw_track (snd (ws ! a)), cut_clip = clip_id c, cut_source_range = rng x y\<rparr>] else [])"
  have le: "lo \<le> hi'" "hi' \<le> i64_max" using c hi by (simp_all add: lo_def hi'_def)
  have mono: "s i \<le> s j \<and> e i \<le> e j" if "i \<le> j" "j < length ws" for i j
    using rising_nth [OF r that] by (simp add: s_def e_def)
  have cx: "clamp_timecode (max (tw_source_start (snd (ws ! a))) (if a = 0 then r_start (source_range c) else tw_source_end (snd (ws ! (a - 1)))))
      (r_start (source_range c)) (r_end (source_range c)) = Some x"
    by (simp only: x_def S_def s_def e_def lo_def hi'_def clamp_timecode_Some [OF c])
  have cy: "clamp_timecode (if b + 1 < length ws
      then min (max (tw_source_end (snd (ws ! b))) (saturating_sub_i64 (tw_source_start (snd (ws ! (b + 1)))) m)) (tw_source_start (snd (ws ! (b + 1))))
      else saturating_add_i64 (tw_source_end (snd (ws ! b))) m) (r_start (source_range c)) (r_end (source_range c)) = Some y"
    by (simp only: y_def Q_def s_def e_def lo_def hi'_def clamp_timecode_Some [OF c])
  have cm: "min x (r_end (source_range c)) = x" using le by (auto simp: x_def hi'_def)
  have "run_cut c m ws a b = Some cuts"
    by (simp only: run_cut_def Let_def cx cy cm Option.bind.bind_lunit cuts_def)
  moreover have xy: "lo \<le> x \<and> y \<le> hi' \<and> S \<le> x \<and> y \<le> Q" if "x < y" using that le by (auto simp: x_def y_def)
  then have "\<forall>k \<in> set cuts. cut_within c k" "\<forall>k \<in> set cuts. s a \<le> r_start (cut_source_range k)"
    by (auto simp: cuts_def cut_within_def lo_def hi'_def S_def)
  moreover have "\<forall>k \<in> set cuts. \<forall>j < a. cut_clear k (snd (ws ! j))"
  proof (intro ballI allI impI)
    fix k j assume "k \<in> set cuts" "j < a"
    then have "e j \<le> e (a - 1)" "e (a - 1) \<le> S" using mono [of j "a - 1"] ab by (simp_all add: S_def)
    with xy \<open>k \<in> set cuts\<close> show "cut_clear k (snd (ws ! j))"
      by (auto simp: cuts_def cut_clear_def e_def split: if_split_asm)
  qed
  moreover have "\<forall>k \<in> set cuts. \<forall>j < length ws. b < j \<longrightarrow> r_end (cut_source_range k) \<le> s j"
  proof (intro ballI allI impI)
    fix k j assume "k \<in> set cuts" "j < length ws" "b < j"
    then have "Q \<le> s (b + 1)" "s (b + 1) \<le> s j" using mono [of "b + 1" j] by (simp_all add: Q_def)
    with xy \<open>k \<in> set cuts\<close> show "r_end (cut_source_range k) \<le> s j" by (auto simp: cuts_def split: if_split_asm)
  qed
  moreover have "\<exists>k \<in> set cuts. in_cut f k"
    if "a \<le> j" "j \<le> b" "s j \<le> f" "f < e j" "lo \<le> f" "f < hi'" "a \<noteq> 0 \<longrightarrow> \<not> in_word f (snd (ws ! (a - 1)))"
      "b + 1 < length ws \<longrightarrow> \<not> in_word f (snd (ws ! (b + 1)))" for f j
  proof -
    have fa: "s a \<le> f" "f < e b" using mono [of a j] mono [of j b] that ab by auto
    have "S \<le> f" using fa that(5,7) mono [of "a - 1" a] ab by (auto simp: S_def in_word_def s_def e_def)
    moreover have "f < Q"
    proof (cases "b + 1 < length ws")
      case True
      then have "f < s (b + 1)" using that(8) mono [of b "b + 1"] fa(2) by (auto simp: in_word_def s_def e_def)
      with True fa show ?thesis by (simp add: Q_def)
    next
      case False
      have "f < i64_max" using that(6) le by simp
      then have "f < clamp_i64 (e b + m)" using fa(2) m by (auto simp: clamp_i64_def)
      with False show ?thesis by (simp add: Q_def saturating_add_i64_def)
    qed
    ultimately have "x \<le> f" "f < y" using that(5,6) by (simp_all add: x_def y_def)
    then show ?thesis by (simp add: cuts_def in_cut_def)
  qed
  ultimately show ?thesis
    by (intro that [of cuts]) (auto simp: cuts_def s_def e_def lo_def hi'_def in_word_def)
qed

text \<open>A run starts at the first word or after a kept one.\<close>

definition run_boundary :: "(nat \<Rightarrow> bool) \<Rightarrow> indexed_words \<Rightarrow> nat \<Rightarrow> bool" where
  "run_boundary sel ws i \<longleftrightarrow> i = 0 \<or> \<not> sel (fst (ws ! (i - 1))) \<or> (i < length ws \<longrightarrow> \<not> sel (fst (ws ! i)))"

definition loop_cuts :: "(nat \<Rightarrow> bool) \<Rightarrow> clip \<Rightarrow> indexed_words \<Rightarrow> nat \<Rightarrow> transcript_cut_range list \<Rightarrow> bool" where
  "loop_cuts sel c ws i cuts \<longleftrightarrow>
     (\<forall>k \<in> set cuts. cut_within c k \<and> (\<forall>j < length ws. j \<le> i \<longrightarrow> tw_source_start (snd (ws ! j)) \<le> r_start (cut_source_range k))
         \<and> (\<forall>j < length ws. \<not> sel (fst (ws ! j)) \<longrightarrow> cut_clear k (snd (ws ! j))))
     \<and> sorted_wrt cut_before cuts
     \<and> (\<forall>f j. i \<le> j \<longrightarrow> j < length ws \<longrightarrow> sel (fst (ws ! j)) \<longrightarrow> in_word f (snd (ws ! j)) \<longrightarrow> r_start (source_range c) \<le> f \<longrightarrow>
         f < r_end (source_range c) \<longrightarrow> (\<forall>l < length ws. \<not> sel (fst (ws ! l)) \<longrightarrow> \<not> in_word f (snd (ws ! l))) \<longrightarrow>
         (\<exists>k \<in> set cuts. in_cut f k))"

lemma loop_cuts_skip:
  assumes r: "rising ws" and i: "\<not> sel (fst (ws ! i))" and l: "loop_cuts sel c ws (i + 1) cuts"
  shows "loop_cuts sel c ws i cuts"
  unfolding loop_cuts_def
proof (intro conjI allI impI)
  fix f j assume *: "i \<le> j" "j < length ws" "sel (fst (ws ! j))" "in_word f (snd (ws ! j))" "r_start (source_range c) \<le> f"
    "f < r_end (source_range c)" "\<forall>l < length ws. \<not> sel (fst (ws ! l)) \<longrightarrow> \<not> in_word f (snd (ws ! l))"
  with i have "i + 1 \<le> j" by (cases "i = j") auto
  with * l show "\<exists>k \<in> set cuts. in_cut f k" unfolding loop_cuts_def by blast
qed (use l in \<open>auto simp: loop_cuts_def\<close>)

lemma loop_cuts_run:
  assumes r: "rising ws" and c: "r_start (source_range c) \<le> r_end (source_range c)" "r_end (source_range c) \<le> i64_max" and m: "0 \<le> m"
    and i: "i < length ws" "sel (fst (ws ! i))" and bd: "run_boundary sel ws i"
    and l: "loop_cuts sel c ws (run_end sel ws i + 1) rest" and e: "length ws \<le> run_end sel ws i + 1 \<Longrightarrow> rest = []"
  shows "\<exists>cuts. run_cut c m ws i (run_end sel ws i) = Some cuts \<and> loop_cuts sel c ws i (cuts @ rest)"
proof -
  define b where "b = run_end sel ws i"
  note bb = run_end_bounds [OF i(1), of sel, folded b_def] and bs = run_end_spec [of i ws sel, OF i, folded b_def]
  note l' = l [folded b_def] and e' = e [folded b_def]
  obtain cuts where cuts: "run_cut c m ws i b = Some cuts" "length cuts \<le> 1" "\<forall>k \<in> set cuts. cut_within c k"
    "\<forall>k \<in> set cuts. tw_source_start (snd (ws ! i)) \<le> r_start (cut_source_range k)"
    "\<forall>k \<in> set cuts. \<forall>j < i. cut_clear k (snd (ws ! j))"
    "\<forall>k \<in> set cuts. \<forall>j < length ws. b < j \<longrightarrow> r_end (cut_source_range k) \<le> tw_source_start (snd (ws ! j))"
    and cov: "\<forall>f j. i \<le> j \<longrightarrow> j \<le> b \<longrightarrow> in_word f (snd (ws ! j)) \<longrightarrow> r_start (source_range c) \<le> f \<longrightarrow> f < r_end (source_range c) \<longrightarrow>
       (i \<noteq> 0 \<longrightarrow> \<not> in_word f (snd (ws ! (i - 1)))) \<longrightarrow> (b + 1 < length ws \<longrightarrow> \<not> in_word f (snd (ws ! (b + 1)))) \<longrightarrow>
       (\<exists>k \<in> set cuts. in_cut f k)"
    using run_cut_spec [OF r _ _ c m, of i b] bb by blast
  have clear: "cut_clear k (snd (ws ! j))" if "k \<in> set cuts" "j < length ws" "\<not> sel (fst (ws ! j))" for k j
  proof -
    have "j < i \<or> b < j" using that bs by (meson not_le)
    then show ?thesis using cuts(5,6) that by (auto simp: cut_clear_def)
  qed
  have starts: "tw_source_start (snd (ws ! j)) \<le> r_start (cut_source_range k)" if "k \<in> set (cuts @ rest)" "j < length ws" "j \<le> i" for k j
  proof (cases "k \<in> set cuts")
    case True
    then show ?thesis using cuts(4) rising_nth [OF r that(3) i(1)] by force
  next
    case False
    then show ?thesis using that l' bb by (auto simp: loop_cuts_def)
  qed
  have before: "cut_before k k'" if "k \<in> set cuts" "k' \<in> set rest" for k k'
  proof (cases "b + 1 < length ws")
    case True
    then have "tw_source_start (snd (ws ! (b + 1))) \<le> r_start (cut_source_range k')" using l' that by (auto simp: loop_cuts_def)
    moreover have "r_end (cut_source_range k) \<le> tw_source_start (snd (ws ! (b + 1)))" using cuts(6) that True by auto
    ultimately show ?thesis by (simp add: cut_before_def)
  next
    case False
    then show ?thesis using e' that by auto
  qed
  have srt: "sorted_wrt cut_before (cuts @ rest)"
    using cuts(2) before l' by (cases cuts) (auto simp: loop_cuts_def sorted_wrt_append)
  have cover: "\<exists>k \<in> set (cuts @ rest). in_cut f k" if h: "i \<le> j" "j < length ws" "sel (fst (ws ! j))" "in_word f (snd (ws ! j))"
    "r_start (source_range c) \<le> f" "f < r_end (source_range c)" "\<forall>l < length ws. \<not> sel (fst (ws ! l)) \<longrightarrow> \<not> in_word f (snd (ws ! l))" for f j
  proof (cases "j \<le> b")
    case True
    have "i \<noteq> 0 \<longrightarrow> \<not> in_word f (snd (ws ! (i - 1)))" using h(7) bd i by (auto simp: run_boundary_def)
    moreover have "b + 1 < length ws \<longrightarrow> \<not> in_word f (snd (ws ! (b + 1)))" using h(7) bs by blast
    ultimately show ?thesis using cov True h(1,4,5,6) by (auto 0 3)
  next
    case False
    then have "b + 1 \<le> j" by simp
    with h l' show ?thesis unfolding loop_cuts_def by (metis Un_iff set_append)
  qed
  have "loop_cuts sel c ws i (cuts @ rest)"
    unfolding loop_cuts_def using cuts(3) l' clear starts srt cover by (auto simp: loop_cuts_def)
  with cuts(1) show ?thesis by (auto simp: b_def)
qed

lemma cut_loop_spec:
  assumes r: "rising ws" and c: "r_start (source_range c) \<le> r_end (source_range c)" "r_end (source_range c) \<le> i64_max" and m: "0 \<le> m"
  shows "run_boundary sel ws i \<Longrightarrow> \<exists>cuts. cut_loop sel c m ws i = Some cuts \<and> loop_cuts sel c ws i cuts"
proof (induction "length ws - i" arbitrary: i rule: less_induct)
  case less
  show ?case
  proof (cases "i < length ws")
    case False
    then show ?thesis by (subst cut_loop.simps) (simp add: loop_cuts_def)
  next
    case len: True
    show ?thesis
    proof (cases "sel (fst (ws ! i))")
      case False
      then have "run_boundary sel ws (i + 1)" by (simp add: run_boundary_def)
      with less.hyps [of "i + 1"] len obtain cuts where *: "cut_loop sel c m ws (i + 1) = Some cuts" "loop_cuts sel c ws (i + 1) cuts"
        by (auto simp: diff_less_mono2)
      from loop_cuts_skip [OF r False *(2)] *(1) len False show ?thesis by (subst cut_loop.simps) simp
    next
      case True
      define b where "b = run_end sel ws i"
      note bb = run_end_bounds [OF len, of sel, folded b_def] and bs = run_end_spec [OF len, of sel, folded b_def]
      have "run_boundary sel ws (b + 1)" using bs True by (simp add: run_boundary_def)
      with less.hyps [of "b + 1"] bb obtain rest where *: "cut_loop sel c m ws (b + 1) = Some rest" "loop_cuts sel c ws (b + 1) rest"
        by (auto simp: diff_less_mono2)
      have "rest = []" if "length ws \<le> b + 1" using *(1) that by (subst (asm) cut_loop.simps) simp
      then have "\<exists>cuts. run_cut c m ws i b = Some cuts \<and> loop_cuts sel c ws i (cuts @ rest)"
        using loop_cuts_run [OF r c m len True less.prems] * by (simp add: b_def)
      with * len True show ?thesis by (subst cut_loop.simps) (auto simp: b_def)
    qed
  qed
qed

subsection \<open>All clips\<close>

text \<open>No word lies strictly inside another word of its clip.\<close>

definition unnested_words :: "timeline_transcript_word list \<Rightarrow> bool" where
  "unnested_words words \<longleftrightarrow> (\<forall>u \<in> set words. \<forall>v \<in> set words. tw_clip u = tw_clip v \<longrightarrow>
     tw_source_start u < tw_source_start v \<longrightarrow> tw_source_end u \<le> tw_source_end v)"

lemma set_clip_words: "set (clip_words words i) = {(n, words ! n) |n. n < length words \<and> tw_clip (words ! n) = i}"
  by (auto simp: clip_words_def in_set_enumerate_eq)

lemma clip_words_rising:
  assumes "unnested_words words"
  shows "rising (clip_words words i)"
proof -
  define key where "key = (\<lambda>(n :: nat, w :: timeline_transcript_word). (tw_source_start w, tw_source_end w, n))"
  have "sorted (map key (clip_words words i))"
    unfolding clip_words_def key_def by (rule sorted_sort_key)
  then have "sorted_wrt (\<lambda>a b. key a \<le> key b) (clip_words words i)" by (simp only: sorted_map)
  then show ?thesis unfolding rising_def
  proof (rule sorted_wrt_mono_rel [rotated])
    fix a b assume ab: "a \<in> set (clip_words words i)" "b \<in> set (clip_words words i)" "key a \<le> key b"
    have "tw_source_start (snd a) < tw_source_start (snd b)
        \<or> tw_source_start (snd a) = tw_source_start (snd b) \<and> tw_source_end (snd a) \<le> tw_source_end (snd b)"
      using ab(3) by (cases a; cases b) (auto simp: key_def)
    moreover have "tw_clip (snd a) = tw_clip (snd b)" "snd a \<in> set words" "snd b \<in> set words"
      using ab(1,2) by (auto simp: set_clip_words)
    ultimately show "tw_source_start (snd a) \<le> tw_source_start (snd b) \<and> tw_source_end (snd a) \<le> tw_source_end (snd b)"
      using assms unfolding unnested_words_def by (metis less_imp_le order_refl)
  qed
qed

lemma clip_cut_loop:
  assumes u: "unnested_words words" and c: "r_start (source_range c) \<le> r_end (source_range c)" "r_end (source_range c) \<le> i64_max"
    and m: "0 \<le> m" and i: "clip_id c = i"
  obtains cuts where "cut_loop sel c m (clip_words words i) 0 = Some cuts" "\<forall>k \<in> set cuts. cut_within c k" "sorted_wrt cut_before cuts"
    "\<forall>k \<in> set cuts. \<forall>n < length words. tw_clip (words ! n) = i \<longrightarrow> \<not> sel n \<longrightarrow> cut_clear k (words ! n)"
    "\<forall>n < length words. \<forall>f. sel n \<longrightarrow> tw_clip (words ! n) = i \<longrightarrow> in_word f (words ! n) \<longrightarrow> r_start (source_range c) \<le> f \<longrightarrow>
       f < r_end (source_range c) \<longrightarrow> (\<forall>l < length words. \<not> sel l \<longrightarrow> tw_clip (words ! l) = i \<longrightarrow> \<not> in_word f (words ! l)) \<longrightarrow>
       (\<exists>k \<in> set cuts. in_cut f k)"
proof -
  define ws where "ws = clip_words words i"
  have ex: "\<exists>j < length ws. ws ! j = (n, words ! n)" if "n < length words" "tw_clip (words ! n) = i" for n
    using that set_clip_words [of words i] by (simp add: ws_def in_set_conv_nth [symmetric])
  have mem: "snd (ws ! j) = words ! fst (ws ! j) \<and> fst (ws ! j) < length words \<and> tw_clip (words ! fst (ws ! j)) = i" if "j < length ws" for j
    using nth_mem [OF that] set_clip_words [of words i] by (auto simp: ws_def)
  from cut_loop_spec [OF clip_words_rising [OF u] c m, of sel i 0] obtain cuts
    where cuts: "cut_loop sel c m ws 0 = Some cuts" and l: "loop_cuts sel c ws 0 cuts"
    by (auto simp: run_boundary_def ws_def)
  show ?thesis
  proof (rule that)
    show "cut_loop sel c m (clip_words words i) 0 = Some cuts" using cuts by (simp add: ws_def)
    show "\<forall>k \<in> set cuts. cut_within c k" "sorted_wrt cut_before cuts" using l by (auto simp: loop_cuts_def)
    show "\<forall>k \<in> set cuts. \<forall>n < length words. tw_clip (words ! n) = i \<longrightarrow> \<not> sel n \<longrightarrow> cut_clear k (words ! n)"
      using l ex unfolding loop_cuts_def by (metis fst_conv snd_conv)
    show "\<forall>n < length words. \<forall>f. sel n \<longrightarrow> tw_clip (words ! n) = i \<longrightarrow> in_word f (words ! n) \<longrightarrow> r_start (source_range c) \<le> f \<longrightarrow>
       f < r_end (source_range c) \<longrightarrow> (\<forall>l < length words. \<not> sel l \<longrightarrow> tw_clip (words ! l) = i \<longrightarrow> \<not> in_word f (words ! l)) \<longrightarrow>
       (\<exists>k \<in> set cuts. in_cut f k)"
    proof (intro allI impI)
      fix n f assume *: "n < length words" "sel n" "tw_clip (words ! n) = i" "in_word f (words ! n)" "r_start (source_range c) \<le> f"
        "f < r_end (source_range c)" "\<forall>l < length words. \<not> sel l \<longrightarrow> tw_clip (words ! l) = i \<longrightarrow> \<not> in_word f (words ! l)"
      from ex [OF *(1,3)] obtain j where j: "j < length ws" "ws ! j = (n, words ! n)" by blast
      have "\<forall>l < length ws. \<not> sel (fst (ws ! l)) \<longrightarrow> \<not> in_word f (snd (ws ! l))" using mem *(7) by simp
      with j * l show "\<exists>k \<in> set cuts. in_cut f k" unfolding loop_cuts_def by (metis fst_conv snd_conv le0)
    qed
  qed
qed

text \<open>What the code relies on of the clips the words name.\<close>

definition cuttable :: "document \<Rightarrow> clip_id \<Rightarrow> bool" where
  "cuttable doc i \<longleftrightarrow> (\<exists>c a. doc_clip doc i = Some c \<and> doc_asset doc (clip_asset c) = Some a \<and> 0 \<le> silence_cut_margin_frames (asset_fps a)
     \<and> r_start (source_range c) \<le> r_end (source_range c) \<and> r_end (source_range c) \<le> i64_max)"

definition cut_order :: "transcript_cut_range \<Rightarrow> transcript_cut_range \<Rightarrow> bool" where
  "cut_order a b \<longleftrightarrow> (cut_clip a = cut_clip b \<longrightarrow> cut_before a b)"

definition good_cuts :: "document \<Rightarrow> timeline_transcript_word list \<Rightarrow> (nat \<Rightarrow> bool) \<Rightarrow> clip_id list \<Rightarrow> transcript_cut_range list \<Rightarrow> bool" where
  "good_cuts doc words sel is cuts \<longleftrightarrow>
     (\<forall>k \<in> set cuts. cut_clip k \<in> set is \<and> (\<exists>c. doc_clip doc (cut_clip k) = Some c \<and> cut_within c k)
        \<and> (\<forall>n < length words. tw_clip (words ! n) = cut_clip k \<longrightarrow> \<not> sel n \<longrightarrow> cut_clear k (words ! n)))
     \<and> sorted_wrt cut_order cuts
     \<and> (\<forall>n < length words. \<forall>f c. sel n \<longrightarrow> tw_clip (words ! n) \<in> set is \<longrightarrow> doc_clip doc (tw_clip (words ! n)) = Some c \<longrightarrow>
          in_word f (words ! n) \<longrightarrow> r_start (source_range c) \<le> f \<longrightarrow> f < r_end (source_range c) \<longrightarrow>
          (\<forall>l < length words. \<not> sel l \<longrightarrow> tw_clip (words ! l) = tw_clip (words ! n) \<longrightarrow> \<not> in_word f (words ! l)) \<longrightarrow>
          (\<exists>k \<in> set cuts. cut_clip k = tw_clip (words ! n) \<and> in_cut f k))"

lemma good_cuts_cover:
  assumes "good_cuts doc words sel is cuts" "n < length words" "sel n" "tw_clip (words ! n) \<in> set is" "doc_clip doc (tw_clip (words ! n)) = Some c"
    "in_word f (words ! n)" "r_start (source_range c) \<le> f" "f < r_end (source_range c)"
    "\<forall>l < length words. \<not> sel l \<longrightarrow> tw_clip (words ! l) = tw_clip (words ! n) \<longrightarrow> \<not> in_word f (words ! l)"
  shows "\<exists>k \<in> set cuts. cut_clip k = tw_clip (words ! n) \<and> in_cut f k"
  using assms unfolding good_cuts_def by blast

lemma doc_clip_id: "doc_clip doc i = Some c \<Longrightarrow> clip_id c = i \<and> c \<in> set (all_clips doc)"
  using find_Some_mem [of "\<lambda>c. clip_id c = i" "all_clips doc" c] by (simp add: doc_clip_def)

lemma clip_cuts_spec:
  assumes u: "unnested_words words"
  shows "\<forall>i \<in> set is. cuttable doc i \<Longrightarrow> distinct is \<Longrightarrow> \<exists>cuts. clip_cuts doc words sel is = Some cuts \<and> good_cuts doc words sel is cuts"
proof (induction "is")
  case Nil
  then show ?case by (simp add: good_cuts_def)
next
  case (Cons i "is")
  then obtain rest where rest: "clip_cuts doc words sel is = Some rest" "good_cuts doc words sel is rest" by auto
  from Cons.prems obtain c a where c: "doc_clip doc i = Some c" "doc_asset doc (clip_asset c) = Some a"
    "0 \<le> silence_cut_margin_frames (asset_fps a)" "r_start (source_range c) \<le> r_end (source_range c)" "r_end (source_range c) \<le> i64_max"
    by (auto simp: cuttable_def)
  have i: "clip_id c = i" using doc_clip_id [OF c(1)] by simp
  obtain cuts where cuts: "cut_loop sel c (silence_cut_margin_frames (asset_fps a)) (clip_words words i) 0 = Some cuts"
    "\<forall>k \<in> set cuts. cut_within c k" "sorted_wrt cut_before cuts"
    "\<forall>k \<in> set cuts. \<forall>n < length words. tw_clip (words ! n) = i \<longrightarrow> \<not> sel n \<longrightarrow> cut_clear k (words ! n)"
    and cov: "\<forall>n < length words. \<forall>f. sel n \<longrightarrow> tw_clip (words ! n) = i \<longrightarrow> in_word f (words ! n) \<longrightarrow> r_start (source_range c) \<le> f \<longrightarrow>
       f < r_end (source_range c) \<longrightarrow> (\<forall>l < length words. \<not> sel l \<longrightarrow> tw_clip (words ! l) = i \<longrightarrow> \<not> in_word f (words ! l)) \<longrightarrow>
       (\<exists>k \<in> set cuts. in_cut f k)"
    by (rule clip_cut_loop [OF u c(4,5,3) i, of sel])
  have own: "\<forall>k \<in> set cuts. cut_clip k = i" using cuts(2) i by (simp add: cut_within_def)
  have o: "sorted_wrt cut_order (cuts @ rest)"
    using cuts(3) own rest(2) Cons.prems(2) sorted_wrt_mono_rel [of cuts cut_before cut_order]
    by (fastforce simp: good_cuts_def sorted_wrt_append cut_order_def)
  have "good_cuts doc words sel (i # is) (cuts @ rest)"
    unfolding good_cuts_def
  proof (intro conjI ballI allI impI)
    fix n f c' assume *: "n < length words" "sel n" "tw_clip (words ! n) \<in> set (i # is)" "doc_clip doc (tw_clip (words ! n)) = Some c'"
      "in_word f (words ! n)" "r_start (source_range c') \<le> f" "f < r_end (source_range c')"
      "\<forall>l < length words. \<not> sel l \<longrightarrow> tw_clip (words ! l) = tw_clip (words ! n) \<longrightarrow> \<not> in_word f (words ! l)"
    show "\<exists>k \<in> set (cuts @ rest). cut_clip k = tw_clip (words ! n) \<and> in_cut f k"
    proof (cases "tw_clip (words ! n) = i")
      case True
      with * c(1) cov own show ?thesis by (metis Un_iff option.inject set_append)
    next
      case False
      with * rest(2) show ?thesis unfolding good_cuts_def by (metis Un_iff set_ConsD set_append)
    qed
  qed (use cuts own rest(2) c(1) o in \<open>auto simp: good_cuts_def\<close>)
  with cuts(1) rest(1) c show ?case by simp
qed

lemma selected_clips_fold:
  "distinct acc \<Longrightarrow> distinct (fold (\<lambda>(n, w) acc. if sel n \<and> tw_clip w \<notin> set acc then acc @ [tw_clip w] else acc) xs acc)
    \<and> set (fold (\<lambda>(n, w) acc. if sel n \<and> tw_clip w \<notin> set acc then acc @ [tw_clip w] else acc) xs acc)
      = set acc \<union> (\<lambda>(n, w). tw_clip w) ` {p \<in> set xs. sel (fst p)}"
proof (induction xs arbitrary: acc)
  case (Cons p xs)
  obtain n w where p: "p = (n, w)" by (cases p)
  show ?case
  proof (cases "sel n \<and> tw_clip w \<notin> set acc")
    case True
    with Cons.IH [of "acc @ [tw_clip w]"] Cons.prems show ?thesis by (auto simp: p image_iff)
  next
    case False
    with Cons.IH [of acc] Cons.prems show ?thesis by (auto simp: p image_iff)
  qed
qed simp

lemma selected_clips_set:
  "distinct (selected_clips sel words)"
  "set (selected_clips sel words) = {tw_clip (words ! n) |n. n < length words \<and> sel n}"
  using selected_clips_fold [of "[]" sel "enumerate 0 words"]
  by (auto simp: selected_clips_def in_set_enumerate_eq image_iff)

lemma good_cuts_clear:
  "good_cuts doc words sel is cuts \<Longrightarrow> retained_words_are_clear words sel cuts"
  unfolding retained_words_are_clear_def good_cuts_def cut_clear_def [symmetric]
  by (auto simp: list_all_iff in_set_enumerate_eq)

lemma cut_ranges_good:
  assumes "unnested_words words" "\<forall>w \<in> set words. cuttable doc (tw_clip w)"
  shows "\<exists>cuts. transcript_cut_ranges_for_indices doc words selected = Some cuts
    \<and> good_cuts doc words (\<lambda>n. n \<in> set selected) (map tw_clip words) cuts"
proof -
  define sel where "sel = (\<lambda>n. n \<in> set (filter (\<lambda>n. n < length words) selected))"
  have sel: "sel n \<longleftrightarrow> n \<in> set selected" if "n < length words" for n using that by (simp add: sel_def)
  show ?thesis
  proof (cases "filter (\<lambda>n. n < length words) selected = []")
    case True
    then have "good_cuts doc words (\<lambda>n. n \<in> set selected) (map tw_clip words) []"
      by (auto simp: good_cuts_def filter_empty_conv)
    with True show ?thesis by (simp add: transcript_cut_ranges_for_indices_def)
  next
    case False
    have "\<forall>i \<in> set (selected_clips sel words). cuttable doc i" using assms(2) by (auto simp: selected_clips_set)
    from clip_cuts_spec [OF assms(1) this selected_clips_set(1)] obtain cuts
      where cuts: "clip_cuts doc words sel (selected_clips sel words) = Some cuts" "good_cuts doc words sel (selected_clips sel words) cuts" by blast
    have "good_cuts doc words (\<lambda>n. n \<in> set selected) (map tw_clip words) cuts"
      using cuts(2) unfolding good_cuts_def selected_clips_set by (auto simp: sel)
    moreover note good_cuts_clear [OF cuts(2)]
    ultimately show ?thesis using cuts(1) False by (simp add: transcript_cut_ranges_for_indices_def sel_def)
  qed
qed

subsection \<open>Words mapped onto the timeline\<close>

definition unnested_transcript :: "transcript_word list \<Rightarrow> bool" where
  "unnested_transcript ws \<longleftrightarrow> (\<forall>u \<in> set ws. \<forall>v \<in> set ws. word_start u < word_start v \<longrightarrow> word_end u \<le> word_end v)"

text \<open>A timeline word is a transcript word of a media clip's asset, clipped to the clip.\<close>

definition word_of_clip :: "clip \<Rightarrow> asset_transcript \<Rightarrow> timeline_transcript_word \<Rightarrow> bool" where
  "word_of_clip c t w \<longleftrightarrow> tw_clip w = clip_id c \<and> tw_source_start w < tw_source_end w \<and> (\<exists>u \<in> set (transcript_words t).
     tw_source_start w = max (word_start u) (r_start (source_range c)) \<and> tw_source_end w = min (word_end u) (r_end (source_range c)))"

lemma timeline_word_of_clip:
  "timeline_word doc requested tr c a stop u = Inr ws \<Longrightarrow> w \<in> set ws \<Longrightarrow>
     tw_clip w = clip_id c \<and> tw_source_start w < tw_source_end w
     \<and> tw_source_start w = max (word_start u) (r_start (source_range c)) \<and> tw_source_end w = min (word_end u) (r_end (source_range c))"
  unfolding timeline_word_def Let_def by (auto simp: rbind_eq_Inr split: if_split_asm)

lemma map_res_concat_mem:
  "map_res f xs = Inr yss \<Longrightarrow> y \<in> set (concat yss) \<Longrightarrow> \<exists>x \<in> set xs. \<exists>ys. f x = Inr ys \<and> y \<in> set ys"
  by (fastforce simp: map_res_eq_Inr list_all2_conv_all_nth in_set_conv_nth)

lemma clip_timeline_words_mem:
  assumes "clip_timeline_words doc requested tf tr c = Inr ws" "w \<in> set ws"
  obtains a t where "is_media (content c)" "doc_asset doc (clip_asset c) = Some a" "tf a = Some t" "word_of_clip c t w"
proof -
  from assms obtain a t yss stop where *: "is_media (content c)" "doc_asset doc (clip_asset c) = Some a" "tf a = Some t"
    "map_res (timeline_word doc requested tr c a stop) (transcript_words t) = Inr yss" "w \<in> set (concat yss)"
    unfolding clip_timeline_words_def
    by (auto simp: rbind_eq_Inr split: if_split_asm option.split_asm)
  from map_res_concat_mem [OF *(4,5)] obtain u ys where "u \<in> set (transcript_words t)" "timeline_word doc requested tr c a stop u = Inr ys" "w \<in> set ys"
    by blast
  with timeline_word_of_clip have "word_of_clip c t w" unfolding word_of_clip_def by blast
  with * that show ?thesis by blast
qed

lemma map_timeline_words_mem:
  assumes "map_timeline_words doc wanted tf = Inr words" "w \<in> set words"
  obtains tr c a t where "tr \<in> set (tracks doc)" "c \<in> set (clips tr)" "is_media (content c)"
    "doc_asset doc (clip_asset c) = Some a" "tf a = Some t" "word_of_clip c t w"
proof -
  from assms obtain requested yss where
    *: "map_res (\<lambda>(tr, c). clip_timeline_words doc requested tf tr c) (concat (map (\<lambda>tr. map (Pair tr) (clips tr)) (tracks doc))) = Inr yss"
      "w \<in> set (concat yss)"
    unfolding map_timeline_words_def Let_def by (auto simp: rbind_eq_Inr split: if_split_asm)
  from map_res_concat_mem [OF *] obtain tr c ys where "tr \<in> set (tracks doc)" "c \<in> set (clips tr)"
    "clip_timeline_words doc requested tf tr c = Inr ys" "w \<in> set ys" by auto
  with clip_timeline_words_mem that show ?thesis by metis
qed

lemma doc_clip_unique:
  assumes "validate_document doc = Inr ()" "tr \<in> set (tracks doc)" "c \<in> set (clips tr)"
  shows "doc_clip doc (clip_id c) = Some c"
proof -
  have "c \<in> set (all_clips doc)" using assms by (auto simp: all_clips_concat)
  with validated_ids_distinct(1) [OF assms(1)] show ?thesis
    unfolding doc_clip_def by (auto intro: find_unique_key)
qed

lemma margin_nonneg: "rate_ok r \<Longrightarrow> 0 \<le> silence_cut_margin_frames r"
  by (auto simp: silence_cut_margin_frames_def Let_def rate_ok_def in_u32_def try_i64_def pos_imp_zdiv_nonneg_iff i64_max_def split: option.split)

lemma timeline_words_cuttable:
  assumes v: "validate_document doc = Inr ()" and t: "doc_typed doc" and w: "map_timeline_words doc wanted tf = Inr words"
    and un: "\<forall>a t. tf a = Some t \<longrightarrow> unnested_transcript (transcript_words t)"
  shows "unnested_words words" "\<forall>x \<in> set words. cuttable doc (tw_clip x)"
    "\<forall>x \<in> set words. \<forall>c f. doc_clip doc (tw_clip x) = Some c \<longrightarrow> in_word f x \<longrightarrow> r_start (source_range c) \<le> f \<and> f < r_end (source_range c)"
proof -
  have src: "\<exists>c a t. doc_clip doc (tw_clip x) = Some c \<and> doc_asset doc (clip_asset c) = Some a \<and> tf a = Some t \<and> word_of_clip c t x
      \<and> r_start (source_range c) < r_end (source_range c) \<and> r_end (source_range c) \<le> i64_max \<and> rate_ok (asset_fps a)"
    if x: "x \<in> set words" for x
  proof -
    from map_timeline_words_mem [OF w x] obtain tr c a t' where *: "tr \<in> set (tracks doc)" "c \<in> set (clips tr)" "is_media (content c)"
      "doc_asset doc (clip_asset c) = Some a" "tf a = Some t'" "word_of_clip c t' x" .
    from media_clip_facts [OF v t *(1-3)] obtain a' where "doc_asset doc (clip_asset c) = Some a'"
      "r_start (source_range c) < r_end (source_range c)" "r_end (source_range c) \<le> asset_duration a'" "asset_duration a' \<le> i64_max" by blast
    moreover have "rate_ok (asset_fps a)" using t doc_asset_mem [OF *(4)] by (auto simp: doc_typed_def list_all_iff)
    moreover have "doc_clip doc (tw_clip x) = Some c" using doc_clip_unique [OF v *(1,2)] *(6) by (simp add: word_of_clip_def)
    ultimately show ?thesis using * by auto
  qed
  show "\<forall>x \<in> set words. cuttable doc (tw_clip x)"
    using src margin_nonneg unfolding cuttable_def by (metis less_imp_le)
  show "\<forall>x \<in> set words. \<forall>c f. doc_clip doc (tw_clip x) = Some c \<longrightarrow> in_word f x \<longrightarrow> r_start (source_range c) \<le> f \<and> f < r_end (source_range c)"
    using src by (fastforce simp: word_of_clip_def in_word_def)
  show "unnested_words words"
    unfolding unnested_words_def
  proof (intro ballI impI)
    fix x y assume xy: "x \<in> set words" "y \<in> set words" "tw_clip x = tw_clip y" "tw_source_start x < tw_source_start y"
    from src [OF xy(1)] src [OF xy(2)] xy(3) obtain c t where "word_of_clip c t x" "word_of_clip c t y"
      "unnested_transcript (transcript_words t)" using un by (metis option.inject)
    then show "tw_source_end x \<le> tw_source_end y"
      using xy(4) by (auto simp: word_of_clip_def unnested_transcript_def less_max_iff_disj min_le_iff_disj)
  qed
qed

lemma keep_new_words_subset: "set (keep_new_words seen ws) \<subseteq> set ws"
  by (induction seen ws rule: keep_new_words.induct) auto

lemma dedup_subset: "w \<in> set (dedup_linked_timeline_words words) \<Longrightarrow> w \<in> set words"
  using keep_new_words_subset by (auto simp: dedup_linked_timeline_words_def)

lemma dedup_words_cuttable:
  assumes "validate_document doc = Inr ()" "doc_typed doc" "map_timeline_words doc wanted tf = Inr all_words"
    and "\<forall>a t. tf a = Some t \<longrightarrow> unnested_transcript (transcript_words t)"
  defines "words \<equiv> dedup_linked_timeline_words all_words"
  shows "unnested_words words" "\<forall>x \<in> set words. cuttable doc (tw_clip x)"
    "\<forall>x \<in> set words. \<forall>c f. doc_clip doc (tw_clip x) = Some c \<longrightarrow> in_word f x \<longrightarrow> r_start (source_range c) \<le> f \<and> f < r_end (source_range c)"
  using timeline_words_cuttable [OF assms(1-4)] unfolding words_def unnested_words_def by (blast dest: dedup_subset)+

section \<open>Word times from recognised speech\<close>

definition frames_of :: "rational \<Rightarrow> int \<Rightarrow> timecode" where
  "frames_of fps c = (if c < 0 then 0 else nearest \<lparr>numerator = 100, denominator = 1\<rparr> fps c)"

lemma rate_ok_centiseconds: "rate_ok \<lparr>numerator = 100, denominator = 1\<rparr>"
  by (simp add: rate_ok_def int_width_defs)

lemma centiseconds_to_frames_Inr:
  assumes "rate_ok fps" "c \<le> i64_max" "centiseconds_to_frames c fps Nearest = Inr f"
  shows "f = frames_of fps c"
proof -
  have "rational_new 100 1 = Inr \<lparr>numerator = 100, denominator = 1\<rparr>"
    by (simp add: rational_new_def gcd_u32_eq Let_def)
  with assms show ?thesis
    by (auto simp: centiseconds_to_frames_def frames_of_def rbind_eq_Inr nearest_rounded try_i64_def
        map_frames_with_rounding_eq [OF rate_ok_centiseconds assms(1)] split: if_split_asm)
qed

lemma frames_of_mono: "rate_ok fps \<Longrightarrow> a \<le> b \<Longrightarrow> frames_of fps a \<le> frames_of fps b"
  using nearest_mono [OF rate_ok_centiseconds, of fps a b] nearest_nonneg [OF rate_ok_centiseconds, of fps b]
  by (auto simp: frames_of_def)

text \<open>The frames of a word spoken in the centiseconds from \<open>a\<close> to \<open>b\<close>.\<close>

definition spoken :: "rational \<Rightarrow> timecode \<Rightarrow> int \<Rightarrow> int \<Rightarrow> transcript_word \<Rightarrow> bool" where
  "spoken fps duration a b w \<longleftrightarrow> word_start w = max 0 (min (frames_of fps a) duration)
     \<and> word_end w = max (word_start w + 1) (min (frames_of fps b) duration)
     \<and> word_end w \<le> duration \<and> word_text w \<noteq> []"

definition word_le :: "transcript_word \<Rightarrow> transcript_word \<Rightarrow> bool" where
  "word_le u v \<longleftrightarrow> word_start u \<le> word_start v \<and> word_end u \<le> word_end v"

lemma spoken_le:
  "rate_ok fps \<Longrightarrow> spoken fps d a b u \<Longrightarrow> spoken fps d a' b' v \<Longrightarrow> a \<le> a' \<Longrightarrow> b \<le> b' \<Longrightarrow> word_le u v"
  using frames_of_mono [of fps a a'] frames_of_mono [of fps b b'] unfolding spoken_def word_le_def by linarith

lemma push_word_Inr:
  assumes "rate_ok fps" "in_i64 d" "b \<le> i64_max" "a \<le> i64_max" "push_word fps d (t, a, b) out = Inr out'"
  obtains "out' = out" | w where "out' = out @ [w]" "spoken fps d a b w"
proof -
  define st where "st = max 0 (min (frames_of fps a) d)"
  define en where "en = max (saturating_add_i64 st 1) (min (frames_of fps b) d)"
  have sat: "saturating_add_i64 st 1 = st + 1" if "st < d"
    using that assms(2) by (simp add: saturating_add_i64_def clamp_i64_def int_width_defs st_def)
  have "out' = out \<or> trim t \<noteq> [] \<and> st < d \<and> out' = out @ [\<lparr>word_text = trim t, word_start = st, word_end = en, word_speaker = None\<rparr>]"
    using assms(5) centiseconds_to_frames_Inr [OF assms(1,4)] centiseconds_to_frames_Inr [OF assms(1,3)]
    unfolding push_word_def Let_def en_def st_def
    by (auto simp: rbind_eq_Inr simp del: max.bounded_iff split: if_split_asm)
  then show ?thesis
  proof (elim disjE conjE)
    assume w: "trim t \<noteq> []" "st < d" "out' = out @ [\<lparr>word_text = trim t, word_start = st, word_end = en, word_speaker = None\<rparr>]"
    then show ?thesis
      using sat [OF w(2)] by (intro that(2) [OF w(3)]) (simp add: spoken_def st_def [symmetric] en_def)
  qed (rule that(1))
qed

text \<open>Everything said up to the centisecond \<open>m\<close>, in order.\<close>

definition said_by :: "rational \<Rightarrow> timecode \<Rightarrow> int \<Rightarrow> transcript_word list \<Rightarrow> bool" where
  "said_by fps d m out \<longleftrightarrow> sorted_wrt word_le out \<and> (\<forall>w \<in> set out. \<exists>a b. a \<le> m \<and> b \<le> m \<and> spoken fps d a b w)"

lemma said_by_mono: "said_by fps d m out \<Longrightarrow> m \<le> n \<Longrightarrow> said_by fps d n out"
  unfolding said_by_def by (meson order_trans)

lemma said_by_push:
  assumes r: "rate_ok fps" "in_i64 d" and s: "said_by fps d m out" and ab: "m \<le> a" "a \<le> b" "b \<le> i64_max"
    and p: "push_word fps d (t, a, b) out = Inr out'"
  shows "said_by fps d b out'"
proof -
  have a: "a \<le> i64_max" using ab by simp
  show ?thesis
  proof (rule push_word_Inr [OF r ab(3) a p])
    assume "out' = out"
    then show ?thesis using said_by_mono [OF s, of b] ab by simp
  next
    fix w assume w: "out' = out @ [w]" "spoken fps d a b w"
    have "word_le u w" if "u \<in> set out" for u
      using s that spoken_le [OF r(1) _ w(2)] ab unfolding said_by_def by (meson order_trans)
    then show ?thesis using s ab w unfolding said_by_def by (auto simp: sorted_wrt_append) (meson order_trans)
  qed
qed

text \<open>Intervals that follow one another from \<open>m\<close> to \<open>n\<close>.\<close>

fun follow_on :: "int \<Rightarrow> int \<Rightarrow> (utext \<times> int \<times> int) list \<Rightarrow> bool" where
  "follow_on m n [] \<longleftrightarrow> m \<le> n"
| "follow_on m n ((t, a, b) # xs) \<longleftrightarrow> m \<le> a \<and> a \<le> b \<and> follow_on b n xs"

lemma follow_on_le: "follow_on m n xs \<Longrightarrow> m \<le> n"
  by (induction m n xs rule: follow_on.induct) auto

lemma said_by_pushes:
  assumes r: "rate_ok fps" "in_i64 d"
  shows "follow_on m n xs \<Longrightarrow> n \<le> i64_max \<Longrightarrow> said_by fps d m out \<Longrightarrow> fold_res (push_word fps d) xs out = Inr out' \<Longrightarrow>
     said_by fps d n out'"
proof (induction m n xs arbitrary: out rule: follow_on.induct)
  case (1 m n)
  then show ?case using said_by_mono by auto
next
  case (2 m n t a b xs)
  then obtain mid where mid: "push_word fps d (t, a, b) out = Inr mid" "fold_res (push_word fps d) xs mid = Inr out'"
    by (auto simp: rbind_eq_Inr)
  have "b \<le> i64_max" using 2 follow_on_le [of b n xs] by simp
  with 2 mid said_by_push [OF r _ _ _ _ mid(1)] show ?case by auto
qed

lemma follow_on_chain:
  fixes g :: "nat \<Rightarrow> int"
  assumes g: "mono g"
  shows "follow_on (g i) (g (i + length ts)) (map (\<lambda>(j, t). (t, g j, g (Suc j))) (enumerate i ts))"
proof (induction ts arbitrary: i)
  case (Cons t ts)
  from Cons [of "Suc i"] monoD [OF g, of i "Suc i"] show ?case by simp
qed simp

lemma follow_on_widen: "follow_on a b xs \<Longrightarrow> m \<le> a \<Longrightarrow> b \<le> n \<Longrightarrow> follow_on m n xs"
  by (induction a b xs arbitrary: m rule: follow_on.induct) auto

text \<open>The share of time of the first \<open>i\<close> of \<open>n\<close> pieces.\<close>

lemma token_pieces_follow:
  assumes "0 \<le> s" "s < e" "e \<le> i64_max" "pieces \<noteq> []"
  shows "follow_on s e (token_pieces pieces s e)"
proof -
  define n where "n = int (length pieces)"
  define g where "g = (\<lambda>i :: nat. saturating_add_i64 s (saturating_mul_i64 (e - s) (int i) sdiv n))"
  have n: "0 < n" using assms by (simp add: n_def)
  have sp: "max 1 (saturating_sub_i64 e s) = e - s"
    using assms by (simp add: saturating_sub_i64_def clamp_i64_def int_width_defs)
  have "0 \<le> clamp_i64 ((e - s) * int i)" for i
    using mult_nonneg_nonneg [of "e - s" "int i"] assms unfolding clamp_i64_def int_width_defs by linarith
  then have q: "saturating_mul_i64 (e - s) (int i) sdiv n = clamp_i64 ((e - s) * int i) div n" for i
    using n by (simp add: saturating_mul_i64_def sdiv_nonneg)
  have "mono g"
    using n assms unfolding g_def q saturating_add_i64_def
    by (intro monoI clamp_i64_mono add_left_mono zdiv_mono1 clamp_i64_mono mult_left_mono) auto
  note f = follow_on_chain [OF this, of 0 pieces]
  have tp: "token_pieces pieces s e = map (\<lambda>(j, t). (t, g j, g (Suc j))) (enumerate 0 pieces)"
    by (simp add: token_pieces_def Let_def sp g_def n_def add.commute)
  have g0: "g 0 = s" using assms by (simp add: g_def q saturating_add_i64_def clamp_i64_def int_width_defs)
  have "clamp_i64 ((e - s) * n) \<le> (e - s) * n"
    using n assms mult_nonneg_nonneg [of "e - s" n] unfolding clamp_i64_def int_width_defs by linarith
  from zdiv_mono1 [OF this n] have "clamp_i64 ((e - s) * n) div n \<le> e - s" using n by simp
  then have "s + clamp_i64 ((e - s) * n) div n \<le> e" by simp
  then have "g (length pieces) \<le> e" using assms clamp_i64_mono [of "s + clamp_i64 ((e - s) * n) div n" e]
    unfolding g_def q saturating_add_i64_def n_def [symmetric] by (simp add: clamp_i64_def [of e] int_width_defs)
  with f g0 show ?thesis by (simp add: tp follow_on_widen)
qed

lemma even_shares_follow:
  assumes "0 \<le> s" "s < e" "e \<le> i64_max" "in_i64 ((e - s) * int (length ws))"
  shows "follow_on s e (even_shares ws s e)"
proof (cases "ws = []")
  case True
  then show ?thesis using assms by (simp add: even_shares_def)
next
  case False
  define n where "n = int (length ws)"
  define g where "g = (\<lambda>i :: nat. s + (e - s) * int i div n)"
  have n: "0 < n" using False by (simp add: n_def)
  have "mono g" using n assms unfolding g_def by (intro monoI add_left_mono zdiv_mono1 mult_left_mono) auto
  note f = follow_on_chain [OF this, of 0 ws]
  have w: "wrap_i64 (s + wrap_i64 ((e - s) * int i) sdiv n) = g i" if "i \<le> length ws" for i
  proof -
    have le: "(e - s) * int i \<le> (e - s) * n" using that assms by (simp add: n_def)
    then have b: "0 \<le> (e - s) * int i" "in_i64 ((e - s) * int i)"
      using assms by (auto simp: n_def intro: in_i64_between [of 0])
    have "(e - s) * int i div n \<le> (e - s) * n div n" using le n by (rule zdiv_mono1)
    then have "(e - s) * int i div n \<le> e - s" "0 \<le> (e - s) * int i div n" using n b by (simp_all add: pos_imp_zdiv_nonneg_iff)
    then have "in_i64 (s + (e - s) * int i div n)" using assms by (simp add: int_width_defs)
    with b n show ?thesis by (simp add: g_def wrap_i64_id sdiv_nonneg)
  qed
  have sp: "wrap_i64 (e - s) = e - s" using assms by (intro wrap_i64_id) (simp add: int_width_defs)
  have "int (length ws) \<le> (e - s) * int (length ws)" using assms mult_right_mono [of 1 "e - s" "int (length ws)"] by simp
  then have len: "wrap_i64 (int i + 1) = int (Suc i)" if "i < length ws" for i
    using that assms(4) by (intro trans [OF wrap_i64_id]) (auto simp: int_width_defs)
  then have w': "wrap_i64 (s + wrap_i64 ((e - s) * wrap_i64 (int i + 1)) sdiv n) = g (Suc i)" if "i < length ws" for i
    using w [of "Suc i"] that by simp
  have tp: "even_shares ws s e = map (\<lambda>(j, t). (t, g j, g (Suc j))) (enumerate 0 ws)"
    unfolding even_shares_def Let_def sp n_def [symmetric]
    by (rule map_cong [OF refl]) (clarsimp simp: in_set_enumerate_eq w w')
  have g0: "g 0 = s" "g (length ws) = e" using n by (simp_all add: g_def n_def)
  with f show ?thesis by (simp add: tp)
qed

definition pending_ok :: "rational \<Rightarrow> timecode \<Rightarrow> int \<Rightarrow> transcript_word list \<times> (utext \<times> int \<times> int) option \<Rightarrow> bool" where
  "pending_ok fps d m = (\<lambda>(out, pending). case pending of None \<Rightarrow> said_by fps d m out
     | Some (t, a, b) \<Rightarrow> said_by fps d a out \<and> a \<le> b \<and> b \<le> m)"

lemma flush_pending_said:
  assumes "rate_ok fps" "in_i64 d" "m \<le> i64_max" "pending_ok fps d m (out, pending)" "flush_pending fps d pending out = Inr out'"
  shows "said_by fps d m out'"
proof (cases pending)
  case None
  then show ?thesis using assms by (simp add: pending_ok_def flush_pending_def)
next
  case (Some p)
  obtain t a b where p: "p = (t, a, b)" by (cases p)
  with Some assms have *: "said_by fps d a out" "a \<le> b" "b \<le> m" "push_word fps d (t, a, b) out = Inr out'"
    by (auto simp: pending_ok_def flush_pending_def)
  have "said_by fps d b out'" using * assms(3) by (intro said_by_push [OF assms(1,2) *(1) _ *(2) _ *(4)]) auto
  with *(3) show ?thesis by (rule said_by_mono [rotated])
qed

lemma append_token_said:
  assumes r: "rate_ok fps" "in_i64 d" and t: "m \<le> s" "0 \<le> s" "s < e" "e \<le> i64_max"
    and p: "pending_ok fps d m st" and a: "append_token fps d (raw, s, e) st = Inr st'"
  shows "pending_ok fps d e st'"
proof -
  obtain out pending where st: "st = (out, pending)" by (cases st)
  have m: "m \<le> i64_max" using t by simp
  from a obtain out1 p1 where 1: "(if raw \<noteq> [] \<and> is_whitespace (hd raw)
            then rbind (flush_pending fps d pending out) (\<lambda>out. Inr (out, None)) else Inr (out, pending)) = Inr (out1, p1)"
    and 2: "(let pieces = split_whitespace raw
     in if 1 < length pieces
        then rbind (flush_pending fps d p1 out1) (\<lambda>output.
             rbind (fold_res (push_word fps d) (token_pieces pieces s e) output) (\<lambda>output. Inr (output, None)))
        else let t = trim raw
             in if t = [] then Inr (out1, p1)
                else Inr (out1, Some (case p1 of Some (pt, ps, pe) \<Rightarrow> (pt @ t, ps, max pe e) | None \<Rightarrow> (t, s, e)))) = Inr st'"
    by (auto simp: append_token_def st rbind_eq_Inr)
  have p1: "pending_ok fps d m (out1, p1)"
    using 1 flush_pending_said [OF r m p [unfolded st]] p st by (auto simp: rbind_eq_Inr pending_ok_def split: if_split_asm)
  show ?thesis
  proof (cases "1 < length (split_whitespace raw)")
    case True
    with 2 obtain out2 out3 where *: "flush_pending fps d p1 out1 = Inr out2"
      "fold_res (push_word fps d) (token_pieces (split_whitespace raw) s e) out2 = Inr out3" "st' = (out3, None)"
      by (auto simp: rbind_eq_Inr)
    have "said_by fps d s out2" using said_by_mono [OF flush_pending_said [OF r m p1 *(1)] t(1)] .
    moreover have "follow_on s e (token_pieces (split_whitespace raw) s e)" using True t by (intro token_pieces_follow) auto
    ultimately have "said_by fps d e out3" using said_by_pushes [OF r _ t(4) _ *(2)] by blast
    with *(3) show ?thesis by (simp add: pending_ok_def)
  next
    case False
    with 2 p1 t show ?thesis
      by (auto simp: pending_ok_def Let_def split: if_split_asm option.splits intro: said_by_mono)
  qed
qed

text \<open>Recognised segments in order of time, their tokens inside them.\<close>

definition timed_segment :: "whisper_segment \<Rightarrow> bool" where
  "timed_segment g \<longleftrightarrow> segment_start g \<le> segment_end g \<and> segment_end g \<le> i64_max
     \<and> (case collect_tokens (segment_tokens g) of Inl _ \<Rightarrow> True | Inr ts \<Rightarrow> follow_on (segment_start g) (segment_end g) ts)
     \<and> (case segment_text g of Inl _ \<Rightarrow> True
        | Inr t \<Rightarrow> in_i64 ((segment_end g - segment_start g) * int (length (split_whitespace t))))"

fun segments_in_order :: "int \<Rightarrow> whisper_segment list \<Rightarrow> bool" where
  "segments_in_order m [] \<longleftrightarrow> True"
| "segments_in_order m (g # gs) \<longleftrightarrow> m \<le> segment_start g \<and> timed_segment g \<and> segments_in_order (segment_end g) gs"

lemma collect_tokens_positive:
  "collect_tokens ks = Inr ts \<Longrightarrow> (t, s, e) \<in> set ts \<Longrightarrow> 0 \<le> s \<and> s < e"
  by (induction ks arbitrary: ts rule: collect_tokens.induct) (auto simp: rbind_eq_Inr split: if_split_asm)

lemma append_tokens_said:
  assumes r: "rate_ok fps" "in_i64 d"
  shows "follow_on m n ts \<Longrightarrow> n \<le> i64_max \<Longrightarrow> \<forall>(t, s, e) \<in> set ts. 0 \<le> s \<and> s < e \<Longrightarrow> pending_ok fps d m st \<Longrightarrow>
     fold_res (append_token fps d) ts st = Inr st' \<Longrightarrow> pending_ok fps d n st'"
proof (induction m n ts arbitrary: st rule: follow_on.induct)
  case (1 m n)
  then show ?case by (auto simp: pending_ok_def split: option.splits intro: said_by_mono)
next
  case (2 m n t a b xs)
  then obtain mid where mid: "append_token fps d (t, a, b) st = Inr mid" "fold_res (append_token fps d) xs mid = Inr st'"
    by (auto simp: rbind_eq_Inr)
  have "b \<le> i64_max" using 2 follow_on_le [of b n xs] by simp
  then have "pending_ok fps d b mid" using 2 by (intro append_token_said [OF r _ _ _ _ _ mid(1), of m]) auto
  with 2 mid(2) show ?case by auto
qed

lemma append_token_words_said:
  assumes "rate_ok fps" "in_i64 d" "follow_on m n ts" "n \<le> i64_max" "\<forall>(t, s, e) \<in> set ts. 0 \<le> s \<and> s < e" "said_by fps d m out"
    "append_token_words fps d ts out = Inr out'"
  shows "said_by fps d n out'"
proof -
  from assms(7) obtain mid p where *: "fold_res (append_token fps d) ts (out, None) = Inr (mid, p)" "flush_pending fps d p mid = Inr out'"
    by (auto simp: append_token_words_def rbind_eq_Inr)
  have "pending_ok fps d n (mid, p)"
    using assms(6) by (intro append_tokens_said [OF assms(1-5) _ *(1)]) (simp add: pending_ok_def)
  from flush_pending_said [OF assms(1,2,4) this *(2)] show ?thesis .
qed

text \<open>Appending tokens never removes a word, so an unchanged length means unchanged words.\<close>

lemma push_word_extends: "push_word fps d p out = Inr out' \<Longrightarrow> \<exists>ws. out' = out @ ws"
  by (cases p) (auto simp: push_word_def rbind_eq_Inr Let_def split: if_split_asm)

lemma push_words_extend: "fold_res (push_word fps d) ps out = Inr out' \<Longrightarrow> \<exists>ws. out' = out @ ws"
  by (induction ps arbitrary: out) (auto simp: rbind_eq_Inr dest!: push_word_extends, metis append_assoc)

lemma flush_pending_extends: "flush_pending fps d p out = Inr out' \<Longrightarrow> \<exists>ws. out' = out @ ws"
  by (auto simp: flush_pending_def split: option.split_asm dest: push_word_extends)

lemma append_token_extends: "append_token fps d k st = Inr st' \<Longrightarrow> \<exists>ws. fst st' = fst st @ ws"
  by (cases k; cases st)
    (fastforce simp: append_token_def rbind_eq_Inr Let_def split: if_split_asm dest!: flush_pending_extends push_words_extend)

lemma append_token_words_extends:
  assumes "append_token_words fps d ts out = Inr out'"
  shows "\<exists>ws. out' = out @ ws"
proof -
  have "fold_res (append_token fps d) ts st = Inr st' \<Longrightarrow> \<exists>ws. fst st' = fst st @ ws" for st st'
    by (induction ts arbitrary: st) (auto simp: rbind_eq_Inr dest!: append_token_extends, metis append_assoc)
  with assms show ?thesis
    by (fastforce simp: append_token_words_def rbind_eq_Inr dest!: flush_pending_extends)
qed

lemma extract_segment_said:
  assumes r: "rate_ok fps" "in_i64 d" and g: "0 \<le> m" "m \<le> segment_start g" "timed_segment g"
    and s: "said_by fps d m out" and x: "extract_segment fps d g out = Inr out'"
  shows "said_by fps d (segment_end g) out'"
proof -
  from x obtain ts mid where ts: "collect_tokens (segment_tokens g) = Inr ts" "append_token_words fps d ts out = Inr mid"
    and res: "(if length mid = length out
     then rbind (map_err InvalidWhisperSegment (segment_text g)) (\<lambda>t.
          append_evenly_timed_words fps d t (segment_start g) (segment_end g) mid) else Inr mid) = Inr out'"
    by (auto simp: extract_segment_def rbind_eq_Inr)
  have f: "follow_on (segment_start g) (segment_end g) ts" "segment_end g \<le> i64_max" using g ts by (auto simp: timed_segment_def)
  note s' = said_by_mono [OF s g(2)]
  have mid: "said_by fps d (segment_end g) mid"
    using collect_tokens_positive [OF ts(1)] by (intro append_token_words_said [OF r f _ s' ts(2)]) auto
  show ?thesis
  proof (cases "length mid = length out")
    case True
    with append_token_words_extends [OF ts(2)] have mo: "mid = out" by auto
    from True res obtain t where t: "segment_text g = Inr t"
      "append_evenly_timed_words fps d t (segment_start g) (segment_end g) mid = Inr out'" by (auto simp: rbind_eq_Inr)
    show ?thesis
    proof (cases "split_whitespace t = [] \<or> segment_end g \<le> segment_start g")
      case True
      then show ?thesis using t mid by (auto simp: append_evenly_timed_words_def Let_def)
    next
      case False
      have "follow_on (segment_start g) (segment_end g) (even_shares (split_whitespace t) (segment_start g) (segment_end g))"
        using False g f t by (intro even_shares_follow) (auto simp: timed_segment_def)
      with False t(2) s' mo show ?thesis
        by (auto simp: append_evenly_timed_words_def Let_def intro: said_by_pushes [OF r _ f(2)])
    qed
  qed (use mid res in auto)
qed

lemma extract_segments_said:
  assumes r: "rate_ok fps" "in_i64 d"
  shows "segments_in_order m gs \<Longrightarrow> 0 \<le> m \<Longrightarrow> said_by fps d m out \<Longrightarrow> fold_res (extract_segment fps d) gs out = Inr out' \<Longrightarrow>
     \<exists>n. said_by fps d n out'"
proof (induction m gs arbitrary: out rule: segments_in_order.induct)
  case (2 m g gs)
  then obtain mid where mid: "extract_segment fps d g out = Inr mid" "fold_res (extract_segment fps d) gs mid = Inr out'"
    by (auto simp: rbind_eq_Inr)
  have "said_by fps d (segment_end g) mid" using 2 by (intro extract_segment_said [OF r _ _ _ _ mid(1)]) auto
  with 2 mid(2) show ?case by (auto simp: timed_segment_def)
qed auto

section \<open>The plan\<close>

definition is_cut_step :: "operation \<Rightarrow> bool" where
  "is_cut_step op \<longleftrightarrow> (case op of SplitClip _ _ \<Rightarrow> True | DeleteClip _ \<Rightarrow> True | RippleDeleteClip _ \<Rightarrow> True | _ \<Rightarrow> False)"

definition is_ripple :: "operation \<Rightarrow> bool" where
  "is_ripple op \<longleftrightarrow> (case op of RippleDeleteClip _ \<Rightarrow> True | _ \<Rightarrow> False)"

text \<open>A plan holds the operations that lead from the document it started from to its working copy, all of them
  steps of a cut and \<open>n\<close> of them ripple deletions.\<close>

definition plan_for :: "document \<Rightarrow> nat \<Rightarrow> plan \<Rightarrow> bool" where
  "plan_for doc n p \<longleftrightarrow> fold_res apply_step (snd p) doc = Inr (fst p) \<and> valid_document (fst p)
     \<and> list_all is_cut_step (snd p) \<and> length (filter is_ripple (snd p)) = n"

lemma push_operation_plan:
  assumes "plan_for doc n p" "push_operation op p = Inr p'" "is_cut_step op"
  shows "plan_for doc (n + (if is_ripple op then 1 else 0)) p'"
proof -
  obtain w ops where p: "p = (w, ops)" by (cases p)
  with assms obtain w' where w': "apply_step op w = Inr w'" "p' = (w', ops @ [op])"
    by (auto simp: push_operation_def rbind_eq_Inr plan_for_def operation_apply_valid)
  with assms p apply_step_valid [OF w'(1)] show ?thesis
    by (auto simp: plan_for_def fold_res_append)
qed

lemma push_quiet_plan:
  "plan_for doc n p \<Longrightarrow> push_operation (SplitClip c at) p = Inr p' \<Longrightarrow> plan_for doc n p'"
  "plan_for doc n p \<Longrightarrow> push_operation (DeleteClip c) p = Inr p' \<Longrightarrow> plan_for doc n p'"
  by (drule (1) push_operation_plan; simp add: is_cut_step_def is_ripple_def)+

lemma split_track_at_plan: "plan_for doc n p \<Longrightarrow> split_track_at i at p = Inr p' \<Longrightarrow> plan_for doc n p'"
  by (cases p) (auto simp: split_track_at_def rbind_eq_Inr split: option.split_asm intro: push_quiet_plan(1))

lemma deletes_plan:
  "plan_for doc n p \<Longrightarrow> fold_res push_operation (map (\<lambda>c. DeleteClip (clip_id c)) cs) p = Inr p' \<Longrightarrow> plan_for doc n p'"
proof (induction cs arbitrary: p)
  case (Cons c cs)
  then obtain q where q: "push_operation (DeleteClip (clip_id c)) p = Inr q" "fold_res push_operation (map (\<lambda>c. DeleteClip (clip_id c)) cs) q = Inr p'"
    by (auto simp: rbind_eq_Inr)
  from push_quiet_plan(2) [OF Cons.prems(1) q(1)] Cons.IH q(2) show ?case by blast
qed simp

lemma clear_tracks_plan:
  "plan_for doc n p \<Longrightarrow> fold_res (clear_track start end) is p = Inr p' \<Longrightarrow> plan_for doc n p'"
proof (induction "is" arbitrary: p)
  case (Cons i "is")
  then obtain q where q: "clear_track start end i p = Inr q" "fold_res (clear_track start end) is q = Inr p'" by (auto simp: rbind_eq_Inr)
  from q(1) Cons.prems(1) have "plan_for doc n q"
    unfolding clear_track_def rbind_eq_Inr by (blast intro: deletes_plan split_track_at_plan)
  with Cons.IH q(2) show ?case by blast
qed simp

lemma append_project_cut_plan:
  assumes "plan_for doc n p" "append_project_cut k p = Inr p'"
  shows "plan_for doc (n + 1) p'"
proof -
  from assms(2) obtain p1 p2 p3 mid where *: "split_track_at (pc_track k) (pc_start k) p = Inr p1"
    "split_track_at (pc_track k) (pc_end k) p1 = Inr p2"
    "fold_res (clear_track (pc_start k) (pc_end k)) (map track_id (filter (\<lambda>tr. track_id tr \<noteq> pc_track k \<and> sync_lock tr) (tracks (fst p2)))) p2 = Inr p3"
    "push_operation (RippleDeleteClip mid) p3 = Inr p'"
    by (auto simp: append_project_cut_def rbind_eq_Inr split: if_split_asm)
  have "plan_for doc n p3"
    using assms(1) *(1-3) by (blast intro: clear_tracks_plan split_track_at_plan)
  from push_operation_plan [OF this *(4)] show ?thesis by (simp add: is_cut_step_def is_ripple_def)
qed

lemma append_project_cuts_plan:
  "plan_for doc n p \<Longrightarrow> fold_res append_project_cut ks p = Inr p' \<Longrightarrow> plan_for doc (n + length ks) p'"
proof (induction ks arbitrary: n p)
  case (Cons k ks)
  then obtain q where q: "append_project_cut k p = Inr q" "fold_res append_project_cut ks q = Inr p'" by (auto simp: rbind_eq_Inr)
  from Cons.IH [OF append_project_cut_plan [OF Cons.prems(1) q(1)] q(2)] show ?case by simp
qed simp

text \<open>Among cuts sorted by their range, dropping equal neighbours leaves one cut for each range.\<close>

definition pc_range :: "project_cut_range \<Rightarrow> timecode \<times> timecode" where
  "pc_range k = (pc_start k, pc_end k)"

lemma dedup_cuts_ranges:
  "sorted_wrt (\<lambda>a b. pc_start b < pc_start a \<or> pc_start a = pc_start b \<and> pc_end b \<le> pc_end a) ks \<Longrightarrow>
     distinct (map pc_range (dedup_cuts ks)) \<and> set (map pc_range (dedup_cuts ks)) = set (map pc_range ks)"
proof (induction ks rule: dedup_cuts.induct)
  case (1 a b cs)
  show ?case
  proof (cases "pc_range a = pc_range b")
    case True
    with 1 show ?thesis by (auto simp: pc_range_def)
  next
    case False
    then have "pc_range a \<notin> set (map pc_range (b # cs))"
      using 1(3) by (fastforce simp: pc_range_def)
    with 1 False show ?thesis by (auto simp: pc_range_def)
  qed
qed auto

lemma transcript_plan_batch:
  assumes "validate_document doc = Inr ()" "transcript_word_cut_operations doc cuts = Inr ops"
  shows "list_all is_cut_step ops
    \<and> (\<exists>project_cuts. map_res (map_cut_to_project doc) cuts = Inr project_cuts
        \<and> length (filter is_ripple ops) = card (pc_range ` set project_cuts))
    \<and> (ops = [] \<longleftrightarrow> cuts = [])
    \<and> (ops \<noteq> [] \<longrightarrow> (\<exists>doc'. apply_batch doc ops = Inr doc' \<and> validate_document doc' = Inr ()))"
proof -
  from assms(2) obtain pcs working where pcs: "map_res (map_cut_to_project doc) cuts = Inr pcs"
    and run: "fold_res append_project_cut (dedup_cuts (sort_key (\<lambda>c. (- pc_start c, - pc_end c, pc_track c, pc_clip c)) pcs)) (doc, []) = Inr (working, ops)"
    by (auto simp: transcript_word_cut_operations_def rbind_eq_Inr)
  define ks where "ks = sort_key (\<lambda>c. (- pc_start c, - pc_end c, pc_track c, pc_clip c)) pcs"
  have "sorted (map (\<lambda>c. (- pc_start c, - pc_end c, pc_track c, pc_clip c)) ks)"
    unfolding ks_def by (rule sorted_sort_key)
  then have "sorted_wrt (\<lambda>a b. pc_start b < pc_start a \<or> pc_start a = pc_start b \<and> pc_end b \<le> pc_end a) ks"
    unfolding sorted_map by (rule sorted_wrt_mono_rel [rotated]) auto
  note dd = dedup_cuts_ranges [OF this]
  have len: "length (dedup_cuts ks) = card (pc_range ` set pcs)"
    using distinct_card [of "map pc_range (dedup_cuts ks)"] dd by (simp add: ks_def)
  have "plan_for doc 0 (doc, [])" using assms(1) by (simp add: plan_for_def valid_document_def)
  from append_project_cuts_plan [OF this run [folded ks_def]]
  have p: "fold_res apply_step ops doc = Inr working" "valid_document working" "list_all is_cut_step ops"
    "length (filter is_ripple ops) = card (pc_range ` set pcs)" by (simp_all add: plan_for_def len)
  have "cuts = [] \<longleftrightarrow> pcs = []" using pcs by (auto simp: map_res_eq_Inr)
  moreover have "ops = [] \<longrightarrow> pcs = []" using p(4) by auto
  moreover have "ops = []" if "cuts = []" using assms(2) that by (simp add: transcript_word_cut_operations_def)
  moreover have "apply_batch doc ops = Inr working" if "ops \<noteq> []"
    using that assms(1) run_batch_loop [OF p(1), of False 0] by (auto simp: apply_batch_def apply_batch_inner_def)
  ultimately show ?thesis using p pcs by (auto simp: valid_document_def)
qed

lemma plan_outcome_batch:
  assumes "validate_document doc = Inr ()" "plan_outcome (transcript_word_cut_operations doc cuts) = SendOperations ops"
  shows "list_all is_cut_step ops \<and> (\<exists>doc'. apply_batch doc ops = Inr doc' \<and> validate_document doc' = Inr ())"
  using assms transcript_plan_batch [OF assms(1), of cuts ops]
  by (auto simp: plan_outcome_def split: sum.split_asm if_split_asm)

lemma cut_ranges_defined:
  assumes "validate_document doc = Inr ()" "doc_typed doc" "map_timeline_words doc wanted tf = Inr all_words"
    and "\<forall>a t. tf a = Some t \<longrightarrow> unnested_transcript (transcript_words t)"
  shows "\<exists>cuts. transcript_cut_ranges_for_indices doc (dedup_linked_timeline_words all_words) selected = Some cuts"
  using cut_ranges_good [OF dedup_words_cuttable(1,2) [OF assms]] by blast

section \<open>Properties\<close>

subsection \<open>A spoken sentence\<close>

definition sample_token :: "string \<Rightarrow> int \<Rightarrow> int \<Rightarrow> whisper_token option" where
  "sample_token t a b = Some \<lparr>token_text = Inr (ascii t), token_t0 = a, token_t1 = b\<rparr>"

definition sample_segments :: "whisper_segment list" where
  "sample_segments = [
     \<lparr>segment_tokens = [sample_token '' so'' 0 20, sample_token '' u'' 30 42, sample_token ''m'' 42 50, sample_token '' oh yes'' 60 90],
      segment_text = Inr (ascii ''so um oh yes''), segment_start = 0, segment_end = 90\<rparr>,
     \<lparr>segment_tokens = [], segment_text = Inr (ascii ''and on''), segment_start = 90, segment_end = 150\<rparr>]"

definition sample_spoken :: "transcript_word list" where
  "sample_spoken = (case extract_words sample_segments (asset_fps sample_asset) 48 of Inr ws \<Rightarrow> ws | Inl _ \<Rightarrow> [])"

definition sample_transcript :: "media_asset \<Rightarrow> asset_transcript option" where
  "sample_transcript a = Some \<lparr>transcript_asset = asset_id a, transcript_content_sha256 = [], transcript_fps = asset_fps a,
     transcript_words = sample_spoken\<rparr>"

lemma sample_extract: "extract_words sample_segments (asset_fps sample_asset) 48 = Inr sample_spoken"
  by code_simp

lemma sample_in_order: "segments_in_order 0 sample_segments"
  by code_simp

lemma sample_rate: "rate_ok (asset_fps sample_asset)" "in_i64 48"
  by code_simp+

text \<open>
  Claim C39. Words come out of recognised speech in order: when the recogniser's segments follow one another in time
  and the tokens of a segment follow one another inside it, the words \<^verbatim>\<open>extract_words\<close> returns (from tokens glued
  together, tokens holding several words, or the even split of a segment's text) start and end in order, so none lies
  inside another, and each is a non-empty text of at least one frame inside the asset.
\<close>

theorem extract_words_in_order:
  assumes "rate_ok fps" "in_i64 duration" "segments_in_order 0 segments" "extract_words segments fps duration = Inr words"
  shows "sorted_wrt word_le words \<and> unnested_transcript words
    \<and> (\<forall>w \<in> set words. 0 \<le> word_start w \<and> word_start w < word_end w \<and> word_end w \<le> duration \<and> word_text w \<noteq> [])"
proof -
  from assms(4) obtain res where res: "fold_res (extract_segment fps duration) segments [] = Inr res"
    and words: "words = filter (\<lambda>w. word_start w < word_end w \<and> word_text w \<noteq> []) res"
    by (auto simp: extract_words_def rbind_eq_Inr)
  from extract_segments_said [OF assms(1,2,3) _ _ res] obtain n where n: "said_by fps duration n res"
    by (auto simp: said_by_def)
  then have s: "sorted_wrt word_le words" by (simp add: words said_by_def sorted_wrt_filter)
  have "unnested_transcript words"
    unfolding unnested_transcript_def
  proof (intro ballI impI)
    fix u v assume "u \<in> set words" "v \<in> set words" and lt: "word_start u < word_start v"
    then obtain i j where "i < length words" "j < length words" "u = words ! i" "v = words ! j" by (auto simp: in_set_conv_nth)
    with s lt show "word_end u \<le> word_end v"
      unfolding sorted_wrt_iff_nth_less word_le_def by (metis linorder_neqE_nat not_less order_refl)
  qed
  with s n show ?thesis by (auto simp: words said_by_def spoken_def)
qed

theorem extract_words_in_order_witness:
  "sorted_wrt word_le sample_spoken \<and> length sample_spoken = 6 \<and> map word_end sample_spoken = [5, 12, 18, 22, 29, 36]"
proof -
  have "length sample_spoken = 6" "map word_end sample_spoken = [5, 12, 18, 22, 29, 36]" by code_simp+
  then show ?thesis using extract_words_in_order [OF sample_rate sample_in_order sample_extract] by blast
qed

text \<open>
  Claim C14. Cutting words is exact. For an accepted document whose transcripts hold no word inside another word, and
  any selection of the words on the timeline, the cut ranges are computed without a panic, and the function's
  own debug assertion holds (no cut touches a kept word of its clip); every cut is a non-empty range inside its clip, the cuts
  of a clip are disjoint and in order, and every source frame of a selected word that no kept word of the clip also
  covers is cut.
\<close>

theorem transcript_cuts_exact:
  assumes "validate_document doc = Inr ()" "doc_typed doc"
    and "\<forall>a t. transcript_for a = Some t \<longrightarrow> unnested_transcript (transcript_words t)"
    and "map_timeline_words doc wanted transcript_for = Inr all_words"
  defines "words \<equiv> dedup_linked_timeline_words all_words"
  shows "\<exists>cuts. transcript_cut_ranges_for_indices doc words selected = Some cuts
    \<and> retained_words_are_clear words (\<lambda>n. n \<in> set selected) cuts
    \<and> (\<forall>k \<in> set cuts. \<exists>c. doc_clip doc (cut_clip k) = Some c \<and> cut_within c k)
    \<and> sorted_wrt cut_order cuts
    \<and> (\<forall>n < length words. \<forall>f. n \<in> set selected \<longrightarrow> in_word f (words ! n) \<longrightarrow>
         (\<forall>l < length words. l \<notin> set selected \<longrightarrow> tw_clip (words ! l) = tw_clip (words ! n) \<longrightarrow> \<not> in_word f (words ! l)) \<longrightarrow>
         (\<exists>k \<in> set cuts. cut_clip k = tw_clip (words ! n) \<and> in_cut f k))"
proof -
  note f = dedup_words_cuttable [OF assms(1,2,4,3), folded words_def]
  from cut_ranges_good [OF f(1,2), where selected = selected] obtain cuts
    where cuts: "transcript_cut_ranges_for_indices doc words selected = Some cuts"
      and g: "good_cuts doc words (\<lambda>n. n \<in> set selected) (map tw_clip words) cuts" by blast
  have "\<exists>k \<in> set cuts. cut_clip k = tw_clip (words ! n) \<and> in_cut f k"
    if "n < length words" "n \<in> set selected" "in_word f (words ! n)"
      "\<forall>l < length words. l \<notin> set selected \<longrightarrow> tw_clip (words ! l) = tw_clip (words ! n) \<longrightarrow> \<not> in_word f (words ! l)" for n f
  proof -
    have m: "words ! n \<in> set words" using that(1) by simp
    with f(2) obtain c where c: "doc_clip doc (tw_clip (words ! n)) = Some c" by (auto simp: cuttable_def)
    with f(3) m that(3) have "r_start (source_range c) \<le> f \<and> f < r_end (source_range c)" by blast
    then show ?thesis using good_cuts_cover [OF g that(1,2) _ c that(3)] that(4) m by simp
  qed
  with cuts g good_cuts_clear [OF g] show ?thesis unfolding good_cuts_def by blast
qed

definition sample_words :: "timeline_transcript_word list" where
  "sample_words = (case map_timeline_words sample_project None sample_transcript of Inr ws \<Rightarrow> ws | Inl _ \<Rightarrow> [])"

lemma sample_words_ok: "map_timeline_words sample_project None sample_transcript = Inr sample_words"
  by code_simp

lemma sample_unnested: "\<forall>a t. sample_transcript a = Some t \<longrightarrow> unnested_transcript (transcript_words t)"
proof -
  have "unnested_transcript sample_spoken" by code_simp
  then show ?thesis by (auto simp: sample_transcript_def)
qed

theorem transcript_cuts_exact_witness:
  "\<exists>cuts. transcript_cut_ranges_for_indices sample_project (dedup_linked_timeline_words sample_words) [1] = Some cuts
    \<and> retained_words_are_clear (dedup_linked_timeline_words sample_words) (\<lambda>n. n \<in> set [1]) cuts \<and> cuts \<noteq> []"
proof -
  have "transcript_cut_ranges_for_indices sample_project (dedup_linked_timeline_words sample_words) [1] \<noteq> Some []" by code_simp
  then show ?thesis
    using transcript_cuts_exact [OF sample_project_valid sample_typed sample_unnested sample_words_ok, of "[1]"] by blast
qed

text \<open>Without that hypothesis the assertion at the end of \<^verbatim>\<open>transcript_cut_ranges_for_indices\<close> can fail and the function
  panics: after a long kept word, a short kept word inside it hides its end from the next run, and the cut falls into
  the long word.\<close>

definition nested_word :: "timecode \<Rightarrow> timecode \<Rightarrow> timeline_transcript_word" where
  "nested_word a b = \<lparr>tw_text = ascii ''w'', tw_speaker = None, tw_asset = 1, tw_track = 1, tw_clip = 1,
     tw_source_start = a, tw_source_end = b, tw_project_start = a, tw_project_end = b\<rparr>"

lemma nested_words_are_cut:
  "transcript_cut_ranges_for_indices sample_project [nested_word 0 20, nested_word 2 4, nested_word 6 8] [2] = None"
  "\<not> retained_words_are_clear [nested_word 0 20, nested_word 2 4, nested_word 6 8] (\<lambda>n. n \<in> set [2])
       [\<lparr>cut_track = 1, cut_clip = 1, cut_source_range = rng 6 10\<rparr>]"
  by code_simp+

text \<open>
  Claim C15. On an accepted document whose transcripts hold no word inside another word, the two text-editing handlers never
  panic, with debug assertions or without, and whenever
  they send operations the batch is accepted as a whole: it consists of splits, deletions and ripple deletions only
  and leads to an accepted document.
\<close>

theorem transcript_handlers_send_batches:
  assumes "validate_document doc = Inr ()" "doc_typed doc"
    and "\<forall>a t. transcript_for a = Some t \<longrightarrow> unnested_transcript (transcript_words t)"
    and "handler \<in> {cut_selected_transcript_words doc transcript_for selection, remove_filler_words to_lowercase doc transcript_for}"
  shows "\<exists>outcome. handler = Some outcome \<and> (\<forall>ops. outcome = SendOperations ops \<longrightarrow>
      list_all is_cut_step ops \<and> (\<exists>doc'. apply_batch doc ops = Inr doc' \<and> validate_document doc' = Inr ()))"
proof (cases "map_timeline_words doc None transcript_for")
  case (Inl e)
  with assms(4) show ?thesis
    by (auto simp: cut_selected_transcript_words_def remove_filler_words_def split: option.splits)
next
  case (Inr all_words)
  note cuts = cut_ranges_defined [OF assms(1,2) Inr assms(3)] and send = plan_outcome_batch [OF assms(1)]
  define words where "words = dedup_linked_timeline_words all_words"
  have c: "\<exists>cuts. transcript_cut_ranges doc words a b = Some cuts" for a b
    using cuts by (simp add: transcript_cut_ranges_def words_def)
  show ?thesis
  proof (cases "handler = remove_filler_words to_lowercase doc transcript_for")
    case True
    obtain ks where "transcript_cut_ranges_for_indices doc words (filler_word_indices to_lowercase words) = Some ks"
      using cuts by (auto simp: words_def)
    with True Inr send show ?thesis by (auto simp: remove_filler_words_def words_def Let_def)
  next
    case False
    with assms(4) have h: "handler = cut_selected_transcript_words doc transcript_for selection" by simp
    show ?thesis
    proof (cases "\<exists>s i j. selection = Some s \<and> selection_indices s words = Some (i, j)")
      case True
      then obtain s i j where s: "selection = Some s" "selection_indices s words = Some (i, j)" by blast
      moreover obtain ks where "transcript_cut_ranges doc words i j = Some ks" using c by blast
      ultimately show ?thesis using h Inr send
        by (auto simp: cut_selected_transcript_words_def selected_transcript_word_cut_operations_def words_def)
    next
      case False
      then show ?thesis using h Inr
        by (auto simp: cut_selected_transcript_words_def selected_transcript_word_cut_operations_def words_def plan_outcome_def split: option.splits)
    qed
  qed
qed

definition sample_talk :: document where
  "sample_talk = document_default\<lparr>
     tracks := [\<lparr>track_id = 1, track_kind = TrackVideo, sync_lock = True,
                 clips = [sample_clip\<lparr>effects := [], source_range := rng 0 48\<rparr>]\<rparr>],
     media_pool := [sample_asset], doc_fps := asset_fps sample_asset, doc_duration := 48\<rparr>"

lemma sample_talk_ok: "validate_document sample_talk = Inr ()" "doc_typed sample_talk"
  by code_simp+

theorem transcript_handlers_send_batches_witness:
  "\<exists>ops doc'. remove_filler_words id sample_talk sample_transcript = Some (SendOperations ops) \<and> ops \<noteq> []
     \<and> apply_batch sample_talk ops = Inr doc'"
proof -
  have "case remove_filler_words id sample_talk sample_transcript of Some (SendOperations ops) \<Rightarrow> ops \<noteq> [] | _ \<Rightarrow> False"
    by code_simp
  then obtain ops where "remove_filler_words id sample_talk sample_transcript = Some (SendOperations ops)" "ops \<noteq> []"
    by (auto split: option.split_asm transcript_outcome.split_asm)
  with transcript_handlers_send_batches [OF sample_talk_ok sample_unnested,
      of "remove_filler_words id sample_talk sample_transcript" None id] show ?thesis by auto
qed

end
