(* ===== verification/Captions.thy ===== *)
theory Captions
  imports Transcript
begin

text \<open>
  Caption cues of \<^verbatim>\<open>crates/kinewright-core/src/captions.rs\<close>: readable cues from transcript words, the re-authoring of
  cue texts from a script, and the SubRip and WebVTT texts. The two Unicode tables the code consults, alphabetic and
  uppercase, are a parameter. A table of \<^verbatim>\<open>(cue_count + 1) * width\<close> slots is a function of the two indices its slot
  number is made of. A \<^verbatim>\<open>clamp\<close> whose bounds are crossed panics and gives \<open>None\<close>; every other index and difference
  is in range where it is computed. Counts of words and characters are bounded by memory, costs are \<^verbatim>\<open>u64\<close>.
\<close>

section \<open>Definitions\<close>

definition saturating_mul_u64 :: "int \<Rightarrow> int \<Rightarrow> int" where
  "saturating_mul_u64 a b = min u64_max (a * b)"

record unicode =
  is_alphabetic :: "int \<Rightarrow> bool"
  is_uppercase :: "int \<Rightarrow> bool"

definition MAX_CAPTION_CHARACTERS :: nat where "MAX_CAPTION_CHARACTERS = 48"

record 'a caption_cue =
  cue_start :: timecode
  cue_end :: timecode
  cue_text :: 'a

datatype caption_plan_error =
  NoCues | EmptyAuthoredScript | AuthoredScriptAlignment | TrackIdExhausted | ClipIdExhausted_Caption | InvalidCueDuration

subsection \<open>Texts\<close>

definition ends_with_one_of :: "string \<Rightarrow> utext \<Rightarrow> bool" where
  "ends_with_one_of cs t \<longleftrightarrow> t \<noteq> [] \<and> last t \<in> set (ascii cs)"

definition ends_sentence :: "utext \<Rightarrow> bool" where
  "ends_sentence t =
     ends_with_one_of ''.!?'' (trim_end_matches (\<lambda>c. c \<in> set [39, 34, 41, 93, 125, 0x2019, 0x201d]) t)"

definition ends_clause :: "utext \<Rightarrow> bool" where
  "ends_clause t = ends_with_one_of '',;:'' (trim_end_matches (\<lambda>c. c \<in> set [39, 34, 41, 93, 125]) t)"

definition is_ascii_alphanumeric :: "int \<Rightarrow> bool" where
  "is_ascii_alphanumeric c \<longleftrightarrow> (48 \<le> c \<and> c \<le> 57) \<or> (65 \<le> c \<and> c \<le> 90) \<or> (97 \<le> c \<and> c \<le> 122)"

definition normalized_token :: "utext \<Rightarrow> utext" where
  "normalized_token t = map (\<lambda>c. if 65 \<le> c \<and> c \<le> 90 then c + 32 else c) (filter is_ascii_alphanumeric t)"

definition token_in :: "string list \<Rightarrow> utext \<Rightarrow> bool" where
  "token_in ws t \<longleftrightarrow> normalized_token t \<in> set (map ascii ws)"

definition is_dangling_end :: "utext \<Rightarrow> bool" where
  "is_dangling_end = token_in [''a'', ''an'', ''the'', ''and'', ''or'', ''but'', ''of'', ''to'', ''in'', ''on'', ''at'', ''for'',
     ''from'', ''with'', ''my'', ''your'', ''their'', ''our'', ''its'', ''that'', ''these'', ''those'', ''this'', ''where'']"

definition is_dangling_start :: "utext \<Rightarrow> bool" where
  "is_dangling_start = token_in [''of'', ''to'', ''in'', ''on'', ''at'', ''for'', ''from'', ''with'']"

definition is_connective :: "utext \<Rightarrow> bool" where
  "is_connective = token_in [''and'', ''but'', ''so'', ''because'', ''while'', ''when'', ''where'', ''then'']"

definition likely_sentence_starter :: "utext \<Rightarrow> bool" where
  "likely_sentence_starter = token_in [''and'', ''but'', ''so'', ''then'', ''they'', ''meanwhile'', ''however'']"

definition starts_with_uppercase :: "unicode \<Rightarrow> utext \<Rightarrow> bool" where
  "starts_with_uppercase U t = (case find (is_alphabetic U) t of None \<Rightarrow> False | Some c \<Rightarrow> is_uppercase U c)"

definition is_bound_phrase :: "unicode \<Rightarrow> utext \<Rightarrow> utext \<Rightarrow> bool" where
  "is_bound_phrase U previous next \<longleftrightarrow>
     \<not> (ends_sentence previous \<or> ends_clause previous) \<and>
     ((starts_with_uppercase U previous \<and> starts_with_uppercase U next)
      \<or> token_in [''i'', ''ive'', ''im'', ''you'', ''youre'', ''he'', ''hes'', ''she'', ''shes'', ''it'', ''its'', ''we'', ''were'',
           ''they'', ''theyre'', ''very'', ''recently'', ''especially'', ''maybe'', ''just'', ''even''] previous
      \<or> (token_in [''super''] previous \<and> token_in [''8''] next)
      \<or> (token_in [''home''] previous \<and> token_in [''movies''] next))"

definition boundary_penalty :: "unicode \<Rightarrow> utext \<Rightarrow> utext \<Rightarrow> nat" where
  "boundary_penalty U previous next =
     (if ends_sentence previous \<or> ends_clause previous then 0
      else if is_bound_phrase U previous next then 4000
      else if is_dangling_end previous then 4000
      else if is_dangling_start next then 4000
      else if is_connective next then 1000
      else 256)"

definition phrase_characters :: "utext list \<Rightarrow> nat" where
  "phrase_characters ws = sum_list (map length ws) + (length ws - 1)"

subsection \<open>Balanced boundaries\<close>

definition unreachable :: int where "unreachable = u64_max div 4"

definition slice :: "nat \<Rightarrow> nat \<Rightarrow> 'a list \<Rightarrow> 'a list" where
  "slice a b xs = take (b - a) (drop a xs)"

definition abs_diff :: "nat \<Rightarrow> nat \<Rightarrow> nat" where
  "abs_diff a b = (if a < b then b - a else a - b)"

type_synonym cost_table = "nat \<times> nat \<Rightarrow> int"
type_synonym parent_table = "nat \<times> nat \<Rightarrow> nat option"

definition segment_cost :: "unicode \<Rightarrow> utext list \<Rightarrow> nat \<Rightarrow> nat list \<Rightarrow> int \<Rightarrow> nat \<Rightarrow> nat \<Rightarrow> nat \<Rightarrow> int" where
  "segment_cost U words ideal targets previous used start end =
     (let characters = phrase_characters (slice start end words);
          over = int (characters - MAX_CAPTION_CHARACTERS);
          ragged = int (abs_diff characters ideal);
          target_distance = int (abs_diff end (targets ! (used - 1)));
          boundary = (if end = length words then 0 else int (boundary_penalty U (words ! (end - 1)) (words ! end)))
      in saturating_add_u64 (saturating_add_u64 (saturating_add_u64 (saturating_add_u64 previous
           (saturating_mul_u64 (saturating_mul_u64 over over) 500)) (saturating_mul_u64 ragged ragged))
           (saturating_mul_u64 target_distance 12)) boundary)"

definition relax ::
    "unicode \<Rightarrow> utext list \<Rightarrow> nat \<Rightarrow> nat list \<Rightarrow> nat \<Rightarrow> nat \<Rightarrow> nat \<Rightarrow> cost_table \<times> parent_table \<Rightarrow> cost_table \<times> parent_table" where
  "relax U words ideal targets used end start = (\<lambda>(costs, parents).
     let previous = costs (used - 1, start)
     in if previous = unreachable then (costs, parents)
        else let cost = segment_cost U words ideal targets previous used start end
             in if cost < costs (used, end) then (costs((used, end) := cost), parents((used, end) \<mapsto> start))
                else (costs, parents))"

definition relax_row :: "unicode \<Rightarrow> utext list \<Rightarrow> nat \<Rightarrow> nat list \<Rightarrow> nat \<Rightarrow> nat \<Rightarrow> cost_table \<times> parent_table \<Rightarrow> cost_table \<times> parent_table" where
  "relax_row U words ideal targets cue_count used =
     fold (\<lambda>end. fold (relax U words ideal targets used end) [used - 1..<end])
       [used..<Suc (length words - (cue_count - used))]"

fun backtrace :: "parent_table \<Rightarrow> nat \<Rightarrow> nat \<Rightarrow> nat list \<Rightarrow> caption_plan_error + nat list" where
  "backtrace parents 0 end boundaries = Inr boundaries"
| "backtrace parents (Suc used) end boundaries =
     (case parents (Suc used, end) of
        None \<Rightarrow> Inl AuthoredScriptAlignment
      | Some start \<Rightarrow> backtrace parents used start (start # boundaries))"

definition semantic_boundaries :: "unicode \<Rightarrow> utext list \<Rightarrow> nat \<Rightarrow> nat list \<Rightarrow> caption_plan_error + nat list" where
  "semantic_boundaries U words cue_count targets =
     (if cue_count = 0 \<or> length words < cue_count \<or> length targets \<noteq> cue_count then Inl AuthoredScriptAlignment
      else let ideal = (phrase_characters words + cue_count - 1) div cue_count;
               (costs, parents) = fold (relax_row U words ideal targets cue_count) [1..<Suc cue_count]
                 ((\<lambda>_. unreachable)((0, 0) := 0), \<lambda>_. None)
           in if costs (cue_count, length words) = unreachable then Inl AuthoredScriptAlignment
              else backtrace parents cue_count (length words) [length words])"

subsection \<open>Re-authoring from a script\<close>

text \<open>\<^verbatim>\<open>min_by_key\<close> returns the first of the least elements, \<^verbatim>\<open>usize::clamp\<close> panics on crossed bounds.\<close>

fun min_by_key :: "('a \<Rightarrow> nat) \<Rightarrow> 'a list \<Rightarrow> 'a option" where
  "min_by_key key [] = None"
| "min_by_key key (x # xs) =
     (case min_by_key key xs of None \<Rightarrow> Some x | Some y \<Rightarrow> Some (if key y < key x then y else x))"

definition clamp_usize :: "nat \<Rightarrow> nat \<Rightarrow> nat \<Rightarrow> nat option" where
  "clamp_usize x lo hi = (if hi < lo then None else Some (if x < lo then lo else if hi < x then hi else x))"

definition saturating_usize :: "nat \<Rightarrow> nat" where
  "saturating_usize n = nat (min u64_max (int n))"

fun scaled_loop :: "nat \<Rightarrow> nat \<Rightarrow> nat \<Rightarrow> nat \<Rightarrow> nat list \<Rightarrow> (caption_plan_error + nat list) option" where
  "scaled_loop authored raw_total cumulative previous [] = Some (Inr [])"
| "scaled_loop authored raw_total cumulative previous (raw_count # counts) =
     (let cumulative = saturating_usize (cumulative + raw_count);
          minimum = previous + 1;
          maximum = authored - length counts
      in if maximum < minimum then Some (Inl AuthoredScriptAlignment)
         else Option.bind (clamp_usize (saturating_usize (saturating_usize (cumulative * authored) + raw_total div 2) div raw_total) minimum maximum) (\<lambda>boundary.
              Option.bind (scaled_loop authored raw_total cumulative boundary counts) (\<lambda>rest.
              Some (rbind rest (\<lambda>bs. Inr (boundary # bs))))))"

definition scaled_boundaries :: "nat list \<Rightarrow> nat \<Rightarrow> nat \<Rightarrow> (caption_plan_error + nat list) option" where
  "scaled_boundaries raw_word_counts authored_word_count raw_word_count =
     scaled_loop authored_word_count raw_word_count 0 0 raw_word_counts"

definition sentence_ends_of :: "utext list \<Rightarrow> nat list" where
  "sentence_ends_of words =
     (let ends = map (\<lambda>(i, _). i + 1) (filter (\<lambda>(_, w). ends_sentence w) (enumerate 0 words))
      in if ends \<noteq> [] \<and> last ends = length words then ends else ends @ [length words])"

definition pick_cue_end :: "nat \<Rightarrow> nat \<Rightarrow> nat list \<Rightarrow> nat \<Rightarrow> nat \<Rightarrow> nat \<Rightarrow> nat \<Rightarrow> caption_plan_error + nat" where
  "pick_cue_end cue_total word_total raw previous_cue_end previous_sentence_end sentence_end remaining_sentences =
     (let remaining_words = word_total - sentence_end;
          sentence_words = sentence_end - previous_sentence_end;
          minimum = max (previous_cue_end + 1) (cue_total - remaining_words);
          maximum = min (min (cue_total - remaining_sentences) (previous_cue_end + sentence_words)) (cue_total - 1)
      in if maximum < minimum then Inl AuthoredScriptAlignment
         else ok_or AuthoredScriptAlignment
                (min_by_key (\<lambda>candidate. abs_diff (raw ! (candidate - 1)) sentence_end) [minimum..<Suc maximum]))"

fun sentence_cues :: "nat \<Rightarrow> nat \<Rightarrow> nat list \<Rightarrow> nat \<Rightarrow> nat \<Rightarrow> nat list \<Rightarrow> caption_plan_error + nat list" where
  "sentence_cues cue_total word_total raw previous_cue_end previous_sentence_end [] = Inr []"
| "sentence_cues cue_total word_total raw previous_cue_end previous_sentence_end (sentence_end # ends) =
     (if ends = [] then Inr [cue_total]
      else rbind (pick_cue_end cue_total word_total raw previous_cue_end previous_sentence_end sentence_end (length ends)) (\<lambda>cue_finish.
           rbind (sentence_cues cue_total word_total raw cue_finish sentence_end ends) (\<lambda>rest.
           Inr (cue_finish # rest))))"

fun collect_targets :: "nat option list \<Rightarrow> nat list option" where
  "collect_targets [] = Some []"
| "collect_targets (x # xs) = Option.bind x (\<lambda>t. Option.bind (collect_targets xs) (\<lambda>ts. Some (t # ts)))"

definition sentence_targets :: "nat list \<Rightarrow> nat \<Rightarrow> nat \<Rightarrow> nat \<Rightarrow> nat \<Rightarrow> nat list option" where
  "sentence_targets raw sentence_start first_cue cue_count word_count =
     Option.bind (collect_targets (map (\<lambda>offset.
         clamp_usize (raw ! (first_cue + offset - 1) - sentence_start) offset (word_count - (cue_count - offset)))
       [1..<cue_count])) (\<lambda>ts. Some (ts @ [word_count]))"

text \<open>The writes of one sentence into \<^verbatim>\<open>final_boundaries\<close>.\<close>

definition write_boundaries :: "nat \<Rightarrow> nat \<Rightarrow> nat list \<Rightarrow> nat list \<Rightarrow> nat list" where
  "write_boundaries first_cue sentence_start semantic final =
     fold (\<lambda>(offset, boundary) final. final[first_cue + offset := sentence_start + boundary]) (drop 1 (enumerate 0 semantic)) final"

fun fill_sentences ::
    "unicode \<Rightarrow> utext list \<Rightarrow> nat list \<Rightarrow> nat \<Rightarrow> nat \<Rightarrow> (nat \<times> nat) list \<Rightarrow> nat list \<Rightarrow> (caption_plan_error + nat list) option" where
  "fill_sentences U words raw sentence_start first_cue [] final = Some (Inr final)"
| "fill_sentences U words raw sentence_start first_cue ((sentence_end, cue_finish) # rest) final =
     (let final = final[first_cue := sentence_start, cue_finish := sentence_end];
          cue_count = cue_finish - first_cue;
          word_count = sentence_end - sentence_start
      in Option.bind (sentence_targets raw sentence_start first_cue cue_count word_count) (\<lambda>targets.
         case semantic_boundaries U (slice sentence_start sentence_end words) cue_count targets of
           Inl e \<Rightarrow> Some (Inl e)
         | Inr semantic \<Rightarrow>
             fill_sentences U words raw sentence_end cue_finish rest (write_boundaries first_cue sentence_start semantic final)))"

definition authored_caption_cues ::
    "unicode \<Rightarrow> utext caption_cue list \<Rightarrow> utext \<Rightarrow> (caption_plan_error + utext caption_cue list) option" where
  "authored_caption_cues U cues script =
     (if cues = [] then Some (Inl NoCues)
      else let words = filter (\<lambda>w. w \<noteq> []) (split_whitespace script)
      in if words = [] then Some (Inl EmptyAuthoredScript)
      else if length words < length cues then Some (Inl AuthoredScriptAlignment)
      else let sentence_ends = sentence_ends_of words
      in if length cues < length sentence_ends then Some (Inl AuthoredScriptAlignment)
      else let raw_word_counts = map (\<lambda>c. length (split_whitespace (cue_text c))) cues;
               raw_total = sum_list raw_word_counts
      in if raw_total = 0 then Some (Inl AuthoredScriptAlignment)
      else Option.bind (scaled_boundaries raw_word_counts (length words) raw_total) (\<lambda>scaled.
      case scaled of
        Inl e \<Rightarrow> Some (Inl e)
      | Inr raw_boundaries \<Rightarrow>
      (case sentence_cues (length cues) (length words) raw_boundaries 0 0 sentence_ends of
        Inl e \<Rightarrow> Some (Inl e)
      | Inr sentence_cue_ends \<Rightarrow>
      Option.bind (fill_sentences U words raw_boundaries 0 0 (zip sentence_ends sentence_cue_ends) (replicate (length cues + 1) 0)) (\<lambda>filled.
      Some (rbind filled (\<lambda>final.
        Inr (map (\<lambda>(i, c). \<lparr>cue_start = cue_start c, cue_end = cue_end c,
                            cue_text = join (ascii '' '') (slice (final ! i) (final ! (i + 1)) words)\<rparr>)
               (enumerate 0 cues))))))))"

subsection \<open>Cues from transcript words\<close>

record caption_word =
  cw_text :: utext
  cw_start :: timecode
  cw_end :: timecode
  cw_asset :: asset_id
  cw_clip :: clip_id
  cw_speaker :: "utext option"

definition half_second_frames :: "rational \<Rightarrow> timecode" where
  "half_second_frames fps =
     (if \<not> rational_is_valid fps then 0
      else let half = denominator fps * 2;
               rounded_frames = (numerator fps + half div 2) div half
           in case try_i64 rounded_frames of Some f \<Rightarrow> f | None \<Rightarrow> i64_max)"

definition dedup_timeline_words :: "timeline_transcript_word list \<Rightarrow> timeline_transcript_word list" where
  "dedup_timeline_words words = keep_new_words [] words"

definition caption_word_of :: "timeline_transcript_word \<Rightarrow> caption_word list" where
  "caption_word_of w =
     (let t = trim (tw_text w)
      in if t \<noteq> [] \<and> tw_project_start w < tw_project_end w
         then [\<lparr>cw_text = t, cw_start = tw_project_start w, cw_end = tw_project_end w, cw_asset = tw_asset w,
               cw_clip = tw_clip w, cw_speaker = tw_speaker w\<rparr>]
         else [])"

definition source_change :: "caption_word \<Rightarrow> caption_word \<Rightarrow> bool" where
  "source_change previous next \<longleftrightarrow> cw_asset previous \<noteq> cw_asset next \<or> cw_clip previous \<noteq> cw_clip next \<or> cw_speaker previous \<noteq> cw_speaker next"

definition punctuate :: "unicode \<Rightarrow> caption_word \<Rightarrow> caption_word \<Rightarrow> caption_word" where
  "punctuate U previous next =
     (if ends_sentence (cw_text previous) then previous
      else let gap = saturating_sub_i64 (cw_start next) (cw_end previous);
               likely_start = starts_with_uppercase U (cw_text next) \<and> (4 \<le> gap \<or> source_change previous next)
                                \<and> likely_sentence_starter (cw_text next)
           in if source_change previous next \<or> likely_start then previous\<lparr>cw_text := cw_text previous @ ascii ''.''\<rparr> else previous)"

text \<open>Each word is compared with the next one, whose text has not been changed yet.\<close>

fun infer_sentence_punctuation :: "unicode \<Rightarrow> caption_word list \<Rightarrow> caption_word list" where
  "infer_sentence_punctuation U (previous # next # ws) = punctuate U previous next # infer_sentence_punctuation U (next # ws)"
| "infer_sentence_punctuation U ws = ws"

function reach :: "utext list \<Rightarrow> nat \<Rightarrow> nat \<Rightarrow> nat" where
  "reach texts start farthest =
     (if farthest < length texts \<and> phrase_characters (slice start (Suc farthest) texts) \<le> MAX_CAPTION_CHARACTERS
      then reach texts start (farthest + 1) else farthest)"
  by pat_completeness auto
termination
  by (relation "measure (\<lambda>(texts, _, farthest). length texts - farthest)") auto

declare reach.simps [simp del]

definition break_cost :: "unicode \<Rightarrow> utext list \<Rightarrow> nat \<Rightarrow> nat \<Rightarrow> nat \<Rightarrow> nat" where
  "break_cost U texts start farthest candidate =
     boundary_penalty U (texts ! (candidate - 1)) (texts ! candidate) + (farthest - candidate) * 8
     + (if phrase_characters (slice start candidate texts) < 12 then 120 else 0)"

definition cue_break :: "unicode \<Rightarrow> utext list \<Rightarrow> nat \<Rightarrow> nat" where
  "cue_break U texts start =
     (let farthest = reach texts start (start + 1)
      in if farthest = length texts then farthest
         else case min_by_key (break_cost U texts start farthest) [max (start + 1) (farthest - 4)..<Suc farthest] of
                Some e \<Rightarrow> e | None \<Rightarrow> farthest)"

lemma min_by_key_mem: "min_by_key key xs = Some x \<Longrightarrow> x \<in> set xs"
  by (induction xs arbitrary: x) (auto split: option.split_asm if_split_asm)

lemma reach_ge: "farthest \<le> reach texts start farthest"
proof (induction texts start farthest rule: reach.induct)
  case (1 texts start farthest)
  then show ?case by (auto simp: reach.simps [of texts start farthest] dest: Suc_leD)
qed

lemma reach_le: "farthest \<le> length texts \<Longrightarrow> reach texts start farthest \<le> length texts"
proof (induction texts start farthest rule: reach.induct)
  case (1 texts start farthest)
  then show ?case by (simp add: reach.simps [of texts start farthest])
qed

lemma cue_break_bounds:
  assumes "start < length texts"
  shows "start < cue_break U texts start" "cue_break U texts start \<le> length texts"
proof -
  have "start < reach texts start (start + 1)" "reach texts start (start + 1) \<le> length texts"
    using reach_ge [of "start + 1" texts start] reach_le [of "start + 1" texts start] assms by simp_all
  then show "start < cue_break U texts start" "cue_break U texts start \<le> length texts"
    by (auto simp: cue_break_def Let_def simp del: upt_Suc dest: min_by_key_mem split: option.split)
qed

function push_semantic_cues :: "unicode \<Rightarrow> caption_word list \<Rightarrow> nat \<Rightarrow> utext caption_cue list" where
  "push_semantic_cues U words start =
     (if start < length words
      then let finish = cue_break U (map cw_text words) start
           in \<lparr>cue_start = cw_start (words ! start), cue_end = cw_end (words ! (finish - 1)),
               cue_text = join (ascii '' '') (slice start finish (map cw_text words))\<rparr>
              # push_semantic_cues U words finish
      else [])"
  by pat_completeness auto
termination
proof (relation "measure (\<lambda>(_, words, start). length words - start)", goal_cases)
  case (2 U words start finish)
  then have "start < finish" using cue_break_bounds(1) [of start "map cw_text words" U] by simp
  with 2 show ?case by simp
qed simp

declare push_semantic_cues.simps [simp del]

definition break_before :: "timecode \<Rightarrow> caption_word list \<Rightarrow> caption_word \<Rightarrow> bool" where
  "break_before hold segment word \<longleftrightarrow> segment \<noteq> [] \<and>
     (hold < saturating_sub_i64 (cw_start word) (cw_end (last segment)) \<or> source_change (last segment) word)"

fun segment_loop :: "unicode \<Rightarrow> timecode \<Rightarrow> caption_word list \<Rightarrow> caption_word list \<Rightarrow> utext caption_cue list" where
  "segment_loop U hold segment [] = push_semantic_cues U segment 0"
| "segment_loop U hold segment (word # ws) =
     (let flushed = break_before hold segment word;
          segment' = (if flushed then [] else segment) @ [word]
      in (if flushed then push_semantic_cues U segment 0 else [])
         @ (if ends_sentence (cw_text word) then push_semantic_cues U segment' 0 @ segment_loop U hold [] ws
            else segment_loop U hold segment' ws))"

fun hold_cues :: "timecode \<Rightarrow> utext caption_cue list \<Rightarrow> utext caption_cue list" where
  "hold_cues hold [] = []"
| "hold_cues hold (c # cs) =
     (let held_end = saturating_add_i64 (cue_end c) hold
      in c\<lparr>cue_end := (case cs of [] \<Rightarrow> held_end | next # _ \<Rightarrow> min held_end (cue_start next))\<rparr> # hold_cues hold cs)"

definition caption_cues :: "unicode \<Rightarrow> timeline_transcript_word list \<Rightarrow> rational \<Rightarrow> utext caption_cue list" where
  "caption_cues U words project_fps =
     (let hold = half_second_frames project_fps;
          ws = infer_sentence_punctuation U (concat (map caption_word_of words))
      in filter (\<lambda>c. cue_start c < cue_end c) (hold_cues hold (segment_loop U hold [] ws)))"

subsection \<open>Subtitle texts\<close>

definition frame_milliseconds :: "timecode \<Rightarrow> rational \<Rightarrow> int" where
  "frame_milliseconds frames fps =
     (if \<not> rational_is_valid fps then 0
      else saturating_mul_i128 (saturating_mul_i128 frames 1000) (denominator fps) div numerator fps)"

text \<open>A decimal number padded with zeros to a width.\<close>

definition padded :: "nat \<Rightarrow> int \<Rightarrow> utext" where
  "padded width n = (let digits = ascii (decimal_nat (nat n)) in replicate (width - length digits) 48 @ digits)"

definition timestamp :: "timecode \<Rightarrow> rational \<Rightarrow> string \<Rightarrow> utext" where
  "timestamp frames fps millisecond_separator =
     (let milliseconds = max 0 (frame_milliseconds frames fps);
          hours = milliseconds div 3600000;
          minutes = milliseconds div 60000 mod 60;
          seconds = milliseconds div 1000 mod 60;
          remainder = milliseconds mod 1000
      in padded 2 hours @ ascii '':'' @ padded 2 minutes @ ascii '':'' @ padded 2 seconds @ ascii millisecond_separator @ padded 3 remainder)"

definition srt :: "utext caption_cue list \<Rightarrow> rational \<Rightarrow> utext" where
  "srt cues fps =
     (let blocks = map (\<lambda>(i, c). padded 0 (int i + 1) @ [10] @ timestamp (cue_start c) fps '','' @ ascii '' --> ''
                        @ timestamp (cue_end c) fps '','' @ [10] @ cue_text c) (enumerate 0 cues)
      in if blocks = [] then [] else join [10, 10] blocks @ [10])"

definition vtt :: "utext caption_cue list \<Rightarrow> rational \<Rightarrow> utext" where
  "vtt cues fps =
     (let blocks = map (\<lambda>c. timestamp (cue_start c) fps ''.'' @ ascii '' --> '' @ timestamp (cue_end c) fps ''.'' @ [10] @ cue_text c) cues
      in if blocks = [] then ascii ''WEBVTT'' @ [10, 10] else ascii ''WEBVTT'' @ [10, 10] @ join [10, 10] blocks @ [10])"

end
