(* ===== verification/Captions_Props.thy ===== *)
theory Captions_Props
  imports Captions
begin

text \<open>
  Captions are correct: the table of \<^verbatim>\<open>semantic_boundaries\<close> finds the cheapest balanced split, re-authored cues keep
  their timing and hold the script, cues from a transcript are disjoint and hold every word, and the subtitle texts
  are well formed.
\<close>

section \<open>A table of least costs\<close>

text \<open>Boundaries after zero that rise to \<open>e\<close>, their cost accumulated segment by segment the way the table does it.\<close>

type_synonym step_cost = "int \<Rightarrow> nat \<Rightarrow> nat \<Rightarrow> nat \<Rightarrow> int"

definition boundaries_to :: "nat \<Rightarrow> nat \<Rightarrow> nat list \<Rightarrow> bool" where
  "boundaries_to u e es \<longleftrightarrow> length es = u \<and> sorted_wrt (<) (0 # es) \<and> last (0 # es) = e"

fun path_cost :: "step_cost \<Rightarrow> nat \<Rightarrow> int \<Rightarrow> nat \<Rightarrow> nat list \<Rightarrow> int" where
  "path_cost seg u c s [] = c"
| "path_cost seg u c s (e # es) = path_cost seg (Suc u) (seg c (Suc u) s e) e es"

lemma path_cost_snoc:
  "path_cost seg u c s (es @ [e]) = seg (path_cost seg u c s es) (Suc (u + length es)) (last (s # es)) e"
  by (induction es arbitrary: u c s) auto

lemma rising_le_last: "sorted_wrt (<) (x # xs) \<Longrightarrow> y \<in> set (x # xs) \<Longrightarrow> y \<le> last (x # xs)" for y :: nat
  by (induction xs rule: rev_induct) (auto simp: sorted_wrt_append)

lemma boundaries_to_snoc:
  "boundaries_to (Suc u) e es \<longleftrightarrow> (\<exists>es' s. es = es' @ [e] \<and> boundaries_to u s es' \<and> s < e)"
proof (cases es rule: rev_cases)
  case (snoc ys y)
  then show ?thesis using rising_le_last [of 0 ys] by (fastforce simp: boundaries_to_def sorted_wrt_append)
qed (simp add: boundaries_to_def)

lemma boundaries_to_ge: "boundaries_to u e es \<Longrightarrow> u \<le> e"
proof (induction u arbitrary: e es)
  case (Suc u)
  then show ?case unfolding boundaries_to_snoc by (meson Suc_leI le_less_trans)
qed simp

lemma boundaries_to_0 [simp]: "boundaries_to 0 e es \<longleftrightarrow> es = [] \<and> e = 0"
  by (auto simp: boundaries_to_def)

text \<open>A finished cell holds the least extension of a reachable cell of the row above, and where it came from.\<close>

definition cell_ok :: "step_cost \<Rightarrow> cost_table \<times> parent_table \<Rightarrow> nat \<Rightarrow> nat \<Rightarrow> nat set \<Rightarrow> bool" where
  "cell_ok seg t u e ss \<longleftrightarrow>
     fst t (u, e) \<le> unreachable
     \<and> (\<forall>s \<in> ss. fst t (u - 1, s) \<noteq> unreachable \<longrightarrow> fst t (u, e) \<le> seg (fst t (u - 1, s)) u s e)
     \<and> (fst t (u, e) = unreachable \<or> (\<exists>s \<in> ss. snd t (u, e) = Some s \<and> fst t (u - 1, s) \<noteq> unreachable
          \<and> fst t (u, e) = seg (fst t (u - 1, s)) u s e))"

text \<open>The cells a split of \<open>n\<close> words into \<open>k\<close> segments can pass through.\<close>

definition table_done :: "step_cost \<Rightarrow> nat \<Rightarrow> nat \<Rightarrow> cost_table \<times> parent_table \<Rightarrow> bool" where
  "table_done seg k n t \<longleftrightarrow> fst t (0, 0) = 0 \<and> (\<forall>e > 0. fst t (0, e) = unreachable)
     \<and> (\<forall>u e. 0 < u \<longrightarrow> u \<le> k \<longrightarrow> u \<le> e \<longrightarrow> e \<le> n - (k - u) \<longrightarrow> cell_ok seg t u e {u - 1..<e})"

locale layered_costs =
  fixes seg :: step_cost
  assumes seg_mono: "a \<le> b \<Longrightarrow> seg a u s e \<le> seg b u s e"
    and seg_ge: "a \<le> u64_max \<Longrightarrow> a \<le> seg a u s e"
begin

lemma table_lower_bound:
  assumes t: "table_done seg k n t" and kn: "k \<le> n"
  shows "u \<le> k \<Longrightarrow> e \<le> n - (k - u) \<Longrightarrow> boundaries_to u e es \<Longrightarrow> fst t (u, e) \<le> path_cost seg 0 0 0 es"
proof (induction u arbitrary: e es)
  case 0
  then show ?case using t by (simp add: table_done_def)
next
  case (Suc u)
  from Suc.prems(3) obtain es' s where es: "es = es' @ [e]" "boundaries_to u s es'" "s < e" unfolding boundaries_to_snoc by blast
  have us: "u \<le> s" using boundaries_to_ge [OF es(2)] .
  have sb: "s \<le> n - (k - u)" using es(3) Suc.prems(1,2) kn by linarith
  have ih: "fst t (u, s) \<le> path_cost seg 0 0 0 es'" using Suc.IH [OF _ sb es(2)] Suc.prems(1) by simp
  have cell: "cell_ok seg t (Suc u) e {u..<e}"
    using t Suc.prems(1,2) us es(3) by (fastforce simp: table_done_def)
  have pc: "path_cost seg 0 0 0 es = seg (path_cost seg 0 0 0 es') (Suc u) s e"
    using es(2) by (simp add: es(1) path_cost_snoc boundaries_to_def)
  show ?case
  proof (cases "fst t (u, s) = unreachable")
    case True
    have "unreachable \<le> seg unreachable (Suc u) s e" by (rule seg_ge) (simp add: unreachable_def u64_max_def)
    also have "\<dots> \<le> path_cost seg 0 0 0 es" unfolding pc using ih True by (intro seg_mono) simp
    finally show ?thesis using cell by (simp add: cell_ok_def)
  next
    case False
    with cell us es(3) have "fst t (Suc u, e) \<le> seg (fst t (u, s)) (Suc u) s e" by (auto simp: cell_ok_def)
    also have "\<dots> \<le> path_cost seg 0 0 0 es" unfolding pc by (rule seg_mono [OF ih])
    finally show ?thesis .
  qed
qed

lemma backtrace_path:
  assumes t: "table_done seg k n t" and kn: "k \<le> n"
  shows "u \<le> k \<Longrightarrow> u \<le> e \<Longrightarrow> e \<le> n - (k - u) \<Longrightarrow> fst t (u, e) \<noteq> unreachable \<Longrightarrow>
     \<exists>es. backtrace (snd t) u e (e # bs) = Inr (0 # es @ bs) \<and> boundaries_to u e es \<and> path_cost seg 0 0 0 es = fst t (u, e)"
proof (induction u arbitrary: e bs)
  case 0
  then have "e = 0" using t by (auto simp: table_done_def)
  then show ?case using t by (simp add: table_done_def)
next
  case (Suc u)
  have cell: "cell_ok seg t (Suc u) e {u..<e}" using t Suc.prems by (fastforce simp: table_done_def)
  with Suc.prems(4) obtain s where s: "u \<le> s" "s < e" "snd t (Suc u, e) = Some s" "fst t (u, s) \<noteq> unreachable"
    "fst t (Suc u, e) = seg (fst t (u, s)) (Suc u) s e" by (auto simp: cell_ok_def)
  have sb: "s \<le> n - (k - u)" using s(2) Suc.prems(1,3) kn by linarith
  from Suc.IH [OF _ s(1) sb s(4), of "e # bs"] Suc.prems(1) obtain es
    where es: "backtrace (snd t) u s (s # e # bs) = Inr (0 # es @ e # bs)" "boundaries_to u s es" "path_cost seg 0 0 0 es = fst t (u, s)"
    by auto
  have "boundaries_to (Suc u) e (es @ [e])" using es(2) s(2) by (auto simp: boundaries_to_snoc)
  moreover have "path_cost seg 0 0 0 (es @ [e]) = fst t (Suc u, e)"
    using es(2,3) s(5) by (simp add: path_cost_snoc boundaries_to_def)
  ultimately show ?case using es(1) s(3) by (intro exI [of _ "es @ [e]"]) simp
qed

lemma optimal_boundaries:
  assumes t: "table_done seg k n t" and kn: "k \<le> n"
  shows "fst t (k, n) \<noteq> unreachable \<Longrightarrow> \<exists>es. backtrace (snd t) k n [n] = Inr (0 # es) \<and> boundaries_to k n es
      \<and> path_cost seg 0 0 0 es = fst t (k, n)"
    and "boundaries_to k n es' \<Longrightarrow> fst t (k, n) \<le> path_cost seg 0 0 0 es'"
  using backtrace_path [OF assms le_refl kn, of "[]"] table_lower_bound [OF assms le_refl, of n es'] by auto

end

section \<open>The table of \<open>semantic_boundaries\<close>\<close>

lemma saturating_mul_nonneg: "0 \<le> a \<Longrightarrow> 0 \<le> b \<Longrightarrow> 0 \<le> saturating_mul_u64 a b"
  by (simp add: saturating_mul_u64_def u64_max_def)

lemma saturating_add_mono: "a \<le> b \<Longrightarrow> saturating_add_u64 a c \<le> saturating_add_u64 b c"
  by (simp add: saturating_add_u64_def)

lemma saturating_add_ge: "a \<le> b \<Longrightarrow> a \<le> u64_max \<Longrightarrow> 0 \<le> c \<Longrightarrow> a \<le> saturating_add_u64 b c"
  by (simp add: saturating_add_u64_def)

interpretation seg: layered_costs "segment_cost U words ideal targets" for U words ideal targets
proof
  fix a b :: int and u s e
  show "a \<le> b \<Longrightarrow> segment_cost U words ideal targets a u s e \<le> segment_cost U words ideal targets b u s e"
    unfolding segment_cost_def Let_def by (intro saturating_add_mono)
  show "a \<le> u64_max \<Longrightarrow> a \<le> segment_cost U words ideal targets a u s e"
    unfolding segment_cost_def Let_def by (intro saturating_add_ge saturating_mul_nonneg) auto
qed

text \<open>Relaxing a cell changes only that cell.\<close>

lemma relax_other:
  "p \<noteq> (used, e) \<Longrightarrow> fst (relax U words ideal targets used e s t) p = fst t p \<and> snd (relax U words ideal targets used e s t) p = snd t p"
  by (cases t) (simp add: relax_def Let_def)

lemma relax_cell_other:
  "p \<noteq> (used, e) \<Longrightarrow> fst (fold (relax U words ideal targets used e) ss t) p = fst t p
     \<and> snd (fold (relax U words ideal targets used e) ss t) p = snd t p"
  by (induction ss arbitrary: t) (simp_all add: relax_other)

lemma relax_cells_other:
  "\<forall>e \<in> set es. p \<noteq> (used, e) \<Longrightarrow> fst (fold (\<lambda>e. fold (relax U words ideal targets used e) [used - 1..<e]) es t) p = fst t p
     \<and> snd (fold (\<lambda>e. fold (relax U words ideal targets used e) [used - 1..<e]) es t) p = snd t p"
  by (induction es arbitrary: t) (simp_all add: relax_cell_other)

lemma relax_row_other:
  "fst p \<noteq> used \<Longrightarrow> fst (relax_row U words ideal targets k used t) p = fst t p \<and> snd (relax_row U words ideal targets k used t) p = snd t p"
  unfolding relax_row_def by (rule relax_cells_other) auto

lemma relax_cell:
  assumes u: "0 < used"
  shows "cell_ok (segment_cost U words ideal targets) t used e A \<Longrightarrow>
     cell_ok (segment_cost U words ideal targets) (fold (relax U words ideal targets used e) ss t) used e (A \<union> set ss)"
proof (induction ss arbitrary: t A)
  case (Cons s ss)
  have o: "(used - 1, x) \<noteq> (used, e)" for x using u by (cases used) simp_all
  have "cell_ok (segment_cost U words ideal targets) (relax U words ideal targets used e s t) used e (insert s A)"
    using Cons.prems u unfolding cell_ok_def by (cases t) (auto simp: relax_def Let_def o)
  from Cons.IH [OF this] show ?case by simp
qed simp

lemma cell_ok_cong:
  assumes "cell_ok seg t u e ss" "fst t' (u, e) = fst t (u, e)" "snd t' (u, e) = snd t (u, e)"
    "\<forall>s \<in> ss. fst t' (u - 1, s) = fst t (u - 1, s)"
  shows "cell_ok seg t' u e ss"
  using assms unfolding cell_ok_def by auto

lemma relax_cells:
  assumes u: "0 < used"
  shows "distinct es \<Longrightarrow> \<forall>e \<in> set es. fst t (used, e) = unreachable \<Longrightarrow> e \<in> set es \<Longrightarrow>
     cell_ok (segment_cost U words ideal targets) (fold (\<lambda>e. fold (relax U words ideal targets used e) [used - 1..<e]) es t) used e {used - 1..<e}"
proof (induction es arbitrary: t)
  case (Cons x es)
  define t1 where "t1 = fold (relax U words ideal targets used x) [used - 1..<x] t"
  show ?case
  proof (cases "e = x")
    case True
    have "cell_ok (segment_cost U words ideal targets) t used x {}" using Cons.prems by (simp add: cell_ok_def)
    from relax_cell [OF u this, of "[used - 1..<x]"]
    have c: "cell_ok (segment_cost U words ideal targets) t1 used x {used - 1..<x}" by (simp add: t1_def)
    note r = relax_cells_other [of es _ used U words ideal targets t1]
    have "x \<notin> set es" "used \<noteq> used - 1" using Cons.prems u by auto
    with r [of "(used, x)"] r [of "(used - 1, _)"] show ?thesis
      unfolding True fold_simps t1_def [symmetric] by (intro cell_ok_cong [OF c]) (auto simp del: One_nat_def)
  next
    case False
    have "\<forall>e' \<in> set es. fst t1 (used, e') = unreachable"
    proof
      fix e' assume "e' \<in> set es"
      with Cons.prems have "(used, e') \<noteq> (used, x)" "fst t (used, e') = unreachable" by auto
      with relax_cell_other show "fst t1 (used, e') = unreachable" unfolding t1_def by metis
    qed
    with Cons False show ?thesis by (simp add: t1_def)
  qed
qed simp

lemma relax_row_cell:
  assumes "0 < used" "\<forall>e. fst t (used, e) = unreachable" "used \<le> e" "e \<le> length words - (k - used)"
  shows "cell_ok (segment_cost U words ideal targets) (relax_row U words ideal targets k used t) used e {used - 1..<e}"
  unfolding relax_row_def by (rule relax_cells [OF assms(1)]) (use assms in auto)

text \<open>The rows of the table, one after the other.\<close>

lemma rows_done:
  fixes U words ideal targets k
  defines "t0 \<equiv> ((\<lambda>_. unreachable)((0, 0) := 0), \<lambda>_. None)"
  defines "t m \<equiv> fold (relax_row U words ideal targets k) [1..<Suc m] t0"
  shows "(\<forall>e. fst (t m) (0, e) = (if e = 0 then 0 else unreachable)) \<and> (\<forall>u e. m < u \<longrightarrow> fst (t m) (u, e) = unreachable)
     \<and> (\<forall>u e. 0 < u \<longrightarrow> u \<le> m \<longrightarrow> u \<le> e \<longrightarrow> e \<le> length words - (k - u) \<longrightarrow>
          cell_ok (segment_cost U words ideal targets) (t m) u e {u - 1..<e})"
proof (induction m)
  case 0
  then show ?case by (simp add: t_def t0_def)
next
  case (Suc m)
  have st: "t (Suc m) = relax_row U words ideal targets k (Suc m) (t m)" by (simp add: t_def)
  have o: "fst (t (Suc m)) p = fst (t m) p \<and> snd (t (Suc m)) p = snd (t m) p" if "fst p \<noteq> Suc m" for p
    unfolding st by (rule relax_row_other [OF that])
  have "cell_ok (segment_cost U words ideal targets) (t (Suc m)) u e {u - 1..<e}"
    if "0 < u" "u \<le> Suc m" "u \<le> e" "e \<le> length words - (k - u)" for u e
  proof (cases "u = Suc m")
    case True
    with Suc that show ?thesis unfolding st True by (intro relax_row_cell) auto
  next
    case False
    with Suc that have c: "cell_ok (segment_cost U words ideal targets) (t m) u e {u - 1..<e}" by simp
    show ?thesis by (rule cell_ok_cong [OF c]) (use o False that in auto)
  qed
  moreover have "fst (t (Suc m)) (u, e) = fst (t m) (u, e)" if "u \<noteq> Suc m" for u e using o that by simp
  ultimately show ?case using Suc by simp
qed

lemma table_finished:
  "table_done (segment_cost U words ideal targets) k (length words)
     (fold (relax_row U words ideal targets k) [1..<Suc k] ((\<lambda>_. unreachable)((0, 0) := 0), \<lambda>_. None))"
  using rows_done [of U words ideal targets k k] unfolding table_done_def by simp

definition boundary_cost :: "unicode \<Rightarrow> utext list \<Rightarrow> nat \<Rightarrow> nat list \<Rightarrow> nat list \<Rightarrow> int" where
  "boundary_cost U words cue_count targets =
     path_cost (segment_cost U words ((phrase_characters words + cue_count - 1) div cue_count) targets) 0 0 0"

lemma semantic_boundaries_best:
  assumes "0 < cue_count" "cue_count \<le> length words" "length targets = cue_count"
  shows "case semantic_boundaries U words cue_count targets of
      Inr bs \<Rightarrow> \<exists>es. bs = 0 # es \<and> boundaries_to cue_count (length words) es \<and> boundary_cost U words cue_count targets es < unreachable
                \<and> (\<forall>es'. boundaries_to cue_count (length words) es' \<longrightarrow>
                     boundary_cost U words cue_count targets es \<le> boundary_cost U words cue_count targets es')
    | Inl e \<Rightarrow> e = AuthoredScriptAlignment \<and> (\<forall>es'. boundaries_to cue_count (length words) es' \<longrightarrow> unreachable \<le> boundary_cost U words cue_count targets es')"
proof -
  define ideal where "ideal = (phrase_characters words + cue_count - 1) div cue_count"
  define t where "t = fold (relax_row U words ideal targets cue_count) [1..<Suc cue_count] ((\<lambda>_. unreachable)((0, 0) := 0), \<lambda>_. None)"
  have d: "table_done (segment_cost U words ideal targets) cue_count (length words) t" unfolding t_def by (rule table_finished)
  note opt = seg.optimal_boundaries [OF d assms(2), folded ideal_def]
  have bc: "boundary_cost U words cue_count targets = path_cost (segment_cost U words ideal targets) 0 0 0"
    by (simp only: boundary_cost_def ideal_def)
  have sb: "semantic_boundaries U words cue_count targets =
      (if fst t (cue_count, length words) = unreachable then Inl AuthoredScriptAlignment
       else backtrace (snd t) cue_count (length words) [length words])"
    using assms(1-3) unfolding semantic_boundaries_def Let_def ideal_def [symmetric] t_def [symmetric]
    by (simp add: split_beta)
  show ?thesis
  proof (cases "fst t (cue_count, length words) = unreachable")
    case True
    with sb opt(2) show ?thesis by (auto simp: bc)
  next
    case False
    from opt(1) [OF False] obtain es where es: "backtrace (snd t) cue_count (length words) [length words] = Inr (0 # es)"
      "boundaries_to cue_count (length words) es" "path_cost (segment_cost U words ideal targets) 0 0 0 es = fst t (cue_count, length words)"
      by blast
    have "cell_ok (segment_cost U words ideal targets) t cue_count (length words) {cue_count - 1..<length words}"
      using d assms(1,2) by (simp add: table_done_def)
    with False have "fst t (cue_count, length words) < unreachable" by (auto simp: cell_ok_def)
    with sb es opt(2) False show ?thesis by (auto simp: bc)
  qed
qed

section \<open>Re-authoring\<close>

subsection \<open>Costs of a short script stay below the sentinel\<close>

lemma saturating_add_le: "a \<le> x \<Longrightarrow> b \<le> y \<Longrightarrow> saturating_add_u64 a b \<le> x + y"
  by (simp add: saturating_add_u64_def)

lemma saturating_mul_le: "0 \<le> a \<Longrightarrow> a \<le> x \<Longrightarrow> 0 \<le> b \<Longrightarrow> b \<le> y \<Longrightarrow> saturating_mul_u64 a b \<le> x * y"
  using mult_mono [of a x b y] by (auto simp: saturating_mul_u64_def intro: min.coboundedI2)

lemma segment_cost_le:
  assumes "phrase_characters (slice s e words) \<le> 2 ^ 17" "ideal \<le> 2 ^ 18" "e \<le> 2 ^ 16" "targets ! (used - 1) \<le> 2 ^ 16"
  shows "segment_cost U words ideal targets c used s e \<le> c + 2 ^ 44"
proof -
  define ch where "ch = phrase_characters (slice s e words)"
  have o: "saturating_mul_u64 (int (ch - MAX_CAPTION_CHARACTERS)) (int (ch - MAX_CAPTION_CHARACTERS)) \<le> 2 ^ 17 * 2 ^ 17"
    using assms(1) by (intro saturating_mul_le) (auto simp: ch_def)
  have r: "int (abs_diff ch ideal) \<le> 2 ^ 18" using assms(1,2) by (auto simp: abs_diff_def ch_def)
  have d: "int (abs_diff e (targets ! (used - 1))) \<le> 2 ^ 16" using assms(3,4) by (auto simp: abs_diff_def)
  have b: "(if e = length words then 0 else int (boundary_penalty U (words ! (e - 1)) (words ! e))) \<le> 4000"
    by (simp add: boundary_penalty_def)
  have "segment_cost U words ideal targets c used s e \<le> (((c + (2 ^ 17 * 2 ^ 17) * 500) + 2 ^ 18 * 2 ^ 18) + 2 ^ 16 * 12) + 4000"
    unfolding segment_cost_def Let_def ch_def [symmetric]
    by (intro saturating_add_le saturating_mul_le o r d b saturating_mul_nonneg) auto
  then show ?thesis by simp
qed

lemma path_cost_le:
  assumes "\<And>c u s e. s < e \<Longrightarrow> e \<le> n \<Longrightarrow> 0 < u \<Longrightarrow> u \<le> k \<Longrightarrow> seg c u s e \<le> c + M"
  shows "sorted_wrt (<) (s # es) \<Longrightarrow> \<forall>e \<in> set es. e \<le> n \<Longrightarrow> u + length es \<le> k \<Longrightarrow> path_cost seg u c s es \<le> c + int (length es) * M"
proof (induction es arbitrary: u c s)
  case (Cons e es)
  have "path_cost seg (Suc u) (seg c (Suc u) s e) e es \<le> seg c (Suc u) s e + int (length es) * M"
    using Cons by simp
  moreover have "seg c (Suc u) s e \<le> c + M" using Cons.prems by (intro assms) auto
  ultimately show ?case by (simp add: algebra_simps)
qed simp

lemma boundaries_exist: "0 < k \<Longrightarrow> k \<le> n \<Longrightarrow> boundaries_to k n ([1..<k] @ [n])"
  by (auto simp: boundaries_to_def sorted_wrt_append)

lemma phrase_slice: "phrase_characters (slice a b words) \<le> phrase_characters words"
proof -
  have "words = take a words @ slice a b words @ drop (b - a) (drop a words)"
    by (simp only: slice_def append_take_drop_id)
  then have "map length words = map length (take a words) @ map length (slice a b words) @ map length (drop (b - a) (drop a words))"
    by (metis map_append)
  then have "sum_list (map length (slice a b words)) \<le> sum_list (map length words)"
    by (metis (no_types, lifting) le_add1 le_add2 le_trans sum_list_append)
  moreover have "length (slice a b words) \<le> length words" by (simp add: slice_def)
  ultimately show ?thesis unfolding phrase_characters_def by linarith
qed

lemma semantic_boundaries_succeeds:
  assumes "0 < k" "k \<le> length words" "length targets = k" "phrase_characters words \<le> 2 ^ 17" "length words \<le> 2 ^ 16"
    "\<forall>t \<in> set targets. t \<le> 2 ^ 16"
  obtains es where "semantic_boundaries U words k targets = Inr (0 # es)" "boundaries_to k (length words) es"
proof -
  define ideal where "ideal = (phrase_characters words + k - 1) div k"
  have "ideal \<le> phrase_characters words + k - 1" by (simp add: ideal_def)
  then have i: "ideal \<le> 2 ^ 18" using assms(2,4,5) by simp
  note be = boundaries_exist [OF assms(1,2)]
  have "path_cost (segment_cost U words ideal targets) 0 0 0 ([1..<k] @ [length words]) \<le> 0 + int (length ([1..<k] @ [length words])) * 2 ^ 44"
  proof (rule path_cost_le [where k = k and n = "length words"])
    fix c u s e assume "e \<le> length words" "0 < u" "u \<le> k"
    then show "segment_cost U words ideal targets c u s e \<le> c + 2 ^ 44"
      using assms phrase_slice [of s e words] i by (intro segment_cost_le) auto
  qed (use be assms in \<open>auto simp: boundaries_to_def\<close>)
  then have "boundary_cost U words k targets ([1..<k] @ [length words]) \<le> int k * 2 ^ 44"
    using assms(1) by (simp add: boundary_cost_def ideal_def)
  also have "\<dots> < unreachable" using assms(2,5) by (simp add: unreachable_def u64_max_def)
  finally have lt: "boundary_cost U words k targets ([1..<k] @ [length words]) < unreachable" .
  show ?thesis
  proof (cases "semantic_boundaries U words k targets")
    case (Inl e)
    with semantic_boundaries_best [OF assms(1-3), of U] be lt show ?thesis by (auto simp: not_less [symmetric])
  next
    case (Inr bs)
    with semantic_boundaries_best [OF assms(1-3), of U] that show ?thesis by auto
  qed
qed

subsection \<open>Scaled boundaries\<close>

lemma clamp_usize_Some: "lo \<le> hi \<Longrightarrow> \<exists>y. clamp_usize x lo hi = Some y \<and> lo \<le> y \<and> y \<le> hi"
  by (auto simp: clamp_usize_def)

lemma scaled_loop_total:
  "previous + length counts \<le> authored \<Longrightarrow>
     \<exists>bs. scaled_loop authored raw_total cumulative previous counts = Some (Inr bs) \<and> length bs = length counts"
proof (induction counts arbitrary: cumulative previous)
  case (Cons x counts)
  define sc where "sc = saturating_usize (saturating_usize (saturating_usize (cumulative + x) * authored) + raw_total div 2) div raw_total"
  from Cons.prems have le: "previous + 1 \<le> authored - length counts" by simp
  from clamp_usize_Some [OF this, of sc] obtain b
    where b: "clamp_usize sc (previous + 1) (authored - length counts) = Some b" "b \<le> authored - length counts" by blast
  have "b + length counts \<le> authored" using b(2) Cons.prems by simp
  from Cons.IH [OF this, of "saturating_usize (cumulative + x)"] obtain bs
    where "scaled_loop authored raw_total (saturating_usize (cumulative + x)) b counts = Some (Inr bs)" "length bs = length counts" by auto
  with b(1) le show ?case by (simp add: Let_def sc_def)
qed simp

subsection \<open>Sentences and their cues\<close>

text \<open>Sentence ends and cue ends that rise together, with no more cues than words in each sentence.\<close>

fun sentence_plan :: "nat \<Rightarrow> nat \<Rightarrow> (nat \<times> nat) list \<Rightarrow> bool" where
  "sentence_plan s c [] \<longleftrightarrow> True"
| "sentence_plan s c ((e, d) # rest) \<longleftrightarrow> s < e \<and> c < d \<and> d - c \<le> e - s \<and> sentence_plan e d rest"

lemma min_by_key_total: "xs \<noteq> [] \<Longrightarrow> \<exists>x. min_by_key key xs = Some x"
  by (cases xs) (auto split: option.split)

lemma pick_cue_end_total:
  assumes "c + r < k" "k - c \<le> n - s" "s < e" "r \<le> n - e" "0 < r" "e \<le> n"
  shows "\<exists>d. pick_cue_end k n raw c s e r = Inr d \<and> c < d \<and> d + r \<le> k \<and> d - c \<le> e - s \<and> k - d \<le> n - e"
proof -
  define lo hi where "lo = max (c + 1) (k - (n - e))" and "hi = min (min (k - r) (c + (e - s))) (k - 1)"
  have "k + s \<le> n + c" "r + e \<le> n" using assms by arith+
  then have le: "lo \<le> hi" using assms unfolding lo_def hi_def by auto
  then have "[lo..<Suc hi] \<noteq> []" by simp
  from min_by_key_total [OF this] obtain d
    where d: "min_by_key (\<lambda>candidate. abs_diff (raw ! (candidate - 1)) e) [lo..<Suc hi] = Some d" by blast
  have p: "pick_cue_end k n raw c s e r = Inr d"
    using le d unfolding pick_cue_end_def Let_def lo_def [symmetric] hi_def [symmetric] by simp
  have "lo \<le> d" "d \<le> hi" using min_by_key_mem [OF d] by auto
  then show ?thesis using p assms unfolding lo_def hi_def by auto
qed

lemma sentence_cues_plan:
  "ends \<noteq> [] \<Longrightarrow> sorted_wrt (<) (s # ends) \<Longrightarrow> last ends = n \<Longrightarrow> c + length ends \<le> k \<Longrightarrow> k - c \<le> n - s \<Longrightarrow>
     \<exists>ds. sentence_cues k n raw c s ends = Inr ds \<and> length ds = length ends \<and> sentence_plan s c (zip ends ds) \<and> last ds = k"
proof (induction ends arbitrary: s c)
  case (Cons e ends)
  show ?case
  proof (cases "ends = []")
    case True
    with Cons.prems show ?thesis by simp
  next
    case False
    have en: "sorted_wrt (<) (e # ends)" "last ends = n" using Cons.prems False by auto
    have r: "e + length ends \<le> n"
    proof -
      have "boundaries_to (length ends) n ends" using en False Cons.prems(2) by (auto simp: boundaries_to_def)
      have "e + length xs \<le> last (e # xs)" if "sorted_wrt (<) (e # xs)" for xs
        using that
      proof (induction xs rule: rev_induct)
        case (snoc x xs)
        then show ?case using rising_le_last [of e xs] by (cases xs rule: rev_cases) (auto simp: sorted_wrt_append)
      qed simp
      from this [OF en(1)] en(2) False show ?thesis by simp
    qed
    have "\<exists>d. pick_cue_end k n raw c s e (length ends) = Inr d \<and> c < d \<and> d + length ends \<le> k \<and> d - c \<le> e - s \<and> k - d \<le> n - e"
      using Cons.prems False r by (intro pick_cue_end_total) (auto simp: Suc_le_eq)
    then obtain d where d: "pick_cue_end k n raw c s e (length ends) = Inr d" "c < d" "d + length ends \<le> k" "d - c \<le> e - s" "k - d \<le> n - e" by blast
    from Cons.IH [OF False en d(3,5)] obtain ds where "sentence_cues k n raw d e ends = Inr ds" "length ds = length ends"
      "sentence_plan e d (zip ends ds)" "last ds = k" by blast
    with d Cons.prems False show ?thesis by (intro exI [of _ "d # ds"]) (auto simp: neq_Nil_conv)
  qed
qed simp

lemma sentence_ends_props:
  assumes "words \<noteq> []"
  shows "sentence_ends_of words \<noteq> []" "sorted_wrt (<) (0 # sentence_ends_of words)" "last (sentence_ends_of words) = length words"
    "\<forall>i < length words. ends_sentence (words ! i) \<longrightarrow> i + 1 \<in> set (sentence_ends_of words)"
proof -
  define es where "es = map (\<lambda>(i, _). i + 1) (filter (\<lambda>(_, w). ends_sentence w) (enumerate 0 words))"
  have se: "sentence_ends_of words = (if es \<noteq> [] \<and> last es = length words then es else es @ [length words])"
    by (simp add: sentence_ends_of_def es_def Let_def)
  have "sorted_wrt (<) (map fst (enumerate 0 words))" by simp
  then have "sorted_wrt (\<lambda>a b. fst a < fst b) (filter (\<lambda>(_, w). ends_sentence w) (enumerate 0 words))"
    by (intro sorted_wrt_filter) (simp only: sorted_wrt_map)
  then have srt: "sorted_wrt (<) es" unfolding es_def sorted_wrt_map by (rule sorted_wrt_mono_rel [rotated]) auto
  have mem: "x \<in> set es \<longleftrightarrow> (\<exists>i < length words. x = i + 1 \<and> ends_sentence (words ! i))" for x
    by (auto simp: es_def in_set_enumerate_eq)
  show "sentence_ends_of words \<noteq> []" "last (sentence_ends_of words) = length words" by (simp_all add: se)
  show "\<forall>i < length words. ends_sentence (words ! i) \<longrightarrow> i + 1 \<in> set (sentence_ends_of words)" using mem by (auto simp: se)
  have pos: "\<forall>x \<in> set es. 0 < x \<and> x \<le> length words" using mem by auto
  have "x < length words" if x: "x \<in> set es" "\<not> (es \<noteq> [] \<and> last es = length words)" for x
  proof -
    from x(1) obtain y ys where es: "es = y # ys" by (cases es) auto
    then have "x \<le> last es" using rising_le_last [of y ys x] srt x(1) by simp
    moreover have "last es \<in> set es" unfolding es by (rule last_in_set) simp
    ultimately show ?thesis using x(2) es pos by fastforce
  qed
  then show "sorted_wrt (<) (0 # sentence_ends_of words)"
    using srt pos assms by (auto simp: se sorted_wrt_append)
qed

subsection \<open>The boundaries of all cues\<close>

lemma collect_targets_total:
  "\<forall>x \<in> set xs. \<exists>t \<le> m. x = Some t \<Longrightarrow> \<exists>ts. collect_targets xs = Some ts \<and> length ts = length xs \<and> (\<forall>t \<in> set ts. t \<le> m)"
  by (induction xs) force+

lemma sentence_targets_total:
  assumes "0 < k" "k \<le> n"
  shows "\<exists>ts. sentence_targets raw s c k n = Some ts \<and> length ts = k \<and> (\<forall>t \<in> set ts. t \<le> n)"
proof -
  define xs where "xs = map (\<lambda>offset. clamp_usize (raw ! (c + offset - 1) - s) offset (n - (k - offset))) [1..<k]"
  have "\<exists>t \<le> n. x = Some t" if "x \<in> set xs" for x
  proof -
    from that obtain i where i: "1 \<le> i" "i < k" "x = clamp_usize (raw ! (c + i - 1) - s) i (n - (k - i))" by (auto simp: xs_def)
    have "i \<le> n - (k - i)" using i assms by simp
    from clamp_usize_Some [OF this, of "raw ! (c + i - 1) - s"] i(3) show ?thesis by (meson diff_le_self le_trans)
  qed
  from collect_targets_total [of xs n] this obtain ts where ts: "collect_targets xs = Some ts" "length ts = length xs" "\<forall>t \<in> set ts. t \<le> n" by blast
  have "length xs = k - 1" by (simp add: xs_def)
  with ts assms show ?thesis by (auto simp: sentence_targets_def xs_def)
qed

lemma write_loop_nth:
  "fold (\<lambda>(offset, boundary) final. final[c + offset := s + boundary]) (enumerate j es) final ! i
     = (if c + j \<le> i \<and> i < c + j + length es \<and> i < length final then s + es ! (i - c - j) else final ! i)"
proof (induction es arbitrary: j final)
  case (Cons e es)
  show ?case
    unfolding enumerate_simps(2) fold_simps prod.case Cons.IH
    by (cases "i = c + j") (auto simp: nth_list_update_neq list_update_beyond nth_Cons')
qed auto

lemma write_boundaries_length: "length (write_boundaries c s semantic final) = length final"
proof -
  have "length (fold (\<lambda>(offset, boundary) final. final[c + offset := s + boundary]) xs final) = length final" for xs
    by (induction xs arbitrary: final) auto
  then show ?thesis by (simp add: write_boundaries_def)
qed

lemma write_boundaries_nth:
  "c + length es < length final \<Longrightarrow>
     write_boundaries c s (0 # es) final ! i = (if c < i \<and> i \<le> c + length es then s + es ! (i - c - 1) else final ! i)"
  by (simp add: write_boundaries_def write_loop_nth Suc_le_eq less_Suc_eq_le)

text \<open>What the loop over the sentences leaves in \<^verbatim>\<open>final_boundaries\<close>: rising boundaries that meet every sentence end.\<close>

definition boundaries_filled :: "nat \<Rightarrow> nat \<Rightarrow> (nat \<times> nat) list \<Rightarrow> nat list \<Rightarrow> nat list \<Rightarrow> bool" where
  "boundaries_filled s c plan final final' \<longleftrightarrow> length final' = length final \<and> (\<forall>i < c. final' ! i = final ! i)
     \<and> final' ! c = s \<and> (\<forall>i \<ge> c. i < snd (last ((s, c) # plan)) \<longrightarrow> final' ! i < final' ! (i + 1))
     \<and> (\<forall>(e, d) \<in> set plan. final' ! d = e)"

lemma plan_last_ge: "sentence_plan s c plan \<Longrightarrow> c \<le> snd (last ((s, c) # plan))"
  by (induction s c plan rule: sentence_plan.induct) auto

lemma fill_sentences_total:
  assumes ph: "phrase_characters words \<le> 2 ^ 17" and len: "length words \<le> 2 ^ 16"
  shows "sentence_plan s c plan \<Longrightarrow> snd (last ((s, c) # plan)) < length final \<Longrightarrow> \<forall>(e, d) \<in> set plan. e \<le> length words \<Longrightarrow>
     final ! c = s \<Longrightarrow>
     \<exists>final'. fill_sentences U words raw s c plan final = Some (Inr final') \<and> boundaries_filled s c plan final final'"
proof (induction plan arbitrary: s c final)
  case Nil
  then show ?case by (simp add: boundaries_filled_def)
next
  case (Cons q plan)
  obtain e d where q: "q = (e, d)" by (cases q)
  note prems = Cons.prems [unfolded q]
  define final1 where "final1 = final[c := s, d := e]"
  define k n where "k = d - c" and "n = e - s"
  have p: "s < e" "c < d" "k \<le> n" "sentence_plan e d plan" "e \<le> length words" using prems(1,3) by (auto simp: k_def n_def)
  have last: "snd (last ((s, c) # (e, d) # plan)) = snd (last ((e, d) # plan))" by simp
  have d: "d < length final" using plan_last_ge [OF p(4)] prems(2) by simp
  have k: "0 < k" using p(2) by (simp add: k_def)
  obtain ts where ts: "sentence_targets raw s c k n = Some ts" "length ts = k" "\<forall>t \<in> set ts. t \<le> n"
    using sentence_targets_total [OF k p(3)] by blast
  have ls: "length (slice s e words) = n" using p(1,5) by (simp add: slice_def n_def)
  have n16: "n \<le> 2 ^ 16" using p(1,5) len by (simp add: n_def)
  have t16: "\<forall>t \<in> set ts. t \<le> 2 ^ 16" using ts(3) n16 by (meson le_trans)
  have ph': "phrase_characters (slice s e words) \<le> 2 ^ 17" using phrase_slice [of s e words] ph by (rule le_trans)
  obtain es where es: "semantic_boundaries U (slice s e words) k ts = Inr (0 # es)" "boundaries_to k n es"
    using semantic_boundaries_succeeds [where U = U and words = "slice s e words", OF k _ ts(2) ph' _ t16] p(3) n16 unfolding ls by blast
  define final2 where "final2 = write_boundaries c s (0 # es) final1"
  have le: "length es = k" "sorted_wrt (<) (0 # es)" "last (0 # es) = n" using es(2) by (simp_all add: boundaries_to_def)
  have f2: "final2 ! i = (if c < i \<and> i \<le> d then s + es ! (i - c - 1) else final1 ! i)" for i
    using write_boundaries_nth [of c es final1 s i] le(1) d p(2) by (simp add: final2_def final1_def k_def)
  have cell: "final2 ! i = s + (0 # es) ! (i - c)" if "c \<le> i" "i \<le> d" for i
    using that f2 [of i] d p(2) by (cases "i = c") (simp_all add: final1_def nth_Cons')
  have "es \<noteq> []" using le(1) k by auto
  then have "(0 # es) ! k = n" using le(1,3) k by (simp add: last_conv_nth nth_Cons')
  then have fd: "final2 ! d = e" using cell [of d] p by (simp add: k_def n_def)
  have l2: "length final2 = length final" by (simp add: final2_def final1_def write_boundaries_length)
  have run: "fill_sentences U words raw s c ((e, d) # plan) final = fill_sentences U words raw e d plan final2"
    using ts(1) es(1) by (simp add: Let_def final1_def final2_def k_def n_def)
  have "\<exists>final'. fill_sentences U words raw e d plan final2 = Some (Inr final') \<and> boundaries_filled e d plan final2 final'"
    using p(4) prems(2,3) fd l2 by (intro Cons.IH) simp_all
  then obtain final' where f: "fill_sentences U words raw e d plan final2 = Some (Inr final')" "boundaries_filled e d plan final2 final'" by blast
  have low: "final' ! i = final2 ! i" if "i \<le> d" for i
    using f(2) fd that by (cases "i = d") (auto simp: boundaries_filled_def)
  have inc: "final' ! i < final' ! (i + 1)" if i: "c \<le> i" "i < snd (last ((s, c) # (e, d) # plan))" for i
  proof (cases "i < d")
    case True
    have "(0 # es) ! (i - c) < (0 # es) ! (i + 1 - c)"
      using le(1) True i(1) by (intro sorted_wrt_nth_less [OF le(2)]) (auto simp: k_def)
    with True low cell i(1) show ?thesis by simp
  next
    case False
    with f(2) i(2) last show ?thesis by (simp add: boundaries_filled_def)
  qed
  have "boundaries_filled s c ((e, d) # plan) final final'"
    unfolding boundaries_filled_def
  proof (intro conjI allI impI)
    fix i assume "i < c"
    with low [of i] f2 [of i] p(2) show "final' ! i = final ! i" by (simp add: final1_def)
  next
    show "final' ! c = s" using low [of c] cell [of c] p(2) by simp
  qed (use f(2) inc l2 in \<open>auto simp: boundaries_filled_def\<close>)
  with run f(1) show ?case by (auto simp: q)
qed

subsection \<open>The texts\<close>

lemma rising_bounds:
  assumes "\<forall>i < k. fs ! i < (fs ! (i + 1) :: nat)"
  shows "i \<le> j \<Longrightarrow> j \<le> k \<Longrightarrow> fs ! i + (j - i) \<le> fs ! j"
proof (induction j)
  case (Suc j)
  show ?case
  proof (cases "i = Suc j")
    case False
    with Suc assms [rule_format, of j] show ?thesis by (simp add: Suc_diff_le)
  qed simp
qed simp

lemma slice_append: "a \<le> b \<Longrightarrow> b \<le> c \<Longrightarrow> slice a b xs @ slice b c xs = slice a c xs"
  using take_add [of "b - a" "c - b" "drop a xs"] by (simp add: slice_def)

lemma plan_le_last: "sentence_plan s c plan \<Longrightarrow> (e, d) \<in> set plan \<Longrightarrow> d \<le> snd (last ((s, c) # plan))"
proof (induction s c plan rule: sentence_plan.induct)
  case (2 s c e' d' rest)
  then show ?case using plan_last_ge [of e' d' rest] by auto
qed simp

lemma concat_slices:
  "\<forall>i < k. fs ! i < (fs ! (i + 1) :: nat) \<Longrightarrow> concat (map (\<lambda>i. slice (fs ! i) (fs ! (i + 1)) xs) [0..<k]) = slice (fs ! 0) (fs ! k) xs"
proof (induction k)
  case 0
  then show ?case by (simp add: slice_def)
next
  case (Suc k)
  then have "fs ! 0 \<le> fs ! k" "fs ! k < fs ! (k + 1)" using rising_bounds [of k fs 0 k] by auto
  then have "slice (fs ! 0) (fs ! k) xs @ slice (fs ! k) (fs ! (k + 1)) xs = slice (fs ! 0) (fs ! (k + 1)) xs"
    by (intro slice_append) auto
  with Suc show ?case by simp
qed

text \<open>What re-authoring promises of the cues it returns.\<close>

definition whole_sentences :: "utext list \<Rightarrow> bool" where
  "whole_sentences ws \<longleftrightarrow> ws \<noteq> [] \<and> list_all (\<lambda>w. \<not> ends_sentence w) (butlast ws)"

definition authored_ok :: "utext caption_cue list \<Rightarrow> utext list \<Rightarrow> utext caption_cue list \<Rightarrow> bool" where
  "authored_ok cues words out \<longleftrightarrow> map cue_start out = map cue_start cues \<and> map cue_end out = map cue_end cues
     \<and> concat (map (\<lambda>c. split_whitespace (cue_text c)) out) = words
     \<and> (\<forall>c \<in> set out. whole_sentences (split_whitespace (cue_text c)))"

lemma slice_words_ok:
  assumes w: "list_all (\<lambda>w. list_all (\<lambda>c. \<not> is_whitespace c) w \<and> w \<noteq> []) words"
  shows "split_whitespace (join (ascii '' '') (slice a b words)) = slice a b words"
  using w by (intro split_join) (auto simp: list_all_iff slice_def dest: in_set_takeD in_set_dropD)

lemma butlast_slice: "b \<le> length xs \<Longrightarrow> butlast (slice a b xs) = slice a (b - 1) xs"
  by (simp add: slice_def butlast_take)

lemma authored_texts_ok:
  assumes w: "list_all (\<lambda>w. list_all (\<lambda>c. \<not> is_whitespace c) w \<and> w \<noteq> []) words"
    and fs: "fs ! 0 = 0" "fs ! length cues = length words" "\<forall>i < length cues. fs ! i < fs ! (i + 1)"
    and ends: "\<forall>i < length words. ends_sentence (words ! i) \<longrightarrow> (\<exists>d \<le> length cues. fs ! d = i + 1)"
  shows "authored_ok cues words (map (\<lambda>(i, c). \<lparr>cue_start = cue_start c, cue_end = cue_end c,
                            cue_text = join (ascii '' '') (slice (fs ! i) (fs ! (i + 1)) words)\<rparr>) (enumerate 0 cues))"
    (is "authored_ok cues words ?out")
proof -
  note b = rising_bounds [OF fs(3)]
  have ws: "whole_sentences (slice (fs ! i) (fs ! (i + 1)) words)" if i: "i < length cues" for i
  proof -
    have le: "fs ! (i + 1) \<le> length words" using b [of "i + 1" "length cues"] i fs(2) by simp
    have lt: "fs ! i < fs ! (i + 1)" using fs(3) i by blast
    have "\<not> ends_sentence (words ! j)" if j: "fs ! i \<le> j" "j < fs ! (i + 1) - 1" for j
    proof
      assume "ends_sentence (words ! j)"
      moreover have "j < length words" using j le by simp
      ultimately obtain d where d: "d \<le> length cues" "fs ! d = j + 1" using ends by blast
      show False
      proof (cases "d \<le> i")
        case True
        with b [of d i] i d j show False by simp
      next
        case False
        with b [of "i + 1" d] d j show False by simp
      qed
    qed
    then have "list_all (\<lambda>w. \<not> ends_sentence w) (slice (fs ! i) (fs ! (i + 1) - 1) words)"
      by (auto simp: list_all_length slice_def)
    with le lt show ?thesis by (simp add: whole_sentences_def butlast_slice) (simp add: slice_def)
  qed
  have "concat (map (\<lambda>c. split_whitespace (cue_text c)) ?out) = concat (map (\<lambda>i. slice (fs ! i) (fs ! (i + 1)) words) [0..<length cues])"
    by (intro arg_cong [where f = concat] nth_equalityI) (simp_all add: slice_words_ok [OF w] nth_enumerate_eq)
  also have "\<dots> = words" using concat_slices [OF fs(3), of words] fs(1,2) by (simp add: slice_def)
  finally show ?thesis
    unfolding authored_ok_def
    by (auto simp: slice_words_ok [OF w] in_set_enumerate_eq ws [simplified] o_def split_beta map_snd_enumerate nth_enumerate_eq intro!: nth_equalityI)
qed

text \<open>The errors of re-authoring, in the order the code finds them.\<close>

definition authored_error :: "utext caption_cue list \<Rightarrow> utext list \<Rightarrow> caption_plan_error option" where
  "authored_error cues words =
     (if cues = [] then Some NoCues
      else if words = [] then Some EmptyAuthoredScript
      else if length words < length cues \<or> length cues < length (sentence_ends_of words)
           \<or> (\<forall>c \<in> set cues. split_whitespace (cue_text c) = []) then Some AuthoredScriptAlignment
      else None)"

lemma split_on_lengths: "sum_list (map length (split_on P acc t)) + length (split_on P acc t) \<le> length acc + length t + 1"
  by (induction P acc t rule: split_on.induct) auto

lemma script_words_bounds:
  "sum_list (map length (split_whitespace t)) \<le> length t" "length (split_whitespace t) \<le> length t"
proof -
  have f: "sum_list (map length (filter Q xs)) \<le> sum_list (map length xs)" for Q and xs :: "utext list"
    by (induction xs) auto
  have n: "length (filter (\<lambda>w. w \<noteq> []) xs) \<le> sum_list (map length xs)" for xs :: "utext list"
  proof (induction xs)
    case (Cons a xs)
    then show ?case by (cases a) auto
  qed simp
  have s: "split_on P acc t \<noteq> []" for P acc t by (induction P acc t rule: split_on.induct) auto
  from s [of is_whitespace "[]" t] have "1 \<le> length (split_on is_whitespace [] t)" by (cases "split_on is_whitespace [] t") auto
  with split_on_lengths [of is_whitespace "[]" t] have "sum_list (map length (split_on is_whitespace [] t)) \<le> length t" by simp
  with f n show "sum_list (map length (split_whitespace t)) \<le> length t" "length (split_whitespace t) \<le> length t"
    unfolding split_whitespace_def by (meson le_trans)+
qed

lemma authored_cues_spec:
  assumes "length script \<le> 2 ^ 16"
  shows "case authored_error cues (split_whitespace script) of
      Some e \<Rightarrow> authored_caption_cues U cues script = Some (Inl e)
    | None \<Rightarrow> \<exists>out. authored_caption_cues U cues script = Some (Inr out) \<and> authored_ok cues (split_whitespace script) out"
proof -
  define words where "words = split_whitespace script"
  have flt: "filter (\<lambda>w. w \<noteq> []) words = words" by (auto simp: words_def split_whitespace_def filter_id_conv)
  define total where "total = sum_list (map (\<lambda>c. length (split_whitespace (cue_text c))) cues)"
  have total: "total = 0 \<longleftrightarrow> (\<forall>c \<in> set cues. split_whitespace (cue_text c) = [])" by (auto simp: total_def)
  show ?thesis
  proof (cases "authored_error cues words")
    case (Some e)
    have "authored_caption_cues U cues script = Some (Inl e)"
      using Some unfolding authored_caption_cues_def words_def [symmetric] Let_def total_def [symmetric]
      by (auto simp: authored_error_def total flt split: if_split_asm)
    with Some show ?thesis by (simp add: words_def)
  next
    case None
    then have g: "cues \<noteq> []" "words \<noteq> []" "length cues \<le> length words" "length (sentence_ends_of words) \<le> length cues" "total \<noteq> 0"
      by (auto simp: authored_error_def total split: if_split_asm)
    have w: "list_all (\<lambda>w. list_all (\<lambda>c. \<not> is_whitespace c) w \<and> w \<noteq> []) words"
      using split_whitespace_word by (auto simp: words_def list_all_iff)
    have ph: "phrase_characters words \<le> 2 ^ 17" and len: "length words \<le> 2 ^ 16"
      using script_words_bounds [of script] assms by (simp_all add: words_def phrase_characters_def)
    obtain raw where raw: "scaled_boundaries (map (\<lambda>c. length (split_whitespace (cue_text c))) cues) (length words) total = Some (Inr raw)"
      using scaled_loop_total [of 0 "map (\<lambda>c. length (split_whitespace (cue_text c))) cues" "length words" total 0] g(3)
      by (auto simp: scaled_boundaries_def)
    note se = sentence_ends_props [OF g(2)]
    obtain ds where ds: "sentence_cues (length cues) (length words) raw 0 0 (sentence_ends_of words) = Inr ds"
      "length ds = length (sentence_ends_of words)" "sentence_plan 0 0 (zip (sentence_ends_of words) ds)" "last ds = length cues"
      using sentence_cues_plan [OF se(1,2,3), of 0 "length cues" raw] g(3,4) by auto
    define plan where "plan = zip (sentence_ends_of words) ds"
    have ne: "ds \<noteq> []" using se(1) ds(2) by auto
    have plan: "plan \<noteq> []" "last plan = (length words, length cues)"
      using se(1,3) ds(2,4) ne by (auto simp: plan_def last_zip)
    then have top: "snd (last ((0, 0) # plan)) = length cues" by simp
    have "\<forall>(e, d) \<in> set plan. e \<le> length words"
      using rising_le_last [OF se(2)] se(1,3) by (auto simp: plan_def dest!: set_zip_leftD)
    with fill_sentences_total [OF ph len ds(3) [folded plan_def], of "replicate (length cues + 1) 0" U raw] top obtain fs
      where fs: "fill_sentences U words raw 0 0 plan (replicate (length cues + 1) 0) = Some (Inr fs)"
        "boundaries_filled 0 0 plan (replicate (length cues + 1) 0) fs" by auto
    have at: "fs ! d = e" if "(e, d) \<in> set plan" for e d using fs(2) that by (auto simp: boundaries_filled_def)
    have "\<exists>d \<le> length cues. fs ! d = i + 1" if i: "i < length words" "ends_sentence (words ! i)" for i
    proof -
      have "i + 1 \<in> set (sentence_ends_of words)" using se(4) i by blast
      then have "i + 1 \<in> fst ` set plan" using ds(2) by (metis plan_def list.set_map map_fst_zip)
      then obtain d where "(i + 1, d) \<in> set plan" by auto
      with at plan_le_last [OF ds(3) [folded plan_def]] top show ?thesis by metis
    qed
    then have "authored_ok cues words (map (\<lambda>(i, c). \<lparr>cue_start = cue_start c, cue_end = cue_end c,
                            cue_text = join (ascii '' '') (slice (fs ! i) (fs ! (i + 1)) words)\<rparr>) (enumerate 0 cues))"
      using fs(2) at [of "length words" "length cues"] plan last_in_set [OF plan(1)] top
      by (intro authored_texts_ok [OF w]) (auto simp: boundaries_filled_def)
    moreover have "authored_caption_cues U cues script = Some (Inr (map (\<lambda>(i, c). \<lparr>cue_start = cue_start c, cue_end = cue_end c,
                            cue_text = join (ascii '' '') (slice (fs ! i) (fs ! (i + 1)) words)\<rparr>) (enumerate 0 cues)))"
      using g raw ds(1) fs(1) unfolding authored_caption_cues_def words_def [symmetric] Let_def total_def [symmetric] plan_def
      by (simp add: flt)
    ultimately show ?thesis using None by (simp add: words_def)
  qed
qed

section \<open>Cues from transcript words\<close>

text \<open>Two words that may stand in one cue, and what a cue holds.\<close>

definition joinable :: "timecode \<Rightarrow> caption_word \<Rightarrow> caption_word \<Rightarrow> bool" where
  "joinable hold a b \<longleftrightarrow> saturating_sub_i64 (cw_start b) (cw_end a) \<le> hold \<and> \<not> source_change a b \<and> \<not> ends_sentence (cw_text a)"

definition cue_group :: "timecode \<Rightarrow> caption_word list \<Rightarrow> bool" where
  "cue_group hold g \<longleftrightarrow> g \<noteq> [] \<and> successively (joinable hold) g
     \<and> (length g = 1 \<or> phrase_characters (map cw_text g) \<le> MAX_CAPTION_CHARACTERS)"

definition cue_of :: "caption_word list \<Rightarrow> utext caption_cue" where
  "cue_of g = \<lparr>cue_start = cw_start (hd g), cue_end = cw_end (last g), cue_text = join (ascii '' '') (map cw_text g)\<rparr>"

lemma phrase_slice_mono: "a \<le> b \<Longrightarrow> b \<le> c \<Longrightarrow> phrase_characters (slice a b xs) \<le> phrase_characters (slice a c xs)"
  using phrase_slice [of 0 "b - a" "slice a c xs"] by (simp add: slice_def min.absorb1 diff_le_mono)

lemma reach_fits:
  "start < f \<Longrightarrow> f = start + 1 \<or> phrase_characters (slice start f texts) \<le> MAX_CAPTION_CHARACTERS \<Longrightarrow>
     reach texts start f = start + 1 \<or> phrase_characters (slice start (reach texts start f) texts) \<le> MAX_CAPTION_CHARACTERS"
proof (induction texts start f rule: reach.induct)
  case (1 texts start f)
  then show ?case by (auto simp: reach.simps [of texts start f])
qed

lemma cue_break_fits:
  assumes "start < length texts"
  shows "cue_break U texts start = start + 1 \<or> phrase_characters (slice start (cue_break U texts start) texts) \<le> MAX_CAPTION_CHARACTERS"
proof -
  define r where "r = reach texts start (start + 1)"
  have r: "r = start + 1 \<or> phrase_characters (slice start r texts) \<le> MAX_CAPTION_CHARACTERS"
    using reach_fits [of start "start + 1" texts] by (simp add: r_def)
  have b: "start < cue_break U texts start" using cue_break_bounds(1) [OF assms] .
  have le: "cue_break U texts start \<le> r"
    unfolding cue_break_def Let_def r_def [symmetric]
    by (auto simp del: upt_Suc dest!: min_by_key_mem split: option.split)
  show ?thesis
  proof (cases "r = start + 1")
    case True
    with b le show ?thesis by simp
  next
    case False
    with r phrase_slice_mono [OF less_imp_le [OF b] le, of texts] show ?thesis by simp
  qed
qed

lemma successively_slice: "successively P xs \<Longrightarrow> successively P (slice a b xs)"
proof -
  assume "successively P xs"
  then have "successively P (take a xs @ slice a b xs @ drop (b - a) (drop a xs))" by (simp only: slice_def append_take_drop_id)
  then show ?thesis by (simp add: successively_append_iff)
qed

lemma push_semantic_groups:
  "successively (joinable hold) ws \<Longrightarrow> \<exists>gs. push_semantic_cues U ws start = map cue_of gs \<and> concat gs = drop start ws \<and> (\<forall>g \<in> set gs. cue_group hold g)"
proof (induction U ws start rule: push_semantic_cues.induct)
  case (1 U ws start)
  show ?case
  proof (cases "start < length ws")
    case False
    then show ?thesis by (subst push_semantic_cues.simps) simp
  next
    case True
    define e where "e = cue_break U (map cw_text ws) start"
    have e: "start < e" "e \<le> length ws" using cue_break_bounds [of start "map cw_text ws" U] True by (simp_all add: e_def)
    from 1 True obtain gs where gs: "push_semantic_cues U ws e = map cue_of gs" "concat gs = drop e ws" "\<forall>g \<in> set gs. cue_group hold g"
      by (auto simp: e_def)
    have ne: "slice start e ws \<noteq> []" using e by (simp add: slice_def)
    have ms: "map cw_text (slice start e ws) = slice start e (map cw_text ws)" by (simp add: slice_def take_map drop_map)
    have "length (slice start e ws) = 1 \<or> phrase_characters (map cw_text (slice start e ws)) \<le> MAX_CAPTION_CHARACTERS"
      using cue_break_fits [of start "map cw_text ws" U] True e unfolding ms e_def [symmetric] by (auto simp: slice_def)
    with ne successively_slice [OF 1(2)] have "cue_group hold (slice start e ws)" by (simp add: cue_group_def)
    moreover have "hd (slice start e ws) = ws ! start" "last (slice start e ws) = ws ! (e - 1)"
      using e by (simp_all add: slice_def hd_drop_conv_nth last_conv_nth hd_take)
    then have "cue_of (slice start e ws) # map cue_of gs = push_semantic_cues U ws start"
      using True gs(1) ms by (simp add: push_semantic_cues.simps [of U ws start] Let_def e_def [symmetric] cue_of_def)
    moreover have "slice start e ws @ drop e ws = drop start ws"
      using e append_take_drop_id [of "e - start" "drop start ws"] by (simp add: slice_def)
    ultimately show ?thesis using gs by (intro exI [of _ "slice start e ws # gs"]) auto
  qed
qed

lemma segment_loop_groups:
  "successively (joinable hold) seg \<Longrightarrow> (seg \<noteq> [] \<longrightarrow> \<not> ends_sentence (cw_text (last seg))) \<Longrightarrow>
     \<exists>gs. segment_loop U hold seg ws = map cue_of gs \<and> concat gs = seg @ ws \<and> (\<forall>g \<in> set gs. cue_group hold g)"
proof (induction ws arbitrary: seg)
  case Nil
  then show ?case using push_semantic_groups [of hold seg U 0] by simp
next
  case (Cons w ws)
  define flushed where "flushed = break_before hold seg w"
  define seg' where "seg' = (if flushed then [] else seg) @ [w]"
  obtain g1 where g1: "(if flushed then push_semantic_cues U seg 0 else []) = map cue_of g1" "concat g1 @ seg' = seg @ [w]" "\<forall>g \<in> set g1. cue_group hold g"
  proof (cases flushed)
    case True
    with push_semantic_groups [OF Cons.prems(1), of U 0] show ?thesis by (auto simp: seg'_def intro: that)
  next
    case False
    then show ?thesis by (intro that [of "[]"]) (simp_all add: seg'_def)
  qed
  have s': "successively (joinable hold) seg'"
    using Cons.prems by (auto simp: seg'_def flushed_def break_before_def joinable_def successively_append_iff)
  obtain g2 where g2: "(if ends_sentence (cw_text w) then push_semantic_cues U seg' 0 @ segment_loop U hold [] ws else segment_loop U hold seg' ws) = map cue_of g2"
    "concat g2 = seg' @ ws" "\<forall>g \<in> set g2. cue_group hold g"
  proof (cases "ends_sentence (cw_text w)")
    case True
    from push_semantic_groups [OF s', of U 0] Cons.IH [of "[]"] obtain ga gb where
      "push_semantic_cues U seg' 0 = map cue_of ga" "concat ga = seg'" "\<forall>g \<in> set ga. cue_group hold g"
      "segment_loop U hold [] ws = map cue_of gb" "concat gb = ws" "\<forall>g \<in> set gb. cue_group hold g" by auto
    with True show ?thesis by (intro that [of "ga @ gb"]) auto
  next
    case False
    then have "seg' \<noteq> [] \<longrightarrow> \<not> ends_sentence (cw_text (last seg'))" by (simp add: seg'_def)
    from Cons.IH [OF s' this] False show ?thesis by (auto intro: that)
  qed
  have "segment_loop U hold seg (w # ws) = map cue_of (g1 @ g2)"
    by (simp only: segment_loop.simps Let_def flushed_def [symmetric] seg'_def [symmetric] g1(1) g2(1) map_append)
  moreover have "concat (g1 @ g2) = seg @ w # ws" using g1(2) g2(2) by (metis append_assoc append_Cons append_Nil concat_append)
  ultimately show ?case using g1(3) g2(3) by (intro exI [of _ "g1 @ g2"]) auto
qed

lemma hold_cues_start: "map cue_start (hold_cues hold cs) = map cue_start cs"
  by (induction hold cs rule: hold_cues.induct) (simp_all add: Let_def)

lemma hold_cues_disjoint:
  "sorted (map cue_start cs) \<Longrightarrow> sorted_wrt (\<lambda>a b. cue_end a \<le> cue_start b) (hold_cues hold cs)"
proof (induction cs)
  case (Cons c cs)
  define stop where "stop = (case cs of [] \<Rightarrow> saturating_add_i64 (cue_end c) hold
    | following # _ \<Rightarrow> min (saturating_add_i64 (cue_end c) hold) (cue_start following))"
  have "stop \<le> cue_start b" if "b \<in> set (hold_cues hold cs)" for b
  proof -
    from that have "cue_start b \<in> set (map cue_start (hold_cues hold cs))" by simp
    then have "cue_start b \<in> set (map cue_start cs)" by (simp only: hold_cues_start)
    then obtain x xs where cs: "cs = x # xs" "cue_start x \<le> cue_start b" using Cons.prems by (cases cs) auto
    then show ?thesis by (simp add: stop_def min_le_iff_disj)
  qed
  moreover have "hold_cues hold (c # cs) = c\<lparr>cue_end := stop\<rparr> # hold_cues hold cs" by (simp add: Let_def stop_def)
  ultimately show ?case using Cons by simp
qed simp

lemma infer_starts: "map cw_start (infer_sentence_punctuation U ws) = map cw_start ws"
  by (induction U ws rule: infer_sentence_punctuation.induct) (simp_all add: punctuate_def Let_def)

lemma group_starts_sorted:
  "sorted (map cw_start (concat gs)) \<Longrightarrow> \<forall>g \<in> set gs. g \<noteq> [] \<Longrightarrow> sorted (map cue_start (map cue_of gs))"
proof (induction gs)
  case (Cons g gs)
  have "cw_start (hd g) \<le> cw_start (hd h)" if "h \<in> set gs" for h
  proof -
    have "hd h \<in> set h" "hd g \<in> set g" using that Cons.prems(2) by auto
    then have "hd h \<in> set (concat gs)" "hd g \<in> set g" using that by auto
    with Cons.prems(1) show ?thesis by (auto simp: sorted_append)
  qed
  with Cons show ?case by (auto simp: cue_of_def sorted_append)
qed simp

lemma caption_cues_spec:
  assumes "sorted (map tw_project_start words)"
  shows "\<exists>groups. concat groups = infer_sentence_punctuation U (concat (map caption_word_of words))
     \<and> (\<forall>g \<in> set groups. cue_group (half_second_frames fps) g)
     \<and> caption_cues U words fps = filter (\<lambda>c. cue_start c < cue_end c) (hold_cues (half_second_frames fps) (map cue_of groups))
     \<and> sorted_wrt (\<lambda>a b. cue_end a \<le> cue_start b) (caption_cues U words fps)"
proof -
  define hold where "hold = half_second_frames fps"
  define ws where "ws = infer_sentence_punctuation U (concat (map caption_word_of words))"
  from segment_loop_groups [of hold "[]" U ws] obtain gs where
    gs: "segment_loop U hold [] ws = map cue_of gs" "concat gs = ws" "\<forall>g \<in> set gs. cue_group hold g" by auto
  have "sorted (map cw_start (concat (map caption_word_of words)))"
    using assms by (induction words) (auto simp: caption_word_of_def Let_def sorted_append split: if_split_asm)
  then have "sorted (map cw_start (concat gs))" by (simp add: gs(2) ws_def infer_starts)
  from group_starts_sorted [OF this] gs(3) have "sorted (map cue_start (map cue_of gs))" by (auto simp: cue_group_def)
  from hold_cues_disjoint [OF this, of hold]
  have "sorted_wrt (\<lambda>a b. cue_end a \<le> cue_start b) (filter (\<lambda>c. cue_start c < cue_end c) (hold_cues hold (map cue_of gs)))"
    by (rule sorted_wrt_filter)
  moreover have cc: "caption_cues U words fps = filter (\<lambda>c. cue_start c < cue_end c) (hold_cues hold (map cue_of gs))"
    by (simp add: caption_cues_def Let_def hold_def [symmetric] ws_def [symmetric] gs(1))
  ultimately show ?thesis using gs by (intro exI [of _ gs]) (simp add: hold_def ws_def)
qed

section \<open>Time stamps\<close>

text \<open>Reading a time stamp back: hours up to the first colon, then two digits each and three for the milliseconds.\<close>

definition read_decimal :: "utext \<Rightarrow> int" where
  "read_decimal t = foldl (\<lambda>a c. 10 * a + (c - 48)) 0 t"

definition read_timestamp :: "utext \<Rightarrow> int" where
  "read_timestamp t =
     (let n = length t
      in read_decimal (take (n - 10) t) * 3600000 + read_decimal (take 2 (drop (n - 9) t)) * 60000
         + read_decimal (take 2 (drop (n - 6) t)) * 1000 + read_decimal (drop (n - 3) t))"

lemma ascii_digit: "n < 10 \<Longrightarrow> (of_char (char_of (48 + n :: nat)) :: int) = 48 + int n"
proof -
  assume n: "n < 10"
  have "(of_char (char_of (48 + n) :: char) :: int) = int (of_char (char_of (48 + n) :: char))" by (rule of_nat_of_char [symmetric])
  moreover have "of_char (char_of (48 + n) :: char) = 48 + n" using n by simp
  ultimately show ?thesis by (simp del: of_nat_of_char)
qed

lemma read_decimal_nat: "read_decimal (ascii (decimal_nat n)) = int n"
proof (induction n rule: decimal_nat.induct)
  case (1 n)
  show ?case
  proof (cases "n < 10")
    case True
    then show ?thesis by (simp add: decimal_nat.simps [of n] read_decimal_def ascii_def ascii_digit)
  next
    case False
    have m: "n mod 10 < 10" by simp
    have "int (10 * (n div 10) + n mod 10) = int n" by (simp only: mult_div_mod_eq)
    then have d: "10 * int (n div 10) + int (n mod 10) = int n" by (simp only: of_nat_add of_nat_mult of_nat_numeral)
    from 1 False show ?thesis
      by (simp add: decimal_nat.simps [of n] read_decimal_def ascii_def ascii_digit [OF m] d)
  qed
qed

lemma decimal_length:
  "n < 10 \<Longrightarrow> length (decimal_nat n) = 1" "n < 100 \<Longrightarrow> length (decimal_nat n) \<le> 2" "n < 1000 \<Longrightarrow> length (decimal_nat n) \<le> 3"
proof -
  show 1: "n < 10 \<Longrightarrow> length (decimal_nat n) = 1" for n by (simp add: decimal_nat.simps [of n])
  show 2: "n < 100 \<Longrightarrow> length (decimal_nat n) \<le> 2" for n
    using 1 [of "n div 10"] by (cases "n < 10") (simp_all add: decimal_nat.simps [of n])
  show "n < 1000 \<Longrightarrow> length (decimal_nat n) \<le> 3"
    using 2 [of "n div 10"] by (cases "n < 10") (simp_all add: decimal_nat.simps [of n])
qed

lemma read_padded: "0 \<le> n \<Longrightarrow> read_decimal (padded w n) = n"
proof -
  have "foldl (\<lambda>a c. 10 * a + (c - 48)) 0 (replicate k 48 @ t) = foldl (\<lambda>a c. 10 * a + (c - 48 :: int)) 0 t" for k t
    by (induction k) simp_all
  moreover assume "0 \<le> n"
  ultimately show ?thesis using read_decimal_nat [of "nat n"] by (simp add: padded_def Let_def read_decimal_def)
qed

lemma padded_length: "0 \<le> n \<Longrightarrow> n < 100 \<Longrightarrow> length (padded 2 n) = 2" "0 \<le> n \<Longrightarrow> n < 1000 \<Longrightarrow> length (padded 3 n) = 3"
  using decimal_length(2,3) [of "nat n"] by (simp_all add: padded_def Let_def ascii_def nat_less_iff)

lemma read_timestamp_parts:
  assumes "0 \<le> h" "0 \<le> m" "m < 60" "0 \<le> s" "s < 60" "0 \<le> r" "r < 1000" "length sep = 1"
  shows "read_timestamp (padded 2 h @ ascii '':'' @ padded 2 m @ ascii '':'' @ padded 2 s @ ascii sep @ padded 3 r)
     = h * 3600000 + m * 60000 + s * 1000 + r"
proof -
  have l: "length (padded 2 m) = 2" "length (padded 2 s) = 2" "length (padded 3 r) = 3" "length (ascii sep) = 1" "length (ascii '':'') = 1"
    using assms padded_length by (simp_all add: ascii_def)
  show ?thesis using assms by (simp add: read_timestamp_def Let_def l read_padded)
qed

lemma read_timestamp_ms:
  assumes "length sep = 1"
  shows "read_timestamp (timestamp frames fps sep) = max 0 (frame_milliseconds frames fps)"
proof -
  define ms where "ms = max 0 (frame_milliseconds frames fps)"
  define a b where "a = ms div 1000" and "b = a div 60"
  have q: "ms div 60000 = b" "ms div 3600000 = b div 60"
    using zdiv_zmult2_eq [of 60 ms 1000] zdiv_zmult2_eq [of 3600 ms 1000] zdiv_zmult2_eq [of 60 a 60] by (simp_all add: a_def b_def)
  have "ms = 1000 * a + ms mod 1000" "a = 60 * b + a mod 60" "b = 60 * (b div 60) + b mod 60" by (simp_all add: a_def b_def)
  then have "ms = b div 60 * 3600000 + b mod 60 * 60000 + a mod 60 * 1000 + ms mod 1000" by linarith
  then have "ms = ms div 3600000 * 3600000 + ms div 60000 mod 60 * 60000 + ms div 1000 mod 60 * 1000 + ms mod 1000"
    unfolding q a_def [symmetric] .
  moreover have "0 \<le> ms" by (simp add: ms_def)
  ultimately have "read_timestamp (padded 2 (ms div 3600000) @ ascii '':'' @ padded 2 (ms div 60000 mod 60) @ ascii '':''
      @ padded 2 (ms div 1000 mod 60) @ ascii sep @ padded 3 (ms mod 1000)) = ms"
    using read_timestamp_parts [OF _ _ _ _ _ _ _ assms, of "ms div 3600000" "ms div 60000 mod 60" "ms div 1000 mod 60" "ms mod 1000"]
    by (simp only: pos_imp_zdiv_nonneg_iff pos_mod_sign pos_mod_bound zero_less_numeral)
  then show ?thesis by (simp only: timestamp_def Let_def ms_def)
qed

lemma frame_milliseconds_exact:
  assumes "rate_ok fps" "0 \<le> frames" "frames \<le> i64_max"
  shows "frame_milliseconds frames fps = frames * 1000 * denominator fps div numerator fps"
proof -
  have d: "0 < denominator fps" "denominator fps \<le> u32_max" using assms(1) by (auto simp: rate_ok_def int_width_defs)
  have "frames * 1000 * denominator fps \<le> (i64_max * 1000) * u32_max" using assms d by (intro mult_mono) (simp_all add: int_width_defs)
  also have "\<dots> \<le> i128_max" by (simp add: int_width_defs)
  finally have hi: "frames * 1000 * denominator fps \<le> i128_max" .
  have f: "saturating_mul_i128 frames 1000 = frames * 1000" using assms by (simp add: saturating_mul_i128_def int_width_defs)
  have "i128_min \<le> 0" by (simp add: int_width_defs)
  moreover have "0 \<le> frames * 1000 * denominator fps" using assms d by simp
  ultimately have "saturating_mul_i128 (frames * 1000) (denominator fps) = frames * 1000 * denominator fps"
    using hi unfolding saturating_mul_i128_def by linarith
  with f have "saturating_mul_i128 (saturating_mul_i128 frames 1000) (denominator fps) = frames * 1000 * denominator fps" by simp
  then show ?thesis by (simp add: frame_milliseconds_def rate_ok_valid [OF assms(1)])
qed

section \<open>Properties\<close>

subsection \<open>A sample\<close>

definition sample_unicode :: unicode where
  "sample_unicode = \<lparr>is_alphabetic = (\<lambda>c. 65 \<le> c \<and> c \<le> 90 \<or> 97 \<le> c \<and> c \<le> 122), is_uppercase = (\<lambda>c. 65 \<le> c \<and> c \<le> 90)\<rparr>"

definition sample_script :: utext where
  "sample_script = ascii ''So it begins. We go on and on''"

definition sample_cues :: "utext caption_cue list" where
  "sample_cues = [\<lparr>cue_start = 0, cue_end = 40, cue_text = ascii ''so it begins we''\<rparr>,
     \<lparr>cue_start = 40, cue_end = 60, cue_text = ascii ''go on''\<rparr>, \<lparr>cue_start = 70, cue_end = 90, cue_text = ascii ''and on''\<rparr>]"

definition spoken_word :: "string \<Rightarrow> clip_id \<Rightarrow> timecode \<Rightarrow> timecode \<Rightarrow> timeline_transcript_word" where
  "spoken_word t c a b = \<lparr>tw_text = ascii t, tw_speaker = None, tw_asset = 1, tw_track = 1, tw_clip = c,
     tw_source_start = a, tw_source_end = b, tw_project_start = a, tw_project_end = b\<rparr>"

definition spoken_words :: "timeline_transcript_word list" where
  "spoken_words = [spoken_word ''hello'' 1 0 10, spoken_word ''there.'' 1 12 20, spoken_word ''so'' 1 22 30, spoken_word ''long'' 2 31 40]"

subsection \<open>Balanced boundaries\<close>

text \<open>
  Claim C21. \<^verbatim>\<open>semantic_boundaries\<close> is optimal: for at least one cue and one target per cue, and as many words as cues, the
  boundaries it returns cut the words into that many non-empty segments and cost no more than any other such cut (the
  saturating sum of the penalties for length, raggedness, distance from the targets and bad breaks); it refuses exactly
  when every cut costs at least the sentinel the code uses for unreachable cells.
\<close>

theorem semantic_boundaries_optimal:
  assumes "0 < cue_count" "cue_count \<le> length words" "length targets = cue_count"
  shows "case semantic_boundaries U words cue_count targets of
      Inr bs \<Rightarrow> \<exists>es. bs = 0 # es \<and> boundaries_to cue_count (length words) es \<and> boundary_cost U words cue_count targets es < unreachable
                \<and> (\<forall>es'. boundaries_to cue_count (length words) es' \<longrightarrow>
                     boundary_cost U words cue_count targets es \<le> boundary_cost U words cue_count targets es')
    | Inl e \<Rightarrow> e = AuthoredScriptAlignment \<and> (\<forall>es'. boundaries_to cue_count (length words) es' \<longrightarrow> unreachable \<le> boundary_cost U words cue_count targets es')"
  using assms by (rule semantic_boundaries_best)

theorem semantic_boundaries_optimal_witness:
  "\<exists>es. semantic_boundaries sample_unicode (split_whitespace sample_script) 2 [3, 8] = Inr (0 # es)
     \<and> (\<forall>es'. boundaries_to 2 8 es' \<longrightarrow> boundary_cost sample_unicode (split_whitespace sample_script) 2 [3, 8] es
          \<le> boundary_cost sample_unicode (split_whitespace sample_script) 2 [3, 8] es')"
proof -
  have l: "length (split_whitespace sample_script) = 8" by code_simp
  have "semantic_boundaries sample_unicode (split_whitespace sample_script) 2 [3, 8] = Inr [0, 3, 8]" by code_simp
  with semantic_boundaries_optimal [of 2 "split_whitespace sample_script" "[3, 8]" sample_unicode] show ?thesis by (auto simp: l)
qed

subsection \<open>Re-authoring\<close>

text \<open>
  Claim C20. Re-authoring is total and exact. For a script of at most 65536 characters \<^verbatim>\<open>authored_caption_cues\<close> never
  panics and fails exactly when there are no cues, no words, fewer words than cues, more sentences than cues or no word
  in any cue, with the error of that case; otherwise every cue keeps its timing, the texts of the cues hold the words of
  the script in order with none lost or repeated, no text is empty, and no text runs over the end of a sentence.
\<close>

theorem authored_caption_cues_exact:
  assumes "length script \<le> 2 ^ 16"
  shows "case authored_error cues (split_whitespace script) of
      Some e \<Rightarrow> authored_caption_cues U cues script = Some (Inl e)
    | None \<Rightarrow> \<exists>out. authored_caption_cues U cues script = Some (Inr out) \<and> authored_ok cues (split_whitespace script) out"
  using assms by (rule authored_cues_spec)

theorem authored_caption_cues_exact_witness:
  "\<exists>out. authored_caption_cues sample_unicode sample_cues sample_script = Some (Inr out)
     \<and> authored_ok sample_cues (split_whitespace sample_script) out"
proof -
  have "length sample_script \<le> 2 ^ 16" by (simp add: sample_script_def ascii_def)
  moreover have "authored_error sample_cues (split_whitespace sample_script) = None" by code_simp
  ultimately show ?thesis using authored_caption_cues_exact [where script = sample_script and cues = sample_cues and U = sample_unicode] by simp
qed

subsection \<open>Cues from a transcript\<close>

text \<open>
  Claim C22. Cues hold the words they are built from: for timeline words in order of their start, \<^verbatim>\<open>caption_cues\<close> cuts the
  punctuated words into consecutive groups, each of one word or of at most 48 characters and never across a sentence end,
  a change of clip, asset or speaker, or a pause longer than half a second; each group becomes one cue over its time, held for
  up to half a second, and the cues returned are those of positive length, disjoint and in order of time.
\<close>

theorem caption_cues_group_words:
  assumes "sorted (map tw_project_start words)"
  shows "\<exists>groups. concat groups = infer_sentence_punctuation U (concat (map caption_word_of words))
     \<and> (\<forall>g \<in> set groups. cue_group (half_second_frames fps) g)
     \<and> caption_cues U words fps = filter (\<lambda>c. cue_start c < cue_end c) (hold_cues (half_second_frames fps) (map cue_of groups))
     \<and> sorted_wrt (\<lambda>a b. cue_end a \<le> cue_start b) (caption_cues U words fps)"
  using assms by (rule caption_cues_spec)

theorem caption_cues_group_words_witness:
  "sorted_wrt (\<lambda>a b. cue_end a \<le> cue_start b) (caption_cues sample_unicode spoken_words rational_default)
     \<and> map cue_end (caption_cues sample_unicode spoken_words rational_default) = [22, 31, 55]"
proof -
  have "sorted (map tw_project_start spoken_words)" by code_simp
  moreover have "map cue_end (caption_cues sample_unicode spoken_words rational_default) = [22, 31, 55]" by code_simp
  ultimately show ?thesis using caption_cues_group_words [of spoken_words sample_unicode rational_default] by blast
qed

subsection \<open>Time stamps\<close>

text \<open>
  Claim C40. A subtitle time stamp is exact: for every valid rate and every frame the hours, minutes, seconds and
  milliseconds that are printed (two digits and three digits, more for the hours) read back as the whole milliseconds
  up to the frame, computed without saturation.
\<close>

theorem timestamp_roundtrip:
  assumes "rate_ok fps" "0 \<le> frames" "frames \<le> i64_max" "length separator = 1"
  shows "read_timestamp (timestamp frames fps separator) = frames * 1000 * denominator fps div numerator fps"
proof -
  have "0 < numerator fps" "0 < denominator fps" using assms(1) by (simp_all add: rate_ok_def)
  then have "0 \<le> frames * 1000 * denominator fps div numerator fps" using assms(2) by (simp add: pos_imp_zdiv_nonneg_iff)
  then show ?thesis by (simp add: read_timestamp_ms [OF assms(4)] frame_milliseconds_exact [OF assms(1-3)])
qed

theorem timestamp_roundtrip_witness:
  "read_timestamp (timestamp 1000000 \<lparr>numerator = 30000, denominator = 1001\<rparr> '','') = 33366666
     \<and> timestamp 1000000 \<lparr>numerator = 30000, denominator = 1001\<rparr> '','' = ascii ''09:16:06,666''"
proof -
  have "timestamp 1000000 \<lparr>numerator = 30000, denominator = 1001\<rparr> '','' = ascii ''09:16:06,666''" by code_simp
  moreover have "rate_ok \<lparr>numerator = 30000, denominator = 1001\<rparr>" "(1000000 :: int) \<le> i64_max" by (simp_all add: rate_ok_def int_width_defs)
  ultimately show ?thesis using timestamp_roundtrip [of "\<lparr>numerator = 30000, denominator = 1001\<rparr>" 1000000 "'',''"] by simp
qed

end
