(* ===== verification/Track_Growth.thy ===== *)
theory Track_Growth
  imports Operation
begin

text \<open>
  Growth of an accepted document: a new track at the end, filled in order. What validation says of the rest of the
  document does not depend on the new track or on a longer project, so the grown document is accepted when the new
  track's own clips are. The operations that build such a track (add it, add a title at its end, add an effect to its
  last clip) are computed exactly.
\<close>

section \<open>Checks that ignore the tracks\<close>

definition with_tracks :: "track list \<Rightarrow> timecode \<Rightarrow> document \<Rightarrow> document" where
  "with_tracks ts d doc = doc\<lparr>tracks := ts, doc_duration := d\<rparr>"

lemma with_tracks_frame [simp]:
  "tracks (with_tracks ts d doc) = ts" "doc_duration (with_tracks ts d doc) = d"
  "media_pool (with_tracks ts d doc) = media_pool doc" "doc_fps (with_tracks ts d doc) = doc_fps doc"
  "resolution (with_tracks ts d doc) = resolution doc" "color_context (with_tracks ts d doc) = color_context doc"
  "lut_assets (with_tracks ts d doc) = lut_assets doc" "catalog (with_tracks ts d doc) = catalog doc"
  "markers (with_tracks ts d doc) = markers doc" "audio_mix (with_tracks ts d doc) = audio_mix doc"
  "with_tracks ts d (with_tracks ts' d' doc) = with_tracks ts d doc"
  by (simp_all add: with_tracks_def)

lemma with_tracks_lookups [simp]:
  "doc_asset (with_tracks ts d doc) = doc_asset doc" "doc_lut_asset (with_tracks ts d doc) = doc_lut_asset doc"
  "clip_duration (with_tracks ts d doc) = clip_duration doc"
  by (simp_all add: fun_eq_iff doc_asset_def doc_lut_asset_def clip_duration_def)

lemma with_tracks_ends [simp]:
  "clip_end (with_tracks ts d doc) = clip_end doc" "clip_stop (with_tracks ts d doc) = clip_stop doc"
  "clips_disjoint (with_tracks ts d doc) = clips_disjoint doc"
  by (simp_all add: fun_eq_iff clip_end_def clip_stop_def clips_disjoint_def)

lemma with_tracks_clip_checks [simp]:
  "validate_lut_node_references (with_tracks ts d doc) = validate_lut_node_references doc"
  "validate_transition (with_tracks ts d doc) = validate_transition doc"
  "validate_clip_audio (with_tracks ts d doc) = validate_clip_audio doc"
  "validate_clip_content (with_tracks ts d doc) = validate_clip_content doc"
  unfolding validate_lut_node_references_def validate_transition_def validate_clip_audio_def validate_clip_content_def
    fun_eq_iff with_tracks_lookups by simp_all

lemma with_tracks_effect_check [simp]: "validate_clip_effect (with_tracks ts d doc) = validate_clip_effect doc"
  unfolding validate_clip_effect_def fun_eq_iff with_tracks_clip_checks by simp

lemma with_tracks_clip_body [simp]: "validate_clip_body (with_tracks ts d doc) = validate_clip_body doc"
  unfolding validate_clip_body_def fun_eq_iff with_tracks_clip_checks with_tracks_effect_check with_tracks_lookups by simp

lemma with_tracks_catalog [simp]: "validate_catalog (with_tracks ts d doc) = validate_catalog doc"
proof -
  have b: "validate_bin_assets (with_tracks ts d doc) i seen owned as = validate_bin_assets doc i seen owned as" for doc i seen owned as
    by (induction doc i seen owned as rule: validate_bin_assets.induct) (simp_all split: option.split)
  have bs: "validate_bins (with_tracks ts d doc) seen owned bs = validate_bins doc seen owned bs" for seen owned bs
    by (induction doc seen owned bs rule: validate_bins.induct) (simp_all add: b cong: rbind_cong)
  have ms: "validate_members (with_tracks ts d doc) g seen ms = validate_members doc g seen ms" for g seen ms
    by (induction doc g seen ms rule: validate_members.induct) simp_all
  show ?thesis unfolding validate_catalog_def bs ms with_tracks_frame with_tracks_lookups by simp
qed

lemma with_tracks_clips [simp]: "validate_clips (with_tracks ts d doc) tr cs prev st = validate_clips doc tr cs prev st"
  by (induction doc tr cs prev st rule: validate_clips.induct) (simp_all cong: rbind_cong)

lemma with_tracks_tracks [simp]: "validate_tracks (with_tracks ts d doc) trs tids st = validate_tracks doc trs tids st"
  by (induction doc trs tids st rule: validate_tracks.induct) (simp_all cong: rbind_cong)

section \<open>Checks that allow more tracks and a longer project\<close>

definition outgrows :: "document \<Rightarrow> track list \<Rightarrow> timecode \<Rightarrow> bool" where
  "outgrows doc ts d \<longleftrightarrow> doc_duration doc \<le> d \<and> track_id ` set (tracks doc) \<subseteq> track_id ` set ts"

lemma project_frame_longer: "project_frame_in_range t d \<Longrightarrow> d \<le> d' \<Longrightarrow> project_frame_in_range t d'"
  by (auto simp: project_frame_in_range_def)

lemma track_exists_grown: "outgrows doc ts d \<Longrightarrow> track_exists doc t \<Longrightarrow> track_exists (with_tracks ts d doc) t"
  by (force simp: outgrows_def track_exists_def list_ex_iff image_subset_iff image_iff)

lemma track_mix_automation_longer:
  "validate_track_mix_automation e d = Inr () \<Longrightarrow> d \<le> d' \<Longrightarrow> validate_track_mix_automation e d' = Inr ()"
  by (auto simp: validate_track_mix_automation_def rbind_eq_Inr project_frame_longer split: option.split_asm if_split_asm)

lemma track_mix_loop_grown:
  "validate_track_mix_loop doc prev es = Inr () \<Longrightarrow> outgrows doc ts d \<Longrightarrow> validate_track_mix_loop (with_tracks ts d doc) prev es = Inr ()"
proof (induction doc prev es rule: validate_track_mix_loop.induct)
  case (2 doc prev e es)
  then show ?case
    by (auto simp: rbind_eq_Inr track_exists_grown outgrows_def intro: track_mix_automation_longer split: if_split_asm)
qed simp

lemma fader_curve_longer:
  "validate_audio_fader_curve c d lo hi = Inr () \<Longrightarrow> d \<le> d' \<Longrightarrow> validate_audio_fader_curve c d' lo hi = Inr ()"
  by (auto simp: validate_audio_fader_curve_def rbind_eq_Inr project_frame_longer split: if_split_asm)

lemma chain_automation_longer:
  "validate_audio_chain_automation d chain e = Inr () \<Longrightarrow> d \<le> d' \<Longrightarrow> validate_audio_chain_automation d' chain e = Inr ()"
  by (fastforce simp: validate_audio_chain_automation_def rbind_eq_Inr project_frame_longer split: if_split_asm)

lemma audio_master_grown:
  "validate_audio_master doc m = Inr () \<Longrightarrow> outgrows doc ts d \<Longrightarrow> validate_audio_master (with_tracks ts d doc) m = Inr ()"
  by (fastforce simp: validate_audio_master_def rbind_eq_Inr outgrows_def fader_curve_longer chain_automation_longer
      split: if_split_asm option.split_asm)

lemma audio_bus_grown:
  "validate_audio_bus doc b = Inr () \<Longrightarrow> outgrows doc ts d \<Longrightarrow> validate_audio_bus (with_tracks ts d doc) b = Inr ()"
  by (fastforce simp: validate_audio_bus_def rbind_eq_Inr track_exists_grown outgrows_def fader_curve_longer
      chain_automation_longer split: if_split_asm option.split_asm)

lemma buses_grown:
  "validate_buses doc seen routed bs = Inr () \<Longrightarrow> outgrows doc ts d \<Longrightarrow> validate_buses (with_tracks ts d doc) seen routed bs = Inr ()"
proof (induction doc seen routed bs rule: validate_buses.induct)
  case (2 doc seen routed b bs)
  then show ?case by (auto simp: rbind_eq_Inr audio_bus_grown split: if_split_asm)
qed simp

section \<open>A new track\<close>

lemma validate_clips_intro:
  assumes "distinct (map clip_id cs)" "set seen \<inter> clip_id ` set cs = {}"
    "\<forall>c \<in> set cs. validate_clip_body doc tr c = Inr (clip_stop doc c)" "clips_disjoint doc cs"
    "\<forall>p e. prev = Some (p, e) \<longrightarrow> (\<forall>c \<in> set cs. timeline_start p \<le> timeline_start c \<and> e \<le> timeline_start c)"
  shows "\<exists>seen'. validate_clips doc tr cs prev (seen, expd) = Inr (seen', fold (\<lambda>c. max (clip_stop doc c)) cs expd)"
  using assms
proof (induction cs arbitrary: prev seen expd)
  case (Cons c cs)
  have b: "validate_clip_body doc tr c = Inr (clip_stop doc c)" using Cons.prems(3) by simp
  have later: "\<forall>c' \<in> set cs. timeline_start c \<le> timeline_start c' \<and> clip_stop doc c \<le> timeline_start c'"
    using Cons.prems(4) validate_clip_body_end(3) [OF b] by (fastforce simp: clips_disjoint_def)
  have "\<exists>seen'. validate_clips doc tr cs (Some (c, clip_stop doc c)) (clip_id c # seen, max expd (clip_stop doc c))
      = Inr (seen', fold (\<lambda>c. max (clip_stop doc c)) cs (max expd (clip_stop doc c)))"
    using Cons.prems later by (intro Cons.IH) (auto simp: clips_disjoint_def)
  then show ?case
    using b Cons.prems(2,5) by (auto simp: max.commute [of "clip_stop doc c" expd] not_less split: option.split)
qed simp

lemma validate_tracks_snoc:
  "validate_tracks doc trs tids st = Inr st' \<Longrightarrow> track_id t \<notin> set tids \<union> track_id ` set trs \<Longrightarrow>
     validate_tracks doc (trs @ [t]) tids st = validate_clips doc t (clips t) None st'"
proof (induction doc trs tids st rule: validate_tracks.induct)
  case (1 doc tids st)
  then show ?case by (cases "validate_clips doc t (clips t) None st") simp_all
next
  case (2 doc tr trs tids st)
  then obtain st1 where "validate_clips doc tr (clips tr) None st = Inr st1" "track_id tr \<notin> set tids"
    "validate_tracks doc trs (track_id tr # tids) st1 = Inr st'"
    by (auto simp: rbind_eq_Inr split: if_split_asm)
  with 2 show ?case by auto
qed

lemma validate_tracks_seen:
  "validate_tracks doc trs tids (seen, expd) = Inr (seen', expd') \<Longrightarrow>
     set seen' = set seen \<union> clip_id ` set (concat (map clips trs))"
proof (induction trs arbitrary: tids seen expd)
  case (Cons tr trs)
  from Cons.prems obtain s1 e1 where first: "validate_clips doc tr (clips tr) None (seen, expd) = Inr (s1, e1)"
    and rest: "validate_tracks doc trs (track_id tr # tids) (s1, e1) = Inr (seen', expd')"
    by (auto simp: rbind_eq_Inr split: if_splits)
  show ?case using validate_clips_ok [OF first] Cons.IH [OF rest] by auto
qed simp

definition new_track_ok :: "document \<Rightarrow> track \<Rightarrow> bool" where
  "new_track_ok doc t \<longleftrightarrow> track_id t \<notin> track_id ` set (tracks doc) \<and> distinct (map clip_id (clips t))
     \<and> clip_id ` set (clips t) \<inter> clip_id ` set (all_clips doc) = {}
     \<and> (\<forall>c \<in> set (clips t). validate_clip_body doc t c = Inr (clip_stop doc c)) \<and> clips_disjoint doc (clips t)"

definition grown :: "document \<Rightarrow> track \<Rightarrow> document" where
  "grown doc t = with_tracks (tracks doc @ [t]) (fold (\<lambda>c. max (clip_stop doc c)) (clips t) (doc_duration doc)) doc"

lemma grown_frame [simp]:
  "tracks (grown doc t) = tracks doc @ [t]" "media_pool (grown doc t) = media_pool doc" "doc_fps (grown doc t) = doc_fps doc"
  "audio_mix (grown doc t) = audio_mix doc" "markers (grown doc t) = markers doc" "catalog (grown doc t) = catalog doc"
  "lut_assets (grown doc t) = lut_assets doc" "resolution (grown doc t) = resolution doc" "color_context (grown doc t) = color_context doc"
  by (simp_all add: grown_def)

lemma grown_checks [simp]:
  "clip_duration (grown doc t) = clip_duration doc" "clip_stop (grown doc t) = clip_stop doc"
  "validate_lut_node_references (grown doc t) = validate_lut_node_references doc"
  by (simp_all add: grown_def)

lemma validated_seen:
  "validate_tracks doc (tracks doc) [] ([], 0) = Inr (seen, d) \<Longrightarrow> set seen = clip_id ` set (all_clips doc)"
  using validate_tracks_seen [of doc "tracks doc" "[]" "[]" 0 seen d] by (simp add: all_clips_def)

lemma validated_timeline_ends:
  assumes "validate_document doc = Inr ()" "c \<in> set (all_clips doc)"
  shows "clip_end doc c = Inr (clip_stop doc c)" "0 \<le> timeline_start c" "timeline_start c < clip_stop doc c"
proof -
  obtain tr where "tr \<in> set (tracks doc)" "c \<in> set (clips tr)" using assms(2) by (auto simp: all_clips_concat)
  from validate_clip_body_end [OF validated_clip [OF assms(1) this]]
  show "clip_end doc c = Inr (clip_stop doc c)" "0 \<le> timeline_start c" "timeline_start c < clip_stop doc c" by simp_all
qed

lemma grown_valid:
  assumes "valid_document doc" "new_track_ok doc t"
  shows "valid_document (grown doc t)"
proof -
  have v: "validate_document doc = Inr ()" using assms(1) by (simp add: valid_document_def)
  note parts = validate_document_parts [OF v]
  obtain seen where seen: "validate_tracks doc (tracks doc) [] ([], 0) = Inr (seen, doc_duration doc)" using parts(7) by blast
  then have ids: "set seen \<inter> clip_id ` set (clips t) = {}"
    using validated_seen assms(2) by (simp add: new_track_ok_def Int_commute)
  obtain seen' where "validate_clips doc t (clips t) None (seen, doc_duration doc)
      = Inr (seen', fold (\<lambda>c. max (clip_stop doc c)) (clips t) (doc_duration doc))"
    using validate_clips_intro [of "clips t" seen doc t None "doc_duration doc"] ids assms(2) by (auto simp: new_track_ok_def)
  then have tr: "validate_tracks doc (tracks doc @ [t]) [] ([], 0)
      = Inr (seen', fold (\<lambda>c. max (clip_stop doc c)) (clips t) (doc_duration doc))"
    using validate_tracks_snoc [OF seen, of t] assms(2) by (simp add: new_track_ok_def)
  have out: "outgrows doc (tracks doc @ [t]) (fold (\<lambda>c. max (clip_stop doc c)) (clips t) (doc_duration doc))"
    by (auto simp: outgrows_def intro: fold_max_ge)
  have mix: "validate_track_mix (grown doc t) = Inr ()"
    using track_mix_loop_grown [OF _ out] parts(9) by (simp add: validate_track_mix_def grown_def)
  have audio: "validate_audio_mix (grown doc t) = Inr ()"
    using buses_grown [OF _ out] audio_master_grown [OF _ out] parts(10) by (simp add: validate_audio_mix_def grown_def rbind_eq_Inr)
  show ?thesis
    using v tr mix audio by (auto simp: valid_document_def validate_document_def rbind_eq_Inr seen grown_def split: if_split_asm)
qed

text \<open>An operation that gives the grown tracks is a step to the grown document.\<close>

lemma grown_longest_end:
  assumes "valid_document doc" "new_track_ok doc t"
  shows "longest_end (with_tracks (tracks doc @ [t]) d doc) = Inr (doc_duration (grown doc t))"
proof -
  have v: "validate_document doc = Inr ()" using assms(1) by (simp add: valid_document_def)
  have "\<forall>c \<in> set (all_clips doc @ clips t). clip_end doc c = Inr (clip_stop doc c)"
    using validated_timeline_ends [OF v] assms(2) by (auto simp: new_track_ok_def dest: validate_clip_body_end(1))
  then show ?thesis
    using longest_end_fold [of "all_clips doc @ clips t" doc 0] validated_duration [OF v]
    by (simp add: longest_end_def all_clips_def grown_def)
qed

lemma apply_step_grown:
  assumes "valid_document doc" "new_track_ok doc t"
    and "apply_unchecked op candidate = Inr (with_tracks (tracks doc @ [t]) d doc)" "d \<le> doc_duration (grown doc t)"
  shows "apply_step op candidate = Inr (grown doc t)"
proof -
  have "recompute_duration (with_tracks (tracks doc @ [t]) d doc) = Inr (grown doc t)"
    using grown_longest_end [OF assms(1,2), of d] assms(4)
    by (simp add: recompute_duration_def Let_def) (simp add: grown_def with_tracks_def)
  then show ?thesis
    using assms(3) grown_valid [OF assms(1,2)] by (simp add: apply_step_def valid_document_def)
qed

section \<open>Building the track\<close>

lemma notin_image_iff: "x \<notin> f ` A \<longleftrightarrow> (\<forall>y \<in> A. f y \<noteq> x)"
  by auto

lemma step_add_track:
  assumes "valid_document doc" "track_id t \<notin> track_id ` set (tracks doc)" "clips t = []"
  shows "apply_step (AddTrack t) doc = Inr (grown doc t)"
proof (rule apply_step_grown [OF assms(1), where d = "doc_duration doc"])
  show "new_track_ok doc t" using assms(2,3) by (simp add: new_track_ok_def clips_disjoint_def)
  show "apply_unchecked (AddTrack t) doc = Inr (with_tracks (tracks doc @ [t]) (doc_duration doc) doc)"
    using assms(2,3) by (auto simp: apply_unchecked_def add_track_def with_tracks_def list_ex_iff notin_image_iff)
qed (simp add: grown_def assms(3))

lemma new_track_find:
  "new_track_ok doc t \<Longrightarrow> find_track (grown doc t) (track_id t) = Inr (length (tracks doc))"
  by (auto simp: find_track_def new_track_ok_def nth_append notin_image_iff intro!: position_eq_SomeI)

lemma new_track_sorted:
  assumes "new_track_ok doc t"
  shows "sort_clips (clips t) = clips t"
proof -
  have body: "\<forall>c \<in> set (clips t). timeline_start c < clip_stop doc c"
    using assms validate_clip_body_end(3) by (fastforce simp: new_track_ok_def)
  have "sorted_wrt (\<lambda>a b. clip_stop doc a \<le> timeline_start b) (clips t)" using assms by (simp add: new_track_ok_def clips_disjoint_def)
  then have "sorted_wrt (\<lambda>a b. (timeline_start a, clip_id a) \<le> (timeline_start b, clip_id b)) (clips t)"
    by (rule sorted_wrt_mono_rel [rotated]) (use body in \<open>fastforce simp: less_eq_prod_def\<close>)
  then show ?thesis by (simp add: sort_clips_def sort_key_id_if_sorted sorted_map)
qed

lemma fold_duration_le: "fold (\<lambda>c. max (f c)) cs (d :: int) \<le> fold (\<lambda>c. max (f c)) (cs @ [c]) d"
  by simp

lemma step_add_title:
  assumes "valid_document doc" "new_track_ok doc (t\<lparr>clips := cs\<rparr>)" "new_track_ok doc (t\<lparr>clips := cs @ [c]\<rparr>)"
    and "track_kind t = TrackVideo" "next_clip_id (grown doc (t\<lparr>clips := cs\<rparr>)) = Inr i" "0 \<le> start" "0 < d"
    and "validate_title i ttl d = Inr ()" "c = fresh_clip i 0 (rng 0 d) (Title_Content ttl) start []"
  shows "apply_step (AddTitle (track_id t) start d ttl) (grown doc (t\<lparr>clips := cs\<rparr>)) = Inr (grown doc (t\<lparr>clips := cs @ [c]\<rparr>))"
proof (rule apply_step_grown [OF assms(1,3)])
  let ?g = "grown doc (t\<lparr>clips := cs\<rparr>)"
  have f: "find_track ?g (track_id t) = Inr (length (tracks doc))" using new_track_find [OF assms(2)] by simp
  have p: "push_clip (length (tracks doc)) c ?g = with_tracks (tracks doc @ [t\<lparr>clips := cs @ [c]\<rparr>]) (doc_duration ?g) doc"
    using new_track_sorted [OF assms(3)]
    by (simp add: push_clip_def upd_clips_def upd_track_def nth_append grown_def with_tracks_def)
  have "add_title ?g (track_id t) start d ttl = Inr (push_clip (length (tracks doc)) c ?g)"
    using assms(4-8) by (simp add: add_title_def f nth_append not_less not_le assms(9))
  then show "apply_unchecked (AddTitle (track_id t) start d ttl) ?g
      = Inr (with_tracks (tracks doc @ [t\<lparr>clips := cs @ [c]\<rparr>]) (doc_duration ?g) doc)"
    by (simp add: apply_unchecked_def p)
  show "doc_duration ?g \<le> doc_duration (grown doc (t\<lparr>clips := cs @ [c]\<rparr>))" by (simp add: grown_def)
qed

lemma refused_title:
  assumes "new_track_ok doc (t\<lparr>clips := cs\<rparr>)" "track_kind t = TrackVideo" "next_clip_id (grown doc (t\<lparr>clips := cs\<rparr>)) = Inr i"
    and "0 \<le> start" "0 < d" "validate_title i ttl d = Inl e"
  shows "apply_step (AddTitle (track_id t) start d ttl) (grown doc (t\<lparr>clips := cs\<rparr>)) = Inl e"
  using new_track_find [OF assms(1)] assms(2-6)
  by (simp add: apply_step_def apply_unchecked_def add_title_def nth_append)

lemma find_clip_skip:
  "i \<notin> clip_id ` set (concat (map clips trs)) \<Longrightarrow> find_clip_loop i n (trs @ rest) = find_clip_loop i (n + length trs) rest"
proof (induction trs arbitrary: n)
  case (Cons tr trs)
  then have p: "position (\<lambda>c. clip_id c = i) (clips tr) = None" and r: "i \<notin> clip_id ` set (concat (map clips trs))" by auto
  from Cons.IH [OF r] show ?case by (simp add: p del: position_None)
qed simp

lemma new_track_find_clip:
  assumes "new_track_ok doc (t\<lparr>clips := cs @ [c]\<rparr>)"
  shows "find_clip (grown doc (t\<lparr>clips := cs @ [c]\<rparr>)) (clip_id c) = Inr (length (tracks doc), length cs)"
proof -
  have "clip_id c \<notin> clip_id ` set (concat (map clips (tracks doc)))"
    using assms by (auto simp: new_track_ok_def all_clips_def)
  moreover have "position (\<lambda>x. clip_id x = clip_id c) (cs @ [c]) = Some (length cs)"
    using assms by (intro position_eq_SomeI) (auto simp: new_track_ok_def nth_append notin_image_iff)
  ultimately show ?thesis by (simp add: find_clip_def find_clip_skip)
qed

text \<open>An effect that leaves the last clip valid is accepted; its name is none of those that are renamed on entry.\<close>

lemma step_add_effect:
  fixes e :: effect
  defines "c' \<equiv> \<lambda>c. c\<lparr>effects := effects c @ [e]\<rparr>"
  assumes "valid_document doc" "new_track_ok doc (t\<lparr>clips := cs @ [c]\<rparr>)" "new_track_ok doc (t\<lparr>clips := cs @ [c' c]\<rparr>)"
    and "effect_canonicalize_legacy_name e = e"
  shows "apply_step (AddEffect (clip_id c) e) (grown doc (t\<lparr>clips := cs @ [c]\<rparr>)) = Inr (grown doc (t\<lparr>clips := cs @ [c' c]\<rparr>))"
proof (rule apply_step_grown [OF assms(2,4)])
  let ?g = "grown doc (t\<lparr>clips := cs @ [c]\<rparr>)"
  have at: "clip_at ?g (length (tracks doc)) (length cs) = c" by (simp add: clip_at_def nth_append)
  have dur: "clip_duration doc (c' c) = clip_duration doc c" by (simp add: c'_def clip_duration_def clip_effective_fps_def)
  have "validate_clip_body doc (t\<lparr>clips := cs @ [c' c]\<rparr>) (c' c) = Inr (clip_stop doc (c' c))"
    using assms(4) by (simp add: new_track_ok_def)
  then obtain d where d: "clip_duration doc c = Inr d"
    and e: "validate_clip_effect doc (c' c) d e = Inr ()" "effect_id e \<notin> effect_id ` set (effects c)"
    and n: "managed_color_node_count (effects c @ [e]) \<le> COLOR_NODE_LIMIT_PER_LAYER"
      "lut_node_count (effects c @ [e]) \<le> LUT_NODE_LIMIT_PER_LAYER" "color_stage_order_violation_of (effects c @ [e]) = None"
    unfolding validate_clip_body_def rbind_eq_Inr dur
    by (auto simp: rbind_eq_Inr not_less c'_def split: if_split_asm option.split_asm)
  have ids: "clip_id (c' c) = clip_id c" by (simp add: c'_def)
  have ce: "validate_effect e = Inr ()" "\<not> is_audio_effect (effect_name e)" "validate_color_curve_points e = Inr ()"
      "validate_effect_automation (clip_id c) d e = Inr ()" "validate_lut_node_references doc (clip_id c) e = Inr ()"
    using e(1) by (auto simp: validate_clip_effect_def rbind_eq_Inr ids split: if_split_asm)
  have "color_stage_order_violation_over (prospective_color_nodes (effects c) (length (effects c)) e) = None"
    using prospective_nodes_match_validator [of "length (effects c)" "effects c" e, OF order_refl, THEN conjunct2] n(3) by (simp add: insert_at_def)
  then have ins: "insert_effect ?g (clip_id c) None e
      = Inr (upd_clip (length (tracks doc)) (length cs) (\<lambda>x. x\<lparr>effects := insert_at (length (effects c)) e (effects x)\<rparr>) ?g)"
    using new_track_find_clip [OF assms(3)] ce d e(2) n(1,2)
    by (auto simp: insert_effect_def at Let_def list_ex_iff managed_color_node_count_def lut_node_count_def notin_image_iff)
  show "apply_unchecked (AddEffect (clip_id c) e) ?g = Inr (with_tracks (tracks doc @ [t\<lparr>clips := cs @ [c' c]\<rparr>]) (doc_duration ?g) doc)"
    using ins assms(5)
    by (simp add: apply_unchecked_def add_effect_def upd_clip_def upd_clips_def upd_track_def nth_append grown_def with_tracks_def insert_at_def c'_def)
  have "clip_stop doc (c' c) = clip_stop doc c" by (simp add: clip_stop_def clip_end_def dur) (simp add: c'_def)
  then show "doc_duration ?g \<le> doc_duration (grown doc (t\<lparr>clips := cs @ [c' c]\<rparr>))" by (simp add: grown_def)
qed

end
