(* ===== verification/Caption_Plan.thy ===== *)
theory Caption_Plan
  imports Captions Track_Growth
begin

text \<open>
  The caption track of \<^verbatim>\<open>crates/kinewright-core/src/captions.rs\<close>: one batch that adds a video track, a title for
  every cue and, when asked for, opacity and transform curves on each title. Clip ids are predicted, so that the
  effects can name the titles that the same batch creates. The lemmas run the batch step by step on an accepted
  document.
\<close>

section \<open>Definitions\<close>

datatype caption_motion = NoMotion | Fade | Pop | SlideUp

definition caption_keyframe :: "timecode \<Rightarrow> int \<Rightarrow> keyframe_interpolation \<Rightarrow> keyframe" where
  "caption_keyframe at v interpolation =
     \<lparr>key_at = at, key_value = v, key_interpolation = interpolation, tangent_in = 0, tangent_out = 0\<rparr>"

definition dedup_keyframes :: "keyframe list \<Rightarrow> automation_curve" where
  "dedup_keyframes ks = \<lparr>keyframes = bt_values (fold (\<lambda>k. bt_insert (key_at k) k) ks [])\<rparr>"

text \<open>The effect literals; a \<^verbatim>\<open>BTreeMap\<close> literal is its sorted list.\<close>

definition caption_effect :: "effect_id \<Rightarrow> string \<Rightarrow> (string, param_value) btree \<Rightarrow> string \<Rightarrow> automation_curve \<Rightarrow> effect" where
  "caption_effect i name params parameter curve =
     \<lparr>effect_id = i, effect_name = name, parameters = params, effect_keyframes = [(parameter, curve)],
      effect_enabled = True, effect_enabled_curve = None\<rparr>"

definition motion_effects :: "timecode \<Rightarrow> caption_motion \<Rightarrow> effect list" where
  "motion_effects duration motion =
     (if motion = NoMotion \<or> duration \<le> 1 then []
      else let final = saturating_sub_i64 duration 1;
               entrance = min (max 1 (min 6 (duration sdiv 4))) final;
               exit_start = saturating_sub_i64 final entrance;
               opacity = caption_effect 1 ''opacity'' [(''percent'', Integer 100)] ''percent''
                 (dedup_keyframes [caption_keyframe 0 0 EaseOut, caption_keyframe entrance 100 Hold,
                                   caption_keyframe exit_start 100 EaseIn, caption_keyframe final 0 Linear]);
               transform_parameters = [(''scale_percent'', Integer 100), (''x_percent'', Integer 0), (''y_percent'', Integer 0)]
           in opacity # (case motion of
                NoMotion \<Rightarrow> []
              | Fade \<Rightarrow> []
              | Pop \<Rightarrow>
                  [caption_effect 2 ''transform'' transform_parameters ''scale_percent''
                     (dedup_keyframes [caption_keyframe 0 80 EaseOut, caption_keyframe (max (entrance sdiv 2) 1) 110 EaseInOut,
                                       caption_keyframe entrance 100 Linear])]
              | SlideUp \<Rightarrow>
                  [caption_effect 2 ''transform'' transform_parameters ''y_percent''
                     (dedup_keyframes [caption_keyframe 0 15 EaseOut, caption_keyframe entrance 0 Linear])]))"

definition caption_motion_effects :: "clip_id \<Rightarrow> timecode \<Rightarrow> caption_motion \<Rightarrow> operation list" where
  "caption_motion_effects clip duration motion = map (AddEffect clip) (motion_effects duration motion)"

definition cue_duration :: "'a caption_cue \<Rightarrow> timecode option" where
  "cue_duration cue = (case timecode_checked_sub (cue_end cue) (cue_start cue) of
     Some d \<Rightarrow> if 0 < d then Some d else None | None \<Rightarrow> None)"

definition caption_title :: "caption_preset \<Rightarrow> title_position option \<Rightarrow> string \<Rightarrow> title" where
  "caption_title preset place utf8 =
     (let t = caption_preset_title preset utf8
      in case place of Some p \<Rightarrow> t\<lparr>title_position := p\<rparr> | None \<Rightarrow> t)"

fun caption_operations ::
    "track_id \<Rightarrow> clip_id \<Rightarrow> caption_preset \<Rightarrow> caption_motion \<Rightarrow> title_position option \<Rightarrow> nat \<Rightarrow> string caption_cue list
      \<Rightarrow> caption_plan_error + operation list" where
  "caption_operations t first_clip preset motion place index [] = Inr []"
| "caption_operations t first_clip preset motion place index (cue # cues) =
     rbind (ok_or InvalidCueDuration (cue_duration cue)) (\<lambda>duration.
     rbind (ok_or ClipIdExhausted_Caption (checked_add_u64 first_clip (int index))) (\<lambda>clip.
     rbind (caption_operations t first_clip preset motion place (Suc index) cues) (\<lambda>rest.
     Inr (AddTitle t (cue_start cue) duration (caption_title preset place (cue_text cue))
          # caption_motion_effects clip duration motion @ rest))))"

definition animated_caption_operations_at ::
    "document \<Rightarrow> string caption_cue list \<Rightarrow> caption_preset \<Rightarrow> caption_motion \<Rightarrow> title_position option
      \<Rightarrow> caption_plan_error + operation list" where
  "animated_caption_operations_at doc cues preset motion place =
     (if cues = [] then Inl NoCues
      else rbind (ok_or TrackIdExhausted (checked_add_u64 (max_list0 (map track_id (tracks doc))) 1)) (\<lambda>t.
      rbind (ok_or ClipIdExhausted_Caption (checked_add_u64 (max_list0 (map clip_id (all_clips doc))) 1)) (\<lambda>first_clip.
      rbind (caption_operations t first_clip preset motion place 0 cues) (\<lambda>ops.
      Inr (AddTrack \<lparr>track_id = t, track_kind = TrackVideo, sync_lock = True, clips = []\<rparr> # ops)))))"

definition animated_caption_operations ::
    "document \<Rightarrow> string caption_cue list \<Rightarrow> caption_preset \<Rightarrow> caption_motion \<Rightarrow> caption_plan_error + operation list" where
  "animated_caption_operations doc cues preset motion = animated_caption_operations_at doc cues preset motion None"

definition caption_title_operations :: "document \<Rightarrow> string caption_cue list \<Rightarrow> caption_preset \<Rightarrow> caption_plan_error + operation list" where
  "caption_title_operations doc cues preset = animated_caption_operations doc cues preset NoMotion"

section \<open>Curves and titles\<close>












section \<open>Titles on the new track\<close>

lemma body_ignores_clips [simp]: "validate_clip_body doc (t\<lparr>clips := cs\<rparr>) c = validate_clip_body doc t c"
proof -
  have "track_kind (t\<lparr>clips := cs\<rparr>) = track_kind t" "track_id (t\<lparr>clips := cs\<rparr>) = track_id t" by simp_all
  then show ?thesis
    unfolding validate_clip_body_def validate_clip_content_def validate_track_compatibility_def by (simp only:)
qed





section \<open>Running the batch\<close>

























section \<open>Properties\<close>




end
