(* ===== verification/Reframe.thy ===== *)
theory Reframe
  imports Transcript
begin

text \<open>
  Subject-aware reframing of \<^verbatim>\<open>crates/kinewright-core/src/multicam.rs\<close>: from observed subject centres to two focus curves
  of a reframe effect, smoothed and limited in speed, or kept inside given intervals. A \<^verbatim>\<open>clamp\<close> with crossed bounds panics
  and gives \<open>None\<close>; the plain subtraction of the controller wraps, as in a release build.
\<close>

section \<open>Definitions\<close>

subsection \<open>Data\<close>

record reframe_focus_bounds =
  min_x_percent :: int
  max_x_percent :: int
  min_y_percent :: int
  max_y_percent :: int

definition reframe_focus_bounds_default :: reframe_focus_bounds where
  "reframe_focus_bounds_default = \<lparr>min_x_percent = 0, max_x_percent = 100, min_y_percent = 0, max_y_percent = 100\<rparr>"

record subject_center_sample =
  percent_at :: timecode
  x_percent :: int
  y_percent :: int
  percent_confidence :: int

record subject_center_basis_point_sample =
  basis_point_at :: timecode
  x_basis_points :: int
  y_basis_points :: int
  basis_point_confidence :: int

record subject_focus_basis_point_constraint =
  constraint_at :: timecode
  min_x_basis_points :: int
  max_x_basis_points :: int
  min_y_basis_points :: int
  max_y_basis_points :: int

record subject_reframe_settings =
  reframe_clip :: clip_id
  reframe_effect :: effect_id
  reframe_bounds :: reframe_focus_bounds
  minimum_confidence_basis_points :: int
  focus_dead_zone_percent :: int
  maximum_focus_step_percent :: int

record 'a subject_reframe_plan =
  reframe_plan_clip :: clip_id
  reframe_plan_effect :: effect_id
  plan_samples :: "'a list"
  clamped_samples :: nat
  focus_x_curve :: automation_curve
  focus_y_curve :: automation_curve
  reframe_operations :: "operation list"

text \<open>The display text of the last error is replaced by the error it shows.\<close>

datatype subject_reframe_error =
    MissingClip_Reframe clip_id
  | RequiresMediaClip
  | MissingEffect_Reframe clip_id effect_id
  | WrongEffect effect_id string
  | MissingSamples
  | InvalidBounds
  | InvalidConfidenceThreshold
  | InvalidDeadZone
  | InvalidMaximumStep
  | InvalidSampleConfidence timecode
  | LowConfidence timecode int int
  | SampleOutsideClip timecode timecode
  | DuplicateSampleFrame timecode
  | DuplicateContainmentConstraint timecode
  | MissingContainmentConstraint timecode
  | UnexpectedContainmentConstraint timecode
  | InvalidContainmentConstraint timecode string int int
  | ContainmentOutsideFocusBounds timecode string
  | ContainmentInfeasible timecode string int int int int
  | ReframePlanNotApplicable "op_error + batch_error"

record scaled_sample =
  sample_at :: timecode
  sample_x :: int
  sample_y :: int
  sample_confidence :: int

record scaled_focus_constraint =
  focus_min_x :: int
  focus_max_x :: int
  focus_min_y :: int
  focus_max_y :: int

record scaled_plan =
  scaled_samples :: "scaled_sample list"
  scaled_clamped :: nat
  scaled_x_curve :: automation_curve
  scaled_y_curve :: automation_curve
  scaled_operations :: "operation list"

subsection \<open>Smoothing\<close>

definition median3 :: "int \<Rightarrow> int \<Rightarrow> int \<Rightarrow> int" where
  "median3 a b c = sort [a, b, c] ! 1"

definition median_filtered_observations :: "int list \<Rightarrow> int list" where
  "median_filtered_observations observations =
     map (\<lambda>index.
       if 1 \<le> index \<and> index < length observations - 1
       then median3 (observations ! (index - 1)) (observations ! index) (observations ! (index + 1))
       else if 3 \<le> length observations \<and> index = length observations - 1
       then median3 (observations ! (index - 2)) (observations ! (index - 1)) (observations ! index)
       else observations ! index) [0..<length observations]"

definition reactive_step :: "int \<Rightarrow> int \<Rightarrow> int \<Rightarrow> int \<Rightarrow> int \<Rightarrow> int \<Rightarrow> int option" where
  "reactive_step minimum maximum dead_zone maximum_step focus subject =
     Option.bind (clamp_timecode subject minimum maximum) (\<lambda>subject.
     let desired = (if subject < saturating_sub_i64 focus dead_zone then saturating_add_i64 subject dead_zone
                    else if saturating_add_i64 focus dead_zone < subject then saturating_sub_i64 subject dead_zone
                    else focus)
     in Option.bind (clamp_timecode (wrap_i64 (desired - focus)) (wrap_i64 (- maximum_step)) maximum_step) (\<lambda>delta.
        clamp_timecode (saturating_add_i64 focus delta) minimum maximum))"

fun reactive_loop :: "int \<Rightarrow> int \<Rightarrow> int \<Rightarrow> int \<Rightarrow> int \<Rightarrow> int list \<Rightarrow> int list option" where
  "reactive_loop minimum maximum dead_zone maximum_step focus [] = Some []"
| "reactive_loop minimum maximum dead_zone maximum_step focus (subject # subjects) =
     Option.bind (reactive_step minimum maximum dead_zone maximum_step focus subject) (\<lambda>focus.
     Option.bind (reactive_loop minimum maximum dead_zone maximum_step focus subjects) (\<lambda>rest. Some (focus # rest)))"

definition reactive_focus_values :: "int list \<Rightarrow> int \<Rightarrow> int \<Rightarrow> int \<Rightarrow> int \<Rightarrow> int list option" where
  "reactive_focus_values filtered minimum maximum dead_zone maximum_step =
     (case filtered of
        [] \<Rightarrow> Some []
      | first # _ \<Rightarrow> Option.bind (clamp_timecode first minimum maximum) (\<lambda>focus.
          reactive_loop minimum maximum dead_zone maximum_step focus filtered))"

definition stabilize_tracked_centres_basis_points :: "int list \<Rightarrow> int \<Rightarrow> int \<Rightarrow> int \<Rightarrow> int \<Rightarrow> int list option" where
  "stabilize_tracked_centres_basis_points observations minimum maximum dead_zone maximum_step =
     reactive_focus_values (median_filtered_observations observations) minimum maximum dead_zone maximum_step"

subsection \<open>Containment\<close>

text \<open>
  The forward pass over the intervals, with their frames, and the backward choice of the values. The observations, the
  intervals and the frames have one length, as the \<^verbatim>\<open>debug_assert_eq\<close> of the code state.
\<close>

fun reachable_loop ::
    "string \<Rightarrow> int \<Rightarrow> int \<Rightarrow> int \<Rightarrow> (int \<times> int) option \<Rightarrow> (timecode \<times> int \<times> int) list \<Rightarrow> subject_reframe_error + (int \<times> int) list" where
  "reachable_loop axis minimum maximum maximum_step previous [] = Inr []"
| "reachable_loop axis minimum maximum maximum_step previous ((frame, allowed_minimum, allowed_maximum) # rest) =
     (let (reachable_minimum, reachable_maximum) =
            (case previous of
               Some (previous_minimum, previous_maximum) \<Rightarrow>
                 (saturating_sub_i64 previous_minimum maximum_step, saturating_add_i64 previous_maximum maximum_step)
             | None \<Rightarrow> (minimum, maximum));
          lower = max (max allowed_minimum reachable_minimum) minimum;
          upper = min (min allowed_maximum reachable_maximum) maximum
      in if upper < lower
         then Inl (ContainmentInfeasible frame axis allowed_minimum allowed_maximum reachable_minimum reachable_maximum)
         else rbind (reachable_loop axis minimum maximum maximum_step (Some (lower, upper)) rest) (\<lambda>reachable.
              Inr ((lower, upper) # reachable)))"

fun choose_values :: "int \<Rightarrow> (int \<times> int \<times> int) list \<Rightarrow> int list option" where
  "choose_values maximum_step [] = Some []"
| "choose_values maximum_step ((desired, reachable_minimum, reachable_maximum) # rest) =
     Option.bind (choose_values maximum_step rest) (\<lambda>chosen.
     let (lower, upper) =
           (case chosen of
              [] \<Rightarrow> (reachable_minimum, reachable_maximum)
            | next # _ \<Rightarrow> (max reachable_minimum (saturating_sub_i64 next maximum_step),
                           min reachable_maximum (saturating_add_i64 next maximum_step)))
     in Option.bind (clamp_timecode desired lower upper) (\<lambda>v. Some (v # chosen)))"

definition containment_aware_focus_values ::
    "int list \<Rightarrow> (int \<times> int) list \<Rightarrow> timecode list \<Rightarrow> string \<Rightarrow> int \<Rightarrow> int \<Rightarrow> int \<Rightarrow> int
      \<Rightarrow> (subject_reframe_error + int list) option" where
  "containment_aware_focus_values observations containment frames axis minimum maximum dead_zone maximum_step =
     (if observations = [] then Some (Inr [])
      else Option.bind (stabilize_tracked_centres_basis_points observations minimum maximum dead_zone maximum_step) (\<lambda>desired.
           case reachable_loop axis minimum maximum maximum_step None (zip frames containment) of
             Inl e \<Rightarrow> Some (Inl e)
           | Inr reachable \<Rightarrow> map_option Inr (choose_values maximum_step (zip desired reachable))))"

fun collect_constraints ::
    "(timecode, subject_focus_basis_point_constraint) btree \<Rightarrow> subject_focus_basis_point_constraint list
      \<Rightarrow> subject_reframe_error + (timecode, subject_focus_basis_point_constraint) btree" where
  "collect_constraints by_frame [] = Inr by_frame"
| "collect_constraints by_frame (c # cs) =
     (if bt_contains (constraint_at c) by_frame then Inl (DuplicateContainmentConstraint (constraint_at c))
      else rbind (for_each (\<lambda>(axis, minimum, maximum).
                if minimum < 0 \<or> 10000 < maximum \<or> maximum < minimum
                then Inl (InvalidContainmentConstraint (constraint_at c) axis minimum maximum) else Inr ())
             [(''horizontal'', min_x_basis_points c, max_x_basis_points c), (''vertical'', min_y_basis_points c, max_y_basis_points c)])
           (\<lambda>_. collect_constraints (bt_insert (constraint_at c) c by_frame) cs))"

fun match_constraints ::
    "int \<Rightarrow> int \<Rightarrow> int \<Rightarrow> int \<Rightarrow> (timecode, subject_focus_basis_point_constraint) btree \<Rightarrow> scaled_sample list
      \<Rightarrow> subject_reframe_error + scaled_focus_constraint list" where
  "match_constraints minimum_x maximum_x minimum_y maximum_y by_frame [] =
     (case by_frame of [] \<Rightarrow> Inr [] | (at, _) # _ \<Rightarrow> Inl (UnexpectedContainmentConstraint at))"
| "match_constraints minimum_x maximum_x minimum_y maximum_y by_frame (s # ss) =
     (case bt_get (sample_at s) by_frame of
        None \<Rightarrow> Inl (MissingContainmentConstraint (sample_at s))
      | Some c \<Rightarrow>
          let min_x = max (min_x_basis_points c) minimum_x;
              max_x = min (max_x_basis_points c) maximum_x;
              min_y = max (min_y_basis_points c) minimum_y;
              max_y = min (max_y_basis_points c) maximum_y
          in if max_x < min_x then Inl (ContainmentOutsideFocusBounds (sample_at s) ''horizontal'')
             else if max_y < min_y then Inl (ContainmentOutsideFocusBounds (sample_at s) ''vertical'')
             else rbind (match_constraints minimum_x maximum_x minimum_y maximum_y (bt_remove (sample_at s) by_frame) ss) (\<lambda>rest.
                  Inr (\<lparr>focus_min_x = min_x, focus_max_x = max_x, focus_min_y = min_y, focus_max_y = max_y\<rparr> # rest)))"

definition normalize_containment_constraints ::
    "scaled_sample list \<Rightarrow> subject_focus_basis_point_constraint list \<Rightarrow> int \<Rightarrow> int \<Rightarrow> int \<Rightarrow> int
      \<Rightarrow> subject_reframe_error + scaled_focus_constraint list" where
  "normalize_containment_constraints samples constraints minimum_x maximum_x minimum_y maximum_y =
     rbind (collect_constraints [] constraints) (\<lambda>by_frame.
     match_constraints minimum_x maximum_x minimum_y maximum_y by_frame samples)"

subsection \<open>The plan\<close>

text \<open>The loop that checks and clamps the sorted samples, with the frame of the sample before.\<close>

fun clamp_samples ::
    "int \<Rightarrow> timecode \<Rightarrow> int \<Rightarrow> int \<Rightarrow> int \<Rightarrow> int \<Rightarrow> timecode option \<Rightarrow> scaled_sample list
      \<Rightarrow> (subject_reframe_error + (scaled_sample list \<times> nat)) option" where
  "clamp_samples minimum_confidence duration min_x max_x min_y max_y previous [] = Some (Inr ([], 0))"
| "clamp_samples minimum_confidence duration min_x max_x min_y max_y previous (s # ss) =
     (if previous = Some (sample_at s) then Some (Inl (DuplicateSampleFrame (sample_at s)))
      else if 10000 < sample_confidence s then Some (Inl (InvalidSampleConfidence (sample_at s)))
      else if sample_confidence s < minimum_confidence
      then Some (Inl (LowConfidence (sample_at s) (sample_confidence s) minimum_confidence))
      else if sample_at s < 0 \<or> duration \<le> sample_at s then Some (Inl (SampleOutsideClip (sample_at s) duration))
      else Option.bind (clamp_timecode (sample_x s) min_x max_x) (\<lambda>bounded_x.
           Option.bind (clamp_timecode (sample_y s) min_y max_y) (\<lambda>bounded_y.
           Option.bind (clamp_samples minimum_confidence duration min_x max_x min_y max_y (Some (sample_at s)) ss) (\<lambda>rest.
           Some (rbind rest (\<lambda>(samples, clamped).
             Inr (s\<lparr>sample_x := bounded_x, sample_y := bounded_y\<rparr> # samples,
                  (if bounded_x \<noteq> sample_x s \<or> bounded_y \<noteq> sample_y s then clamped + 1 else clamped))))))))"

definition focus_values ::
    "int list \<Rightarrow> (int \<times> int) list option \<Rightarrow> timecode list \<Rightarrow> string \<Rightarrow> int \<Rightarrow> int \<Rightarrow> int \<Rightarrow> int
      \<Rightarrow> (subject_reframe_error + int list) option" where
  "focus_values observations intervals frames axis minimum maximum dead_zone maximum_step =
     (case intervals of
        Some containment \<Rightarrow>
          containment_aware_focus_values observations containment frames axis minimum maximum dead_zone maximum_step
      | None \<Rightarrow> map_option Inr (stabilize_tracked_centres_basis_points observations minimum maximum dead_zone maximum_step))"

definition focus_curve :: "scaled_sample list \<Rightarrow> int list \<Rightarrow> automation_curve" where
  "focus_curve samples vs =
     \<lparr>keyframes = map (\<lambda>(s, v). \<lparr>key_at = sample_at s, key_value = v, key_interpolation = Linear, tangent_in = 0, tangent_out = 0\<rparr>)
        (zip samples vs)\<rparr>"

definition check_reframe_request :: "document \<Rightarrow> subject_reframe_settings \<Rightarrow> scaled_sample list \<Rightarrow> subject_reframe_error + timecode" where
  "check_reframe_request doc settings samples =
     rbind (ok_or (MissingClip_Reframe (reframe_clip settings)) (doc_clip doc (reframe_clip settings))) (\<lambda>c.
     if content c \<noteq> Media then Inl RequiresMediaClip
     else rbind (ok_or (MissingEffect_Reframe (reframe_clip settings) (reframe_effect settings))
                   (find (\<lambda>e. effect_id e = reframe_effect settings) (effects c))) (\<lambda>e.
     if effect_name e \<noteq> ''reframe'' then Inl (WrongEffect (reframe_effect settings) (effect_name e))
     else if samples = [] then Inl MissingSamples
     else let b = reframe_bounds settings
     in if min_x_percent b < 0 \<or> 100 < max_x_percent b \<or> min_y_percent b < 0 \<or> 100 < max_y_percent b
           \<or> max_x_percent b < min_x_percent b \<or> max_y_percent b < min_y_percent b then Inl InvalidBounds
     else if 10000 < minimum_confidence_basis_points settings then Inl InvalidConfidenceThreshold
     else if 25 < focus_dead_zone_percent settings then Inl InvalidDeadZone
     else if \<not> (1 \<le> maximum_focus_step_percent settings \<and> maximum_focus_step_percent settings \<le> 25) then Inl InvalidMaximumStep
     else map_err (\<lambda>e. ReframePlanNotApplicable (Inl e)) (clip_duration doc c)))"

text \<open>Chaining of fallible steps that may also panic.\<close>

definition try_bind :: "('e + 'a) option \<Rightarrow> ('a \<Rightarrow> ('e + 'b) option) \<Rightarrow> ('e + 'b) option" where
  "try_bind m k = (case m of None \<Rightarrow> None | Some (Inl e) \<Rightarrow> Some (Inl e) | Some (Inr a) \<Rightarrow> k a)"

definition plan_subject_reframe_scaled ::
    "document \<Rightarrow> subject_reframe_settings \<Rightarrow> scaled_sample list \<Rightarrow> int \<Rightarrow> string \<times> string
      \<Rightarrow> subject_focus_basis_point_constraint list option \<Rightarrow> (subject_reframe_error + scaled_plan) option" where
  "plan_subject_reframe_scaled doc settings samples coordinate_scale focus_parameters containment =
     try_bind (Some (check_reframe_request doc settings samples)) (\<lambda>duration.
     let b = reframe_bounds settings;
         scaled = (\<lambda>v. saturating_mul_i64 v coordinate_scale);
         min_x = scaled (min_x_percent b); max_x = scaled (max_x_percent b);
         min_y = scaled (min_y_percent b); max_y = scaled (max_y_percent b)
     in try_bind (clamp_samples (minimum_confidence_basis_points settings) duration min_x max_x min_y max_y None
          (sort_key sample_at samples)) (\<lambda>(normalized, clamped).
        try_bind (Some (case containment of None \<Rightarrow> Inr None
            | Some constraints \<Rightarrow>
                rbind (normalize_containment_constraints normalized constraints min_x max_x min_y max_y) (\<lambda>cs. Inr (Some cs)))) (\<lambda>constraints.
        let frames = map sample_at normalized;
            dead_zone = scaled (focus_dead_zone_percent settings);
            maximum_step = scaled (maximum_focus_step_percent settings)
        in try_bind (focus_values (map sample_x normalized) (map_option (map (\<lambda>c. (focus_min_x c, focus_max_x c))) constraints)
             frames ''horizontal'' min_x max_x dead_zone maximum_step) (\<lambda>horizontal_values.
           try_bind (focus_values (map sample_y normalized) (map_option (map (\<lambda>c. (focus_min_y c, focus_max_y c))) constraints)
             frames ''vertical'' min_y max_y dead_zone maximum_step) (\<lambda>vertical_values.
           let horizontal_curve = focus_curve normalized horizontal_values;
               vertical_curve = focus_curve normalized vertical_values;
               ops = [SetEffectKeyframes (reframe_clip settings) (reframe_effect settings) (fst focus_parameters) horizontal_curve,
                      SetEffectKeyframes (reframe_clip settings) (reframe_effect settings) (snd focus_parameters) vertical_curve]
           in Some (rbind (map_err (\<lambda>e. ReframePlanNotApplicable (Inr e)) (apply_batch doc ops)) (\<lambda>_.
              Inr \<lparr>scaled_samples = normalized, scaled_clamped = clamped, scaled_x_curve = horizontal_curve,
                   scaled_y_curve = vertical_curve, scaled_operations = ops\<rparr>)))))))"

definition reframe_plan_of :: "subject_reframe_settings \<Rightarrow> (scaled_sample \<Rightarrow> 'a) \<Rightarrow> scaled_plan \<Rightarrow> 'a subject_reframe_plan" where
  "reframe_plan_of settings f p =
     \<lparr>reframe_plan_clip = reframe_clip settings, reframe_plan_effect = reframe_effect settings, plan_samples = map f (scaled_samples p),
      clamped_samples = scaled_clamped p, focus_x_curve = scaled_x_curve p, focus_y_curve = scaled_y_curve p,
      reframe_operations = scaled_operations p\<rparr>"

definition plan_subject_reframe ::
    "document \<Rightarrow> subject_reframe_settings \<Rightarrow> subject_center_sample list
      \<Rightarrow> (subject_reframe_error + subject_center_sample subject_reframe_plan) option" where
  "plan_subject_reframe doc settings samples =
     try_bind (plan_subject_reframe_scaled doc settings
         (map (\<lambda>s. \<lparr>sample_at = percent_at s, sample_x = x_percent s, sample_y = y_percent s, sample_confidence = percent_confidence s\<rparr>) samples)
         1 (''focus_x_percent'', ''focus_y_percent'') None) (\<lambda>p.
     Some (Inr (reframe_plan_of settings (\<lambda>s. \<lparr>percent_at = sample_at s, x_percent = sample_x s, y_percent = sample_y s,
                                              percent_confidence = sample_confidence s\<rparr>) p)))"

definition plan_basis_points ::
    "document \<Rightarrow> subject_reframe_settings \<Rightarrow> subject_center_basis_point_sample list
      \<Rightarrow> subject_focus_basis_point_constraint list option
      \<Rightarrow> (subject_reframe_error + subject_center_basis_point_sample subject_reframe_plan) option" where
  "plan_basis_points doc settings samples containment =
     try_bind (plan_subject_reframe_scaled doc settings
         (map (\<lambda>s. \<lparr>sample_at = basis_point_at s, sample_x = x_basis_points s, sample_y = y_basis_points s,
                    sample_confidence = basis_point_confidence s\<rparr>) samples)
         100 (''focus_x_basis_points'', ''focus_y_basis_points'') containment) (\<lambda>p.
     Some (Inr (reframe_plan_of settings (\<lambda>s. \<lparr>basis_point_at = sample_at s, x_basis_points = sample_x s, y_basis_points = sample_y s,
                                              basis_point_confidence = sample_confidence s\<rparr>) p)))"

definition plan_subject_reframe_basis_points ::
    "document \<Rightarrow> subject_reframe_settings \<Rightarrow> subject_center_basis_point_sample list
      \<Rightarrow> (subject_reframe_error + subject_center_basis_point_sample subject_reframe_plan) option" where
  "plan_subject_reframe_basis_points doc settings samples = plan_basis_points doc settings samples None"

definition plan_subject_reframe_basis_points_with_containment ::
    "document \<Rightarrow> subject_reframe_settings \<Rightarrow> subject_center_basis_point_sample list \<Rightarrow> subject_focus_basis_point_constraint list
      \<Rightarrow> (subject_reframe_error + subject_center_basis_point_sample subject_reframe_plan) option" where
  "plan_subject_reframe_basis_points_with_containment doc settings samples containment =
     plan_basis_points doc settings samples (Some containment)"

end
