(* ===== verification/Reframe_Props.thy ===== *)
theory Reframe_Props
  imports Reframe
begin

text \<open>
  What the reframing plan guarantees: the controller stays inside its bounds and its speed, the containment pass finds
  a path exactly when there is one, and the whole plan never panics and yields accepted curves that keep every promise.
\<close>

section \<open>The controller\<close>

text \<open>Bounds, dead zone and step in a range where no saturation happens.\<close>

definition camera_limits :: "int \<Rightarrow> int \<Rightarrow> int \<Rightarrow> int \<Rightarrow> bool" where
  "camera_limits minimum maximum dead_zone step \<longleftrightarrow>
     - (2 ^ 40) \<le> minimum \<and> minimum \<le> maximum \<and> maximum \<le> 2 ^ 40 \<and> 0 \<le> dead_zone \<and> dead_zone \<le> 2 ^ 40 \<and> 0 \<le> step \<and> step \<le> 2 ^ 40"

definition inside :: "int \<Rightarrow> int \<Rightarrow> int \<Rightarrow> bool" where
  "inside lo hi v \<longleftrightarrow> lo \<le> v \<and> v \<le> hi"

definition paced :: "int \<Rightarrow> int list \<Rightarrow> bool" where
  "paced step vs \<longleftrightarrow> successively (\<lambda>a b. \<bar>b - a\<bar> \<le> step) vs"

lemma paced_simps [simp]: "paced s []" "paced s [v]" "paced s (v # w # vs) \<longleftrightarrow> \<bar>w - v\<bar> \<le> s \<and> paced s (w # vs)"
  by (simp_all add: paced_def)

lemma clamped: "lo \<le> hi \<Longrightarrow> clamp_timecode x lo hi = Some (if x < lo then lo else if hi < x then hi else x)"
  by (simp add: clamp_timecode_def)

lemma exact_i64:
  assumes "\<bar>x\<bar> \<le> 2 ^ 42"
  shows "clamp_i64 x = x" "wrap_i64 x = x"
  using assms by (simp_all add: clamp_i64_def wrap_i64_def int_width_defs)

lemma reactive_step_ok:
  assumes "camera_limits lo hi dz step" "inside lo hi focus"
  shows "\<exists>f. reactive_step lo hi dz step focus subject = Some f \<and> inside lo hi f \<and> \<bar>f - focus\<bar> \<le> step
    \<and> (inside lo hi subject \<and> \<bar>subject - focus\<bar> \<le> dz \<longrightarrow> f = focus)"
proof -
  note l = assms [unfolded camera_limits_def inside_def]
  have b: "lo \<le> hi" using l by simp
  define s where "s = (if subject < lo then lo else if hi < subject then hi else subject)"
  have s: "lo \<le> s" "s \<le> hi" "inside lo hi subject \<longrightarrow> s = subject" using b by (auto simp: s_def inside_def)
  define d where "d = (if s < focus - dz then s + dz else if focus + dz < s then s - dz else focus)"
  have d: "\<bar>d - focus\<bar> \<le> 2 ^ 42" "lo \<le> d" "d \<le> hi" "\<bar>s - focus\<bar> \<le> dz \<longrightarrow> d = focus" using l s by (auto simp: d_def)
  define m where "m = (if d - focus < - step then - step else if step < d - focus then step else d - focus)"
  have m: "\<bar>m\<bar> \<le> step" "lo \<le> focus + m" "focus + m \<le> hi" "d = focus \<longrightarrow> m = 0" using l d by (auto simp: m_def)
  have "reactive_step lo hi dz step focus subject = Some (focus + m)"
  proof -
    have "saturating_sub_i64 focus dz = focus - dz" "saturating_add_i64 focus dz = focus + dz"
      "saturating_add_i64 s dz = s + dz" "saturating_sub_i64 s dz = s - dz" "wrap_i64 (- step) = - step" "saturating_add_i64 focus m = focus + m"
      using l s m by (simp_all add: saturating_sub_i64_def saturating_add_i64_def clamp_i64_def exact_i64(2) int_width_defs)
    moreover have "wrap_i64 (d - focus) = d - focus" by (rule exact_i64 [OF d(1)])
    moreover have "clamp_timecode (d - focus) (- step) step = Some m" using l by (simp add: clamped m_def)
    moreover have "clamp_timecode (focus + m) lo hi = Some (focus + m)" using m b by (simp add: clamped)
    moreover have "clamp_timecode subject lo hi = Some s" using b by (simp add: clamped s_def)
    ultimately show ?thesis by (simp only: reactive_step_def Let_def Option.bind.bind_lunit d_def [symmetric])
  qed
  then show ?thesis using m s d(4) by (auto simp: inside_def)
qed

lemma reactive_loop_ok:
  assumes "camera_limits lo hi dz step" "inside lo hi focus"
  shows "\<exists>vs. reactive_loop lo hi dz step focus xs = Some vs \<and> length vs = length xs \<and> (\<forall>v \<in> set vs. inside lo hi v) \<and> paced step (focus # vs)"
  using assms(2)
proof (induction xs arbitrary: focus)
  case (Cons x xs)
  obtain f where f: "reactive_step lo hi dz step focus x = Some f" "inside lo hi f" "\<bar>f - focus\<bar> \<le> step"
    using reactive_step_ok [OF assms(1) Cons.prems] by blast
  from Cons.IH [OF f(2)] show ?case using f by auto
qed simp

lemma median_length [simp]: "length (median_filtered_observations xs) = length xs"
  by (simp add: median_filtered_observations_def)

lemma stabilize_ok:
  assumes "camera_limits lo hi dz step"
  shows "\<exists>vs. stabilize_tracked_centres_basis_points xs lo hi dz step = Some vs \<and> length vs = length xs
    \<and> (\<forall>v \<in> set vs. inside lo hi v) \<and> paced step vs"
proof (cases "median_filtered_observations xs")
  case Nil
  then have "xs = []" using median_length [of xs] by simp
  then show ?thesis using Nil by (simp add: stabilize_tracked_centres_basis_points_def reactive_focus_values_def)
next
  case (Cons y ys)
  define f where "f = (if y < lo then lo else if hi < y then hi else y)"
  have b: "lo \<le> hi" using assms by (simp add: camera_limits_def)
  then have f: "clamp_timecode y lo hi = Some f" "inside lo hi f" by (auto simp: clamped f_def inside_def)
  from reactive_loop_ok [OF assms f(2), of "y # ys"] obtain vs where
    vs: "reactive_loop lo hi dz step f (y # ys) = Some vs" "length vs = length (y # ys)" "\<forall>v \<in> set vs. inside lo hi v" "paced step (f # vs)"
    by blast
  then have "paced step vs" by (cases vs) simp_all
  moreover have "length vs = length xs" using vs(2) Cons median_length [of xs] by simp
  ultimately show ?thesis
    using vs(1,3) f(1) Cons by (simp add: stabilize_tracked_centres_basis_points_def reactive_focus_values_def del: reactive_loop.simps)
qed

section \<open>Containment\<close>

definition camera_path :: "int \<Rightarrow> int \<Rightarrow> int \<Rightarrow> (int \<times> int) list \<Rightarrow> int list \<Rightarrow> bool" where
  "camera_path lo hi step allowed vs \<longleftrightarrow>
     list_all2 (\<lambda>(a, b) v. inside a b v \<and> inside lo hi v) allowed vs \<and> paced step vs"

definition near :: "int \<Rightarrow> (int \<times> int) option \<Rightarrow> int \<Rightarrow> bool" where
  "near step previous v \<longleftrightarrow> (case previous of None \<Rightarrow> True | Some (a, b) \<Rightarrow> inside (a - step) (b + step) v)"

fun linked_reach :: "int \<Rightarrow> int \<Rightarrow> int \<Rightarrow> (int \<times> int) option \<Rightarrow> (int \<times> int) list \<Rightarrow> (int \<times> int) list \<Rightarrow> bool" where
  "linked_reach lo hi step previous [] [] = True"
| "linked_reach lo hi step previous ((a, b) # allowed) ((l, u) # reach) \<longleftrightarrow>
     a \<le> l \<and> l \<le> u \<and> u \<le> b \<and> lo \<le> l \<and> u \<le> hi \<and> near step previous l \<and> near step previous u
     \<and> linked_reach lo hi step (Some (l, u)) allowed reach"
| "linked_reach lo hi step previous _ _ = False"

definition valid_previous :: "int \<Rightarrow> int \<Rightarrow> (int \<times> int) option \<Rightarrow> bool" where
  "valid_previous lo hi previous \<longleftrightarrow> (case previous of None \<Rightarrow> True | Some (a, b) \<Rightarrow> lo \<le> a \<and> a \<le> b \<and> b \<le> hi)"

lemma reachable_loop_spec:
  assumes "camera_limits lo hi dz step" "valid_previous lo hi previous" "length frames = length allowed"
  shows "case reachable_loop axis lo hi step previous (zip frames allowed) of
      Inr reach \<Rightarrow> linked_reach lo hi step previous allowed reach
        \<and> (\<forall>vs. camera_path lo hi step allowed vs \<and> (\<forall>v. vs \<noteq> [] \<and> v = hd vs \<longrightarrow> near step previous v)
              \<longrightarrow> list_all2 (\<lambda>(l, u) v. inside l u v) reach vs)
    | Inl e \<Rightarrow> (\<forall>vs. camera_path lo hi step allowed vs \<longrightarrow> vs \<noteq> [] \<and> \<not> near step previous (hd vs))"
  using assms(2,3)
proof (induction allowed arbitrary: previous frames)
  case Nil
  then show ?case by (simp add: camera_path_def)
next
  case (Cons ab allowed)
  obtain a b where ab: "ab = (a, b)" by fastforce
  obtain f fs where fs: "frames = f # fs" "length fs = length allowed" using Cons.prems(2) by (cases frames) auto
  note l = assms(1) [unfolded camera_limits_def]
  define ra rb where "ra = (case previous of None \<Rightarrow> lo | Some (p, q) \<Rightarrow> p - step)" and "rb = (case previous of None \<Rightarrow> hi | Some (p, q) \<Rightarrow> q + step)"
  have r: "(case previous of Some (p, q) \<Rightarrow> (saturating_sub_i64 p step, saturating_add_i64 q step) | None \<Rightarrow> (lo, hi)) = (ra, rb)"
    using l Cons.prems(1)
    by (auto simp: ra_def rb_def valid_previous_def saturating_sub_i64_def saturating_add_i64_def exact_i64 split: option.splits)
  define lower upper where "lower = max (max a ra) lo" and "upper = min (min b rb) hi"
  have near: "near step previous v \<longleftrightarrow> inside ra rb v \<or> previous = None" for v
    by (auto simp: near_def ra_def rb_def split: option.splits)
  have window: "inside a b v \<and> inside lo hi v \<and> near step previous v \<longleftrightarrow> inside lower upper v" for v
    by (auto simp: near inside_def lower_def upper_def) (auto simp: ra_def rb_def)
  have heads: "\<not> near step previous (hd vs) \<and> vs \<noteq> [] \<or> (\<exists>v ws. vs = v # ws \<and> inside lower upper v \<and> camera_path lo hi step allowed ws
      \<and> (\<forall>w. ws \<noteq> [] \<and> w = hd ws \<longrightarrow> \<bar>w - v\<bar> \<le> step))" if p: "camera_path lo hi step ((a, b) # allowed) vs" for vs
  proof -
    obtain v ws where vw: "vs = v # ws" by (cases vs) (use p in \<open>auto simp: camera_path_def\<close>)
    then have v: "vs = v # ws" "inside a b v" "inside lo hi v" "camera_path lo hi step allowed ws"
        "\<forall>w. ws \<noteq> [] \<and> w = hd ws \<longrightarrow> \<bar>w - v\<bar> \<le> step"
      using p by (auto simp: camera_path_def paced_def successively_Cons)
    then show ?thesis using window [of v] by auto
  qed
  show ?case
  proof (cases "upper < lower")
    case True
    then have "reachable_loop axis lo hi step previous (zip frames (ab # allowed)) = Inl (ContainmentInfeasible f axis a b ra rb)"
      by (simp add: fs(1) ab r Let_def lower_def upper_def)
    moreover have "\<not> inside lower upper v" for v using True by (auto simp: inside_def)
    ultimately show ?thesis using heads by (auto simp: ab)
  next
    case False
    then have lu: "lo \<le> lower" "lower \<le> upper" "upper \<le> hi" by (auto simp: lower_def upper_def)
    then have vp: "valid_previous lo hi (Some (lower, upper))" by (simp add: valid_previous_def)
    have near2: "near step (Some (lower, upper)) w" if "inside lower upper v" "\<bar>w - v\<bar> \<le> step" for v w
      using that by (auto simp: near_def inside_def)
    have eq: "reachable_loop axis lo hi step previous (zip frames (ab # allowed))
        = rbind (reachable_loop axis lo hi step (Some (lower, upper)) (zip fs allowed)) (\<lambda>reach. Inr ((lower, upper) # reach))"
      using False by (simp add: fs(1) ab r Let_def lower_def [symmetric] upper_def [symmetric])
    note IH = Cons.IH [OF vp fs(2)]
    show ?thesis
    proof (cases "reachable_loop axis lo hi step (Some (lower, upper)) (zip fs allowed)")
      case (Inl e)
      have "vs \<noteq> [] \<and> \<not> near step previous (hd vs)" if "camera_path lo hi step ((a, b) # allowed) vs" for vs
        using heads [OF that] IH near2 by (fastforce simp: Inl)
      then show ?thesis unfolding eq Inl by (simp add: ab)
    next
      case (Inr reach)
      have ends: "near step previous lower" "near step previous upper" "a \<le> lower" "upper \<le> b"
        using window [of lower] window [of upper] lu by (auto simp: inside_def)
      have "list_all2 (\<lambda>(l, u) v. inside l u v) ((lower, upper) # reach) vs"
        if p: "camera_path lo hi step ((a, b) # allowed) vs" and n: "\<forall>v. vs \<noteq> [] \<and> v = hd vs \<longrightarrow> near step previous v" for vs
      proof -
        from heads [OF p] n obtain v ws where v: "vs = v # ws" "inside lower upper v" "camera_path lo hi step allowed ws"
            "\<forall>w. ws \<noteq> [] \<and> w = hd ws \<longrightarrow> \<bar>w - v\<bar> \<le> step" by auto
        then have "\<forall>w. ws \<noteq> [] \<and> w = hd ws \<longrightarrow> near step (Some (lower, upper)) w" using near2 by blast
        with IH v(3) have "list_all2 (\<lambda>(l, u) v. inside l u v) reach ws" by (simp add: Inr)
        then show ?thesis using v(1,2) by simp
      qed
      moreover have "linked_reach lo hi step previous ((a, b) # allowed) ((lower, upper) # reach)"
        using IH ends lu by (simp add: Inr)
      ultimately show ?thesis unfolding eq Inr by (simp add: ab)
    qed
  qed
qed

lemma linked_reach_length: "linked_reach lo hi step previous allowed reach \<Longrightarrow> length allowed = length reach"
  by (induction lo hi step previous allowed reach rule: linked_reach.induct) simp_all

text \<open>The backward pass keeps the desired values where they can stay.\<close>

lemma choose_values_spec:
  assumes "camera_limits lo hi dz step" "linked_reach lo hi step previous allowed reach" "length desired = length reach"
  shows "\<exists>vs. choose_values step (zip desired reach) = Some vs \<and> camera_path lo hi step allowed vs
    \<and> list_all2 (\<lambda>(l, u) v. inside l u v) reach vs
    \<and> (list_all2 (\<lambda>(l, u) v. inside l u v) reach desired \<and> paced step desired \<longrightarrow> vs = desired)"
  using assms(2,3)
proof (induction reach arbitrary: previous allowed desired)
  case Nil
  then show ?case by (cases allowed) (auto simp: camera_path_def)
next
  case (Cons lu reach)
  obtain l u where lu: "lu = (l, u)" by fastforce
  obtain a b allowed' where al: "allowed = (a, b) # allowed'" "a \<le> l" "l \<le> u" "u \<le> b" "lo \<le> l" "u \<le> hi"
      "linked_reach lo hi step (Some (l, u)) allowed' reach"
    using Cons.prems(1) lu by (cases allowed) auto
  obtain d ds where d: "desired = d # ds" "length ds = length reach" using Cons.prems(2) by (cases desired) auto
  from Cons.IH [OF al(7) d(2)] obtain ws where ws: "choose_values step (zip ds reach) = Some ws" "camera_path lo hi step allowed' ws"
      "list_all2 (\<lambda>(l, u) v. inside l u v) reach ws"
      "list_all2 (\<lambda>(l, u) v. inside l u v) reach ds \<and> paced step ds \<longrightarrow> ws = ds" by blast
  note lim = assms(1) [unfolded camera_limits_def]
  show ?case
  proof (cases ws)
    case Nil
    then have r: "reach = []" "ds = []" "allowed' = []" using ws(2,3) d(2) by (auto simp: camera_path_def)
    have "clamp_timecode d l u = Some (max l (min u d))" using al(3) by (simp add: clamped)
    then show ?thesis
      using al d by (auto simp: lu r camera_path_def inside_def)
  next
    case (Cons w ws')
    then obtain l' u' reach' where r: "reach = (l', u') # reach'" "inside l' u' w" using ws(3) by (cases reach) auto
    then have n: "near step (Some (l, u)) l'" "near step (Some (l, u)) u'" "lo \<le> l'" "u' \<le> hi"
      using al(7) by (cases allowed'; auto)+
    have w: "l - step \<le> w" "w \<le> u + step" "lo \<le> w" "w \<le> hi" using n r(2) by (auto simp: near_def inside_def)
    define x where "x = (if d < max l (w - step) then max l (w - step) else if min u (w + step) < d then min u (w + step) else d)"
    have sat: "saturating_sub_i64 w step = w - step" "saturating_add_i64 w step = w + step"
      using lim w by (simp_all add: saturating_sub_i64_def saturating_add_i64_def clamp_i64_def int_width_defs)
    have "max l (w - step) \<le> min u (w + step)" using w al(3) lim by auto
    then have x: "clamp_timecode d (max l (w - step)) (min u (w + step)) = Some x" "l \<le> x" "x \<le> u" "\<bar>w - x\<bar> \<le> step"
      by (auto simp: clamped x_def)
    have "choose_values step (zip desired (lu # reach)) = Some (x # ws)"
      using ws(1) x(1) by (simp add: d(1) lu Cons sat)
    moreover have "x = d" if "inside l u d" "\<bar>w - d\<bar> \<le> step" using that by (auto simp: x_def inside_def)
    moreover have "paced step (x # ws)" using x(4) ws(2) by (simp add: Cons camera_path_def)
    moreover have "camera_path lo hi step allowed (x # ws)"
      using al x ws(2) calculation(3) by (auto simp: camera_path_def inside_def)
    moreover have "list_all2 (\<lambda>(l, u) v. inside l u v) (lu # reach) (x # ws)" using ws(3) x by (simp add: lu inside_def)
    moreover have "x # ws = desired"
      if "list_all2 (\<lambda>(l, u) v. inside l u v) (lu # reach) desired \<and> paced step desired"
    proof -
      have "paced step ds" using that d(1) by (cases ds) auto
      then have "ds = w # ws'" using ws(4) that d(1) by (simp add: Cons)
      then show ?thesis using that calculation(2) by (simp add: d(1) lu Cons)
    qed
    ultimately show ?thesis by blast
  qed
qed

definition containment_spec :: "int list \<Rightarrow> (int \<times> int) list \<Rightarrow> int \<Rightarrow> int \<Rightarrow> int \<Rightarrow> int \<Rightarrow> (subject_reframe_error + int list) \<Rightarrow> bool" where
  "containment_spec observations containment lo hi dz step result \<longleftrightarrow>
     (case result of
        Inl e \<Rightarrow> \<not> (\<exists>vs. camera_path lo hi step containment vs)
      | Inr vs \<Rightarrow> camera_path lo hi step containment vs
          \<and> (\<forall>desired. stabilize_tracked_centres_basis_points observations lo hi dz step = Some desired
                \<and> camera_path lo hi step containment desired \<longrightarrow> vs = desired))"

lemma containment_exact:
  assumes "camera_limits lo hi dz step" "length containment = length observations" "length frames = length observations"
  shows "\<exists>result. containment_aware_focus_values observations containment frames axis lo hi dz step = Some result
    \<and> containment_spec observations containment lo hi dz step result"
proof (cases "observations = []")
  case True
  then have "containment = []" using assms(2) by simp
  then show ?thesis
    using True by (simp add: containment_aware_focus_values_def containment_spec_def camera_path_def
        stabilize_tracked_centres_basis_points_def reactive_focus_values_def median_filtered_observations_def)
next
  case False
  obtain desired where d: "stabilize_tracked_centres_basis_points observations lo hi dz step = Some desired" "length desired = length observations"
      "paced step desired"
    using stabilize_ok [OF assms(1)] by blast
  have v: "valid_previous lo hi None" by (simp add: valid_previous_def)
  have len: "length frames = length containment" using assms(2,3) by simp
  note spec = reachable_loop_spec [OF assms(1) v len, of axis]
  show ?thesis
  proof (cases "reachable_loop axis lo hi step None (zip frames containment)")
    case (Inl e)
    then have "containment_spec observations containment lo hi dz step (Inl e)"
      using spec by (auto simp: containment_spec_def near_def)
    then show ?thesis using False d Inl by (simp add: containment_aware_focus_values_def)
  next
    case (Inr reach)
    with spec have reach: "linked_reach lo hi step None containment reach"
      "\<And>vs. camera_path lo hi step containment vs \<Longrightarrow> list_all2 (\<lambda>(l, u) v. inside l u v) reach vs"
      by (auto simp: near_def)
    have "length desired = length reach" using linked_reach_length [OF reach(1)] assms(2) d(2) by simp
    from choose_values_spec [OF assms(1) reach(1) this] obtain vs where
      vs: "choose_values step (zip desired reach) = Some vs" "camera_path lo hi step containment vs"
        "list_all2 (\<lambda>(l, u) v. inside l u v) reach desired \<and> paced step desired \<longrightarrow> vs = desired" by blast
    have "containment_spec observations containment lo hi dz step (Inr vs)"
      using vs(2,3) reach(2) d(1,3) by (auto simp: containment_spec_def)
    then show ?thesis using False d(1) Inr vs(1) by (simp add: containment_aware_focus_values_def)
  qed
qed

lemma focus_values_ok:
  assumes "camera_limits lo hi dz step" "length frames = length observations" "\<forall>ivs. intervals = Some ivs \<longrightarrow> length ivs = length observations"
  shows "\<exists>r. focus_values observations intervals frames axis lo hi dz step = Some r
    \<and> (\<forall>vs. r = Inr vs \<longrightarrow> length vs = length observations \<and> (\<forall>v \<in> set vs. inside lo hi v) \<and> paced step vs
          \<and> (\<forall>ivs. intervals = Some ivs \<longrightarrow> list_all2 (\<lambda>(a, b) v. inside a b v) ivs vs))"
proof (cases intervals)
  case None
  then show ?thesis using stabilize_ok [OF assms(1), of observations] by (auto simp: focus_values_def)
next
  case (Some ivs)
  then obtain r where r: "containment_aware_focus_values observations ivs frames axis lo hi dz step = Some r"
      "containment_spec observations ivs lo hi dz step r"
    using containment_exact [OF assms(1) _ assms(2), of ivs axis] assms(3) by auto
  have "length vs = length observations \<and> (\<forall>v \<in> set vs. inside lo hi v) \<and> paced step vs \<and> list_all2 (\<lambda>(a, b) v. inside a b v) ivs vs"
    if "r = Inr vs" for vs
  proof -
    have p: "list_all2 (\<lambda>(a, b) v. inside a b v \<and> inside lo hi v) ivs vs" "paced step vs"
      using r(2) that by (simp_all add: containment_spec_def camera_path_def)
    then have "length vs = length observations" using assms(3) Some by (simp add: list_all2_lengthD)
    moreover have "\<forall>v \<in> set vs. inside lo hi v" using p(1) by (fastforce simp: list_all2_conv_all_nth in_set_conv_nth)
    moreover have "list_all2 (\<lambda>(a, b) v. inside a b v) ivs vs" by (rule list_all2_mono [OF p(1)]) auto
    ultimately show ?thesis using p(2) by simp
  qed
  then show ?thesis using r(1) Some by (auto simp: focus_values_def)
qed

section \<open>The plan\<close>

lemma clamp_samples_ok:
  assumes "min_x \<le> max_x" "min_y \<le> max_y" "sorted (map sample_at ss)" "\<forall>p. previous = Some p \<longrightarrow> (\<forall>s \<in> set ss. p \<le> sample_at s)"
  shows "\<exists>r. clamp_samples conf duration min_x max_x min_y max_y previous ss = Some r
    \<and> (\<forall>out n. r = Inr (out, n) \<longrightarrow> map sample_at out = map sample_at ss \<and> sorted_wrt (<) (map sample_at ss)
          \<and> (\<forall>p. previous = Some p \<longrightarrow> (\<forall>s \<in> set ss. p < sample_at s))
          \<and> (\<forall>s \<in> set out. 0 \<le> sample_at s \<and> sample_at s < duration))"
  using assms(3,4)
proof (induction ss arbitrary: previous)
  case (Cons s ss)
  have "\<forall>s' \<in> set ss. sample_at s \<le> sample_at s'" "sorted (map sample_at ss)" using Cons.prems(1) by auto
  then obtain r where r: "clamp_samples conf duration min_x max_x min_y max_y (Some (sample_at s)) ss = Some r"
    "\<forall>out n. r = Inr (out, n) \<longrightarrow> map sample_at out = map sample_at ss \<and> sorted_wrt (<) (map sample_at ss)
          \<and> (\<forall>s' \<in> set ss. sample_at s < sample_at s') \<and> (\<forall>s \<in> set out. 0 \<le> sample_at s \<and> sample_at s < duration)"
    using Cons.IH [of "Some (sample_at s)"] by auto
  have "\<forall>p. previous = Some p \<longrightarrow> previous = Some (sample_at s) \<or> (\<forall>s' \<in> set (s # ss). p < sample_at s')"
    using Cons.prems by force
  then show ?case
    using r assms(1,2) by (cases r) (auto simp: clamped split: prod.split)
qed simp

definition matches :: "int \<Rightarrow> int \<Rightarrow> int \<Rightarrow> int \<Rightarrow> subject_focus_basis_point_constraint list \<Rightarrow> scaled_sample \<Rightarrow> scaled_focus_constraint \<Rightarrow> bool" where
  "matches lx hx ly hy constraints s f \<longleftrightarrow> (\<exists>c \<in> set constraints. constraint_at c = sample_at s
     \<and> focus_min_x f = max (min_x_basis_points c) lx \<and> focus_max_x f = min (max_x_basis_points c) hx
     \<and> focus_min_y f = max (min_y_basis_points c) ly \<and> focus_max_y f = min (max_y_basis_points c) hy)"

lemma collect_constraints_mem:
  "collect_constraints m cs = Inr m' \<Longrightarrow> e \<in> set m' \<Longrightarrow> e \<in> set m \<or> snd e \<in> set cs \<and> fst e = constraint_at (snd e)"
proof (induction cs arbitrary: m)
  case (Cons c cs)
  then have "e \<in> set (bt_insert (constraint_at c) c m) \<or> snd e \<in> set cs \<and> fst e = constraint_at (snd e)"
    by (auto simp: rbind_eq_Inr split: if_split_asm)
  then show ?case using set_bt_insert_subset [of "constraint_at c" c m] by auto
qed simp

lemma match_constraints_ok:
  assumes "match_constraints lx hx ly hy m ss = Inr fs" "\<forall>e \<in> set m. snd e \<in> set constraints \<and> fst e = constraint_at (snd e)"
  shows "list_all2 (matches lx hx ly hy constraints) ss fs"
  using assms
proof (induction ss arbitrary: m fs)
  case Nil
  then show ?case by (simp split: list.split_asm prod.split_asm)
next
  case (Cons s ss)
  obtain c where c: "bt_get (sample_at s) m = Some c" using Cons.prems(1) by (auto split: option.split_asm)
  then have "(sample_at s, c) \<in> set m" by (auto simp: bt_get_def dest: map_of_SomeD)
  then have mem: "c \<in> set constraints" "constraint_at c = sample_at s" using Cons.prems(2) by auto
  obtain fs' where fs: "match_constraints lx hx ly hy (bt_remove (sample_at s) m) ss = Inr fs'"
      "fs = \<lparr>focus_min_x = max (min_x_basis_points c) lx, focus_max_x = min (max_x_basis_points c) hx,
             focus_min_y = max (min_y_basis_points c) ly, focus_max_y = min (max_y_basis_points c) hy\<rparr> # fs'"
    using Cons.prems(1) c by (auto simp: Let_def rbind_eq_Inr split: if_split_asm)
  have "\<forall>e \<in> set (bt_remove (sample_at s) m). snd e \<in> set constraints \<and> fst e = constraint_at (snd e)"
    using Cons.prems(2) by (simp add: bt_remove_def)
  from Cons.IH [OF fs(1) this] show ?case using mem by (auto simp: fs(2) matches_def)
qed

lemma normalize_containment_ok:
  "normalize_containment_constraints ss constraints lx hx ly hy = Inr fs \<Longrightarrow> list_all2 (matches lx hx ly hy constraints) ss fs"
  by (auto simp: normalize_containment_constraints_def rbind_eq_Inr intro!: match_constraints_ok dest: collect_constraints_mem)

definition focus_follows :: "int \<Rightarrow> int \<Rightarrow> int \<Rightarrow> timecode list \<Rightarrow> automation_curve \<Rightarrow> bool" where
  "focus_follows lo hi step frames c \<longleftrightarrow> map key_at (keyframes c) = frames \<and> paced step (map key_value (keyframes c))
     \<and> (\<forall>k \<in> set (keyframes c). inside lo hi (key_value k) \<and> key_interpolation k = Linear)"

lemma focus_curve_follows:
  assumes "length vs = length ss" "\<forall>v \<in> set vs. inside lo hi v" "paced step vs"
  shows "focus_follows lo hi step (map sample_at ss) (focus_curve ss vs)"
proof -
  have "map key_at (keyframes (focus_curve ss vs)) = map sample_at (map fst (zip ss vs))"
    "map key_value (keyframes (focus_curve ss vs)) = map snd (zip ss vs)"
    by (simp_all add: focus_curve_def case_prod_beta)
  then show ?thesis
    using assms by (auto simp: focus_follows_def focus_curve_def dest: set_zip_rightD)
qed

lemma try_bind_Inr [simp]: "try_bind (Some (Inr a)) k = k a"
  and try_bind_Inl [simp]: "try_bind (Some (Inl e)) k = Some (Inl e)"
  by (simp_all add: try_bind_def)

text \<open>A chain of steps that never panics, with what holds when the whole chain succeeds.\<close>

definition yields :: "('e + 'a) option \<Rightarrow> ('a \<Rightarrow> bool) \<Rightarrow> bool" where
  "yields m P \<longleftrightarrow> (\<exists>r. m = Some r \<and> (\<forall>a. r = Inr a \<longrightarrow> P a))"

lemma yields_bind: "yields m P \<Longrightarrow> (\<And>a. P a \<Longrightarrow> yields (k a) Q) \<Longrightarrow> yields (try_bind m k) Q"
  by (auto simp: yields_def try_bind_def split: sum.split)

lemma yields_step: "(\<And>a. r = Inr a \<Longrightarrow> P a) \<Longrightarrow> yields (Some r) P"
  by (simp add: yields_def)

definition reframe_plan_ok ::
    "document \<Rightarrow> subject_reframe_settings \<Rightarrow> scaled_sample list \<Rightarrow> int \<Rightarrow> string \<times> string
      \<Rightarrow> subject_focus_basis_point_constraint list option \<Rightarrow> scaled_plan \<Rightarrow> bool" where
  "reframe_plan_ok doc settings samples scale names containment p \<longleftrightarrow>
     (let b = reframe_bounds settings; frames = map sample_at (scaled_samples p); step = maximum_focus_step_percent settings * scale
      in frames = sort (map sample_at samples) \<and> sorted_wrt (<) frames
       \<and> (\<exists>c d. doc_clip doc (reframe_clip settings) = Some c \<and> clip_duration doc c = Inr d \<and> (\<forall>t \<in> set frames. 0 \<le> t \<and> t < d))
       \<and> focus_follows (min_x_percent b * scale) (max_x_percent b * scale) step frames (scaled_x_curve p)
       \<and> focus_follows (min_y_percent b * scale) (max_y_percent b * scale) step frames (scaled_y_curve p)
       \<and> (\<forall>cs. containment = Some cs \<longrightarrow>
            (\<forall>k \<in> set (keyframes (scaled_x_curve p)). \<exists>c \<in> set cs. constraint_at c = key_at k
               \<and> inside (min_x_basis_points c) (max_x_basis_points c) (key_value k))
            \<and> (\<forall>k \<in> set (keyframes (scaled_y_curve p)). \<exists>c \<in> set cs. constraint_at c = key_at k
               \<and> inside (min_y_basis_points c) (max_y_basis_points c) (key_value k)))
       \<and> scaled_operations p = [SetEffectKeyframes (reframe_clip settings) (reframe_effect settings) (fst names) (scaled_x_curve p),
            SetEffectKeyframes (reframe_clip settings) (reframe_effect settings) (snd names) (scaled_y_curve p)]
       \<and> (\<exists>doc'. apply_batch doc (scaled_operations p) = Inr doc'))"

lemma check_reframe_request_Inr:
  assumes "check_reframe_request doc settings samples = Inr d"
  shows "\<exists>c. doc_clip doc (reframe_clip settings) = Some c \<and> clip_duration doc c = Inr d"
    and "0 \<le> min_x_percent (reframe_bounds settings)" "min_x_percent (reframe_bounds settings) \<le> max_x_percent (reframe_bounds settings)"
    and "max_x_percent (reframe_bounds settings) \<le> 100"
    and "0 \<le> min_y_percent (reframe_bounds settings)" "min_y_percent (reframe_bounds settings) \<le> max_y_percent (reframe_bounds settings)"
    and "max_y_percent (reframe_bounds settings) \<le> 100"
    and "focus_dead_zone_percent settings \<le> 25" "1 \<le> maximum_focus_step_percent settings" "maximum_focus_step_percent settings \<le> 25"
  using assms by (auto simp: check_reframe_request_def rbind_eq_Inr Let_def split: if_split_asm)

lemma contained_keys:
  assumes "list_all2 (matches lx hx ly hy cs) ss fs" "list_all2 (\<lambda>f v. inside (a f) (b f) v) fs vs"
    and "\<And>f c s. matches lx hx ly hy cs s f \<Longrightarrow> \<exists>c \<in> set cs. constraint_at c = sample_at s \<and> (\<forall>v. inside (a f) (b f) v \<longrightarrow> inside (a' c) (b' c) v)"
  shows "\<forall>k \<in> set (keyframes (focus_curve ss vs)). \<exists>c \<in> set cs. constraint_at c = key_at k \<and> inside (a' c) (b' c) (key_value k)"
  using assms(1,2)
proof (induction ss arbitrary: fs vs)
  case (Cons s ss)
  then obtain f fs' v vs' where fv: "fs = f # fs'" "vs = v # vs'" by (cases fs; cases vs) auto
  have "\<forall>k \<in> set (keyframes (focus_curve ss vs')). \<exists>c \<in> set cs. constraint_at c = key_at k \<and> inside (a' c) (b' c) (key_value k)"
    using Cons by (auto simp: fv)
  moreover obtain c where "c \<in> set cs" "constraint_at c = sample_at s" "\<forall>v. inside (a f) (b f) v \<longrightarrow> inside (a' c) (b' c) v"
    using assms(3) [of s f] Cons.prems(1) by (auto simp: fv)
  ultimately show ?case using Cons.prems(2) by (auto simp: fv focus_curve_def)
qed (simp add: focus_curve_def)

lemma contained_x:
  assumes "list_all2 (matches lx hx ly hy cs) ss fs" "list_all2 (\<lambda>f v. inside (focus_min_x f) (focus_max_x f) v) fs vs"
  shows "\<forall>k \<in> set (keyframes (focus_curve ss vs)). \<exists>c \<in> set cs. constraint_at c = key_at k
    \<and> inside (min_x_basis_points c) (max_x_basis_points c) (key_value k)"
  by (rule contained_keys [OF assms]) (auto simp: matches_def inside_def intro: bexI)

lemma contained_y:
  assumes "list_all2 (matches lx hx ly hy cs) ss fs" "list_all2 (\<lambda>f v. inside (focus_min_y f) (focus_max_y f) v) fs vs"
  shows "\<forall>k \<in> set (keyframes (focus_curve ss vs)). \<exists>c \<in> set cs. constraint_at c = key_at k
    \<and> inside (min_y_basis_points c) (max_y_basis_points c) (key_value k)"
  by (rule contained_keys [OF assms]) (auto simp: matches_def inside_def intro: bexI)

lemma axis_limits:
  assumes "scale \<in> {1, 100}" "0 \<le> lo" "lo \<le> hi" "hi \<le> 100" "0 \<le> dz" "dz \<le> 25" "1 \<le> step" "step \<le> 25"
  shows "camera_limits (saturating_mul_i64 lo scale) (saturating_mul_i64 hi scale) (saturating_mul_i64 dz scale) (saturating_mul_i64 step scale)"
    "saturating_mul_i64 lo scale = lo * scale" "saturating_mul_i64 hi scale = hi * scale" "saturating_mul_i64 step scale = step * scale"
  using assms by (auto simp: saturating_mul_i64_def clamp_i64_def int_width_defs camera_limits_def)

lemma focus_axis:
  assumes "camera_limits lo hi dz step"
    and "\<forall>cs. constraints = Some cs \<longrightarrow> length cs = length ss"
  shows "yields (focus_values (map coordinate ss) (map_option (map (\<lambda>c. (a c, b c))) constraints) (map sample_at ss) axis lo hi dz step)
     (\<lambda>vs. focus_follows lo hi step (map sample_at ss) (focus_curve ss vs)
        \<and> (\<forall>cs. constraints = Some cs \<longrightarrow> list_all2 (\<lambda>c v. inside (a c) (b c) v) cs vs))"
proof -
  let ?ivs = "map_option (map (\<lambda>c. (a c, b c))) constraints"
  have "\<forall>ivs. ?ivs = Some ivs \<longrightarrow> length ivs = length (map coordinate ss)" using assms(2) by auto
  moreover have "length (map sample_at ss) = length (map coordinate ss)" by simp
  ultimately obtain r where r: "focus_values (map coordinate ss) ?ivs (map sample_at ss) axis lo hi dz step = Some r"
    "\<forall>vs. r = Inr vs \<longrightarrow> length vs = length (map coordinate ss) \<and> (\<forall>v \<in> set vs. inside lo hi v) \<and> paced step vs
          \<and> (\<forall>ivs. ?ivs = Some ivs \<longrightarrow> list_all2 (\<lambda>(a, b) v. inside a b v) ivs vs)"
    using focus_values_ok [OF assms(1), of "map sample_at ss" "map coordinate ss" ?ivs axis] by blast
  show ?thesis
    unfolding r(1) by (rule yields_step) (use r(2) in \<open>auto intro!: focus_curve_follows simp: list_all2_map1\<close>)
qed

lemma scaled_plan_ok:
  assumes "scale \<in> {1, 100}" "0 \<le> focus_dead_zone_percent settings"
  shows "yields (plan_subject_reframe_scaled doc settings samples scale names containment)
    (reframe_plan_ok doc settings samples scale names containment)"
  unfolding plan_subject_reframe_scaled_def Let_def
proof (rule yields_bind, rule yields_step, assumption, goal_cases)
  case (1 d)
  note req = check_reframe_request_Inr [OF 1]
  note X = axis_limits [OF assms(1) req(2-4) assms(2) req(8-10)] and Y = axis_limits [OF assms(1) req(5-7) assms(2) req(8-10)]
  let ?b = "reframe_bounds settings"
  let ?ss = "sort_key sample_at samples"
  have le: "saturating_mul_i64 (min_x_percent ?b) scale \<le> saturating_mul_i64 (max_x_percent ?b) scale"
    "saturating_mul_i64 (min_y_percent ?b) scale \<le> saturating_mul_i64 (max_y_percent ?b) scale"
    using X(1) Y(1) by (simp_all add: camera_limits_def)
  have clamp: "yields (clamp_samples (minimum_confidence_basis_points settings) d (saturating_mul_i64 (min_x_percent ?b) scale)
      (saturating_mul_i64 (max_x_percent ?b) scale) (saturating_mul_i64 (min_y_percent ?b) scale) (saturating_mul_i64 (max_y_percent ?b) scale)
      None ?ss)
    (\<lambda>(out, n). map sample_at out = map sample_at ?ss \<and> sorted_wrt (<) (map sample_at ?ss) \<and> (\<forall>s \<in> set out. 0 \<le> sample_at s \<and> sample_at s < d))"
    using clamp_samples_ok [OF le, of ?ss None "minimum_confidence_basis_points settings" d] by (force simp: yields_def)
  show ?case
  proof (rule yields_bind [OF clamp], clarify, goal_cases)
    case (1 out n)
    note out = this
    show ?case
    proof (rule yields_bind [where P = "\<lambda>r. case containment of None \<Rightarrow> r = None | Some cs \<Rightarrow> \<exists>fs. r = Some fs
        \<and> list_all2 (matches (saturating_mul_i64 (min_x_percent ?b) scale) (saturating_mul_i64 (max_x_percent ?b) scale)
            (saturating_mul_i64 (min_y_percent ?b) scale) (saturating_mul_i64 (max_y_percent ?b) scale) cs) out fs"], goal_cases)
      case 1
      show ?case
        by (rule yields_step) (auto simp: rbind_eq_Inr split: option.split_asm option.split dest: normalize_containment_ok)
    next
      case (2 constraints)
      then have len: "\<forall>fs. constraints = Some fs \<longrightarrow> length fs = length out"
        by (auto split: option.split_asm dest: list_all2_lengthD)
      show ?case
      proof (rule yields_bind [OF focus_axis [OF X(1) len]], rule yields_bind [OF focus_axis [OF Y(1) len]], rule yields_step, goal_cases)
        case (1 xs ys p)
        have xk: "\<forall>cs. containment = Some cs \<longrightarrow> (\<forall>k \<in> set (keyframes (focus_curve out xs)). \<exists>c \<in> set cs. constraint_at c = key_at k
            \<and> inside (min_x_basis_points c) (max_x_basis_points c) (key_value k))"
          using 1(1) 2 contained_x by (fastforce split: option.split_asm)
        have yk: "\<forall>cs. containment = Some cs \<longrightarrow> (\<forall>k \<in> set (keyframes (focus_curve out ys)). \<exists>c \<in> set cs. constraint_at c = key_at k
            \<and> inside (min_y_basis_points c) (max_y_basis_points c) (key_value k))"
          using 1(2) 2 contained_y by (fastforce split: option.split_asm)
        obtain doc' where p: "p = \<lparr>scaled_samples = out, scaled_clamped = n, scaled_x_curve = focus_curve out xs,
            scaled_y_curve = focus_curve out ys, scaled_operations =
              [SetEffectKeyframes (reframe_clip settings) (reframe_effect settings) (fst names) (focus_curve out xs),
               SetEffectKeyframes (reframe_clip settings) (reframe_effect settings) (snd names) (focus_curve out ys)]\<rparr>"
          and "apply_batch doc (scaled_operations p) = Inr doc'"
          using 1(3) by (auto simp: rbind_eq_Inr)
        moreover have fr: "map sample_at ?ss = sort (map sample_at samples)"
          by (rule properties_for_sort [symmetric]) simp_all
        moreover have frames: "map sample_at out = sort (map sample_at samples)" "sorted_wrt (<) (map sample_at out)"
          using out(1,2) fr by simp_all
        moreover have "\<exists>c. doc_clip doc (reframe_clip settings) = Some c \<and> (\<exists>d. clip_duration doc c = Inr d
            \<and> (\<forall>s \<in> set samples. 0 \<le> sample_at s \<and> sample_at s < d))"
        proof -
          have "sample_at ` set out = sample_at ` set samples" using arg_cong [OF frames(1), of set] by simp
          then have "\<forall>s \<in> set samples. 0 \<le> sample_at s \<and> sample_at s < d" using out(3) by (metis imageE imageI)
          then show ?thesis using req(1) by blast
        qed
        ultimately show ?case
          using X(2-4) Y(2,3) 1(1,2) xk yk unfolding reframe_plan_ok_def Let_def by (simp add: frames(1))
      qed
    qed
  qed
qed

section \<open>Properties\<close>

text \<open>
  Claim C19. The containment pass is complete. For limits below saturation and as many intervals and frames as
  observations, \<^verbatim>\<open>containment_aware_focus_values\<close> never panics: it returns a camera path, one value per frame inside the
  interval of the frame and the focus bounds with no step above the maximum, whenever there is one, and the smoothed
  path itself when that is one; it reports \<^verbatim>\<open>ContainmentInfeasible\<close> only when no such path exists.
\<close>

theorem containment_finds_every_path:
  assumes "camera_limits minimum maximum dead_zone maximum_step"
    and "length containment = length observations" "length frames = length observations"
  shows "\<exists>result. containment_aware_focus_values observations containment frames axis minimum maximum dead_zone maximum_step = Some result
    \<and> (case result of
         Inl e \<Rightarrow> \<not> (\<exists>vs. camera_path minimum maximum maximum_step containment vs)
       | Inr vs \<Rightarrow> camera_path minimum maximum maximum_step containment vs
           \<and> (\<forall>desired. stabilize_tracked_centres_basis_points observations minimum maximum dead_zone maximum_step = Some desired
                 \<and> camera_path minimum maximum maximum_step containment desired \<longrightarrow> vs = desired))"
  using containment_exact [OF assms, of axis] by (simp only: containment_spec_def)

theorem containment_finds_every_path_witness:
  "containment_aware_focus_values [5000, 5000, 5000] [(0, 10000), (0, 10000), (5600, 10000)] [0, 1, 2] ''horizontal'' 0 10000 600 400
     = Some (Inr [5000, 5200, 5600])
   \<and> \<not> (\<exists>vs. camera_path 0 10000 200 [(0, 5000), (5600, 10000)] vs)"
proof -
  have l: "camera_limits 0 10000 600 400" "camera_limits 0 10000 600 200" by (simp_all add: camera_limits_def)
  have r: "containment_aware_focus_values [5000, 5000, 5000] [(0, 10000), (0, 10000), (5600, 10000)] [0, 1, 2] ''horizontal'' 0 10000 600 400
      = Some (Inr [5000, 5200, 5600])" by code_simp
  have "containment_aware_focus_values [5000, 5000] [(0, 5000), (5600, 10000)] [0, 1] ''horizontal'' 0 10000 600 200
      = Some (Inl (ContainmentInfeasible 1 ''horizontal'' 5600 10000 (- 200) 5200))" by code_simp
  then have "\<not> (\<exists>vs. camera_path 0 10000 200 [(0, 5000), (5600, 10000)] vs)"
    using containment_finds_every_path [OF l(2), of "[(0, 5000), (5600, 10000)]" "[5000, 5000]" "[0, 1]" "''horizontal''"] by simp
  with r show ?thesis by blast
qed

text \<open>
  Claim C18. A reframing plan keeps its promises. In percent or basis points the planner never panics, and a plan it
  returns has one linear key for every sample, at strictly increasing frames inside the clip; its values stay inside the
  focus bounds, no two neighbours differ by more than the maximum step, every key lies in the interval given for its
  frame when there are intervals, and the two operations are accepted as a batch.
\<close>

theorem reframe_plan_keeps_promises:
  assumes "scale \<in> {1, 100}" "0 \<le> focus_dead_zone_percent settings"
  shows "\<exists>r. plan_subject_reframe_scaled doc settings samples scale names containment = Some r
    \<and> (\<forall>p. r = Inr p \<longrightarrow> reframe_plan_ok doc settings samples scale names containment p)"
  using scaled_plan_ok [OF assms] by (simp only: yields_def)

definition sample_reframe_doc :: document where
  "sample_reframe_doc = sample_project\<lparr>tracks := map (\<lambda>t. t\<lparr>clips := map (\<lambda>c. c\<lparr>effects := if clip_id c = 1 then
     [\<lparr>effect_id = 1, effect_name = ''reframe'', parameters = [], effect_keyframes = [], effect_enabled = True, effect_enabled_curve = None\<rparr>]
     else effects c\<rparr>) (clips t)\<rparr>) (tracks sample_project)\<rparr>"

definition sample_reframe_settings :: subject_reframe_settings where
  "sample_reframe_settings = \<lparr>reframe_clip = 1, reframe_effect = 1, reframe_bounds = reframe_focus_bounds_default,
     minimum_confidence_basis_points = 5000, focus_dead_zone_percent = 6, maximum_focus_step_percent = 2\<rparr>"

definition sample_centres :: "scaled_sample list" where
  "sample_centres = [\<lparr>sample_at = 4, sample_x = 9000, sample_y = 5000, sample_confidence = 9000\<rparr>,
     \<lparr>sample_at = 0, sample_x = 5000, sample_y = 5000, sample_confidence = 9000\<rparr>,
     \<lparr>sample_at = 2, sample_x = 9000, sample_y = 12000, sample_confidence = 9000\<rparr>]"

lemma sample_reframe_computed:
  "(case plan_subject_reframe_scaled sample_reframe_doc sample_reframe_settings sample_centres 100
      (''focus_x_basis_points'', ''focus_y_basis_points'') None of
     Some (Inr p) \<Rightarrow> map key_value (keyframes (scaled_x_curve p)) = [5000, 5200, 5400]
       \<and> map key_value (keyframes (scaled_y_curve p)) = [5000, 5000, 5000] \<and> scaled_clamped p = 1
   | _ \<Rightarrow> False)"
  by code_simp

theorem reframe_plan_keeps_promises_witness:
  "\<exists>p. plan_subject_reframe_scaled sample_reframe_doc sample_reframe_settings sample_centres 100
      (''focus_x_basis_points'', ''focus_y_basis_points'') None = Some (Inr p)
    \<and> map key_value (keyframes (scaled_x_curve p)) = [5000, 5200, 5400]
    \<and> reframe_plan_ok sample_reframe_doc sample_reframe_settings sample_centres 100
        (''focus_x_basis_points'', ''focus_y_basis_points'') None p"
proof -
  have h: "(100::int) \<in> {1, 100}" "0 \<le> focus_dead_zone_percent sample_reframe_settings"
    by (simp_all add: sample_reframe_settings_def)
  show ?thesis
    using sample_reframe_computed
      reframe_plan_keeps_promises [OF h, of sample_reframe_doc sample_centres "(''focus_x_basis_points'', ''focus_y_basis_points'')" None]
    by (auto split: option.split_asm sum.split_asm)
qed

end
