(* ===== verification/Multicam.thy ===== *)
theory Multicam
  imports Transcript
begin

text \<open>
  The speaker-aware multicam planner of \<^verbatim>\<open>crates/kinewright-core/src/multicam.rs\<close>: from diarized transcript words and a sync
  group to overwrites on one video track. \<open>lower\<close> stands for \<^verbatim>\<open>str::to_lowercase\<close>, whose table is data of the Unicode
  standard.
\<close>

section \<open>Definitions\<close>

subsection \<open>Data\<close>

record speaker_angle_assignment =
  assignment_speaker :: utext
  assignment_angle_name :: utext

record speaker_multicam_settings =
  multicam_sync_group :: sync_group_id
  multicam_target_track :: track_id
  multicam_group_start :: timecode
  multicam_group_end :: timecode
  multicam_record_start :: timecode
  maximum_word_gap_frames :: timecode
  minimum_shot_frames :: timecode
  speaker_assignments :: "speaker_angle_assignment list"

record speaker_multicam_cut =
  cut_speakers :: "utext list"
  cut_angle_name :: utext
  cut_asset :: asset_id
  cut_group_start :: timecode
  cut_group_end :: timecode
  cut_timeline_start :: timecode
  cut_timeline_end :: timecode
  cut_source_in :: timecode

record speaker_multicam_plan =
  plan_sync_group :: sync_group_id
  plan_target_track :: track_id
  plan_reference_asset :: asset_id
  plan_group_start :: timecode
  plan_group_end :: timecode
  plan_record_start :: timecode
  suppressed_short_shots :: nat
  plan_cuts :: "speaker_multicam_cut list"
  multicam_operations :: "operation list"

datatype speaker_multicam_error =
    MissingSyncGroup_Multicam sync_group_id
  | MissingTargetTrack track_id
  | TargetTrackIsAudio track_id
  | InvalidGroupRange timecode timecode
  | InvalidRecordStart timecode
  | InvalidTimingPolicy
  | MissingAssignments
  | EmptyAssignment
  | DuplicateSpeakerAssignment utext
  | DuplicateAngleName sync_group_id utext
  | UnknownAngle utext
  | MissingAsset_Multicam asset_id
  | AngleHasNoVideo utext asset_id
  | ReferenceAssetNotInGroup asset_id
  | TranscriptRateMismatch
  | InvalidTranscriptWord nat timecode timecode
  | MissingSpeakerLabel nat
  | UnmappedSpeaker utext
  | OverlappingSpeakers timecode
  | NoSpeakerWords
  | AllShotsSuppressed
  | AngleDoesNotCover utext timecode timecode
  | TimeOverflow_Multicam
  | PlanNotApplicable_Multicam batch_error
  | TimeMapping_Multicam time_mapping_error

record raw_turn =
  turn_speakers :: "utext list"
  turn_angle_key :: utext
  turn_angle_name :: utext
  turn_start :: timecode
  turn_end :: timecode

subsection \<open>Names and times\<close>

definition normalized_name :: "(utext \<Rightarrow> utext) \<Rightarrow> utext \<Rightarrow> utext" where
  "normalized_name lower value = lower (trim value)"

definition member_angle :: "sync_group_member \<Rightarrow> utext" where
  "member_angle m = utf8_chars (angle_name m)"

definition add_offset :: "timecode \<Rightarrow> timecode \<Rightarrow> speaker_multicam_error + timecode" where
  "add_offset left right = ok_or TimeOverflow_Multicam (timecode_checked_add left right)"

definition intersect :: "trange \<Rightarrow> trange \<Rightarrow> trange option" where
  "intersect left right =
     (let start = max (r_start left) (r_start right); end = min (r_end left) (r_end right)
      in if start < end then Some (rng start end) else None)"

subsection \<open>Angles and speakers\<close>

fun collect_angles ::
    "(utext \<Rightarrow> utext) \<Rightarrow> document \<Rightarrow> sync_group_id \<Rightarrow> (utext, sync_group_member) btree \<Rightarrow> sync_group_member list
      \<Rightarrow> speaker_multicam_error + (utext, sync_group_member) btree" where
  "collect_angles lower doc grp angles [] = Inr angles"
| "collect_angles lower doc grp angles (member # rest) =
     (let key = normalized_name lower (member_angle member)
      in if bt_contains key angles then Inl (DuplicateAngleName grp (member_angle member))
         else rbind (ok_or (MissingAsset_Multicam (member_asset member)) (doc_asset doc (member_asset member))) (\<lambda>_.
              collect_angles lower doc grp (bt_insert key member angles) rest))"

text \<open>The assignments: from the normalized speaker to the key of the angle and the name to display.\<close>

fun collect_assignments ::
    "(utext \<Rightarrow> utext) \<Rightarrow> document \<Rightarrow> (utext, sync_group_member) btree \<Rightarrow> (utext, utext \<times> utext) btree
      \<Rightarrow> speaker_angle_assignment list \<Rightarrow> speaker_multicam_error + (utext, utext \<times> utext) btree" where
  "collect_assignments lower doc angles assignments [] = Inr assignments"
| "collect_assignments lower doc angles assignments (a # rest) =
     (let speaker_key = normalized_name lower (assignment_speaker a);
          angle_key = normalized_name lower (assignment_angle_name a)
      in if speaker_key = [] \<or> angle_key = [] then Inl EmptyAssignment
         else rbind (ok_or (UnknownAngle (assignment_angle_name a)) (bt_get angle_key angles)) (\<lambda>member.
              rbind (ok_or (MissingAsset_Multicam (member_asset member)) (doc_asset doc (member_asset member))) (\<lambda>asset.
              if \<not> media_kind_supports (asset_kind asset) TrackVideo
              then Inl (AngleHasNoVideo (member_angle member) (member_asset member))
              else if bt_contains speaker_key assignments then Inl (DuplicateSpeakerAssignment (assignment_speaker a))
              else collect_assignments lower doc angles
                     (bt_insert speaker_key (angle_key, trim (assignment_speaker a)) assignments) rest)))"

subsection \<open>Turns\<close>

definition merge_turn :: "raw_turn \<Rightarrow> raw_turn \<Rightarrow> raw_turn" where
  "merge_turn previous turn = previous\<lparr>turn_end := max (turn_end previous) (turn_end turn),
     turn_speakers := fold (\<lambda>s ss. if s \<in> set ss then ss else ss @ [s]) (turn_speakers turn) (turn_speakers previous)\<rparr>"

definition add_turn :: "timecode \<Rightarrow> raw_turn \<Rightarrow> raw_turn list \<Rightarrow> speaker_multicam_error + raw_turn list" where
  "add_turn maximum_gap raw angle_turns =
     (if angle_turns = [] then Inr [raw]
      else let previous = last angle_turns
      in rbind (add_offset (turn_end previous) maximum_gap) (\<lambda>merge_limit.
         if turn_start raw \<le> merge_limit then Inr (butlast angle_turns @ [merge_turn previous raw])
         else Inr (angle_turns @ [raw])))"

text \<open>The turn of one word, \<open>None\<close> when the word is outside the requested range.\<close>

definition word_turn ::
    "(utext \<Rightarrow> utext) \<Rightarrow> document \<Rightarrow> asset_transcript \<Rightarrow> media_asset \<Rightarrow> timecode \<Rightarrow> trange \<Rightarrow> (utext, sync_group_member) btree
      \<Rightarrow> (utext, utext \<times> utext) btree \<Rightarrow> nat \<Rightarrow> transcript_word \<Rightarrow> speaker_multicam_error + raw_turn option" where
  "word_turn lower doc transcript reference_asset offset requested angles assignments index word =
     (if word_start word < 0 \<or> word_end word \<le> word_start word \<or> asset_duration reference_asset < word_end word
      then Inl (InvalidTranscriptWord index (word_start word) (word_end word))
      else rbind (map_err TimeMapping_Multicam (map_frames (word_start word) (transcript_fps transcript) (doc_fps doc))) (\<lambda>mapped_start.
           rbind (map_err TimeMapping_Multicam (map_frames (word_end word) (transcript_fps transcript) (doc_fps doc))) (\<lambda>mapped_end.
           rbind (add_offset mapped_start offset) (\<lambda>group_word_start.
           rbind (add_offset mapped_end offset) (\<lambda>group_word_end.
           case intersect (rng group_word_start group_word_end) requested of
             None \<Rightarrow> Inr None
           | Some intersection \<Rightarrow>
               rbind (ok_or (MissingSpeakerLabel index)
                        (Option.bind (map_option trim (word_speaker word)) (\<lambda>s. if s = [] then None else Some s))) (\<lambda>speaker.
               rbind (ok_or (UnmappedSpeaker speaker) (bt_get (normalized_name lower speaker) assignments)) (\<lambda>(angle_key, display_speaker).
               rbind (ok_or (UnknownAngle angle_key) (bt_get angle_key angles)) (\<lambda>member.
               Inr (Some \<lparr>turn_speakers = [display_speaker], turn_angle_key = angle_key, turn_angle_name = member_angle member,
                          turn_start = r_start intersection, turn_end = r_end intersection\<rparr>)))))))))"

fun collect_turns ::
    "(nat \<Rightarrow> transcript_word \<Rightarrow> speaker_multicam_error + raw_turn option) \<Rightarrow> timecode \<Rightarrow> nat \<Rightarrow> (utext, raw_turn list) btree
      \<Rightarrow> transcript_word list \<Rightarrow> speaker_multicam_error + (utext, raw_turn list) btree" where
  "collect_turns turn_of maximum_gap index words_by_angle [] = Inr words_by_angle"
| "collect_turns turn_of maximum_gap index words_by_angle (word # words) =
     rbind (turn_of index word) (\<lambda>turn.
     case turn of
       None \<Rightarrow> collect_turns turn_of maximum_gap (index + 1) words_by_angle words
     | Some raw \<Rightarrow>
         rbind (add_turn maximum_gap raw (case bt_get (turn_angle_key raw) words_by_angle of Some ts \<Rightarrow> ts | None \<Rightarrow> [])) (\<lambda>angle_turns.
         collect_turns turn_of maximum_gap (index + 1) (bt_insert (turn_angle_key raw) angle_turns words_by_angle) words))"

definition turn_order :: "raw_turn \<Rightarrow> timecode \<times> timecode \<times> utext \<times> utext list" where
  "turn_order t = (turn_start t, turn_end t, turn_angle_key t, turn_speakers t)"

definition long_enough :: "timecode \<Rightarrow> raw_turn \<Rightarrow> bool" where
  "long_enough minimum_frames t \<longleftrightarrow>
     (case timecode_checked_sub (turn_end t) (turn_start t) of Some duration \<Rightarrow> minimum_frames \<le> duration | None \<Rightarrow> False)"

definition retain_turn :: "raw_turn \<Rightarrow> raw_turn list \<Rightarrow> speaker_multicam_error + raw_turn list" where
  "retain_turn turn shots =
     (if shots = [] then Inr [turn]
      else let previous = last shots
      in if turn_start turn < turn_end previous \<and> turn_angle_key turn \<noteq> turn_angle_key previous
         then Inl (OverlappingSpeakers (turn_start turn))
         else if turn_angle_key turn = turn_angle_key previous then Inr (butlast shots @ [merge_turn previous turn])
         else Inr (shots @ [turn]))"

fun cover_turns :: "timecode \<Rightarrow> timecode \<Rightarrow> raw_turn list \<Rightarrow> raw_turn list" where
  "cover_turns group_end coverage_start [] = []"
| "cover_turns group_end coverage_start [turn] = [turn\<lparr>turn_start := coverage_start, turn_end := group_end\<rparr>]"
| "cover_turns group_end coverage_start (turn # next # rest) =
     (let silence = saturating_sub_i64 (turn_start next) (turn_end turn);
          coverage_end = saturating_add_i64 (turn_end turn) (silence sdiv 2)
      in turn\<lparr>turn_start := coverage_start, turn_end := coverage_end\<rparr> # cover_turns group_end coverage_end (next # rest))"

subsection \<open>The plan\<close>

definition cut_of ::
    "document \<Rightarrow> speaker_multicam_settings \<Rightarrow> (utext, sync_group_member) btree \<Rightarrow> raw_turn \<Rightarrow> speaker_multicam_error + speaker_multicam_cut" where
  "cut_of doc settings angles turn =
     rbind (ok_or (UnknownAngle (turn_angle_name turn)) (bt_get (turn_angle_key turn) angles)) (\<lambda>member.
     rbind (ok_or (MissingAsset_Multicam (member_asset member)) (doc_asset doc (member_asset member))) (\<lambda>asset.
     rbind (ok_or TimeOverflow_Multicam (timecode_checked_sub (turn_start turn) (member_offset member))) (\<lambda>angle_project_frame.
     if angle_project_frame < 0 then Inl (AngleDoesNotCover (member_angle member) (turn_start turn) (member_offset member))
     else rbind (map_err TimeMapping_Multicam (map_frames angle_project_frame (doc_fps doc) (asset_fps asset))) (\<lambda>source_in.
     if asset_duration asset \<le> source_in
     then Inl (AngleDoesNotCover (member_angle member) (turn_start turn) (member_offset member))
     else rbind (ok_or TimeOverflow_Multicam (timecode_checked_sub (turn_start turn) (multicam_group_start settings))) (\<lambda>record_offset.
          rbind (add_offset (multicam_record_start settings) record_offset) (\<lambda>start.
          rbind (ok_or TimeOverflow_Multicam (timecode_checked_sub (turn_end turn) (turn_start turn))) (\<lambda>shot_duration.
          rbind (add_offset start shot_duration) (\<lambda>end.
          Inr \<lparr>cut_speakers = turn_speakers turn, cut_angle_name = turn_angle_name turn, cut_asset = member_asset member,
               cut_group_start = turn_start turn, cut_group_end = turn_end turn, cut_timeline_start = start,
               cut_timeline_end = end, cut_source_in = source_in\<rparr>))))))))"

definition cut_operation :: "track_id \<Rightarrow> speaker_multicam_cut \<Rightarrow> operation" where
  "cut_operation target k = ThreePointEdit target (cut_asset k) (Some (cut_source_in k)) None
     (Some (cut_timeline_start k)) (Some (cut_timeline_end k)) Overwrite"

text \<open>The checks of the settings, up to the sync group.\<close>

definition check_multicam_request :: "document \<Rightarrow> speaker_multicam_settings \<Rightarrow> speaker_multicam_error + sync_group" where
  "check_multicam_request doc settings =
     (if multicam_group_end settings \<le> multicam_group_start settings
      then Inl (InvalidGroupRange (multicam_group_start settings) (multicam_group_end settings))
      else if multicam_record_start settings < 0 then Inl (InvalidRecordStart (multicam_record_start settings))
      else if maximum_word_gap_frames settings < 0 \<or> minimum_shot_frames settings < 0 then Inl InvalidTimingPolicy
      else rbind (ok_or (MissingSyncGroup_Multicam (multicam_sync_group settings))
                   (find (\<lambda>g. sync_group_id g = multicam_sync_group settings) (sync_groups (catalog doc)))) (\<lambda>grp.
           rbind (ok_or (MissingTargetTrack (multicam_target_track settings))
                   (find (\<lambda>t. track_id t = multicam_target_track settings) (tracks doc))) (\<lambda>target.
           if track_kind target \<noteq> TrackVideo then Inl (TargetTrackIsAudio (track_id target)) else Inr grp)))"

definition reference_member ::
    "document \<Rightarrow> asset_transcript \<Rightarrow> sync_group \<Rightarrow> speaker_multicam_error + (sync_group_member \<times> media_asset)" where
  "reference_member doc transcript grp =
     rbind (ok_or (ReferenceAssetNotInGroup (transcript_asset transcript))
              (find (\<lambda>m. member_asset m = transcript_asset transcript) (members grp))) (\<lambda>reference.
     rbind (ok_or (MissingAsset_Multicam (member_asset reference)) (doc_asset doc (member_asset reference))) (\<lambda>reference_asset.
     if transcript_fps transcript \<noteq> asset_fps reference_asset then Inl TranscriptRateMismatch
     else Inr (reference, reference_asset)))"

text \<open>From the turns of each angle to the shots, with the number of suppressed ones.\<close>

definition shots_of ::
    "speaker_multicam_settings \<Rightarrow> (utext, raw_turn list) btree \<Rightarrow> speaker_multicam_error + (raw_turn list \<times> nat)" where
  "shots_of settings words_by_angle =
     (if words_by_angle = [] then Inl NoSpeakerWords
      else let turns = sort_key turn_order (concat (bt_values words_by_angle));
               kept = filter (long_enough (minimum_shot_frames settings)) turns
      in if kept = [] then Inl AllShotsSuppressed
         else rbind (fold_res retain_turn kept []) (\<lambda>shots.
              Inr (cover_turns (multicam_group_end settings) (multicam_group_start settings) shots, length turns - length kept)))"

definition plan_speaker_multicam ::
    "(utext \<Rightarrow> utext) \<Rightarrow> document \<Rightarrow> asset_transcript \<Rightarrow> speaker_multicam_settings \<Rightarrow> speaker_multicam_error + speaker_multicam_plan" where
  "plan_speaker_multicam lower doc transcript settings =
     rbind (check_multicam_request doc settings) (\<lambda>grp.
     rbind (collect_angles lower doc (sync_group_id grp) [] (members grp)) (\<lambda>angles.
     rbind (reference_member doc transcript grp) (\<lambda>(reference, reference_asset).
     if speaker_assignments settings = [] then Inl MissingAssignments
     else rbind (collect_assignments lower doc angles [] (speaker_assignments settings)) (\<lambda>assignments.
     rbind (collect_turns
              (word_turn lower doc transcript reference_asset (member_offset reference)
                 (rng (multicam_group_start settings) (multicam_group_end settings)) angles assignments)
              (maximum_word_gap_frames settings) 0 [] (transcript_words transcript)) (\<lambda>words_by_angle.
     rbind (shots_of settings words_by_angle) (\<lambda>(shots, suppressed).
     rbind (map_res (cut_of doc settings angles) shots) (\<lambda>cuts.
     let ops = map (cut_operation (multicam_target_track settings)) (rev cuts)
     in rbind (map_err PlanNotApplicable_Multicam (apply_batch doc ops)) (\<lambda>_.
        Inr \<lparr>plan_sync_group = multicam_sync_group settings, plan_target_track = multicam_target_track settings,
             plan_reference_asset = member_asset reference, plan_group_start = multicam_group_start settings,
             plan_group_end = multicam_group_end settings, plan_record_start = multicam_record_start settings,
             suppressed_short_shots = suppressed, plan_cuts = cuts, multicam_operations = ops\<rparr>))))))))"

end
