(* ===== verification/Overwrite.thy ===== *)
theory Overwrite
  imports Timeline_Props Operation
begin

text \<open>
  The overwrite arm of the three-point edit (\<^verbatim>\<open>clear_track_range\<close> and \<^verbatim>\<open>three_point_edit\<close> of \<^verbatim>\<open>operation.rs\<close>), seen on one
  track: what it puts there, what it keeps, and that it touches nothing else.
\<close>

section \<open>Edits of one track\<close>

definition with_clips :: "nat \<Rightarrow> clip list \<Rightarrow> document \<Rightarrow> document" where
  "with_clips k cs = upd_clips k (\<lambda>_. cs)"

abbreviation track_clips :: "document \<Rightarrow> nat \<Rightarrow> clip list" where
  "track_clips doc k \<equiv> clips (tracks doc ! k)"

abbreviation unique_ids :: "document \<Rightarrow> bool" where
  "unique_ids doc \<equiv> distinct (map clip_id (all_clips doc))"

lemma with_clips_frame [simp]:
  "media_pool (with_clips k cs doc) = media_pool doc" "doc_fps (with_clips k cs doc) = doc_fps doc"
  "length (tracks (with_clips k cs doc)) = length (tracks doc)"
  by (simp_all add: with_clips_def)

lemma with_clips_end [simp]: "clip_end (with_clips k cs doc) c = clip_end doc c"
  by (rule clip_end_cong) simp_all

lemma with_clips_at [simp]: "k < length (tracks doc) \<Longrightarrow> track_clips (with_clips k cs doc) k = cs"
  by (simp add: with_clips_def)

lemma tracks_with_clips: "tracks (with_clips k cs doc) = (tracks doc)[k := (tracks doc ! k)\<lparr>clips := cs\<rparr>]"
  by (simp add: with_clips_def upd_clips_def upd_track_def)

lemma with_clips_other: "j \<noteq> k \<Longrightarrow> tracks (with_clips k cs doc) ! j = tracks doc ! j"
  by (simp add: with_clips_def upd_clips_def upd_track_def)

lemma with_clips_with [simp]: "k < length (tracks doc) \<Longrightarrow> with_clips k cs (with_clips k cs' doc) = with_clips k cs doc"
  by (simp add: with_clips_def upd_clips_def upd_track_def)

lemma with_clips_self: "k < length (tracks doc) \<Longrightarrow> with_clips k (track_clips doc k) doc = doc"
  by (simp add: with_clips_def upd_clips_def upd_track_def)

lemma upd_clips_with: "upd_clips k f doc = with_clips k (f (track_clips doc k)) doc"
  by (simp add: with_clips_def upd_clips_def upd_track_def)

lemma position_by_key: "map f xs = map f ys \<Longrightarrow> position (\<lambda>x. f x = t) xs = position (\<lambda>x. f x = t) ys"
proof (induction xs arbitrary: ys)
  case (Cons x xs)
  then obtain y ys' where "ys = y # ys'" "f x = f y" "map f xs = map f ys'" by (cases ys) auto
  then show ?case using Cons.IH by simp
qed simp

lemma find_track_with [simp]: "find_track (with_clips k cs doc) t = find_track doc t"
proof -
  have "map track_id (tracks (with_clips k cs doc)) = map track_id (tracks doc)"
    by (cases "k < length (tracks doc)") (simp_all add: with_clips_def upd_clips_def upd_track_def map_update list_update_same_conv list_update_beyond)
  then have "position (\<lambda>tr. track_id tr = t) (tracks (with_clips k cs doc)) = position (\<lambda>tr. track_id tr = t) (tracks doc)"
    by (rule position_by_key)
  then show ?thesis by (simp add: find_track_def)
qed

lemma doc_track_find:
  assumes "find_track doc t = Inr k"
  shows "doc_track doc t = Some (tracks doc ! k)"
proof -
  have "position (\<lambda>tr. track_id tr = t) trs = Some k \<Longrightarrow> find (\<lambda>tr. track_id tr = t) trs = Some (trs ! k)" for trs k
    by (induction trs arbitrary: k) (auto split: if_split_asm)
  then show ?thesis using assms by (simp add: find_track_def doc_track_def)
qed

lemma find_track_doc:
  assumes "doc_track doc t = Some tr"
  obtains k where "find_track doc t = Inr k" "tr = tracks doc ! k"
proof -
  have "position (\<lambda>tr. track_id tr = t) (tracks doc) \<noteq> None"
    using assms by (auto simp: doc_track_def find_Some_iff)
  then obtain k where "position (\<lambda>tr. track_id tr = t) (tracks doc) = Some k" by blast
  then have "find_track doc t = Inr k" by (simp add: find_track_def)
  then show thesis using doc_track_find [of doc t k] assms that by simp
qed

lemma distinct_concat_index:
  "distinct (concat xss) \<Longrightarrow> i < length xss \<Longrightarrow> j < length xss \<Longrightarrow> x \<in> set (xss ! i) \<Longrightarrow> x \<in> set (xss ! j) \<Longrightarrow> i = j"
proof (induction xss arbitrary: i j)
  case (Cons ys xss)
  have "x \<notin> set (xss ! n)" if "x \<in> set ys" "n < length xss" for n
  proof -
    have "set ys \<inter> \<Union> (set ` set xss) = {}" using Cons.prems(1) by simp
    then show ?thesis using that(1) nth_mem [OF that(2)] by blast
  qed
  then show ?case using Cons by (cases i; cases j) auto
qed simp

lemma unique_clip: "unique_ids doc \<Longrightarrow> c \<in> set (all_clips doc) \<Longrightarrow> d \<in> set (all_clips doc) \<Longrightarrow> clip_id c = clip_id d \<Longrightarrow> c = d"
  by (simp add: distinct_map inj_on_def)

lemma track_clip_mem: "k < length (tracks doc) \<Longrightarrow> c \<in> set (track_clips doc k) \<Longrightarrow> c \<in> set (all_clips doc)"
  by (auto simp: all_clips_concat)

lemma find_clip_on_track:
  assumes "unique_ids doc" "k < length (tracks doc)" "c \<in> set (track_clips doc k)" "find_clip doc (clip_id c) = Inr (ti, ci)"
  shows "ti = k" "clip_at doc ti ci = c" "ci < length (track_clips doc k)"
proof -
  note f = find_clip_InrD [OF assms(4)] and m = find_clip_mem [OF assms(4)]
  show c: "clip_at doc ti ci = c" by (rule unique_clip [OF assms(1) m(3) track_clip_mem [OF assms(2,3)] f(3)])
  have "distinct (concat (map clips (tracks doc)))" using assms(1) by (simp add: all_clips_def distinct_map)
  then show "ti = k"
    using distinct_concat_index [of "map clips (tracks doc)" ti k c] f(1) assms(2,3) m(2) c by simp
  then show "ci < length (track_clips doc k)" using f(2) by simp
qed

text \<open>An edit of one track that keeps given clips on it, and the ids unique.\<close>

definition local_edit :: "nat \<Rightarrow> document \<Rightarrow> document \<Rightarrow> clip set \<Rightarrow> bool" where
  "local_edit k doc doc' keep \<longleftrightarrow> (\<exists>cs. doc' = with_clips k cs doc) \<and> unique_ids doc' \<and> keep \<subseteq> set (track_clips doc' k)"

lemma local_edit_refl: "k < length (tracks doc) \<Longrightarrow> unique_ids doc \<Longrightarrow> keep \<subseteq> set (track_clips doc k) \<Longrightarrow> local_edit k doc doc keep"
  unfolding local_edit_def using with_clips_self by metis

lemma local_edit_trans: "k < length (tracks doc) \<Longrightarrow> local_edit k doc d1 K1 \<Longrightarrow> local_edit k d1 d2 K2 \<Longrightarrow> local_edit k doc d2 K2"
  by (auto simp: local_edit_def)

lemma local_edit_frame:
  assumes "local_edit k doc doc' K"
  shows "media_pool doc' = media_pool doc" "doc_fps doc' = doc_fps doc" "length (tracks doc') = length (tracks doc)"
    "clip_end doc' c = clip_end doc c" "find_track doc' t = find_track doc t" "j \<noteq> k \<Longrightarrow> tracks doc' ! j = tracks doc ! j"
    "unique_ids doc'"
  using assms by (auto simp: local_edit_def with_clips_other)

lemma delete_local:
  assumes "unique_ids doc" "k < length (tracks doc)" "c \<in> set (track_clips doc k)" "delete_clip doc (clip_id c) = Inr doc'"
  shows "local_edit k doc doc' (set (track_clips doc k) - {c})"
proof -
  obtain ti ci where f: "find_clip doc (clip_id c) = Inr (ti, ci)" "doc' = upd_clips ti (remove_at ci) doc"
    using assms(4) by (auto simp: delete_clip_def rbind_eq_Inr)
  note at = find_clip_on_track [OF assms(1-3) f(1)]
  define cs where "cs = track_clips doc k"
  have c: "cs ! ci = c" "ci < length cs" using at by (simp_all add: cs_def clip_at_def)
  have doc': "doc' = with_clips k (remove_at ci cs) doc" using f(2) at(1) by (simp add: upd_clips_with cs_def)
  have cs: "cs = take ci cs @ c # drop (Suc ci) cs" using c id_take_nth_drop by metis
  then have keep: "set cs - {c} \<subseteq> set (remove_at ci cs)" by (metis Diff_subset_conv Un_insert_left insert_is_Un list.simps(15) remove_at_def set_append subset_refl Un_insert_right)
  have "mset (all_clips doc') + mset cs = mset (all_clips doc) + mset (remove_at ci cs)"
    using mset_upd_clips [OF assms(2), of "\<lambda>_. remove_at ci cs"] by (simp add: doc' with_clips_def cs_def)
  moreover have "mset cs = add_mset c (mset (remove_at ci cs))" by (subst cs) (simp add: remove_at_def)
  ultimately have "mset (all_clips doc) = add_mset c (mset (all_clips doc'))" by simp
  then have "mset (map clip_id (all_clips doc)) = add_mset (clip_id c) (mset (map clip_id (all_clips doc')))" by simp
  then have "unique_ids doc'" using assms(1) by (metis distinct.simps(2) mset.simps(2) mset_eq_imp_distinct_iff)
  then show ?thesis using keep doc' assms(2) by (auto simp: local_edit_def cs_def)
qed

text \<open>A split on the track keeps every other clip of the track.\<close>

lemma update_keeps_ids:
  assumes "k < length (tracks doc)" "i < length (track_clips doc k)" "\<And>c. clip_id (h c) = clip_id c"
  shows "mset (map clip_id (all_clips (upd_clip k i h doc))) = mset (map clip_id (all_clips doc))"
proof -
  have "image_mset clip_id (add_mset (clip_at doc k i) (mset (all_clips (upd_clip k i h doc))))
      = image_mset clip_id (add_mset (h (clip_at doc k i)) (mset (all_clips doc)))"
    by (simp only: mset_upd_clip [OF assms(1,2)])
  then show ?thesis by (simp add: assms(3))
qed

lemma split_local:
  assumes "unique_ids doc" "k < length (tracks doc)" "c \<in> set (track_clips doc k)" "split_clip doc (clip_id c) b = Inr doc'"
  shows "local_edit k doc doc' (set (track_clips doc k) - {c})"
proof -
  obtain ti ci e off m j right0 rd doc2 li ld where f: "find_clip doc (clip_id c) = Inr (ti, ci)"
    and j: "next_clip_id doc = Inr j" and r: "split_right j m b e (clip_at doc ti ci) = Inr right0"
    and doc2: "doc2 = push_clip ti (clamp_clip_audio_fades rd (rebase_clip_automation off rd right0)) (upd_clip ti ci (split_left m off) doc)"
    and li: "position (\<lambda>x. clip_id x = clip_id c) (clips (tracks doc2 ! ti)) = Some li"
    and doc': "doc' = upd_clip ti li (\<lambda>x. clamp_clip_audio_fades ld (rebase_clip_automation 0 ld x)) doc2"
    by (rule split_clip_InrE [OF assms(4)])
  note at = find_clip_on_track [OF assms(1-3) f]
  define h where "h = (\<lambda>x. clamp_clip_audio_fades ld (rebase_clip_automation 0 ld x))"
  define right where "right = clamp_clip_audio_fades rd (rebase_clip_automation off rd right0)"
  define doc1 where "doc1 = upd_clip k ci (split_left m off) doc"
  have d2: "doc2 = push_clip k right doc1" and d': "doc' = upd_clip k li h doc2"
    using doc2 doc' at(1) by (simp_all add: right_def doc1_def h_def)
  have id: "clip_id right = j" using split_right_InrD [OF r] by (simp add: right_def)
  have len: "k < length (tracks doc1)" "k < length (tracks doc2)" using assms(2) by (simp_all add: d2 doc1_def)
  note pos = position_Some [OF li [unfolded at(1)]]
  have "mset (map clip_id (all_clips doc')) = mset (map clip_id (all_clips doc2))"
    unfolding d' by (rule update_keeps_ids [OF len(2)]) (use pos in \<open>simp_all add: h_def\<close>)
  also have "\<dots> = add_mset j (mset (map clip_id (all_clips doc1)))" using mset_push_clip [OF len(1), of right] by (simp add: d2 id)
  also have "mset (map clip_id (all_clips doc1)) = mset (map clip_id (all_clips doc))"
    unfolding doc1_def by (rule update_keeps_ids [OF assms(2) at(3)]) simp
  finally have ids: "mset (map clip_id (all_clips doc')) = mset (j # map clip_id (all_clips doc))" by simp
  have "j \<notin> clip_id ` set (all_clips doc)" using next_clip_id_fresh [OF j] by force
  then have "unique_ids doc'" using assms(1) mset_eq_imp_distinct_iff [OF ids] by simp
  moreover have "set (track_clips doc k) - {c} \<subseteq> set (track_clips doc' k)"
  proof
    fix d assume d: "d \<in> set (track_clips doc k) - {c}"
    then have ne: "clip_id d \<noteq> clip_id c" using unique_clip [OF assms(1)] track_clip_mem [OF assms(2)] assms(3) by blast
    obtain n where n: "n < length (track_clips doc k)" "d = track_clips doc k ! n" using d by (auto simp: in_set_conv_nth)
    then have "n \<noteq> ci" using d at(1,2) by (auto simp: clip_at_def)
    then have "d \<in> set (track_clips doc1 k)" using n assms(2) by (auto simp: doc1_def in_set_conv_nth intro!: exI [of _ n])
    then have "d \<in> set (track_clips doc2 k)" using len(1) by (simp add: d2 sort_clips_def)
    then obtain l where l: "l < length (track_clips doc2 k)" "d = track_clips doc2 k ! l" by (auto simp: in_set_conv_nth)
    then have "l \<noteq> li" using ne pos by auto
    then show "d \<in> set (track_clips doc' k)" using l len(2) by (auto simp: d' in_set_conv_nth intro!: exI [of _ l])
  qed
  moreover have "\<exists>cs. doc' = with_clips k cs doc"
    using assms(2) by (auto simp: d' d2 doc1_def upd_clip_def push_clip_def upd_clips_with)
  ultimately show ?thesis by (simp add: local_edit_def)
qed

section \<open>Clearing a range\<close>

definition outside :: "document \<Rightarrow> trange \<Rightarrow> clip \<Rightarrow> bool" where
  "outside doc r c \<longleftrightarrow> (\<exists>e. clip_end doc c = Inr e \<and> timeline_start c < e \<and> (e \<le> r_start r \<or> r_end r \<le> timeline_start c))"

lemma straddling_clip_Some:
  assumes "straddling_clip doc b tr = Some i"
  obtains c e where "c \<in> set (clips tr)" "i = clip_id c" "clip_end doc c = Inr e" "timeline_start c < b" "b < e"
proof -
  obtain c where f: "find (\<lambda>c. case clip_end doc c of Inl _ \<Rightarrow> False | Inr end \<Rightarrow> timeline_start c < b \<and> b < end) (clips tr) = Some c" "i = clip_id c"
    using assms by (auto simp: straddling_clip_def)
  then have "c \<in> set (clips tr)" "case clip_end doc c of Inl _ \<Rightarrow> False | Inr end \<Rightarrow> timeline_start c < b \<and> b < end"
    by (auto simp: find_Some_iff)
  then show thesis using that f(2) by (cases "clip_end doc c") auto
qed

lemma clear_boundary_local:
  assumes "unique_ids doc" "find_track doc t = Inr k" "clear_boundary t b doc = Inr doc'" "r_start r < r_end r" "b \<in> {r_start r, r_end r}"
  shows "local_edit k doc doc' {c \<in> set (track_clips doc k). outside doc r c}"
proof -
  have k: "k < length (tracks doc)" by (rule find_track_InrD [OF assms(2)])
  show ?thesis
  proof (cases "straddling_clip doc b (tracks doc ! k)")
    case None
    then have "doc' = doc" using assms(3) doc_track_find [OF assms(2)] by (simp add: clear_boundary_def)
    then show ?thesis using local_edit_refl [OF k assms(1)] by simp
  next
    case (Some i)
    then obtain c e where c: "c \<in> set (track_clips doc k)" "i = clip_id c" "clip_end doc c = Inr e" "timeline_start c < b" "b < e"
      by (rule straddling_clip_Some)
    then have "split_clip doc (clip_id c) b = Inr doc'"
      using assms(3) doc_track_find [OF assms(2)] Some by (simp add: clear_boundary_def)
    then have "local_edit k doc doc' (set (track_clips doc k) - {c})" by (rule split_local [OF assms(1) k c(1)])
    moreover have "\<not> outside doc r c" using c assms(4,5) by (auto simp: outside_def)
    ultimately show ?thesis by (auto simp: local_edit_def)
  qed
qed

lemma delete_all_local:
  assumes "fold_res (\<lambda>c d. delete_clip d c) (map clip_id cs) doc = Inr doc'" "unique_ids doc" "k < length (tracks doc)"
    "set cs \<subseteq> set (track_clips doc k)" "distinct cs"
  shows "local_edit k doc doc' (set (track_clips doc k) - set cs)"
  using assms
proof (induction cs arbitrary: doc)
  case (Cons c cs)
  then obtain d where d: "delete_clip doc (clip_id c) = Inr d" "fold_res (\<lambda>c d. delete_clip d c) (map clip_id cs) d = Inr doc'"
    by (auto simp: rbind_eq_Inr)
  have one: "local_edit k doc d (set (track_clips doc k) - {c})"
    by (rule delete_local [OF Cons.prems(2,3) _ d(1)]) (use Cons.prems(4) in simp)
  note fr = local_edit_frame [OF one]
  have "set cs \<subseteq> set (track_clips d k)" using one Cons.prems(4,5) by (auto simp: local_edit_def)
  then have "local_edit k d doc' (set (track_clips d k) - set cs)"
    using Cons.IH [OF d(2) fr(7)] Cons.prems(3,5) fr(3) by simp
  then have "local_edit k doc doc' (set (track_clips d k) - set cs)" by (rule local_edit_trans [OF Cons.prems(3) one])
  then show ?case using one by (auto simp: local_edit_def)
qed (simp add: local_edit_refl)

lemma clear_track_range_local:
  assumes "unique_ids doc" "find_track doc t = Inr k" "clear_track_range doc t r = Inr doc'" "r_start r < r_end r"
  shows "local_edit k doc doc' {c \<in> set (track_clips doc k). outside doc r c}"
proof -
  have k: "k < length (tracks doc)" by (rule find_track_InrD [OF assms(2)])
  define inside where "inside = (\<lambda>d c. case clip_end d c of Inl _ \<Rightarrow> False | Inr end \<Rightarrow> r_start r \<le> timeline_start c \<and> end \<le> r_end r)"
  obtain d1 d2 tr where d1: "clear_boundary t (r_end r) doc = Inr d1" and d2: "clear_boundary t (r_start r) d1 = Inr d2"
    and tr: "doc_track d2 t = Some tr" and del: "fold_res (\<lambda>c d. delete_clip d c) (map clip_id (filter (inside d2) (clips tr))) d2 = Inr doc'"
    using assms(3) by (auto simp: clear_track_range_def rbind_eq_Inr Let_def inside_def)
  have one: "local_edit k doc d1 {c \<in> set (track_clips doc k). outside doc r c}"
    by (rule clear_boundary_local [OF assms(1,2) d1 assms(4)]) simp
  note f1 = local_edit_frame [OF one]
  have "local_edit k d1 d2 {c \<in> set (track_clips d1 k). outside d1 r c}"
    by (rule clear_boundary_local [OF f1(7) _ d2 assms(4)]) (simp_all add: f1(5) assms(2))
  then have two: "local_edit k doc d2 {c \<in> set (track_clips d1 k). outside d1 r c}" by (rule local_edit_trans [OF k one])
  note f2 = local_edit_frame [OF two]
  have kept: "{c \<in> set (track_clips doc k). outside doc r c} \<subseteq> set (track_clips d2 k)"
    using one two f1(4) by (auto simp: local_edit_def outside_def)
  have "tr = tracks d2 ! k" using tr doc_track_find [of d2 t k] f2(5) assms(2) by simp
  moreover have "distinct (track_clips d2 k)"
  proof -
    have "distinct (concat (map clips (tracks d2)))" using f2(7) by (simp add: all_clips_def distinct_map)
    then show ?thesis using k f2(3) by (auto simp: distinct_concat_iff)
  qed
  ultimately have "local_edit k d2 doc' (set (track_clips d2 k) - set (filter (inside d2) (track_clips d2 k)))"
    using delete_all_local [OF del f2(7), of k] k f2(3) by simp
  then have "local_edit k doc doc' (set (track_clips d2 k) - set (filter (inside d2) (track_clips d2 k)))"
    by (rule local_edit_trans [OF k two])
  moreover have "\<not> inside d2 c" if "outside doc r c" for c
    using that f2(4) assms(4) by (auto simp: outside_def inside_def)
  ultimately show ?thesis using kept by (auto simp: local_edit_def)
qed

section \<open>The overwrite edit\<close>

text \<open>What one overwrite does to track \<open>k\<close>: it puts a new clip in the timeline range and keeps the clips outside.\<close>

definition overwrites :: "document \<Rightarrow> document \<Rightarrow> nat \<Rightarrow> asset_id \<Rightarrow> trange \<Rightarrow> trange \<Rightarrow> clip \<Rightarrow> bool" where
  "overwrites doc doc' k asset source timeline new \<longleftrightarrow>
     new \<in> set (track_clips doc' k) \<and> clip_asset new = asset \<and> is_media (content new) \<and> source_range new = source
     \<and> timeline_start new = r_start timeline \<and> clip_end doc' new = Inr (r_end timeline)
     \<and> (\<forall>c \<in> set (track_clips doc k). outside doc timeline c \<longrightarrow> c \<in> set (track_clips doc' k))
     \<and> (\<forall>c \<in> set (track_clips doc' k). c = new \<or> outside doc' timeline c)
     \<and> tracks doc' = (tracks doc)[k := (tracks doc ! k)\<lparr>clips := track_clips doc' k\<rparr>]
     \<and> media_pool doc' = media_pool doc \<and> doc_fps doc' = doc_fps doc"

lemma recompute_keeps:
  assumes "recompute_duration doc = Inr doc'"
  shows "tracks doc' = tracks doc" "media_pool doc' = media_pool doc" "doc_fps doc' = doc_fps doc"
  using assms by (auto simp: recompute_duration_def rbind_eq_Inr Let_def)

lemma disjoint_neighbours:
  assumes "validate_document doc = Inr ()" "k < length (tracks doc)" "new \<in> set (track_clips doc k)" "c \<in> set (track_clips doc k)"
    "timeline_start new = r_start r" "clip_end doc new = Inr (r_end r)"
  shows "c = new \<or> outside doc r c"
proof -
  have tr: "tracks doc ! k \<in> set (tracks doc)" using assms(2) by simp
  note v = validated_track [OF assms(1) tr]
  have "clip_stop doc new = r_end r" using assms(6) by (simp add: clip_stop_def)
  moreover have "c = new \<or> clip_stop doc c \<le> timeline_start new \<or> clip_stop doc new \<le> timeline_start c"
    using v(1) assms(3,4) by (auto simp: clips_disjoint_def sorted_wrt_iff_nth_less in_set_conv_nth) (metis linorder_neqE_nat)
  ultimately show ?thesis using v(2,3) [OF assms(4)] assms(5) by (auto simp: outside_def)
qed

lemma overwrite_step:
  assumes "validate_document doc = Inr ()" "apply_step (ThreePointEdit t asset si so tin tout Overwrite) doc = Inr doc'"
  shows "\<exists>k a source timeline new. find_track doc t = Inr k \<and> doc_asset doc asset = Some a
    \<and> derive_three_point_ranges doc a si so tin tout = Inr (source, timeline) \<and> overwrites doc doc' k asset source timeline new"
proof -
  obtain d0 d1 a tr source timeline where valid: "validate_document doc' = Inr ()" and re: "recompute_duration d1 = Inr doc'"
    and a: "doc_asset doc asset = Some a" and tr: "doc_track doc t = Some tr"
    and d: "derive_three_point_ranges doc a si so tin tout = Inr (source, timeline)"
    and c0: "clear_track_range doc t timeline = Inr d0" and add: "add_clip d0 t asset (r_start timeline) source = Inr d1"
    using assms(2) by (auto simp: apply_step_def apply_unchecked_def three_point_edit_def rbind_eq_Inr)
  have r: "r_start timeline < r_end timeline" "map_source_range_to_project source (asset_fps a) (doc_fps doc) = Inr (r_end timeline - r_start timeline)"
    using d by (auto simp: derive_three_point_ranges_def rbind_eq_Inr timeline_duration_def validate_timeline_range_def ensure_def
        timecode_checked_sub_def checked_sub_i64_def split: prod.splits if_split_asm)
  obtain k where k: "find_track doc t = Inr k" by (rule find_track_doc [OF tr])
  have kl: "k < length (tracks doc)" by (rule find_track_InrD [OF k])
  have clear: "local_edit k doc d0 {c \<in> set (track_clips doc k). outside doc timeline c}"
    by (rule clear_track_range_local [OF validated_ids_distinct(1) [OF assms(1)] k c0 r(1)])
  note f0 = local_edit_frame [OF clear]
  obtain i where d1: "d1 = push_clip k (fresh_clip i asset source Media (r_start timeline) []) d0"
    using add k f0(5) by (auto simp: add_clip_def rbind_eq_Inr split: if_split_asm)
  define new where "new = fresh_clip i asset source Media (r_start timeline) []"
  have k0: "k < length (tracks d0)" using kl f0(3) by simp
  note rc = recompute_keeps [OF re]
  have clips: "set (track_clips doc' k) = insert new (set (track_clips d0 k))"
    using k0 by (auto simp: rc d1 new_def sort_clips_def)
  have k': "k < length (tracks doc')" using k0 by (simp add: rc d1)
  have frame: "media_pool doc' = media_pool doc" "doc_fps doc' = doc_fps doc"
    using f0 by (simp_all add: rc d1 push_clip_def)
  obtain cs where "d0 = with_clips k cs doc" using clear by (auto simp: local_edit_def)
  then have "d1 = with_clips k (track_clips d1 k) doc"
    using kl by (simp add: d1 push_clip_def upd_clips_with)
  then have only: "tracks doc' = (tracks doc)[k := (tracks doc ! k)\<lparr>clips := track_clips doc' k\<rparr>]"
    by (metis rc(1) tracks_with_clips)
  have "new \<in> set (track_clips doc' k)" using clips by simp
  then have "clip_end doc' new = Inr (clip_stop doc' new)" using validated_track(2) [OF valid nth_mem [OF k']] by blast
  then have fin: "clip_end doc' new = Inr (r_end timeline)"
    using a r(2) frame(1,2) by (auto simp: clip_end_dur clip_duration_def is_span_def is_media_def new_def fresh_clip_def clip_effective_fps_def
        speed_scaled_fps_def doc_asset_def)
  have "c = new \<or> outside doc' timeline c" if "c \<in> set (track_clips doc' k)" for c
    by (rule disjoint_neighbours [OF valid k' _ that _ fin]) (simp_all add: clips, simp add: new_def fresh_clip_def)
  moreover have "\<forall>c \<in> set (track_clips doc k). outside doc timeline c \<longrightarrow> c \<in> set (track_clips doc' k)"
    using clear clips by (auto simp: local_edit_def)
  moreover have "clip_asset new = asset" "is_media (content new)" "source_range new = source" "timeline_start new = r_start timeline"
    by (simp_all add: new_def fresh_clip_def is_media_def)
  ultimately have "overwrites doc doc' k asset source timeline new"
    using clips fin frame only by (auto simp: overwrites_def)
  then show ?thesis using k a d by blast
qed

section \<open>A run of overwrites\<close>

text \<open>Overwrites of one track that go from late to early leave each of their clips in place.\<close>

lemma derived_window:
  assumes "derive_three_point_ranges doc a (Some i) None (Some s) (Some e) = Inr (source, timeline)"
  shows "r_start source = i" "timeline = rng s e"
  using assms by (auto simp: derive_three_point_ranges_def three_point_ranges_def rbind_eq_Inr split: if_split_asm)

lemma find_track_overwritten: "overwrites doc doc' k asset source timeline new \<Longrightarrow> find_track doc' t = find_track doc t"
  using find_track_with [of k "track_clips doc' k" doc t] by (simp add: overwrites_def find_track_def tracks_with_clips)

definition overwrite_op :: "track_id \<Rightarrow> asset_id \<times> timecode \<times> timecode \<times> timecode \<Rightarrow> operation" where
  "overwrite_op t = (\<lambda>(asset, i, s, e). ThreePointEdit t asset (Some i) None (Some s) (Some e) Overwrite)"

definition placed :: "document \<Rightarrow> clip list \<Rightarrow> asset_id \<times> timecode \<times> timecode \<times> timecode \<Rightarrow> bool" where
  "placed doc cs = (\<lambda>(asset, i, s, e). \<exists>c \<in> set cs. clip_asset c = asset \<and> is_media (content c) \<and> r_start (source_range c) = i
     \<and> timeline_start c = s \<and> clip_end doc c = Inr e)"

lemma overwrites_placed:
  assumes "fold_res apply_step (map (overwrite_op t) xs) doc = Inr doc'" "validate_document doc = Inr ()" "find_track doc t = Inr k"
    "sorted_wrt (\<lambda>(_, _, s, _) (_, _, _, e). e \<le> s) xs"
  shows "(\<forall>x \<in> set xs. placed doc' (track_clips doc' k) x)
    \<and> (\<forall>c \<in> set (track_clips doc k). (\<forall>(_, _, _, e) \<in> set xs. e \<le> timeline_start c) \<longrightarrow> c \<in> set (track_clips doc' k))
    \<and> media_pool doc' = media_pool doc \<and> doc_fps doc' = doc_fps doc \<and> find_track doc' t = Inr k"
  using assms
proof (induction xs arbitrary: doc)
  case (Cons x xs)
  obtain asset i s e where x: "x = (asset, i, s, e)" by (cases x)
  obtain d where d: "apply_step (ThreePointEdit t asset (Some i) None (Some s) (Some e) Overwrite) doc = Inr d"
    and rest: "fold_res apply_step (map (overwrite_op t) xs) d = Inr doc'"
    using Cons.prems(1) by (auto simp: rbind_eq_Inr overwrite_op_def x)
  obtain a source new where o: "overwrites doc d k asset source (rng s e) new" "r_start source = i"
    using overwrite_step [OF Cons.prems(2) d] Cons.prems(3) derived_window by fastforce
  have valid: "validate_document d = Inr ()" using apply_step_valid [OF d] by (simp add: valid_document_def)
  have fd: "find_track d t = Inr k" using find_track_overwritten [OF o(1)] Cons.prems(3) by simp
  have kd: "k < length (tracks d)" by (rule find_track_InrD [OF fd])
  have kl: "k < length (tracks doc)" by (rule find_track_InrD [OF Cons.prems(3)])
  have IH: "\<forall>x \<in> set xs. placed doc' (track_clips doc' k) x"
    "\<forall>c \<in> set (track_clips d k). (\<forall>(_, _, _, e) \<in> set xs. e \<le> timeline_start c) \<longrightarrow> c \<in> set (track_clips doc' k)"
    "media_pool doc' = media_pool d" "doc_fps doc' = doc_fps d" "find_track doc' t = Inr k"
    using Cons.IH [OF rest valid fd] Cons.prems(4) by auto
  have new: "new \<in> set (track_clips d k)" "clip_asset new = asset" "is_media (content new)" "source_range new = source"
      "timeline_start new = s" "clip_end d new = Inr e"
    using o(1) by (simp_all add: overwrites_def)
  have frame: "media_pool d = media_pool doc" "doc_fps d = doc_fps doc" using o(1) by (simp_all add: overwrites_def)
  have "clip_end doc' new = clip_end d new" by (rule clip_end_cong) (simp_all add: IH(3,4))
  moreover have "new \<in> set (track_clips doc' k)" using IH(2) new(1,5) Cons.prems(4) by (auto simp: x)
  ultimately have "placed doc' (track_clips doc' k) x" using new o(2) by (auto simp: placed_def x)
  moreover have "c \<in> set (track_clips doc' k)" if c: "c \<in> set (track_clips doc k)" "\<forall>(_, _, _, e) \<in> set (x # xs). e \<le> timeline_start c" for c
  proof -
    have "outside doc (rng s e) c"
      using validated_track(2,3) [OF Cons.prems(2) nth_mem [OF kl] c(1)] c(2) by (auto simp: outside_def x)
    then have "c \<in> set (track_clips d k)" using o(1) c(1) by (simp add: overwrites_def)
    then show ?thesis using IH(2) c(2) by auto
  qed
  ultimately show ?case using IH frame by auto
qed simp

end
