(* ===== verification/Multicam_Props.thy ===== *)
theory Multicam_Props
  imports Multicam Overwrite
begin

text \<open>
  What the multicam planner guarantees: its cuts tile the requested range on the group and on the timeline, neighbours
  show different angles, and speech that is not suppressed is covered by the angle of its speaker.
\<close>

section \<open>Turns\<close>

definition turn_within :: "timecode \<Rightarrow> timecode \<Rightarrow> raw_turn \<Rightarrow> bool" where
  "turn_within gs ge t \<longleftrightarrow> gs \<le> turn_start t \<and> turn_start t < turn_end t \<and> turn_end t \<le> ge \<and> in_i64 (turn_start t) \<and> in_i64 (turn_end t)"

text \<open>A turn that covers another one of the same angle.\<close>

definition turn_covers :: "raw_turn \<Rightarrow> raw_turn \<Rightarrow> bool" where
  "turn_covers t u \<longleftrightarrow> turn_angle_key t = turn_angle_key u \<and> turn_start t \<le> turn_start u \<and> turn_end u \<le> turn_end t"

lemma covers_refl [simp]: "turn_covers t t"
  by (simp add: turn_covers_def)

lemma covers_trans: "turn_covers t u \<Longrightarrow> turn_covers u v \<Longrightarrow> turn_covers t v"
  by (auto simp: turn_covers_def)

lemma merge_turn_simps [simp]:
  "turn_start (merge_turn p t) = turn_start p" "turn_end (merge_turn p t) = max (turn_end p) (turn_end t)"
  "turn_angle_key (merge_turn p t) = turn_angle_key p" "turn_angle_name (merge_turn p t) = turn_angle_name p"
  by (simp_all add: merge_turn_def)

lemma merge_covers:
  assumes "turn_angle_key t = turn_angle_key p" "turn_start p \<le> turn_start t"
  shows "turn_covers (merge_turn p t) p" "turn_covers (merge_turn p t) t"
  using assms by (simp_all add: turn_covers_def)

lemma merge_within: "turn_within gs ge p \<Longrightarrow> turn_within gs ge t \<Longrightarrow> turn_within gs ge (merge_turn p t)"
  by (auto simp: turn_within_def max_def)

text \<open>Replacing the last element of a list, as the loops do through \<^verbatim>\<open>last_mut\<close>.\<close>

lemma replace_last:
  assumes "ts \<noteq> []"
  shows "set (butlast ts @ [x]) \<subseteq> insert x (set ts)" "set ts \<subseteq> insert (last ts) (set (butlast ts @ [x]))"
  using assms by (auto dest: in_set_butlastD) (metis append_butlast_last_id assms in_set_conv_decomp insertE rotate1.simps(2) set_ConsD set_append set_rotate1 Un_iff)

lemma add_turn_ok:
  assumes "add_turn gap raw ts = Inr ts'" "\<forall>t \<in> set ts. P t" "P raw" "\<And>p. p \<in> set ts \<Longrightarrow> P p \<Longrightarrow> P (merge_turn p raw)"
  shows "ts' \<noteq> []" "\<forall>t \<in> set ts'. P t"
  using assms by (auto 4 4 simp: add_turn_def rbind_eq_Inr Let_def split: if_split_asm dest: in_set_butlastD)

lemma add_turn_covers:
  assumes "add_turn gap raw ts = Inr ts'" "\<forall>t \<in> set ts. turn_angle_key t = turn_angle_key raw \<and> turn_start t \<le> turn_start raw"
    and "t \<in> insert raw (set ts)"
  shows "\<exists>t' \<in> set ts'. turn_covers t' t"
proof (cases "ts = []")
  case False
  define p where "p = last ts"
  have ts: "ts = butlast ts @ [p]" using False by (simp add: p_def)
  have k: "turn_angle_key raw = turn_angle_key p" "turn_start p \<le> turn_start raw" using assms(2) False by (simp_all add: p_def)
  consider "ts' = ts @ [raw]" | "ts' = butlast ts @ [merge_turn p raw]"
    using assms(1) False by (auto simp: add_turn_def Let_def rbind_eq_Inr p_def split: if_split_asm)
  then show ?thesis
  proof cases
    case 1
    then show ?thesis using assms(3) by force
  next
    case 2
    have "t = raw \<or> t = p \<or> t \<in> set (butlast ts)" using assms(3) ts by (metis Un_iff empty_iff insertE list.set(1) list.simps(15) set_append)
    then show ?thesis using merge_covers [OF k] 2 by force
  qed
qed (use assms in \<open>auto simp: add_turn_def\<close>)

section \<open>Collecting turns\<close>

definition put_turn :: "timecode \<Rightarrow> raw_turn \<Rightarrow> (utext, raw_turn list) btree \<Rightarrow> speaker_multicam_error + (utext, raw_turn list) btree" where
  "put_turn gap raw m =
     rbind (add_turn gap raw (case bt_get (turn_angle_key raw) m of Some ts \<Rightarrow> ts | None \<Rightarrow> [])) (\<lambda>ts.
     Inr (bt_insert (turn_angle_key raw) ts m))"

lemma collect_turns_fold:
  "collect_turns turn_of gap n m ws = Inr m' \<Longrightarrow>
     \<exists>us. list_all2 (\<lambda>(i, w) u. turn_of i w = Inr u) (enumerate n ws) us \<and> fold_res (put_turn gap) (List.map_filter (\<lambda>u. u) us) m = Inr m'"
proof (induction ws arbitrary: n m)
  case (Cons w ws)
  then obtain u where u: "turn_of n w = Inr u" by (auto simp: rbind_eq_Inr)
  define m1 where "m1 = (case u of None \<Rightarrow> Inr m | Some raw \<Rightarrow> put_turn gap raw m)"
  obtain m2 where m2: "m1 = Inr m2" "collect_turns turn_of gap (n + 1) m2 ws = Inr m'"
    using Cons.prems u by (auto simp: rbind_eq_Inr m1_def put_turn_def split: option.split_asm)
  from Cons.IH [OF m2(2)] obtain us where us: "list_all2 (\<lambda>(i, w) u. turn_of i w = Inr u) (enumerate (Suc n) ws) us"
    "fold_res (put_turn gap) (List.map_filter (\<lambda>u. u) us) m2 = Inr m'" by auto
  then have "list_all2 (\<lambda>(i, w) u. turn_of i w = Inr u) (enumerate n (w # ws)) (u # us)"
    "fold_res (put_turn gap) (List.map_filter (\<lambda>u. u) (u # us)) m = Inr m'"
    using u m2(1) by (auto simp: m1_def List.map_filter_simps split: option.splits)
  then show ?case by blast
qed (simp add: List.map_filter_simps)

definition turn_map :: "(raw_turn \<Rightarrow> bool) \<Rightarrow> (utext, raw_turn list) btree \<Rightarrow> bool" where
  "turn_map P m \<longleftrightarrow> bt_inv m \<and> (\<forall>(k, ts) \<in> set m. ts \<noteq> [] \<and> (\<forall>t \<in> set ts. turn_angle_key t = k \<and> P t))"

definition all_turns :: "(utext, raw_turn list) btree \<Rightarrow> raw_turn set" where
  "all_turns m = (\<Union>ts \<in> snd ` set m. set ts)"

lemma all_turns_values: "set (concat (bt_values m)) = all_turns m"
  by (simp add: all_turns_def bt_values_def)

lemma bt_get_mem: "bt_inv m \<Longrightarrow> bt_get k m = Some v \<longleftrightarrow> (k, v) \<in> set m"
  by (simp add: bt.entries_mem)

lemma put_turn_list:
  assumes "turn_map P m"
  shows "\<forall>t \<in> set (case bt_get k m of Some ts \<Rightarrow> ts | None \<Rightarrow> []). turn_angle_key t = k \<and> P t"
proof (cases "bt_get k m")
  case (Some ts)
  then have "(k, ts) \<in> set m" using assms by (simp add: turn_map_def bt_get_mem)
  then show ?thesis using assms Some by (fastforce simp: turn_map_def)
qed simp

lemma put_turn_ok:
  assumes "put_turn gap raw m = Inr m'" "turn_map P m" "P raw" "\<And>p. P p \<Longrightarrow> P (merge_turn p raw)"
  shows "turn_map P m'"
proof -
  let ?k = "turn_angle_key raw" and ?ts = "case bt_get (turn_angle_key raw) m of Some ts \<Rightarrow> ts | None \<Rightarrow> []"
  obtain ts where ts: "add_turn gap raw ?ts = Inr ts" "m' = bt_insert ?k ts m"
    using assms(1) by (auto simp: put_turn_def rbind_eq_Inr)
  define Q where "Q t \<longleftrightarrow> turn_angle_key t = ?k \<and> P t" for t
  have Q1: "\<forall>t \<in> set ?ts. Q t" unfolding Q_def by (rule put_turn_list [OF assms(2)])
  have Q2: "Q raw" using assms(3) by (simp add: Q_def)
  have Q3: "Q p \<Longrightarrow> Q (merge_turn p raw)" for p by (simp add: Q_def assms(4))
  have new: "ts \<noteq> []" "\<forall>t \<in> set ts. turn_angle_key t = ?k \<and> P t"
    using add_turn_ok [where P = Q, OF ts(1) Q1 Q2 Q3] unfolding Q_def by blast+
  have "us \<noteq> [] \<and> (\<forall>t \<in> set us. turn_angle_key t = k \<and> P t)" if "(k, us) \<in> set m'" for k us
  proof (cases "(k, us) \<in> set m")
    case True
    then show ?thesis using assms(2) by (auto simp: turn_map_def)
  next
    case False
    then have "k = ?k" "us = ts" using that set_bt_insert_subset [of ?k ts m] by (auto simp: ts(2))
    then show ?thesis using new by simp
  qed
  then show ?thesis using assms(2) by (auto simp: turn_map_def ts(2) bt_inv_insert)
qed

lemma put_turn_covers:
  assumes "put_turn gap raw m = Inr m'" "turn_map (\<lambda>t. turn_start t \<le> turn_start raw) m" "t \<in> insert raw (all_turns m)"
  shows "\<exists>t' \<in> all_turns m'. turn_covers t' t"
proof -
  let ?k = "turn_angle_key raw" and ?ts = "case bt_get (turn_angle_key raw) m of Some ts \<Rightarrow> ts | None \<Rightarrow> []"
  obtain ts where ts: "add_turn gap raw ?ts = Inr ts" "m' = bt_insert ?k ts m"
    using assms(1) by (auto simp: put_turn_def rbind_eq_Inr)
  have inv: "bt_inv m" "bt_inv m'" using assms(2) by (simp_all add: turn_map_def ts(2) bt_inv_insert)
  have new: "(?k, ts) \<in> set m'" using inv by (simp add: ts(2) flip: bt_get_mem) (simp add: bt_get_insert)
  show ?thesis
  proof (cases "t \<in> insert raw (set ?ts)")
    case True
    then obtain t' where "t' \<in> set ts" "turn_covers t' t" using add_turn_covers [OF ts(1) put_turn_list [OF assms(2)]] by blast
    then show ?thesis using new by (force simp: all_turns_def)
  next
    case False
    then obtain k us where us: "(k, us) \<in> set m" "t \<in> set us" using assms(3) by (auto simp: all_turns_def)
    then have "k \<noteq> ?k" using False by (metis inv(1) bt_get_mem insertCI option.simps(5))
    then have "(k, us) \<in> set m'" using us(1) inv by (simp add: ts(2) bt_get_insert flip: bt_get_mem)
    then show ?thesis using us(2) by (force simp: all_turns_def)
  qed
qed

lemma put_turns_ok:
  assumes "fold_res (put_turn gap) us m = Inr m'" "turn_map P m" "\<forall>u \<in> set us. P u" "\<And>p u. P p \<Longrightarrow> P u \<Longrightarrow> P (merge_turn p u)"
  shows "turn_map P m'"
  using assms(1-3)
proof (induction us arbitrary: m)
  case (Cons u us)
  then obtain m1 where "put_turn gap u m = Inr m1" "fold_res (put_turn gap) us m1 = Inr m'" by (auto simp: rbind_eq_Inr)
  then show ?case using Cons put_turn_ok [of gap u m m1 P] assms(4) by auto
qed simp

lemma turn_map_mono: "turn_map P m \<Longrightarrow> (\<And>t. P t \<Longrightarrow> Q t) \<Longrightarrow> turn_map Q m"
  by (fastforce simp: turn_map_def)

lemma put_turns_cover:
  assumes "fold_res (put_turn gap) us m = Inr m'" "turn_map (\<lambda>t. \<forall>u \<in> set us. turn_start t \<le> turn_start u) m"
    "sorted (map turn_start us)" "t \<in> set us \<union> all_turns m"
  shows "\<exists>t' \<in> all_turns m'. turn_covers t' t"
  using assms
proof (induction us arbitrary: m t)
  case (Cons u us)
  then obtain m1 where m1: "put_turn gap u m = Inr m1" "fold_res (put_turn gap) us m1 = Inr m'" by (auto simp: rbind_eq_Inr)
  have m: "turn_map (\<lambda>t. turn_start t \<le> turn_start u) m" by (rule turn_map_mono [OF Cons.prems(2)]) simp
  have step: "turn_map (\<lambda>t. \<forall>u \<in> set us. turn_start t \<le> turn_start u) m1"
    by (rule put_turn_ok [OF m1(1)], rule turn_map_mono [OF Cons.prems(2)]) (use Cons.prems(3) in auto)
  note IH = Cons.IH [OF m1(2) step]
  show ?case
  proof (cases "t \<in> set us")
    case False
    then obtain t1 where "t1 \<in> all_turns m1" "turn_covers t1 t" using put_turn_covers [OF m1(1) m, of t] Cons.prems(4) by auto
    then show ?thesis using IH [of t1] Cons.prems(3) by (auto intro: covers_trans)
  qed (use IH Cons.prems(3) in auto)
qed (auto intro: covers_refl)

section \<open>From turns to shots\<close>

definition next_shot :: "raw_turn \<Rightarrow> raw_turn \<Rightarrow> bool" where
  "next_shot t u \<longleftrightarrow> turn_end t \<le> turn_start u \<and> turn_angle_key t \<noteq> turn_angle_key u"

lemma retain_turn_ok:
  assumes "retain_turn u ts = Inr ts'" "\<forall>t \<in> set ts. P t" "P u" "\<And>p. P p \<Longrightarrow> P (merge_turn p u)" "successively next_shot ts"
  shows "ts' \<noteq> []" "\<forall>t \<in> set ts'. P t" "successively next_shot ts'"
proof -
  have "ts' \<noteq> [] \<and> (\<forall>t \<in> set ts'. P t) \<and> successively next_shot ts'"
  proof (cases "ts = []")
    case False
    define p qs where "p = last ts" and "qs = butlast ts"
    have ts: "ts = qs @ [p]" using False by (simp add: p_def qs_def)
    have succ: "successively next_shot qs" "qs = [] \<or> next_shot (last qs) p"
      using assms(5) by (auto simp: ts successively_append_iff)
    have P: "P p" "\<forall>t \<in> set qs. P t" using assms(2) by (simp_all add: ts)
    consider "ts' = ts @ [u]" "next_shot p u" | "ts' = qs @ [merge_turn p u]"
      using assms(1) False by (auto simp: retain_turn_def Let_def p_def qs_def next_shot_def split: if_split_asm)
    then show ?thesis
    proof cases
      case 1
      then show ?thesis using succ P assms(3) by (simp add: ts successively_append_iff)
    next
      case 2
      have "next_shot (last qs) p \<Longrightarrow> next_shot (last qs) (merge_turn p u)" by (simp add: next_shot_def)
      then show ?thesis using 2 succ P assms(4) by (auto simp: successively_append_iff)
    qed
  qed (use assms in \<open>auto simp: retain_turn_def\<close>)
  then show "ts' \<noteq> []" "\<forall>t \<in> set ts'. P t" "successively next_shot ts'" by simp_all
qed

lemma retain_turn_covers:
  assumes "retain_turn u ts = Inr ts'" "\<forall>t \<in> set ts. turn_start t \<le> turn_start u" "t \<in> insert u (set ts)"
  shows "\<exists>t' \<in> set ts'. turn_covers t' t"
proof (cases "ts = []")
  case False
  define p where "p = last ts"
  have ts: "ts = butlast ts @ [p]" using False by (simp add: p_def)
  have "turn_start p \<le> turn_start u" using assms(2) False by (simp add: p_def)
  then have k: "turn_angle_key u = turn_angle_key p \<Longrightarrow> turn_covers (merge_turn p u) p \<and> turn_covers (merge_turn p u) u"
    using merge_covers by blast
  consider "ts' = ts @ [u]" | "ts' = butlast ts @ [merge_turn p u]" "turn_angle_key u = turn_angle_key p"
    using assms(1) False by (auto simp: retain_turn_def Let_def p_def split: if_split_asm)
  then show ?thesis
  proof cases
    case 2
    have "t = u \<or> t = p \<or> t \<in> set (butlast ts)" using assms(3) ts by (metis Un_iff empty_iff insertE list.set(1) list.simps(15) set_append)
    then show ?thesis using k [OF 2(2)] 2(1) by force
  qed (use assms(3) in force)
qed (use assms in \<open>auto simp: retain_turn_def\<close>)

lemma retain_turns:
  assumes "fold_res retain_turn us ts = Inr ts'" "\<forall>t \<in> set ts \<union> set us. P t" "\<And>p u. P p \<Longrightarrow> P u \<Longrightarrow> P (merge_turn p u)"
    "successively next_shot ts" "sorted (map turn_start us)" "\<forall>t \<in> set ts. \<forall>u \<in> set us. turn_start t \<le> turn_start u"
  shows "(\<forall>t \<in> set ts'. P t) \<and> successively next_shot ts' \<and> (ts' = [] \<longrightarrow> ts = [] \<and> us = [])
    \<and> (\<forall>t \<in> set ts \<union> set us. \<exists>t' \<in> set ts'. turn_covers t' t)"
  using assms(1,2,4-)
proof (induction us arbitrary: ts)
  case (Cons u us)
  then obtain ts1 where ts1: "retain_turn u ts = Inr ts1" "fold_res retain_turn us ts1 = Inr ts'" by (auto simp: rbind_eq_Inr)
  have P: "\<forall>t \<in> set ts. P t" "P u" "\<forall>t \<in> set ts. turn_start t \<le> turn_start u" using Cons.prems by auto
  have s: "\<forall>t \<in> set ts1. \<forall>u \<in> set us. turn_start t \<le> turn_start u"
    using retain_turn_ok(2) [OF ts1(1), of "\<lambda>t. \<forall>u \<in> set us. turn_start t \<le> turn_start u"] Cons.prems by auto
  have one: "ts1 \<noteq> []" "\<forall>t \<in> set ts1. P t" "successively next_shot ts1"
    using retain_turn_ok [OF ts1(1) P(1,2) _ Cons.prems(3)] assms(3) P(2) by auto
  have all: "\<forall>t \<in> set ts1 \<union> set us. P t" using one(2) Cons.prems(2) by auto
  have "sorted (map turn_start us)" using Cons.prems(4) by simp
  note IH = Cons.IH [OF ts1(2) all one(3) this s]
  have fin: "(\<forall>t \<in> set ts'. P t) \<and> successively next_shot ts' \<and> ts' \<noteq> []
      \<and> (\<forall>t \<in> set ts1 \<union> set us. \<exists>t' \<in> set ts'. turn_covers t' t)"
    using IH one(1) by blast
  have "\<exists>t' \<in> set ts'. turn_covers t' t" if t: "t \<in> insert u (set ts) \<union> set us" for t
  proof (cases "t \<in> set us")
    case False
    then obtain t1 where "t1 \<in> set ts1" "turn_covers t1 t" using retain_turn_covers [OF ts1(1) P(3)] t by blast
    then show ?thesis using fin by (meson UnI1 covers_trans)
  qed (use fin in auto)
  with fin show ?case by auto
qed (auto intro: covers_refl)

fun tiles :: "int \<Rightarrow> int \<Rightarrow> (int \<times> int) list \<Rightarrow> bool" where
  "tiles a b [] \<longleftrightarrow> a = b"
| "tiles a b ((s, e) # rest) \<longleftrightarrow> s = a \<and> s < e \<and> tiles e b rest"

text \<open>The shot of a turn widens it: half of each silence goes to either side.\<close>

definition widened :: "raw_turn \<Rightarrow> raw_turn \<Rightarrow> bool" where
  "widened t s \<longleftrightarrow> turn_angle_key s = turn_angle_key t \<and> turn_angle_name s = turn_angle_name t \<and> turn_start s \<le> turn_start t \<and> turn_end t \<le> turn_end s"

lemma cover_turns_tile:
  assumes "successively next_shot ts" "\<forall>t \<in> set ts. turn_within gs ge t" "ts \<noteq> []" "a \<le> turn_start (hd ts)"
  shows "list_all2 widened ts (cover_turns ge a ts) \<and> tiles a ge (map (\<lambda>t. (turn_start t, turn_end t)) (cover_turns ge a ts))"
  using assms
proof (induction ge a ts rule: cover_turns.induct)
  case (2 ge a t)
  then show ?case by (auto simp: widened_def turn_within_def)
next
  case (3 ge a t u ts)
  define s where "s = saturating_sub_i64 (turn_start u) (turn_end t)"
  define e where "e = saturating_add_i64 (turn_end t) (s sdiv 2)"
  have le: "turn_end t \<le> turn_start u" "in_i64 (turn_end t)" "in_i64 (turn_start u)" "turn_start t < turn_end t"
    using 3(2,3) by (auto simp: next_shot_def turn_within_def)
  then have "0 \<le> s" "s \<le> turn_start u - turn_end t" by (auto simp: s_def int_width_defs saturating_sub_i64_def clamp_i64_def)
  then have "turn_end t \<le> e" "e \<le> turn_start u"
    using le by (auto simp: e_def int_width_defs saturating_add_i64_def clamp_i64_def sdiv_nonneg)
  then show ?case using 3 le by (auto simp: Let_def e_def s_def widened_def)
qed simp

section \<open>Angles, speakers and words\<close>

definition angles_ok :: "(utext \<Rightarrow> utext) \<Rightarrow> document \<Rightarrow> sync_group_member list \<Rightarrow> (utext, sync_group_member) btree \<Rightarrow> bool" where
  "angles_ok lower doc ms angles \<longleftrightarrow> bt_inv angles
     \<and> (\<forall>(k, m) \<in> set angles. k = normalized_name lower (member_angle m) \<and> m \<in> set ms \<and> doc_asset doc (member_asset m) \<noteq> None)"

lemma collect_angles_ok:
  assumes "collect_angles lower doc g angles ms = Inr angles'" "angles_ok lower doc all angles" "set ms \<subseteq> set all"
  shows "angles_ok lower doc all angles'"
  using assms
proof (induction lower doc g angles ms rule: collect_angles.induct)
  case (2 lower doc g angles m ms)
  let ?k = "normalized_name lower (member_angle m)"
  have m: "doc_asset doc (member_asset m) \<noteq> None" "collect_angles lower doc g (bt_insert ?k m angles) ms = Inr angles'"
    and fresh: "\<not> bt_contains ?k angles"
    using 2(2) by (auto simp: Let_def rbind_eq_Inr split: if_split_asm)
  have "angles_ok lower doc all (bt_insert ?k m angles)"
    using 2(3,4) m(1) set_bt_insert_subset [of ?k m angles] by (auto simp: angles_ok_def bt_inv_insert)
  then show ?case using 2(1) [OF refl fresh _ m(2)] m(1) 2(4) by auto
qed simp

lemma angles_get: "angles_ok lower doc ms angles \<Longrightarrow> bt_get k angles = Some m \<Longrightarrow>
    k = normalized_name lower (member_angle m) \<and> m \<in> set ms \<and> (\<exists>a. doc_asset doc (member_asset m) = Some a)"
  by (auto simp: angles_ok_def bt_get_mem)

definition assignments_ok :: "(utext \<Rightarrow> utext) \<Rightarrow> speaker_angle_assignment list \<Rightarrow> (utext, utext \<times> utext) btree \<Rightarrow> bool" where
  "assignments_ok lower as m \<longleftrightarrow> bt_inv m
     \<and> (\<forall>(k, angle, _) \<in> set m. \<exists>a \<in> set as. k = normalized_name lower (assignment_speaker a) \<and> angle = normalized_name lower (assignment_angle_name a))"

lemma collect_assignments_ok:
  assumes "collect_assignments lower doc angles m as = Inr m'" "assignments_ok lower all m" "set as \<subseteq> set all"
  shows "assignments_ok lower all m'"
  using assms
proof (induction lower doc angles m as rule: collect_assignments.induct)
  case (2 lower doc angles m a as)
  let ?k = "normalized_name lower (assignment_speaker a)" and ?v = "(normalized_name lower (assignment_angle_name a), trim (assignment_speaker a))"
  have "assignments_ok lower all (bt_insert ?k ?v m)"
    using 2(3,4) set_bt_insert_subset [of ?k ?v m] by (auto simp: assignments_ok_def bt_inv_insert)
  then show ?case using 2(1,2,4) by (auto simp: Let_def rbind_eq_Inr split: if_split_asm)
qed simp

lemma assignments_get:
  assumes "assignments_ok lower as m" "bt_get k m = Some (angle, d)"
  shows "\<exists>a \<in> set as. k = normalized_name lower (assignment_speaker a) \<and> angle = normalized_name lower (assignment_angle_name a)"
proof -
  have "(k, angle, d) \<in> set m" using assms by (simp add: assignments_ok_def bt_get_mem)
  then show ?thesis using assms(1) by (auto simp: assignments_ok_def)
qed

lemma map_frames_mono:
  assumes "map_frames a sf pf = Inr x" "map_frames b sf pf = Inr y" "rate_ok sf" "rate_ok pf" "0 \<le> a" "a \<le> b" "b \<le> i64_max"
  shows "x \<le> y"
  using assms nearest_mono [OF assms(3,4,6)] by (simp add: map_frames_eq try_i64_def split: if_split_asm)

text \<open>What a word of the transcript becomes: its mapped frames on the group, cut to the requested range.\<close>

definition word_range :: "document \<Rightarrow> asset_transcript \<Rightarrow> timecode \<Rightarrow> timecode \<Rightarrow> timecode \<Rightarrow> transcript_word \<Rightarrow> timecode \<Rightarrow> timecode \<Rightarrow> bool" where
  "word_range doc transcript offset gs ge w a b \<longleftrightarrow>
     (\<exists>s e. map_frames (word_start w) (transcript_fps transcript) (doc_fps doc) = Inr s
        \<and> map_frames (word_end w) (transcript_fps transcript) (doc_fps doc) = Inr e
        \<and> a = max (s + offset) gs \<and> b = min (e + offset) ge)"

lemma word_range_unique: "word_range doc transcript offset gs ge w a b \<Longrightarrow> word_range doc transcript offset gs ge w a' b' \<Longrightarrow> a' = a \<and> b' = b"
  by (auto simp: word_range_def)

lemma word_turn_Inr:
  assumes "word_turn lower doc transcript asset offset (rng gs ge) angles assignments n w = Inr u"
  shows "0 \<le> word_start w" "word_start w < word_end w" "word_end w \<le> asset_duration asset"
    and "\<exists>a b. word_range doc transcript offset gs ge w a b \<and> (case u of None \<Rightarrow> b \<le> a
       | Some t \<Rightarrow> a = turn_start t \<and> b = turn_end t \<and> turn_within gs ge t
           \<and> (\<exists>s d. word_speaker w = Some s \<and> bt_get (normalized_name lower (trim s)) assignments = Some (turn_angle_key t, d))
           \<and> (\<exists>m. bt_get (turn_angle_key t) angles = Some m \<and> turn_angle_name t = member_angle m))"
proof -
  let ?map = "\<lambda>f. map_frames f (transcript_fps transcript) (doc_fps doc)"
  show ok: "0 \<le> word_start w" "word_start w < word_end w" "word_end w \<le> asset_duration asset"
    using assms by (auto simp: word_turn_def split: if_split_asm)
  obtain s e where se: "?map (word_start w) = Inr s" "?map (word_end w) = Inr e" "in_i64 (s + offset)" "in_i64 (e + offset)"
    and rest: "(case intersect (rng (s + offset) (e + offset)) (rng gs ge) of
             None \<Rightarrow> Inr None
           | Some intersection \<Rightarrow>
               rbind (ok_or (MissingSpeakerLabel n) (Option.bind (map_option trim (word_speaker w)) (\<lambda>s. if s = [] then None else Some s))) (\<lambda>speaker.
               rbind (ok_or (UnmappedSpeaker speaker) (bt_get (normalized_name lower speaker) assignments)) (\<lambda>(angle_key, display_speaker).
               rbind (ok_or (UnknownAngle angle_key) (bt_get angle_key angles)) (\<lambda>member.
               Inr (Some \<lparr>turn_speakers = [display_speaker], turn_angle_key = angle_key, turn_angle_name = member_angle member,
                          turn_start = r_start intersection, turn_end = r_end intersection\<rparr>))))) = Inr u"
    using assms by (auto simp: word_turn_def rbind_eq_Inr add_offset_def timecode_checked_add_def checked_add_i64_def split: if_split_asm)
  have "word_range doc transcript offset gs ge w (max (s + offset) gs) (min (e + offset) ge)"
    using se by (auto simp: word_range_def)
  moreover have "case u of None \<Rightarrow> min (e + offset) ge \<le> max (s + offset) gs
       | Some t \<Rightarrow> max (s + offset) gs = turn_start t \<and> min (e + offset) ge = turn_end t \<and> turn_within gs ge t
           \<and> (\<exists>s d. word_speaker w = Some s \<and> bt_get (normalized_name lower (trim s)) assignments = Some (turn_angle_key t, d))
           \<and> (\<exists>m. bt_get (turn_angle_key t) angles = Some m \<and> turn_angle_name t = member_angle m)"
  proof (cases "max (s + offset) gs < min (e + offset) ge")
    case True
    then have "in_i64 (max (s + offset) gs)" "in_i64 (min (e + offset) ge)" using se(3,4) by (auto simp: int_width_defs)
    then show ?thesis
      using rest True by (auto simp: intersect_def Let_def rbind_eq_Inr turn_within_def bind_eq_Some_conv split: if_split_asm)
  next
    case False
    then show ?thesis using rest by (auto simp: intersect_def Let_def)
  qed
  ultimately show "\<exists>a b. word_range doc transcript offset gs ge w a b \<and> (case u of None \<Rightarrow> b \<le> a
       | Some t \<Rightarrow> a = turn_start t \<and> b = turn_end t \<and> turn_within gs ge t
           \<and> (\<exists>s d. word_speaker w = Some s \<and> bt_get (normalized_name lower (trim s)) assignments = Some (turn_angle_key t, d))
           \<and> (\<exists>m. bt_get (turn_angle_key t) angles = Some m \<and> turn_angle_name t = member_angle m))"
    by blast
qed

lemma map_filter_mem [simp]: "t \<in> set (List.map_filter (\<lambda>u. u) us) \<longleftrightarrow> Some t \<in> set us"
  by (force simp: List.map_filter_def)

lemma enumerate_mem: "list_all2 (\<lambda>(i, w) u. P i w u) (enumerate n ws) us \<Longrightarrow> u \<in> set us \<Longrightarrow> \<exists>i. \<exists>w \<in> set ws. P i w u"
proof (induction ws arbitrary: n us)
  case (Cons w ws)
  then obtain v vs where us: "us = v # vs" "P n w v" "list_all2 (\<lambda>(i, w) u. P i w u) (enumerate (Suc n) ws) vs"
    by (auto simp: list_all2_Cons1)
  then show ?case using Cons.IH [OF us(3)] Cons.prems(2) by auto
qed simp

lemma enumerate_mem': "list_all2 (\<lambda>(i, w) u. P i w u) (enumerate n ws) us \<Longrightarrow> w \<in> set ws \<Longrightarrow> \<exists>i. \<exists>u \<in> set us. P i w u"
proof (induction ws arbitrary: n us)
  case (Cons w' ws)
  then obtain v vs where us: "us = v # vs" "P n w' v" "list_all2 (\<lambda>(i, w) u. P i w u) (enumerate (Suc n) ws) vs"
    by (auto simp: list_all2_Cons1)
  then show ?case using Cons.IH [OF us(3)] Cons.prems(2) by auto
qed simp

lemma word_range_mono:
  assumes "word_range doc transcript offset gs ge v a b" "word_range doc transcript offset gs ge w a' b'"
    "word_start v \<le> word_start w" "0 \<le> word_start v" "word_start w \<le> i64_max" "rate_ok (transcript_fps transcript)" "rate_ok (doc_fps doc)"
  shows "a \<le> a'"
  using assms map_frames_mono [of "word_start v" "transcript_fps transcript" "doc_fps doc" _ "word_start w"]
  by (fastforce simp: word_range_def)

lemma word_turns_sorted:
  assumes "list_all2 (\<lambda>(i, w) u. word_turn lower doc transcript asset offset (rng gs ge) angles assignments i w = Inr u) (enumerate n ws) us"
    "sorted (map word_start ws)" "rate_ok (transcript_fps transcript)" "rate_ok (doc_fps doc)" "asset_duration asset \<le> i64_max"
  shows "sorted (map turn_start (List.map_filter (\<lambda>u. u) us))"
  using assms(1,2)
proof (induction ws arbitrary: n us)
  case (Cons w ws)
  let ?turn = "word_turn lower doc transcript asset offset (rng gs ge) angles assignments"
  obtain u vs where us: "us = u # vs" "?turn n w = Inr u" "list_all2 (\<lambda>(i, w) u. ?turn i w = Inr u) (enumerate (Suc n) ws) vs"
    using Cons.prems(1) by (auto simp: list_all2_Cons1)
  have IH: "sorted (map turn_start (List.map_filter (\<lambda>u. u) vs))" using Cons us(3) by simp
  have "turn_start t \<le> turn_start t'" if "u = Some t" "Some t' \<in> set vs" for t t'
  proof -
    note t = that
    obtain i v where v: "v \<in> set ws" "?turn i v = Inr (Some t')" using enumerate_mem [OF us(3) t(2)] by blast
    have "word_start w \<le> word_start v" using Cons.prems(2) v(1) by simp
    moreover have "word_start v \<le> i64_max" using word_turn_Inr(2,3) [OF v(2)] assms(5) by linarith
    moreover have "\<exists>b. word_range doc transcript offset gs ge w (turn_start t) b" "\<exists>b. word_range doc transcript offset gs ge v (turn_start t') b"
      using word_turn_Inr(4) [OF us(2)] word_turn_Inr(4) [OF v(2)] t(1) by auto
    ultimately show ?thesis using word_turn_Inr(1) [OF us(2)] word_range_mono [OF _ _ _ _ _ assms(3,4)] by blast
  qed
  then show ?case using IH by (cases u) (auto simp: us(1) List.map_filter_simps)
qed (simp add: List.map_filter_simps)

section \<open>Shots\<close>

lemma sort_turn_start: "sorted (map turn_start (sort_key turn_order ts))"
proof -
  have "sorted_wrt (\<lambda>t u. turn_order t \<le> turn_order u) (sort_key turn_order ts)"
    using sorted_sort_key [of turn_order ts] by (simp only: sorted_map)
  then have "sorted_wrt (\<lambda>t u. turn_start t \<le> turn_start u) (sort_key turn_order ts)"
    by (rule sorted_wrt_mono_rel [rotated]) (auto simp: turn_order_def less_eq_prod_def)
  then show ?thesis by (simp only: sorted_map)
qed

lemma shots_ok:
  assumes "shots_of settings m = Inr (shots, n)" "turn_map P m" "\<And>p u. P p \<Longrightarrow> P u \<Longrightarrow> P (merge_turn p u)"
    "\<And>t. P t \<Longrightarrow> turn_within (multicam_group_start settings) (multicam_group_end settings) t"
  shows "\<exists>ts. list_all2 widened ts shots \<and> successively next_shot ts \<and> (\<forall>t \<in> set ts. P t)
    \<and> tiles (multicam_group_start settings) (multicam_group_end settings) (map (\<lambda>t. (turn_start t, turn_end t)) shots)
    \<and> (\<forall>u \<in> all_turns m. long_enough (minimum_shot_frames settings) u \<longrightarrow> (\<exists>t \<in> set ts. turn_covers t u))"
proof -
  define kept where "kept = filter (long_enough (minimum_shot_frames settings)) (sort_key turn_order (concat (bt_values m)))"
  obtain ts where ts: "fold_res retain_turn kept [] = Inr ts" "kept \<noteq> []"
    "shots = cover_turns (multicam_group_end settings) (multicam_group_start settings) ts"
    using assms(1) by (auto simp: shots_of_def kept_def Let_def rbind_eq_Inr split: if_split_asm)
  have kept: "set kept = {u \<in> all_turns m. long_enough (minimum_shot_frames settings) u}"
    using all_turns_values by (auto simp: kept_def)
  have "P u" if "u \<in> all_turns m" for u using assms(2) that by (fastforce simp: turn_map_def all_turns_def)
  then have P: "\<forall>t \<in> set [] \<union> set kept. P t" using kept by auto
  have "sorted (map turn_start kept)" unfolding kept_def using sort_turn_start by (metis sorted_filter)
  then have all: "(\<forall>t \<in> set ts. P t) \<and> successively next_shot ts \<and> (ts = [] \<longrightarrow> kept = [])
      \<and> (\<forall>t \<in> set kept. \<exists>t' \<in> set ts. turn_covers t' t)"
    using retain_turns [where P = P, OF ts(1) P assms(3)] by simp
  then have "\<forall>t \<in> set ts. turn_within (multicam_group_start settings) (multicam_group_end settings) t" "ts \<noteq> []"
    using assms(4) ts(2) by blast+
  moreover from this have "multicam_group_start settings \<le> turn_start (hd ts)" by (simp add: turn_within_def)
  ultimately have "list_all2 widened ts shots \<and> tiles (multicam_group_start settings) (multicam_group_end settings) (map (\<lambda>t. (turn_start t, turn_end t)) shots)"
    unfolding ts(3) using all cover_turns_tile by blast
  then show ?thesis using all kept by blast
qed

section \<open>Cuts\<close>

definition multicam_cut_ok :: "document \<Rightarrow> speaker_multicam_settings \<Rightarrow> sync_group_member list \<Rightarrow> speaker_multicam_cut \<Rightarrow> bool" where
  "multicam_cut_ok doc settings ms k \<longleftrightarrow>
     (\<exists>m a. m \<in> set ms \<and> cut_asset k = member_asset m \<and> cut_angle_name k = member_angle m \<and> doc_asset doc (cut_asset k) = Some a
        \<and> map_frames (cut_group_start k - member_offset m) (doc_fps doc) (asset_fps a) = Inr (cut_source_in k)
        \<and> 0 \<le> cut_source_in k \<and> cut_source_in k < asset_duration a)
     \<and> cut_timeline_start k = multicam_record_start settings + (cut_group_start k - multicam_group_start settings)
     \<and> cut_timeline_end k = multicam_record_start settings + (cut_group_end k - multicam_group_start settings)
     \<and> in_i64 (cut_timeline_end k)"

lemma cut_of_Inr:
  assumes "cut_of doc settings angles t = Inr k" "bt_get (turn_angle_key t) angles = Some m" "turn_angle_name t = member_angle m"
    "m \<in> set ms" "doc_typed doc"
  shows "multicam_cut_ok doc settings ms k" "cut_group_start k = turn_start t" "cut_group_end k = turn_end t" "cut_angle_name k = turn_angle_name t"
proof -
  obtain a where a: "doc_asset doc (member_asset m) = Some a" "in_i64 (turn_start t - member_offset m)" "0 \<le> turn_start t - member_offset m"
      "map_frames (turn_start t - member_offset m) (doc_fps doc) (asset_fps a) = Inr (cut_source_in k)" "cut_source_in k < asset_duration a"
    and k: "cut_asset k = member_asset m" "cut_angle_name k = turn_angle_name t" "cut_group_start k = turn_start t" "cut_group_end k = turn_end t"
      "cut_timeline_start k = multicam_record_start settings + (turn_start t - multicam_group_start settings)"
      "cut_timeline_end k = multicam_record_start settings + (turn_start t - multicam_group_start settings) + (turn_end t - turn_start t)"
      "in_i64 (cut_timeline_end k)"
    using assms(1,2) by (auto simp: cut_of_def rbind_eq_Inr add_offset_def timecode_checked_add_def checked_add_i64_def
        timecode_checked_sub_def checked_sub_i64_def split: if_split_asm)
  have "rate_ok (doc_fps doc)" "rate_ok (asset_fps a)" using assms(5) doc_asset_mem [OF a(1)] by (auto simp: doc_typed_def list_all_iff)
  then have "0 \<le> cut_source_in k"
    using a(2-4) nearest_nonneg [of "doc_fps doc" "asset_fps a" "turn_start t - member_offset m"] by (auto simp: map_frames_eq try_i64_def int_width_defs split: if_split_asm)
  then show "multicam_cut_ok doc settings ms k" using a k assms(3,4) by (auto simp: multicam_cut_ok_def)
  show "cut_group_start k = turn_start t" "cut_group_end k = turn_end t" "cut_angle_name k = turn_angle_name t" using k by simp_all
qed

lemma tiles_last: "tiles a b xs \<Longrightarrow> xs \<noteq> [] \<Longrightarrow> snd (last xs) = b"
proof (induction a b xs rule: tiles.induct)
  case (2 a b s e rest)
  then show ?case by (cases rest) auto
qed simp

lemma tiles_shift: "tiles a b xs \<Longrightarrow> tiles (a + d) (b + d) (map (\<lambda>(s, e). (s + d, e + d)) xs)"
  by (induction a b xs rule: tiles.induct) auto

definition group_ranges :: "speaker_multicam_cut list \<Rightarrow> (timecode \<times> timecode) list" where
  "group_ranges cs = map (\<lambda>k. (cut_group_start k, cut_group_end k)) cs"

definition timeline_ranges :: "speaker_multicam_cut list \<Rightarrow> (timecode \<times> timecode) list" where
  "timeline_ranges cs = map (\<lambda>k. (cut_timeline_start k, cut_timeline_end k)) cs"

lemma timeline_ranges_shift:
  assumes "\<forall>k \<in> set cs. multicam_cut_ok doc settings ms k"
  shows "timeline_ranges cs = map (\<lambda>(s, e). (s + (multicam_record_start settings - multicam_group_start settings),
    e + (multicam_record_start settings - multicam_group_start settings))) (group_ranges cs)"
  using assms by (auto simp: timeline_ranges_def group_ranges_def multicam_cut_ok_def)

definition turn_ok :: "speaker_multicam_settings \<Rightarrow> (utext, sync_group_member) btree \<Rightarrow> raw_turn \<Rightarrow> bool" where
  "turn_ok settings angles t \<longleftrightarrow> turn_within (multicam_group_start settings) (multicam_group_end settings) t
     \<and> (\<exists>m. bt_get (turn_angle_key t) angles = Some m \<and> turn_angle_name t = member_angle m)"

lemma turn_ok_within: "turn_ok settings angles t \<Longrightarrow> turn_within (multicam_group_start settings) (multicam_group_end settings) t"
  by (simp add: turn_ok_def)

lemma turn_ok_merge: "turn_ok settings angles p \<Longrightarrow> turn_ok settings angles u \<Longrightarrow> turn_ok settings angles (merge_turn p u)"
  by (auto simp: turn_ok_def merge_within)

lemma collected_turns_ok:
  assumes "collect_turns (word_turn lower doc transcript asset offset (rng (multicam_group_start settings) (multicam_group_end settings)) angles assignments)
      gap 0 [] ws = Inr m"
  shows "turn_map (turn_ok settings angles) m"
proof -
  let ?turn = "word_turn lower doc transcript asset offset (rng (multicam_group_start settings) (multicam_group_end settings)) angles assignments"
  obtain us where us: "list_all2 (\<lambda>(i, w) u. ?turn i w = Inr u) (enumerate 0 ws) us" "fold_res (put_turn gap) (List.map_filter (\<lambda>u. u) us) [] = Inr m"
    using collect_turns_fold [OF assms] by blast
  have "turn_ok settings angles t" if t: "Some t \<in> set us" for t
  proof -
    obtain i w where "?turn i w = Inr (Some t)" using enumerate_mem [OF us(1) t] by blast
    then show ?thesis using word_turn_Inr(4) [of lower doc transcript asset offset _ _ angles assignments i w "Some t"] by (auto simp: turn_ok_def)
  qed
  then have "\<forall>u \<in> set (List.map_filter (\<lambda>u. u) us). turn_ok settings angles u" by simp
  moreover have "turn_map (turn_ok settings angles) []" by (simp add: turn_map_def)
  ultimately show ?thesis using put_turns_ok [where P = "turn_ok settings angles", OF us(2)] turn_ok_merge by blast
qed

text \<open>Every word that reaches the range is inside a collected turn of its speaker's angle.\<close>

lemma collected_turns_cover:
  assumes "collect_turns (word_turn lower doc transcript asset offset (rng gs ge) angles assignments) gap 0 [] ws = Inr m"
    "sorted (map word_start ws)" "rate_ok (transcript_fps transcript)" "rate_ok (doc_fps doc)" "asset_duration asset \<le> i64_max"
    "w \<in> set ws" "word_range doc transcript offset gs ge w a b" "a < b"
  shows "\<exists>s d t. word_speaker w = Some s \<and> bt_get (normalized_name lower (trim s)) assignments = Some (turn_angle_key t, d)
    \<and> t \<in> all_turns m \<and> turn_start t \<le> a \<and> b \<le> turn_end t"
proof -
  let ?turn = "word_turn lower doc transcript asset offset (rng gs ge) angles assignments"
  obtain us where us: "list_all2 (\<lambda>(i, w) u. ?turn i w = Inr u) (enumerate 0 ws) us" "fold_res (put_turn gap) (List.map_filter (\<lambda>u. u) us) [] = Inr m"
    using collect_turns_fold [OF assms(1)] by blast
  obtain i u where u: "u \<in> set us" "?turn i w = Inr u" using enumerate_mem' [OF us(1) assms(6)] by blast
  obtain t where t: "u = Some t" "a = turn_start t" "b = turn_end t"
    "\<exists>s d. word_speaker w = Some s \<and> bt_get (normalized_name lower (trim s)) assignments = Some (turn_angle_key t, d)"
    using word_turn_Inr(4) [OF u(2)] word_range_unique [OF assms(7)] assms(8) by (fastforce split: option.split_asm)
  have "sorted (map turn_start (List.map_filter (\<lambda>u. u) us))" by (rule word_turns_sorted [OF us(1) assms(2-5)])
  moreover have "turn_map (\<lambda>t. \<forall>u \<in> set (List.map_filter (\<lambda>u. u) us). turn_start t \<le> turn_start u) []" by (simp add: turn_map_def)
  ultimately obtain t' where t': "t' \<in> all_turns m" "turn_covers t' t" using put_turns_cover [OF us(2)] u(1) t(1) by fastforce
  obtain s d where sd: "word_speaker w = Some s" "bt_get (normalized_name lower (trim s)) assignments = Some (turn_angle_key t, d)"
    using t(4) by blast
  show ?thesis
    by (rule exI [of _ s], rule exI [of _ d], rule exI [of _ t']) (use t' t(2,3) sd in \<open>simp add: turn_covers_def\<close>)
qed

lemma plan_speaker_multicam_Inr:
  assumes "plan_speaker_multicam lower doc transcript settings = Inr p" "check_multicam_request doc settings = Inr grp"
    "reference_member doc transcript grp = Inr (reference, asset)"
  obtains angles assignments m shots where
    "collect_angles lower doc (sync_group_id grp) [] (members grp) = Inr angles"
    "collect_assignments lower doc angles [] (speaker_assignments settings) = Inr assignments"
    "collect_turns (word_turn lower doc transcript asset (member_offset reference)
       (rng (multicam_group_start settings) (multicam_group_end settings)) angles assignments)
       (maximum_word_gap_frames settings) 0 [] (transcript_words transcript) = Inr m"
    "shots_of settings m = Inr (shots, suppressed_short_shots p)"
    "list_all2 (\<lambda>s k. cut_of doc settings angles s = Inr k) shots (plan_cuts p)"
    "multicam_operations p = map (cut_operation (multicam_target_track settings)) (rev (plan_cuts p))"
    "\<exists>doc'. apply_batch doc (multicam_operations p) = Inr doc'"
  using assms by (auto simp: plan_speaker_multicam_def rbind_eq_Inr Let_def map_res_eq_Inr split: if_split_asm)

text \<open>The plan seen through the shots: the cuts are the widened turns, which cover the long turns of the transcript.\<close>

definition same_shot :: "raw_turn \<Rightarrow> speaker_multicam_cut \<Rightarrow> bool" where
  "same_shot t k \<longleftrightarrow> cut_group_start k \<le> turn_start t \<and> turn_end t \<le> cut_group_end k \<and> cut_angle_name k = turn_angle_name t"

lemma cuts_of_shots:
  assumes "list_all2 widened ts shots" "list_all2 (\<lambda>s k. cut_of doc settings angles s = Inr k) shots cs"
    "\<forall>t \<in> set ts. turn_ok settings angles t" "angles_ok lower doc ms angles" "doc_typed doc"
  shows "(\<forall>k \<in> set cs. multicam_cut_ok doc settings ms k) \<and> list_all2 same_shot ts cs
    \<and> group_ranges cs = map (\<lambda>t. (turn_start t, turn_end t)) shots"
  using assms(2,1,3)
proof (induction arbitrary: ts rule: list_all2_induct)
  case (Cons s shots k cs)
  then obtain t us where ts: "ts = t # us" "widened t s" "list_all2 widened us shots" by (auto simp: list_all2_Cons2)
  have w: "turn_angle_key s = turn_angle_key t" "turn_angle_name s = turn_angle_name t" "turn_start s \<le> turn_start t" "turn_end t \<le> turn_end s"
    using ts(2) by (simp_all add: widened_def)
  obtain m where m: "bt_get (turn_angle_key t) angles = Some m" "turn_angle_name t = member_angle m"
    using Cons.prems(2) by (auto simp: ts(1) turn_ok_def)
  note k = cut_of_Inr [OF Cons.hyps(1), of m ms, unfolded w, OF m _ assms(5)]
  have "m \<in> set ms" using angles_get [OF assms(4) m(1)] by blast
  then show ?case using k Cons.IH [OF ts(3)] Cons.prems(2) w ts(1) by (auto simp: group_ranges_def same_shot_def)
qed (simp add: group_ranges_def)

lemma multicam_plan_shots:
  assumes "plan_speaker_multicam lower doc transcript settings = Inr p" "check_multicam_request doc settings = Inr grp"
    "reference_member doc transcript grp = Inr (reference, asset)" "doc_typed doc"
  obtains angles assignments m ts where "angles_ok lower doc (members grp) angles" "assignments_ok lower (speaker_assignments settings) assignments"
    "collect_turns (word_turn lower doc transcript asset (member_offset reference)
       (rng (multicam_group_start settings) (multicam_group_end settings)) angles assignments)
       (maximum_word_gap_frames settings) 0 [] (transcript_words transcript) = Inr m"
    "successively next_shot ts" "\<forall>t \<in> set ts. turn_ok settings angles t"
    "\<forall>u \<in> all_turns m. long_enough (minimum_shot_frames settings) u \<longrightarrow> (\<exists>t \<in> set ts. turn_covers t u)"
    "\<forall>k \<in> set (plan_cuts p). multicam_cut_ok doc settings (members grp) k" "list_all2 same_shot ts (plan_cuts p)"
    "tiles (multicam_group_start settings) (multicam_group_end settings) (group_ranges (plan_cuts p))"
proof -
  obtain angles assignments m shots where *: "collect_angles lower doc (sync_group_id grp) [] (members grp) = Inr angles"
    "collect_assignments lower doc angles [] (speaker_assignments settings) = Inr assignments"
    "collect_turns (word_turn lower doc transcript asset (member_offset reference)
       (rng (multicam_group_start settings) (multicam_group_end settings)) angles assignments)
       (maximum_word_gap_frames settings) 0 [] (transcript_words transcript) = Inr m"
    "shots_of settings m = Inr (shots, suppressed_short_shots p)"
    "list_all2 (\<lambda>s k. cut_of doc settings angles s = Inr k) shots (plan_cuts p)"
    by (rule plan_speaker_multicam_Inr [OF assms(1-3)]) (rule that)
  have angles: "angles_ok lower doc (members grp) angles"
    by (rule collect_angles_ok [OF *(1)]) (simp_all add: angles_ok_def)
  moreover have "assignments_ok lower (speaker_assignments settings) assignments"
    by (rule collect_assignments_ok [OF *(2)]) (simp_all add: assignments_ok_def)
  moreover have "\<exists>ts. list_all2 widened ts shots \<and> successively next_shot ts \<and> (\<forall>t \<in> set ts. turn_ok settings angles t)
      \<and> tiles (multicam_group_start settings) (multicam_group_end settings) (map (\<lambda>t. (turn_start t, turn_end t)) shots)
      \<and> (\<forall>u \<in> all_turns m. long_enough (minimum_shot_frames settings) u \<longrightarrow> (\<exists>t \<in> set ts. turn_covers t u))"
    by (rule shots_ok [where P = "turn_ok settings angles", OF *(4) collected_turns_ok [OF *(3)]])
      (erule turn_ok_merge turn_ok_within, assumption?)+
  then obtain ts where ts: "list_all2 widened ts shots" "successively next_shot ts" "\<forall>t \<in> set ts. turn_ok settings angles t"
      "tiles (multicam_group_start settings) (multicam_group_end settings) (map (\<lambda>t. (turn_start t, turn_end t)) shots)"
      "\<forall>u \<in> all_turns m. long_enough (minimum_shot_frames settings) u \<longrightarrow> (\<exists>t \<in> set ts. turn_covers t u)"
    by (elim exE conjE) (rule that)
  moreover have "(\<forall>k \<in> set (plan_cuts p). multicam_cut_ok doc settings (members grp) k) \<and> list_all2 same_shot ts (plan_cuts p)
    \<and> group_ranges (plan_cuts p) = map (\<lambda>t. (turn_start t, turn_end t)) shots"
    by (rule cuts_of_shots [OF ts(1) *(5) ts(3) angles assms(4)])
  ultimately show thesis using that *(3) by simp
qed

lemma neighbours_differ:
  assumes "list_all2 same_shot ts cs" "successively next_shot ts" "\<forall>t \<in> set ts. turn_ok settings angles t" "angles_ok lower doc ms angles"
  shows "successively (\<lambda>k l. normalized_name lower (cut_angle_name k) \<noteq> normalized_name lower (cut_angle_name l)) cs"
proof -
  have key: "turn_angle_key t = normalized_name lower (cut_angle_name k)" if "same_shot t k" "t \<in> set ts" for t k
    using that assms(3) angles_get [OF assms(4)] by (auto simp: turn_ok_def same_shot_def)
  have "i < length cs \<Longrightarrow> turn_angle_key (ts ! i) = normalized_name lower (cut_angle_name (cs ! i))" for i
    using key assms(1) by (auto simp: list_all2_conv_all_nth)
  then show ?thesis
    using assms(1,2) by (auto simp: successively_conv_nth next_shot_def list_all2_conv_all_nth)
qed

lemma list_all2_mem: "list_all2 R xs ys \<Longrightarrow> x \<in> set xs \<Longrightarrow> \<exists>y \<in> set ys. R x y"
  by (induction rule: list_all2_induct) auto

lemma group_range_fits:
  assumes "check_multicam_request doc settings = Inr grp" "\<forall>k \<in> set cs. multicam_cut_ok doc settings ms k"
    "tiles (multicam_group_start settings) (multicam_group_end settings) (group_ranges cs)"
  shows "in_i64 (multicam_group_end settings - multicam_group_start settings)"
proof -
  have g: "multicam_group_start settings < multicam_group_end settings" "0 \<le> multicam_record_start settings"
    using assms(1) by (auto simp: check_multicam_request_def split: if_split_asm)
  then have "cs \<noteq> []" using assms(3) by (auto simp: group_ranges_def)
  then have "cut_group_end (last cs) = multicam_group_end settings" "last cs \<in> set cs"
    using tiles_last [OF assms(3)] by (simp_all add: group_ranges_def last_map)
  then show ?thesis using assms(2) g by (auto simp: multicam_cut_ok_def int_width_defs)
qed

text \<open>A word is seen: its speaker is assigned to an angle, and one cut of that angle covers its frames.\<close>

definition speech_shown :: "(utext \<Rightarrow> utext) \<Rightarrow> speaker_multicam_settings \<Rightarrow> speaker_multicam_cut list \<Rightarrow> transcript_word \<Rightarrow> timecode \<Rightarrow> timecode \<Rightarrow> bool" where
  "speech_shown lower settings cs w a b \<longleftrightarrow>
     (\<exists>s. word_speaker w = Some s \<and> (\<exists>x \<in> set (speaker_assignments settings). \<exists>k \<in> set cs.
        normalized_name lower (assignment_speaker x) = normalized_name lower (trim s)
      \<and> normalized_name lower (assignment_angle_name x) = normalized_name lower (cut_angle_name k)
      \<and> cut_group_start k \<le> a \<and> b \<le> cut_group_end k))"

lemma multicam_cuts_tile:
  assumes "plan_speaker_multicam lower doc transcript settings = Inr p" "doc_typed doc"
    and "check_multicam_request doc settings = Inr grp" "reference_member doc transcript grp = Inr (reference, asset)"
  shows "tiles (multicam_group_start settings) (multicam_group_end settings) (group_ranges (plan_cuts p))"
    and "tiles (multicam_record_start settings) (multicam_record_start settings + (multicam_group_end settings - multicam_group_start settings))
      (timeline_ranges (plan_cuts p))"
    and "successively (\<lambda>k l. normalized_name lower (cut_angle_name k) \<noteq> normalized_name lower (cut_angle_name l)) (plan_cuts p)"
    and "\<forall>k \<in> set (plan_cuts p). multicam_cut_ok doc settings (members grp) k"
proof -
  obtain angles assignments m ts where angles: "angles_ok lower doc (members grp) angles"
    and assignments: "assignments_ok lower (speaker_assignments settings) assignments"
    and m: "collect_turns (word_turn lower doc transcript asset (member_offset reference)
       (rng (multicam_group_start settings) (multicam_group_end settings)) angles assignments)
       (maximum_word_gap_frames settings) 0 [] (transcript_words transcript) = Inr m"
    and ts: "successively next_shot ts" "\<forall>t \<in> set ts. turn_ok settings angles t"
      "\<forall>u \<in> all_turns m. long_enough (minimum_shot_frames settings) u \<longrightarrow> (\<exists>t \<in> set ts. turn_covers t u)"
    and cuts: "\<forall>k \<in> set (plan_cuts p). multicam_cut_ok doc settings (members grp) k" "list_all2 same_shot ts (plan_cuts p)"
    and tile: "tiles (multicam_group_start settings) (multicam_group_end settings) (group_ranges (plan_cuts p))"
    by (rule multicam_plan_shots [OF assms(1,3,4,2)]) (rule that)
  show "tiles (multicam_group_start settings) (multicam_group_end settings) (group_ranges (plan_cuts p))"
    and "\<forall>k \<in> set (plan_cuts p). multicam_cut_ok doc settings (members grp) k" by (rule tile, rule cuts(1))
  show "tiles (multicam_record_start settings) (multicam_record_start settings + (multicam_group_end settings - multicam_group_start settings))
      (timeline_ranges (plan_cuts p))"
    using tiles_shift [OF tile, of "multicam_record_start settings - multicam_group_start settings"] timeline_ranges_shift [OF cuts(1)] by (simp add: algebra_simps)
  show "successively (\<lambda>k l. normalized_name lower (cut_angle_name k) \<noteq> normalized_name lower (cut_angle_name l)) (plan_cuts p)"
    by (rule neighbours_differ [OF cuts(2) ts(1,2) angles])
qed

lemma multicam_speech_is_shown:
  assumes "plan_speaker_multicam lower doc transcript settings = Inr p" "doc_typed doc"
    and "check_multicam_request doc settings = Inr grp" "reference_member doc transcript grp = Inr (reference, asset)"
    and "sorted (map word_start (transcript_words transcript))" "w \<in> set (transcript_words transcript)"
    and "word_range doc transcript (member_offset reference) (multicam_group_start settings) (multicam_group_end settings) w a b"
    and "a < b" "minimum_shot_frames settings \<le> b - a"
  shows "speech_shown lower settings (plan_cuts p) w a b"
proof -
  obtain angles assignments m ts where angles: "angles_ok lower doc (members grp) angles"
    and assignments: "assignments_ok lower (speaker_assignments settings) assignments"
    and m: "collect_turns (word_turn lower doc transcript asset (member_offset reference)
       (rng (multicam_group_start settings) (multicam_group_end settings)) angles assignments)
       (maximum_word_gap_frames settings) 0 [] (transcript_words transcript) = Inr m"
    and ts: "successively next_shot ts" "\<forall>t \<in> set ts. turn_ok settings angles t"
      "\<forall>u \<in> all_turns m. long_enough (minimum_shot_frames settings) u \<longrightarrow> (\<exists>t \<in> set ts. turn_covers t u)"
    and cuts: "\<forall>k \<in> set (plan_cuts p). multicam_cut_ok doc settings (members grp) k" "list_all2 same_shot ts (plan_cuts p)"
    and tile: "tiles (multicam_group_start settings) (multicam_group_end settings) (group_ranges (plan_cuts p))"
    by (rule multicam_plan_shots [OF assms(1,3,4,2)]) (rule that)
  have room: "in_i64 (multicam_group_end settings - multicam_group_start settings)"
    by (rule group_range_fits [OF assms(3) cuts(1) tile])
  have rates: "rate_ok (transcript_fps transcript)" "rate_ok (doc_fps doc)" "asset_duration asset \<le> i64_max"
    using assms(2,4) doc_asset_mem by (fastforce simp: reference_member_def rbind_eq_Inr doc_typed_def list_all_iff int_width_defs split: if_split_asm)+
  obtain s d u where u: "word_speaker w = Some s" "bt_get (normalized_name lower (trim s)) assignments = Some (turn_angle_key u, d)"
      "u \<in> all_turns m" "turn_start u \<le> a" "b \<le> turn_end u"
    using collected_turns_cover [OF m assms(5) rates assms(6-8)] by blast
  have "turn_ok settings angles u" using collected_turns_ok [OF m] u(3) by (auto simp: turn_map_def all_turns_def)
  then have "long_enough (minimum_shot_frames settings) u"
    using u(4,5) assms(8,9) room
    by (auto simp: long_enough_def timecode_checked_sub_def checked_sub_i64_def turn_ok_def turn_within_def int_width_defs)
  then obtain t where t: "t \<in> set ts" "turn_covers t u" using ts(3) u(3) by blast
  then obtain k where k: "k \<in> set (plan_cuts p)" "same_shot t k" using list_all2_mem [OF cuts(2)] by blast
  have "turn_angle_key t = normalized_name lower (cut_angle_name k)"
    using ts(2) t(1) k(2) angles_get [OF angles] by (auto simp: turn_ok_def same_shot_def)
  moreover obtain x where x: "x \<in> set (speaker_assignments settings)" "normalized_name lower (trim s) = normalized_name lower (assignment_speaker x)"
    "turn_angle_key u = normalized_name lower (assignment_angle_name x)"
    using assignments_get [OF assignments u(2)] by blast
  moreover have "turn_angle_key t = turn_angle_key u" "cut_group_start k \<le> a" "b \<le> cut_group_end k"
    using t(2) k(2) u(4,5) by (auto simp: turn_covers_def same_shot_def)
  ultimately show ?thesis unfolding speech_shown_def using u(1) k(1) by (intro exI [of _ s] conjI bexI [of _ x] bexI [of _ k]) simp_all
qed

definition cut_window :: "speaker_multicam_cut \<Rightarrow> asset_id \<times> timecode \<times> timecode \<times> timecode" where
  "cut_window k = (cut_asset k, cut_source_in k, cut_timeline_start k, cut_timeline_end k)"

lemma cut_operation_overwrite: "map (cut_operation t) ks = map (overwrite_op t) (map cut_window ks)"
  by (simp add: cut_operation_def overwrite_op_def cut_window_def)

lemma tiles_in_order: "tiles a b xs \<Longrightarrow> sorted_wrt (\<lambda>(_, e) (s, _). e \<le> s) xs \<and> (\<forall>(s, e) \<in> set xs. a \<le> s)"
  by (induction a b xs rule: tiles.induct) fastforce+

lemma multicam_cuts_placed:
  assumes "tiles a b (timeline_ranges cs)" "apply_batch doc (map (cut_operation t) (rev cs)) = Inr doc'"
  shows "\<exists>tr. doc_track doc' t = Some tr \<and> (\<forall>k \<in> set cs. placed doc' (clips tr) (cut_window k))"
proof -
  have v: "validate_document doc = Inr ()" and run: "fold_res apply_step (map (overwrite_op t) (map cut_window (rev cs))) doc = Inr doc'"
    using assms(2) by (auto simp: apply_batch_def apply_batch_inner_def rbind_eq_Inr cut_operation_overwrite
        split: if_split_asm dest!: batch_loop_run)
  have ne: "cs \<noteq> []" using assms(2) by (auto simp: apply_batch_def apply_batch_inner_def)
  have "sorted_wrt (\<lambda>k l. cut_timeline_end k \<le> cut_timeline_start l) cs"
    using tiles_in_order [OF assms(1)] by (simp add: timeline_ranges_def sorted_wrt_map)
  then have sorted: "sorted_wrt (\<lambda>(_, _, s, _) (_, _, _, e). e \<le> s) (map cut_window (rev cs))"
    by (simp add: sorted_wrt_map cut_window_def sorted_wrt_rev)
  obtain k ks where "rev cs = k # ks" using ne by (cases "rev cs") auto
  then obtain d where k: "apply_step (ThreePointEdit t (cut_asset k) (Some (cut_source_in k)) None (Some (cut_timeline_start k)) (Some (cut_timeline_end k)) Overwrite) doc = Inr d"
    using run by (auto simp: rbind_eq_Inr overwrite_op_def cut_window_def)
  obtain n where n: "find_track doc t = Inr n" using overwrite_step [OF v k] by blast
  note o = overwrites_placed [OF run v n sorted]
  then have "doc_track doc' t = Some (tracks doc' ! n)" by (intro doc_track_find) simp
  then show ?thesis using o by simp
qed

lemma plan_parts:
  assumes "plan_speaker_multicam lower doc transcript settings = Inr p"
  shows "\<exists>grp reference asset. check_multicam_request doc settings = Inr grp \<and> reference_member doc transcript grp = Inr (reference, asset)"
    and "plan_group_start p = multicam_group_start settings" "plan_group_end p = multicam_group_end settings"
    and "plan_record_start p = multicam_record_start settings" "plan_target_track p = multicam_target_track settings"
    and "multicam_group_start settings < multicam_group_end settings"
    and "\<exists>doc'. apply_batch doc (multicam_operations p) = Inr doc'"
    and "multicam_operations p = map (cut_operation (multicam_target_track settings)) (rev (plan_cuts p))"
  using assms by (auto simp: plan_speaker_multicam_def check_multicam_request_def rbind_eq_Inr Let_def split: if_split_asm)

section \<open>A sample interview\<close>

definition sample_interview :: document where
  "sample_interview = sample_project\<lparr>media_pool := [sample_asset, sample_asset\<lparr>asset_id := 2\<rparr>],
     catalog := (catalog sample_project)\<lparr>sync_groups := [\<lparr>sync_group_id = 1, sync_group_name = ''interview'',
       members = [\<lparr>member_asset = 1, member_offset = 0, angle_name = ''wide''\<rparr>,
                  \<lparr>member_asset = 2, member_offset = -10, angle_name = '' close''\<rparr>]\<rparr>]\<rparr>\<rparr>"

definition sample_dialogue :: asset_transcript where
  "sample_dialogue = \<lparr>transcript_asset = 1, transcript_content_sha256 = [], transcript_fps = asset_fps sample_asset,
     transcript_words = [
       \<lparr>word_text = ascii ''so'', word_start = 0, word_end = 8, word_speaker = Some (ascii ''ann'')\<rparr>,
       \<lparr>word_text = ascii ''why'', word_start = 9, word_end = 12, word_speaker = Some (ascii ''ann'')\<rparr>,
       \<lparr>word_text = ascii ''because'', word_start = 22, word_end = 40, word_speaker = Some (ascii ''bob '')\<rparr>]\<rparr>"

definition sample_multicam :: speaker_multicam_settings where
  "sample_multicam = \<lparr>multicam_sync_group = 1, multicam_target_track = 1, multicam_group_start = 0, multicam_group_end = 60,
     multicam_record_start = 10, maximum_word_gap_frames = 12, minimum_shot_frames = 5,
     speaker_assignments = [\<lparr>assignment_speaker = ascii ''ann'', assignment_angle_name = ascii ''wide''\<rparr>,
                            \<lparr>assignment_speaker = ascii ''bob'', assignment_angle_name = ascii ''close ''\<rparr>]\<rparr>"

lemma sample_multicam_computed:
  "(case plan_speaker_multicam (\<lambda>t. t) sample_interview sample_dialogue sample_multicam of
      Inr p \<Rightarrow> timeline_ranges (plan_cuts p) = [(10, 31), (31, 70)] \<and> map cut_source_in (plan_cuts p) = [0, 25]
    | Inl _ \<Rightarrow> False)"
  by code_simp

text \<open>
  The planner halves a silence without regard to the rate of the sources. When the third word starts two frames later the
  first shot is 22 frames long, which no range of a 24 fps source from frame 0 maps to in a 30 fps project, and the
  plan is refused as not applicable.
\<close>

lemma sample_multicam_refused:
  "plan_speaker_multicam (\<lambda>t. t) sample_interview
     (sample_dialogue\<lparr>transcript_words := map (\<lambda>w. w\<lparr>word_start := (if word_start w = 22 then 24 else word_start w)\<rparr>) (transcript_words sample_dialogue)\<rparr>)
     sample_multicam = Inl (PlanNotApplicable_Multicam (OperationFailed 2 (TimelineError (InvalidThreePointSource 0 100))))"
  by code_simp

lemma sample_reference:
  "(case check_multicam_request sample_interview sample_multicam of Inr grp \<Rightarrow>
      (case reference_member sample_interview sample_dialogue grp of Inr (reference, _) \<Rightarrow> member_offset reference = 0 | Inl _ \<Rightarrow> False)
    | Inl _ \<Rightarrow> False)"
  by code_simp

lemma sample_word_range: "word_range sample_interview sample_dialogue 0 0 60 (transcript_words sample_dialogue ! 2) 28 50"
proof -
  have "map_frames 22 \<lparr>numerator = 24, denominator = 1\<rparr> \<lparr>numerator = 30, denominator = 1\<rparr> = Inr 28"
    "map_frames 40 \<lparr>numerator = 24, denominator = 1\<rparr> \<lparr>numerator = 30, denominator = 1\<rparr> = Inr 50" by code_simp+
  then show ?thesis
    by (simp add: word_range_def sample_dialogue_def sample_interview_def sample_project_def sample_asset_def)
qed

section \<open>Properties\<close>

text \<open>
  Claim C17. A multicam plan does what it promises. Let a plan be returned for a document of well-typed values. Its cuts follow
  each other without gap or overlap from the start to the end of the group range, none of them empty, and their places on
  the timeline do so from the record start on; neighbours show different angles; each cut names a member of the sync group
  and the frame of its source that the place of the cut maps to, inside the asset. The operations are accepted as a batch,
  and in the document they lead to, the target track holds a clip for every cut, with its asset, first source frame,
  start and end. When the words of the transcript are ordered by their start, every word that overlaps the group range by
  at least the minimum shot length has a speaker with an assigned angle, and one cut of that angle covers its frames.
\<close>

theorem multicam_plan_keeps_promises:
  assumes "plan_speaker_multicam lower doc transcript settings = Inr p" "doc_typed doc"
  shows "\<exists>grp reference asset doc' tr. check_multicam_request doc settings = Inr grp \<and> reference_member doc transcript grp = Inr (reference, asset)
    \<and> plan_group_start p < plan_group_end p \<and> tiles (plan_group_start p) (plan_group_end p) (group_ranges (plan_cuts p))
    \<and> tiles (plan_record_start p) (plan_record_start p + (plan_group_end p - plan_group_start p)) (timeline_ranges (plan_cuts p))
    \<and> successively (\<lambda>k l. normalized_name lower (cut_angle_name k) \<noteq> normalized_name lower (cut_angle_name l)) (plan_cuts p)
    \<and> (\<forall>k \<in> set (plan_cuts p). multicam_cut_ok doc settings (members grp) k)
    \<and> apply_batch doc (multicam_operations p) = Inr doc' \<and> doc_track doc' (plan_target_track p) = Some tr
    \<and> (\<forall>k \<in> set (plan_cuts p). placed doc' (clips tr) (cut_window k))
    \<and> (sorted (map word_start (transcript_words transcript)) \<longrightarrow> (\<forall>w \<in> set (transcript_words transcript). \<forall>a b.
         word_range doc transcript (member_offset reference) (plan_group_start p) (plan_group_end p) w a b \<longrightarrow> a < b
         \<longrightarrow> minimum_shot_frames settings \<le> b - a \<longrightarrow> speech_shown lower settings (plan_cuts p) w a b))"
proof -
  note parts = plan_parts [OF assms(1)]
  obtain grp reference asset where g: "check_multicam_request doc settings = Inr grp" "reference_member doc transcript grp = Inr (reference, asset)"
    using parts(1) by blast
  note t = multicam_cuts_tile [OF assms g] and speech = multicam_speech_is_shown [OF assms g]
  obtain doc' where doc': "apply_batch doc (multicam_operations p) = Inr doc'" using parts(7) by blast
  obtain tr where tr: "doc_track doc' (multicam_target_track settings) = Some tr" "\<forall>k \<in> set (plan_cuts p). placed doc' (clips tr) (cut_window k)"
    using multicam_cuts_placed [OF t(2) doc' [unfolded parts(8)]] by blast
  show ?thesis
    unfolding parts(2-5)
    by (intro exI [of _ grp] exI [of _ reference] exI [of _ asset] exI [of _ doc'] exI [of _ tr] conjI impI ballI allI)
      (use g parts(6) t doc' tr in \<open>auto intro: speech\<close>)
qed

theorem multicam_plan_keeps_promises_witness:
  "\<exists>p doc' tr. plan_speaker_multicam (\<lambda>t. t) sample_interview sample_dialogue sample_multicam = Inr p
    \<and> timeline_ranges (plan_cuts p) = [(10, 31), (31, 70)] \<and> map cut_source_in (plan_cuts p) = [0, 25]
    \<and> apply_batch sample_interview (multicam_operations p) = Inr doc' \<and> doc_track doc' (plan_target_track p) = Some tr
    \<and> (\<forall>k \<in> set (plan_cuts p). placed doc' (clips tr) (cut_window k))
    \<and> speech_shown (\<lambda>t. t) sample_multicam (plan_cuts p) (transcript_words sample_dialogue ! 2) 28 50"
proof -
  obtain p where p: "plan_speaker_multicam (\<lambda>t. t) sample_interview sample_dialogue sample_multicam = Inr p"
    "timeline_ranges (plan_cuts p) = [(10, 31), (31, 70)]" "map cut_source_in (plan_cuts p) = [0, 25]"
    using sample_multicam_computed by (auto split: sum.split_asm)
  have ty: "doc_typed sample_interview" by code_simp
  obtain grp reference asset doc' tr where g: "check_multicam_request sample_interview sample_multicam = Inr grp"
      "reference_member sample_interview sample_dialogue grp = Inr (reference, asset)"
    and r: "apply_batch sample_interview (multicam_operations p) = Inr doc'" "doc_track doc' (plan_target_track p) = Some tr"
      "\<forall>k \<in> set (plan_cuts p). placed doc' (clips tr) (cut_window k)"
    and speech: "sorted (map word_start (transcript_words sample_dialogue)) \<longrightarrow> (\<forall>w \<in> set (transcript_words sample_dialogue). \<forall>a b.
         word_range sample_interview sample_dialogue (member_offset reference) (plan_group_start p) (plan_group_end p) w a b \<longrightarrow> a < b
         \<longrightarrow> minimum_shot_frames sample_multicam \<le> b - a \<longrightarrow> speech_shown (\<lambda>t. t) sample_multicam (plan_cuts p) w a b)"
    using multicam_plan_keeps_promises [OF p(1) ty] by (elim exE conjE) (rule that)
  have "member_offset reference = 0" using sample_reference g by simp
  moreover have "plan_group_start p = 0" "plan_group_end p = 60" using plan_parts(2,3) [OF p(1)] by (simp_all add: sample_multicam_def)
  moreover have "sorted (map word_start (transcript_words sample_dialogue))" "minimum_shot_frames sample_multicam \<le> 50 - 28"
    "transcript_words sample_dialogue ! 2 \<in> set (transcript_words sample_dialogue)"
    by (simp_all add: sample_dialogue_def sample_multicam_def)
  ultimately have "speech_shown (\<lambda>t. t) sample_multicam (plan_cuts p) (transcript_words sample_dialogue ! 2) 28 50"
    using speech sample_word_range by simp
  with p r show ?thesis by (intro exI [of _ p] exI [of _ doc'] exI [of _ tr]) simp
qed

end
