(* ===== verification/Spec2Isabelle.thy ===== *)
theory Spec2Isabelle
  imports Timeline_Props Actor_Props Transcript_Props Captions_Props Caption_Plan Reframe_Props Multicam_Props
begin

text \<open>
  A verification development for the editing core of Kinewright, a video editor in Rust. The core lives in
  \<^verbatim>\<open>src/crates/kinewright-core/src\<close> and is what every other part of the program (the desktop application, the
  agent server, the media engine, the project files) edits and reads: a document of tracks, clips, effects,
  titles, markers, audio routing and media, changed only by validated operations, and owned by one actor that
  keeps its undo history, its saves and its manual producer.

  \<^bold>\<open>How the parts interact.\<close> A client sends a message to the actor (\<^verbatim>\<open>actor.rs\<close>). A command reaches the state of
  the actor, which runs a batch of operations (\<^verbatim>\<open>operation.rs\<close>) on a copy of the document. Each operation checks
  its arguments, uses the frame arithmetic (\<^verbatim>\<open>time.rs\<close>) and the curve arithmetic (\<^verbatim>\<open>automation.rs\<close>), consults the
  effect registry (\<^verbatim>\<open>effect.rs\<close>) and the colour rules (\<^verbatim>\<open>color.rs\<close>), and the result is accepted only when the whole
  document validates. An accepted batch becomes an undo entry and a journal entry; the journal is exported,
  restored by replay, cut off behind a save, and, for a manual producer, serialized and hashed incrementally.

  \<^bold>\<open>Theories and the code they model.\<close>
  \<^item> \<open>Rust_Prelude\<close>, \<open>Rust_BTree\<close>: the integer types of Rust at their widths (checked, saturating and wrapping
    operations on \<^typ>\<open>int\<close> with explicit ranges), results as sums with the question-mark operator, ordered maps as sorted
    association lists. Shared simplification sets: \<open>result_simps\<close>, \<open>int_width_defs\<close>.
  \<^item> \<open>Time_Map\<close>: \<^verbatim>\<open>time.rs\<close>. Frame rates, the rounding map between source and project frames, its inverse, the
    search for a source range that covers a gap, the tile search.
  \<^item> \<open>Automation\<close>: \<^verbatim>\<open>automation.rs\<close>. Keyframe curves: validation, evaluation with easing in integers, rebasing a
    curve onto a clip window, clamping and shifting.
  \<^item> \<open>Color_Model\<close>, \<open>Effect_Registry\<close>, \<open>Title_Model\<close>: \<^verbatim>\<open>color.rs\<close>, the integer part of \<^verbatim>\<open>effect.rs\<close>, \<^verbatim>\<open>title.rs\<close> and
    \<^verbatim>\<open>transition.rs\<close>: source classification, every registered effect with its parameter ranges, colour-node stages
    and their order, titles and transitions.
  \<^item> \<open>Doc_Types\<close>, \<open>Doc_Model\<close>: \<^verbatim>\<open>model.rs\<close>. The document record, its parts and lookups.
  \<^item> \<open>Validate\<close>: \<^verbatim>\<open>validate_document\<close> of \<^verbatim>\<open>operation.rs\<close> and everything it calls, in the order of the source, with the
    source's error for every refused document.
  \<^item> \<open>Edit_Base\<close>, \<open>Timeline_Ops\<close>, \<open>Project_Ops\<close>, \<open>Operation\<close>: all operations of \<^verbatim>\<open>operation.rs\<close>: helpers, edits of the
    timeline, edits of project data, and the dispatch with single and batch application.
  \<^item> \<open>Timeline_Props\<close>: the properties of the timeline edits.
  \<^item> \<open>Editor_Spec\<close>: the locale \<open>checked_editor\<close>, a validity predicate and a step that keeps it, with what follows for
    linked undo and redo lists; \<open>Operation\<close> interprets it on \<open>valid_document\<close> and \<open>apply_step\<close>, and the history
    theories rest on the facts of that interpretation.
  \<^item> \<open>History\<close>, \<open>History_Session\<close>, \<open>History_Props\<close>: the state of the actor (\<^verbatim>\<open>CoreState\<close> of \<^verbatim>\<open>actor.rs\<close>), \<^verbatim>\<open>history.rs\<close>,
    \<^verbatim>\<open>history_transition.rs\<close> and \<^verbatim>\<open>journal.rs\<close>: commands, undo and redo, coalesced gestures, export, restore by replay,
    floors of pending saves, recovery close. \<open>session\<close> is the inductive set of states that commands, saves and
    restores reach.
  \<^item> \<open>Sha256\<close>: \<^verbatim>\<open>crates/kinewright-hash/src/lib.rs\<close>, the streaming hasher on 32-bit words.
  \<^item> \<open>Manual_History\<close>, \<open>Manual_Props\<close>: \<^verbatim>\<open>actor/manual_history.rs\<close> and the constants and types of \<^verbatim>\<open>attachment.rs\<close>: execution of a manual
    command on the live state with an exact rollback, the cached JSON of the history and its digests.
  \<^item> \<open>Core_Actor\<close>, \<open>Actor_Props\<close>: \<^verbatim>\<open>run_actor\<close> and \<^verbatim>\<open>authorize_attachment\<close> of \<^verbatim>\<open>actor.rs\<close>. \<open>core_actor\<close> is the local state of the loop,
    \<open>core_message\<close> its messages and \<open>actor_step\<close> one iteration; \<open>actor_session\<close> is the inductive set of actors that
    messages reach.
  \<^item> \<open>Rust_Text\<close>: texts as lists of code points (\<open>utext\<close>) with the trimming, splitting and joining of the standard library.
  \<^item> \<open>Transcript\<close>, \<open>Transcript_Props\<close>: editing by transcript, across the crates: words from recognised segments and words
    on the timeline (\<^verbatim>\<open>kinewright-media/src/transcript.rs\<close>), cut ranges (\<^verbatim>\<open>transcript_edit.rs\<close> of the core), the planner
    and the two handlers of the application (\<^verbatim>\<open>kinewright-app/src/transcript_edit.rs\<close>, \<^verbatim>\<open>transcript_ui.rs\<close>).
  \<^item> \<open>Captions\<close>, \<open>Captions_Props\<close>: \<^verbatim>\<open>captions.rs\<close>: cues from words, re-authoring from a script with a dynamic program, subtitle
    texts. The locale \<open>layered_costs\<close> holds the optimality argument of such a table; \<open>seg\<close> interprets it on \<open>segment_cost\<close>.
  \<^item> \<open>Track_Growth\<close>, \<open>Caption_Plan\<close>: the batch that adds a caption track (\<^verbatim>\<open>animated_caption_operations_at\<close>), run step by step on an
    accepted document; \<open>Track_Growth\<close> shows that validation does not depend on a new track or on a longer project.
  \<^item> \<open>Reframe\<close>, \<open>Reframe_Props\<close>: the subject-aware reframing of \<^verbatim>\<open>multicam.rs\<close>: the smoothing controller, the containment
    pass with its forward and backward loops, and the plan of two focus curves in percent or in basis points.
  \<^item> \<open>Overwrite\<close>, \<open>Multicam\<close>, \<open>Multicam_Props\<close>: the speaker-aware multicam planner of \<^verbatim>\<open>multicam.rs\<close>: from diarized words to turns,
    shots, cuts and overwrites. \<open>Overwrite\<close> shows that an accepted overwrite replaces its range of one track and nothing else.

  \<^bold>\<open>State, errors and loops.\<close> A struct is a record, an enum a datatype, a fallible function returns \<open>'e + 'a\<close>
  with \<open>Inl\<close> for the error of the source, a function that can panic returns an option with \<open>None\<close> for the
  panic, and a mutating method takes and returns its state. Loops are structural recursions or functions with a
  proved measure; nothing is cut off by fuel. Plain arithmetic wraps as in a release build; the debug assertion that closes
  \<^verbatim>\<open>transcript_cut_ranges_for_indices\<close> is modelled as the panic it is in a debug build. The bounds that appear (\<^verbatim>\<open>MAX_PHASE_CANDIDATES\<close>,
  \<^verbatim>\<open>MAX_TILE_SEARCH_STEPS\<close>, the history and queue budgets) are those of the source. A \<^verbatim>\<open>usize\<close> holds the length of any list in memory;
  where this matters (\<open>batches_fit\<close>) it is a named hypothesis. The dynamic program of the captions saturates its costs and uses a
  sentinel for cells not reached; a script of at most 65536 characters stays below it.

  \<^bold>\<open>What is shown.\<close> Frame arithmetic: the inverse map is exact, least and never misses, refusals of the searches
  are exhaustive when the pattern of phases repeats within the bound of the search, adjacent ranges do not drift. Curves: evaluation stays in the hull of its keys and cannot
  overflow, edits of a curve keep its values. Documents: an accepted document has unique identities, disjoint
  ordered clips, acyclic bins, single routing, and clip effects that render in range at every frame. Edits: a split
  partitions a clip and keeps its rendering, slides, rolls, slips and ripples move exactly what they should, and
  a batch equals its operations one by one. History: undo and redo refine a cursor on a list of documents, every
  session is sound, export and restore are inverse, a pending save can always be committed, equal change
  identities mean equal histories. Manual admission: atomic, with an incremental cache that equals a rebuild and
  digests of the complete text. The actor: any sequence of messages stays within the sessions of the history,
  and the history changes only with authority. Transcripts: words come out in order; for
  transcripts with no word inside another, the cut ranges of any selection are disjoint, inside their clips and complete,
  and every batch the handlers send is accepted. Captions: the dynamic program
  is optimal, re-authoring a script of at most 65536 characters loses no word and fails only in five named cases, cues respect sentences and sources, time
  stamps read back exactly, and the batch for a caption track of well-formed cues is accepted, unless a placement other than the preset's
  is asked for, which the validator always refuses. Reframing: the containment pass finds a camera path exactly when there
  is one, and a plan never panics and keeps its bounds, its speed, its intervals and its place in the clip. Multicam: the cuts tile the requested range, no speech that is long enough is
  lost, and after the batch every cut is on the track.

  \<^bold>\<open>Parameters.\<close> The text \<^verbatim>\<open>serde_json\<close> writes (\<open>json_writer\<close>, \<open>json_len\<close>) and the persistence codec
  (\<open>manual_encoder\<close>) come from outside the core and are arguments of the definitions that use them; nothing is
  assumed of them. So are the output of the speech recogniser (\<open>whisper_segment\<close>) and the Unicode tables of
  alphabetic and uppercase characters (\<open>unicode\<close>) and of lower case (\<open>to_lowercase\<close>, \<open>lower\<close>).

  \<^bold>\<open>Not modelled.\<close> The floating-point resolution of effects, scopes and audio measurement, the GPU and FFmpeg
  engine, the speech recogniser, the user interface, the agent server, and the file layer are input/output, foreign libraries or
  floating point. Threads and channels appear only as the order in which the actor handles messages, and
  subscribers only as the list of events broadcast. The x86 compression of the hasher is replaced by the
  software one. Memory sharing (\<^verbatim>\<open>Arc\<close>) is not observable. Display strings of errors are left out.
\<close>

end
